(* ===== verification/Prelude.thy ===== *)
theory Prelude
  imports Main "HOL-Library.AList"
begin

text \<open>
  What the components share: plain JavaScript objects used as dictionaries
  (\<open>Record<string, V>\<close>), the array methods the stores call, string helpers, truthiness, and
  the generic lemmas about them.

  An object is an association list in insertion order. \<open>{ ...o, [k]: v }\<close> is
  \<open>AList.update k v o\<close> (an existing key keeps its place, a new key goes last), destructuring
  \<open>{ [k]: _, ...rest }\<close> and \<open>delete o[k]\<close> are \<open>AList.delete k o\<close>, and \<open>o[k]\<close> is
  \<open>map_of o k\<close> with \<open>None\<close> for \<open>undefined\<close>. The enumeration order of
  \<open>Object.keys\<close>, \<open>values\<close> and \<open>entries\<close> is the language's: array indices first, in
  ascending order, then the other keys in insertion order.

  Strings are lists of code units (\<open>char\<close>), numbers that the code only counts with are
  \<open>int\<close>, \<open>Date\<close> values are their \<open>getTime()\<close> milliseconds, and a call to
  \<open>Date.now()\<close> or \<open>new Date()\<close> reads the \<open>clock\<close> argument: an operation runs in one
  synchronous tick and sees one time.
\<close>

named_theorems frame_simps
named_theorems key_simps

type_synonym ident = string
type_synonym 'v obj = "(string \<times> 'v) list"

record clock =
  clk_ms :: int
  clk_iso :: string

text \<open>Values of type \<open>unknown\<close>: JSON data that the stores only carry around.\<close>

datatype json =
    JNull
  | JBool bool
  | JNum int
  | JStr string
  | JArr "json list"
  | JObj "(string \<times> json) list"

text \<open>What the modelled code can throw.\<close>

datatype js_error = TypeError

text \<open>A property that may be absent, \<open>null\<close> or a value.\<close>

datatype 'a nullish = Undefined | Null | Val 'a

section \<open>Objects as dictionaries\<close>

text \<open>Well-formed objects have one entry per key.\<close>

abbreviation obj_ok :: "'v obj \<Rightarrow> bool" where
  "obj_ok m \<equiv> distinct (map fst m)"

text \<open>Array-index keys: canonical decimal numerals below \<open>2 ^ 32 - 1\<close>.\<close>

definition is_digit :: "char \<Rightarrow> bool" where
  "is_digit c \<longleftrightarrow> 48 \<le> (of_char c :: nat) \<and> (of_char c :: nat) \<le> 57"

definition dec_val :: "string \<Rightarrow> nat" where
  "dec_val s = foldl (\<lambda>n c. 10 * n + (of_char c - 48)) 0 s"

definition is_index :: "string \<Rightarrow> bool" where
  "is_index s \<longleftrightarrow> s \<noteq> [] \<and> list_all is_digit s \<and>
     (hd s \<noteq> CHR ''0'' \<or> length s = 1) \<and> dec_val s < 2 ^ 32 - 1"

definition own_entries :: "'v obj \<Rightarrow> (string \<times> 'v) list" where
  "own_entries m =
     sort_key (\<lambda>e. dec_val (fst e)) (filter (\<lambda>e. is_index (fst e)) m) @
     filter (\<lambda>e. \<not> is_index (fst e)) m"

definition own_keys :: "'v obj \<Rightarrow> string list" where
  "own_keys m = map fst (own_entries m)"

definition own_values :: "'v obj \<Rightarrow> 'v list" where
  "own_values m = map snd (own_entries m)"

text \<open>\<open>Object.fromEntries\<close>: the entries are stored one after the other.\<close>

definition from_entries :: "(string \<times> 'v) list \<Rightarrow> 'v obj" where
  "from_entries es = foldl (\<lambda>m (k, v). AList.update k v m) [] es"

text \<open>\<open>o[k] || []\<close> for an object of arrays.\<close>

definition bucket :: "'a list obj \<Rightarrow> string \<Rightarrow> 'a list" where
  "bucket m k = (case map_of m k of None \<Rightarrow> [] | Some xs \<Rightarrow> xs)"

lemma bucket_update [simp]:
  "bucket (AList.update k v m) k' = (if k = k' then v else bucket m k')"
  by (simp add: bucket_def update_conv')

lemma bucket_delete [simp]:
  "bucket (AList.delete k m) k' = (if k = k' then [] else bucket m k')"
  by (simp add: bucket_def delete_conv')

lemma bucket_Nil [simp]: "bucket [] k = []"
  by (simp add: bucket_def)

lemma obj_ok_update [simp, intro]: "obj_ok m \<Longrightarrow> obj_ok (AList.update k v m)"
  by (simp add: distinct_update)

lemma obj_ok_delete [simp, intro]: "obj_ok m \<Longrightarrow> obj_ok (AList.delete k m)"
  by (simp add: distinct_delete)

lemma map_of_obj_update [simp]: "map_of (AList.update k v m) k' = (if k' = k then Some v else map_of m k')"
  by (simp add: update_conv')

lemma map_of_obj_delete [simp]: "map_of (AList.delete k m) k' = (if k' = k then None else map_of m k')"
  by (simp add: delete_conv')

lemma obj_update_fresh: "k \<notin> fst ` set m \<Longrightarrow> AList.update k v m = m @ [(k, v)]"
  by (induction m) auto

lemma set_obj_delete: "set (AList.delete k m) = {e \<in> set m. fst e \<noteq> k}"
  by (auto simp: AList.delete_eq)

lemma set_own_entries [simp]: "set (own_entries m) = set m"
  by (auto simp: own_entries_def)

lemma set_own_keys [simp]: "set (own_keys m) = dom (map_of m)"
  by (simp add: own_keys_def dom_map_of_conv_image_fst)

lemma length_own_entries [simp]: "length (own_entries m) = length m"
  by (simp add: own_entries_def sum_length_filter_compl)

lemma distinct_own_keys: "obj_ok m \<Longrightarrow> distinct (own_keys m)"
proof -
  assume "obj_ok m"
  moreover have "length (own_keys m) = length (map fst m)"
    by (simp add: own_keys_def)
  moreover have "set (own_keys m) = set (map fst m)"
    by (simp add: own_keys_def)
  ultimately show "distinct (own_keys m)"
    by (metis card_distinct distinct_card)
qed

lemma map_of_own_entries [simp]: "obj_ok m \<Longrightarrow> map_of (own_entries m) = map_of m"
proof -
  assume ok: "obj_ok m"
  then have "distinct (map fst (own_entries m))"
    using distinct_own_keys [OF ok] by (simp add: own_keys_def)
  with ok show "map_of (own_entries m) = map_of m"
    by (intro map_of_eqI) (auto simp: map_of_eq_Some_iff)
qed

lemma in_own_values: "obj_ok m \<Longrightarrow> v \<in> set (own_values m) \<longleftrightarrow> (\<exists>k. map_of m k = Some v)"
  by (force simp: own_values_def map_of_eq_Some_iff image_iff)

lemma own_entries_arranged:
  assumes "\<forall>e \<in> set as. is_index (fst e)" "\<forall>e \<in> set bs. \<not> is_index (fst e)"
    and "sorted (map (\<lambda>e. dec_val (fst e)) as)"
  shows "own_entries (as @ bs) = as @ bs"
proof -
  have "filter (\<lambda>e. is_index (fst e)) (as @ bs) = as" "filter (\<lambda>e. \<not> is_index (fst e)) (as @ bs) = bs"
    using assms(1,2) by (auto simp: filter_id_conv filter_empty_conv)
  with assms(3) show ?thesis
    unfolding own_entries_def by (simp add: sort_key_id_if_sorted)
qed

lemma own_entries_map:
  "own_entries (map (\<lambda>e. (fst e, f e)) (own_entries m)) = map (\<lambda>e. (fst e, f e)) (own_entries m)"
proof -
  let ?g = "\<lambda>e. (fst e, f e)"
  let ?as = "map ?g (sort_key (\<lambda>e. dec_val (fst e)) (filter (\<lambda>e. is_index (fst e)) m))"
  let ?bs = "map ?g (filter (\<lambda>e. \<not> is_index (fst e)) m)"
  have "sorted (map (\<lambda>e. dec_val (fst e)) ?as)"
    by (simp add: comp_def)
  then have "own_entries (?as @ ?bs) = ?as @ ?bs"
    by (intro own_entries_arranged) auto
  then show ?thesis
    by (simp add: own_entries_def)
qed

lemma foldl_update_fresh:
  "distinct (map fst (m @ es)) \<Longrightarrow> foldl (\<lambda>m (k, v). AList.update k v m) m es = m @ es"
proof (induction es arbitrary: m)
  case (Cons e es)
  obtain k v where e: "e = (k, v)" by (cases e)
  have "AList.update k v m = m @ [(k, v)]"
    using Cons.prems e by (induction m) auto
  with Cons.IH [of "m @ [e]"] Cons.prems e show ?case
    by simp
qed simp

lemma from_entries_distinct: "distinct (map fst es) \<Longrightarrow> from_entries es = es"
  using foldl_update_fresh [of "[]" es] by (simp add: from_entries_def)

lemma sort_key_map_same: "(\<And>x. f (g x) = f x) \<Longrightarrow> sort_key f (map g xs) = map g (sort_key f xs)"
proof (induction xs)
  case (Cons x xs)
  have "insort_key f (g x) (map g ys) = map g (insort_key f x ys)" for ys
    using Cons.prems by (induction ys) auto
  with Cons show ?case by simp
qed simp

lemma update_as_map:
  "obj_ok m \<Longrightarrow> k \<in> fst ` set m \<Longrightarrow> AList.update k v m = map (\<lambda>e. if fst e = k then (k, v) else e) m"
proof (induction m)
  case (Cons e m)
  show ?case
  proof (cases "fst e = k")
    case True
    with Cons.prems(1) have "map (\<lambda>e. if fst e = k then (k, v) else e) m = m"
      by (intro map_idI) (auto simp: image_iff)
    with True show ?thesis by (cases e) auto
  next
    case False
    with Cons show ?thesis by (cases e) auto
  qed
qed simp

lemma own_entries_update:
  assumes "obj_ok m" "k \<in> fst ` set m"
  shows "own_entries (AList.update k v m) = map (\<lambda>e. if fst e = k then (k, v) else e) (own_entries m)"
proof -
  let ?g = "\<lambda>e. if fst e = k then (k, v) else e"
  have fst: "fst (?g e) = fst e" for e by simp
  have "filter (\<lambda>e. P (fst e)) (map ?g xs) = map ?g (filter (\<lambda>e. P (fst e)) xs)" for P xs
    by (induction xs) auto
  then show ?thesis
    using sort_key_map_same [of "\<lambda>e. dec_val (fst e)" ?g] fst
    unfolding update_as_map [OF assms] own_entries_def by simp
qed

end
