(* ===== verification/Js_Text.thy ===== *)
theory Js_Text
  imports Prelude
begin

text \<open>
  The string and array methods the stores use. Indices are \<open>int\<close>s where the code tests for
  \<open>-1\<close> or computes neighbours, and reading out of range gives \<open>None\<close> (\<open>undefined\<close>).
\<close>

section \<open>Strings\<close>

definition code :: "char \<Rightarrow> nat" where
  "code c = of_char c"

text \<open>The white space \<open>trim\<close> removes, among code units below 256.\<close>

definition is_space :: "char \<Rightarrow> bool" where
  "is_space c \<longleftrightarrow> code c \<in> {9, 10, 11, 12, 13, 32, 160}"

definition js_trim :: "string \<Rightarrow> string" where
  "js_trim s = rev (dropWhile is_space (rev (dropWhile is_space s)))"

definition lower_char :: "char \<Rightarrow> char" where
  "lower_char c = (let n = code c in
     if 65 \<le> n \<and> n \<le> 90 \<or> 192 \<le> n \<and> n \<le> 222 \<and> n \<noteq> 215 then char_of (n + 32) else c)"

definition upper_char :: "char \<Rightarrow> char" where
  "upper_char c = (let n = code c in
     if 97 \<le> n \<and> n \<le> 122 \<or> 224 \<le> n \<and> n \<le> 254 \<and> n \<noteq> 247 then char_of (n - 32) else c)"

definition to_lower :: "string \<Rightarrow> string" where
  "to_lower s = map lower_char s"

definition replace_char :: "char \<Rightarrow> char \<Rightarrow> string \<Rightarrow> string" where
  "replace_char a b s = map (\<lambda>c. if c = a then b else c) s"

fun starts_with :: "string \<Rightarrow> string \<Rightarrow> bool" where
  "starts_with s [] = True"
| "starts_with [] (p # ps) = False"
| "starts_with (c # cs) (p # ps) = (c = p \<and> starts_with cs ps)"

text \<open>\<open>s.includes(p)\<close>.\<close>

fun has_substring :: "string \<Rightarrow> string \<Rightarrow> bool" where
  "has_substring [] p = (p = [])"
| "has_substring (c # cs) p = (starts_with (c # cs) p \<or> has_substring cs p)"

text \<open>\<open>s.split(c)\<close> for a one-character separator: never the empty list.\<close>

fun split_char :: "char \<Rightarrow> string \<Rightarrow> string list" where
  "split_char d [] = [[]]"
| "split_char d (c # cs) =
     (if c = d then [] # split_char d cs
      else (case split_char d cs of [] \<Rightarrow> [[c]] | p # ps \<Rightarrow> (c # p) # ps))"

text \<open>\<open>s.lastIndexOf(c)\<close>, \<open>-1\<close> when absent.\<close>

fun last_index_of :: "char \<Rightarrow> string \<Rightarrow> int" where
  "last_index_of d [] = -1"
| "last_index_of d (c # cs) =
     (let r = last_index_of d cs in if r \<ge> 0 then r + 1 else if c = d then 0 else -1)"

text \<open>Template literals with a number: decimal notation.\<close>

fun show_nat :: "nat \<Rightarrow> string" where
  "show_nat n = (if n < 10 then [char_of (48 + n)] else show_nat (n div 10) @ [char_of (48 + n mod 10)])"

declare show_nat.simps [simp del]

definition show_int :: "int \<Rightarrow> string" where
  "show_int i = (if i < 0 then CHR ''-'' # show_nat (nat (- i)) else show_nat (nat i))"

lemma last_index_of_bounds: "- 1 \<le> last_index_of d s \<and> last_index_of d s < int (length s)"
  by (induction s) (auto simp: Let_def)

lemma last_index_of_nth: "0 \<le> last_index_of d s \<Longrightarrow> s ! nat (last_index_of d s) = d"
  by (induction s) (auto simp: Let_def nat_add_distrib split: if_splits)

lemma split_char_ne [simp]: "split_char d s \<noteq> []"
  by (induction s) (auto split: list.splits)

lemma starts_with_append [simp]: "starts_with (p @ s) p"
  by (induction p) auto

lemma starts_with_iff: "starts_with s p \<longleftrightarrow> (\<exists>t. s = p @ t)"
  by (induction s p rule: starts_with.induct) auto

lemma has_substring_iff: "has_substring s p \<longleftrightarrow> (\<exists>a b. s = a @ p @ b)"
proof (induction s)
  case Nil
  then show ?case by auto
next
  case (Cons c s)
  note IH = Cons.IH
  show ?case
  proof
    assume "has_substring (c # s) p"
    then consider b where "c # s = p @ b" | a b where "s = a @ p @ b"
      using IH by (auto simp: starts_with_iff)
    then show "\<exists>a b. c # s = a @ p @ b"
      by cases (metis append_Nil, metis append_Cons)
  next
    assume "\<exists>a b. c # s = a @ p @ b"
    then obtain a b where "c # s = a @ p @ b" by blast
    then show "has_substring (c # s) p"
    proof (cases a)
      case Nil
      then have "starts_with (c # s) p"
        using \<open>c # s = a @ p @ b\<close> by (simp add: starts_with_iff)
      then show ?thesis by simp
    next
      case (Cons d ds)
      then show ?thesis
        using \<open>c # s = a @ p @ b\<close> IH by auto
    qed
  qed
qed

section \<open>Truthiness\<close>

text \<open>A string is falsy when it is \<open>null\<close>, \<open>undefined\<close> or empty.\<close>

definition truthy :: "string option \<Rightarrow> bool" where
  "truthy s = (case s of None \<Rightarrow> False | Some t \<Rightarrow> t \<noteq> [])"

text \<open>\<open>a || b\<close> for a possibly missing string \<open>a\<close>.\<close>

definition or_else :: "string option \<Rightarrow> string option \<Rightarrow> string option" where
  "or_else a b = (if truthy a then a else b)"

definition str_or :: "string option \<Rightarrow> string \<Rightarrow> string" where
  "str_or a b = (if truthy a then the a else b)"

text \<open>\<open>a ?? b\<close>.\<close>

definition coalesce :: "'a option \<Rightarrow> 'a \<Rightarrow> 'a" where
  "coalesce a b = (case a of None \<Rightarrow> b | Some x \<Rightarrow> x)"

lemma truthy_simps [simp]: "truthy None = False" "truthy (Some s) = (s \<noteq> [])"
  by (auto simp: truthy_def)

lemma coalesce_simps [simp]: "coalesce None b = b" "coalesce (Some x) b = x"
  by (auto simp: coalesce_def)

lemma or_else_simps [simp]:
  "or_else None b = b" "s \<noteq> [] \<Longrightarrow> or_else (Some s) b = Some s" "or_else (Some []) b = b"
  by (auto simp: or_else_def)

section \<open>Arrays\<close>

definition js_at :: "'a list \<Rightarrow> int \<Rightarrow> 'a option" where
  "js_at xs i = (if 0 \<le> i \<and> nat i < length xs then Some (xs ! nat i) else None)"

text \<open>\<open>findIndex\<close> and \<open>indexOf\<close>, \<open>-1\<close> when there is none.\<close>

fun findIndex :: "('a \<Rightarrow> bool) \<Rightarrow> 'a list \<Rightarrow> int" where
  "findIndex P [] = -1"
| "findIndex P (x # xs) = (if P x then 0 else let r = findIndex P xs in if r \<ge> 0 then r + 1 else -1)"

definition indexOf :: "'a \<Rightarrow> 'a list \<Rightarrow> int" where
  "indexOf x xs = findIndex (\<lambda>y. y = x) xs"

text \<open>\<open>xs.slice(-n)\<close> for \<open>n > 0\<close>.\<close>

definition slice_last :: "nat \<Rightarrow> 'a list \<Rightarrow> 'a list" where
  "slice_last n xs = drop (length xs - n) xs"

text \<open>\<open>xs.map((x) => (P(x) ? f(x) : x))\<close>, the way every store edits one element.\<close>

definition map_where :: "('a \<Rightarrow> bool) \<Rightarrow> ('a \<Rightarrow> 'a) \<Rightarrow> 'a list \<Rightarrow> 'a list" where
  "map_where P f xs = map (\<lambda>x. if P x then f x else x) xs"

text \<open>The first occurrence of each truthy key; elements with an empty key are all kept.\<close>

fun uniq_by :: "('a \<Rightarrow> string) \<Rightarrow> string set \<Rightarrow> 'a list \<Rightarrow> 'a list" where
  "uniq_by k seen [] = []"
| "uniq_by k seen (x # xs) =
     (if k x = [] then x # uniq_by k seen xs
      else if k x \<in> seen then uniq_by k seen xs
      else x # uniq_by k (insert (k x) seen) xs)"

lemma findIndex_bounds: "- 1 \<le> findIndex P xs \<and> findIndex P xs < int (length xs)"
  by (induction xs) (auto simp: Let_def)

lemma findIndex_nth: "0 \<le> findIndex P xs \<Longrightarrow> P (xs ! nat (findIndex P xs))"
  by (induction xs) (auto simp: Let_def nat_add_distrib split: if_splits)

lemma findIndex_neg_iff: "findIndex P xs < 0 \<longleftrightarrow> (\<forall>x \<in> set xs. \<not> P x)"
  by (induction xs) (auto simp: Let_def)

lemma findIndex_first: "i < nat (findIndex P xs) \<Longrightarrow> \<not> P (xs ! i)"
proof (induction xs arbitrary: i)
  case Nil
  then show ?case by simp
next
  case (Cons x xs)
  then show ?case
    by (cases i) (auto simp: Let_def nat_add_distrib split: if_splits)
qed

lemma find_SomeD: "find P xs = Some x \<Longrightarrow> x \<in> set xs \<and> P x"
  by (induction xs) (auto split: if_splits)

lemma find_append: "find P (xs @ ys) = (case find P xs of None \<Rightarrow> find P ys | Some x \<Rightarrow> Some x)"
  by (induction xs) auto

lemma find_findIndex:
  "find P xs = Some x \<Longrightarrow>
   0 \<le> findIndex P xs \<and> nat (findIndex P xs) < length xs \<and> xs ! nat (findIndex P xs) = x"
  by (induction xs) (auto simp: Let_def nat_add_distrib split: if_splits)

lemma find_list_update:
  "find P xs = Some x \<Longrightarrow> P y \<Longrightarrow> find P (xs[nat (findIndex P xs) := y]) = Some y"
proof (induction xs)
  case Nil
  then show ?case by simp
next
  case (Cons z zs)
  then show ?case
    using find_findIndex [of P zs x] by (auto simp: Let_def nat_add_distrib split: if_splits)
qed

lemma indexOf_mem: "x \<in> set xs \<Longrightarrow> 0 \<le> indexOf x xs \<and> nat (indexOf x xs) < length xs \<and> xs ! nat (indexOf x xs) = x"
proof -
  assume "x \<in> set xs"
  then have ge: "0 \<le> findIndex (\<lambda>y. y = x) xs"
    using findIndex_neg_iff [of "\<lambda>y. y = x" xs] by (metis not_le)
  with findIndex_nth [OF ge] findIndex_bounds [of "\<lambda>y. y = x" xs] show ?thesis
    by (auto simp: indexOf_def)
qed

lemma map_where_simps [simp]:
  "map_where P f [] = []"
  "map_where P f (x # xs) = (if P x then f x else x) # map_where P f xs"
  by (auto simp: map_where_def)

lemma length_map_where [simp]: "length (map_where P f xs) = length xs"
  by (simp add: map_where_def)

lemma map_where_key [key_simps]: "(\<And>x. P x \<Longrightarrow> k (f x) = k x) \<Longrightarrow> map k (map_where P f xs) = map k xs"
  by (auto simp: map_where_def)

lemma map_where_id: "\<forall>x \<in> set xs. \<not> P x \<Longrightarrow> map_where P f xs = xs"
  by (induction xs) auto

lemma set_map_where: "set (map_where P f xs) = f ` {x \<in> set xs. P x} \<union> {x \<in> set xs. \<not> P x}"
  by (auto simp: map_where_def)

lemma slice_last_length: "length (slice_last n xs) = min n (length xs)"
  by (simp add: slice_last_def)

lemma slice_last_short: "length xs \<le> n \<Longrightarrow> slice_last n xs = xs"
  by (simp add: slice_last_def)

lemma set_slice_last: "set (slice_last n xs) \<subseteq> set xs"
  by (simp add: slice_last_def set_drop_subset)

lemma distinct_map_slice_last: "distinct (map f xs) \<Longrightarrow> distinct (map f (slice_last n xs))"
  by (simp add: slice_last_def drop_map [symmetric] distinct_drop)

lemma sorted_slice_last: "sorted (map f xs) \<Longrightarrow> sorted (map f (slice_last n xs))"
  by (simp add: slice_last_def drop_map [symmetric] sorted_wrt_drop)

lemma slice_last_snoc: "0 < n \<Longrightarrow> slice_last n (xs @ [x]) = slice_last (n - 1) xs @ [x]"
  by (simp add: slice_last_def)

lemma set_uniq_by_subset: "set (uniq_by k seen xs) \<subseteq> set xs"
  by (induction k seen xs rule: uniq_by.induct) auto

lemma uniq_by_keys:
  "\<forall>x \<in> set xs. k x \<noteq> [] \<Longrightarrow>
   distinct (map k (uniq_by k seen xs)) \<and> k ` set (uniq_by k seen xs) = k ` set xs - seen"
  by (induction k seen xs rule: uniq_by.induct) (auto 4 4)

lemma uniq_by_id:
  "distinct (map k xs) \<Longrightarrow> \<forall>x \<in> set xs. k x \<noteq> [] \<Longrightarrow> k ` set xs \<inter> seen = {} \<Longrightarrow> uniq_by k seen xs = xs"
  by (induction k seen xs rule: uniq_by.induct) auto

lemma uniq_by_first:
  assumes "\<forall>x \<in> set xs. k x \<noteq> []"
  shows "x \<in> set (uniq_by k seen xs) \<longleftrightarrow> k x \<notin> seen \<and> find (\<lambda>y. k y = k x) xs = Some x"
  using assms by (induction k seen xs rule: uniq_by.induct) auto

lemma find_map_where:
  assumes "\<And>x. P (f x) = P x"
  shows "find P (map_where P f xs) = map_option f (find P xs)"
  using assms by (induction xs) (auto simp: map_where_def)

lemma ball_map_where:
  "(\<forall>x \<in> set (map_where P f xs). Q x) \<longleftrightarrow> (\<forall>x \<in> set xs. if P x then Q (f x) else Q x)"
  by (induction xs) auto

lemma mem_map_where: "x \<in> set xs \<Longrightarrow> (if P x then f x else x) \<in> set (map_where P f xs)"
  by (auto simp: map_where_def)

lemma in_map_where: "x \<in> set xs \<Longrightarrow> \<not> P x \<Longrightarrow> x \<in> set (map_where P f xs)"
  by (induction xs) auto

lemma raised_above:
  fixes z :: "'a \<Rightarrow> int"
  assumes "\<And>x. k (f x) = k x" "\<And>x. z (f x) = m + 1" "\<forall>x \<in> set xs. z x \<le> m"
  shows "\<forall>x \<in> set (map_where (\<lambda>x. k x = i) f xs). k x = i \<longrightarrow>
    z x = m + 1 \<and> (\<forall>y \<in> set (map_where (\<lambda>x. k x = i) f xs). k y \<noteq> i \<longrightarrow> z y < z x)"
proof (intro ballI impI conjI)
  let ?xs = "map_where (\<lambda>x. k x = i) f xs"
  have top: "\<forall>x \<in> set ?xs. k x = i \<longrightarrow> z x = m + 1"
    and rest: "\<forall>x \<in> set ?xs. k x \<noteq> i \<longrightarrow> z x \<le> m"
    using assms by (simp_all add: ball_map_where)
  fix x assume x: "x \<in> set ?xs" "k x = i"
  then show "z x = m + 1" using top by blast
  fix y assume "y \<in> set ?xs" "k y \<noteq> i"
  with rest have "z y \<le> m" by blast
  with \<open>z x = m + 1\<close> show "z y < z x" by simp
qed

end
