(* ===== verification/Session_Types.thy ===== *)
theory Session_Types
  imports Js_Text
begin

text \<open>
  The data of the web client's session store (\<open>apps/web/src/stores/sessionTypes.ts\<close>) and its
  pure helpers: conversation names derived from the first message, window lookup by id, the
  language of a file path, relative times. Optional properties are \<open>option\<close>s, properties that
  may also be \<open>null\<close> are \<open>nullish\<close>.
\<close>

section \<open>Agents\<close>

text \<open>Positions are written piecewise under a cast, so that each coordinate may be missing.\<close>

record position =
  pos_x :: "int option"
  pos_y :: "int option"
  pos_width :: "int option"
  pos_height :: "int option"
  pos_zIndex :: "int option"

record grid_span =
  colSpan :: int
  rowSpan :: int
  colStart :: "int option"

datatype agent_mode = Plan | Ask | Auto | Sovereign

datatype agent_status = Idle | Active | Errored

record thinking_config =
  tk_enabled :: bool
  tk_budget :: "int option"

record agent =
  ag_id :: ident
  ag_name :: string
  ag_role :: string
  ag_model :: string
  ag_modelDisplayName :: "string option"
  ag_status :: agent_status
  ag_color :: string
  ag_position :: "position option"
  ag_gridSpan :: "grid_span option"
  ag_templateId :: "string option"
  ag_mode :: agent_mode
  ag_previousMode :: "agent_mode option"
  ag_commandAllowlist :: "string list option"
  ag_thinkingConfig :: "thinking_config option"
  ag_conversation :: "ident option"

section \<open>Terminals\<close>

datatype terminal_status = Connected | Disconnected | TerminalError

datatype terminal_location = Panel | Grid

record terminal_window =
  tw_id :: ident
  tw_name :: string
  tw_shell :: string
  tw_status :: terminal_status
  tw_location :: terminal_location
  tw_gridSpan :: "grid_span option"
  tw_position :: "position option"
  tw_workingDirectory :: "string option"
  tw_createdAt :: string

section \<open>Messages and conversations\<close>

datatype tool_status = ToolPending | ToolRunning | ToolCompleted | ToolError

record tool_call =
  tc_id :: ident
  tc_name :: string
  tc_args :: "json obj"
  tc_result :: "string option"
  tc_status :: tool_status

record tool_result =
  tr_tool_use_id :: ident
  tr_content :: json
  tr_is_error :: bool

record usage_stats =
  us_input_tokens :: "int option"
  us_output_tokens :: "int option"
  us_cache_creation :: "int option"
  us_cache_read :: "int option"

datatype message_role = User | Assistant

text \<open>The code reads \<open>timestamp\<close> as possibly missing; it holds \<open>getTime()\<close>.\<close>

record message =
  ms_id :: ident
  ms_role :: message_role
  ms_content :: string
  ms_thinking :: "string option"
  ms_timestamp :: "int option"
  ms_toolCalls :: "tool_call list option"
  ms_toolResults :: "tool_result list option"
  ms_stopReason :: "string option"
  ms_usage :: "usage_stats option"
  ms_model :: "string option"

text \<open>The code guards every read of \<open>attachedAgentIds\<close> with \<open>|| []\<close>.\<close>

record conversation =
  cv_id :: ident
  cv_name :: string
  cv_messages :: "message list"
  cv_attached :: "ident list option"
  cv_messageCount :: int
  cv_lastMessageAt :: "string option"
  cv_createdAt :: string
  cv_updatedAt :: string

record streaming_message =
  sm_messageId :: ident
  sm_agentId :: ident
  sm_sessionId :: ident
  sm_content :: string
  sm_thinking :: string
  sm_isStreaming :: bool
  sm_startedAt :: int

section \<open>File previews and sessions\<close>

record file_preview =
  fp_id :: ident
  fp_path :: string
  fp_content :: string
  fp_language :: string
  fp_pinned :: bool
  fp_position :: position
  fp_gridSpan :: "grid_span option"
  fp_docked :: bool
  fp_startLine :: "int option"
  fp_endLine :: "int option"

datatype view_mode = GridView | FocusView | FreeformView

datatype workspace_status = WsPending | WsRunning | WsStopped | WsError | WsOffline

text \<open>Sessions restored from old storage may lack \<open>terminalWindows\<close> (\<open>?? []\<close>).\<close>

record session =
  ss_id :: ident
  ss_name :: string
  ss_workspaceId :: ident
  ss_workspaceTier :: "string option"
  ss_branch :: string
  ss_gitUrl :: "string nullish"
  ss_agents :: "agent list"
  ss_terminals :: "terminal_window list option"
  ss_conversations :: "conversation list"
  ss_previews :: "file_preview list"
  ss_activeAgentId :: "ident option"
  ss_activeWindowId :: "ident option"
  ss_viewMode :: view_mode
  ss_workspaceStatus :: workspace_status
  ss_workspaceStatusChecking :: "bool option"
  ss_workspaceError :: "string nullish"
  ss_editorGridCardId :: "ident option"
  ss_editorGridSpan :: "grid_span option"
  ss_editorFreeformPosition :: "position option"
  ss_localPodId :: "string nullish"
  ss_localPodName :: "string nullish"
  ss_mount_path :: "string nullish"

definition MAX_MESSAGES_PER_CONVERSATION :: nat where
  "MAX_MESSAGES_PER_CONVERSATION = 100"

definition MAX_RECENT_FILES :: nat where
  "MAX_RECENT_FILES = 50"

text \<open>\<open>c.attachedAgentIds || []\<close> and \<open>session.terminalWindows ?? []\<close>.\<close>

abbreviation attached :: "conversation \<Rightarrow> ident list" where
  "attached c \<equiv> coalesce (cv_attached c) []"

abbreviation terminals :: "session \<Rightarrow> terminal_window list" where
  "terminals s \<equiv> coalesce (ss_terminals s) []"

section \<open>Helper functions\<close>

text \<open>\<open>lastSpace > maxLength / 2\<close> is a comparison of reals, written without the division.\<close>

definition deriveSessionName :: "string \<Rightarrow> nat \<Rightarrow> string" where
  "deriveSessionName firstMessage maxLength =
     (let cleaned = replace_char (CHR 0x0A) (CHR '' '') (js_trim firstMessage)
      in if length cleaned \<le> maxLength then cleaned
         else let truncated = take maxLength cleaned;
                  lastSpace = last_index_of (CHR '' '') truncated
              in if 2 * lastSpace > int maxLength
                 then take (nat lastSpace) truncated @ ''...''
                 else truncated @ ''...'')"

definition getAgentDisplayTitle :: "agent \<Rightarrow> conversation option \<Rightarrow> string" where
  "getAgentDisplayTitle agent conv =
     (let roleDisplay = map upper_char (take 1 (ag_role agent)) @ drop 1 (ag_role agent)
      in case conv of None \<Rightarrow> roleDisplay | Some c \<Rightarrow> roleDisplay @ '': '' @ cv_name c)"

text \<open>
  \<open>parse\<close> is \<open>new Date(s).getTime()\<close> on valid dates and \<open>locale_date\<close> is
  \<open>toLocaleDateString\<close>, both left to the platform.
\<close>

definition formatRelativeTime ::
    "(string \<Rightarrow> int) \<Rightarrow> (int \<Rightarrow> string) \<Rightarrow> clock \<Rightarrow> string option \<Rightarrow> string" where
  "formatRelativeTime parse locale_date clk dateString =
     (if \<not> truthy dateString then ''''
      else let diffMs = clk_ms clk - parse (the dateString);
               diffSeconds = diffMs div 1000;
               diffMinutes = diffSeconds div 60;
               diffHours = diffMinutes div 60;
               diffDays = diffHours div 24
           in if diffMinutes < 1 then ''just now''
              else if diffMinutes < 60 then show_int diffMinutes @ ''m ago''
              else if diffHours < 24 then show_int diffHours @ ''h ago''
              else if diffDays < 7 then show_int diffDays @ ''d ago''
              else locale_date (parse (the dateString)))"

datatype window_type = AgentType | TerminalType | EditorType | FilePreviewType

text \<open>\<open>session.terminalWindows.some\<close> has no guard: on a session without the array it throws.\<close>

definition getWindowType :: "session \<Rightarrow> ident \<Rightarrow> js_error + window_type option" where
  "getWindowType s windowId =
     (if \<exists>a \<in> set (ss_agents s). ag_id a = windowId then Inr (Some AgentType)
      else case ss_terminals s of
        None \<Rightarrow> Inl TypeError
      | Some ts \<Rightarrow>
          if \<exists>t \<in> set ts. tw_id t = windowId then Inr (Some TerminalType)
          else if Some windowId = ss_editorGridCardId s then Inr (Some EditorType)
          else if \<exists>f \<in> set (ss_previews s). fp_id f = windowId then Inr (Some FilePreviewType)
          else Inr None)"

datatype window = AgentWindow agent | TerminalWindow terminal_window

definition getWindowById :: "session \<Rightarrow> ident \<Rightarrow> js_error + window option" where
  "getWindowById s windowId =
     (case find (\<lambda>a. ag_id a = windowId) (ss_agents s) of
        Some a \<Rightarrow> Inr (Some (AgentWindow a))
      | None \<Rightarrow>
          (case ss_terminals s of
             None \<Rightarrow> Inl TypeError
           | Some ts \<Rightarrow> Inr (map_option TerminalWindow (find (\<lambda>t. tw_id t = windowId) ts))))"

text \<open>The table's own properties; keys inherited from \<open>Object.prototype\<close> are not modelled.\<close>

definition languageMap :: "string obj" where
  "languageMap =
    [(''ts'', ''typescript''), (''tsx'', ''typescript''), (''js'', ''javascript''),
     (''jsx'', ''javascript''), (''py'', ''python''), (''rs'', ''rust''), (''go'', ''go''),
     (''rb'', ''ruby''), (''java'', ''java''), (''kt'', ''kotlin''), (''swift'', ''swift''),
     (''c'', ''c''), (''cpp'', ''cpp''), (''h'', ''c''), (''hpp'', ''cpp''), (''cs'', ''csharp''),
     (''php'', ''php''), (''html'', ''html''), (''css'', ''css''), (''scss'', ''scss''),
     (''less'', ''less''), (''json'', ''json''), (''yaml'', ''yaml''), (''yml'', ''yaml''),
     (''xml'', ''xml''), (''md'', ''markdown''), (''sql'', ''sql''), (''sh'', ''shell''),
     (''bash'', ''shell''), (''zsh'', ''shell'')]"

definition getLanguageFromPath :: "string \<Rightarrow> string" where
  "getLanguageFromPath path =
     (let ext = to_lower (last (split_char (CHR ''.'') path))
      in coalesce (map_of languageMap ext) ''plaintext'')"

section \<open>Lemmas\<close>

lemma deriveSessionName_length: "length (deriveSessionName m n) \<le> n + 3"
proof -
  have "last_index_of (CHR '' '') t < int (length t)" for t
    using last_index_of_bounds by blast
  then show ?thesis
    by (auto simp: deriveSessionName_def Let_def)
qed

lemma replace_char_absent: "a \<noteq> b \<Longrightarrow> a \<notin> set (replace_char a b s)"
  by (auto simp: replace_char_def)

lemma deriveSessionName_one_line: "CHR 0x0A \<notin> set (deriveSessionName m n)"
proof -
  let ?c = "replace_char (CHR 0x0A) (CHR '' '') (js_trim m)"
  have c: "CHR 0x0A \<notin> set ?c"
    by (rule replace_char_absent) simp
  then have "CHR 0x0A \<notin> set (take k ?c)" "CHR 0x0A \<notin> set (take j (take k ?c))" for j k
    using in_set_takeD by metis+
  then show ?thesis
    using c by (auto simp: deriveSessionName_def Let_def)
qed

end
