(* ===== verification/Session_Core.thy ===== *)
theory Session_Core
  imports Session_Types
begin

text \<open>
  The web client's session store (\<open>apps/web/src/stores/session.ts\<close>): its state, the actions
  on sessions, agents and workspace status. Every action is
  \<open>set((state) => ...)\<close> on the state record; an action on one session is \<open>with_session\<close>,
  which is the \<open>if (!session) return state\<close> guard and the spread that puts the edited session
  back. An object argument of type \<open>Partial<T>\<close> is the list of its own properties, and the
  spread \<open>{ ...a, ...updates }\<close> assigns them in order.
\<close>

record session_state =
  st_sessions :: "session obj"
  st_currentSessionId :: "ident option"
  st_recentFiles :: "string list"

definition init_session_state :: session_state where
  "init_session_state = \<lparr>st_sessions = [], st_currentSessionId = None, st_recentFiles = []\<rparr>"

definition with_session :: "ident \<Rightarrow> (session \<Rightarrow> session) \<Rightarrow> session_state \<Rightarrow> session_state" where
  "with_session sessionId f state =
     (case map_of (st_sessions state) sessionId of
        None \<Rightarrow> state
      | Some s \<Rightarrow> state\<lparr>st_sessions := AList.update sessionId (f s) (st_sessions state)\<rparr>)"

section \<open>Session actions\<close>

definition createSession :: "session \<Rightarrow> session_state \<Rightarrow> session_state" where
  "createSession s state =
     state\<lparr>st_sessions := AList.update (ss_id s) s (st_sessions state),
           st_currentSessionId := Some (ss_id s)\<rparr>"

definition deleteSession :: "ident \<Rightarrow> session_state \<Rightarrow> session_state" where
  "deleteSession sessionId state =
     state\<lparr>st_sessions := AList.delete sessionId (st_sessions state),
           st_currentSessionId :=
             (if st_currentSessionId state = Some sessionId then None else st_currentSessionId state)\<rparr>"

definition setCurrentSession :: "ident \<Rightarrow> session_state \<Rightarrow> session_state" where
  "setCurrentSession sessionId state = state\<lparr>st_currentSessionId := Some sessionId\<rparr>"

definition syncSessionsWithBackend :: "ident set \<Rightarrow> session_state \<Rightarrow> session_state" where
  "syncSessionsWithBackend validSessionIds state =
     (let currentSessions = st_sessions state;
          sessionIdsToRemove = filter (\<lambda>k. k \<notin> validSessionIds) (own_keys currentSessions)
      in if sessionIdsToRemove = [] then state
         else state\<lparr>st_sessions := fold AList.delete sessionIdsToRemove currentSessions,
                    st_currentSessionId :=
                      (if truthy (st_currentSessionId state) \<and>
                          the (st_currentSessionId state) \<in> set sessionIdsToRemove
                       then None else st_currentSessionId state)\<rparr>)"

section \<open>Patches\<close>

datatype pos_field = PX int | PY int | PWidth int | PHeight int | PZIndex int

fun assign_pos :: "pos_field \<Rightarrow> position \<Rightarrow> position" where
  "assign_pos (PX n) p = p\<lparr>pos_x := Some n\<rparr>"
| "assign_pos (PY n) p = p\<lparr>pos_y := Some n\<rparr>"
| "assign_pos (PWidth n) p = p\<lparr>pos_width := Some n\<rparr>"
| "assign_pos (PHeight n) p = p\<lparr>pos_height := Some n\<rparr>"
| "assign_pos (PZIndex n) p = p\<lparr>pos_zIndex := Some n\<rparr>"

definition empty_position :: position where
  "empty_position =
     \<lparr>pos_x = None, pos_y = None, pos_width = None, pos_height = None, pos_zIndex = None\<rparr>"

text \<open>\<open>{ ...a.position, ...position } as AgentPosition\<close>, where \<open>a.position\<close> may be undefined.\<close>

definition spread_position :: "position option \<Rightarrow> pos_field list \<Rightarrow> position" where
  "spread_position p ups = fold assign_pos ups (coalesce p empty_position)"

datatype agent_field =
    AgId ident
  | AgName string
  | AgRole string
  | AgModel string
  | AgModelDisplayName "string option"
  | AgStatus agent_status
  | AgColor string
  | AgPosition "position option"
  | AgGridSpan "grid_span option"
  | AgTemplateId "string option"
  | AgMode agent_mode
  | AgPreviousMode "agent_mode option"
  | AgCommandAllowlist "string list option"
  | AgThinkingConfig "thinking_config option"
  | AgConversation "ident option"

fun assign_agent :: "agent_field \<Rightarrow> agent \<Rightarrow> agent" where
  "assign_agent (AgId v) a = a\<lparr>ag_id := v\<rparr>"
| "assign_agent (AgName v) a = a\<lparr>ag_name := v\<rparr>"
| "assign_agent (AgRole v) a = a\<lparr>ag_role := v\<rparr>"
| "assign_agent (AgModel v) a = a\<lparr>ag_model := v\<rparr>"
| "assign_agent (AgModelDisplayName v) a = a\<lparr>ag_modelDisplayName := v\<rparr>"
| "assign_agent (AgStatus v) a = a\<lparr>ag_status := v\<rparr>"
| "assign_agent (AgColor v) a = a\<lparr>ag_color := v\<rparr>"
| "assign_agent (AgPosition v) a = a\<lparr>ag_position := v\<rparr>"
| "assign_agent (AgGridSpan v) a = a\<lparr>ag_gridSpan := v\<rparr>"
| "assign_agent (AgTemplateId v) a = a\<lparr>ag_templateId := v\<rparr>"
| "assign_agent (AgMode v) a = a\<lparr>ag_mode := v\<rparr>"
| "assign_agent (AgPreviousMode v) a = a\<lparr>ag_previousMode := v\<rparr>"
| "assign_agent (AgCommandAllowlist v) a = a\<lparr>ag_commandAllowlist := v\<rparr>"
| "assign_agent (AgThinkingConfig v) a = a\<lparr>ag_thinkingConfig := v\<rparr>"
| "assign_agent (AgConversation v) a = a\<lparr>ag_conversation := v\<rparr>"

section \<open>Agent actions\<close>

definition addAgent :: "ident \<Rightarrow> agent \<Rightarrow> session_state \<Rightarrow> session_state" where
  "addAgent sessionId ag =
     with_session sessionId (\<lambda>s. s\<lparr>ss_agents := ss_agents s @ [ag]\<rparr>)"

text \<open>The conversations of a session after an agent left: its id is taken off the lists.\<close>

definition drop_attached :: "clock \<Rightarrow> ident \<Rightarrow> conversation \<Rightarrow> conversation" where
  "drop_attached clk agentId c =
     (if agentId \<in> set (attached c)
      then c\<lparr>cv_attached := Some (filter (\<lambda>i. i \<noteq> agentId) (attached c)),
             cv_updatedAt := clk_iso clk\<rparr>
      else c)"

definition removeAgent :: "clock \<Rightarrow> ident \<Rightarrow> ident \<Rightarrow> session_state \<Rightarrow> session_state" where
  "removeAgent clk sessionId agentId =
     with_session sessionId (\<lambda>s.
       s\<lparr>ss_agents := filter (\<lambda>a. ag_id a \<noteq> agentId) (ss_agents s),
         ss_activeAgentId := (if ss_activeAgentId s = Some agentId then None else ss_activeAgentId s),
         ss_activeWindowId := (if ss_activeWindowId s = Some agentId then None else ss_activeWindowId s),
         ss_conversations := map (drop_attached clk agentId) (ss_conversations s)\<rparr>)"

definition updateAgent :: "ident \<Rightarrow> ident \<Rightarrow> agent_field list \<Rightarrow> session_state \<Rightarrow> session_state" where
  "updateAgent sessionId agentId updates =
     with_session sessionId (\<lambda>s.
       s\<lparr>ss_agents := map_where (\<lambda>a. ag_id a = agentId) (fold assign_agent updates) (ss_agents s)\<rparr>)"

definition setActiveAgent :: "ident \<Rightarrow> ident option \<Rightarrow> session_state \<Rightarrow> session_state" where
  "setActiveAgent sessionId agentId =
     with_session sessionId (\<lambda>s. s\<lparr>ss_activeAgentId := agentId, ss_activeWindowId := agentId\<rparr>)"

definition updateAgentPosition ::
    "ident \<Rightarrow> ident \<Rightarrow> pos_field list \<Rightarrow> session_state \<Rightarrow> session_state" where
  "updateAgentPosition sessionId agentId pos =
     with_session sessionId (\<lambda>s.
       s\<lparr>ss_agents := map_where (\<lambda>a. ag_id a = agentId)
           (\<lambda>a. a\<lparr>ag_position := Some (spread_position (ag_position a) pos)\<rparr>) (ss_agents s)\<rparr>)"

definition updateAgentGridSpan ::
    "ident \<Rightarrow> ident \<Rightarrow> grid_span \<Rightarrow> session_state \<Rightarrow> session_state" where
  "updateAgentGridSpan sessionId agentId gs =
     with_session sessionId (\<lambda>s.
       s\<lparr>ss_agents := map_where (\<lambda>a. ag_id a = agentId) (\<lambda>a. a\<lparr>ag_gridSpan := Some gs\<rparr>) (ss_agents s)\<rparr>)"

text \<open>\<open>position?.zIndex ?? 0\<close>.\<close>

definition z_of :: "position option \<Rightarrow> int" where
  "z_of p = (case p of None \<Rightarrow> 0 | Some q \<Rightarrow> coalesce (pos_zIndex q) 0)"

text \<open>
  \<open>Math.max(...zs)\<close>. Of no arguments it is \<open>-Infinity\<close>; the only caller that can pass none
  then edits no agent, so the value given here is never used.
\<close>

fun max_of :: "int list \<Rightarrow> int" where
  "max_of [] = 0"
| "max_of [z] = z"
| "max_of (z # zs) = max z (max_of zs)"

definition bringAgentToFront :: "ident \<Rightarrow> ident \<Rightarrow> session_state \<Rightarrow> session_state" where
  "bringAgentToFront sessionId agentId =
     with_session sessionId (\<lambda>s.
       let maxZ = max_of (map (\<lambda>a. z_of (ag_position a)) (ss_agents s))
       in s\<lparr>ss_agents := map_where (\<lambda>a. ag_id a = agentId)
              (\<lambda>a. a\<lparr>ag_position := Some (spread_position (ag_position a) [PZIndex (maxZ + 1)])\<rparr>)
              (ss_agents s)\<rparr>)"

definition handleAutoModeSwitch ::
    "ident \<Rightarrow> ident \<Rightarrow> agent_mode \<Rightarrow> agent_mode option \<Rightarrow> session_state \<Rightarrow> session_state" where
  "handleAutoModeSwitch sessionId agentId newMode previousMode =
     with_session sessionId (\<lambda>s.
       s\<lparr>ss_agents := map_where (\<lambda>a. ag_id a = agentId)
           (\<lambda>a. a\<lparr>ag_mode := newMode, ag_previousMode := previousMode\<rparr>) (ss_agents s)\<rparr>)"

definition updateAgentThinking ::
    "ident \<Rightarrow> ident \<Rightarrow> thinking_config option \<Rightarrow> session_state \<Rightarrow> session_state" where
  "updateAgentThinking sessionId agentId cfg =
     with_session sessionId (\<lambda>s.
       s\<lparr>ss_agents := map_where (\<lambda>a. ag_id a = agentId) (\<lambda>a. a\<lparr>ag_thinkingConfig := cfg\<rparr>)
           (ss_agents s)\<rparr>)"

section \<open>View, workspace and session fields\<close>

definition setViewMode :: "ident \<Rightarrow> view_mode \<Rightarrow> session_state \<Rightarrow> session_state" where
  "setViewMode sessionId mode = with_session sessionId (\<lambda>s. s\<lparr>ss_viewMode := mode\<rparr>)"

definition setWorkspaceStatus :: "ident \<Rightarrow> workspace_status \<Rightarrow> session_state \<Rightarrow> session_state" where
  "setWorkspaceStatus sessionId status =
     with_session sessionId (\<lambda>s.
       s\<lparr>ss_workspaceStatus := status, ss_workspaceStatusChecking := Some False\<rparr>)"

definition setWorkspaceStatusChecking :: "ident \<Rightarrow> bool \<Rightarrow> session_state \<Rightarrow> session_state" where
  "setWorkspaceStatusChecking sessionId checking =
     with_session sessionId (\<lambda>s.
       if ss_workspaceStatusChecking s = Some checking then s
       else s\<lparr>ss_workspaceStatusChecking := Some checking\<rparr>)"

definition setWorkspaceError :: "ident \<Rightarrow> string option \<Rightarrow> session_state \<Rightarrow> session_state" where
  "setWorkspaceError sessionId err =
     with_session sessionId (\<lambda>s.
       s\<lparr>ss_workspaceError := (case err of None \<Rightarrow> Null | Some e \<Rightarrow> Val e)\<rparr>)"

definition updateSessionWorkspaceId :: "ident \<Rightarrow> ident \<Rightarrow> session_state \<Rightarrow> session_state" where
  "updateSessionWorkspaceId sessionId workspaceId =
     with_session sessionId (\<lambda>s.
       if ss_workspaceId s = workspaceId then s else s\<lparr>ss_workspaceId := workspaceId\<rparr>)"

datatype info_field =
    InfoName string
  | InfoBranch string
  | InfoGitUrl "string nullish"
  | InfoLocalPodId "string nullish"
  | InfoLocalPodName "string nullish"
  | InfoMountPath "string nullish"

fun assign_info :: "info_field \<Rightarrow> session \<Rightarrow> session" where
  "assign_info (InfoName v) s = s\<lparr>ss_name := v\<rparr>"
| "assign_info (InfoBranch v) s = s\<lparr>ss_branch := v\<rparr>"
| "assign_info (InfoGitUrl v) s = s\<lparr>ss_gitUrl := v\<rparr>"
| "assign_info (InfoLocalPodId v) s = s\<lparr>ss_localPodId := v\<rparr>"
| "assign_info (InfoLocalPodName v) s = s\<lparr>ss_localPodName := v\<rparr>"
| "assign_info (InfoMountPath v) s = s\<lparr>ss_mount_path := v\<rparr>"

definition updateSessionInfo :: "ident \<Rightarrow> info_field list \<Rightarrow> session_state \<Rightarrow> session_state" where
  "updateSessionInfo sessionId updates = with_session sessionId (fold assign_info updates)"

definition updateSessionWorkspaceTier :: "ident \<Rightarrow> string \<Rightarrow> session_state \<Rightarrow> session_state" where
  "updateSessionWorkspaceTier sessionId tier =
     with_session sessionId (\<lambda>s. s\<lparr>ss_workspaceTier := Some tier\<rparr>)"

section \<open>Lemmas\<close>

lemma update_same: "map_of m k = Some v \<Longrightarrow> AList.update k v m = m"
  by (induction m) (auto split: if_splits)

lemma keys_update_existing: "map_of m k = Some v \<Longrightarrow> map fst (AList.update k w m) = map fst m"
  by (induction m) (auto split: if_splits)

lemma with_session_frame [simp, frame_simps]:
  "st_currentSessionId (with_session k f st) = st_currentSessionId st"
  "st_recentFiles (with_session k f st) = st_recentFiles st"
  by (auto simp: with_session_def split: option.splits)

lemma with_session_lookup [simp]:
  "map_of (st_sessions (with_session k f st)) j =
     (if j = k then map_option f (map_of (st_sessions st) k) else map_of (st_sessions st) j)"
  by (auto simp: with_session_def split: option.splits)

lemma with_session_keys [simp]:
  "map fst (st_sessions (with_session k f st)) = map fst (st_sessions st)"
  by (auto simp: with_session_def keys_update_existing split: option.splits)

lemma with_session_missing: "map_of (st_sessions st) k = None \<Longrightarrow> with_session k f st = st"
  by (simp add: with_session_def)

lemma with_session_id: "(\<And>s. map_of (st_sessions st) k = Some s \<Longrightarrow> f s = s) \<Longrightarrow> with_session k f st = st"
  by (auto simp: with_session_def update_same split: option.splits)

lemma update_update: "AList.update k v (AList.update k w m) = AList.update k v m"
  by (induction m) auto

lemma with_session_comp: "with_session k f (with_session k g st) = with_session k (f \<circ> g) st"
  by (auto simp: with_session_def update_update split: option.splits)

lemma with_session_cong:
  "(\<And>s. map_of (st_sessions st) k = Some s \<Longrightarrow> f s = g s) \<Longrightarrow> with_session k f st = with_session k g st"
  by (auto simp: with_session_def split: option.splits)

lemma fold_delete_lookup:
  "map_of (fold AList.delete ks m) k = (if k \<in> set ks then None else map_of m k)"
  by (induction ks arbitrary: m) auto

lemma fold_delete_ok: "obj_ok m \<Longrightarrow> obj_ok (fold AList.delete ks m)"
  by (induction ks arbitrary: m) auto

lemma max_of_ge: "z \<in> set zs \<Longrightarrow> z \<le> max_of zs"
  by (induction zs rule: max_of.induct) auto

lemma max_of_mem: "zs \<noteq> [] \<Longrightarrow> max_of zs \<in> set zs"
  by (induction zs rule: max_of.induct) (auto simp: max_def)

lemma z_of_front [simp]: "z_of (Some (spread_position p [PZIndex n])) = n"
  by (simp add: z_of_def spread_position_def)

lemma drop_attached_simps [simp]:
  "cv_id (drop_attached clk a c) = cv_id c"
  "cv_messages (drop_attached clk a c) = cv_messages c"
  "set (attached (drop_attached clk a c)) = set (attached c) - {a}"
  by (auto simp: drop_attached_def)

lemma assign_info_frame [simp]:
  "ss_id (assign_info u s) = ss_id s"
  "ss_agents (assign_info u s) = ss_agents s"
  "ss_conversations (assign_info u s) = ss_conversations s"
  "ss_previews (assign_info u s) = ss_previews s"
  by (cases u; simp)+

lemma fold_assign_info_frame [simp]:
  "ss_id (fold assign_info us s) = ss_id s"
  "ss_agents (fold assign_info us s) = ss_agents s"
  "ss_conversations (fold assign_info us s) = ss_conversations s"
  "ss_previews (fold assign_info us s) = ss_previews s"
  by (induction us arbitrary: s) auto

end
