(* ===== verification/Session_Conversations.thy ===== *)
theory Session_Conversations
  imports Session_Core
begin

text \<open>
  Conversations of the session store: creating, renaming, deleting, attaching to and detaching
  from agents, and the WebSocket events that mirror these actions in other windows. A
  conversation lists the agents it is attached to (\<open>attachedAgentIds\<close>) and an agent points
  back (\<open>conversationSessionId\<close>); \<open>links_ok\<close> says that the pointers are backed by the
  lists.
\<close>

section \<open>Actions\<close>

text \<open>The UUID comes from \<open>crypto.randomUUID()\<close>. The new conversation is also returned.\<close>

definition new_conversation :: "clock \<Rightarrow> ident \<Rightarrow> string option \<Rightarrow> string option \<Rightarrow> conversation" where
  "new_conversation clk uuid name firstMessage =
     \<lparr>cv_id = uuid,
      cv_name = (if truthy firstMessage then deriveSessionName (the firstMessage) 40
                 else str_or name ''New Session''),
      cv_messages = [], cv_attached = Some [], cv_messageCount = 0, cv_lastMessageAt = None,
      cv_createdAt = clk_iso clk, cv_updatedAt = clk_iso clk\<rparr>"

definition createConversationSession ::
    "clock \<Rightarrow> ident \<Rightarrow> ident \<Rightarrow> string option \<Rightarrow> string option \<Rightarrow> session_state \<Rightarrow>
     session_state \<times> conversation" where
  "createConversationSession clk uuid sessionId name firstMessage state =
     (let conv = new_conversation clk uuid name firstMessage
      in (with_session sessionId (\<lambda>s. s\<lparr>ss_conversations := ss_conversations s @ [conv]\<rparr>) state,
          conv))"

text \<open>The patch is \<open>Partial<Pick<ConversationSession, 'name'>>\<close>.\<close>

definition updateConversationSession ::
    "clock \<Rightarrow> ident \<Rightarrow> ident \<Rightarrow> string option \<Rightarrow> session_state \<Rightarrow> session_state" where
  "updateConversationSession clk sessionId conversationId name =
     with_session sessionId (\<lambda>s.
       s\<lparr>ss_conversations := map_where (\<lambda>c. cv_id c = conversationId)
           (\<lambda>c. c\<lparr>cv_name := coalesce name (cv_name c), cv_updatedAt := clk_iso clk\<rparr>)
           (ss_conversations s)\<rparr>)"

text \<open>Clearing the pointers of agents whose conversation goes away.\<close>

definition clear_pointers :: "ident \<Rightarrow> agent list \<Rightarrow> agent list" where
  "clear_pointers conversationId =
     map_where (\<lambda>a. ag_conversation a = Some conversationId) (\<lambda>a. a\<lparr>ag_conversation := None\<rparr>)"

definition delete_conversation :: "ident \<Rightarrow> session \<Rightarrow> session" where
  "delete_conversation conversationId s =
     s\<lparr>ss_agents := clear_pointers conversationId (ss_agents s),
       ss_conversations := filter (\<lambda>c. cv_id c \<noteq> conversationId) (ss_conversations s)\<rparr>"

definition deleteConversationSession :: "ident \<Rightarrow> ident \<Rightarrow> session_state \<Rightarrow> session_state" where
  "deleteConversationSession sessionId conversationId =
     with_session sessionId (delete_conversation conversationId)"

definition point_agent :: "ident \<Rightarrow> ident \<Rightarrow> agent list \<Rightarrow> agent list" where
  "point_agent agentId conversationId =
     map_where (\<lambda>a. ag_id a = agentId) (\<lambda>a. a\<lparr>ag_conversation := Some conversationId\<rparr>)"

definition attachConversationToAgent ::
    "clock \<Rightarrow> ident \<Rightarrow> ident \<Rightarrow> ident \<Rightarrow> session_state \<Rightarrow> session_state" where
  "attachConversationToAgent clk sessionId conversationId agentId =
     with_session sessionId (\<lambda>s.
       s\<lparr>ss_agents := point_agent agentId conversationId (ss_agents s),
         ss_conversations := map_where (\<lambda>c. cv_id c = conversationId)
           (\<lambda>c. if agentId \<notin> set (attached c)
                then c\<lparr>cv_attached := Some (attached c @ [agentId]), cv_updatedAt := clk_iso clk\<rparr>
                else c)
           (ss_conversations s)\<rparr>)"

text \<open>
  \<open>agentId || attachedAgentIds[0]\<close>, with the early returns for a missing conversation and
  for no agent to detach.
\<close>

definition detach_target :: "ident option \<Rightarrow> conversation \<Rightarrow> ident option" where
  "detach_target agentId c =
     or_else agentId (case attached c of [] \<Rightarrow> None | i # _ \<Rightarrow> Some i)"

definition detach :: "clock \<Rightarrow> ident \<Rightarrow> ident option \<Rightarrow> session \<Rightarrow> session" where
  "detach clk conversationId agentId s =
     (case find (\<lambda>c. cv_id c = conversationId) (ss_conversations s) of
        None \<Rightarrow> s
      | Some conv \<Rightarrow>
          let target = detach_target agentId conv
          in if \<not> truthy target then s
             else s\<lparr>ss_agents := map_where
                      (\<lambda>a. ag_id a = the target \<and> ag_conversation a = Some conversationId)
                      (\<lambda>a. a\<lparr>ag_conversation := None\<rparr>) (ss_agents s),
                    ss_conversations := map_where (\<lambda>c. cv_id c = conversationId)
                      (\<lambda>c. c\<lparr>cv_attached := Some (filter (\<lambda>i. i \<noteq> the target) (attached conv)),
                             cv_updatedAt := clk_iso clk\<rparr>)
                      (ss_conversations s)\<rparr>)"

definition detachConversationFromAgent ::
    "clock \<Rightarrow> ident \<Rightarrow> ident \<Rightarrow> ident option \<Rightarrow> session_state \<Rightarrow> session_state" where
  "detachConversationFromAgent clk sessionId conversationId agentId =
     with_session sessionId (detach clk conversationId agentId)"

definition getConversationForAgent :: "ident \<Rightarrow> ident \<Rightarrow> session_state \<Rightarrow> conversation option" where
  "getConversationForAgent sessionId agentId state =
     (case map_of (st_sessions state) sessionId of
        None \<Rightarrow> None
      | Some s \<Rightarrow>
          (case find (\<lambda>a. ag_id a = agentId) (ss_agents s) of
             None \<Rightarrow> None
           | Some a \<Rightarrow>
               if \<not> truthy (ag_conversation a) then None
               else find (\<lambda>c. Some (cv_id c) = ag_conversation a) (ss_conversations s)))"

definition getAvailableConversations :: "ident \<Rightarrow> session_state \<Rightarrow> conversation list" where
  "getAvailableConversations sessionId state =
     (case map_of (st_sessions state) sessionId of
        None \<Rightarrow> []
      | Some s \<Rightarrow> filter (\<lambda>c. attached c = []) (ss_conversations s))"

definition setConversationSessions ::
    "ident \<Rightarrow> conversation list \<Rightarrow> session_state \<Rightarrow> session_state" where
  "setConversationSessions sessionId conversations =
     with_session sessionId (\<lambda>s. s\<lparr>ss_conversations := conversations\<rparr>)"

section \<open>Events\<close>

datatype conv_field =
    CvName string
  | CvMessages "message list"
  | CvAttached "ident list option"
  | CvMessageCount int
  | CvLastMessageAt "string option"
  | CvCreatedAt string
  | CvUpdatedAt string

fun assign_conv :: "conv_field \<Rightarrow> conversation \<Rightarrow> conversation" where
  "assign_conv (CvName v) c = c\<lparr>cv_name := v\<rparr>"
| "assign_conv (CvMessages v) c = c\<lparr>cv_messages := v\<rparr>"
| "assign_conv (CvAttached v) c = c\<lparr>cv_attached := v\<rparr>"
| "assign_conv (CvMessageCount v) c = c\<lparr>cv_messageCount := v\<rparr>"
| "assign_conv (CvLastMessageAt v) c = c\<lparr>cv_lastMessageAt := v\<rparr>"
| "assign_conv (CvCreatedAt v) c = c\<lparr>cv_createdAt := v\<rparr>"
| "assign_conv (CvUpdatedAt v) c = c\<lparr>cv_updatedAt := v\<rparr>"

text \<open>\<open>convData.attachedAgentIds\<close> of a patch: the value assigned last, if any.\<close>

definition patch_attached :: "conv_field list \<Rightarrow> ident list option" where
  "patch_attached ups = fold (\<lambda>u r. case u of CvAttached v \<Rightarrow> v | _ \<Rightarrow> r) ups None"

text \<open>
  The payload of each event as the handler reads it; \<open>Conversation_other\<close> stands for
  \<open>conversation_message\<close> and every unknown event name.
\<close>

datatype conv_event =
    Conversation_created conversation
  | Conversation_updated ident "conv_field list"
  | Conversation_deleted ident
  | Conversation_attached ident ident
  | Conversation_detached ident "ident option"
  | Conversation_other string

fun conversation_event :: "conv_event \<Rightarrow> session \<Rightarrow> session" where
  "conversation_event (Conversation_created conv) s =
     (if \<exists>c \<in> set (ss_conversations s). cv_id c = cv_id conv then s
      else s\<lparr>ss_conversations := ss_conversations s @ [conv\<lparr>cv_messages := []\<rparr>]\<rparr>)"
| "conversation_event (Conversation_updated convId ups) s =
     s\<lparr>ss_conversations := map_where (\<lambda>c. cv_id c = convId)
         (\<lambda>c. (fold assign_conv ups c)\<lparr>cv_attached :=
                 Some (coalesce (patch_attached ups) (attached c))\<rparr>)
         (ss_conversations s)\<rparr>"
| "conversation_event (Conversation_deleted convId) s = delete_conversation convId s"
| "conversation_event (Conversation_attached convId agentId) s =
     s\<lparr>ss_agents := point_agent agentId convId (ss_agents s),
       ss_conversations := map_where (\<lambda>c. cv_id c = convId)
         (\<lambda>c. if agentId \<notin> set (attached c)
              then c\<lparr>cv_attached := Some (attached c @ [agentId])\<rparr> else c)
         (ss_conversations s)\<rparr>"
| "conversation_event (Conversation_detached convId prevAgentId) s =
     s\<lparr>ss_agents :=
         (if truthy prevAgentId
          then map_where (\<lambda>a. ag_id a = the prevAgentId) (\<lambda>a. a\<lparr>ag_conversation := None\<rparr>) (ss_agents s)
          else ss_agents s),
       ss_conversations := map_where (\<lambda>c. cv_id c = convId)
         (\<lambda>c. c\<lparr>cv_attached := Some (filter (\<lambda>i. Some i \<noteq> prevAgentId) (attached c))\<rparr>)
         (ss_conversations s)\<rparr>"
| "conversation_event (Conversation_other name) s = s"

definition handleConversationEvent :: "ident \<Rightarrow> conv_event \<Rightarrow> session_state \<Rightarrow> session_state" where
  "handleConversationEvent sessionId ev = with_session sessionId (conversation_event ev)"

end
