(* ===== verification/Streaming.thy ===== *)
theory Streaming
  imports Session_Types
begin

text \<open>
  The streaming store (\<open>apps/web/src/stores/streaming.ts\<close>): messages whose tokens are still
  arriving, keyed by message id, and the interface every token stream offers its client. The
  same interface is provided a second time by the portable session slice.
\<close>

section \<open>The interface\<close>

text \<open>
  A stream store: starting an entry, appending content and thinking tokens, dropping the entry.
  \<open>content\<close> and \<open>thinking\<close> read an entry back; \<open>None\<close> is "no such stream".
\<close>

locale token_stream =
  fixes start :: "ident \<Rightarrow> 's \<Rightarrow> 's"
    and append_token :: "ident \<Rightarrow> string \<Rightarrow> 's \<Rightarrow> 's"
    and append_thinking :: "ident \<Rightarrow> string \<Rightarrow> 's \<Rightarrow> 's"
    and drop_stream :: "ident \<Rightarrow> 's \<Rightarrow> 's"
    and texts :: "'s \<Rightarrow> ident \<Rightarrow> (string \<times> string) option"
  assumes texts_start: "texts (start m s) k = (if k = m then Some ([], []) else texts s k)"
    and texts_token: "texts (append_token m t s) k =
      (if k = m then map_option (\<lambda>(c, th). (c @ t, th)) (texts s m) else texts s k)"
    and texts_thinking: "texts (append_thinking m t s) k =
      (if k = m then map_option (\<lambda>(c, th). (c, th @ t)) (texts s m) else texts s k)"
    and texts_drop: "texts (drop_stream m s) k = (if k = m then None else texts s k)"

text \<open>What a socket delivers for one or several messages: tokens of either kind.\<close>

datatype token = Content ident string | Thinking ident string

fun token_content :: "ident \<Rightarrow> token \<Rightarrow> string" where
  "token_content m (Content k t) = (if k = m then t else [])"
| "token_content m (Thinking k t) = []"

fun token_thinking :: "ident \<Rightarrow> token \<Rightarrow> string" where
  "token_thinking m (Content k t) = []"
| "token_thinking m (Thinking k t) = (if k = m then t else [])"

context token_stream begin

definition feed :: "token \<Rightarrow> 's \<Rightarrow> 's" where
  "feed tk s = (case tk of Content m t \<Rightarrow> append_token m t s | Thinking m t \<Rightarrow> append_thinking m t s)"

lemmas texts_laws = texts_start texts_token texts_thinking texts_drop

lemma texts_feed:
  "texts s m = Some (c, th) \<Longrightarrow>
   texts (feed tk s) m = Some (c @ token_content m tk, th @ token_thinking m tk)"
  by (cases tk) (auto simp: feed_def texts_laws)

lemma texts_feed_none: "texts s m = None \<Longrightarrow> texts (feed tk s) m = None"
  by (cases tk) (auto simp: feed_def texts_laws)

text \<open>Interleaved streams do not mix: each accumulates exactly its own tokens, in order.\<close>

lemma texts_fold:
  "texts s m = Some (c, th) \<Longrightarrow>
   texts (fold feed tks s) m =
     Some (c @ concat (map (token_content m) tks), th @ concat (map (token_thinking m) tks))"
proof (induction tks arbitrary: s c th)
  case Nil
  then show ?case by simp
next
  case (Cons tk tks)
  from texts_feed [OF Cons.prems, of tk] Cons.IH show ?case
    by simp
qed

lemma texts_fold_none: "texts s m = None \<Longrightarrow> texts (fold feed tks s) m = None"
  by (induction tks arbitrary: s) (auto simp: texts_feed_none)

lemma stream_roundtrip:
  "texts (fold feed tks (start m s)) m =
     Some (concat (map (token_content m) tks), concat (map (token_thinking m) tks))"
  using texts_fold [of "start m s" m "[]" "[]" tks] by (simp add: texts_start)

lemma late_tokens_ignored: "texts (fold feed tks (drop_stream m s)) m = None"
  by (rule texts_fold_none) (simp add: texts_drop)

end

section \<open>The store\<close>

type_synonym streaming_state = "streaming_message obj"

definition startStreamingMessage ::
    "clock \<Rightarrow> ident \<Rightarrow> ident \<Rightarrow> ident \<Rightarrow> streaming_state \<Rightarrow> streaming_state" where
  "startStreamingMessage clk sessionId agentId messageId state =
     AList.update messageId
       \<lparr>sm_messageId = messageId, sm_agentId = agentId, sm_sessionId = sessionId,
        sm_content = [], sm_thinking = [], sm_isStreaming = True, sm_startedAt = clk_ms clk\<rparr> state"

definition appendStreamingToken :: "ident \<Rightarrow> string \<Rightarrow> streaming_state \<Rightarrow> streaming_state" where
  "appendStreamingToken messageId tok state =
     (case map_of state messageId of
        None \<Rightarrow> state
      | Some existing \<Rightarrow>
          AList.update messageId (existing\<lparr>sm_content := sm_content existing @ tok\<rparr>) state)"

definition appendThinkingToken :: "ident \<Rightarrow> string \<Rightarrow> streaming_state \<Rightarrow> streaming_state" where
  "appendThinkingToken messageId thinking state =
     (case map_of state messageId of
        None \<Rightarrow> state
      | Some existing \<Rightarrow>
          AList.update messageId (existing\<lparr>sm_thinking := sm_thinking existing @ thinking\<rparr>) state)"

text \<open>The full content and the tool calls of the call are not used by this store.\<close>

definition completeStreaming ::
    "ident \<Rightarrow> streaming_state \<Rightarrow> streaming_state \<times> streaming_message option" where
  "completeStreaming messageId state =
     (case map_of state messageId of
        None \<Rightarrow> (state, None)
      | Some streaming \<Rightarrow> (AList.delete messageId state, Some streaming))"

definition getStreamingMessage :: "ident \<Rightarrow> streaming_state \<Rightarrow> streaming_message option" where
  "getStreamingMessage messageId state = map_of state messageId"

definition isMessageStreaming :: "ident \<Rightarrow> streaming_state \<Rightarrow> bool" where
  "isMessageStreaming messageId state =
     (case map_of state messageId of None \<Rightarrow> False | Some m \<Rightarrow> sm_isStreaming m)"

definition getAgentStreamingMessages :: "ident \<Rightarrow> streaming_state \<Rightarrow> streaming_message list" where
  "getAgentStreamingMessages agentId state =
     filter (\<lambda>m. sm_agentId m = agentId) (own_values state)"

definition clearAllStreaming :: "streaming_state \<Rightarrow> streaming_state" where
  "clearAllStreaming state = []"

definition stream_texts :: "streaming_state \<Rightarrow> ident \<Rightarrow> (string \<times> string) option" where
  "stream_texts state m = map_option (\<lambda>e. (sm_content e, sm_thinking e)) (map_of state m)"

interpretation web_stream: token_stream
  "startStreamingMessage clk sessionId agentId" appendStreamingToken appendThinkingToken
  "\<lambda>m s. fst (completeStreaming m s)" stream_texts
  by unfold_locales
    (auto simp: startStreamingMessage_def appendStreamingToken_def appendThinkingToken_def
      completeStreaming_def stream_texts_def split: option.splits)

text \<open>One delivered token.\<close>

fun apply_token :: "token \<Rightarrow> streaming_state \<Rightarrow> streaming_state" where
  "apply_token (Content m t) ws = appendStreamingToken m t ws"
| "apply_token (Thinking m t) ws = appendThinkingToken m t ws"

lemma web_feed: "web_stream.feed = apply_token"
proof (intro ext)
  fix tk ws
  show "web_stream.feed tk ws = apply_token tk ws"
    by (cases tk) (simp_all add: web_stream.feed_def)
qed

lemmas web_roundtrip = web_stream.stream_roundtrip [unfolded web_feed]
lemmas web_late_tokens = web_stream.late_tokens_ignored [unfolded web_feed]

text \<open>Tokens change nothing but the two texts of their own entry.\<close>

lemma apply_token_entry:
  "map_of (apply_token tk ws) m = map_option (\<lambda>e. e\<lparr>sm_content := sm_content e @ token_content m tk,
     sm_thinking := sm_thinking e @ token_thinking m tk\<rparr>) (map_of ws m)"
  by (cases tk)
    (auto simp: appendStreamingToken_def appendThinkingToken_def option.map_id0 [unfolded id_def]
      split: option.splits)

lemma fold_token_entry:
  "map_of (fold apply_token tks ws) m = map_option (\<lambda>e. e\<lparr>
     sm_content := sm_content e @ concat (map (token_content m) tks),
     sm_thinking := sm_thinking e @ concat (map (token_thinking m) tks)\<rparr>) (map_of ws m)"
  by (induction tks arbitrary: ws)
    (auto simp: apply_token_entry option.map_id0 [unfolded id_def] option.map_comp o_def)

end
