(* ===== verification/Session_Messages.thy ===== *)
theory Session_Messages
  imports Session_Conversations Streaming
begin

text \<open>
  Messages of a conversation: appending with de-duplication of optimistic ("temp-") user
  messages and of repeated assistant messages, merging a batch, deleting, renaming an id, and
  finalizing a streamed message. At most \<open>MAX_MESSAGES_PER_CONVERSATION\<close> messages are kept.
\<close>

section \<open>Appending one message\<close>

definition is_temp :: "message \<Rightarrow> bool" where
  "is_temp m = starts_with (ms_id m) ''temp-''"

definition limit_messages :: "message list \<Rightarrow> message list" where
  "limit_messages ms =
     (if length ms > MAX_MESSAGES_PER_CONVERSATION
      then slice_last MAX_MESSAGES_PER_CONVERSATION ms else ms)"

definition rename_message :: "ident \<Rightarrow> ident \<Rightarrow> message list \<Rightarrow> message list" where
  "rename_message oldId newId = map_where (\<lambda>m. ms_id m = oldId) (\<lambda>m. m\<lparr>ms_id := newId\<rparr>)"

text \<open>The fall-through case: append, keep the newest, name an unnamed conversation.\<close>

definition append_message :: "clock \<Rightarrow> message \<Rightarrow> conversation \<Rightarrow> conversation" where
  "append_message clk msg c =
     (let limited = limit_messages (cv_messages c @ [msg])
      in c\<lparr>cv_name := (if cv_name c = ''New Session'' \<and> length limited = 1
                       then deriveSessionName (ms_content msg) 40 else cv_name c),
           cv_messages := limited, cv_messageCount := int (length limited),
           cv_lastMessageAt := Some (clk_iso clk), cv_updatedAt := clk_iso clk\<rparr>)"

text \<open>An earlier user message with the same content, real or temporary.\<close>

definition find_user_twin :: "bool \<Rightarrow> message \<Rightarrow> message list \<Rightarrow> message option" where
  "find_user_twin temp msg =
     find (\<lambda>m. ms_role m = User \<and> ms_content m = ms_content msg \<and> is_temp m = temp)"

text \<open>An assistant message with the same content, less than ten seconds away.\<close>

definition find_assistant_twin :: "clock \<Rightarrow> message \<Rightarrow> message list \<Rightarrow> message option" where
  "find_assistant_twin clk msg =
     (let now = coalesce (ms_timestamp msg) (clk_ms clk)
      in find (\<lambda>m. ms_role m = Assistant \<and> ms_content m = ms_content msg \<and>
                   \<bar>now - coalesce (ms_timestamp m) 0\<bar> < 10000))"

definition add_message :: "clock \<Rightarrow> message \<Rightarrow> conversation \<Rightarrow> conversation" where
  "add_message clk msg c =
     (if \<exists>m \<in> set (cv_messages c). ms_id m = ms_id msg then c
      else if ms_role msg = User \<and> is_temp msg \<and> find_user_twin False msg (cv_messages c) \<noteq> None
      then c
      else case (if ms_role msg = User \<and> \<not> is_temp msg
                 then find_user_twin True msg (cv_messages c) else None) of
        Some twin \<Rightarrow> c\<lparr>cv_messages := rename_message (ms_id twin) (ms_id msg) (cv_messages c)\<rparr>
      | None \<Rightarrow>
          (case (if ms_role msg = Assistant then find_assistant_twin clk msg (cv_messages c)
                 else None) of
             Some twin \<Rightarrow>
               if ms_id twin \<noteq> ms_id msg
               then c\<lparr>cv_messages := rename_message (ms_id twin) (ms_id msg) (cv_messages c)\<rparr>
               else c
           | None \<Rightarrow> append_message clk msg c))"

definition edit_conversation ::
    "ident \<Rightarrow> ident \<Rightarrow> (conversation \<Rightarrow> conversation) \<Rightarrow> session_state \<Rightarrow> session_state" where
  "edit_conversation sessionId conversationId f =
     with_session sessionId (\<lambda>s.
       s\<lparr>ss_conversations := map_where (\<lambda>c. cv_id c = conversationId) f (ss_conversations s)\<rparr>)"

definition addConversationMessage ::
    "clock \<Rightarrow> ident \<Rightarrow> ident \<Rightarrow> message \<Rightarrow> session_state \<Rightarrow> session_state" where
  "addConversationMessage clk sessionId conversationId msg =
     edit_conversation sessionId conversationId (add_message clk msg)"

section \<open>Merging a batch\<close>

text \<open>Messages without a timestamp sort last (\<open>Number.MAX_SAFE_INTEGER\<close>); the sort is stable.\<close>

definition sort_time :: "message \<Rightarrow> int" where
  "sort_time m = coalesce (ms_timestamp m) 9007199254740991"

definition fresh_messages :: "message list \<Rightarrow> message list \<Rightarrow> message list" where
  "fresh_messages existing newMessages =
     filter (\<lambda>m. ms_id m = [] \<or> ms_id m \<notin> ms_id ` set existing) (uniq_by ms_id {} newMessages)"

definition merge_messages :: "clock \<Rightarrow> message list \<Rightarrow> conversation \<Rightarrow> conversation" where
  "merge_messages clk newMessages c =
     (let uniqueNew = fresh_messages (cv_messages c) newMessages
      in if uniqueNew = [] then c
         else let merged = sort_key sort_time (cv_messages c @ uniqueNew);
                  limited = limit_messages (uniq_by ms_id {} merged)
              in c\<lparr>cv_messages := limited, cv_messageCount := int (length limited),
                   cv_lastMessageAt := Some (clk_iso clk), cv_updatedAt := clk_iso clk\<rparr>)"

definition mergeConversationMessages ::
    "clock \<Rightarrow> ident \<Rightarrow> ident \<Rightarrow> message list \<Rightarrow> session_state \<Rightarrow> session_state" where
  "mergeConversationMessages clk sessionId conversationId newMessages =
     edit_conversation sessionId conversationId (merge_messages clk newMessages)"

section \<open>Deleting and renaming\<close>

definition delete_message :: "clock \<Rightarrow> ident \<Rightarrow> conversation \<Rightarrow> conversation" where
  "delete_message clk messageId c =
     (let filtered = filter (\<lambda>m. ms_id m \<noteq> messageId) (cv_messages c)
      in c\<lparr>cv_messages := filtered, cv_messageCount := int (length filtered),
           cv_updatedAt := clk_iso clk\<rparr>)"

definition deleteConversationMessage ::
    "clock \<Rightarrow> ident \<Rightarrow> ident \<Rightarrow> ident \<Rightarrow> session_state \<Rightarrow> session_state" where
  "deleteConversationMessage clk sessionId conversationId messageId =
     edit_conversation sessionId conversationId (delete_message clk messageId)"

definition updateConversationMessageId ::
    "ident \<Rightarrow> ident \<Rightarrow> ident \<Rightarrow> ident \<Rightarrow> session_state \<Rightarrow> session_state" where
  "updateConversationMessageId sessionId conversationId oldId newId =
     edit_conversation sessionId conversationId
       (\<lambda>c. c\<lparr>cv_messages := rename_message oldId newId (cv_messages c)\<rparr>)"

section \<open>Finalizing a streamed message\<close>

definition finalized_message ::
    "clock \<Rightarrow> streaming_message \<Rightarrow> ident \<Rightarrow> string \<Rightarrow> tool_call list option \<Rightarrow> message" where
  "finalized_message clk streaming messageId fullContent toolCalls =
     \<lparr>ms_id = messageId, ms_role = Assistant, ms_content = fullContent,
      ms_thinking = (if sm_thinking streaming = [] then None else Some (sm_thinking streaming)),
      ms_timestamp = Some (clk_ms clk), ms_toolCalls = toolCalls, ms_toolResults = None,
      ms_stopReason = None, ms_usage = None, ms_model = None\<rparr>"

definition finalize_in_session ::
    "clock \<Rightarrow> streaming_message \<Rightarrow> ident \<Rightarrow> string \<Rightarrow> tool_call list option \<Rightarrow> session \<Rightarrow> session" where
  "finalize_in_session clk streaming messageId fullContent toolCalls s =
     (case find (\<lambda>a. ag_id a = sm_agentId streaming) (ss_agents s) of
        None \<Rightarrow> s
      | Some ag \<Rightarrow>
          if \<not> truthy (ag_conversation ag) then s
          else let i = findIndex (\<lambda>c. Some (cv_id c) = ag_conversation ag) (ss_conversations s)
               in if i = -1 then s
                  else let conv = ss_conversations s ! nat i
                       in if \<exists>m \<in> set (cv_messages conv). ms_id m = messageId then s
                          else let limited = limit_messages (cv_messages conv @
                                     [finalized_message clk streaming messageId fullContent toolCalls])
                               in s\<lparr>ss_conversations := (ss_conversations s)[nat i :=
                                     conv\<lparr>cv_messages := limited,
                                          cv_messageCount := int (length limited),
                                          cv_lastMessageAt := Some (clk_iso clk),
                                          cv_updatedAt := clk_iso clk\<rparr>]\<rparr>)"

text \<open>The stream is completed in the streaming store first; the two stores are the state.\<close>

definition finalizeStreamingMessage ::
    "clock \<Rightarrow> ident \<Rightarrow> string \<Rightarrow> tool_call list option \<Rightarrow>
     streaming_state \<times> session_state \<Rightarrow> streaming_state \<times> session_state" where
  "finalizeStreamingMessage clk messageId fullContent toolCalls st =
     (let streaming = getStreamingMessage messageId (fst st);
          streams = fst (completeStreaming messageId (fst st))
      in case streaming of
           None \<Rightarrow> (streams, snd st)
         | Some e \<Rightarrow>
             (streams, with_session (sm_sessionId e)
                (finalize_in_session clk e messageId fullContent toolCalls) (snd st)))"

end
