(* ===== verification/Session_Layout.thy ===== *)
theory Session_Layout
  imports Session_Messages
begin

text \<open>
  The window layout of a session: terminal windows, stacking order, the active window, file
  previews, the editor card, recent files, and what the store persists (\<open>partialize\<close>).
  The random parts of generated ids are arguments.
\<close>

section \<open>Terminal windows\<close>

datatype terminal_field =
    TwId ident
  | TwName string
  | TwShell string
  | TwStatus terminal_status
  | TwLocation terminal_location
  | TwGridSpan "grid_span option"
  | TwPosition "position option"
  | TwWorkingDirectory "string option"
  | TwCreatedAt string

fun assign_terminal :: "terminal_field \<Rightarrow> terminal_window \<Rightarrow> terminal_window" where
  "assign_terminal (TwId v) t = t\<lparr>tw_id := v\<rparr>"
| "assign_terminal (TwName v) t = t\<lparr>tw_name := v\<rparr>"
| "assign_terminal (TwShell v) t = t\<lparr>tw_shell := v\<rparr>"
| "assign_terminal (TwStatus v) t = t\<lparr>tw_status := v\<rparr>"
| "assign_terminal (TwLocation v) t = t\<lparr>tw_location := v\<rparr>"
| "assign_terminal (TwGridSpan v) t = t\<lparr>tw_gridSpan := v\<rparr>"
| "assign_terminal (TwPosition v) t = t\<lparr>tw_position := v\<rparr>"
| "assign_terminal (TwWorkingDirectory v) t = t\<lparr>tw_workingDirectory := v\<rparr>"
| "assign_terminal (TwCreatedAt v) t = t\<lparr>tw_createdAt := v\<rparr>"

definition generated_id :: "string \<Rightarrow> clock \<Rightarrow> string \<Rightarrow> ident" where
  "generated_id prefix clk rnd = prefix @ ''-'' @ show_int (clk_ms clk) @ ''-'' @ rnd"

text \<open>The id is also returned. \<open>shell\<close> defaults to \<open>bash\<close>.\<close>

definition addTerminalWindow ::
    "clock \<Rightarrow> string \<Rightarrow> ident \<Rightarrow> terminal_location \<Rightarrow> string option \<Rightarrow> string option \<Rightarrow>
     session_state \<Rightarrow> session_state \<times> ident" where
  "addTerminalWindow clk rnd sessionId location name shell state =
     (let tid = generated_id ''terminal'' clk rnd
      in (with_session sessionId (\<lambda>s.
            let terminalCount = length (filter (\<lambda>t. tw_location t = location) (terminals s));
                prefix = (if location = Panel then ''Terminal'' else ''Grid Terminal'');
                terminalName = str_or name (prefix @ '' '' @ show_nat (terminalCount + 1));
                tw = \<lparr>tw_id = tid, tw_name = terminalName, tw_shell = coalesce shell ''bash'',
                      tw_status = Disconnected, tw_location = location, tw_gridSpan = None,
                      tw_position = None, tw_workingDirectory = None, tw_createdAt = clk_iso clk\<rparr>
            in s\<lparr>ss_terminals := Some (terminals s @ [tw])\<rparr>) state,
          tid))"

definition removeTerminalWindow :: "ident \<Rightarrow> ident \<Rightarrow> session_state \<Rightarrow> session_state" where
  "removeTerminalWindow sessionId terminalId =
     with_session sessionId (\<lambda>s.
       s\<lparr>ss_terminals := Some (filter (\<lambda>t. tw_id t \<noteq> terminalId) (terminals s)),
         ss_activeWindowId :=
           (if ss_activeWindowId s = Some terminalId then None else ss_activeWindowId s)\<rparr>)"

definition edit_terminal ::
    "ident \<Rightarrow> ident \<Rightarrow> (terminal_window \<Rightarrow> terminal_window) \<Rightarrow> session_state \<Rightarrow> session_state" where
  "edit_terminal sessionId terminalId f =
     with_session sessionId (\<lambda>s.
       s\<lparr>ss_terminals := Some (map_where (\<lambda>t. tw_id t = terminalId) f (terminals s))\<rparr>)"

definition updateTerminalWindow ::
    "ident \<Rightarrow> ident \<Rightarrow> terminal_field list \<Rightarrow> session_state \<Rightarrow> session_state" where
  "updateTerminalWindow sessionId terminalId updates =
     edit_terminal sessionId terminalId (fold assign_terminal updates)"

definition updateTerminalWindowGridSpan ::
    "ident \<Rightarrow> ident \<Rightarrow> grid_span \<Rightarrow> session_state \<Rightarrow> session_state" where
  "updateTerminalWindowGridSpan sessionId terminalId gs =
     edit_terminal sessionId terminalId (\<lambda>t. t\<lparr>tw_gridSpan := Some gs\<rparr>)"

definition updateTerminalWindowPosition ::
    "ident \<Rightarrow> ident \<Rightarrow> pos_field list \<Rightarrow> session_state \<Rightarrow> session_state" where
  "updateTerminalWindowPosition sessionId terminalId pos =
     edit_terminal sessionId terminalId
       (\<lambda>t. t\<lparr>tw_position := Some (spread_position (tw_position t) pos)\<rparr>)"

definition bringTerminalWindowToFront :: "ident \<Rightarrow> ident \<Rightarrow> session_state \<Rightarrow> session_state" where
  "bringTerminalWindowToFront sessionId terminalId =
     with_session sessionId (\<lambda>s.
       let agentMaxZ = max_of (map (\<lambda>a. z_of (ag_position a)) (ss_agents s) @ [0]);
           terminalMaxZ = max_of (map (\<lambda>t. z_of (tw_position t)) (terminals s) @ [0]);
           maxZ = max agentMaxZ terminalMaxZ
       in s\<lparr>ss_terminals := Some (map_where (\<lambda>t. tw_id t = terminalId)
              (\<lambda>t. t\<lparr>tw_position := Some (spread_position (tw_position t) [PZIndex (maxZ + 1)])\<rparr>)
              (terminals s))\<rparr>)"

definition setActiveWindow :: "ident \<Rightarrow> ident option \<Rightarrow> session_state \<Rightarrow> session_state" where
  "setActiveWindow sessionId windowId =
     with_session sessionId (\<lambda>s.
       s\<lparr>ss_activeWindowId := windowId,
         ss_activeAgentId :=
           (if \<exists>a \<in> set (ss_agents s). Some (ag_id a) = windowId then windowId else None)\<rparr>)"

section \<open>File previews\<close>

text \<open>
  The first argument is a path or a ready preview. \<open>lines\<close> is the \<open>options\<close> object; a
  missing object reads as two \<open>undefined\<close>s.
\<close>

datatype preview_source = FromPath string | FromPreview file_preview

definition preview_of ::
    "clock \<Rightarrow> string \<Rightarrow> preview_source \<Rightarrow> (int option \<times> int option) \<Rightarrow> session \<Rightarrow> file_preview" where
  "preview_of clk rnd src lines s =
     (case src of
        FromPreview p \<Rightarrow> p
      | FromPath path \<Rightarrow>
          \<lparr>fp_id = generated_id ''preview'' clk rnd, fp_path = path, fp_content = [],
           fp_language = getLanguageFromPath path, fp_pinned = False,
           fp_position = empty_position\<lparr>pos_x := Some 100, pos_y := Some 100\<rparr>,
           fp_gridSpan = None, fp_docked = (ss_viewMode s \<noteq> FreeformView),
           fp_startLine = fst lines, fp_endLine = snd lines\<rparr>)"

definition push_recent :: "string \<Rightarrow> string list \<Rightarrow> string list" where
  "push_recent path recent = take 20 (path # filter (\<lambda>p. p \<noteq> path) recent)"

definition openFilePreview ::
    "clock \<Rightarrow> string \<Rightarrow> ident \<Rightarrow> preview_source \<Rightarrow> (int option \<times> int option) \<Rightarrow>
     session_state \<Rightarrow> session_state" where
  "openFilePreview clk rnd sessionId src lines state =
     (case map_of (st_sessions state) sessionId of
        None \<Rightarrow> state
      | Some s \<Rightarrow>
          let preview = preview_of clk rnd src lines s;
              existingIdx = findIndex (\<lambda>p. fp_path p = fp_path preview) (ss_previews s)
          in if existingIdx \<ge> 0
             then state\<lparr>st_sessions := AList.update sessionId
                    (s\<lparr>ss_previews := (ss_previews s)[nat existingIdx :=
                         (ss_previews s ! nat existingIdx)
                           \<lparr>fp_startLine := fst lines, fp_endLine := snd lines\<rparr>]\<rparr>)
                    (st_sessions state)\<rparr>
             else state\<lparr>st_recentFiles := push_recent (fp_path preview) (st_recentFiles state),
                        st_sessions := AList.update sessionId
                          (s\<lparr>ss_previews := ss_previews s @ [preview]\<rparr>) (st_sessions state)\<rparr>)"

definition closeFilePreview :: "ident \<Rightarrow> ident \<Rightarrow> session_state \<Rightarrow> session_state" where
  "closeFilePreview sessionId previewId =
     with_session sessionId (\<lambda>s.
       s\<lparr>ss_previews := filter (\<lambda>p. fp_id p \<noteq> previewId) (ss_previews s)\<rparr>)"

datatype preview_field =
    FpId ident
  | FpPath string
  | FpContent string
  | FpLanguage string
  | FpPinned bool
  | FpPosition position
  | FpGridSpan "grid_span option"
  | FpDocked bool
  | FpStartLine "int option"
  | FpEndLine "int option"

fun assign_preview :: "preview_field \<Rightarrow> file_preview \<Rightarrow> file_preview" where
  "assign_preview (FpId v) p = p\<lparr>fp_id := v\<rparr>"
| "assign_preview (FpPath v) p = p\<lparr>fp_path := v\<rparr>"
| "assign_preview (FpContent v) p = p\<lparr>fp_content := v\<rparr>"
| "assign_preview (FpLanguage v) p = p\<lparr>fp_language := v\<rparr>"
| "assign_preview (FpPinned v) p = p\<lparr>fp_pinned := v\<rparr>"
| "assign_preview (FpPosition v) p = p\<lparr>fp_position := v\<rparr>"
| "assign_preview (FpGridSpan v) p = p\<lparr>fp_gridSpan := v\<rparr>"
| "assign_preview (FpDocked v) p = p\<lparr>fp_docked := v\<rparr>"
| "assign_preview (FpStartLine v) p = p\<lparr>fp_startLine := v\<rparr>"
| "assign_preview (FpEndLine v) p = p\<lparr>fp_endLine := v\<rparr>"

definition edit_preview ::
    "ident \<Rightarrow> ident \<Rightarrow> (file_preview \<Rightarrow> file_preview) \<Rightarrow> session_state \<Rightarrow> session_state" where
  "edit_preview sessionId previewId f =
     with_session sessionId (\<lambda>s.
       s\<lparr>ss_previews := map_where (\<lambda>p. fp_id p = previewId) f (ss_previews s)\<rparr>)"

definition updateFilePreview ::
    "ident \<Rightarrow> ident \<Rightarrow> preview_field list \<Rightarrow> session_state \<Rightarrow> session_state" where
  "updateFilePreview sessionId previewId updates =
     edit_preview sessionId previewId (fold assign_preview updates)"

definition pinFilePreview :: "ident \<Rightarrow> ident \<Rightarrow> bool \<Rightarrow> session_state \<Rightarrow> session_state" where
  "pinFilePreview sessionId previewId pinned =
     edit_preview sessionId previewId (\<lambda>p. p\<lparr>fp_pinned := pinned\<rparr>)"

definition dockFilePreview :: "ident \<Rightarrow> ident \<Rightarrow> bool \<Rightarrow> session_state \<Rightarrow> session_state" where
  "dockFilePreview sessionId previewId docked =
     edit_preview sessionId previewId (\<lambda>p. p\<lparr>fp_docked := docked\<rparr>)"

definition updateFilePreviewGridSpan ::
    "ident \<Rightarrow> ident \<Rightarrow> grid_span \<Rightarrow> session_state \<Rightarrow> session_state" where
  "updateFilePreviewGridSpan sessionId previewId gs =
     edit_preview sessionId previewId (\<lambda>p. p\<lparr>fp_gridSpan := Some gs\<rparr>)"

section \<open>Editor card and recent files\<close>

definition createEditorGridCard ::
    "clock \<Rightarrow> string \<Rightarrow> ident \<Rightarrow> session_state \<Rightarrow> session_state \<times> ident" where
  "createEditorGridCard clk rnd sessionId state =
     (let cid = generated_id ''editor'' clk rnd
      in (with_session sessionId (\<lambda>s.
            s\<lparr>ss_editorGridCardId := Some cid,
              ss_editorGridSpan := Some \<lparr>colSpan = 2, rowSpan = 2, colStart = None\<rparr>\<rparr>) state,
          cid))"

definition removeEditorGridCard :: "ident \<Rightarrow> session_state \<Rightarrow> session_state" where
  "removeEditorGridCard sessionId =
     with_session sessionId (\<lambda>s. s\<lparr>ss_editorGridCardId := None, ss_editorGridSpan := None\<rparr>)"

definition updateEditorGridSpan :: "ident \<Rightarrow> grid_span \<Rightarrow> session_state \<Rightarrow> session_state" where
  "updateEditorGridSpan sessionId gs =
     with_session sessionId (\<lambda>s. s\<lparr>ss_editorGridSpan := Some gs\<rparr>)"

definition updateEditorFreeformPosition ::
    "ident \<Rightarrow> pos_field list \<Rightarrow> session_state \<Rightarrow> session_state" where
  "updateEditorFreeformPosition sessionId pos =
     with_session sessionId (\<lambda>s.
       let currentPosition = coalesce (ss_editorFreeformPosition s)
             \<lparr>pos_x = Some 100, pos_y = Some 100, pos_width = Some 600, pos_height = Some 500,
              pos_zIndex = Some 1\<rparr>
       in s\<lparr>ss_editorFreeformPosition := Some (fold assign_pos pos currentPosition)\<rparr>)"

definition addRecentFile :: "string \<Rightarrow> session_state \<Rightarrow> session_state" where
  "addRecentFile path state = state\<lparr>st_recentFiles := push_recent path (st_recentFiles state)\<rparr>"

definition clearRecentFiles :: "session_state \<Rightarrow> session_state" where
  "clearRecentFiles state = state\<lparr>st_recentFiles := []\<rparr>"

section \<open>Persistence\<close>

definition partialize_session :: "session \<Rightarrow> session" where
  "partialize_session s =
     s\<lparr>ss_terminals := Some (terminals s),
       ss_conversations := map (\<lambda>c. c\<lparr>cv_messages :=
           slice_last MAX_MESSAGES_PER_CONVERSATION (cv_messages c)\<rparr>) (ss_conversations s),
       ss_previews := map (\<lambda>p. p\<lparr>fp_content := []\<rparr>) (take 20 (ss_previews s))\<rparr>"

definition partialize :: "session_state \<Rightarrow> session_state" where
  "partialize state =
     \<lparr>st_sessions = from_entries
        (map (\<lambda>(sid, s). (sid, partialize_session s)) (own_entries (st_sessions state))),
      st_currentSessionId = st_currentSessionId state,
      st_recentFiles = take MAX_RECENT_FILES (st_recentFiles state)\<rparr>"

lemma partialize_session_idem: "partialize_session (partialize_session s) = partialize_session s"
  by (simp add: partialize_session_def slice_last_def comp_def)

lemma partialize_entries:
  assumes "obj_ok (st_sessions st)"
  shows "st_sessions (partialize st) = map (\<lambda>e. (fst e, partialize_session (snd e))) (own_entries (st_sessions st))"
  using distinct_own_keys [OF assms]
  by (simp add: partialize_def split_def from_entries_distinct comp_def own_keys_def)

end
