(* ===== verification/Message_Facts.thy ===== *)
theory Message_Facts
  imports Session_Layout
begin

text \<open>
  Facts about the message operations of one conversation: ids stay unique and non-empty, the
  bound holds, a merge is sorted and keeps the newest messages, and an optimistic user message
  and its real counterpart end as one message in either order.
\<close>

definition messages_ok :: "message list \<Rightarrow> bool" where
  "messages_ok ms \<longleftrightarrow> distinct (map ms_id ms) \<and> [] \<notin> ms_id ` set ms \<and>
     length ms \<le> MAX_MESSAGES_PER_CONVERSATION"

lemma messages_okI:
  "distinct (map ms_id ms) \<Longrightarrow> [] \<notin> ms_id ` set ms \<Longrightarrow>
   length ms \<le> MAX_MESSAGES_PER_CONVERSATION \<Longrightarrow> messages_ok ms"
  by (simp add: messages_ok_def)

lemma distinct_map_sort_key: "distinct (map f (sort_key g xs)) = distinct (map f xs)"
  by (simp add: distinct_map)

section \<open>The bound\<close>

lemma limit_messages_eq: "limit_messages ms = slice_last MAX_MESSAGES_PER_CONVERSATION ms"
  by (simp add: limit_messages_def slice_last_short)

lemma limit_messages_length: "length (limit_messages ms) \<le> MAX_MESSAGES_PER_CONVERSATION"
  by (simp add: limit_messages_eq slice_last_length)

lemma limit_messages_subset: "set (limit_messages ms) \<subseteq> set ms"
  by (simp add: limit_messages_eq set_slice_last)

lemma limit_messages_short: "length ms \<le> MAX_MESSAGES_PER_CONVERSATION \<Longrightarrow> limit_messages ms = ms"
  by (simp add: limit_messages_def)

lemma limit_messages_distinct: "distinct (map ms_id ms) \<Longrightarrow> distinct (map ms_id (limit_messages ms))"
  by (simp add: limit_messages_eq distinct_map_slice_last)

lemma limit_messages_suffix: "\<exists>old. ms = old @ limit_messages ms"
  by (metis append_take_drop_id limit_messages_eq slice_last_def)

lemma messages_ok_limit:
  "distinct (map ms_id ms) \<Longrightarrow> [] \<notin> ms_id ` set ms \<Longrightarrow> messages_ok (limit_messages ms)"
  using limit_messages_subset [of ms]
  by (intro messages_okI) (auto simp: limit_messages_distinct limit_messages_length)

lemma last_limit_snoc: "last (limit_messages (ms @ [m])) = m"
  by (simp add: limit_messages_eq slice_last_snoc MAX_MESSAGES_PER_CONVERSATION_def)

section \<open>Renaming\<close>

lemma rename_message_ids:
  "map ms_id (rename_message old new ms) = map (\<lambda>i. if i = old then new else i) (map ms_id ms)"
  by (auto simp: rename_message_def map_where_def)

lemma rename_message_length [simp]: "length (rename_message old new ms) = length ms"
  by (simp add: rename_message_def)

lemma messages_ok_rename:
  assumes ok: "messages_ok ms" and new: "new \<notin> ms_id ` set ms" "new \<noteq> []"
  shows "messages_ok (rename_message old new ms)"
proof (rule messages_okI)
  have ids: "map ms_id (rename_message old new ms) = map (\<lambda>i. if i = old then new else i) (map ms_id ms)"
    by (rule rename_message_ids)
  have "inj_on (\<lambda>i. if i = old then new else i) (set (map ms_id ms))"
    using new by (auto simp: inj_on_def image_iff)
  then show "distinct (map ms_id (rename_message old new ms))"
    using ok unfolding ids messages_ok_def distinct_map [of _ "map ms_id ms"] by simp
  have "set (map ms_id (rename_message old new ms)) \<subseteq> insert new (ms_id ` set ms)"
    unfolding ids by auto
  then show "[] \<notin> ms_id ` set (rename_message old new ms)"
    using ok new unfolding messages_ok_def set_map by blast
  show "length (rename_message old new ms) \<le> MAX_MESSAGES_PER_CONVERSATION"
    using ok by (simp add: messages_ok_def)
qed

section \<open>Appending\<close>

lemma append_message_messages [simp]:
  "cv_messages (append_message clk msg c) = limit_messages (cv_messages c @ [msg])"
  by (simp add: append_message_def Let_def)

lemma add_message_cases:
  "add_message clk msg c = c \<or>
   ms_id msg \<notin> ms_id ` set (cv_messages c) \<and>
     ((\<exists>old. add_message clk msg c =
               c\<lparr>cv_messages := rename_message old (ms_id msg) (cv_messages c)\<rparr>) \<or>
      add_message clk msg c = append_message clk msg c)"
proof (cases "ms_id msg \<in> ms_id ` set (cv_messages c)")
  case True
  then have "\<exists>m \<in> set (cv_messages c). ms_id m = ms_id msg"
    by (metis imageE)
  then show ?thesis
    by (simp add: add_message_def)
next
  case False
  then show ?thesis
    unfolding add_message_def by (auto split: option.split simp del: not_None_eq)
qed

lemma add_message_ok:
  assumes "messages_ok (cv_messages c)" "ms_id msg \<noteq> []"
  shows "messages_ok (cv_messages (add_message clk msg c))"
proof -
  have "messages_ok (limit_messages (cv_messages c @ [msg]))"
    if "ms_id msg \<notin> ms_id ` set (cv_messages c)"
    using that assms by (intro messages_ok_limit) (auto simp: messages_ok_def)
  with add_message_cases [of clk msg c] assms show ?thesis
    by (auto simp: messages_ok_rename)
qed

lemma append_message_frame [simp]:
  "cv_id (append_message clk msg c) = cv_id c" "cv_attached (append_message clk msg c) = cv_attached c"
  by (simp_all add: append_message_def Let_def)

lemma add_message_frame [simp]:
  "cv_id (add_message clk msg c) = cv_id c" "cv_attached (add_message clk msg c) = cv_attached c"
  by (auto simp: add_message_def split: option.splits)

section \<open>Merging\<close>

lemma fresh_messages_ids:
  assumes "\<forall>m \<in> set new. ms_id m \<noteq> []"
  shows "distinct (map ms_id (fresh_messages old new))"
    and "ms_id ` set (fresh_messages old new) = ms_id ` set new - ms_id ` set old"
proof -
  note u = uniq_by_keys [OF assms, of "{}"]
  have ne: "ms_id m \<noteq> []" if "m \<in> set (uniq_by ms_id {} new)" for m
    using that set_uniq_by_subset [of ms_id "{}" new] assms by blast
  show "distinct (map ms_id (fresh_messages old new))"
    using u unfolding fresh_messages_def by (simp add: distinct_map_filter)
  show "ms_id ` set (fresh_messages old new) = ms_id ` set new - ms_id ` set old"
  proof -
    have "fresh_messages old new = filter (\<lambda>m. ms_id m \<notin> ms_id ` set old) (uniq_by ms_id {} new)"
      using ne unfolding fresh_messages_def by (intro filter_cong) auto
    then have "ms_id ` set (fresh_messages old new) = ms_id ` set (uniq_by ms_id {} new) - ms_id ` set old"
      by (auto simp: image_iff)
    with u show ?thesis by simp
  qed
qed

lemma fresh_messages_subset: "set (fresh_messages old new) \<subseteq> set new"
  using set_uniq_by_subset [of ms_id "{}" new] by (auto simp: fresh_messages_def)

lemma fresh_messages_nonempty:
  "\<forall>m \<in> set new. ms_id m \<noteq> [] \<Longrightarrow> \<forall>m \<in> set (fresh_messages old new). ms_id m \<noteq> []"
  using fresh_messages_subset by blast

lemma merged_uniq:
  assumes "messages_ok old" "\<forall>m \<in> set new. ms_id m \<noteq> []"
  shows "uniq_by ms_id {} (sort_key sort_time (old @ fresh_messages old new)) =
         sort_key sort_time (old @ fresh_messages old new)"
proof (rule uniq_by_id)
  let ?all = "old @ fresh_messages old new"
  have d: "distinct (map ms_id ?all)"
    using assms fresh_messages_ids [OF assms(2), of old] by (auto simp: messages_ok_def)
  show "distinct (map ms_id (sort_key sort_time ?all))"
    using d by (simp only: distinct_map_sort_key)
  show "\<forall>x \<in> set (sort_key sort_time ?all). ms_id x \<noteq> []"
    using assms(1) fresh_messages_nonempty [OF assms(2), of old] by (force simp: messages_ok_def)
qed simp

lemma merge_messages_messages:
  assumes "messages_ok (cv_messages c)" "\<forall>m \<in> set new. ms_id m \<noteq> []"
  shows "cv_messages (merge_messages clk new c) =
    (if fresh_messages (cv_messages c) new = [] then cv_messages c
     else limit_messages (sort_key sort_time (cv_messages c @ fresh_messages (cv_messages c) new)))"
  using merged_uniq [OF assms] by (simp add: merge_messages_def Let_def)

lemma merge_messages_ok:
  assumes "messages_ok (cv_messages c)" "\<forall>m \<in> set new. ms_id m \<noteq> []"
  shows "messages_ok (cv_messages (merge_messages clk new c))"
proof -
  let ?all = "cv_messages c @ fresh_messages (cv_messages c) new"
  have d: "distinct (map ms_id ?all)"
    using assms fresh_messages_ids [OF assms(2), of "cv_messages c"] by (auto simp: messages_ok_def)
  have ne: "[] \<notin> ms_id ` set ?all"
    using assms(1) fresh_messages_nonempty [OF assms(2), of "cv_messages c"]
    by (force simp: messages_ok_def)
  have "distinct (map ms_id (sort_key sort_time ?all))"
    using d by (simp only: distinct_map_sort_key)
  then show ?thesis
    using assms ne by (auto simp: merge_messages_messages intro!: messages_ok_limit)
qed

lemma merge_messages_frame [simp]:
  "cv_id (merge_messages clk new c) = cv_id c" "cv_attached (merge_messages clk new c) = cv_attached c"
  by (auto simp: merge_messages_def Let_def)

section \<open>Deleting\<close>

lemma delete_message_ok: "messages_ok (cv_messages c) \<Longrightarrow> messages_ok (cv_messages (delete_message clk i c))"
  by (auto simp: delete_message_def Let_def messages_ok_def distinct_map_filter
      intro: order_trans [OF length_filter_le])

lemma delete_message_frame [simp]:
  "cv_id (delete_message clk i c) = cv_id c" "cv_attached (delete_message clk i c) = cv_attached c"
  by (auto simp: delete_message_def Let_def)

section \<open>What a merge keeps\<close>

lemma not_in_ids: "i \<notin> ms_id ` set ms \<longleftrightarrow> (\<forall>m \<in> set ms. ms_id m \<noteq> i)"
  by auto

lemma limit_sorted: "sorted (map sort_time xs) \<Longrightarrow> sorted (map sort_time (limit_messages xs))"
  by (simp add: limit_messages_eq sorted_slice_last)

lemma limit_keeps_newest:
  assumes "sorted (map sort_time xs)" "d \<in> set xs" "d \<notin> set (limit_messages xs)" "k \<in> set (limit_messages xs)"
  shows "sort_time d \<le> sort_time k"
proof -
  obtain old where xs: "xs = old @ limit_messages xs"
    using limit_messages_suffix by blast
  with assms(2,3) have "d \<in> set old"
    by (metis Un_iff set_append)
  moreover have "sorted (map sort_time old @ map sort_time (limit_messages xs))"
    using assms(1) xs by (metis map_append)
  ultimately show ?thesis
    using assms(4) by (auto simp: sorted_append)
qed

lemma fresh_messages_length: "length (fresh_messages old new) \<le> length new"
proof -
  have "length (uniq_by k seen xs) \<le> length xs" for k seen and xs :: "message list"
    by (induction k seen xs rule: uniq_by.induct) auto
  then show ?thesis
    unfolding fresh_messages_def by (meson length_filter_le order_trans)
qed

text \<open>The first message with its id among the old and the new ones.\<close>

definition first_with_id :: "message list \<Rightarrow> message \<Rightarrow> bool" where
  "first_with_id ms d \<longleftrightarrow> find (\<lambda>x. ms_id x = ms_id d) ms = Some d"

lemma first_old: "distinct (map ms_id old) \<Longrightarrow> d \<in> set old \<Longrightarrow> find (\<lambda>x. ms_id x = ms_id d) old = Some d"
  by (induction old) (auto simp: rev_image_eqI)

lemma merged_candidates:
  assumes "messages_ok old" "\<forall>m \<in> set new. ms_id m \<noteq> []"
  shows "set (old @ fresh_messages old new) = {d. first_with_id (old @ new) d}"
proof -
  have old: "first_with_id (old @ new) d" if "d \<in> set old" for d
    using first_old [of old d] that assms(1) by (simp add: first_with_id_def find_append messages_ok_def)
  have absent: "find (\<lambda>x. ms_id x = i) old = None \<longleftrightarrow> i \<notin> ms_id ` set old" for i
    by (auto simp: find_None_iff)
  have "first_with_id (old @ new) d \<longleftrightarrow> d \<in> set (fresh_messages old new)" if "d \<notin> set old" for d
  proof (cases "ms_id d \<in> ms_id ` set old")
    case True
    then obtain e where e: "find (\<lambda>x. ms_id x = ms_id d) old = Some e"
      using absent [of "ms_id d"] by blast
    then have "e \<in> set old"
      by (metis find_Some_iff nth_mem)
    with True that e show ?thesis
      using fresh_messages_ids(2) [OF assms(2), of old] by (auto simp: first_with_id_def find_append)
  next
    case False
    then show ?thesis
      using absent [of "ms_id d"] uniq_by_first [OF assms(2), of d "{}"] assms(2) set_uniq_by_subset [of ms_id "{}" new]
      by (auto simp: first_with_id_def find_append fresh_messages_def)
  qed
  with old show ?thesis by auto
qed

lemma merged_length:
  assumes "messages_ok old" "\<forall>m \<in> set new. ms_id m \<noteq> []"
  shows "length (limit_messages (sort_key sort_time (old @ fresh_messages old new))) =
    min MAX_MESSAGES_PER_CONVERSATION (card {d. first_with_id (old @ new) d})"
proof -
  have "distinct (map ms_id (old @ fresh_messages old new))"
    using assms fresh_messages_ids [OF assms(2), of old] by (auto simp: messages_ok_def)
  then have "distinct (old @ fresh_messages old new)"
    by (simp only: distinct_map)
  then have "card {d. first_with_id (old @ new) d} = length (old @ fresh_messages old new)"
    unfolding merged_candidates [OF assms, symmetric] by (rule distinct_card)
  then show ?thesis
    by (simp add: limit_messages_eq slice_last_length)
qed

lemma merge_messages_idem:
  assumes "messages_ok (cv_messages c)" "\<forall>m \<in> set new. ms_id m \<noteq> []"
    and "length (cv_messages c) + length new \<le> MAX_MESSAGES_PER_CONVERSATION"
  shows "merge_messages clk' new (merge_messages clk new c) = merge_messages clk new c"
proof -
  let ?f = "fresh_messages (cv_messages c) new"
  have len: "length ?f \<le> length new"
    by (rule fresh_messages_length)
  have ids: "ms_id ` set new \<subseteq> ms_id ` set (cv_messages (merge_messages clk new c))"
  proof (cases "?f = []")
    case True
    then show ?thesis
      using fresh_messages_ids(2) [OF assms(2), of "cv_messages c"] merge_messages_messages [OF assms(1,2)]
      by auto
  next
    case False
    then have "set (cv_messages (merge_messages clk new c)) = set (cv_messages c) \<union> set ?f"
      using len assms(3) by (simp add: merge_messages_messages [OF assms(1,2)] limit_messages_short)
    then show ?thesis
      using fresh_messages_ids(2) [OF assms(2), of "cv_messages c"] by (auto simp: image_Un)
  qed
  have "ms_id ` set (fresh_messages (cv_messages (merge_messages clk new c)) new) = {}"
    using fresh_messages_ids(2) [OF assms(2), of "cv_messages (merge_messages clk new c)"] ids by simp
  then have "fresh_messages (cv_messages (merge_messages clk new c)) new = []"
    by simp
  then show ?thesis
    by (simp add: merge_messages_def [of clk'])
qed

section \<open>Optimistic messages\<close>

lemma rename_last:
  "i \<notin> ms_id ` set ms \<Longrightarrow> ms_id t = i \<Longrightarrow> rename_message i j (ms @ [t]) = ms @ [t\<lparr>ms_id := j\<rparr>]"
  by (simp add: rename_message_def map_where_def not_in_ids map_idI)

text \<open>No optimistic user message with the text still waits for its confirmed copy.\<close>

definition confirmed :: "string \<Rightarrow> conversation \<Rightarrow> bool" where
  "confirmed body c \<longleftrightarrow> (\<forall>m \<in> set (cv_messages c). ms_role m = User \<and> ms_content m = body \<longrightarrow> \<not> is_temp m)"

lemma limit_snoc: "limit_messages (ms @ [m]) = slice_last (MAX_MESSAGES_PER_CONVERSATION - 1) ms @ [m]"
  by (simp add: limit_messages_eq slice_last_snoc MAX_MESSAGES_PER_CONVERSATION_def)

lemma no_optimistic_twin: "confirmed (ms_content m) c \<Longrightarrow> find_user_twin True m (cv_messages c) = None"
  by (auto simp: confirmed_def find_user_twin_def find_None_iff)

lemma add_confirmed:
  assumes "ms_role r = User" "\<not> is_temp r" "ms_id r \<notin> ms_id ` set (cv_messages c)" "confirmed (ms_content r) c"
  shows "add_message clk r c = append_message clk r c"
  using assms no_optimistic_twin [of r c] by (auto simp: add_message_def image_iff)

text \<open>An optimistic message is appended when no confirmed one says the same, and is renamed by its confirmed copy.\<close>

lemma add_real_after_temp:
  assumes "ms_role t = User" "ms_role r = User" "ms_content t = ms_content r" "is_temp t" "\<not> is_temp r"
    and new: "ms_id t \<notin> ms_id ` set (cv_messages c)" "ms_id r \<notin> ms_id ` set (cv_messages c)"
    and c: "confirmed (ms_content r) c"
  shows "cv_messages (add_message clk' r (add_message clk t c)) = limit_messages (cv_messages c @
    [if find_user_twin False r (cv_messages c) = None then t\<lparr>ms_id := ms_id r\<rparr> else r])"
proof (cases "find_user_twin False r (cv_messages c)")
  case None
  let ?old = "slice_last (MAX_MESSAGES_PER_CONVERSATION - 1) (cv_messages c)"
  let ?c = "append_message clk t c"
  have "find_user_twin False t (cv_messages c) = None"
    using None assms(3) by (simp add: find_user_twin_def)
  then have add: "add_message clk t c = ?c"
    using assms by (auto simp: add_message_def image_iff)
  have ms: "cv_messages ?c = ?old @ [t]"
    by (simp add: limit_snoc)
  have old: "set ?old \<subseteq> set (cv_messages c)"
    by (rule set_slice_last)
  have "ms_id t \<noteq> ms_id r"
    using assms(4,5) by (auto simp: is_temp_def)
  then have fresh: "\<not> (\<exists>x \<in> set (cv_messages ?c). ms_id x = ms_id r)"
  proof -
    have "ms_id r \<notin> ms_id ` set ?old"
      using new(2) old by blast
    with \<open>ms_id t \<noteq> ms_id r\<close> show ?thesis
      unfolding ms by (auto simp: not_in_ids)
  qed
  have "find (\<lambda>m. ms_role m = User \<and> ms_content m = ms_content r \<and> is_temp m) ?old = None"
    using c old by (auto simp: confirmed_def find_None_iff)
  then have "find_user_twin True r (cv_messages ?c) = Some t"
    unfolding ms using assms by (simp add: find_user_twin_def find_append)
  with fresh have "cv_messages (add_message clk' r ?c) = rename_message (ms_id t) (ms_id r) (?old @ [t])"
    using assms(2,5) by (simp add: add_message_def ms limit_snoc)
  moreover have "ms_id t \<notin> ms_id ` set ?old"
    using new(1) old by blast
  ultimately show ?thesis
    using None by (simp add: add rename_last limit_snoc)
next
  case (Some x)
  then have "find_user_twin False t (cv_messages c) \<noteq> None"
    using assms(3) by (simp add: find_user_twin_def)
  then have "add_message clk t c = c"
    using assms(1,4) by (simp add: add_message_def)
  with Some add_confirmed [OF assms(2,5) new(2) c] show ?thesis
    by simp
qed

lemma add_temp_after_real:
  assumes "ms_role t = User" "ms_role r = User" "ms_content t = ms_content r" "is_temp t" "\<not> is_temp r"
    and "ms_id r \<notin> ms_id ` set (cv_messages c)" "confirmed (ms_content r) c"
  shows "cv_messages (add_message clk' t (add_message clk r c)) = limit_messages (cv_messages c @ [r])"
proof -
  let ?c = "append_message clk r c"
  have "r \<in> set (cv_messages ?c)"
    by (simp add: limit_snoc)
  then have "find_user_twin False t (cv_messages ?c) \<noteq> None"
    using assms(2,3,5) unfolding find_user_twin_def find_None_iff by auto
  then have "add_message clk' t ?c = ?c"
    using assms(1,4) by (simp add: add_message_def)
  then show ?thesis
    using add_confirmed [OF assms(2,5,6,7)] by simp
qed

section \<open>Finalized streams\<close>

lemma started_entry:
  "map_of (fold apply_token tks (startStreamingMessage clk k a m ws)) m = Some
     \<lparr>sm_messageId = m, sm_agentId = a, sm_sessionId = k,
      sm_content = concat (map (token_content m) tks),
      sm_thinking = concat (map (token_thinking m) tks), sm_isStreaming = True,
      sm_startedAt = clk_ms clk\<rparr>"
  by (simp add: fold_token_entry startStreamingMessage_def)

text \<open>The message that a finished stream leaves behind.\<close>

definition streamed :: "clock \<Rightarrow> ident \<Rightarrow> string \<Rightarrow> tool_call list option \<Rightarrow> token list \<Rightarrow> message" where
  "streamed clk m body tcs tks =
     \<lparr>ms_id = m, ms_role = Assistant, ms_content = body,
      ms_thinking = (let th = concat (map (token_thinking m) tks) in if th = [] then None else Some th),
      ms_timestamp = Some (clk_ms clk), ms_toolCalls = tcs, ms_toolResults = None,
      ms_stopReason = None, ms_usage = None, ms_model = None\<rparr>"

lemma finalize_session_effect:
  assumes ag: "find (\<lambda>x. ag_id x = sm_agentId e) (ss_agents s) = Some ag"
    and ptr: "ag_conversation ag = Some i" "i \<noteq> []"
    and c: "find (\<lambda>x. cv_id x = i) (ss_conversations s) = Some c"
    and new: "m \<notin> ms_id ` set (cv_messages c)"
  shows "\<exists>c'. find (\<lambda>x. cv_id x = i) (ss_conversations (finalize_in_session clk e m body tcs s)) = Some c' \<and>
     cv_messages c' = limit_messages (cv_messages c @ [finalized_message clk e m body tcs])"
proof -
  let ?P = "\<lambda>x. cv_id x = i"
  let ?ms = "limit_messages (cv_messages c @ [finalized_message clk e m body tcs])"
  let ?c = "c\<lparr>cv_messages := ?ms, cv_messageCount := int (length ?ms),
      cv_lastMessageAt := Some (clk_iso clk), cv_updatedAt := clk_iso clk\<rparr>"
  have i: "0 \<le> findIndex ?P (ss_conversations s)" "ss_conversations s ! nat (findIndex ?P (ss_conversations s)) = c"
    using find_findIndex [OF c] by auto
  have id: "cv_id c = i"
    using c by (auto simp: find_Some_iff)
  have "\<not> (\<exists>x \<in> set (cv_messages c). ms_id x = m)"
    using new by (metis image_eqI)
  then have "ss_conversations (finalize_in_session clk e m body tcs s) =
      (ss_conversations s)[nat (findIndex ?P (ss_conversations s)) := ?c]"
    using ag ptr i by (simp add: finalize_in_session_def Let_def)
  moreover have "find ?P ((ss_conversations s)[nat (findIndex ?P (ss_conversations s)) := ?c]) = Some ?c"
    using c id by (intro find_list_update) auto
  ultimately show ?thesis
    by simp
qed

end
