(* ===== verification/Machines.thy ===== *)
theory Machines
  imports Main
begin

text \<open>
  The contract of a component that is driven by events: a step function, a guard that says which
  events its callers may send in a state, an invariant. Every store interprets it, and reads off
  that the invariant survives any guarded history.
\<close>

text \<open>A history whose every event is permitted in the state it meets.\<close>

fun guarded :: "('e \<Rightarrow> 's \<Rightarrow> bool) \<Rightarrow> ('e \<Rightarrow> 's \<Rightarrow> 's) \<Rightarrow> 'e list \<Rightarrow> 's \<Rightarrow> bool" where
  "guarded ok step [] s = True"
| "guarded ok step (e # es) s = (ok e s \<and> guarded ok step es (step e s))"

lemma guarded_append:
  "guarded ok step (xs @ ys) s \<longleftrightarrow> guarded ok step xs s \<and> guarded ok step ys (fold step xs s)"
  by (induction xs arbitrary: s) auto

lemma guarded_mono: "guarded ok step es s \<Longrightarrow> (\<And>e s. ok e s \<Longrightarrow> ok' e s) \<Longrightarrow> guarded ok' step es s"
  by (induction es arbitrary: s) auto

lemma guarded_True [simp]: "guarded (\<lambda>e s. True) step es s"
  by (induction es arbitrary: s) auto

locale machine =
  fixes step :: "'e \<Rightarrow> 's \<Rightarrow> 's"
    and ok :: "'e \<Rightarrow> 's \<Rightarrow> bool"
    and inv :: "'s \<Rightarrow> bool"
    and init :: 's
  assumes inv_init: "inv init"
    and inv_step: "inv s \<Longrightarrow> ok e s \<Longrightarrow> inv (step e s)"
begin

lemma inv_run: "inv s \<Longrightarrow> guarded ok step es s \<Longrightarrow> inv (fold step es s)"
  by (induction es arbitrary: s) (auto intro: inv_step)

lemma inv_history: "guarded ok step es init \<Longrightarrow> inv (fold step es init)"
  by (rule inv_run [OF inv_init])

text \<open>Reachable states, and the invariant over them by rule induction.\<close>

inductive reach :: "'s \<Rightarrow> bool" where
  start: "reach init"
| step: "reach s \<Longrightarrow> ok e s \<Longrightarrow> reach (step e s)"

lemma reach_inv: "reach s \<Longrightarrow> inv s"
  by (induction rule: reach.induct) (auto intro: inv_init inv_step)

lemma reach_history: "reach s \<Longrightarrow> \<exists>es. guarded ok step es init \<and> s = fold step es init"
proof (induction rule: reach.induct)
  case start
  show ?case by (rule exI [of _ "[]"]) simp
next
  case (step s e)
  then obtain es where "guarded ok step es init" "s = fold step es init" by blast
  with step.hyps show ?case
    by (intro exI [of _ "es @ [e]"]) (simp add: guarded_append)
qed

end

text \<open>A machine that implements another one, its abstract machine, step by step.\<close>

locale simulation = machine step ok inv init
  for step :: "'e \<Rightarrow> 's \<Rightarrow> 's" and ok inv init +
  fixes abs :: "'s \<Rightarrow> 'a"
    and abs_step :: "'e \<Rightarrow> 'a \<Rightarrow> 'a"
  assumes simulates: "inv s \<Longrightarrow> ok e s \<Longrightarrow> abs (step e s) = abs_step e (abs s)"
begin

lemma abs_run: "inv s \<Longrightarrow> guarded ok step es s \<Longrightarrow> abs (fold step es s) = fold abs_step es (abs s)"
  by (induction es arbitrary: s) (simp_all add: simulates [symmetric] inv_step)

lemma abs_history: "guarded ok step es init \<Longrightarrow> abs (fold step es init) = fold abs_step es (abs init)"
  by (rule abs_run [OF inv_init])

end

end
