(* ===== verification/Session_Machine.thy ===== *)
theory Session_Machine
  imports Message_Facts Machines
begin

text \<open>
  The session store and the streaming store as one machine: every action of both is an event.
  The invariant \<open>store_ok\<close> holds of each session (stored under its own id): agent ids and
  conversation ids are distinct, the messages of every conversation have unique ids and stay within
  the bound, an agent points only to a conversation that is there and lists it; and of the recent
  files: no duplicates, at most twenty.
\<close>

text \<open>Actions on the set of sessions and of agents.\<close>

datatype core_event =
    CreateSession session
  | DeleteSession ident
  | SetCurrentSession ident
  | SyncSessions "ident set"
  | AddAgent ident agent
  | RemoveAgent clock ident ident
  | UpdateAgent ident ident "agent_field list"

fun core_step :: "core_event \<Rightarrow> session_state \<Rightarrow> session_state" where
  "core_step (CreateSession s) st = createSession s st"
| "core_step (DeleteSession k) st = deleteSession k st"
| "core_step (SetCurrentSession k) st = setCurrentSession k st"
| "core_step (SyncSessions ks) st = syncSessionsWithBackend ks st"
| "core_step (AddAgent k a) st = addAgent k a st"
| "core_step (RemoveAgent clk k a) st = removeAgent clk k a st"
| "core_step (UpdateAgent k a ups) st = updateAgent k a ups st"

text \<open>Conversations and the agents attached to them.\<close>

datatype conversation_action =
    CreateConversation clock ident ident "string option" "string option"
  | UpdateConversation clock ident ident "string option"
  | DeleteConversation ident ident
  | AttachConversation clock ident ident ident
  | DetachConversation clock ident ident "ident option"
  | ConversationEvent ident conv_event
  | SetConversations ident "conversation list"

fun conversation_step :: "conversation_action \<Rightarrow> session_state \<Rightarrow> session_state" where
  "conversation_step (CreateConversation clk u k n m) st = fst (createConversationSession clk u k n m st)"
| "conversation_step (UpdateConversation clk k c n) st = updateConversationSession clk k c n st"
| "conversation_step (DeleteConversation k c) st = deleteConversationSession k c st"
| "conversation_step (AttachConversation clk k c a) st = attachConversationToAgent clk k c a st"
| "conversation_step (DetachConversation clk k c a) st = detachConversationFromAgent clk k c a st"
| "conversation_step (ConversationEvent k ev) st = handleConversationEvent k ev st"
| "conversation_step (SetConversations k cs) st = setConversationSessions k cs st"

text \<open>Messages.\<close>

datatype message_action =
    AddMessage clock ident ident message
  | MergeMessages clock ident ident "message list"
  | DeleteMessage clock ident ident ident
  | UpdateMessageId ident ident ident ident

fun message_step :: "message_action \<Rightarrow> session_state \<Rightarrow> session_state" where
  "message_step (AddMessage clk k c m) st = addConversationMessage clk k c m st"
| "message_step (MergeMessages clk k c ms) st = mergeConversationMessages clk k c ms st"
| "message_step (DeleteMessage clk k c i) st = deleteConversationMessage clk k c i st"
| "message_step (UpdateMessageId k c old new) st = updateConversationMessageId k c old new st"

text \<open>Windows: agents' looks and places, terminals, previews, the editor card.\<close>

datatype window_action =
    SetActiveAgent ident "ident option"
  | UpdateAgentPosition ident ident "pos_field list"
  | UpdateAgentGridSpan ident ident grid_span
  | BringAgentToFront ident ident
  | AutoModeSwitch ident ident agent_mode "agent_mode option"
  | UpdateAgentThinking ident ident "thinking_config option"
  | AddTerminal clock string ident terminal_location "string option" "string option"
  | RemoveTerminal ident ident
  | UpdateTerminal ident ident "terminal_field list"
  | UpdateTerminalGridSpan ident ident grid_span
  | UpdateTerminalPosition ident ident "pos_field list"
  | BringTerminalToFront ident ident
  | SetActiveWindow ident "ident option"
  | ClosePreview ident ident
  | UpdatePreview ident ident "preview_field list"
  | PinPreview ident ident bool
  | DockPreview ident ident bool
  | UpdatePreviewGridSpan ident ident grid_span

fun window_step :: "window_action \<Rightarrow> session_state \<Rightarrow> session_state" where
  "window_step (SetActiveAgent k a) st = setActiveAgent k a st"
| "window_step (UpdateAgentPosition k a p) st = updateAgentPosition k a p st"
| "window_step (UpdateAgentGridSpan k a g) st = updateAgentGridSpan k a g st"
| "window_step (BringAgentToFront k a) st = bringAgentToFront k a st"
| "window_step (AutoModeSwitch k a m p) st = handleAutoModeSwitch k a m p st"
| "window_step (UpdateAgentThinking k a t) st = updateAgentThinking k a t st"
| "window_step (AddTerminal clk rnd k loc n sh) st = fst (addTerminalWindow clk rnd k loc n sh st)"
| "window_step (RemoveTerminal k t) st = removeTerminalWindow k t st"
| "window_step (UpdateTerminal k t ups) st = updateTerminalWindow k t ups st"
| "window_step (UpdateTerminalGridSpan k t g) st = updateTerminalWindowGridSpan k t g st"
| "window_step (UpdateTerminalPosition k t p) st = updateTerminalWindowPosition k t p st"
| "window_step (BringTerminalToFront k t) st = bringTerminalWindowToFront k t st"
| "window_step (SetActiveWindow k w) st = setActiveWindow k w st"
| "window_step (ClosePreview k p) st = closeFilePreview k p st"
| "window_step (UpdatePreview k p ups) st = updateFilePreview k p ups st"
| "window_step (PinPreview k p b) st = pinFilePreview k p b st"
| "window_step (DockPreview k p b) st = dockFilePreview k p b st"
| "window_step (UpdatePreviewGridSpan k p g) st = updateFilePreviewGridSpan k p g st"

text \<open>Fields of a session and the recent files.\<close>

datatype field_action =
    CreateEditorCard clock string ident
  | RemoveEditorCard ident
  | UpdateEditorGridSpan ident grid_span
  | UpdateEditorPosition ident "pos_field list"
  | SetViewMode ident view_mode
  | SetWorkspaceStatus ident workspace_status
  | SetWorkspaceStatusChecking ident bool
  | SetWorkspaceError ident "string option"
  | UpdateWorkspaceId ident ident
  | UpdateInfo ident "info_field list"
  | UpdateWorkspaceTier ident string
  | OpenPreview clock string ident preview_source "int option \<times> int option"
  | AddRecentFile string
  | ClearRecentFiles

fun field_step :: "field_action \<Rightarrow> session_state \<Rightarrow> session_state" where
  "field_step (CreateEditorCard clk rnd k) st = fst (createEditorGridCard clk rnd k st)"
| "field_step (RemoveEditorCard k) st = removeEditorGridCard k st"
| "field_step (UpdateEditorGridSpan k g) st = updateEditorGridSpan k g st"
| "field_step (UpdateEditorPosition k p) st = updateEditorFreeformPosition k p st"
| "field_step (SetViewMode k m) st = setViewMode k m st"
| "field_step (SetWorkspaceStatus k w) st = setWorkspaceStatus k w st"
| "field_step (SetWorkspaceStatusChecking k b) st = setWorkspaceStatusChecking k b st"
| "field_step (SetWorkspaceError k e) st = setWorkspaceError k e st"
| "field_step (UpdateWorkspaceId k w) st = updateSessionWorkspaceId k w st"
| "field_step (UpdateInfo k ups) st = updateSessionInfo k ups st"
| "field_step (UpdateWorkspaceTier k t) st = updateSessionWorkspaceTier k t st"
| "field_step (OpenPreview clk rnd k src ls) st = openFilePreview clk rnd k src ls st"
| "field_step (AddRecentFile p) st = addRecentFile p st"
| "field_step ClearRecentFiles st = clearRecentFiles st"

text \<open>Streams, and everything together.\<close>

datatype stream_action =
    StartStreaming clock ident ident ident
  | StreamToken ident string
  | StreamThinking ident string
  | FinalizeStreaming clock ident string "tool_call list option"

type_synonym client = "streaming_state \<times> session_state"

fun stream_step :: "stream_action \<Rightarrow> client \<Rightarrow> client" where
  "stream_step (StartStreaming clk k a m) st = (startStreamingMessage clk k a m (fst st), snd st)"
| "stream_step (StreamToken m t) st = (appendStreamingToken m t (fst st), snd st)"
| "stream_step (StreamThinking m t) st = (appendThinkingToken m t (fst st), snd st)"
| "stream_step (FinalizeStreaming clk m txt tcs) st = finalizeStreamingMessage clk m txt tcs st"

datatype client_event =
    Core core_event
  | Conversation conversation_action
  | Message message_action
  | Window window_action
  | Field field_action
  | Stream stream_action

fun client_step :: "client_event \<Rightarrow> client \<Rightarrow> client" where
  "client_step (Core e) st = (fst st, core_step e (snd st))"
| "client_step (Conversation e) st = (fst st, conversation_step e (snd st))"
| "client_step (Message e) st = (fst st, message_step e (snd st))"
| "client_step (Window e) st = (fst st, window_step e (snd st))"
| "client_step (Field e) st = (fst st, field_step e (snd st))"
| "client_step (Stream e) st = stream_step e st"

definition init_client :: client where
  "init_client = ([], init_session_state)"

section \<open>The invariant\<close>

definition lists_agent :: "conversation list \<Rightarrow> ident \<Rightarrow> ident \<Rightarrow> bool" where
  "lists_agent cs i a \<longleftrightarrow> (\<exists>c \<in> set cs. cv_id c = i \<and> a \<in> set (attached c))"

definition links_ok :: "agent list \<Rightarrow> conversation list \<Rightarrow> bool" where
  "links_ok as cs \<longleftrightarrow> (\<forall>a \<in> set as. \<forall>i. ag_conversation a = Some i \<longrightarrow> lists_agent cs i (ag_id a))"

definition conversations_ok :: "conversation list \<Rightarrow> bool" where
  "conversations_ok cs \<longleftrightarrow> distinct (map cv_id cs) \<and> (\<forall>c \<in> set cs. messages_ok (cv_messages c))"

definition session_ok :: "session \<Rightarrow> bool" where
  "session_ok s \<longleftrightarrow> distinct (map ag_id (ss_agents s)) \<and>
     links_ok (ss_agents s) (ss_conversations s) \<and> conversations_ok (ss_conversations s)"

definition recent_ok :: "string list \<Rightarrow> bool" where
  "recent_ok ps \<longleftrightarrow> distinct ps \<and> length ps \<le> 20"

definition store_ok :: "session_state \<Rightarrow> bool" where
  "store_ok st \<longleftrightarrow> obj_ok (st_sessions st) \<and>
     (\<forall>k s. map_of (st_sessions st) k = Some s \<longrightarrow> ss_id s = k \<and> session_ok s) \<and>
     recent_ok (st_recentFiles st)"

section \<open>What callers may send\<close>

text \<open>
  Nothing is asked of most events. The others bring data from outside: sessions and conversation
  lists must be consistent, an agent that arrives has a new id and, if it points to a conversation,
  is on its list, an agent is attached to a conversation of its session, generated UUIDs are new,
  message ids and detached agents' ids are not empty, a patch does not overwrite ids or
  pointers, and a message is not renamed to an id its conversation already holds.
\<close>

definition safe_agent_patch :: "agent_field list \<Rightarrow> bool" where
  "safe_agent_patch ups \<longleftrightarrow>
     list_all (\<lambda>u. case u of AgId _ \<Rightarrow> False | AgConversation _ \<Rightarrow> False | _ \<Rightarrow> True) ups"

definition attachable :: "ident \<Rightarrow> ident \<Rightarrow> session \<Rightarrow> bool" where
  "attachable k a s \<longleftrightarrow> a \<in> ag_id ` set (ss_agents s) \<longrightarrow> k \<in> cv_id ` set (ss_conversations s)"

definition conv_event_ok :: "conv_event \<Rightarrow> session \<Rightarrow> bool" where
  "conv_event_ok ev s =
     (case ev of
        Conversation_updated k ups \<Rightarrow>
          list_all (\<lambda>u. case u of CvMessages ms \<Rightarrow> messages_ok ms | _ \<Rightarrow> True) ups \<and>
          (\<forall>is. patch_attached ups = Some is \<longrightarrow>
             (\<forall>a \<in> set (ss_agents s). ag_conversation a = Some k \<longrightarrow> ag_id a \<in> set is))
      | Conversation_attached k a \<Rightarrow> attachable k a s
      | Conversation_detached k p \<Rightarrow> p \<noteq> Some []
      | _ \<Rightarrow> True)"

definition in_session :: "session_state \<Rightarrow> ident \<Rightarrow> (session \<Rightarrow> bool) \<Rightarrow> bool" where
  "in_session st k P = (case map_of (st_sessions st) k of None \<Rightarrow> True | Some s \<Rightarrow> P s)"

fun core_guard :: "core_event \<Rightarrow> session_state \<Rightarrow> bool" where
  "core_guard (CreateSession s) st = session_ok s"
| "core_guard (AddAgent k a) st = in_session st k (\<lambda>s.
     ag_id a \<notin> ag_id ` set (ss_agents s) \<and> links_ok [a] (ss_conversations s))"
| "core_guard (UpdateAgent k a ups) st = safe_agent_patch ups"
| "core_guard _ st = True"

fun conversation_guard :: "conversation_action \<Rightarrow> session_state \<Rightarrow> bool" where
  "conversation_guard (CreateConversation clk u k n m) st =
     in_session st k (\<lambda>s. u \<notin> cv_id ` set (ss_conversations s))"
| "conversation_guard (AttachConversation clk k c a) st = in_session st k (attachable c a)"
| "conversation_guard (ConversationEvent k ev) st = in_session st k (conv_event_ok ev)"
| "conversation_guard (SetConversations k cs) st =
     (conversations_ok cs \<and> in_session st k (\<lambda>s. links_ok (ss_agents s) cs))"
| "conversation_guard _ st = True"

fun message_guard :: "message_action \<Rightarrow> session_state \<Rightarrow> bool" where
  "message_guard (AddMessage clk k c m) st = (ms_id m \<noteq> [])"
| "message_guard (MergeMessages clk k c ms) st = (\<forall>m \<in> set ms. ms_id m \<noteq> [])"
| "message_guard (DeleteMessage clk k c i) st = True"
| "message_guard (UpdateMessageId k c old new) st =
     (new \<noteq> [] \<and> in_session st k (\<lambda>s. \<forall>x \<in> set (ss_conversations s).
        cv_id x = c \<longrightarrow> new \<notin> ms_id ` set (cv_messages x)))"

fun client_guard :: "client_event \<Rightarrow> client \<Rightarrow> bool" where
  "client_guard (Core e) st = core_guard e (snd st)"
| "client_guard (Conversation e) st = conversation_guard e (snd st)"
| "client_guard (Message e) st = message_guard e (snd st)"
| "client_guard (Window e) st = True"
| "client_guard (Field e) st = True"
| "client_guard (Stream e) st = (case e of FinalizeStreaming clk m txt tcs \<Rightarrow> m \<noteq> [] | _ \<Rightarrow> True)"

end
