(* ===== verification/Session_Safety.thy ===== *)
theory Session_Safety
  imports Session_Machine
begin

text \<open>
  Every action preserves \<open>client_ok\<close>. One lemma per group of actions; actions on windows and
  fields only need that they leave ids, pointers and conversations alone.
\<close>

section \<open>Generic facts\<close>

lemma links_okD: "links_ok as cs \<Longrightarrow> a \<in> set as \<Longrightarrow> ag_conversation a = Some i \<Longrightarrow> lists_agent cs i (ag_id a)"
  by (simp add: links_ok_def)

text \<open>Among conversations with different ids the pointer determines the conversation.\<close>

lemma links_ok_unique:
  assumes "links_ok as cs" "distinct (map cv_id cs)" "a \<in> set as" "c \<in> set cs" "ag_conversation a = Some (cv_id c)"
  shows "ag_id a \<in> set (attached c)"
proof -
  obtain d where d: "d \<in> set cs" "cv_id d = cv_id c" "ag_id a \<in> set (attached d)"
    using links_okD [OF assms(1,3,5)] by (auto simp: lists_agent_def)
  with assms(2,4) have "d = c"
    by (meson distinct_map inj_onD)
  with d show ?thesis by simp
qed

lemma lists_agent_append: "lists_agent (cs @ ds) i a \<longleftrightarrow> lists_agent cs i a \<or> lists_agent ds i a"
  by (auto simp: lists_agent_def)

lemma lists_agent_map_where:
  "lists_agent cs i a \<Longrightarrow>
   (\<And>c. c \<in> set cs \<Longrightarrow> P c \<Longrightarrow> cv_id c = i \<Longrightarrow> a \<in> set (attached c) \<Longrightarrow> cv_id (f c) = i \<and> a \<in> set (attached (f c))) \<Longrightarrow>
   lists_agent (map_where P f cs) i a"
  unfolding lists_agent_def by (metis mem_map_where)

lemma links_ok_append:
  "links_ok (as @ bs) cs \<longleftrightarrow> links_ok as cs \<and> links_ok bs cs"
  "links_ok as cs \<Longrightarrow> links_ok as (cs @ ds)"
  by (auto simp: links_ok_def lists_agent_append)

text \<open>Only ids and pointers of agents, and ids and lists of conversations, matter.\<close>

lemma links_ok_agents_cong:
  "map (\<lambda>a. (ag_id a, ag_conversation a)) as = map (\<lambda>a. (ag_id a, ag_conversation a)) bs \<Longrightarrow>
   links_ok as cs \<longleftrightarrow> links_ok bs cs"
proof -
  have eq: "links_ok as cs \<longleftrightarrow>
    (\<forall>p \<in> set (map (\<lambda>a. (ag_id a, ag_conversation a)) as). \<forall>i. snd p = Some i \<longrightarrow> lists_agent cs i (fst p))" for as
    by (simp add: links_ok_def)
  assume "map (\<lambda>a. (ag_id a, ag_conversation a)) as = map (\<lambda>a. (ag_id a, ag_conversation a)) bs"
  then show ?thesis unfolding eq by simp
qed

lemma links_ok_map_where:
  "links_ok as cs \<Longrightarrow> (\<And>c. c \<in> set cs \<Longrightarrow> P c \<Longrightarrow> cv_id (f c) = cv_id c \<and> set (attached c) \<subseteq> set (attached (f c))) \<Longrightarrow>
   links_ok as (map_where P f cs)"
  unfolding links_ok_def by (blast intro: lists_agent_map_where)

lemma conversations_ok_map_where:
  "conversations_ok cs \<Longrightarrow>
   (\<And>c. c \<in> set cs \<Longrightarrow> P c \<Longrightarrow> cv_id (f c) = cv_id c) \<Longrightarrow>
   (\<And>c. c \<in> set cs \<Longrightarrow> P c \<Longrightarrow> messages_ok (cv_messages c) \<Longrightarrow> messages_ok (cv_messages (f c))) \<Longrightarrow>
   conversations_ok (map_where P f cs)"
proof -
  assume ok: "conversations_ok cs" and i: "\<And>c. c \<in> set cs \<Longrightarrow> P c \<Longrightarrow> cv_id (f c) = cv_id c"
    and m: "\<And>c. c \<in> set cs \<Longrightarrow> P c \<Longrightarrow> messages_ok (cv_messages c) \<Longrightarrow> messages_ok (cv_messages (f c))"
  have "map cv_id (map_where P f cs) = map cv_id cs"
    using i by (auto simp: map_where_def)
  then show ?thesis
    using ok m by (auto simp: conversations_ok_def set_map_where)
qed

lemma conversations_ok_filter: "conversations_ok cs \<Longrightarrow> conversations_ok (filter P cs)"
  by (auto simp: conversations_ok_def distinct_map_filter)

section \<open>Stores\<close>

lemma store_okD: "store_ok st \<Longrightarrow> map_of (st_sessions st) k = Some s \<Longrightarrow> ss_id s = k \<and> session_ok s"
  by (simp add: store_ok_def)

lemma with_session_ok:
  assumes "store_ok st"
    and "\<And>s. map_of (st_sessions st) k = Some s \<Longrightarrow> session_ok s \<Longrightarrow> ss_id (f s) = ss_id s \<and> session_ok (f s)"
  shows "store_ok (with_session k f st)"
  using assms by (auto simp: store_ok_def simp del: map_of_eq_Some_iff)

lemma in_sessionD: "in_session st k P \<Longrightarrow> map_of (st_sessions st) k = Some s \<Longrightarrow> P s"
  by (simp add: in_session_def)

text \<open>Edits that keep the id, the agents' ids and pointers, and the conversations.\<close>

definition same_core :: "session \<Rightarrow> session \<Rightarrow> bool" where
  "same_core s t \<longleftrightarrow> ss_id t = ss_id s \<and> ss_conversations t = ss_conversations s \<and>
     map (\<lambda>a. (ag_id a, ag_conversation a)) (ss_agents t) =
     map (\<lambda>a. (ag_id a, ag_conversation a)) (ss_agents s)"

lemma same_core_ok: "same_core s t \<Longrightarrow> session_ok s \<Longrightarrow> session_ok t"
proof -
  assume core: "same_core s t" and ok: "session_ok s"
  from core have "map fst (map (\<lambda>a. (ag_id a, ag_conversation a)) (ss_agents t)) =
      map fst (map (\<lambda>a. (ag_id a, ag_conversation a)) (ss_agents s))"
    by (simp only: same_core_def)
  then have "map ag_id (ss_agents t) = map ag_id (ss_agents s)"
    by (simp add: comp_def)
  with core ok links_ok_agents_cong [of "ss_agents t" "ss_agents s"] show ?thesis
    by (simp add: same_core_def session_ok_def)
qed

lemma with_session_same_core:
  assumes "store_ok st" "\<And>s. same_core s (f s)"
  shows "store_ok (with_session k f st)"
proof (rule with_session_ok [OF assms(1)])
  fix s assume "session_ok s"
  then show "ss_id (f s) = ss_id s \<and> session_ok (f s)"
    using same_core_ok [OF assms(2)] assms(2) by (auto simp: same_core_def)
qed

lemma same_core_agents:
  "(\<And>a. ag_id (f a) = ag_id a \<and> ag_conversation (f a) = ag_conversation a) \<Longrightarrow>
   same_core s (s\<lparr>ss_agents := map_where P f (ss_agents s)\<rparr>)"
  by (auto simp: same_core_def map_where_def)

section \<open>Sessions and agents\<close>

lemma empty_store_ok: "store_ok init_session_state"
  by (simp add: store_ok_def init_session_state_def recent_ok_def)

lemma safe_patch:
  "safe_agent_patch ups \<Longrightarrow>
   ag_id (fold assign_agent ups a) = ag_id a \<and> ag_conversation (fold assign_agent ups a) = ag_conversation a"
proof (induction ups arbitrary: a)
  case Nil
  then show ?case by simp
next
  case (Cons u ups)
  then have "safe_agent_patch ups" by (simp add: safe_agent_patch_def)
  moreover have "ag_id (assign_agent u a) = ag_id a \<and> ag_conversation (assign_agent u a) = ag_conversation a"
    using Cons.prems by (cases u) (auto simp: safe_agent_patch_def)
  ultimately show ?case using Cons.IH by simp
qed

lemma removeAgent_ok: "store_ok st \<Longrightarrow> store_ok (removeAgent clk k a st)"
proof (unfold removeAgent_def, rule with_session_ok)
  fix s assume s: "session_ok s"
  let ?as = "filter (\<lambda>x. ag_id x \<noteq> a) (ss_agents s)" and ?cs = "map (drop_attached clk a) (ss_conversations s)"
  have "lists_agent ?cs i b" if "lists_agent (ss_conversations s) i b" "b \<noteq> a" for i b
  proof -
    from that(1) obtain c where c: "c \<in> set (ss_conversations s)" "cv_id c = i" "b \<in> set (attached c)"
      by (auto simp: lists_agent_def)
    then have "drop_attached clk a c \<in> set ?cs" "cv_id (drop_attached clk a c) = i"
        "b \<in> set (attached (drop_attached clk a c))"
      using that(2) by (auto simp: drop_attached_def)
    then show ?thesis
      unfolding lists_agent_def by blast
  qed
  then have "links_ok ?as ?cs"
    using s by (auto simp: session_ok_def links_ok_def)
  moreover have "distinct (map ag_id ?as)"
    using s by (simp add: session_ok_def distinct_map_filter)
  moreover have "map cv_id ?cs = map cv_id (ss_conversations s)"
    by simp
  then have "conversations_ok ?cs"
    using s unfolding session_ok_def conversations_ok_def by (auto simp del: map_map)
  ultimately show "ss_id (s\<lparr>ss_agents := ?as,
      ss_activeAgentId := if ss_activeAgentId s = Some a then None else ss_activeAgentId s,
      ss_activeWindowId := if ss_activeWindowId s = Some a then None else ss_activeWindowId s,
      ss_conversations := ?cs\<rparr>) = ss_id s \<and>
    session_ok (s\<lparr>ss_agents := ?as,
      ss_activeAgentId := if ss_activeAgentId s = Some a then None else ss_activeAgentId s,
      ss_activeWindowId := if ss_activeWindowId s = Some a then None else ss_activeWindowId s,
      ss_conversations := ?cs\<rparr>)"
    by (simp add: session_ok_def)
qed

lemma core_step_ok: "store_ok st \<Longrightarrow> core_guard e st \<Longrightarrow> store_ok (core_step e st)"
proof (cases e)
  case (SyncSessions ks)
  assume "store_ok st"
  with SyncSessions show ?thesis
    by (auto simp: syncSessionsWithBackend_def Let_def store_ok_def fold_delete_lookup fold_delete_ok
        simp del: map_of_eq_Some_iff)
next
  case (AddAgent k a)
  assume "store_ok st" "core_guard e st"
  with AddAgent show ?thesis
    by (auto simp: addAgent_def session_ok_def links_ok_append intro!: with_session_ok dest: in_sessionD)
next
  case (UpdateAgent k a ups)
  assume "store_ok st" "core_guard e st"
  with UpdateAgent show ?thesis
    by (auto simp: updateAgent_def safe_patch intro!: with_session_same_core same_core_agents)
next
  case (RemoveAgent clk k a)
  then show "store_ok st \<Longrightarrow> ?thesis" by (simp add: removeAgent_ok)
qed (auto simp: createSession_def deleteSession_def setCurrentSession_def store_ok_def simp del: map_of_eq_Some_iff)

section \<open>Conversations\<close>

lemma new_conversation_simps [simp]:
  "cv_id (new_conversation clk u n m) = u" "cv_messages (new_conversation clk u n m) = []"
  by (simp_all add: new_conversation_def)

lemma messages_ok_Nil [simp]: "messages_ok []"
  by (simp add: messages_ok_def)

lemma session_ok_delete: "session_ok s \<Longrightarrow> session_ok (delete_conversation k s)"
  unfolding session_ok_def delete_conversation_def clear_pointers_def
  by (auto simp: links_ok_def lists_agent_def set_map_where conversations_ok_filter key_simps)

lemma session_ok_point:
  assumes s: "session_ok s" and k: "attachable k a s"
    and f: "\<And>c. cv_id (f c) = cv_id c \<and> cv_messages (f c) = cv_messages c \<and>
              set (attached (f c)) = insert a (set (attached c))"
  shows "session_ok (s\<lparr>ss_agents := point_agent a k (ss_agents s),
           ss_conversations := map_where (\<lambda>c. cv_id c = k) f (ss_conversations s)\<rparr>)"
proof -
  have "links_ok (point_agent a k (ss_agents s)) (map_where (\<lambda>c. cv_id c = k) f (ss_conversations s))"
  proof -
    let ?cs = "map_where (\<lambda>c. cv_id c = k) f (ss_conversations s)"
    have "lists_agent ?cs i b" if "lists_agent (ss_conversations s) i b" for i b
      using that f by (intro lists_agent_map_where) auto
    moreover have "lists_agent ?cs k a" if "a \<in> ag_id ` set (ss_agents s)"
      using k that f by (force simp: attachable_def lists_agent_def set_map_where)
    ultimately show ?thesis
      using s unfolding session_ok_def point_agent_def by (auto simp: links_ok_def set_map_where)
  qed
  moreover have "conversations_ok (map_where (\<lambda>c. cv_id c = k) f (ss_conversations s))"
    using s f by (auto simp: session_ok_def intro!: conversations_ok_map_where)
  ultimately show ?thesis
    using s by (simp add: session_ok_def point_agent_def key_simps)
qed

lemma session_ok_detach: "session_ok s \<Longrightarrow> session_ok (detach clk k a s) \<and> ss_id (detach clk k a s) = ss_id s"
proof (cases "find (\<lambda>c. cv_id c = k) (ss_conversations s)")
  case (Some conv)
  assume s: "session_ok s"
  then have d: "distinct (map cv_id (ss_conversations s))"
    by (simp add: session_ok_def conversations_ok_def)
  from Some have conv: "conv \<in> set (ss_conversations s)" "cv_id conv = k"
    by (auto simp: find_Some_iff)
  have uniq: "c = conv" if "c \<in> set (ss_conversations s)" "cv_id c = k" for c
    using d conv that by (metis (no_types, lifting) distinct_map inj_onD)
  show ?thesis
  proof (cases "truthy (detach_target a conv)")
    case True
    let ?t = "the (detach_target a conv)"
    let ?f = "\<lambda>c. c\<lparr>cv_attached := Some (filter (\<lambda>i. i \<noteq> ?t) (attached conv)), cv_updatedAt := clk_iso clk\<rparr>"
    let ?as = "map_where (\<lambda>x. ag_id x = ?t \<and> ag_conversation x = Some k) (\<lambda>x. x\<lparr>ag_conversation := None\<rparr>) (ss_agents s)"
    let ?cs = "map_where (\<lambda>c. cv_id c = k) ?f (ss_conversations s)"
    have "links_ok ?as ?cs"
    proof -
      have "lists_agent ?cs i b" if "lists_agent (ss_conversations s) i b" "b \<noteq> ?t \<or> i \<noteq> k" for i b
        using that uniq by (intro lists_agent_map_where) auto
      then show ?thesis
        using s unfolding session_ok_def by (auto simp: links_ok_def set_map_where)
    qed
    moreover have "distinct (map ag_id ?as)"
      using s by (simp add: session_ok_def key_simps)
    moreover have "conversations_ok ?cs"
      using s by (auto simp: session_ok_def intro!: conversations_ok_map_where)
    ultimately show ?thesis
      using Some True by (simp add: detach_def session_ok_def Let_def)
  next
    case False
    with Some s show ?thesis by (simp add: detach_def)
  qed
qed (simp add: detach_def)


lemma conv_fields_frame:
  "cv_id (fold assign_conv ups c) = cv_id c"
  "messages_ok (cv_messages c) \<Longrightarrow> list_all (\<lambda>u. case u of CvMessages ms \<Rightarrow> messages_ok ms | _ \<Rightarrow> True) ups \<Longrightarrow>
   messages_ok (cv_messages (fold assign_conv ups c))"
proof -
  have "cv_id (assign_conv u c) = cv_id c" for u and c :: conversation
    by (cases u) auto
  then show "cv_id (fold assign_conv ups c) = cv_id c"
    by (induction ups arbitrary: c) auto
  have step: "messages_ok (cv_messages (assign_conv u c))"
    if "messages_ok (cv_messages c)" "case u of CvMessages ms \<Rightarrow> messages_ok ms | _ \<Rightarrow> True" for u and c :: conversation
    using that by (cases u) auto
  show "messages_ok (cv_messages c) \<Longrightarrow> list_all (\<lambda>u. case u of CvMessages ms \<Rightarrow> messages_ok ms | _ \<Rightarrow> True) ups \<Longrightarrow>
     messages_ok (cv_messages (fold assign_conv ups c))"
    by (induction ups arbitrary: c) (auto intro: step)
qed

lemma session_ok_updated:
  assumes s: "session_ok s" and g: "conv_event_ok (Conversation_updated k ups) s"
  shows "session_ok (conversation_event (Conversation_updated k ups) s)"
proof -
  let ?f = "\<lambda>c. (fold assign_conv ups c)\<lparr>cv_attached := Some (coalesce (patch_attached ups) (attached c))\<rparr>"
  have "links_ok (ss_agents s) (map_where (\<lambda>c. cv_id c = k) ?f (ss_conversations s))"
  proof -
    have "lists_agent (map_where (\<lambda>c. cv_id c = k) ?f (ss_conversations s)) i (ag_id a)"
      if "a \<in> set (ss_agents s)" "ag_conversation a = Some i" for a i
      using s g that unfolding session_ok_def conv_event_ok_def
      by (intro lists_agent_map_where)
        (auto simp: conv_fields_frame dest: links_okD split: option.splits, auto simp: coalesce_def split: option.split)
    then show ?thesis by (simp add: links_ok_def)
  qed
  moreover have "conversations_ok (map_where (\<lambda>c. cv_id c = k) ?f (ss_conversations s))"
    using s g unfolding session_ok_def conv_event_ok_def
    by (intro conversations_ok_map_where) (auto simp: conv_fields_frame)
  ultimately show ?thesis
    using s by (simp add: session_ok_def)
qed

lemma session_ok_event:
  assumes s: "session_ok s" and g: "conv_event_ok ev s"
  shows "session_ok (conversation_event ev s) \<and> ss_id (conversation_event ev s) = ss_id s"
proof (cases ev)
  case (Conversation_created c)
  with s show ?thesis
    by (auto simp: session_ok_def links_ok_append conversations_ok_def)
next
  case (Conversation_updated k ups)
  with session_ok_updated s g show ?thesis by simp
next
  case (Conversation_deleted k)
  with s session_ok_delete show ?thesis by (simp add: delete_conversation_def)
next
  case (Conversation_attached k a)
  have "session_ok (s\<lparr>ss_agents := point_agent a k (ss_agents s),
      ss_conversations := map_where (\<lambda>c. cv_id c = k)
        (\<lambda>c. if a \<notin> set (attached c) then c\<lparr>cv_attached := Some (attached c @ [a])\<rparr> else c)
        (ss_conversations s)\<rparr>)"
    using g Conversation_attached by (intro session_ok_point [OF s]) (auto simp: conv_event_ok_def)
  with Conversation_attached show ?thesis by simp
next
  case (Conversation_detached k p)
  let ?cs = "map_where (\<lambda>c. cv_id c = k)
    (\<lambda>c. c\<lparr>cv_attached := Some (filter (\<lambda>i. Some i \<noteq> p) (attached c))\<rparr>) (ss_conversations s)"
  have "conversations_ok ?cs"
    using s by (auto simp: session_ok_def intro!: conversations_ok_map_where)
  moreover have "links_ok (ss_agents (conversation_event ev s)) ?cs"
  proof -
    have keep: "lists_agent ?cs i b" if "lists_agent (ss_conversations s) i b" "Some b \<noteq> p" for i b
      using that by (intro lists_agent_map_where) auto
    show ?thesis
      using s g keep unfolding session_ok_def Conversation_detached
      by (cases p) (auto simp: links_ok_def set_map_where conv_event_ok_def)
  qed
  moreover have "distinct (map ag_id (ss_agents (conversation_event ev s)))"
    using s by (simp add: Conversation_detached session_ok_def key_simps)
  ultimately show ?thesis
    using Conversation_detached by (simp add: session_ok_def)
qed (use s in simp)

lemma session_ok_attach:
  "session_ok s \<Longrightarrow> attachable k a s \<Longrightarrow>
   session_ok (s\<lparr>ss_agents := point_agent a k (ss_agents s),
     ss_conversations := map_where (\<lambda>c. cv_id c = k)
       (\<lambda>c. if a \<notin> set (attached c)
            then c\<lparr>cv_attached := Some (attached c @ [a]), cv_updatedAt := clk_iso clk\<rparr> else c)
       (ss_conversations s)\<rparr>)"
  by (rule session_ok_point) auto

lemma conversation_step_ok:
  assumes st: "store_ok st" and g: "conversation_guard e st"
  shows "store_ok (conversation_step e st)"
proof (cases e)
  case (CreateConversation clk u k n m)
  have "session_ok (s\<lparr>ss_conversations := ss_conversations s @ [new_conversation clk u n m]\<rparr>)"
    if "session_ok s" "u \<notin> cv_id ` set (ss_conversations s)" for s
    using that by (auto simp: session_ok_def links_ok_append conversations_ok_def)
  with st g CreateConversation show ?thesis
    by (auto simp: createConversationSession_def Let_def intro!: with_session_ok dest: in_sessionD)
next
  case (UpdateConversation clk k c n)
  have "session_ok (s\<lparr>ss_conversations := map_where (\<lambda>x. cv_id x = c)
      (\<lambda>x. x\<lparr>cv_name := coalesce n (cv_name x), cv_updatedAt := clk_iso clk\<rparr>) (ss_conversations s)\<rparr>)"
    if "session_ok s" for s
    using that by (auto simp: session_ok_def intro!: links_ok_map_where conversations_ok_map_where)
  with st UpdateConversation show ?thesis
    by (auto simp: updateConversationSession_def intro!: with_session_ok)
next
  case (DeleteConversation k c)
  with st session_ok_delete show ?thesis
    by (auto simp: deleteConversationSession_def delete_conversation_def intro!: with_session_ok)
next
  case (AttachConversation clk k c a)
  have "attachable c a s" if "map_of (st_sessions st) k = Some s" for s
    using g AttachConversation that by (simp add: in_session_def)
  with st AttachConversation session_ok_attach show ?thesis
    by (auto simp: attachConversationToAgent_def intro!: with_session_ok dest: in_sessionD)
next
  case (DetachConversation clk k c a)
  with st session_ok_detach show ?thesis
    by (auto simp: detachConversationFromAgent_def intro!: with_session_ok)
next
  case (ConversationEvent k ev)
  have "conv_event_ok ev s" if "map_of (st_sessions st) k = Some s" for s
    using g ConversationEvent that by (simp add: in_session_def)
  then have "store_ok (with_session k (conversation_event ev) st)"
    using session_ok_event by (intro with_session_ok [OF st]) blast
  with ConversationEvent show ?thesis by (simp add: handleConversationEvent_def)
next
  case (SetConversations k cs)
  with st g show ?thesis
    by (auto simp: setConversationSessions_def session_ok_def intro!: with_session_ok dest: in_sessionD)
qed

section \<open>Messages\<close>

lemma edit_conversation_ok:
  assumes st: "store_ok st"
    and f: "\<And>c. cv_id (f c) = cv_id c \<and> cv_attached (f c) = cv_attached c"
    and m: "\<And>s c. map_of (st_sessions st) k = Some s \<Longrightarrow> c \<in> set (ss_conversations s) \<Longrightarrow> cv_id c = i \<Longrightarrow>
              messages_ok (cv_messages c) \<Longrightarrow> messages_ok (cv_messages (f c))"
  shows "store_ok (edit_conversation k i f st)"
  unfolding edit_conversation_def
proof (rule with_session_ok [OF st])
  fix s assume "map_of (st_sessions st) k = Some s" "session_ok s"
  then show "ss_id (s\<lparr>ss_conversations := map_where (\<lambda>c. cv_id c = i) f (ss_conversations s)\<rparr>) = ss_id s \<and>
    session_ok (s\<lparr>ss_conversations := map_where (\<lambda>c. cv_id c = i) f (ss_conversations s)\<rparr>)"
    using f m unfolding session_ok_def
    by (auto intro!: links_ok_map_where conversations_ok_map_where)
qed

lemma message_step_ok:
  assumes st: "store_ok st" and g: "message_guard e st"
  shows "store_ok (message_step e st)"
proof (cases e)
  case (AddMessage clk k c m)
  with st g show ?thesis
    by (auto simp: addConversationMessage_def add_message_ok intro!: edit_conversation_ok)
next
  case (MergeMessages clk k c ms)
  with st g show ?thesis
    by (auto simp: mergeConversationMessages_def merge_messages_ok intro!: edit_conversation_ok)
next
  case (DeleteMessage clk k c i)
  with st show ?thesis
    by (auto simp: deleteConversationMessage_def delete_message_ok intro!: edit_conversation_ok)
next
  case (UpdateMessageId k c old new)
  have "new \<noteq> []" using g UpdateMessageId by simp
  moreover have "new \<notin> ms_id ` set (cv_messages x)"
    if "map_of (st_sessions st) k = Some s" "x \<in> set (ss_conversations s)" "cv_id x = c" for s x
    using g UpdateMessageId that by (simp add: in_session_def)
  ultimately have "store_ok (updateConversationMessageId k c old new st)"
    unfolding updateConversationMessageId_def
    by (intro edit_conversation_ok [OF st]) (auto simp: messages_ok_rename)
  with UpdateMessageId show ?thesis by simp
qed

section \<open>Windows and fields\<close>

lemma same_core_refl [simp]: "same_core s s"
  by (simp add: same_core_def)

lemma same_core_previews: "same_core s (s\<lparr>ss_previews := ps\<rparr>)"
  and same_core_terminals: "same_core s (s\<lparr>ss_terminals := ts\<rparr>)"
    "same_core s (s\<lparr>ss_terminals := ts, ss_activeWindowId := w\<rparr>)"
  and same_core_active: "same_core s (s\<lparr>ss_activeAgentId := a, ss_activeWindowId := w\<rparr>)"
    "same_core s (s\<lparr>ss_activeWindowId := w, ss_activeAgentId := a\<rparr>)"
  by (simp_all add: same_core_def)

lemma window_step_ok: "store_ok st \<Longrightarrow> store_ok (window_step e st)"
  by (cases e)
    (auto simp: setActiveAgent_def updateAgentPosition_def updateAgentGridSpan_def bringAgentToFront_def
      handleAutoModeSwitch_def updateAgentThinking_def addTerminalWindow_def removeTerminalWindow_def
      updateTerminalWindow_def updateTerminalWindowGridSpan_def updateTerminalWindowPosition_def
      bringTerminalWindowToFront_def setActiveWindow_def closeFilePreview_def updateFilePreview_def
      pinFilePreview_def dockFilePreview_def updateFilePreviewGridSpan_def edit_terminal_def
      edit_preview_def Let_def same_core_previews same_core_terminals same_core_active
      intro!: with_session_same_core same_core_agents)

lemma push_recent_ok: "recent_ok ps \<Longrightarrow> recent_ok (push_recent p ps)"
  by (auto simp: recent_ok_def push_recent_def take_Cons' distinct_take dest: in_set_takeD)

lemma openFilePreview_ok: "store_ok st \<Longrightarrow> store_ok (openFilePreview clk rnd k src ls st)"
proof (cases "map_of (st_sessions st) k")
  case (Some s)
  assume st: "store_ok st"
  have ok: "session_ok (s\<lparr>ss_previews := ps\<rparr>)" "ss_id s = k" for ps
    using store_okD [OF st Some] by (auto simp: session_ok_def)
  show ?thesis
    using st Some ok push_recent_ok
    by (auto simp: openFilePreview_def Let_def store_ok_def simp del: map_of_eq_Some_iff)
qed (simp add: openFilePreview_def)

lemma field_step_ok: "store_ok st \<Longrightarrow> store_ok (field_step e st)"
proof (cases e)
  case (OpenPreview clk rnd k src ls)
  then show "store_ok st \<Longrightarrow> ?thesis" by (simp add: openFilePreview_ok)
next
  case (AddRecentFile p)
  then show "store_ok st \<Longrightarrow> ?thesis"
    by (auto simp: addRecentFile_def store_ok_def push_recent_ok)
next
  case ClearRecentFiles
  then show "store_ok st \<Longrightarrow> ?thesis"
    by (auto simp: clearRecentFiles_def store_ok_def recent_ok_def)
qed (auto simp: createEditorGridCard_def removeEditorGridCard_def updateEditorGridSpan_def
      updateEditorFreeformPosition_def setViewMode_def setWorkspaceStatus_def
      setWorkspaceStatusChecking_def setWorkspaceError_def updateSessionWorkspaceId_def
      updateSessionInfo_def updateSessionWorkspaceTier_def Let_def same_core_def
      intro!: with_session_same_core)


section \<open>Streams, and the machine\<close>

lemma finalized_message_id [simp]: "ms_id (finalized_message clk e m body tcs) = m"
  by (simp add: finalized_message_def)

text \<open>Finalizing replaces one conversation by one with the same id and list.\<close>

lemma conversations_ok_list_update:
  assumes cs: "conversations_ok cs" and i: "i < length cs" and id: "cv_id c = cv_id (cs ! i)"
    and m: "messages_ok (cv_messages c)"
  shows "conversations_ok (cs[i := c])"
proof -
  have "map cv_id (cs[i := c]) = map cv_id cs"
    using i id by (metis list_update_id map_update nth_map)
  then show ?thesis
    using cs m set_update_subset_insert [of cs i c] by (auto simp: conversations_ok_def)
qed

lemma links_ok_list_update:
  assumes "links_ok as cs" "i < length cs" "cv_id c = cv_id (cs ! i)" "attached c = attached (cs ! i)"
  shows "links_ok as (cs[i := c])"
proof -
  have "lists_agent (cs[i := c]) k a" if "lists_agent cs k a" for k a
  proof -
    from that obtain j where j: "j < length cs" "cv_id (cs ! j) = k" "a \<in> set (attached (cs ! j))"
      unfolding lists_agent_def by (metis in_set_conv_nth)
    with assms have "cv_id (cs[i := c] ! j) = k" "a \<in> set (attached (cs[i := c] ! j))"
      by (auto simp: nth_list_update)
    moreover have "cs[i := c] ! j \<in> set (cs[i := c])"
      using j(1) by (intro nth_mem) simp
    ultimately show ?thesis
      unfolding lists_agent_def by blast
  qed
  with assms(1) show ?thesis by (auto simp: links_ok_def)
qed

lemma session_ok_finalize:
  assumes s: "session_ok s" and m: "m \<noteq> []"
  shows "session_ok (finalize_in_session clk e m body tcs s) \<and>
         ss_id (finalize_in_session clk e m body tcs s) = ss_id s"
proof (cases "find (\<lambda>a. ag_id a = sm_agentId e) (ss_agents s)")
  case (Some ag)
  let ?i = "findIndex (\<lambda>c. Some (cv_id c) = ag_conversation ag) (ss_conversations s)"
  let ?conv = "ss_conversations s ! nat ?i"
  let ?ms = "limit_messages (cv_messages ?conv @ [finalized_message clk e m body tcs])"
  let ?c = "?conv\<lparr>cv_messages := ?ms, cv_messageCount := int (length ?ms),
      cv_lastMessageAt := Some (clk_iso clk), cv_updatedAt := clk_iso clk\<rparr>"
  show ?thesis
  proof (cases "truthy (ag_conversation ag) \<and> ?i \<noteq> -1 \<and> \<not> (\<exists>x \<in> set (cv_messages ?conv). ms_id x = m)")
    case True
    then have i: "nat ?i < length (ss_conversations s)"
      using findIndex_bounds [of "\<lambda>c. Some (cv_id c) = ag_conversation ag" "ss_conversations s"] by linarith
    then have "messages_ok (cv_messages ?conv)"
      using s nth_mem by (auto simp: session_ok_def conversations_ok_def)
    then have "messages_ok ?ms"
      using True m by (intro messages_ok_limit) (auto simp: messages_ok_def)
    then have "conversations_ok ((ss_conversations s)[nat ?i := ?c])"
      using s i by (intro conversations_ok_list_update) (auto simp: session_ok_def)
    moreover have "links_ok (ss_agents s) ((ss_conversations s)[nat ?i := ?c])"
      using s i by (intro links_ok_list_update) (auto simp: session_ok_def)
    ultimately show ?thesis
      using True Some s by (simp add: finalize_in_session_def Let_def session_ok_def)
  next
    case False
    then show ?thesis
      using s Some by (auto simp: finalize_in_session_def Let_def)
  qed
qed (simp add: finalize_in_session_def s)

lemma stream_step_ok:
  assumes "store_ok (snd st)" "client_guard (Stream e) st"
  shows "store_ok (snd (stream_step e st))"
proof (cases e)
  case (FinalizeStreaming clk m body tcs)
  then show ?thesis
    using assms session_ok_finalize
    by (auto simp: finalizeStreamingMessage_def Let_def split: option.splits intro!: with_session_ok)
qed (use assms in auto)

lemma client_step_ok:
  "store_ok (snd st) \<Longrightarrow> client_guard ev st \<Longrightarrow> store_ok (snd (client_step ev st))"
  by (cases ev)
    (auto simp: core_step_ok conversation_step_ok message_step_ok window_step_ok field_step_ok
      stream_step_ok simp del: stream_step.simps)

interpretation client: machine client_step client_guard "\<lambda>st. store_ok (snd st)" init_client
  by unfold_locales (auto simp: init_client_def empty_store_ok client_step_ok)

end
