(* ===== verification/Session_Properties.thy ===== *)
theory Session_Properties
  imports Session_Safety
begin

text \<open>
  The properties of the session and streaming stores, each with a witness. The witnesses share a
  small session with two agents and two conversations.
\<close>

section \<open>A concrete client\<close>

definition clk0 :: clock where
  "clk0 = \<lparr>clk_ms = 1000, clk_iso = ''t0''\<rparr>"

definition ex_agent :: "ident \<Rightarrow> ident option \<Rightarrow> agent" where
  "ex_agent i conv = \<lparr>ag_id = i, ag_name = i, ag_role = ''coder'', ag_model = ''m'',
     ag_modelDisplayName = None, ag_status = Idle, ag_color = ''red'', ag_position = None,
     ag_gridSpan = None, ag_templateId = None, ag_mode = Ask, ag_previousMode = None,
     ag_commandAllowlist = None, ag_thinkingConfig = None, ag_conversation = conv\<rparr>"

definition ex_message :: "ident \<Rightarrow> message_role \<Rightarrow> string \<Rightarrow> int \<Rightarrow> message" where
  "ex_message i r body t = \<lparr>ms_id = i, ms_role = r, ms_content = body, ms_thinking = None,
     ms_timestamp = Some t, ms_toolCalls = None, ms_toolResults = None, ms_stopReason = None,
     ms_usage = None, ms_model = None\<rparr>"

definition ex_conversation :: "ident \<Rightarrow> ident list \<Rightarrow> message list \<Rightarrow> conversation" where
  "ex_conversation i as ms = \<lparr>cv_id = i, cv_name = i, cv_messages = ms, cv_attached = Some as,
     cv_messageCount = int (length ms), cv_lastMessageAt = None, cv_createdAt = ''t0'',
     cv_updatedAt = ''t0''\<rparr>"

definition ex_session :: "agent list \<Rightarrow> conversation list \<Rightarrow> session" where
  "ex_session as cs = \<lparr>ss_id = ''s'', ss_name = ''demo'', ss_workspaceId = ''w'',
     ss_workspaceTier = None, ss_branch = ''main'', ss_gitUrl = Null, ss_agents = as,
     ss_terminals = Some [], ss_conversations = cs, ss_previews = [], ss_activeAgentId = None,
     ss_activeWindowId = None, ss_viewMode = GridView, ss_workspaceStatus = WsRunning,
     ss_workspaceStatusChecking = None, ss_workspaceError = Undefined,
     ss_editorGridCardId = None, ss_editorGridSpan = None, ss_editorFreeformPosition = None,
     ss_localPodId = Null, ss_localPodName = Null, ss_mount_path = Null\<rparr>"

definition ex_state :: "session \<Rightarrow> session_state" where
  "ex_state s = \<lparr>st_sessions = [(''s'', s)], st_currentSessionId = Some ''s'', st_recentFiles = []\<rparr>"

lemmas ex_defs = clk0_def ex_agent_def ex_message_def ex_conversation_def ex_session_def ex_state_def

definition ex_events :: "client_event list" where
  "ex_events =
    [Core (CreateSession (ex_session [ex_agent ''a'' None] [])),
     Conversation (CreateConversation clk0 ''c1'' ''s'' None (Some ''hello'')),
     Conversation (AttachConversation clk0 ''s'' ''c1'' ''a''),
     Message (AddMessage clk0 ''s'' ''c1'' (ex_message ''temp-1'' User ''hello'' 1)),
     Message (AddMessage clk0 ''s'' ''c1'' (ex_message ''m1'' User ''hello'' 2)),
     Stream (StartStreaming clk0 ''s'' ''a'' ''m2''),
     Stream (StreamToken ''m2'' ''hi''),
     Stream (FinalizeStreaming clk0 ''m2'' ''hi'' None),
     Field (AddRecentFile ''x.ts'')]"

lemmas step_defs = createSession_def createConversationSession_def attachConversationToAgent_def
  new_conversation_def with_session_def addConversationMessage_def edit_conversation_def
  add_message_def append_message_def limit_messages_def find_user_twin_def find_assistant_twin_def
  rename_message_def is_temp_def startStreamingMessage_def appendStreamingToken_def
  finalizeStreamingMessage_def finalize_in_session_def completeStreaming_def
  getStreamingMessage_def finalized_message_def addRecentFile_def push_recent_def
  point_agent_def MAX_MESSAGES_PER_CONVERSATION_def

lemma ex_guarded: "guarded client_guard client_step ex_events init_client"
  by (simp add: ex_events_def ex_defs init_client_def init_session_state_def step_defs Let_def
      session_ok_def links_ok_def lists_agent_def attachable_def conversations_ok_def in_session_def)


definition ex_pair :: session where
  "ex_pair = ex_session [ex_agent ''a'' (Some ''c''), ex_agent ''b'' None]
     [ex_conversation ''c'' [''a''] [], ex_conversation ''d'' [''b'', ''a''] []]"

lemma ex_pair_parts [simp]:
  "map_of (st_sessions (ex_state ex_pair)) ''s'' = Some ex_pair"
  "ss_agents ex_pair = [ex_agent ''a'' (Some ''c''), ex_agent ''b'' None]"
  "ss_conversations ex_pair = [ex_conversation ''c'' [''a''] [], ex_conversation ''d'' [''b'', ''a''] []]"
  "ss_previews ex_pair = []"
  by (simp_all add: ex_pair_def ex_session_def ex_state_def)

lemma ex_part_simps [simp]:
  "ag_id (ex_agent i conv) = i" "ag_conversation (ex_agent i conv) = conv"
  "z_of (ag_position (ex_agent i conv)) = 0"
  "cv_id (ex_conversation i as ms) = i" "cv_messages (ex_conversation i as ms) = ms"
  "attached (ex_conversation i as ms) = as"
  by (simp_all add: ex_agent_def ex_conversation_def z_of_def)

definition ex_terminal :: terminal_window where
  "ex_terminal = \<lparr>tw_id = ''t'', tw_name = ''sh'', tw_shell = ''bash'', tw_status = Connected,
     tw_location = Grid, tw_gridSpan = None,
     tw_position = Some \<lparr>pos_x = Some 0, pos_y = Some 0, pos_width = Some 1, pos_height = Some 1, pos_zIndex = Some 5\<rparr>,
     tw_workingDirectory = None, tw_createdAt = ''t0''\<rparr>"

section \<open>Histories\<close>

text \<open>
  C1: In every history of store actions whose inputs are well formed (unique non-empty ids, fresh
  UUIDs, consistent lists from the backend, agents attached to conversations of their session),
  every session is stored under its own id, its agents have different ids and so have its
  conversations, an agent points only to a conversation that is there and lists it, message
  ids are unique within each conversation and not empty, no conversation holds more than 100
  messages, and the recent files are at most twenty different paths.
\<close>

theorem client_history_invariant:
  assumes "guarded client_guard client_step es init_client"
  shows "store_ok (snd (fold client_step es init_client))"
  using assms by (rule client.inv_history)

theorem client_history_invariant_witness:
  "guarded client_guard client_step ex_events init_client \<and>
   store_ok (snd (fold client_step ex_events init_client))"
  using ex_guarded client_history_invariant [OF ex_guarded] by simp

text \<open>
  Whenever the store says that a conversation is attached to an agent, that conversation
  lists the agent, and so is not offered among the available (unattached) ones.
\<close>

theorem attached_conversation_not_available:
  assumes "guarded client_guard client_step es init_client"
    and "st = snd (fold client_step es init_client)"
    and "getConversationForAgent k a st = Some c"
  shows "a \<in> set (attached c) \<and> c \<notin> set (getAvailableConversations k st)"
proof -
  have ok: "store_ok st"
    using client.inv_history [OF assms(1)] assms(2) by simp
  from assms(3) obtain s ag where s: "map_of (st_sessions st) k = Some s"
      and ag: "find (\<lambda>x. ag_id x = a) (ss_agents s) = Some ag"
      and c: "find (\<lambda>x. Some (cv_id x) = ag_conversation ag) (ss_conversations s) = Some c"
    by (auto simp: getConversationForAgent_def simp del: map_of_eq_Some_iff
        split: option.splits if_splits)
  from ag c have "ag \<in> set (ss_agents s)" "ag_id ag = a" "c \<in> set (ss_conversations s)"
      "ag_conversation ag = Some (cv_id c)"
    by (auto simp: find_Some_iff)
  then have "a \<in> set (attached c)"
    using store_okD [OF ok s] links_ok_unique [of "ss_agents s" "ss_conversations s" ag c]
    by (auto simp: session_ok_def conversations_ok_def)
  then show ?thesis
    using s by (auto simp: getAvailableConversations_def simp del: map_of_eq_Some_iff)
qed

definition ex_found :: conversation where
  "ex_found = the (getConversationForAgent ''s'' ''a'' (snd (fold client_step ex_events init_client)))"

lemma ex_conversation_found:
  "getConversationForAgent ''s'' ''a'' (snd (fold client_step ex_events init_client)) = Some ex_found"
  by (simp add: ex_found_def getConversationForAgent_def ex_events_def ex_defs init_client_def
      init_session_state_def step_defs Let_def)

theorem attached_conversation_not_available_witness:
  "''a'' \<in> set (attached ex_found) \<and>
   ex_found \<notin> set (getAvailableConversations ''s'' (snd (fold client_step ex_events init_client)))"
  by (rule attached_conversation_not_available [OF ex_guarded refl ex_conversation_found])

section \<open>Messages\<close>

text \<open>
  C4: An optimistic user message and the server's message of the same text end as one message with
  the server's id, whichever of the two reaches the conversation first. In either order exactly one
  message is appended, with the server's id, the user's role and the text; the rest of it is that
  of the server's copy, or of the optimistic one when that came first and the text is new. Asked
  for is that no earlier optimistic message of the same text still waits for its confirmed copy
  (it would be renamed instead), and that both ids are new to the conversation.
\<close>

theorem optimistic_message_order_independent:
  assumes "ms_role t = User" "ms_role r = User" "ms_content t = ms_content r" "is_temp t" "\<not> is_temp r"
    and "ms_id t \<notin> ms_id ` set (cv_messages c)" "ms_id r \<notin> ms_id ` set (cv_messages c)"
    and "confirmed (ms_content r) c"
  shows "cv_messages (add_message clk' t (add_message clk r c)) = limit_messages (cv_messages c @ [r]) \<and>
    cv_messages (add_message clk' r (add_message clk t c)) = limit_messages (cv_messages c @
      [if \<exists>m \<in> set (cv_messages c). ms_role m = User \<and> ms_content m = ms_content r then r else t\<lparr>ms_id := ms_id r\<rparr>])"
proof -
  have "find_user_twin False r (cv_messages c) \<noteq> None \<longleftrightarrow>
      (\<exists>m \<in> set (cv_messages c). ms_role m = User \<and> ms_content m = ms_content r)"
    using assms(8) by (auto simp: find_user_twin_def find_None_iff confirmed_def)
  then show ?thesis
    using add_temp_after_real [OF assms(1-5,7,8)] add_real_after_temp [OF assms] by auto
qed

theorem optimistic_message_order_independent_witness:
  "cv_messages (add_message clk0 (ex_message ''temp-1'' User ''hello'' 1)
     (add_message clk0 (ex_message ''m1'' User ''hello'' 2) (ex_conversation ''c'' [] []))) =
     [ex_message ''m1'' User ''hello'' 2] \<and>
   cv_messages (add_message clk0 (ex_message ''m1'' User ''hello'' 2)
     (add_message clk0 (ex_message ''temp-1'' User ''hello'' 1) (ex_conversation ''c'' [] []))) =
     [ex_message ''m1'' User ''hello'' 1]"
proof -
  let ?t = "ex_message ''temp-1'' User ''hello'' 1" and ?r = "ex_message ''m1'' User ''hello'' 2"
  have h: "ms_role ?t = User" "ms_role ?r = User" "ms_content ?t = ms_content ?r" "is_temp ?t" "\<not> is_temp ?r"
    "ms_id ?t \<notin> ms_id ` set (cv_messages (ex_conversation ''c'' [] []))"
    "ms_id ?r \<notin> ms_id ` set (cv_messages (ex_conversation ''c'' [] []))"
    "confirmed (ms_content ?r) (ex_conversation ''c'' [] [])"
    by (auto simp: ex_defs is_temp_def confirmed_def)
  show ?thesis
    using optimistic_message_order_independent [OF h, of clk0 clk0]
    by (simp add: ex_defs limit_messages_short MAX_MESSAGES_PER_CONVERSATION_def)
qed

text \<open>
  C5: Of a well-formed conversation and a batch of messages with ids, merging leaves the newest
  hundred, sorted by time: the candidates are the first message with each id among the old and the
  new ones; as many of them as the bound allows are kept, none twice, and none that is dropped is
  newer than one that is kept. A batch that brings no new id changes nothing.
\<close>

theorem merge_keeps_newest_sorted:
  fixes c new clk
  defines "ms \<equiv> cv_messages (merge_messages clk new c)" and "all \<equiv> {d. first_with_id (cv_messages c @ new) d}"
  assumes ok: "messages_ok (cv_messages c)" and ne: "\<forall>m \<in> set new. ms_id m \<noteq> []"
  shows "if ms_id ` set new \<subseteq> ms_id ` set (cv_messages c) then merge_messages clk new c = c
    else sorted (map sort_time ms) \<and> distinct (map ms_id ms) \<and> set ms \<subseteq> all \<and>
      length ms = min MAX_MESSAGES_PER_CONVERSATION (card all) \<and>
      (\<forall>d \<in> all - set ms. \<forall>k \<in> set ms. sort_time d \<le> sort_time k)"
proof -
  let ?f = "fresh_messages (cv_messages c) new"
  let ?all = "sort_key sort_time (cv_messages c @ ?f)"
  have "?f = [] \<longleftrightarrow> ms_id ` set ?f = {}"
    by simp
  then have none: "?f = [] \<longleftrightarrow> ms_id ` set new \<subseteq> ms_id ` set (cv_messages c)"
    unfolding fresh_messages_ids(2) [OF ne] by blast
  have all: "set ?all = all"
    unfolding all_def merged_candidates [OF ok ne, symmetric] by simp
  show ?thesis
  proof (cases "?f = []")
    case True
    with none show ?thesis by (simp add: merge_messages_def)
  next
    case False
    then have ms: "ms = limit_messages ?all"
      unfolding ms_def by (simp add: merge_messages_messages [OF ok ne])
    have "sort_time d \<le> sort_time k" if "d \<in> all - set ms" "k \<in> set ms" for d k
      using limit_keeps_newest [of ?all d k] that unfolding ms all [symmetric] by simp
    moreover have "distinct (map ms_id ms)"
      using merge_messages_ok [OF ok ne] by (simp add: ms_def messages_ok_def)
    moreover have "set ms \<subseteq> all"
      unfolding ms all [symmetric] by (rule limit_messages_subset)
    moreover have "length ms = min MAX_MESSAGES_PER_CONVERSATION (card all)"
      unfolding ms all_def by (rule merged_length [OF ok ne])
    ultimately show ?thesis
      using False none by (simp add: ms limit_sorted)
  qed
qed

theorem merge_keeps_newest_sorted_witness:
  "sorted (map sort_time (cv_messages (merge_messages clk0 [ex_message ''b'' User ''y'' 1, ex_message ''a'' User ''x'' 5]
     (ex_conversation ''c'' [] [ex_message ''a'' User ''x'' 5]))))"
proof -
  let ?c = "ex_conversation ''c'' [] [ex_message ''a'' User ''x'' 5]"
  let ?new = "[ex_message ''b'' User ''y'' 1, ex_message ''a'' User ''x'' 5]"
  have h: "messages_ok (cv_messages ?c)" "\<forall>m \<in> set ?new. ms_id m \<noteq> []"
    by (simp_all add: ex_defs messages_ok_def MAX_MESSAGES_PER_CONVERSATION_def)
  have "\<not> ms_id ` set ?new \<subseteq> ms_id ` set (cv_messages ?c)"
    by (simp add: ex_defs)
  with merge_keeps_newest_sorted [OF h, of clk0] show ?thesis
    by (simp split: if_splits)
qed

text \<open>
  Merging the same batch again changes nothing, so a history that is fetched twice appears
  once.
\<close>

theorem merge_idempotent:
  assumes "messages_ok (cv_messages c)" "\<forall>m \<in> set new. ms_id m \<noteq> []"
    and "length (cv_messages c) + length new \<le> MAX_MESSAGES_PER_CONVERSATION"
  shows "merge_messages clk' new (merge_messages clk new c) = merge_messages clk new c"
  using assms by (rule merge_messages_idem)

theorem merge_idempotent_witness:
  "merge_messages clk0 [ex_message ''b'' User ''y'' 1]
     (merge_messages clk0 [ex_message ''b'' User ''y'' 1] (ex_conversation ''c'' [] [])) =
   merge_messages clk0 [ex_message ''b'' User ''y'' 1] (ex_conversation ''c'' [] [])"
  by (rule merge_idempotent)
    (simp_all add: ex_defs messages_ok_def MAX_MESSAGES_PER_CONVERSATION_def)

text \<open>
  An assistant message whose content is that of one received less than ten seconds earlier is
  not appended, whatever its tool calls are: the earlier message takes over its id and keeps its
  own tool calls, so the second message's tool calls are lost.
\<close>

theorem twin_answer_loses_its_tool_calls:
  assumes r: "ms_role r = Assistant" "ms_id r \<notin> ms_id ` set (cv_messages c)"
    and t: "t \<in> set (cv_messages c)" "ms_role t = Assistant" "ms_content t = ms_content r"
    and near: "\<bar>coalesce (ms_timestamp r) (clk_ms clk) - coalesce (ms_timestamp t) 0\<bar> < 10000"
  shows "map ms_toolCalls (cv_messages (add_message clk r c)) = map ms_toolCalls (cv_messages c) \<and>
    length (cv_messages (add_message clk r c)) = length (cv_messages c) \<and>
    ms_id r \<in> ms_id ` set (cv_messages (add_message clk r c))"
proof -
  have "find_assistant_twin clk r (cv_messages c) \<noteq> None"
    using t near unfolding find_assistant_twin_def Let_def find_None_iff by blast
  then obtain u where u: "find_assistant_twin clk r (cv_messages c) = Some u" by blast
  then have mem: "u \<in> set (cv_messages c)"
    by (auto simp: find_assistant_twin_def Let_def find_Some_iff)
  have new: "\<not> (\<exists>m \<in> set (cv_messages c). ms_id m = ms_id r)"
    using r(2) by (simp add: not_in_ids)
  have "ms_id u \<noteq> ms_id r" using mem new by blast
  then have add: "cv_messages (add_message clk r c) = rename_message (ms_id u) (ms_id r) (cv_messages c)"
    using u new r(1) by (simp add: add_message_def)
  have "map ms_toolCalls (rename_message (ms_id u) (ms_id r) (cv_messages c)) = map ms_toolCalls (cv_messages c)"
    unfolding rename_message_def by (rule map_where_key) simp
  moreover have "u\<lparr>ms_id := ms_id r\<rparr> \<in> set (rename_message (ms_id u) (ms_id r) (cv_messages c))"
    unfolding rename_message_def set_map_where using mem by blast
  then have "ms_id (u\<lparr>ms_id := ms_id r\<rparr>) \<in> ms_id ` set (rename_message (ms_id u) (ms_id r) (cv_messages c))"
    by (rule imageI)
  then have "ms_id r \<in> ms_id ` set (rename_message (ms_id u) (ms_id r) (cv_messages c))"
    by simp
  ultimately show ?thesis by (simp add: add)
qed

definition ex_tool_answer :: "ident \<Rightarrow> ident \<Rightarrow> message" where
  "ex_tool_answer i tc = (ex_message i Assistant [] 5)\<lparr>ms_toolCalls :=
     Some [\<lparr>tc_id = tc, tc_name = ''read'', tc_args = [], tc_result = None, tc_status = ToolPending\<rparr>]\<rparr>"

theorem twin_answer_loses_its_tool_calls_witness:
  "map ms_toolCalls (cv_messages (add_message clk0 (ex_tool_answer ''m2'' ''k2'')
     (ex_conversation ''c'' [] [ex_tool_answer ''m1'' ''k1'']))) = [ms_toolCalls (ex_tool_answer ''m1'' ''k1'')]"
  using twin_answer_loses_its_tool_calls [of "ex_tool_answer ''m2'' ''k2''"
      "ex_conversation ''c'' [] [ex_tool_answer ''m1'' ''k1'']" "ex_tool_answer ''m1'' ''k1''" clk0]
  by (simp add: ex_tool_answer_def ex_message_def ex_conversation_def)

section \<open>Streaming\<close>

text \<open>
  C2: A streamed answer reaches the conversation its agent is attached to: whatever tokens of
  whatever streams were delivered since the stream started, the store shows exactly this stream's
  content tokens and thinking tokens, each in order; finalizing appends one assistant message with
  the complete text the server gave and with the thinking tokens, removes the stream, and a second
  finalization of the same message changes nothing.
\<close>

theorem streamed_message_delivered:
  assumes s: "map_of (st_sessions st) k = Some s"
    and ag: "find (\<lambda>x. ag_id x = a) (ss_agents s) = Some ag"
    and ptr: "ag_conversation ag = Some i" "i \<noteq> []"
    and c: "find (\<lambda>x. cv_id x = i) (ss_conversations s) = Some c"
    and new: "m \<notin> ms_id ` set (cv_messages c)"
    and run: "finalizeStreamingMessage clk m body tcs
        (fold apply_token tks (startStreamingMessage clkS k a m ws), st) = (ws', st')"
  shows "stream_texts (fold apply_token tks (startStreamingMessage clkS k a m ws)) m =
      Some (concat (map (token_content m) tks), concat (map (token_thinking m) tks)) \<and>
    map_of ws' m = None \<and>
    (\<exists>s' c'. map_of (st_sessions st') k = Some s' \<and>
       find (\<lambda>x. cv_id x = i) (ss_conversations s') = Some c' \<and>
       cv_messages c' = limit_messages (cv_messages c @ [streamed clk m body tcs tks])) \<and>
    finalizeStreamingMessage clkE m bodyE tcsE (ws', st') = (ws', st')"
proof -
  let ?ws = "fold apply_token tks (startStreamingMessage clkS k a m ws)"
  note e = started_entry [of tks clkS k a m ws]
  obtain e where e: "map_of ?ws m = Some e" "sm_sessionId e = k" "sm_agentId e = a"
      "sm_thinking e = concat (map (token_thinking m) tks)"
    using started_entry [of tks clkS k a m ws] by simp
  have ws': "ws' = AList.delete m ?ws"
    and st': "st' = with_session k (finalize_in_session clk e m body tcs) st"
    using run e(1,2) by (auto simp: finalizeStreamingMessage_def getStreamingMessage_def completeStreaming_def)
  have gone: "map_of ws' m = None"
    unfolding ws' by simp
  have msg: "finalized_message clk e m body tcs = streamed clk m body tcs tks"
    using e(4) by (simp add: finalized_message_def streamed_def Let_def)
  have "map_of (st_sessions st') k = Some (finalize_in_session clk e m body tcs s)"
    unfolding st' using s by simp
  moreover have "finalizeStreamingMessage clkE m bodyE tcsE (ws', st') = (ws', st')"
    using gone by (simp add: finalizeStreamingMessage_def getStreamingMessage_def completeStreaming_def)
  ultimately show ?thesis
    using gone web_roundtrip finalize_session_effect [OF ag [folded e(3)] ptr c new, of clk body tcs] msg by auto
qed

theorem streamed_message_delivered_witness:
  "let r = finalizeStreamingMessage clk0 ''m'' ''hi'' None
        (fold apply_token [Thinking ''m'' ''hm'', Content ''n'' ''no'', Content ''m'' ''hi'']
           (startStreamingMessage clk0 ''s'' ''a'' ''m'' []), ex_state ex_pair)
   in stream_texts (fold apply_token [Thinking ''m'' ''hm'', Content ''n'' ''no'', Content ''m'' ''hi'']
        (startStreamingMessage clk0 ''s'' ''a'' ''m'' [])) ''m'' = Some (''hi'', ''hm'') \<and> map_of (fst r) ''m'' = None \<and> finalizeStreamingMessage clk0 ''m'' ''again'' None r = r"
proof -
  have h: "map_of (st_sessions (ex_state ex_pair)) ''s'' = Some ex_pair"
    "find (\<lambda>x. ag_id x = ''a'') (ss_agents ex_pair) = Some (ex_agent ''a'' (Some ''c''))"
    "ag_conversation (ex_agent ''a'' (Some ''c'')) = Some ''c''" "''c'' \<noteq> []"
    "find (\<lambda>x. cv_id x = ''c'') (ss_conversations ex_pair) = Some (ex_conversation ''c'' [''a''] [])"
    "''m'' \<notin> ms_id ` set (cv_messages (ex_conversation ''c'' [''a''] []))"
    by simp_all
  show ?thesis
    using streamed_message_delivered [OF h surjective_pairing, where clk = clk0 and clkS = clk0 and ws = "[]" and body = "''hi''"
        and tcs = None and tks = "[Thinking ''m'' ''hm'', Content ''n'' ''no'', Content ''m'' ''hi'']" and clkE = clk0
        and bodyE = "''again''" and tcsE = None]
    unfolding Let_def prod.collapse by simp
qed

text \<open>
  Streams do not mix: after any interleaving of tokens for several messages, a stream holds
  exactly its own content and thinking tokens, in the order they came; tokens that arrive after
  the stream was completed are dropped.
\<close>

theorem streams_do_not_mix:
  "stream_texts (fold apply_token tks (startStreamingMessage clk k a m ws)) m =
     Some (concat (map (token_content m) tks), concat (map (token_thinking m) tks)) \<and>
   stream_texts (fold apply_token tks (fst (completeStreaming m ws))) m = None"
  using web_roundtrip web_late_tokens by blast

section \<open>Windows\<close>

text \<open>
  Bringing a terminal to the front puts it strictly above every other terminal and every
  agent of the session; bringing an agent to the front puts it strictly above every other agent.
\<close>

theorem brought_to_front_is_on_top:
  assumes s: "map_of (st_sessions st) k = Some s"
  shows "(\<exists>s'. map_of (st_sessions (bringTerminalWindowToFront k i st)) k = Some s' \<and>
      (\<forall>x \<in> set (terminals s'). tw_id x = i \<longrightarrow>
        (\<forall>y \<in> set (terminals s'). tw_id y \<noteq> i \<longrightarrow> z_of (tw_position y) < z_of (tw_position x)) \<and>
        (\<forall>a \<in> set (ss_agents s'). z_of (ag_position a) < z_of (tw_position x)))) \<and>
    (\<exists>s'. map_of (st_sessions (bringAgentToFront k i st)) k = Some s' \<and>
      (\<forall>x \<in> set (ss_agents s'). ag_id x = i \<longrightarrow>
        (\<forall>y \<in> set (ss_agents s'). ag_id y \<noteq> i \<longrightarrow> z_of (ag_position y) < z_of (ag_position x))))"
proof (intro conjI)
  define m where "m = max (max_of (map (\<lambda>a. z_of (ag_position a)) (ss_agents s) @ [0]))
      (max_of (map (\<lambda>t. z_of (tw_position t)) (terminals s) @ [0]))"
  let ?ts = "map_where (\<lambda>t. tw_id t = i)
      (\<lambda>t. t\<lparr>tw_position := Some (spread_position (tw_position t) [PZIndex (m + 1)])\<rparr>) (terminals s)"
  have agents: "\<forall>a \<in> set (ss_agents s). z_of (ag_position a) \<le> m"
    unfolding m_def by (intro ballI max.coboundedI1 max_of_ge) simp
  have terms: "\<forall>t \<in> set (terminals s). z_of (tw_position t) \<le> m"
    unfolding m_def by (intro ballI max.coboundedI2 max_of_ge) simp
  have raised: "\<forall>x \<in> set ?ts. tw_id x = i \<longrightarrow> z_of (tw_position x) = m + 1 \<and>
      (\<forall>y \<in> set ?ts. tw_id y \<noteq> i \<longrightarrow> z_of (tw_position y) < z_of (tw_position x))"
    by (rule raised_above [OF _ _ terms]) simp_all
  have over: "\<forall>a \<in> set (ss_agents s). z_of (ag_position a) < z" if "z = m + 1" for z
    using agents that by simp
  have all: "\<forall>x \<in> set ?ts. tw_id x = i \<longrightarrow>
      (\<forall>y \<in> set ?ts. tw_id y \<noteq> i \<longrightarrow> z_of (tw_position y) < z_of (tw_position x)) \<and>
      (\<forall>a \<in> set (ss_agents s). z_of (ag_position a) < z_of (tw_position x))"
    using raised over by blast
  have "map_of (st_sessions (bringTerminalWindowToFront k i st)) k = Some (s\<lparr>ss_terminals := Some ?ts\<rparr>)"
    using s by (simp add: bringTerminalWindowToFront_def Let_def m_def)
  then show "\<exists>s'. map_of (st_sessions (bringTerminalWindowToFront k i st)) k = Some s' \<and>
      (\<forall>x \<in> set (terminals s'). tw_id x = i \<longrightarrow>
        (\<forall>y \<in> set (terminals s'). tw_id y \<noteq> i \<longrightarrow> z_of (tw_position y) < z_of (tw_position x)) \<and>
        (\<forall>a \<in> set (ss_agents s'). z_of (ag_position a) < z_of (tw_position x)))"
    using all by (intro exI [of _ "s\<lparr>ss_terminals := Some ?ts\<rparr>"] conjI) simp_all
next
  define m where "m = max_of (map (\<lambda>a. z_of (ag_position a)) (ss_agents s))"
  let ?as = "map_where (\<lambda>a. ag_id a = i)
      (\<lambda>a. a\<lparr>ag_position := Some (spread_position (ag_position a) [PZIndex (m + 1)])\<rparr>) (ss_agents s)"
  have agents: "\<forall>a \<in> set (ss_agents s). z_of (ag_position a) \<le> m"
    unfolding m_def by (intro ballI max_of_ge) simp
  have raised: "\<forall>x \<in> set ?as. ag_id x = i \<longrightarrow> z_of (ag_position x) = m + 1 \<and>
      (\<forall>y \<in> set ?as. ag_id y \<noteq> i \<longrightarrow> z_of (ag_position y) < z_of (ag_position x))"
    by (rule raised_above [OF _ _ agents]) simp_all
  have all: "\<forall>x \<in> set ?as. ag_id x = i \<longrightarrow>
      (\<forall>y \<in> set ?as. ag_id y \<noteq> i \<longrightarrow> z_of (ag_position y) < z_of (ag_position x))"
    using raised by blast
  have "map_of (st_sessions (bringAgentToFront k i st)) k = Some (s\<lparr>ss_agents := ?as\<rparr>)"
    using s by (simp add: bringAgentToFront_def Let_def m_def)
  then show "\<exists>s'. map_of (st_sessions (bringAgentToFront k i st)) k = Some s' \<and>
      (\<forall>x \<in> set (ss_agents s'). ag_id x = i \<longrightarrow>
        (\<forall>y \<in> set (ss_agents s'). ag_id y \<noteq> i \<longrightarrow> z_of (ag_position y) < z_of (ag_position x)))"
    using all by (intro exI [of _ "s\<lparr>ss_agents := ?as\<rparr>"] conjI) simp_all
qed

theorem brought_to_front_is_on_top_witness:
  "\<exists>s'. map_of (st_sessions (bringAgentToFront ''s'' ''a'' (ex_state ex_pair))) ''s'' = Some s' \<and>
     (\<forall>x \<in> set (ss_agents s'). ag_id x = ''a'' \<longrightarrow>
        (\<forall>y \<in> set (ss_agents s'). ag_id y \<noteq> ''a'' \<longrightarrow> z_of (ag_position y) < z_of (ag_position x)))"
  using brought_to_front_is_on_top [of "ex_state ex_pair" "''s''" ex_pair "''a''"] by simp

text \<open>
  The stacking of agents does not look at terminals: a terminal that lies more than one level
  above every agent still covers the agent that was just brought to the front.
\<close>

theorem agent_front_ignores_terminals:
  assumes s: "map_of (st_sessions st) k = Some s" and t: "t \<in> set (terminals s)"
    and above: "\<forall>a \<in> set (ss_agents s). z_of (ag_position a) + 1 < z_of (tw_position t)"
  shows "\<exists>s'. map_of (st_sessions (bringAgentToFront k i st)) k = Some s' \<and>
      t \<in> set (terminals s') \<and>
      (\<forall>a \<in> set (ss_agents s'). z_of (ag_position a) < z_of (tw_position t))"
proof (cases "ss_agents s = []")
  case True
  then show ?thesis using s t by (simp add: bringAgentToFront_def Let_def)
next
  case False
  then have "max_of (map (\<lambda>a. z_of (ag_position a)) (ss_agents s)) \<in>
      set (map (\<lambda>a. z_of (ag_position a)) (ss_agents s))"
    by (intro max_of_mem) simp
  with above have "max_of (map (\<lambda>a. z_of (ag_position a)) (ss_agents s)) + 1 < z_of (tw_position t)"
    by auto
  then show ?thesis
    using s t above by (auto simp: bringAgentToFront_def Let_def set_map_where)
qed

theorem agent_front_ignores_terminals_witness:
  "\<exists>s'. map_of (st_sessions (bringAgentToFront ''s'' ''a''
       (ex_state (ex_pair\<lparr>ss_terminals := Some [ex_terminal]\<rparr>)))) ''s'' = Some s' \<and>
     ex_terminal \<in> set (terminals s') \<and>
     (\<forall>a \<in> set (ss_agents s'). z_of (ag_position a) < z_of (tw_position ex_terminal))"
  by (rule agent_front_ignores_terminals [where s = "ex_pair\<lparr>ss_terminals := Some [ex_terminal]\<rparr>"])
    (simp_all add: ex_state_def ex_terminal_def ex_agent_def z_of_def)

section \<open>File previews\<close>

text \<open>
  A path is previewed at most once: opening a path keeps the preview paths of the session
  distinct and shows the path, and opening it again adds nothing and leaves the recent files alone.
\<close>

theorem preview_opened_once:
  assumes s: "map_of (st_sessions st) k = Some s" and d: "distinct (map fp_path (ss_previews s))"
    and st': "st' = openFilePreview clk rnd k (FromPath path) ls st"
  shows "\<exists>s'. map_of (st_sessions st') k = Some s' \<and> distinct (map fp_path (ss_previews s')) \<and>
      path \<in> fp_path ` set (ss_previews s') \<and>
      (\<exists>s''. map_of (st_sessions (openFilePreview clk' rnd' k (FromPath path) ls' st')) k = Some s'' \<and>
         map fp_path (ss_previews s'') = map fp_path (ss_previews s')) \<and>
      st_recentFiles (openFilePreview clk' rnd' k (FromPath path) ls' st') = st_recentFiles st'"
proof -
  let ?P = "\<lambda>p. fp_path p = path"
  have again: "\<exists>s''. map_of (st_sessions (openFilePreview c r k (FromPath path) l t)) k = Some s'' \<and>
      map fp_path (ss_previews s'') = map fp_path (ss_previews u) \<and>
      st_recentFiles (openFilePreview c r k (FromPath path) l t) = st_recentFiles t"
    if u: "map_of (st_sessions t) k = Some u" "path \<in> fp_path ` set (ss_previews u)" for c r l t u
  proof -
    have i: "0 \<le> findIndex ?P (ss_previews u)"
      using u(2) findIndex_neg_iff [of ?P "ss_previews u"] by (metis imageE not_le)
    then have "fp_path (ss_previews u ! nat (findIndex ?P (ss_previews u))) = path"
      by (rule findIndex_nth)
    moreover have "nat (findIndex ?P (ss_previews u)) < length (ss_previews u)"
      using findIndex_bounds [of ?P "ss_previews u"] i by linarith
    ultimately show ?thesis
      using u i by (simp add: openFilePreview_def preview_of_def Let_def map_update nth_map list_update_same_conv)
  qed
  have "\<exists>s'. map_of (st_sessions st') k = Some s' \<and> distinct (map fp_path (ss_previews s')) \<and>
      path \<in> fp_path ` set (ss_previews s')"
  proof (cases "path \<in> fp_path ` set (ss_previews s)")
    case True
    from again [OF s True, of clk rnd ls] st' obtain s' where
      "map_of (st_sessions st') k = Some s'" "map fp_path (ss_previews s') = map fp_path (ss_previews s)"
      by blast
    with d True show ?thesis by (metis list.set_map)
  next
    case False
    then have "findIndex ?P (ss_previews s) < 0"
      by (auto simp: findIndex_neg_iff)
    with s d False st' show ?thesis
      by (auto simp: openFilePreview_def preview_of_def Let_def)
  qed
  then obtain s' where s': "map_of (st_sessions st') k = Some s'" "distinct (map fp_path (ss_previews s'))"
      "path \<in> fp_path ` set (ss_previews s')"
    by blast
  with again [OF s'(1,3), of clk' rnd' ls'] show ?thesis
    by blast
qed

theorem preview_opened_once_witness:
  "let st' = openFilePreview clk0 ''r'' ''s'' (FromPath ''a/x.ts'') (None, None) (ex_state ex_pair)
   in \<exists>s'. map_of (st_sessions st') ''s'' = Some s' \<and> ''a/x.ts'' \<in> fp_path ` set (ss_previews s') \<and>
        st_recentFiles (openFilePreview clk0 ''q'' ''s'' (FromPath ''a/x.ts'') (None, None) st') = st_recentFiles st'"
  using preview_opened_once [of "ex_state ex_pair" "''s''" ex_pair, OF _ _ refl, of clk0 "''r''" "''a/x.ts''" "(None, None)" clk0 "''q''" "(None, None)"]
  unfolding Let_def by auto

section \<open>Attaching and detaching\<close>

text \<open>
  Attaching a conversation makes it the agent's conversation and lists the agent on it, for
  an agent and a conversation of the session.
\<close>

theorem attach_then_found:
  assumes s: "map_of (st_sessions st) k = Some s" and a: "a \<in> ag_id ` set (ss_agents s)"
    and c: "c \<in> cv_id ` set (ss_conversations s)" and ne: "c \<noteq> []"
  shows "\<exists>conv. getConversationForAgent k a (attachConversationToAgent clk k c a st) = Some conv \<and>
     cv_id conv = c \<and> a \<in> set (attached conv)"
proof -
  let ?f = "\<lambda>x. if a \<notin> set (attached x)
      then x\<lparr>cv_attached := Some (attached x @ [a]), cv_updatedAt := clk_iso clk\<rparr> else x"
  let ?cs = "map_where (\<lambda>x. cv_id x = c) ?f (ss_conversations s)"
  have "find (\<lambda>x. ag_id x = a) (point_agent a c as) =
      map_option (\<lambda>x. x\<lparr>ag_conversation := Some c\<rparr>) (find (\<lambda>x. ag_id x = a) as)" for as
    by (induction as) (auto simp: point_agent_def)
  moreover have "find (\<lambda>x. ag_id x = a) (ss_agents s) \<noteq> None"
    using a by (auto simp: find_None_iff)
  ultimately obtain ag where ag: "find (\<lambda>x. ag_id x = a) (point_agent a c (ss_agents s)) = Some ag"
      "ag_conversation ag = Some c"
    by fastforce
  obtain conv where conv: "find (\<lambda>x. cv_id x = c) (ss_conversations s) = Some conv"
    using c by (cases "find (\<lambda>x. cv_id x = c) (ss_conversations s)") (auto simp: find_None_iff)
  have "find (\<lambda>x. cv_id x = c) ?cs = Some (?f conv)"
    using conv by (subst find_map_where) auto
  moreover have "cv_id (?f conv) = c" "a \<in> set (attached (?f conv))"
    using conv by (auto simp: find_Some_iff)
  ultimately show ?thesis
    using s ag ne by (simp add: attachConversationToAgent_def getConversationForAgent_def)
qed

theorem attach_then_found_witness:
  "\<exists>conv. getConversationForAgent ''s'' ''b'' (attachConversationToAgent clk0 ''s'' ''c'' ''b'' (ex_state ex_pair)) =
      Some conv \<and> cv_id conv = ''c'' \<and> ''b'' \<in> set (attached conv)"
  by (rule attach_then_found [where s = ex_pair]) simp_all

text \<open>
  Attaching another conversation to an agent does not take the agent off the list of the one
  it leaves, so that conversation is not offered as available although the agent no longer
  points to it.
\<close>

theorem attach_leaves_previous_listed:
  assumes s: "map_of (st_sessions st) k = Some s"
    and old: "old \<in> set (ss_conversations s)" "a \<in> set (attached old)" "cv_id old \<noteq> c"
  shows "\<exists>s'. map_of (st_sessions (attachConversationToAgent clk k c a st)) k = Some s' \<and>
      old \<in> set (ss_conversations s') \<and>
      old \<notin> set (getAvailableConversations k (attachConversationToAgent clk k c a st)) \<and>
      (\<forall>x \<in> set (ss_agents s'). ag_id x = a \<longrightarrow> ag_conversation x = Some c)"
proof -
  let ?f = "\<lambda>x. if a \<notin> set (attached x)
      then x\<lparr>cv_attached := Some (attached x @ [a]), cv_updatedAt := clk_iso clk\<rparr> else x"
  let ?s = "s\<lparr>ss_agents := point_agent a c (ss_agents s),
      ss_conversations := map_where (\<lambda>x. cv_id x = c) ?f (ss_conversations s)\<rparr>"
  have st': "map_of (st_sessions (attachConversationToAgent clk k c a st)) k = Some ?s"
    using s by (simp add: attachConversationToAgent_def)
  have "old \<in> set (ss_conversations ?s)"
    using old by (simp add: in_map_where)
  moreover have "old \<notin> set (getAvailableConversations k (attachConversationToAgent clk k c a st))"
    using old(2) st' by (auto simp: getAvailableConversations_def)
  moreover have "\<forall>x \<in> set (ss_agents ?s). ag_id x = a \<longrightarrow> ag_conversation x = Some c"
    by (simp add: point_agent_def ball_map_where)
  ultimately show ?thesis
    using st' by blast
qed

theorem attach_leaves_previous_listed_witness:
  "\<exists>s'. map_of (st_sessions (attachConversationToAgent clk0 ''s'' ''d'' ''a'' (ex_state ex_pair))) ''s'' = Some s' \<and>
     ex_conversation ''c'' [''a''] [] \<in> set (ss_conversations s')"
  using attach_leaves_previous_listed [of "ex_state ex_pair" "''s''" ex_pair "ex_conversation ''c'' [''a''] []" "''a''" "''d''" clk0]
  by auto

text \<open>
  Detaching without naming an agent detaches the agent that was attached first: with a second
  agent on the list, that second agent stays on it and keeps its pointer.
\<close>

theorem detach_takes_first_attached:
  assumes s: "map_of (st_sessions st) k = Some s"
    and c: "find (\<lambda>x. cv_id x = c) (ss_conversations s) = Some conv"
    and att: "attached conv = a # rest" "a \<noteq> []" "b \<in> set rest" "b \<noteq> a"
  shows "\<exists>s' conv'. map_of (st_sessions (detachConversationFromAgent clk k c None st)) k = Some s' \<and>
      find (\<lambda>x. cv_id x = c) (ss_conversations s') = Some conv' \<and>
      a \<notin> set (attached conv') \<and> b \<in> set (attached conv') \<and>
      (\<forall>x \<in> set (ss_agents s). ag_id x = b \<longrightarrow> x \<in> set (ss_agents s'))"
proof -
  let ?f = "\<lambda>x. x\<lparr>cv_attached := Some (filter (\<lambda>i. i \<noteq> a) (attached conv)), cv_updatedAt := clk_iso clk\<rparr>"
  have t: "detach_target None conv = Some a"
    using att by (simp add: detach_target_def)
  let ?cs = "map_where (\<lambda>x. cv_id x = c) ?f (ss_conversations s)"
  have "find (\<lambda>x. cv_id x = c) ?cs = Some (?f conv)"
    using c by (subst find_map_where) auto
  moreover have "a \<notin> set (attached (?f conv))" "b \<in> set (attached (?f conv))"
    using att by auto
  moreover have "map_of (st_sessions (detachConversationFromAgent clk k c None st)) k =
      Some (s\<lparr>ss_agents := map_where (\<lambda>x. ag_id x = a \<and> ag_conversation x = Some c)
        (\<lambda>x. x\<lparr>ag_conversation := None\<rparr>) (ss_agents s), ss_conversations := ?cs\<rparr>)"
    using s c t att(2) by (simp add: detachConversationFromAgent_def detach_def)
  moreover have "\<forall>x \<in> set (ss_agents s). ag_id x = b \<longrightarrow>
      x \<in> set (map_where (\<lambda>x. ag_id x = a \<and> ag_conversation x = Some c) (\<lambda>x. x\<lparr>ag_conversation := None\<rparr>) (ss_agents s))"
    using att(4) by (auto intro!: in_map_where)
  ultimately show ?thesis
    by simp
qed

theorem detach_takes_first_attached_witness:
  "\<exists>s' conv'. map_of (st_sessions (detachConversationFromAgent clk0 ''s'' ''d'' None (ex_state ex_pair))) ''s'' = Some s' \<and>
     find (\<lambda>x. cv_id x = ''d'') (ss_conversations s') = Some conv' \<and>
     ''b'' \<notin> set (attached conv') \<and> ''a'' \<in> set (attached conv')"
  using detach_takes_first_attached [of "ex_state ex_pair" "''s''" ex_pair "''d''"
      "ex_conversation ''d'' [''b'', ''a''] []" "''b''" "[''a'']" "''a''" clk0]
  by auto

text \<open>
  The \<open>conversation_detached\<close> event clears the agent's pointer even when the agent already
  points to another conversation, which then still lists it.
\<close>

theorem detached_event_clears_newer_pointer:
  assumes s: "map_of (st_sessions st) k = Some s"
    and other: "conv \<in> set (ss_conversations s)" "cv_id conv \<noteq> c" "a \<in> set (attached conv)" "a \<noteq> []"
  shows "\<exists>s'. map_of (st_sessions (handleConversationEvent k (Conversation_detached c (Some a)) st)) k = Some s' \<and>
      (\<forall>x \<in> set (ss_agents s'). ag_id x = a \<longrightarrow> ag_conversation x = None) \<and>
      conv \<in> set (ss_conversations s')"
  using assms by (simp add: handleConversationEvent_def ball_map_where in_map_where)

theorem detached_event_clears_newer_pointer_witness:
  "\<exists>s'. map_of (st_sessions (handleConversationEvent ''s'' (Conversation_detached ''d'' (Some ''a'')) (ex_state ex_pair))) ''s'' = Some s' \<and>
     (\<forall>x \<in> set (ss_agents s'). ag_id x = ''a'' \<longrightarrow> ag_conversation x = None) \<and>
     ex_conversation ''c'' [''a''] [] \<in> set (ss_conversations s')"
  by (rule detached_event_clears_newer_pointer [where s = ex_pair]) simp_all

section \<open>Persistence\<close>

text \<open>
  What the store persists is bounded and stable: every session keeps at most the last hundred
  messages of each conversation and twenty previews without their content, at most fifty recent
  files are kept, every other lookup is unchanged, and persisting twice is persisting once.
\<close>

theorem persisted_state_bounded:
  assumes ok: "obj_ok (st_sessions st)"
  shows "(\<forall>k. map_of (st_sessions (partialize st)) k = map_option partialize_session (map_of (st_sessions st) k)) \<and>
    (\<forall>k s. map_of (st_sessions (partialize st)) k = Some s \<longrightarrow>
       (\<forall>c \<in> set (ss_conversations s). length (cv_messages c) \<le> 100) \<and>
       length (ss_previews s) \<le> 20 \<and> (\<forall>p \<in> set (ss_previews s). fp_content p = [])) \<and>
    length (st_recentFiles (partialize st)) \<le> 50 \<and>
    st_currentSessionId (partialize st) = st_currentSessionId st \<and>
    partialize (partialize st) = partialize st"
proof (intro conjI)
  note entries = partialize_entries [OF ok]
  show look: "\<forall>k. map_of (st_sessions (partialize st)) k = map_option partialize_session (map_of (st_sessions st) k)"
    using ok by (simp add: entries map_of_map [unfolded split_def])
  show "\<forall>k s. map_of (st_sessions (partialize st)) k = Some s \<longrightarrow>
       (\<forall>c \<in> set (ss_conversations s). length (cv_messages c) \<le> 100) \<and>
       length (ss_previews s) \<le> 20 \<and> (\<forall>p \<in> set (ss_previews s). fp_content p = [])"
    by (auto simp: look partialize_session_def slice_last_length MAX_MESSAGES_PER_CONVERSATION_def)
  show "length (st_recentFiles (partialize st)) \<le> 50" "st_currentSessionId (partialize st) = st_currentSessionId st"
    by (simp_all add: partialize_def MAX_RECENT_FILES_def)
  have keys: "obj_ok (st_sessions (partialize st))"
    using distinct_own_keys [OF ok] by (simp add: entries own_keys_def comp_def)
  have "st_sessions (partialize (partialize st)) = st_sessions (partialize st)"
    by (simp add: partialize_entries [OF keys] entries own_entries_map comp_def partialize_session_idem)
  then show "partialize (partialize st) = partialize st"
    by (simp add: session_state.equality partialize_def)
qed

theorem persisted_state_bounded_witness:
  "obj_ok (st_sessions (ex_state ex_pair)) \<and>
   partialize (partialize (ex_state ex_pair)) = partialize (ex_state ex_pair)"
  using persisted_state_bounded [of "ex_state ex_pair"] by (simp add: ex_state_def)

end
