(* ===== verification/Editor.thy ===== *)
theory Editor
  imports Complex_Main Js_Text Machines
begin

text \<open>
  The editor store (\<open>apps/web/src/stores/editor.ts\<close>): tabs, split panes, recently closed tabs
  and settings. \<open>tabs\<close> and \<open>panes\<close> are dictionaries by id; a tab names its pane
  (\<open>paneId\<close>) and the pane lists its tabs in display order. Ids made by \<open>generateId()\<close> are
  arguments. Pane sizes are rational percentages.
\<close>

section \<open>Types\<close>

datatype split_direction = SplitHorizontal | SplitVertical

datatype split_layout = LSingle | LHorizontal | LVertical | LQuad

record editor_tab =
  et_id :: ident
  et_path :: string
  et_name :: string
  et_language :: string
  et_isDirty :: bool
  et_isPreview :: bool
  et_paneId :: ident
  et_scrollPosition :: "(int \<times> int) option"
  et_cursorPosition :: "(int \<times> int) option"

record split_pane =
  sp_id :: ident
  sp_tabs :: "ident list"
  sp_activeTabId :: "ident option"
  sp_size :: rat

text \<open>Options whose values are cast from strings of the platform settings stay strings.\<close>

record editor_settings =
  se_keyMode :: string
  se_fontSize :: int
  se_tabSize :: int
  se_wordWrap :: string
  se_minimap :: bool
  se_lineNumbers :: string
  se_renderWhitespace :: string
  se_cursorBlinking :: string
  se_bracketPairColorization :: bool
  se_formatOnSave :: bool
  se_formatOnPaste :: bool
  se_autoSave :: string
  se_autoSaveDelay :: int
  se_completionsEnabled :: bool
  se_completionsDebounceMs :: int
  se_aiActionModel :: "string option"

record editor_state =
  es_tabs :: "editor_tab obj"
  es_tabOrder :: "ident list"
  es_splitLayout :: split_layout
  es_panes :: "split_pane obj"
  es_paneOrder :: "ident list"
  es_activePaneId :: "ident option"
  es_settings :: "editor_settings option"
  es_recentlyClosed :: "editor_tab list"

section \<open>Defaults\<close>

text \<open>The two settings objects of the config store; every property may be missing.\<close>

record editor_defaults =
  df_key_mode :: "string option"
  df_font_size :: "int option"
  df_tab_size :: "int option"
  df_word_wrap :: "string option"
  df_minimap :: "bool option"
  df_line_numbers :: "bool option"
  df_bracket_pair_colorization :: "bool option"

record editor_ai_config =
  ai_defaultModel :: "string option"
  ai_completionsEnabled :: "bool option"
  ai_completionsDebounceMs :: "int option"

datatype editor_error = ConfigNotInitialized

definition getSettingsFromConfig ::
    "editor_defaults option \<Rightarrow> editor_ai_config option \<Rightarrow> editor_error + editor_settings" where
  "getSettingsFromConfig editorDefaults aiConfig =
     (case editorDefaults of
        None \<Rightarrow> Inl ConfigNotInitialized
      | Some d \<Rightarrow> Inr
          \<lparr>se_keyMode = coalesce (df_key_mode d) ''default'',
           se_fontSize = coalesce (df_font_size d) 13,
           se_tabSize = coalesce (df_tab_size d) 2,
           se_wordWrap = coalesce (df_word_wrap d) ''off'',
           se_minimap = coalesce (df_minimap d) False,
           se_lineNumbers = (if df_line_numbers d = Some True then ''on'' else ''off''),
           se_renderWhitespace = ''selection'',
           se_cursorBlinking = ''smooth'',
           se_bracketPairColorization = coalesce (df_bracket_pair_colorization d) True,
           se_formatOnSave = False,
           se_formatOnPaste = True,
           se_autoSave = ''off'',
           se_autoSaveDelay = 1000,
           se_completionsEnabled = coalesce (Option.bind aiConfig ai_completionsEnabled) True,
           se_completionsDebounceMs = coalesce (Option.bind aiConfig ai_completionsDebounceMs) 300,
           se_aiActionModel = Option.bind aiConfig ai_defaultModel\<rparr>)"

definition DEFAULT_PANE_ID :: ident where
  "DEFAULT_PANE_ID = ''main''"

definition createDefaultPane :: split_pane where
  "createDefaultPane = \<lparr>sp_id = DEFAULT_PANE_ID, sp_tabs = [], sp_activeTabId = None, sp_size = 100\<rparr>"

definition getFileName :: "string \<Rightarrow> string" where
  "getFileName path = (let name = last (split_char CHR ''/'' path) in if name = [] then path else name)"

definition init_editor :: editor_state where
  "init_editor =
     \<lparr>es_tabs = [], es_tabOrder = [], es_splitLayout = LSingle,
      es_panes = [(DEFAULT_PANE_ID, createDefaultPane)], es_paneOrder = [DEFAULT_PANE_ID],
      es_activePaneId = Some DEFAULT_PANE_ID, es_settings = None, es_recentlyClosed = []\<rparr>"

section \<open>Settings and layout snapshots\<close>

definition initializeSettings ::
    "editor_defaults option \<Rightarrow> editor_ai_config option \<Rightarrow> editor_state \<Rightarrow> editor_error + editor_state" where
  "initializeSettings defaults ai state =
     (if es_settings state \<noteq> None then Inr state
      else case getSettingsFromConfig defaults ai of
        Inl e \<Rightarrow> Inl e
      | Inr cfg \<Rightarrow> Inr (state\<lparr>es_settings := Some cfg\<rparr>))"

definition isSettingsInitialized :: "editor_state \<Rightarrow> bool" where
  "isSettingsInitialized state = (es_settings state \<noteq> None)"

definition resetLayout :: "editor_state \<Rightarrow> editor_state" where
  "resetLayout state =
     state\<lparr>es_tabs := [], es_tabOrder := [], es_splitLayout := LSingle,
       es_panes := [(DEFAULT_PANE_ID, createDefaultPane)], es_paneOrder := [DEFAULT_PANE_ID],
       es_activePaneId := Some DEFAULT_PANE_ID, es_recentlyClosed := []\<rparr>"

record editor_layout =
  ly_tabs :: "editor_tab obj"
  ly_panes :: "split_pane obj"
  ly_paneOrder :: "ident list"
  ly_activePaneId :: "ident option"
  ly_splitLayout :: split_layout

definition setLayout :: "editor_layout \<Rightarrow> editor_state \<Rightarrow> editor_state" where
  "setLayout layout state =
     state\<lparr>es_tabs := ly_tabs layout, es_tabOrder := own_keys (ly_tabs layout),
       es_splitLayout := ly_splitLayout layout, es_panes := ly_panes layout,
       es_paneOrder := (if ly_paneOrder layout \<noteq> [] then ly_paneOrder layout else [DEFAULT_PANE_ID]),
       es_activePaneId := Some (coalesce (ly_activePaneId layout) DEFAULT_PANE_ID)\<rparr>"

section \<open>Tabs\<close>

definition edit_tab :: "ident \<Rightarrow> (editor_tab \<Rightarrow> editor_tab) \<Rightarrow> editor_state \<Rightarrow> editor_state" where
  "edit_tab tabId f state =
     (case map_of (es_tabs state) tabId of
        None \<Rightarrow> state
      | Some tab \<Rightarrow> state\<lparr>es_tabs := AList.update tabId (f tab) (es_tabs state)\<rparr>)"

definition setActiveTab :: "ident \<Rightarrow> editor_state \<Rightarrow> editor_state" where
  "setActiveTab tabId state =
     (case map_of (es_tabs state) tabId of
        None \<Rightarrow> state
      | Some tab \<Rightarrow>
          (case map_of (es_panes state) (et_paneId tab) of
             None \<Rightarrow> state
           | Some pane \<Rightarrow>
               state\<lparr>es_panes := AList.update (et_paneId tab) (pane\<lparr>sp_activeTabId := Some tabId\<rparr>)
                        (es_panes state),
                     es_activePaneId := Some (et_paneId tab)\<rparr>))"

text \<open>\<open>ids.map((id) => state.tabs[id]).filter(Boolean)\<close>.\<close>

definition tabs_of :: "editor_tab obj \<Rightarrow> ident list \<Rightarrow> editor_tab list" where
  "tabs_of tabs ids = List.map_filter (map_of tabs) ids"

text \<open>The tab to the right of index \<open>i\<close>, else the one to the left, else none.\<close>

definition neighbour_tab :: "ident list \<Rightarrow> int \<Rightarrow> ident option" where
  "neighbour_tab ids i = or_else (or_else (js_at ids (i + 1)) (js_at ids (i - 1))) None"

text \<open>The tab that becomes active in the pane when \<open>tabId\<close> is closed.\<close>

definition next_active :: "ident \<Rightarrow> split_pane \<Rightarrow> ident option" where
  "next_active tabId pane =
     (if sp_activeTabId pane = Some tabId \<and> length (sp_tabs pane) > 1
      then neighbour_tab (sp_tabs pane) (indexOf tabId (sp_tabs pane))
      else if sp_activeTabId pane \<noteq> Some tabId then sp_activeTabId pane
      else None)"

definition closeTab :: "ident \<Rightarrow> editor_state \<Rightarrow> editor_state" where
  "closeTab tabId state =
     (case map_of (es_tabs state) tabId of
        None \<Rightarrow> state
      | Some tab \<Rightarrow>
          (case map_of (es_panes state) (et_paneId tab) of
             None \<Rightarrow> state
           | Some pane \<Rightarrow>
               state\<lparr>es_tabs := AList.delete tabId (es_tabs state),
                     es_tabOrder := filter (\<lambda>i. i \<noteq> tabId) (es_tabOrder state),
                     es_panes := AList.update (et_paneId tab)
                        (pane\<lparr>sp_tabs := filter (\<lambda>i. i \<noteq> tabId) (sp_tabs pane),
                              sp_activeTabId := next_active tabId pane\<rparr>)
                        (es_panes state),
                     es_recentlyClosed := take 10 (tab # es_recentlyClosed state)\<rparr>))"

text \<open>
  The id in the argument record is not read: \<open>openTab\<close> takes a tab without one. The result is
  the new state and the id of the tab that was opened or found.
\<close>

definition target_pane :: "editor_tab \<Rightarrow> editor_state \<Rightarrow> ident" where
  "target_pane d state =
     (if et_paneId d \<noteq> [] then et_paneId d else str_or (es_activePaneId state) DEFAULT_PANE_ID)"

definition close_preview :: "ident \<Rightarrow> editor_state \<Rightarrow> editor_state" where
  "close_preview targetPaneId state =
     (case map_of (es_panes state) targetPaneId of
        None \<Rightarrow> state
      | Some pane \<Rightarrow>
          (case find et_isPreview (tabs_of (es_tabs state) (sp_tabs pane)) of
             None \<Rightarrow> state
           | Some previewTab \<Rightarrow> closeTab (et_id previewTab) state))"

definition insert_tab :: "ident \<Rightarrow> ident \<Rightarrow> editor_tab \<Rightarrow> editor_state \<Rightarrow> editor_state" where
  "insert_tab newId targetPaneId d state =
     (let newTab = d\<lparr>et_id := newId, et_name := getFileName (et_path d), et_paneId := targetPaneId\<rparr>;
          pane = coalesce (map_of (es_panes state) targetPaneId) createDefaultPane
      in state\<lparr>es_tabs := AList.update newId newTab (es_tabs state),
               es_tabOrder := es_tabOrder state @ [newId],
               es_panes := AList.update targetPaneId
                  (pane\<lparr>sp_tabs := sp_tabs pane @ [newId], sp_activeTabId := Some newId\<rparr>)
                  (es_panes state),
               es_activePaneId := Some targetPaneId\<rparr>)"

definition openTab :: "ident \<Rightarrow> editor_tab \<Rightarrow> editor_state \<Rightarrow> editor_state \<times> ident" where
  "openTab newId d state =
     (case find (\<lambda>t. et_path t = et_path d) (own_values (es_tabs state)) of
        Some existingTab \<Rightarrow>
          (let upgraded = (if et_isPreview existingTab \<and> \<not> et_isPreview d
                 then state\<lparr>es_tabs := AList.update (et_id existingTab)
                              (existingTab\<lparr>et_isPreview := False\<rparr>) (es_tabs state)\<rparr>
                 else state)
           in (setActiveTab (et_id existingTab) upgraded, et_id existingTab))
      | None \<Rightarrow>
          (let targetPaneId = target_pane d state;
               cleared = (if et_isPreview d then close_preview targetPaneId state else state)
           in (insert_tab newId targetPaneId d cleared, newId)))"

text \<open>\<open>delete remainingTabs[id]\<close> for each of \<open>ids\<close>.\<close>

definition delete_tabs :: "ident list \<Rightarrow> editor_tab obj \<Rightarrow> editor_tab obj" where
  "delete_tabs ids tabs = fold AList.delete ids tabs"

definition closeAllTabs :: "ident option \<Rightarrow> editor_state \<Rightarrow> editor_state" where
  "closeAllTabs paneId state =
     (let target = or_else paneId (es_activePaneId state)
      in if \<not> truthy target then state
         else case map_of (es_panes state) (the target) of
           None \<Rightarrow> state
         | Some pane \<Rightarrow>
             state\<lparr>es_tabs := delete_tabs (sp_tabs pane) (es_tabs state),
                   es_tabOrder := filter (\<lambda>i. i \<notin> set (sp_tabs pane)) (es_tabOrder state),
                   es_panes := AList.update (the target) (pane\<lparr>sp_tabs := [], sp_activeTabId := None\<rparr>)
                      (es_panes state),
                   es_recentlyClosed := take 10 (tabs_of (es_tabs state) (sp_tabs pane) @
                      es_recentlyClosed state)\<rparr>)"

definition closeOtherTabs :: "ident \<Rightarrow> editor_state \<Rightarrow> editor_state" where
  "closeOtherTabs tabId state =
     (case map_of (es_tabs state) tabId of
        None \<Rightarrow> state
      | Some tab \<Rightarrow>
          (case map_of (es_panes state) (et_paneId tab) of
             None \<Rightarrow> state
           | Some pane \<Rightarrow>
               let otherTabIds = filter (\<lambda>i. i \<noteq> tabId) (sp_tabs pane)
               in state\<lparr>es_tabs := delete_tabs otherTabIds (es_tabs state),
                        es_tabOrder := filter (\<lambda>i. i = tabId \<or> i \<notin> set otherTabIds) (es_tabOrder state),
                        es_panes := AList.update (et_paneId tab)
                           (pane\<lparr>sp_tabs := [tabId], sp_activeTabId := Some tabId\<rparr>) (es_panes state),
                        es_recentlyClosed := take 10 (tabs_of (es_tabs state) otherTabIds @
                           es_recentlyClosed state)\<rparr>))"

definition closeTabsToRight :: "ident \<Rightarrow> editor_state \<Rightarrow> editor_state" where
  "closeTabsToRight tabId state =
     (case map_of (es_tabs state) tabId of
        None \<Rightarrow> state
      | Some tab \<Rightarrow>
          (case map_of (es_panes state) (et_paneId tab) of
             None \<Rightarrow> state
           | Some pane \<Rightarrow>
               let k = nat (indexOf tabId (sp_tabs pane) + 1);
                   tabsToClose = drop k (sp_tabs pane)
               in if tabsToClose = [] then state
                  else state\<lparr>es_tabs := delete_tabs tabsToClose (es_tabs state),
                     es_tabOrder := filter (\<lambda>i. i \<notin> set tabsToClose) (es_tabOrder state),
                     es_panes := AList.update (et_paneId tab)
                        (pane\<lparr>sp_tabs := take k (sp_tabs pane),
                              sp_activeTabId := (if str_or (sp_activeTabId pane) [] \<in> set tabsToClose
                                 then Some tabId else sp_activeTabId pane)\<rparr>)
                        (es_panes state),
                     es_recentlyClosed := take 10 (tabs_of (es_tabs state) tabsToClose @
                        es_recentlyClosed state)\<rparr>))"

definition setTabDirty :: "ident \<Rightarrow> bool \<Rightarrow> editor_state \<Rightarrow> editor_state" where
  "setTabDirty tabId isDirty = edit_tab tabId (\<lambda>t. t\<lparr>et_isDirty := isDirty\<rparr>)"

definition pinTab :: "ident \<Rightarrow> editor_state \<Rightarrow> editor_state" where
  "pinTab tabId = edit_tab tabId (\<lambda>t. t\<lparr>et_isPreview := False\<rparr>)"

definition updateTabScrollPosition :: "ident \<Rightarrow> int \<Rightarrow> int \<Rightarrow> editor_state \<Rightarrow> editor_state" where
  "updateTabScrollPosition tabId line column =
     edit_tab tabId (\<lambda>t. t\<lparr>et_scrollPosition := Some (line, column)\<rparr>)"

definition updateTabCursorPosition :: "ident \<Rightarrow> int \<Rightarrow> int \<Rightarrow> editor_state \<Rightarrow> editor_state" where
  "updateTabCursorPosition tabId line column =
     edit_tab tabId (\<lambda>t. t\<lparr>et_cursorPosition := Some (line, column)\<rparr>)"

text \<open>The start of \<open>splice\<close>: negative counts from the end, everything is clamped.\<close>

definition splice_start :: "int \<Rightarrow> 'a list \<Rightarrow> nat" where
  "splice_start i xs =
     (if i < 0 then nat (max (int (length xs) + i) 0) else min (nat i) (length xs))"

definition reorderTabs :: "ident \<Rightarrow> int \<Rightarrow> int \<Rightarrow> editor_state \<Rightarrow> editor_state" where
  "reorderTabs paneId fromIndex toIndex state =
     (case map_of (es_panes state) paneId of
        None \<Rightarrow> state
      | Some pane \<Rightarrow>
          let i = splice_start fromIndex (sp_tabs pane);
              rest = take i (sp_tabs pane) @ drop (Suc i) (sp_tabs pane);
              j = splice_start toIndex rest
          in if length (sp_tabs pane) \<le> i \<or> sp_tabs pane ! i = [] then state
             else state\<lparr>es_panes := AList.update paneId
                    (pane\<lparr>sp_tabs := take j rest @ [sp_tabs pane ! i] @ drop j rest\<rparr>)
                    (es_panes state)\<rparr>)"

definition moveTabToPane :: "ident \<Rightarrow> ident \<Rightarrow> editor_state \<Rightarrow> editor_state" where
  "moveTabToPane tabId targetPaneId state =
     (case map_of (es_tabs state) tabId of
        None \<Rightarrow> state
      | Some tab \<Rightarrow>
          if et_paneId tab = targetPaneId then state
          else (case (map_of (es_panes state) (et_paneId tab), map_of (es_panes state) targetPaneId) of
             (Some sourcePane, Some targetPane) \<Rightarrow>
               let newSourceActiveTabId =
                     (if sp_activeTabId sourcePane = Some tabId
                      then (if length (sp_tabs sourcePane) > 1
                            then neighbour_tab (sp_tabs sourcePane) (indexOf tabId (sp_tabs sourcePane))
                            else None)
                      else sp_activeTabId sourcePane)
               in state\<lparr>es_tabs := AList.update tabId (tab\<lparr>et_paneId := targetPaneId\<rparr>) (es_tabs state),
                        es_panes := AList.update targetPaneId
                           (targetPane\<lparr>sp_tabs := sp_tabs targetPane @ [tabId],
                                       sp_activeTabId := Some tabId\<rparr>)
                           (AList.update (et_paneId tab)
                              (sourcePane\<lparr>sp_tabs := filter (\<lambda>i. i \<noteq> tabId) (sp_tabs sourcePane),
                                          sp_activeTabId := newSourceActiveTabId\<rparr>)
                              (es_panes state)),
                        es_activePaneId := Some targetPaneId\<rparr>
           | _ \<Rightarrow> state))"

definition reopenClosedTab :: "ident \<Rightarrow> editor_state \<Rightarrow> editor_state \<times> editor_tab option" where
  "reopenClosedTab newId state =
     (case es_recentlyClosed state of
        [] \<Rightarrow> (state, None)
      | tab # remaining \<Rightarrow>
          (fst (openTab newId
             (tab\<lparr>et_isDirty := False, et_isPreview := False,
                  et_paneId := str_or (es_activePaneId state) DEFAULT_PANE_ID,
                  et_scrollPosition := None, et_cursorPosition := None\<rparr>)
             (state\<lparr>es_recentlyClosed := remaining\<rparr>)), Some tab))"

definition extractTab :: "ident \<Rightarrow> editor_state \<Rightarrow> editor_state \<times> editor_tab option" where
  "extractTab tabId state =
     (case map_of (es_tabs state) tabId of
        None \<Rightarrow> (state, None)
      | Some tab \<Rightarrow> (closeTab tabId state, Some tab))"

section \<open>Split view\<close>

definition splitPane :: "ident \<Rightarrow> ident \<Rightarrow> split_direction \<Rightarrow> editor_state \<Rightarrow> editor_state \<times> ident" where
  "splitPane newPaneId paneId direction state =
     (case map_of (es_panes state) paneId of
        None \<Rightarrow> (state, paneId)
      | Some sourcePane \<Rightarrow>
          let newPane = \<lparr>sp_id = newPaneId, sp_tabs = [], sp_activeTabId = None, sp_size = 50\<rparr>;
              newLayout =
                (if es_splitLayout state = LSingle
                 then (if direction = SplitHorizontal then LHorizontal else LVertical)
                 else if es_splitLayout state = LHorizontal \<and> direction = SplitVertical \<or>
                         es_splitLayout state = LVertical \<and> direction = SplitHorizontal
                 then LQuad
                 else es_splitLayout state)
          in (state\<lparr>es_splitLayout := newLayout,
                    es_panes := AList.update newPaneId newPane
                       (AList.update paneId (sourcePane\<lparr>sp_size := 50\<rparr>) (es_panes state)),
                    es_paneOrder := es_paneOrder state @ [newPaneId],
                    es_activePaneId := Some newPaneId\<rparr>, newPaneId))"

definition closePane :: "ident \<Rightarrow> editor_state \<Rightarrow> editor_state" where
  "closePane paneId state =
     (if paneId = DEFAULT_PANE_ID \<and> length (own_keys (es_panes state)) = 1 then state
      else case map_of (es_panes state) paneId of
        None \<Rightarrow> state
      | Some pane \<Rightarrow>
          let remainingPanes = filter (\<lambda>i. i \<noteq> paneId) (own_keys (es_panes state));
              targetPaneId = str_or (js_at remainingPanes 0) DEFAULT_PANE_ID;
              s = fold closeTab (sp_tabs pane) state;
              panes = AList.delete paneId (es_panes s)
          in s\<lparr>es_panes := panes,
               es_paneOrder := filter (\<lambda>i. i \<noteq> paneId) (es_paneOrder s),
               es_activePaneId := (if es_activePaneId s = Some paneId then Some targetPaneId
                                   else es_activePaneId s),
               es_splitLayout :=
                 (if length (own_keys panes) = 1 then LSingle
                  else if length (own_keys panes) = 2
                  then (if es_splitLayout s = LQuad then LHorizontal else es_splitLayout s)
                  else es_splitLayout s)\<rparr>)"

definition setActivePane :: "ident \<Rightarrow> editor_state \<Rightarrow> editor_state" where
  "setActivePane paneId state = state\<lparr>es_activePaneId := Some paneId\<rparr>"

definition resizePane :: "ident \<Rightarrow> rat \<Rightarrow> editor_state \<Rightarrow> editor_state" where
  "resizePane paneId sz state =
     (case map_of (es_panes state) paneId of
        None \<Rightarrow> state
      | Some pane \<Rightarrow>
          state\<lparr>es_panes := AList.update paneId (pane\<lparr>sp_size := max 10 (min 90 sz)\<rparr>) (es_panes state)\<rparr>)"

definition setSplitLayout :: "split_layout \<Rightarrow> editor_state \<Rightarrow> editor_state" where
  "setSplitLayout layout state =
     (if layout = LSingle
      then let firstPaneId = str_or (js_at (es_paneOrder state) 0) DEFAULT_PANE_ID;
               allTabs = own_values (es_tabs state);
               firstPane = coalesce (map_of (es_panes state) firstPaneId) createDefaultPane
           in state\<lparr>es_splitLayout := LSingle,
                    es_tabs := from_entries (map (\<lambda>t. (et_id t, t\<lparr>et_paneId := firstPaneId\<rparr>)) allTabs),
                    es_panes := [(firstPaneId, firstPane\<lparr>sp_id := firstPaneId,
                                   sp_tabs := map et_id allTabs, sp_size := 100\<rparr>)],
                    es_paneOrder := [firstPaneId],
                    es_activePaneId := Some firstPaneId\<rparr>
      else state\<lparr>es_splitLayout := layout\<rparr>)"

section \<open>Settings and selectors\<close>

datatype settings_field =
    SeKeyMode string | SeFontSize int | SeTabSize int | SeWordWrap string | SeMinimap bool
  | SeLineNumbers string | SeRenderWhitespace string | SeCursorBlinking string
  | SeBracketPairColorization bool | SeFormatOnSave bool | SeFormatOnPaste bool
  | SeAutoSave string | SeAutoSaveDelay int | SeCompletionsEnabled bool
  | SeCompletionsDebounceMs int | SeAiActionModel "string option"

fun assign_setting :: "settings_field \<Rightarrow> editor_settings \<Rightarrow> editor_settings" where
  "assign_setting (SeKeyMode v) s = s\<lparr>se_keyMode := v\<rparr>"
| "assign_setting (SeFontSize v) s = s\<lparr>se_fontSize := v\<rparr>"
| "assign_setting (SeTabSize v) s = s\<lparr>se_tabSize := v\<rparr>"
| "assign_setting (SeWordWrap v) s = s\<lparr>se_wordWrap := v\<rparr>"
| "assign_setting (SeMinimap v) s = s\<lparr>se_minimap := v\<rparr>"
| "assign_setting (SeLineNumbers v) s = s\<lparr>se_lineNumbers := v\<rparr>"
| "assign_setting (SeRenderWhitespace v) s = s\<lparr>se_renderWhitespace := v\<rparr>"
| "assign_setting (SeCursorBlinking v) s = s\<lparr>se_cursorBlinking := v\<rparr>"
| "assign_setting (SeBracketPairColorization v) s = s\<lparr>se_bracketPairColorization := v\<rparr>"
| "assign_setting (SeFormatOnSave v) s = s\<lparr>se_formatOnSave := v\<rparr>"
| "assign_setting (SeFormatOnPaste v) s = s\<lparr>se_formatOnPaste := v\<rparr>"
| "assign_setting (SeAutoSave v) s = s\<lparr>se_autoSave := v\<rparr>"
| "assign_setting (SeAutoSaveDelay v) s = s\<lparr>se_autoSaveDelay := v\<rparr>"
| "assign_setting (SeCompletionsEnabled v) s = s\<lparr>se_completionsEnabled := v\<rparr>"
| "assign_setting (SeCompletionsDebounceMs v) s = s\<lparr>se_completionsDebounceMs := v\<rparr>"
| "assign_setting (SeAiActionModel v) s = s\<lparr>se_aiActionModel := v\<rparr>"

definition updateSettings :: "settings_field list \<Rightarrow> editor_state \<Rightarrow> editor_state" where
  "updateSettings newSettings state =
     state\<lparr>es_settings := map_option (fold assign_setting newSettings) (es_settings state)\<rparr>"

definition setKeyMode :: "string \<Rightarrow> editor_state \<Rightarrow> editor_state" where
  "setKeyMode mode state =
     state\<lparr>es_settings := map_option (\<lambda>s. s\<lparr>se_keyMode := mode\<rparr>) (es_settings state)\<rparr>"

definition getActiveTab :: "editor_state \<Rightarrow> editor_tab option" where
  "getActiveTab state =
     (case map_of (es_panes state) (str_or (es_activePaneId state) []) of
        None \<Rightarrow> None
      | Some activePane \<Rightarrow>
          if \<not> truthy (sp_activeTabId activePane) then None
          else map_of (es_tabs state) (the (sp_activeTabId activePane)))"

definition getTabsForPane :: "ident \<Rightarrow> editor_state \<Rightarrow> editor_tab list" where
  "getTabsForPane paneId state =
     (case map_of (es_panes state) paneId of
        None \<Rightarrow> [] | Some pane \<Rightarrow> tabs_of (es_tabs state) (sp_tabs pane))"

definition getTabByPath :: "string \<Rightarrow> editor_state \<Rightarrow> editor_tab option" where
  "getTabByPath path state = find (\<lambda>t. et_path t = path) (own_values (es_tabs state))"

definition hasUnsavedChanges :: "editor_state \<Rightarrow> bool" where
  "hasUnsavedChanges state = list_ex et_isDirty (own_values (es_tabs state))"

definition persisted_editor :: "editor_state \<Rightarrow> editor_settings option \<times> editor_tab list" where
  "persisted_editor state = (es_settings state, take 5 (es_recentlyClosed state))"

end
