(* ===== verification/Editor_Safety.thy ===== *)
theory Editor_Safety
  imports Editor "HOL-Library.Multiset"
begin

text \<open>
  The invariant of the editor store and its preservation by every action: tabs and panes are
  stored under their ids and refer to each other consistently, the orders list exactly the
  entries of the dictionaries, no path is open twice, the active pane exists.
\<close>

section \<open>The invariant\<close>

definition pane_ok :: "(ident \<rightharpoonup> editor_tab) \<Rightarrow> ident \<Rightarrow> split_pane \<Rightarrow> bool" where
  "pane_ok T k p \<longleftrightarrow> k \<noteq> [] \<and> sp_id p = k \<and> distinct (sp_tabs p) \<and>
     (\<forall>i \<in> set (sp_tabs p). \<exists>t. T i = Some t \<and> et_paneId t = k) \<and>
     (\<forall>i. sp_activeTabId p = Some i \<longrightarrow> i \<in> set (sp_tabs p))"

definition tab_ok :: "(ident \<rightharpoonup> split_pane) \<Rightarrow> ident \<Rightarrow> editor_tab \<Rightarrow> bool" where
  "tab_ok P i t \<longleftrightarrow> i \<noteq> [] \<and> et_id t = i \<and> (\<exists>p. P (et_paneId t) = Some p \<and> i \<in> set (sp_tabs p))"

definition layout_ok :: "(ident \<rightharpoonup> editor_tab) \<Rightarrow> (ident \<rightharpoonup> split_pane) \<Rightarrow> bool" where
  "layout_ok T P \<longleftrightarrow> (\<forall>i t. T i = Some t \<longrightarrow> tab_ok P i t) \<and> (\<forall>k p. P k = Some p \<longrightarrow> pane_ok T k p)"

definition paths_ok :: "(ident \<rightharpoonup> editor_tab) \<Rightarrow> bool" where
  "paths_ok T \<longleftrightarrow> (\<forall>i j t u. T i = Some t \<longrightarrow> T j = Some u \<longrightarrow> et_path t = et_path u \<longrightarrow> i = j)"

definition order_ok :: "ident list \<Rightarrow> 'v obj \<Rightarrow> bool" where
  "order_ok ks m \<longleftrightarrow> obj_ok m \<and> distinct ks \<and> set ks = dom (map_of m)"

definition editor_ok :: "editor_state \<Rightarrow> bool" where
  "editor_ok st \<longleftrightarrow>
     layout_ok (map_of (es_tabs st)) (map_of (es_panes st)) \<and> paths_ok (map_of (es_tabs st)) \<and>
     order_ok (es_tabOrder st) (es_tabs st) \<and> order_ok (es_paneOrder st) (es_panes st) \<and>
     (\<exists>k \<in> dom (map_of (es_panes st)). es_activePaneId st = Some k) \<and>
     length (es_recentlyClosed st) \<le> 10"

lemma layout_okD:
  assumes "layout_ok T P"
  shows "T i = Some t \<Longrightarrow> tab_ok P i t" "P k = Some p \<Longrightarrow> pane_ok T k p"
  using assms by (auto simp: layout_ok_def)

lemma pane_tab:
  assumes "layout_ok T P" "P k = Some p" "i \<in> set (sp_tabs p)"
  shows "\<exists>t. T i = Some t \<and> et_paneId t = k"
  using layout_okD(2) [OF assms(1,2)] assms(3) by (auto simp: pane_ok_def)

lemma paths_ok_sub: "paths_ok T \<Longrightarrow> (\<And>i t. T' i = Some t \<Longrightarrow> T i = Some t) \<Longrightarrow> paths_ok T'"
  unfolding paths_ok_def by blast

lemma paths_ok_edit:
  "paths_ok T \<Longrightarrow> T i = Some t \<Longrightarrow> et_path t' = et_path t \<Longrightarrow> paths_ok (T(i \<mapsto> t'))"
  unfolding paths_ok_def by auto

lemma order_ok_update_old: "order_ok ks m \<Longrightarrow> map_of m k \<noteq> None \<Longrightarrow> order_ok ks (AList.update k v m)"
  by (simp add: order_ok_def update_conv' insert_absorb domIff)

lemma order_ok_update_new: "order_ok ks m \<Longrightarrow> map_of m k = None \<Longrightarrow> order_ok (ks @ [k]) (AList.update k v m)"
  by (auto simp: order_ok_def)

section \<open>Changes of a consistent layout\<close>

lemma layout_remove:
  assumes ok: "layout_ok T P" and p: "P k = Some p" and D: "D \<subseteq> set (sp_tabs p)"
    and p': "sp_id p' = k" "sp_tabs p' = filter (\<lambda>i. i \<notin> D) (sp_tabs p)"
      "\<And>i. sp_activeTabId p' = Some i \<Longrightarrow> i \<in> set (sp_tabs p')"
  shows "layout_ok (T |` (- D)) (P(k \<mapsto> p'))"
  unfolding layout_ok_def
proof (intro conjI allI impI)
  fix i t assume "(T |` (- D)) i = Some t"
  then have i: "T i = Some t" "i \<notin> D" by (auto simp: restrict_map_def split: if_splits)
  from layout_okD(1) [OF ok i(1)] i(2) p p' show "tab_ok (P(k \<mapsto> p')) i t"
    by (auto simp: tab_ok_def)
next
  fix j q assume q: "(P(k \<mapsto> p')) j = Some q"
  have here: "et_paneId t = k" if "i \<in> D" "T i = Some t" for i t
    using pane_tab [OF ok p] that D by force
  show "pane_ok (T |` (- D)) j q"
  proof (cases "j = k")
    case True
    with q have "q = p'" by simp
    with True layout_okD(2) [OF ok p] p' show ?thesis by (auto simp: pane_ok_def restrict_map_def)
  next
    case False
    with q have q: "P j = Some q" by simp
    have "i \<notin> D" if "i \<in> set (sp_tabs q)" for i
      using pane_tab [OF ok q that] here False by blast
    with layout_okD(2) [OF ok q] show ?thesis by (auto simp: pane_ok_def restrict_map_def)
  qed
qed

lemma layout_add:
  assumes ok: "layout_ok T P" and p: "P k = Some p" and i: "T i = None" "i \<noteq> []"
    and t: "et_id t = i" "et_paneId t = k"
  shows "layout_ok (T(i \<mapsto> t)) (P(k \<mapsto> p\<lparr>sp_tabs := sp_tabs p @ [i], sp_activeTabId := Some i\<rparr>))"
  unfolding layout_ok_def
proof (intro conjI allI impI)
  fix j u assume u: "(T(i \<mapsto> t)) j = Some u"
  show "tab_ok (P(k \<mapsto> p\<lparr>sp_tabs := sp_tabs p @ [i], sp_activeTabId := Some i\<rparr>)) j u"
  proof (cases "j = i")
    case True
    with u i t show ?thesis by (simp add: tab_ok_def)
  next
    case False
    with u have "tab_ok P j u" using layout_okD(1) [OF ok, of j u] by simp
    with p show ?thesis by (auto simp: tab_ok_def)
  qed
next
  fix j q assume q: "(P(k \<mapsto> p\<lparr>sp_tabs := sp_tabs p @ [i], sp_activeTabId := Some i\<rparr>)) j = Some q"
  have new: "i \<notin> set (sp_tabs q)" if "P j = Some q" for j q
    using pane_tab [OF ok that] i(1) by force
  show "pane_ok (T(i \<mapsto> t)) j q"
  proof (cases "j = k")
    case True
    with q layout_okD(2) [OF ok p] new [OF p] t show ?thesis by (auto simp: pane_ok_def)
  next
    case False
    with q have q: "P j = Some q" by simp
    from layout_okD(2) [OF ok q] new [OF q] show ?thesis by (auto simp: pane_ok_def)
  qed
qed

lemma layout_edit_tab:
  assumes ok: "layout_ok T P" and t: "T i = Some t" "et_id t' = et_id t" "et_paneId t' = et_paneId t"
  shows "layout_ok (T(i \<mapsto> t')) P"
proof -
  have "tab_ok P i t'" using layout_okD(1) [OF ok t(1)] t(2,3) by (simp add: tab_ok_def)
  moreover have "pane_ok (T(i \<mapsto> t')) k p" if "P k = Some p" for k p
    using layout_okD(2) [OF ok that] t by (auto simp: pane_ok_def)
  ultimately show ?thesis
    using layout_okD(1) [OF ok] by (auto simp: layout_ok_def)
qed

lemma layout_edit_pane:
  assumes ok: "layout_ok T P" and p: "P k = Some p"
    and p': "sp_id p' = k" "distinct (sp_tabs p')" "set (sp_tabs p') = set (sp_tabs p)"
      "\<And>i. sp_activeTabId p' = Some i \<Longrightarrow> i \<in> set (sp_tabs p)"
  shows "layout_ok T (P(k \<mapsto> p'))"
proof -
  have "pane_ok T k p'" using layout_okD(2) [OF ok p] p' by (auto simp: pane_ok_def)
  moreover have "tab_ok (P(k \<mapsto> p')) i t" if "T i = Some t" for i t
    using layout_okD(1) [OF ok that] p p' by (auto simp: tab_ok_def)
  ultimately show ?thesis
    using layout_okD(2) [OF ok] by (auto simp: layout_ok_def)
qed

lemma layout_add_pane:
  assumes ok: "layout_ok T P" and k: "P k = None" "k \<noteq> []"
    and p: "sp_id p = k" "sp_tabs p = []" "sp_activeTabId p = None"
  shows "layout_ok T (P(k \<mapsto> p))"
  using ok k p by (fastforce simp: layout_ok_def tab_ok_def pane_ok_def)

lemma layout_drop_pane:
  assumes ok: "layout_ok T P" and p: "P k = Some p" "sp_tabs p = []"
  shows "layout_ok T (P(k := None))"
  using ok p by (fastforce simp: layout_ok_def tab_ok_def)


section \<open>States\<close>

lemma editor_okI:
  assumes "layout_ok (map_of (es_tabs st)) (map_of (es_panes st))" "paths_ok (map_of (es_tabs st))"
    and "order_ok (es_tabOrder st) (es_tabs st)" "order_ok (es_paneOrder st) (es_panes st)"
    and "es_activePaneId st = Some k" "map_of (es_panes st) k = Some p" "length (es_recentlyClosed st) \<le> 10"
  shows "editor_ok st"
  using assms by (auto simp: editor_ok_def simp del: map_of_eq_Some_iff)

lemma editor_okD:
  assumes "editor_ok st"
  shows "layout_ok (map_of (es_tabs st)) (map_of (es_panes st))" "paths_ok (map_of (es_tabs st))"
    "order_ok (es_tabOrder st) (es_tabs st)" "order_ok (es_paneOrder st) (es_panes st)"
    "\<exists>k p. es_activePaneId st = Some k \<and> map_of (es_panes st) k = Some p" "length (es_recentlyClosed st) \<le> 10"
    "obj_ok (es_tabs st)" "obj_ok (es_panes st)"
  using assms by (auto simp: editor_ok_def order_ok_def simp del: map_of_eq_Some_iff)

lemma editor_tab_pane:
  assumes ok: "editor_ok st" and t: "map_of (es_tabs st) i = Some t"
  obtains p where "map_of (es_panes st) (et_paneId t) = Some p" "i \<in> set (sp_tabs p)" "et_id t = i" "i \<noteq> []"
  using layout_okD(1) [OF editor_okD(1) [OF ok] t] by (auto simp: tab_ok_def)

lemma map_of_delete_tabs: "map_of (delete_tabs ids tabs) = map_of tabs |` (- set ids)"
proof (rule ext)
  fix i show "map_of (delete_tabs ids tabs) i = (map_of tabs |` (- set ids)) i"
    by (induction ids arbitrary: tabs) (auto simp: delete_tabs_def restrict_map_def)
qed

lemma obj_ok_delete_tabs: "obj_ok tabs \<Longrightarrow> obj_ok (delete_tabs ids tabs)"
  by (induction ids arbitrary: tabs) (auto simp: delete_tabs_def)

text \<open>Closing some tabs of one pane.\<close>

lemma editor_ok_remove:
  assumes ok: "editor_ok st" and p: "map_of (es_panes st) k = Some p" and ids: "set ids \<subseteq> set (sp_tabs p)"
    and p': "sp_id p' = k" "sp_tabs p' = filter (\<lambda>i. i \<notin> set ids) (sp_tabs p)"
      "\<And>i. sp_activeTabId p' = Some i \<Longrightarrow> i \<in> set (sp_tabs p')"
    and st': "es_tabs st' = delete_tabs ids (es_tabs st)"
      "es_tabOrder st' = filter (\<lambda>i. i \<notin> set ids) (es_tabOrder st)"
      "es_panes st' = AList.update k p' (es_panes st)" "es_paneOrder st' = es_paneOrder st"
      "es_activePaneId st' = es_activePaneId st" "length (es_recentlyClosed st') \<le> 10"
  shows "editor_ok st'"
proof -
  note d = editor_okD [OF ok]
  obtain a q where a: "es_activePaneId st = Some a" "map_of (es_panes st) a = Some q" using d(5) by blast
  have "layout_ok (map_of (es_tabs st')) (map_of (es_panes st'))"
    using layout_remove [OF d(1) p ids p'] by (simp add: st' map_of_delete_tabs update_conv')
  moreover have "paths_ok (map_of (es_tabs st'))"
    using d(2) by (rule paths_ok_sub) (simp add: st' map_of_delete_tabs restrict_map_def split: if_splits)
  moreover have "order_ok (es_tabOrder st') (es_tabs st')"
    using d(3) by (auto simp: st' order_ok_def map_of_delete_tabs obj_ok_delete_tabs simp del: map_of_eq_Some_iff)
  moreover have "order_ok (es_paneOrder st') (es_panes st')"
    unfolding st' using d(4) p by (intro order_ok_update_old) simp_all
  moreover have "map_of (es_panes st') a = Some (if a = k then p' else q)"
    using a by (simp add: st')
  ultimately show ?thesis
    using a(1) st'(5,6) by (intro editor_okI) simp_all
qed

lemma editor_ok_edit_tab:
  assumes ok: "editor_ok st" and f: "\<And>t. et_id (f t) = et_id t" "\<And>t. et_paneId (f t) = et_paneId t" "\<And>t. et_path (f t) = et_path t"
  shows "editor_ok (edit_tab i f st)"
proof (cases "map_of (es_tabs st) i")
  case None
  with ok show ?thesis by (simp add: edit_tab_def)
next
  case (Some t)
  note d = editor_okD [OF ok]
  obtain a q where a: "es_activePaneId st = Some a" "map_of (es_panes st) a = Some q" using d(5) by blast
  have "order_ok (es_tabOrder st) (AList.update i (f t) (es_tabs st))"
    using d(3) Some by (intro order_ok_update_old) simp_all
  then show ?thesis
    using a d Some by (intro editor_okI)
      (simp_all add: edit_tab_def update_conv' layout_edit_tab [OF d(1) Some f(1,2)] paths_ok_edit [OF d(2) Some f(3)])
qed

text \<open>Editing a pane without changing which tabs it holds, and possibly focusing it.\<close>

lemma editor_ok_edit_pane:
  assumes ok: "editor_ok st" and p: "map_of (es_panes st) k = Some p"
    and p': "sp_id p' = k" "distinct (sp_tabs p')" "set (sp_tabs p') = set (sp_tabs p)"
      "\<And>i. sp_activeTabId p' = Some i \<Longrightarrow> i \<in> set (sp_tabs p)"
    and st': "es_tabs st' = es_tabs st" "es_tabOrder st' = es_tabOrder st"
      "es_panes st' = AList.update k p' (es_panes st)" "es_paneOrder st' = es_paneOrder st"
      "es_activePaneId st' = es_activePaneId st \<or> es_activePaneId st' = Some k"
      "es_recentlyClosed st' = es_recentlyClosed st"
  shows "editor_ok st'"
proof -
  note d = editor_okD [OF ok]
  obtain a q where a: "es_activePaneId st' = Some a" "map_of (es_panes st') a = Some q"
    using d(5) st'(3,5) p by (metis map_of_obj_update)
  have "order_ok (es_paneOrder st') (es_panes st')"
    unfolding st' using d(4) p by (intro order_ok_update_old) simp_all
  moreover have "layout_ok (map_of (es_tabs st')) (map_of (es_panes st'))"
    using layout_edit_pane [OF d(1) p p'] by (simp add: st' update_conv')
  ultimately show ?thesis
    using a d st'(1,2,6) by (intro editor_okI) simp_all
qed

section \<open>Closing tabs\<close>

lemma js_at_SomeD: "js_at xs i = Some x \<Longrightarrow> 0 \<le> i \<and> nat i < length xs \<and> xs ! nat i = x"
  by (auto simp: js_at_def split: if_splits)

lemma or_else_SomeD: "or_else a b = Some x \<Longrightarrow> a = Some x \<or> b = Some x"
  by (auto simp: or_else_def split: if_splits)

lemma neighbour_tab_mem:
  assumes d: "distinct ids" and i: "i \<in> set ids" and n: "neighbour_tab ids (indexOf i ids) = Some j"
  shows "j \<in> set ids \<and> j \<noteq> i"
proof -
  from n have "js_at ids (indexOf i ids + 1) = Some j \<or> js_at ids (indexOf i ids - 1) = Some j"
    by (auto simp: neighbour_tab_def dest!: or_else_SomeD)
  then obtain k where k: "k = indexOf i ids + 1 \<or> k = indexOf i ids - 1" "0 \<le> k" "nat k < length ids" "ids ! nat k = j"
    by (auto dest!: js_at_SomeD)
  from indexOf_mem [OF i] have m: "0 \<le> indexOf i ids" "nat (indexOf i ids) < length ids" "ids ! nat (indexOf i ids) = i"
    by auto
  from k m(1) have "nat k \<noteq> nat (indexOf i ids)" by linarith
  with d k(3,4) m(2,3) show ?thesis by (metis nth_eq_iff_index_eq nth_mem)
qed

lemma next_active_mem:
  assumes p: "pane_ok T k p" and i: "i \<in> set (sp_tabs p)" and n: "next_active i p = Some j"
  shows "j \<in> set (sp_tabs p) \<and> j \<noteq> i"
  using assms neighbour_tab_mem [of "sp_tabs p" i j]
  by (auto simp: next_active_def pane_ok_def split: if_splits)

lemma length_take10: "length (take 10 xs) \<le> 10"
  by simp

lemma filter_take_distinct:
  assumes "distinct xs"
  shows "take k xs = filter (\<lambda>i. i \<notin> set (drop k xs)) xs"
proof -
  have d: "distinct (take k xs @ drop k xs)" using assms by simp
  have "filter (\<lambda>i. i \<notin> set (drop k xs)) (take k xs @ drop k xs) = take k xs"
    using d by (subst filter_append) (auto simp: filter_id_conv filter_empty_conv simp del: append_take_drop_id)
  then show ?thesis by simp
qed

lemma filter_others:
  assumes "distinct xs" "i \<in> set xs"
  shows "filter (\<lambda>j. j \<notin> set (filter (\<lambda>j. j \<noteq> i) xs)) xs = [i]"
proof -
  have "filter (\<lambda>j. j \<notin> set (filter (\<lambda>j. j \<noteq> i) xs)) xs = filter (\<lambda>j. j = i) xs"
    by (rule filter_cong) auto
  also have "\<dots> = [i]"
    using assms by (induction xs) (auto simp: filter_empty_conv)
  finally show ?thesis .
qed

lemma closeTab_ok:
  assumes ok: "editor_ok st"
  shows "editor_ok (closeTab i st)"
proof (cases "map_of (es_tabs st) i")
  case None
  with ok show ?thesis by (simp add: closeTab_def)
next
  case (Some t)
  then obtain p where p: "map_of (es_panes st) (et_paneId t) = Some p" "i \<in> set (sp_tabs p)"
    by (rule editor_tab_pane [OF ok])
  note pok = layout_okD(2) [OF editor_okD(1) [OF ok] p(1)]
  show ?thesis
    by (rule editor_ok_remove [OF ok p(1), where ids = "[i]" and p' = "p\<lparr>sp_tabs := filter (\<lambda>j. j \<noteq> i) (sp_tabs p),
        sp_activeTabId := next_active i p\<rparr>"])
      (use p pok next_active_mem [OF pok p(2)] Some in
        \<open>simp_all add: closeTab_def delete_tabs_def pane_ok_def del: map_of_eq_Some_iff\<close>)
qed

lemma closeAllTabs_ok:
  assumes ok: "editor_ok st"
  shows "editor_ok (closeAllTabs k st)"
proof (cases "\<exists>j p. or_else k (es_activePaneId st) = Some j \<and> j \<noteq> [] \<and> map_of (es_panes st) j = Some p")
  case False
  then have "closeAllTabs k st = st"
    by (auto simp: closeAllTabs_def truthy_def Let_def split: option.splits)
  with ok show ?thesis by simp
next
  case True
  then obtain j p where j: "or_else k (es_activePaneId st) = Some j" "j \<noteq> []" and p: "map_of (es_panes st) j = Some p"
    by blast
  note pok = layout_okD(2) [OF editor_okD(1) [OF ok] p]
  show ?thesis
    by (rule editor_ok_remove [OF ok p, where ids = "sp_tabs p" and p' = "p\<lparr>sp_tabs := [], sp_activeTabId := None\<rparr>"])
      (use j p pok in \<open>simp_all add: closeAllTabs_def pane_ok_def Let_def filter_empty_conv del: map_of_eq_Some_iff\<close>)
qed

lemma closeOtherTabs_ok:
  assumes ok: "editor_ok st"
  shows "editor_ok (closeOtherTabs i st)"
proof (cases "map_of (es_tabs st) i")
  case None
  with ok show ?thesis by (simp add: closeOtherTabs_def)
next
  case (Some t)
  then obtain p where p: "map_of (es_panes st) (et_paneId t) = Some p" "i \<in> set (sp_tabs p)"
    by (rule editor_tab_pane [OF ok])
  note pok = layout_okD(2) [OF editor_okD(1) [OF ok] p(1)]
  have one: "filter (\<lambda>j. j \<notin> set (filter (\<lambda>j. j \<noteq> i) (sp_tabs p))) (sp_tabs p) = [i]"
    using pok p(2) by (intro filter_others) (simp_all add: pane_ok_def)
  have other: "filter (\<lambda>j. j = i \<or> j \<notin> set (filter (\<lambda>j. j \<noteq> i) (sp_tabs p))) ks =
      filter (\<lambda>j. j \<notin> set (filter (\<lambda>j. j \<noteq> i) (sp_tabs p))) ks" for ks
    by (rule filter_cong) auto
  show ?thesis
    by (rule editor_ok_remove [OF ok p(1), where ids = "filter (\<lambda>j. j \<noteq> i) (sp_tabs p)"
        and p' = "p\<lparr>sp_tabs := [i], sp_activeTabId := Some i\<rparr>"])
      (use p pok Some one other in \<open>auto simp: closeOtherTabs_def pane_ok_def Let_def simp del: map_of_eq_Some_iff set_filter cong: filter_cong\<close>)
qed

lemma closeTabsToRight_ok:
  assumes ok: "editor_ok st"
  shows "editor_ok (closeTabsToRight i st)"
proof (cases "map_of (es_tabs st) i")
  case None
  with ok show ?thesis by (simp add: closeTabsToRight_def)
next
  case (Some t)
  then obtain p where p: "map_of (es_panes st) (et_paneId t) = Some p" "i \<in> set (sp_tabs p)"
    by (rule editor_tab_pane [OF ok])
  note pok = layout_okD(2) [OF editor_okD(1) [OF ok] p(1)]
  define k where "k = nat (indexOf i (sp_tabs p) + 1)"
  show ?thesis
  proof (cases "drop k (sp_tabs p) = []")
    case True
    with ok p Some show ?thesis by (simp add: closeTabsToRight_def k_def Let_def)
  next
    case False
    have d: "distinct (sp_tabs p)" using pok by (simp add: pane_ok_def)
    have "nat (indexOf i (sp_tabs p)) < k" using indexOf_mem [OF p(2)] by (simp add: k_def)
    then have i: "i \<in> set (take k (sp_tabs p))"
      using indexOf_mem [OF p(2)] by (auto simp: in_set_conv_nth intro!: exI [of _ "nat (indexOf i (sp_tabs p))"])
    have act: "j \<in> set (take k (sp_tabs p))"
      if "(if str_or (sp_activeTabId p) [] \<in> set (drop k (sp_tabs p)) then Some i else sp_activeTabId p) = Some j" for j
    proof (cases "str_or (sp_activeTabId p) [] \<in> set (drop k (sp_tabs p))")
      case True with that i show ?thesis by simp
    next
      case False
      with that have j: "sp_activeTabId p = Some j" by simp
      with pok have "j \<in> set (take k (sp_tabs p) @ drop k (sp_tabs p))" by (simp add: pane_ok_def)
      moreover have "j \<noteq> []"
        using j pok layout_okD(1) [OF editor_okD(1) [OF ok]] by (fastforce simp: pane_ok_def tab_ok_def)
      ultimately show ?thesis using False j by (auto simp: str_or_def simp del: append_take_drop_id)
    qed
    show ?thesis
      by (rule editor_ok_remove [OF ok p(1), where ids = "drop k (sp_tabs p)" and p' = "p\<lparr>sp_tabs := take k (sp_tabs p),
            sp_activeTabId := (if str_or (sp_activeTabId p) [] \<in> set (drop k (sp_tabs p)) then Some i else sp_activeTabId p)\<rparr>"])
        (use p pok Some False act filter_take_distinct [OF d, symmetric] in
          \<open>simp_all add: closeTabsToRight_def k_def [symmetric] Let_def pane_ok_def set_drop_subset del: map_of_eq_Some_iff\<close>)
  qed
qed


section \<open>Focusing, editing and reordering\<close>

lemma setActiveTab_ok:
  assumes ok: "editor_ok st"
  shows "editor_ok (setActiveTab i st)"
proof (cases "map_of (es_tabs st) i")
  case None
  with ok show ?thesis by (simp add: setActiveTab_def)
next
  case (Some t)
  then obtain p where p: "map_of (es_panes st) (et_paneId t) = Some p" "i \<in> set (sp_tabs p)"
    by (rule editor_tab_pane [OF ok])
  note pok = layout_okD(2) [OF editor_okD(1) [OF ok] p(1)]
  show ?thesis
    by (rule editor_ok_edit_pane [OF ok p(1), where p' = "p\<lparr>sp_activeTabId := Some i\<rparr>"])
      (use p pok Some in \<open>simp_all add: setActiveTab_def pane_ok_def del: map_of_eq_Some_iff\<close>)
qed

lemma take_drop_insert:
  assumes i: "i < length xs"
  defines "rest \<equiv> take i xs @ drop (Suc i) xs"
  shows "mset (take j rest @ [xs ! i] @ drop j rest) = mset xs"
proof -
  have "mset (take j rest @ [xs ! i] @ drop j rest) = mset (take j rest @ drop j rest) + {#xs ! i#}"
    by (simp only: mset_append) simp
  also have "\<dots> = mset rest + {#xs ! i#}"
    by (simp only: append_take_drop_id)
  also have "\<dots> = mset (take i xs @ xs ! i # drop (Suc i) xs)"
    by (simp add: rest_def)
  also have "\<dots> = mset xs"
    using i by (simp only: id_take_nth_drop [symmetric])
  finally show ?thesis .
qed

lemma reorderTabs_ok:
  assumes ok: "editor_ok st"
  shows "editor_ok (reorderTabs k from to st)"
proof (cases "map_of (es_panes st) k")
  case None
  with ok show ?thesis by (simp add: reorderTabs_def)
next
  case (Some p)
  note pok = layout_okD(2) [OF editor_okD(1) [OF ok] Some]
  define i where "i = splice_start from (sp_tabs p)"
  define rest where "rest = take i (sp_tabs p) @ drop (Suc i) (sp_tabs p)"
  define j where "j = splice_start to rest"
  define xs where "xs = take j rest @ [sp_tabs p ! i] @ drop j rest"
  have def: "reorderTabs k from to st = (if length (sp_tabs p) \<le> i \<or> sp_tabs p ! i = [] then st
      else st\<lparr>es_panes := AList.update k (p\<lparr>sp_tabs := xs\<rparr>) (es_panes st)\<rparr>)"
    using Some by (simp add: reorderTabs_def Let_def i_def [symmetric] rest_def [symmetric] j_def [symmetric] xs_def)
  show ?thesis
  proof (cases "length (sp_tabs p) \<le> i \<or> sp_tabs p ! i = []")
    case True
    with ok def show ?thesis by simp
  next
    case False
    then have "mset xs = mset (sp_tabs p)"
      unfolding xs_def rest_def by (intro take_drop_insert) simp
    then have perm: "set xs = set (sp_tabs p)" "distinct xs = distinct (sp_tabs p)"
      by (auto dest: mset_eq_setD mset_eq_imp_distinct_iff)
    show ?thesis
      by (rule editor_ok_edit_pane [OF ok Some, where p' = "p\<lparr>sp_tabs := xs\<rparr>"])
        (use pok perm False def in \<open>simp_all add: pane_ok_def\<close>)
  qed
qed

lemma resizePane_ok:
  assumes ok: "editor_ok st"
  shows "editor_ok (resizePane k z st)"
proof (cases "map_of (es_panes st) k")
  case None
  with ok show ?thesis by (simp add: resizePane_def)
next
  case (Some p)
  note pok = layout_okD(2) [OF editor_okD(1) [OF ok] Some]
  show ?thesis
    by (rule editor_ok_edit_pane [OF ok Some, where p' = "p\<lparr>sp_size := max 10 (min 90 z)\<rparr>"])
      (use pok Some in \<open>simp_all add: resizePane_def pane_ok_def del: map_of_eq_Some_iff\<close>)
qed

section \<open>Opening tabs\<close>

lemma closeTab_frame [simp]:
  "dom (map_of (es_panes (closeTab i st))) = dom (map_of (es_panes st))"
  "es_activePaneId (closeTab i st) = es_activePaneId st"
  "es_paneOrder (closeTab i st) = es_paneOrder st"
  "es_splitLayout (closeTab i st) = es_splitLayout st"
  by (auto simp: closeTab_def update_conv' simp del: map_of_eq_Some_iff split: option.splits)

lemma closeTab_tabs: "map_of (es_tabs (closeTab i st)) j = Some t \<Longrightarrow> map_of (es_tabs st) j = Some t"
  by (auto simp: closeTab_def simp del: map_of_eq_Some_iff split: option.splits if_splits)

lemma close_preview_cases: "close_preview k st = st \<or> (\<exists>i. close_preview k st = closeTab i st)"
  by (auto simp: close_preview_def split: option.splits)

lemma insert_tab_ok:
  assumes ok: "editor_ok st" and k: "k \<in> dom (map_of (es_panes st))"
    and i: "map_of (es_tabs st) i = None" "i \<noteq> []"
    and new: "\<And>j t. map_of (es_tabs st) j = Some t \<Longrightarrow> et_path t \<noteq> et_path d"
  shows "editor_ok (insert_tab i k d st)"
proof -
  note o = editor_okD [OF ok]
  obtain p where p: "map_of (es_panes st) k = Some p" using k by blast
  define t where "t = d\<lparr>et_id := i, et_name := getFileName (et_path d), et_paneId := k\<rparr>"
  define p' where "p' = p\<lparr>sp_tabs := sp_tabs p @ [i], sp_activeTabId := Some i\<rparr>"
  have st': "insert_tab i k d st = st\<lparr>es_tabs := AList.update i t (es_tabs st), es_tabOrder := es_tabOrder st @ [i],
      es_panes := AList.update k p' (es_panes st), es_activePaneId := Some k\<rparr>"
    using p by (simp add: insert_tab_def Let_def t_def p'_def del: map_of_eq_Some_iff)
  have t: "et_id t = i" "et_paneId t = k" "et_path t = et_path d" by (simp_all add: t_def)
  have "layout_ok ((map_of (es_tabs st))(i \<mapsto> t)) ((map_of (es_panes st))(k \<mapsto> p'))"
    unfolding p'_def by (rule layout_add [OF o(1) p i t(1,2)])
  moreover have "paths_ok ((map_of (es_tabs st))(i \<mapsto> t))"
    using o(2) new t(3) unfolding paths_ok_def by (metis fun_upd_apply option.inject)
  moreover have "order_ok (es_tabOrder st @ [i]) (AList.update i t (es_tabs st))"
    using o(3) i(1) by (rule order_ok_update_new)
  moreover have "order_ok (es_paneOrder st) (AList.update k p' (es_panes st))"
    using o(4) p by (intro order_ok_update_old) simp_all
  ultimately show ?thesis
    unfolding st' using o(6) by (intro editor_okI [where k = k and p = p']) (simp_all add: update_conv')
qed

lemma openTab_ok:
  assumes ok: "editor_ok st" and k: "target_pane d st \<in> dom (map_of (es_panes st))"
    and i: "map_of (es_tabs st) i = None" "i \<noteq> []"
  shows "editor_ok (fst (openTab i d st))"
proof (cases "find (\<lambda>t. et_path t = et_path d) (own_values (es_tabs st))")
  case (Some ex)
  have "et_path ex = et_path d" "ex \<in> set (own_values (es_tabs st))"
    using Some by (auto simp: find_Some_iff)
  then obtain j where j: "map_of (es_tabs st) j = Some ex"
    using in_own_values [OF editor_okD(7) [OF ok]] by blast
  have "et_id ex = j" using editor_tab_pane [OF ok j] by blast
  then have "fst (openTab i d st) = setActiveTab j (if et_isPreview ex \<and> \<not> et_isPreview d
      then edit_tab j (\<lambda>t. t\<lparr>et_isPreview := False\<rparr>) st else st)"
    using Some j by (simp add: openTab_def Let_def edit_tab_def del: map_of_eq_Some_iff)
  moreover have "editor_ok (edit_tab j (\<lambda>t. t\<lparr>et_isPreview := False\<rparr>) st)"
    by (rule editor_ok_edit_tab [OF ok]) simp_all
  ultimately show ?thesis using ok setActiveTab_ok by simp
next
  case None
  define st1 where "st1 = (if et_isPreview d then close_preview (target_pane d st) st else st)"
  have "st1 = st \<or> (\<exists>j. st1 = closeTab j st)"
    unfolding st1_def using close_preview_cases by simp
  then have st1: "editor_ok st1" "dom (map_of (es_panes st1)) = dom (map_of (es_panes st))"
    and sub: "\<And>j t. map_of (es_tabs st1) j = Some t \<Longrightarrow> map_of (es_tabs st) j = Some t"
    using ok closeTab_ok closeTab_frame(1) closeTab_tabs by (metis, metis, metis)
  have "editor_ok (insert_tab i (target_pane d st) d st1)"
  proof (rule insert_tab_ok [OF st1(1) _ _ i(2)])
    show "target_pane d st \<in> dom (map_of (es_panes st1))" using k st1(2) by simp
    show "map_of (es_tabs st1) i = None" using sub i(1) by (metis option.exhaust)
    show "et_path t \<noteq> et_path d" if "map_of (es_tabs st1) j = Some t" for j t
      using None sub [OF that] in_own_values [OF editor_okD(7) [OF ok], of t] by (auto simp: find_None_iff)
  qed
  then show ?thesis
    using None by (simp add: openTab_def Let_def st1_def)
qed

section \<open>Moving, splitting and merging\<close>

lemma moveTabToPane_ok:
  assumes ok: "editor_ok st"
  shows "editor_ok (moveTabToPane i k st)"
proof (cases "\<exists>t p q. map_of (es_tabs st) i = Some t \<and> et_paneId t \<noteq> k \<and>
    map_of (es_panes st) (et_paneId t) = Some p \<and> map_of (es_panes st) k = Some q")
  case False
  then have "moveTabToPane i k st = st"
    by (auto simp: moveTabToPane_def simp del: map_of_eq_Some_iff split: option.splits)
  with ok show ?thesis by simp
next
  case True
  then obtain t p q where t: "map_of (es_tabs st) i = Some t" "et_paneId t \<noteq> k"
    and p: "map_of (es_panes st) (et_paneId t) = Some p" and q: "map_of (es_panes st) k = Some q" by blast
  note o = editor_okD [OF ok]
  note pok = layout_okD(2) [OF o(1) p]
  have i: "i \<in> set (sp_tabs p)" "et_id t = i" "i \<noteq> []"
    using editor_tab_pane [OF ok t(1)] p by (metis option.inject)+
  define a where "a = (if sp_activeTabId p = Some i
      then (if length (sp_tabs p) > 1 then neighbour_tab (sp_tabs p) (indexOf i (sp_tabs p)) else None)
      else sp_activeTabId p)"
  define p' where "p' = p\<lparr>sp_tabs := filter (\<lambda>j. j \<noteq> i) (sp_tabs p), sp_activeTabId := a\<rparr>"
  define q' where "q' = q\<lparr>sp_tabs := sp_tabs q @ [i], sp_activeTabId := Some i\<rparr>"
  define t' where "t' = t\<lparr>et_paneId := k\<rparr>"
  have st': "moveTabToPane i k st = st\<lparr>es_tabs := AList.update i t' (es_tabs st),
      es_panes := AList.update k q' (AList.update (et_paneId t) p' (es_panes st)), es_activePaneId := Some k\<rparr>"
    using t p q by (simp add: moveTabToPane_def Let_def a_def p'_def q'_def t'_def del: map_of_eq_Some_iff)
  have a: "j \<in> set (sp_tabs p) \<and> j \<noteq> i" if "a = Some j" for j
    using that neighbour_tab_mem [of "sp_tabs p" i j] i(1) pok by (auto simp: a_def pane_ok_def split: if_splits)
  let ?T = "map_of (es_tabs st)" and ?P = "map_of (es_panes st)"
  have "layout_ok (?T |` (- {i})) (?P(et_paneId t \<mapsto> p'))"
    by (rule layout_remove [OF o(1) p]) (use i pok a in \<open>simp_all add: p'_def pane_ok_def\<close>)
  moreover have "(?P(et_paneId t \<mapsto> p')) k = Some q" using q t(2) by simp
  ultimately have "layout_ok ((?T |` (- {i}))(i \<mapsto> t')) ((?P(et_paneId t \<mapsto> p'))(k \<mapsto> q'))"
    unfolding q'_def by (rule layout_add) (simp_all add: t'_def i)
  moreover have "(?T |` (- {i}))(i \<mapsto> t') = ?T(i \<mapsto> t')"
    by (auto simp: restrict_map_def)
  moreover have "order_ok (es_paneOrder st) (AList.update k q' (AList.update (et_paneId t) p' (es_panes st)))"
    using o(4) p q by (intro order_ok_update_old) auto
  moreover have "order_ok (es_tabOrder st) (AList.update i t' (es_tabs st))"
    using o(3) t by (intro order_ok_update_old) auto
  moreover have "paths_ok (?T(i \<mapsto> t'))"
    by (rule paths_ok_edit [OF o(2) t(1)]) (simp add: t'_def)
  ultimately show ?thesis
    unfolding st' using o(6) by (intro editor_okI [where k = k and p = q']) (simp_all add: update_conv')
qed

lemma splitPane_ok:
  assumes ok: "editor_ok st" and new: "map_of (es_panes st) k' = None" "k' \<noteq> []"
  shows "editor_ok (fst (splitPane k' k d st))"
proof (cases "map_of (es_panes st) k")
  case None
  with ok show ?thesis by (simp add: splitPane_def)
next
  case (Some p)
  note o = editor_okD [OF ok]
  note pok = layout_okD(2) [OF o(1) Some]
  define np where "np = \<lparr>sp_id = k', sp_tabs = [], sp_activeTabId = None, sp_size = 50\<rparr>"
  have "k \<noteq> k'" using Some new by auto
  have "layout_ok (map_of (es_tabs st)) ((map_of (es_panes st))(k \<mapsto> p\<lparr>sp_size := 50\<rparr>))"
    by (rule layout_edit_pane [OF o(1) Some]) (use pok in \<open>simp_all add: pane_ok_def\<close>)
  then have "layout_ok (map_of (es_tabs st)) ((map_of (es_panes st))(k \<mapsto> p\<lparr>sp_size := 50\<rparr>, k' \<mapsto> np))"
    by (rule layout_add_pane) (use new \<open>k \<noteq> k'\<close> in \<open>simp_all add: np_def\<close>)
  moreover have "order_ok (es_paneOrder st @ [k']) (AList.update k' np (AList.update k (p\<lparr>sp_size := 50\<rparr>) (es_panes st)))"
    using o(4) Some new \<open>k \<noteq> k'\<close> by (intro order_ok_update_new order_ok_update_old) auto
  ultimately show ?thesis
    using Some o by (intro editor_okI [where k = k' and p = np])
      (simp_all add: splitPane_def Let_def np_def [symmetric] update_conv' del: map_of_eq_Some_iff)
qed

lemma closeTabs_effect:
  assumes "editor_ok st" "map_of (es_panes st) k = Some p" "set ids \<subseteq> set (sp_tabs p)" "distinct ids"
  shows "editor_ok (fold closeTab ids st) \<and>
    (\<exists>p'. map_of (es_panes (fold closeTab ids st)) k = Some p' \<and> sp_tabs p' = filter (\<lambda>i. i \<notin> set ids) (sp_tabs p))"
  using assms
proof (induction ids arbitrary: st p)
  case (Cons i ids)
  obtain t where t: "map_of (es_tabs st) i = Some t" "et_paneId t = k"
    using pane_tab [OF editor_okD(1) [OF Cons.prems(1)] Cons.prems(2), of i] Cons.prems(3) by auto
  then obtain p1 where p1: "map_of (es_panes (closeTab i st)) k = Some p1" "sp_tabs p1 = filter (\<lambda>j. j \<noteq> i) (sp_tabs p)"
    using Cons.prems(2) by (simp add: closeTab_def del: map_of_eq_Some_iff)
  have "set ids \<subseteq> set (sp_tabs p1)" using Cons.prems(3,4) p1(2) by auto
  from Cons.IH [OF closeTab_ok [OF Cons.prems(1)] p1(1) this] Cons.prems(4) p1(2)
  show ?case by (simp add: conj_commute)
qed simp

lemma fold_closeTab_frame:
  "dom (map_of (es_panes (fold closeTab ids st))) = dom (map_of (es_panes st)) \<and>
   es_activePaneId (fold closeTab ids st) = es_activePaneId st \<and>
   es_paneOrder (fold closeTab ids st) = es_paneOrder st"
  by (induction ids arbitrary: st) auto

lemma closePane_ok:
  assumes ok: "editor_ok st" and more: "\<exists>j \<in> dom (map_of (es_panes st)). j \<noteq> k"
  shows "editor_ok (closePane k st)"
proof (cases "map_of (es_panes st) k")
  case None
  with ok show ?thesis by (simp add: closePane_def)
next
  case (Some p)
  note o = editor_okD [OF ok]
  define s where "s = fold closeTab (sp_tabs p) st"
  define r where "r = filter (\<lambda>i. i \<noteq> k) (own_keys (es_panes st))"
  have "distinct (sp_tabs p)" using layout_okD(2) [OF o(1) Some] by (simp add: pane_ok_def)
  with closeTabs_effect [OF ok Some subset_refl] obtain p' where s: "editor_ok s"
      and p': "map_of (es_panes s) k = Some p'" "sp_tabs p' = []"
    by (auto simp: s_def filter_empty_conv simp del: map_of_eq_Some_iff)
  have frame: "dom (map_of (es_panes s)) = dom (map_of (es_panes st))" "es_activePaneId s = es_activePaneId st"
    "es_paneOrder s = es_paneOrder st"
    using fold_closeTab_frame [of "sp_tabs p" st] by (simp_all add: s_def)
  have set_r: "set r = dom (map_of (es_panes st)) - {k}" by (auto simp: r_def)
  then have "r \<noteq> []" using more by force
  then have hd_r: "js_at r 0 = Some (hd r)" "hd r \<in> dom (map_of (es_panes st)) - {k}"
    using set_r hd_in_set [of r] by (simp_all add: js_at_def hd_conv_nth)
  have "hd r \<noteq> []"
    using hd_r(2) layout_okD(2) [OF o(1)] by (auto simp: pane_ok_def simp del: map_of_eq_Some_iff)
  obtain a where a: "es_activePaneId st = Some a" "a \<in> dom (map_of (es_panes st))" using o(5) by blast
  define a' where "a' = (if a = k then hd r else a)"
  have eq: "es_tabs (closePane k st) = es_tabs s" "es_tabOrder (closePane k st) = es_tabOrder s"
    "es_panes (closePane k st) = AList.delete k (es_panes s)"
    "es_paneOrder (closePane k st) = filter (\<lambda>i. i \<noteq> k) (es_paneOrder s)"
    "es_activePaneId (closePane k st) = Some a'" "es_recentlyClosed (closePane k st) = es_recentlyClosed s"
    if "\<not> (k = DEFAULT_PANE_ID \<and> length (own_keys (es_panes st)) = 1)"
    unfolding closePane_def if_not_P [OF that]
    using Some hd_r(1) \<open>hd r \<noteq> []\<close> a(1) frame(2)
    by (simp_all add: Let_def s_def [symmetric] r_def [symmetric] a'_def str_or_def del: map_of_eq_Some_iff)
  show ?thesis
  proof (cases "k = DEFAULT_PANE_ID \<and> length (own_keys (es_panes st)) = 1")
    case True
    then have "closePane k st = st" by (simp add: closePane_def)
    with ok show ?thesis by simp
  next
    case False
    note e = eq [OF False]
    note os = editor_okD [OF s]
    have "a' \<in> dom (map_of (es_panes s)) - {k}"
      using a(2) hd_r(2) frame(1) by (auto simp: a'_def)
    then obtain q where "map_of (es_panes (closePane k st)) a' = Some q"
      by (auto simp: e(3) simp del: map_of_eq_Some_iff)
    moreover have "layout_ok (map_of (es_tabs s)) ((map_of (es_panes s))(k := None))"
      by (rule layout_drop_pane [OF os(1) p'])
    moreover have "order_ok (filter (\<lambda>i. i \<noteq> k) (es_paneOrder s)) (AList.delete k (es_panes s))"
      using os(4) by (auto simp: order_ok_def simp del: map_of_eq_Some_iff split: if_splits)
    ultimately show ?thesis
      using os e(5) by (intro editor_okI) (simp_all add: e(1-4,6) delete_conv')
  qed
qed

lemma stored_id:
  assumes "editor_ok st" "e \<in> set (es_tabs st)"
  shows "et_id (snd e) = fst e"
  using assms(2) editor_tab_pane [OF assms(1), of "fst e" "snd e"] editor_okD(7) [OF assms(1)] by auto

lemma single_tabs:
  assumes ok: "editor_ok st"
  shows "from_entries (map (\<lambda>t. (et_id t, t\<lparr>et_paneId := k\<rparr>)) (own_values (es_tabs st))) =
    map (\<lambda>e. (fst e, (snd e)\<lparr>et_paneId := k\<rparr>)) (own_entries (es_tabs st))"
proof -
  have "map (\<lambda>t. (et_id t, t\<lparr>et_paneId := k\<rparr>)) (own_values (es_tabs st)) =
      map (\<lambda>e. (fst e, (snd e)\<lparr>et_paneId := k\<rparr>)) (own_entries (es_tabs st))"
    using stored_id [OF ok] by (simp add: own_values_def)
  then show ?thesis
    using distinct_own_keys [OF editor_okD(7) [OF ok]] by (simp add: from_entries_distinct own_keys_def comp_def)
qed

lemma own_ids: "editor_ok st \<Longrightarrow> map et_id (own_values (es_tabs st)) = own_keys (es_tabs st)"
  by (simp add: own_values_def own_keys_def stored_id)

lemma first_pane:
  assumes ok: "editor_ok st"
  obtains k p where "str_or (js_at (es_paneOrder st) 0) DEFAULT_PANE_ID = k" "map_of (es_panes st) k = Some p" "k \<noteq> []"
proof -
  note o = editor_okD [OF ok]
  have "dom (map_of (es_panes st)) \<noteq> {}" using o(5) by blast
  then have "es_paneOrder st \<noteq> []" using o(4) unfolding order_ok_def by (metis empty_set)
  then obtain k ks where k: "es_paneOrder st = k # ks" by (cases "es_paneOrder st") auto
  then have "k \<in> dom (map_of (es_panes st))" using o(4) by (auto simp: order_ok_def)
  then obtain p where p: "map_of (es_panes st) k = Some p" by blast
  moreover have "k \<noteq> []" using layout_okD(2) [OF o(1) p] by (simp add: pane_ok_def)
  ultimately show ?thesis using that k by (simp add: js_at_def str_or_def)
qed

lemma single_layout_effect:
  assumes ok: "editor_ok st" and k: "str_or (js_at (es_paneOrder st) 0) DEFAULT_PANE_ID = k"
    and p: "map_of (es_panes st) k = Some p"
  shows "setSplitLayout LSingle st = st\<lparr>es_splitLayout := LSingle,
      es_tabs := map (\<lambda>e. (fst e, (snd e)\<lparr>et_paneId := k\<rparr>)) (own_entries (es_tabs st)),
      es_panes := [(k, p\<lparr>sp_id := k, sp_tabs := own_keys (es_tabs st), sp_size := 100\<rparr>)],
      es_paneOrder := [k], es_activePaneId := Some k\<rparr>"
  using k p by (simp add: setSplitLayout_def Let_def single_tabs [OF ok] own_ids [OF ok] del: map_of_eq_Some_iff)

lemma map_of_single:
  assumes "editor_ok st"
  shows "map_of (map (\<lambda>e. (fst e, (snd e)\<lparr>et_paneId := k\<rparr>)) (own_entries (es_tabs st))) i =
    map_option (\<lambda>t. t\<lparr>et_paneId := k\<rparr>) (map_of (es_tabs st) i)"
  using editor_okD(7) [OF assms] by (simp add: map_of_map [unfolded split_def])

lemma setSplitLayout_ok:
  assumes ok: "editor_ok st"
  shows "editor_ok (setSplitLayout l st)"
proof (cases "l = LSingle")
  case False
  with ok show ?thesis by (simp add: setSplitLayout_def editor_ok_def)
next
  case True
  note o = editor_okD [OF ok]
  obtain k p where k: "str_or (js_at (es_paneOrder st) 0) DEFAULT_PANE_ID = k"
    and p: "map_of (es_panes st) k = Some p" and ne: "k \<noteq> []"
    by (rule first_pane [OF ok])
  define p' where "p' = p\<lparr>sp_id := k, sp_tabs := own_keys (es_tabs st), sp_size := 100\<rparr>"
  define T where "T = map (\<lambda>e. (fst e, (snd e)\<lparr>et_paneId := k\<rparr>)) (own_entries (es_tabs st))"
  have st': "setSplitLayout l st = st\<lparr>es_splitLayout := LSingle, es_tabs := T, es_panes := [(k, p')],
      es_paneOrder := [k], es_activePaneId := Some k\<rparr>"
    using single_layout_effect [OF ok k p] True by (simp add: T_def p'_def)
  have T: "map_of T i = map_option (\<lambda>t. t\<lparr>et_paneId := k\<rparr>) (map_of (es_tabs st) i)" for i
    unfolding T_def by (rule map_of_single [OF ok])
  have "i \<in> set (own_keys (es_tabs st))" if "sp_activeTabId p = Some i" for i
  proof -
    have "i \<in> set (sp_tabs p)" using that layout_okD(2) [OF o(1) p] by (simp add: pane_ok_def)
    from pane_tab [OF o(1) p this] show ?thesis by (auto simp del: map_of_eq_Some_iff)
  qed
  then have "pane_ok (map_of T) k p'"
    using ne distinct_own_keys [OF o(7)] by (auto simp: pane_ok_def p'_def T simp del: map_of_eq_Some_iff)
  moreover have "tab_ok [k \<mapsto> p'] i t" if "map_of T i = Some t" for i t
    using that layout_okD(1) [OF o(1), of i] by (fastforce simp: T tab_ok_def p'_def simp del: map_of_eq_Some_iff)
  ultimately have "layout_ok (map_of T) [k \<mapsto> p']"
    by (simp add: layout_ok_def del: map_of_eq_Some_iff)
  moreover have "paths_ok (map_of T)"
    using o(2) unfolding paths_ok_def T by (fastforce simp del: map_of_eq_Some_iff)
  moreover have "order_ok (es_tabOrder st) T"
  proof -
    have "obj_ok T" using distinct_own_keys [OF o(7)] by (simp add: T_def own_keys_def comp_def)
    moreover have "dom (map_of T) = dom (map_of (es_tabs st))" by (auto simp: T simp del: map_of_eq_Some_iff)
    ultimately show ?thesis using o(3) by (simp add: order_ok_def)
  qed
  ultimately show ?thesis
    unfolding st' using o(6) by (intro editor_okI [where k = k and p = p']) (simp_all add: order_ok_def)
qed

section \<open>The store as a machine\<close>

lemma init_editor_ok: "editor_ok init_editor"
  by (simp add: editor_ok_def init_editor_def layout_ok_def paths_ok_def order_ok_def pane_ok_def
      createDefaultPane_def DEFAULT_PANE_ID_def)

datatype editor_event =
    InitializeSettings "editor_defaults option" "editor_ai_config option"
  | ResetLayout
  | SetLayout editor_layout
  | OpenTab ident editor_tab
  | CloseTab ident
  | CloseAllTabs "ident option"
  | CloseOtherTabs ident
  | CloseTabsToRight ident
  | SetActiveTab ident
  | SetTabDirty ident bool
  | PinTab ident
  | ReorderTabs ident int int
  | MoveTabToPane ident ident
  | UpdateTabScrollPosition ident int int
  | UpdateTabCursorPosition ident int int
  | ReopenClosedTab ident
  | ExtractTab ident
  | SplitPane ident ident split_direction
  | ClosePane ident
  | SetActivePane ident
  | ResizePane ident rat
  | SetSplitLayout split_layout
  | UpdateSettings "settings_field list"
  | SetKeyMode string

text \<open>An initialization that throws leaves the state as it was.\<close>

primrec editor_step :: "editor_event \<Rightarrow> editor_state \<Rightarrow> editor_state" where
  "editor_step (InitializeSettings d ai) st =
     (case initializeSettings d ai st of Inl e \<Rightarrow> st | Inr st' \<Rightarrow> st')"
| "editor_step ResetLayout st = resetLayout st"
| "editor_step (SetLayout l) st = setLayout l st"
| "editor_step (OpenTab i d) st = fst (openTab i d st)"
| "editor_step (CloseTab i) st = closeTab i st"
| "editor_step (CloseAllTabs k) st = closeAllTabs k st"
| "editor_step (CloseOtherTabs i) st = closeOtherTabs i st"
| "editor_step (CloseTabsToRight i) st = closeTabsToRight i st"
| "editor_step (SetActiveTab i) st = setActiveTab i st"
| "editor_step (SetTabDirty i b) st = setTabDirty i b st"
| "editor_step (PinTab i) st = pinTab i st"
| "editor_step (ReorderTabs k a b) st = reorderTabs k a b st"
| "editor_step (MoveTabToPane i k) st = moveTabToPane i k st"
| "editor_step (UpdateTabScrollPosition i l c) st = updateTabScrollPosition i l c st"
| "editor_step (UpdateTabCursorPosition i l c) st = updateTabCursorPosition i l c st"
| "editor_step (ReopenClosedTab i) st = fst (reopenClosedTab i st)"
| "editor_step (ExtractTab i) st = fst (extractTab i st)"
| "editor_step (SplitPane k' k d) st = fst (splitPane k' k d st)"
| "editor_step (ClosePane k) st = closePane k st"
| "editor_step (SetActivePane k) st = setActivePane k st"
| "editor_step (ResizePane k z) st = resizePane k z st"
| "editor_step (SetSplitLayout l) st = setSplitLayout l st"
| "editor_step (UpdateSettings ups) st = updateSettings ups st"
| "editor_step (SetKeyMode m) st = setKeyMode m st"

text \<open>
  What the callers must respect: new ids are fresh, a tab is opened in an existing pane, the
  focused pane exists, the last pane is not closed, and a layout snapshot is consistent.
\<close>

definition snapshot_ok :: "editor_layout \<Rightarrow> bool" where
  "snapshot_ok l \<longleftrightarrow> layout_ok (map_of (ly_tabs l)) (map_of (ly_panes l)) \<and>
     paths_ok (map_of (ly_tabs l)) \<and> obj_ok (ly_tabs l) \<and>
     ly_paneOrder l \<noteq> [] \<and> order_ok (ly_paneOrder l) (ly_panes l) \<and>
     coalesce (ly_activePaneId l) DEFAULT_PANE_ID \<in> dom (map_of (ly_panes l))"

definition fresh_tab :: "ident \<Rightarrow> editor_state \<Rightarrow> bool" where
  "fresh_tab i st \<longleftrightarrow> i \<noteq> [] \<and> map_of (es_tabs st) i = None"

definition has_pane :: "ident \<Rightarrow> editor_state \<Rightarrow> bool" where
  "has_pane k st \<longleftrightarrow> map_of (es_panes st) k \<noteq> None"

fun editor_guard :: "editor_event \<Rightarrow> editor_state \<Rightarrow> bool" where
  "editor_guard (SetLayout l) st = snapshot_ok l"
| "editor_guard (OpenTab i d) st = (fresh_tab i st \<and> has_pane (target_pane d st) st)"
| "editor_guard (ReopenClosedTab i) st = fresh_tab i st"
| "editor_guard (SplitPane k' k d) st = (k' \<noteq> [] \<and> \<not> has_pane k' st)"
| "editor_guard (ClosePane k) st = (\<exists>j \<in> set (own_keys (es_panes st)). j \<noteq> k)"
| "editor_guard (SetActivePane k) st = has_pane k st"
| "editor_guard _ st = True"

lemma setLayout_ok: "snapshot_ok l \<Longrightarrow> editor_ok st \<Longrightarrow> editor_ok (setLayout l st)"
  using distinct_own_keys [of "ly_tabs l"]
  by (auto simp: editor_ok_def setLayout_def snapshot_ok_def order_ok_def simp del: map_of_eq_Some_iff)

lemma reopenClosedTab_ok:
  assumes ok: "editor_ok st" and i: "fresh_tab i st"
  shows "editor_ok (fst (reopenClosedTab i st))"
proof (cases "es_recentlyClosed st")
  case Nil
  with ok show ?thesis by (simp add: reopenClosedTab_def)
next
  case (Cons t ts)
  obtain k p where k: "es_activePaneId st = Some k" "map_of (es_panes st) k = Some p"
    using editor_okD(5) [OF ok] by blast
  have "k \<noteq> []" using layout_okD(2) [OF editor_okD(1) [OF ok] k(2)] by (simp add: pane_ok_def)
  have "editor_ok (st\<lparr>es_recentlyClosed := ts\<rparr>)"
    using ok Cons by (auto simp: editor_ok_def)
  then show ?thesis
    unfolding reopenClosedTab_def Cons list.case fst_conv
    using k \<open>k \<noteq> []\<close> i by (intro openTab_ok) (auto simp: fresh_tab_def target_pane_def str_or_def)
qed

lemma initializeSettings_ok: "editor_ok st \<Longrightarrow> initializeSettings d ai st = Inr st' \<Longrightarrow> editor_ok st'"
  by (auto simp: initializeSettings_def editor_ok_def split: if_splits sum.splits)

lemma editor_step_ok:
  assumes ok: "editor_ok st" and g: "editor_guard e st"
  shows "editor_ok (editor_step e st)"
proof (cases e)
  case (InitializeSettings d ai)
  with ok show ?thesis by (auto dest: initializeSettings_ok split: sum.splits)
next
  case ResetLayout
  have "editor_ok (resetLayout st)"
    by (simp add: editor_ok_def resetLayout_def layout_ok_def paths_ok_def order_ok_def pane_ok_def
      createDefaultPane_def DEFAULT_PANE_ID_def)
  with ResetLayout show ?thesis by simp
next
  case (OpenTab i d)
  with ok g show ?thesis by (auto intro!: openTab_ok simp: fresh_tab_def has_pane_def)
next
  case (SplitPane k' k d)
  with ok g show ?thesis by (auto intro!: splitPane_ok simp: has_pane_def)
next
  case (ClosePane k)
  with ok g show ?thesis by (auto intro!: closePane_ok)
next
  case (SetActivePane k)
  with ok g show ?thesis by (auto simp: editor_ok_def setActivePane_def has_pane_def)
next
  case (ExtractTab i)
  with ok show ?thesis by (auto simp: extractTab_def closeTab_ok split: option.splits)
qed (use ok g in \<open>simp_all add: setLayout_ok closeTab_ok closeAllTabs_ok closeOtherTabs_ok closeTabsToRight_ok
    setActiveTab_ok reorderTabs_ok moveTabToPane_ok reopenClosedTab_ok resizePane_ok setSplitLayout_ok
    setTabDirty_def pinTab_def updateTabScrollPosition_def updateTabCursorPosition_def editor_ok_edit_tab\<close>,
    simp_all add: editor_ok_def updateSettings_def setKeyMode_def)

interpretation editor: machine editor_step editor_guard editor_ok init_editor
  by unfold_locales (auto simp: init_editor_ok editor_step_ok)

end
