(* ===== verification/Editor_Properties.thy ===== *)
theory Editor_Properties
  imports Editor_Safety
begin

text \<open>
  The properties of the editor store, each with a witness on a small layout.
\<close>

section \<open>Helpers\<close>

lemma find_path_iff:
  assumes "editor_ok st"
  shows "find (\<lambda>t. et_path t = path) (own_values (es_tabs st)) = Some t \<longleftrightarrow>
    map_of (es_tabs st) (et_id t) = Some t \<and> et_path t = path" (is "?l = ?r")
proof
  assume ?l
  then have "et_path t = path" "t \<in> set (own_values (es_tabs st))" by (auto simp: find_Some_iff)
  then obtain j where j: "map_of (es_tabs st) j = Some t"
    using in_own_values [OF editor_okD(7) [OF assms]] by blast
  moreover from editor_tab_pane [OF assms j] have "et_id t = j" by blast
  ultimately show ?r using \<open>et_path t = path\<close> by simp
next
  assume r: ?r
  then have mem: "t \<in> set (own_values (es_tabs st))"
    using in_own_values [OF editor_okD(7) [OF assms]] by blast
  with r obtain u where u: "find (\<lambda>t. et_path t = path) (own_values (es_tabs st)) = Some u"
    by (metis (mono_tags, lifting) find_None_iff not_None_eq)
  then have "et_path u = path" "u \<in> set (own_values (es_tabs st))" by (auto simp: find_Some_iff)
  then obtain j where j: "map_of (es_tabs st) j = Some u"
    using in_own_values [OF editor_okD(7) [OF assms]] by blast
  have "j = et_id t"
    using editor_okD(2) [OF assms] j r \<open>et_path u = path\<close> unfolding paths_ok_def by metis
  with j r u show ?l by simp
qed

lemma insert_tab_effect:
  "map_of (es_tabs (insert_tab i k d st)) i = Some (d\<lparr>et_id := i, et_name := getFileName (et_path d), et_paneId := k\<rparr>) \<and>
   es_recentlyClosed (insert_tab i k d st) = es_recentlyClosed st \<and>
   (k \<noteq> [] \<longrightarrow> i \<noteq> [] \<longrightarrow> getActiveTab (insert_tab i k d st) = map_of (es_tabs (insert_tab i k d st)) i)"
  by (simp add: insert_tab_def Let_def getActiveTab_def str_or_def)

lemma setActiveTab_effect:
  assumes ok: "editor_ok st" and t: "map_of (es_tabs st) i = Some t"
  shows "getActiveTab (setActiveTab i st) = Some t \<and> es_tabs (setActiveTab i st) = es_tabs st"
proof -
  obtain p where p: "map_of (es_panes st) (et_paneId t) = Some p" "i \<noteq> []"
    using editor_tab_pane [OF ok t] by metis
  have "et_paneId t \<noteq> []" using layout_okD(2) [OF editor_okD(1) [OF ok] p(1)] by (simp add: pane_ok_def)
  with p t show ?thesis by (simp add: setActiveTab_def getActiveTab_def str_or_def del: map_of_eq_Some_iff)
qed

definition ex_tab :: "ident \<Rightarrow> string \<Rightarrow> ident \<Rightarrow> editor_tab" where
  "ex_tab i path k = \<lparr>et_id = i, et_path = path, et_name = path, et_language = ''ts'',
     et_isDirty = True, et_isPreview = False, et_paneId = k, et_scrollPosition = None,
     et_cursorPosition = None\<rparr>"

text \<open>Two panes, two tabs on the left and one on the right.\<close>

definition ex_editor :: editor_state where
  "ex_editor = init_editor\<lparr>
     es_tabs := [(''t1'', ex_tab ''t1'' ''a.ts'' ''main''), (''t2'', ex_tab ''t2'' ''b.ts'' ''main''),
       (''t3'', ex_tab ''t3'' ''c.ts'' ''p2'')],
     es_tabOrder := [''t1'', ''t2'', ''t3''],
     es_panes := [(''main'', \<lparr>sp_id = ''main'', sp_tabs = [''t1'', ''t2''], sp_activeTabId = Some ''t1'', sp_size = 50\<rparr>),
       (''p2'', \<lparr>sp_id = ''p2'', sp_tabs = [''t3''], sp_activeTabId = Some ''t3'', sp_size = 50\<rparr>)],
     es_paneOrder := [''main'', ''p2'']\<rparr>"

lemma ex_editor_ok: "editor_ok ex_editor"
  by (auto simp: editor_ok_def ex_editor_def init_editor_def layout_ok_def tab_ok_def pane_ok_def paths_ok_def
      order_ok_def ex_tab_def DEFAULT_PANE_ID_def split: if_splits)

lemma ex_editor_parts:
  "map_of (es_tabs ex_editor) ''t1'' = Some (ex_tab ''t1'' ''a.ts'' ''main'')"
  "map_of (es_panes ex_editor) ''main'' = Some \<lparr>sp_id = ''main'', sp_tabs = [''t1'', ''t2''], sp_activeTabId = Some ''t1'', sp_size = 50\<rparr>"
  "map_of (es_panes ex_editor) ''p2'' = Some \<lparr>sp_id = ''p2'', sp_tabs = [''t3''], sp_activeTabId = Some ''t3'', sp_size = 50\<rparr>"
  "es_paneOrder ex_editor = [''main'', ''p2'']" "es_activePaneId ex_editor = Some ''main''"
  by (simp_all add: ex_editor_def init_editor_def DEFAULT_PANE_ID_def)

definition ex_editor_events :: "editor_event list" where
  "ex_editor_events = [OpenTab ''t1'' (ex_tab [] ''src/a.ts'' []), SplitPane ''p2'' ''main'' SplitVertical,
     MoveTabToPane ''t1'' ''p2'', CloseTab ''t1'', ReopenClosedTab ''t4'', SetSplitLayout LSingle]"

lemmas editor_defs = openTab_def insert_tab_def close_preview_def splitPane_def moveTabToPane_def closeTab_def
  next_active_def reopenClosedTab_def setSplitLayout_def target_pane_def createDefaultPane_def
  DEFAULT_PANE_ID_def getFileName_def str_or_def own_values_def own_entries_def is_index_def is_digit_def

lemma ex_editor_guarded: "guarded editor_guard editor_step ex_editor_events init_editor"
  by (simp add: ex_editor_events_def init_editor_def ex_tab_def editor_defs fresh_tab_def has_pane_def Let_def)

section \<open>Histories\<close>

text \<open>
  C6: In every history of editor actions that respects the callers' duties, tabs and panes stay
  stored under their ids and refer to each other exactly (a tab is listed once, by the pane it
  names), the active tab of a pane is one of its tabs, the two orders list exactly the open tabs
  and panes, no path is open twice, the focused pane exists, and at most ten closed tabs are kept.
\<close>

theorem editor_history_invariant:
  assumes "guarded editor_guard editor_step es init_editor"
  shows "editor_ok (fold editor_step es init_editor)"
  using assms by (rule editor.inv_history)

theorem editor_history_invariant_witness:
  "guarded editor_guard editor_step ex_editor_events init_editor \<and>
   editor_ok (fold editor_step ex_editor_events init_editor)"
  using ex_editor_guarded editor_history_invariant [OF ex_editor_guarded] by simp

text \<open>
  Opening a path shows it exactly once: afterwards one tab has the path, it is the focused tab
  and its id is the result; when the path was open before, no tab is added or removed.
\<close>

theorem opened_once_and_focused:
  assumes ok: "editor_ok st" and i: "fresh_tab i st" and k: "has_pane (target_pane d st) st"
  shows "\<exists>t. map_of (es_tabs (fst (openTab i d st))) (snd (openTab i d st)) = Some t \<and>
     et_path t = et_path d \<and> getActiveTab (fst (openTab i d st)) = Some t \<and>
     (\<forall>j u. map_of (es_tabs (fst (openTab i d st))) j = Some u \<and> et_path u = et_path d \<longrightarrow> j = snd (openTab i d st)) \<and>
     (getTabByPath (et_path d) st \<noteq> None \<longrightarrow>
        dom (map_of (es_tabs (fst (openTab i d st)))) = dom (map_of (es_tabs st)))"
proof -
  have ok': "editor_ok (fst (openTab i d st))"
    using openTab_ok [OF ok] i k by (auto simp: fresh_tab_def has_pane_def)
  have main: "\<exists>t. map_of (es_tabs (fst (openTab i d st))) (snd (openTab i d st)) = Some t \<and>
     et_path t = et_path d \<and> getActiveTab (fst (openTab i d st)) = Some t \<and>
     (getTabByPath (et_path d) st \<noteq> None \<longrightarrow>
        dom (map_of (es_tabs (fst (openTab i d st)))) = dom (map_of (es_tabs st)))"
  proof (cases "find (\<lambda>t. et_path t = et_path d) (own_values (es_tabs st))")
    case (Some ex)
    then have ex: "map_of (es_tabs st) (et_id ex) = Some ex" "et_path ex = et_path d"
      using find_path_iff [OF ok] by auto
    define ex' where "ex' = (if et_isPreview ex \<and> \<not> et_isPreview d then ex\<lparr>et_isPreview := False\<rparr> else ex)"
    define st1 where "st1 = (if et_isPreview ex \<and> \<not> et_isPreview d
      then edit_tab (et_id ex) (\<lambda>t. t\<lparr>et_isPreview := False\<rparr>) st else st)"
    have open_eq: "openTab i d st = (setActiveTab (et_id ex) st1, et_id ex)"
      using Some ex by (simp add: openTab_def Let_def st1_def edit_tab_def del: map_of_eq_Some_iff)
    have "editor_ok st1"
      using ok editor_ok_edit_tab [OF ok, of "\<lambda>t. t\<lparr>et_isPreview := False\<rparr>"] by (simp add: st1_def)
    moreover have "map_of (es_tabs st1) (et_id ex) = Some ex'" "dom (map_of (es_tabs st1)) = dom (map_of (es_tabs st))"
      using ex by (auto simp: st1_def ex'_def edit_tab_def update_conv' simp del: map_of_eq_Some_iff)
    ultimately show ?thesis
      using setActiveTab_effect [of st1 "et_id ex" ex'] ex(2) open_eq by (simp add: ex'_def del: map_of_eq_Some_iff)
  next
    case None
    obtain p where "map_of (es_panes st) (target_pane d st) = Some p" using k by (auto simp: has_pane_def)
    then have "target_pane d st \<noteq> []"
      using layout_okD(2) [OF editor_okD(1) [OF ok]] by (auto simp: pane_ok_def simp del: map_of_eq_Some_iff)
    then show ?thesis
      using None i insert_tab_effect [of i "target_pane d st" d] by (simp add: openTab_def Let_def fresh_tab_def getTabByPath_def)
  qed
  then obtain t where t: "map_of (es_tabs (fst (openTab i d st))) (snd (openTab i d st)) = Some t" "et_path t = et_path d"
    by blast
  then have "\<forall>j u. map_of (es_tabs (fst (openTab i d st))) j = Some u \<and> et_path u = et_path d \<longrightarrow> j = snd (openTab i d st)"
    using editor_okD(2) [OF ok'] unfolding paths_ok_def by metis
  with main show ?thesis by blast
qed

theorem opened_once_and_focused_witness:
  "\<exists>t. getActiveTab (fst (openTab ''n'' (ex_tab [] ''z.ts'' []) ex_editor)) = Some t \<and> et_path t = ''z.ts''"
proof -
  have h: "fresh_tab ''n'' ex_editor" "has_pane (target_pane (ex_tab [] ''z.ts'' []) ex_editor) ex_editor"
    by (simp_all add: fresh_tab_def has_pane_def target_pane_def ex_editor_def init_editor_def ex_tab_def
        str_or_def DEFAULT_PANE_ID_def)
  from opened_once_and_focused [OF ex_editor_ok h] show ?thesis
    by (auto simp: ex_tab_def)
qed

section \<open>Closing and reopening\<close>

lemma indexOf_split: "distinct (xs @ i # ys) \<Longrightarrow> indexOf i (xs @ i # ys) = int (length xs)"
  by (induction xs) (auto simp: indexOf_def Let_def)

text \<open>
  Closing a tab takes exactly this tab out of its pane; when it was the active one, the tab to
  its right becomes active, else the one to its left, else none; otherwise the active tab stays.
\<close>

theorem close_activates_neighbour:
  assumes ok: "editor_ok st" and t: "map_of (es_tabs st) i = Some t"
    and p: "map_of (es_panes st) (et_paneId t) = Some p" "sp_tabs p = xs @ i # ys"
  shows "\<exists>p'. map_of (es_panes (closeTab i st)) (et_paneId t) = Some p' \<and> sp_tabs p' = xs @ ys \<and>
     sp_activeTabId p' = (if sp_activeTabId p \<noteq> Some i then sp_activeTabId p
       else if ys \<noteq> [] then Some (hd ys) else if xs \<noteq> [] then Some (last xs) else None) \<and>
     es_tabs (closeTab i st) = AList.delete i (es_tabs st)"
proof -
  note pok = layout_okD(2) [OF editor_okD(1) [OF ok] p(1)]
  have d: "distinct (xs @ i # ys)" using pok p(2) by (simp add: pane_ok_def)
  have ne: "j \<noteq> []" if "j \<in> set (xs @ ys)" for j
  proof -
    have "j \<in> set (sp_tabs p)" using that p(2) by auto
    from pane_tab [OF editor_okD(1) [OF ok] p(1) this] show ?thesis
      using layout_okD(1) [OF editor_okD(1) [OF ok]] by (auto simp: tab_ok_def simp del: map_of_eq_Some_iff)
  qed
  have right: "js_at (xs @ i # ys) (int (length xs) + 1) = (if ys = [] then None else Some (hd ys))"
    by (cases ys) (auto simp: js_at_def nth_append nat_add_distrib)
  have left: "js_at (xs @ i # ys) (int (length xs) - 1) = (if xs = [] then None else Some (last xs))"
    by (cases xs rule: rev_cases) (auto simp: js_at_def nth_append)
  have "neighbour_tab (xs @ i # ys) (int (length xs)) =
      (if ys \<noteq> [] then Some (hd ys) else if xs \<noteq> [] then Some (last xs) else None)"
    using ne [of "hd ys"] ne [of "last xs"] unfolding neighbour_tab_def right left by (simp add: or_else_def)
  then have "next_active i p = (if sp_activeTabId p \<noteq> Some i then sp_activeTabId p
       else if ys \<noteq> [] then Some (hd ys) else if xs \<noteq> [] then Some (last xs) else None)"
    using indexOf_split [OF d] p(2) by (auto simp: next_active_def)
  moreover have "filter (\<lambda>j. j \<noteq> i) zs = zs" if "i \<notin> set zs" for zs
    using that by (induction zs) auto
  then have "filter (\<lambda>j. j \<noteq> i) (xs @ i # ys) = xs @ ys"
    using d by simp
  ultimately show ?thesis
    using t p by (simp add: closeTab_def del: map_of_eq_Some_iff)
qed

theorem close_activates_neighbour_witness:
  "\<exists>p'. map_of (es_panes (closeTab ''t1'' ex_editor)) ''main'' = Some p' \<and>
     sp_tabs p' = [''t2''] \<and> sp_activeTabId p' = Some ''t2''"
  using close_activates_neighbour [OF ex_editor_ok ex_editor_parts(1), of _ "[]" "[''t2'']"] ex_editor_parts(2)
  by (fastforce simp: ex_tab_def simp del: map_of_eq_Some_iff)

text \<open>
  Reopening right after closing brings the file back: the closed tab is returned, a tab with
  its path and language is focused, clean and permanent, and the list of closed tabs is the old
  one (its oldest entry may have been evicted).
\<close>

theorem close_then_reopen:
  assumes ok: "editor_ok st" and t: "map_of (es_tabs st) i = Some t" and n: "fresh_tab n (closeTab i st)"
  shows "snd (reopenClosedTab n (closeTab i st)) = Some t \<and>
     es_recentlyClosed (fst (reopenClosedTab n (closeTab i st))) = take 9 (es_recentlyClosed st) \<and>
     (\<exists>u. getActiveTab (fst (reopenClosedTab n (closeTab i st))) = Some u \<and>
        et_path u = et_path t \<and> et_language u = et_language t \<and> \<not> et_isDirty u \<and> \<not> et_isPreview u \<and> et_id u = n)"
proof -
  let ?st = "closeTab i st"
  have ok': "editor_ok ?st" by (rule closeTab_ok [OF ok])
  obtain p where p: "map_of (es_panes st) (et_paneId t) = Some p"
    using editor_tab_pane [OF ok t] by metis
  have rc: "es_recentlyClosed ?st = t # take 9 (es_recentlyClosed st)" and tabs: "es_tabs ?st = AList.delete i (es_tabs st)"
    using t p by (simp_all add: closeTab_def del: map_of_eq_Some_iff)
  define k where "k = str_or (es_activePaneId ?st) DEFAULT_PANE_ID"
  define d where "d = t\<lparr>et_isDirty := False, et_isPreview := False, et_paneId := k,
      et_scrollPosition := None, et_cursorPosition := None\<rparr>"
  define s1 where "s1 = ?st\<lparr>es_recentlyClosed := take 9 (es_recentlyClosed st)\<rparr>"
  obtain a q where a: "es_activePaneId ?st = Some a" "map_of (es_panes ?st) a = Some q"
    using editor_okD(5) [OF ok'] by blast
  have "a \<noteq> []" using layout_okD(2) [OF editor_okD(1) [OF ok'] a(2)] by (simp add: pane_ok_def)
  then have k: "k = a" "k \<noteq> []" using a(1) by (simp_all add: k_def str_or_def)
  have "find (\<lambda>u. et_path u = et_path t) (own_values (es_tabs ?st)) = None"
  proof (rule ccontr)
    assume "find (\<lambda>u. et_path u = et_path t) (own_values (es_tabs ?st)) \<noteq> None"
    then obtain u where "map_of (es_tabs ?st) (et_id u) = Some u" "et_path u = et_path t"
      using find_path_iff [OF ok'] by blast
    then have "et_id u \<noteq> i" "map_of (es_tabs st) (et_id u) = Some u" "et_path u = et_path t"
      by (auto simp: tabs simp del: map_of_eq_Some_iff split: if_splits)
    then show False
      using editor_okD(2) [OF ok] t unfolding paths_ok_def by metis
  qed
  then have "openTab n d s1 = (insert_tab n k d s1, n)"
    using k by (simp add: openTab_def Let_def d_def s1_def target_pane_def)
  moreover have "reopenClosedTab n ?st = (fst (openTab n d s1), Some t)"
    by (simp add: reopenClosedTab_def rc d_def s1_def k_def)
  ultimately show ?thesis
    using insert_tab_effect [of n k d s1] k n by (simp add: d_def s1_def fresh_tab_def)
qed

theorem close_then_reopen_witness:
  "snd (reopenClosedTab ''n'' (closeTab ''t1'' ex_editor)) = Some (ex_tab ''t1'' ''a.ts'' ''main'')"
proof -
  have "fresh_tab ''n'' (closeTab ''t1'' ex_editor)"
    using closeTab_tabs [of "''t1''" ex_editor "''n''"]
    by (cases "map_of (es_tabs (closeTab ''t1'' ex_editor)) ''n''") (auto simp: fresh_tab_def ex_editor_def init_editor_def)
  from close_then_reopen [OF ex_editor_ok ex_editor_parts(1) this] show ?thesis by blast
qed

section \<open>Panes\<close>

text \<open>
  Merging to a single pane keeps every open tab: the tabs are the same up to their pane, one
  pane is left, it is focused and it lists every tab.
\<close>

theorem single_layout_keeps_tabs:
  assumes ok: "editor_ok st"
  shows "\<exists>k. es_paneOrder (setSplitLayout LSingle st) = [k] \<and>
     es_activePaneId (setSplitLayout LSingle st) = Some k \<and>
     dom (map_of (es_panes (setSplitLayout LSingle st))) = {k} \<and>
     (\<forall>i. map_of (es_tabs (setSplitLayout LSingle st)) i =
        map_option (\<lambda>t. t\<lparr>et_paneId := k\<rparr>) (map_of (es_tabs st) i)) \<and>
     et_id ` set (getTabsForPane k (setSplitLayout LSingle st)) = dom (map_of (es_tabs st))"
proof -
  obtain k p where k: "str_or (js_at (es_paneOrder st) 0) DEFAULT_PANE_ID = k"
    and p: "map_of (es_panes st) k = Some p" "k \<noteq> []"
    by (rule first_pane [OF ok])
  note eff = single_layout_effect [OF ok k p(1)]
  have tabs: "map_of (es_tabs (setSplitLayout LSingle st)) i =
      map_option (\<lambda>t. t\<lparr>et_paneId := k\<rparr>) (map_of (es_tabs st) i)" for i
    by (simp add: eff map_of_single [OF ok])
  have ids: "et_id ` set (List.map_filter (\<lambda>i. map_option (\<lambda>t. t\<lparr>et_paneId := k\<rparr>) (map_of (es_tabs st) i)) is) =
      set is \<inter> dom (map_of (es_tabs st))" for "is"
  proof (induction "is")
    case (Cons i "is")
    show ?case
    proof (cases "map_of (es_tabs st) i")
      case None
      with Cons show ?thesis by (auto simp: map_filter_simps)
    next
      case (Some t)
      then have "et_id t = i" using editor_tab_pane [OF ok] by metis
      with Some Cons show ?thesis by (auto simp: map_filter_simps simp del: map_of_eq_Some_iff)
    qed
  qed (simp add: map_filter_simps)
  have "map_of (es_tabs (setSplitLayout LSingle st)) = (\<lambda>i. map_option (\<lambda>t. t\<lparr>et_paneId := k\<rparr>) (map_of (es_tabs st) i))"
    using tabs by blast
  then have "getTabsForPane k (setSplitLayout LSingle st) =
      List.map_filter (\<lambda>i. map_option (\<lambda>t. t\<lparr>et_paneId := k\<rparr>) (map_of (es_tabs st) i)) (own_keys (es_tabs st))"
    by (simp add: getTabsForPane_def tabs_of_def eff)
  then have "et_id ` set (getTabsForPane k (setSplitLayout LSingle st)) = dom (map_of (es_tabs st))"
    using ids [of "own_keys (es_tabs st)"] by simp
  then show ?thesis
    using tabs by (intro exI [of _ k]) (simp add: eff)
qed

theorem single_layout_keeps_tabs_witness:
  "\<exists>k. es_paneOrder (setSplitLayout LSingle ex_editor) = [k] \<and>
     et_id ` set (getTabsForPane k (setSplitLayout LSingle ex_editor)) = dom (map_of (es_tabs ex_editor))"
  using single_layout_keeps_tabs [OF ex_editor_ok] by blast

text \<open>
  The merged pane keeps the active tab it had: when the first pane was empty, no tab is active
  after the merge although every open tab is listed in the pane.
\<close>

theorem single_layout_may_show_nothing:
  assumes ok: "editor_ok st" and first: "es_paneOrder st = k # ks" "map_of (es_panes st) k = Some p"
    and none: "sp_activeTabId p = None"
  shows "getActiveTab (setSplitLayout LSingle st) = None \<and> es_activePaneId (setSplitLayout LSingle st) = Some k"
proof -
  have ne: "k \<noteq> []" using layout_okD(2) [OF editor_okD(1) [OF ok] first(2)] by (simp add: pane_ok_def)
  then have "str_or (js_at (es_paneOrder st) 0) DEFAULT_PANE_ID = k"
    using first(1) by (simp add: js_at_def str_or_def)
  then show ?thesis
    using single_layout_effect [OF ok _ first(2)] ne none by (simp add: getActiveTab_def str_or_def)
qed

theorem single_layout_may_show_nothing_witness:
  "let st = closeAllTabs None ex_editor
   in getActiveTab (setSplitLayout LSingle st) = None \<and> map_of (es_tabs st) ''t3'' \<noteq> None"
proof -
  let ?st = "closeAllTabs None ex_editor"
  have "map_of (es_panes ?st) ''main'' = Some \<lparr>sp_id = ''main'', sp_tabs = [], sp_activeTabId = None, sp_size = 50\<rparr>"
    "es_paneOrder ?st = [''main'', ''p2'']" "map_of (es_tabs ?st) ''t3'' \<noteq> None"
    by (simp_all add: closeAllTabs_def ex_editor_def init_editor_def DEFAULT_PANE_ID_def delete_tabs_def Let_def)
  with single_layout_may_show_nothing [OF closeAllTabs_ok [OF ex_editor_ok], of None "''main''" "[''p2'']"] show ?thesis
    by (simp add: Let_def)
qed

text \<open>
  Moving a tab to another pane puts it last there and focuses it; the source pane keeps its
  other tabs in order and all other tabs stay where they are.
\<close>

theorem moved_tab_is_last_and_focused:
  assumes ok: "editor_ok st" and t: "map_of (es_tabs st) i = Some t" "et_paneId t \<noteq> k"
    and p: "map_of (es_panes st) (et_paneId t) = Some p" and q: "map_of (es_panes st) k = Some q"
  shows "getActiveTab (moveTabToPane i k st) = Some (t\<lparr>et_paneId := k\<rparr>) \<and>
     (\<exists>p' q'. map_of (es_panes (moveTabToPane i k st)) (et_paneId t) = Some p' \<and>
        sp_tabs p' = filter (\<lambda>j. j \<noteq> i) (sp_tabs p) \<and>
        map_of (es_panes (moveTabToPane i k st)) k = Some q' \<and> sp_tabs q' = sp_tabs q @ [i]) \<and>
     (\<forall>j. j \<noteq> i \<longrightarrow> map_of (es_tabs (moveTabToPane i k st)) j = map_of (es_tabs st) j)"
proof -
  have "k \<noteq> []" using layout_okD(2) [OF editor_okD(1) [OF ok] q] by (simp add: pane_ok_def)
  moreover have "i \<noteq> []" using editor_tab_pane [OF ok t(1)] by blast
  ultimately show ?thesis
    using t p q by (simp add: moveTabToPane_def Let_def getActiveTab_def str_or_def del: map_of_eq_Some_iff)
qed

theorem moved_tab_is_last_and_focused_witness:
  "getActiveTab (moveTabToPane ''t1'' ''p2'' ex_editor) = Some (ex_tab ''t1'' ''a.ts'' ''p2'')"
proof -
  have "et_paneId (ex_tab ''t1'' ''a.ts'' ''main'') \<noteq> ''p2''"
    "map_of (es_panes ex_editor) (et_paneId (ex_tab ''t1'' ''a.ts'' ''main'')) =
      Some \<lparr>sp_id = ''main'', sp_tabs = [''t1'', ''t2''], sp_activeTabId = Some ''t1'', sp_size = 50\<rparr>"
    using ex_editor_parts(2) by (simp_all add: ex_tab_def)
  from moved_tab_is_last_and_focused [OF ex_editor_ok ex_editor_parts(1) this ex_editor_parts(3)]
  have "getActiveTab (moveTabToPane ''t1'' ''p2'' ex_editor) = Some ((ex_tab ''t1'' ''a.ts'' ''main'')\<lparr>et_paneId := ''p2''\<rparr>)"
    by blast
  then show ?thesis by (simp add: ex_tab_def)
qed

lemma closed_tabs_gone:
  "map_of (es_tabs (fold closeTab ids st)) i = Some t \<Longrightarrow> map_of (es_tabs st) i = Some t"
  by (induction ids arbitrary: st) (auto dest: closeTab_tabs simp del: map_of_eq_Some_iff)

text \<open>
  Closing a pane closes its tabs, unsaved ones included: none of them is open afterwards, in any
  pane.
\<close>

theorem closePane_closes_its_tabs:
  assumes ok: "editor_ok st" and p: "map_of (es_panes st) k = Some p" and more: "k \<noteq> DEFAULT_PANE_ID \<or> length (own_keys (es_panes st)) \<noteq> 1"
    and i: "i \<in> set (sp_tabs p)"
  shows "map_of (es_tabs (closePane k st)) i = None"
proof (rule ccontr)
  define s where "s = fold closeTab (sp_tabs p) st"
  assume "map_of (es_tabs (closePane k st)) i \<noteq> None"
  moreover have "es_tabs (closePane k st) = es_tabs s"
    using p more by (auto simp: closePane_def s_def Let_def simp del: map_of_eq_Some_iff)
  ultimately obtain t where t: "map_of (es_tabs s) i = Some t"
    by auto
  have "distinct (sp_tabs p)" using layout_okD(2) [OF editor_okD(1) [OF ok] p] by (simp add: pane_ok_def)
  with closeTabs_effect [OF ok p subset_refl] obtain p' where s: "editor_ok s"
      and p': "map_of (es_panes s) k = Some p'" "sp_tabs p' = []"
    by (auto simp: s_def filter_empty_conv simp del: map_of_eq_Some_iff)
  have "et_paneId t = k"
    using pane_tab [OF editor_okD(1) [OF ok] p i] closed_tabs_gone [of "sp_tabs p" st i t] t unfolding s_def by auto
  then show False
    using editor_tab_pane [OF s t] p' by force
qed

theorem closePane_closes_its_tabs_witness:
  "''t3'' \<in> dom (map_of (es_tabs ex_editor)) \<and> map_of (es_tabs (closePane ''p2'' ex_editor)) ''t3'' = None"
proof
  show "''t3'' \<in> dom (map_of (es_tabs ex_editor))" by (simp add: ex_editor_def)
  show "map_of (es_tabs (closePane ''p2'' ex_editor)) ''t3'' = None"
    by (rule closePane_closes_its_tabs [OF ex_editor_ok ex_editor_parts(3)]) (simp_all add: DEFAULT_PANE_ID_def)
qed

text \<open>
  The guard of \<open>closePane\<close> protects only the pane named \<open>main\<close>: after a split, closing
  \<open>main\<close> and then the other pane leaves no pane at all, and a file opened then lives in a pane
  that the layout order does not list.
\<close>

theorem last_pane_can_be_closed:
  "let st = closePane (CHR ''p'' # x) (closePane DEFAULT_PANE_ID
       (fst (splitPane (CHR ''p'' # x) DEFAULT_PANE_ID SplitVertical init_editor)));
       st' = fst (openTab i (d\<lparr>et_paneId := []\<rparr>) st)
   in es_panes st = [] \<and> es_paneOrder st = [] \<and> es_activePaneId st = Some DEFAULT_PANE_ID \<and>
      own_keys (es_panes st') = [DEFAULT_PANE_ID] \<and> es_paneOrder st' = []"
proof -
  have main: "is_index ''main'' = False" "is_index (CHR ''p'' # x) = False"
    by (simp_all add: is_index_def is_digit_def)
  define st where "st = closePane (CHR ''p'' # x) (closePane DEFAULT_PANE_ID
       (fst (splitPane (CHR ''p'' # x) DEFAULT_PANE_ID SplitVertical init_editor)))"
  have empty: "es_panes st = []" "es_paneOrder st = []" "es_activePaneId st = Some DEFAULT_PANE_ID" "es_tabs st = []"
    unfolding st_def
    by (simp_all add: init_editor_def splitPane_def closePane_def createDefaultPane_def DEFAULT_PANE_ID_def
        own_keys_def own_entries_def main js_at_def str_or_def Let_def)
  then have "own_keys (es_panes (fst (openTab i (d\<lparr>et_paneId := []\<rparr>) st))) = [DEFAULT_PANE_ID]"
      "es_paneOrder (fst (openTab i (d\<lparr>et_paneId := []\<rparr>) st)) = []"
    by (cases "et_isPreview d"; simp add: openTab_def own_values_def own_entries_def target_pane_def str_or_def DEFAULT_PANE_ID_def
        close_preview_def insert_tab_def own_keys_def main Let_def)+
  with empty show ?thesis unfolding st_def Let_def by simp
qed

end
