(* ===== verification/Buckets.thy ===== *)
theory Buckets
  imports Js_Text Machines
begin

text \<open>
  The interface of the notification stores: items that arrive over a socket, kept in one list per
  session, each at most once however often it is delivered. The attention, approval and
  pending-change stores provide it.
\<close>

lemma bex_key: "(\<exists>a \<in> S. f a = i) \<longleftrightarrow> i \<in> f ` S"
  by force

locale bucket_store =
  fixes items :: "'s \<Rightarrow> ident \<Rightarrow> 'a list"
    and key :: "'a \<Rightarrow> ident"
    and sess :: "'a \<Rightarrow> ident"
    and add :: "'a \<Rightarrow> 's \<Rightarrow> 's"
    and clear :: "ident \<Rightarrow> 's \<Rightarrow> 's"
  assumes add_items: "set (items (add x s) k) =
      (if k = sess x \<and> key x \<notin> key ` set (items s k) then insert x (set (items s k)) else set (items s k))"
    and add_distinct: "distinct (map key (items s k)) \<Longrightarrow> distinct (map key (items (add x s) k))"
    and clear_items: "items (clear k s) k' = (if k' = k then [] else items s k')"
begin

lemma add_keys: "key ` set (items (add x s) k) =
    (if k = sess x then insert (key x) (key ` set (items s k)) else key ` set (items s k))"
  by (auto simp: add_items)

text \<open>Whatever was delivered, however often and in whatever order, is listed exactly once.\<close>

lemma delivered_keys:
  "key ` set (items (fold add xs s) k) = key ` set (items s k) \<union> key ` {x \<in> set xs. sess x = k}"
  by (induction xs arbitrary: s) (auto simp: add_keys)

lemma delivered_distinct:
  "distinct (map key (items s k)) \<Longrightarrow> distinct (map key (items (fold add xs s) k))"
  by (induction xs arbitrary: s) (auto simp: add_distinct)

lemma delivered_once:
  assumes "distinct (map key (items s k))"
  shows "distinct (map key (items (fold add xs s) k)) \<and>
    key ` set (items (fold add xs s) k) = key ` set (items s k) \<union> key ` {x \<in> set xs. sess x = k}"
  using assms by (simp add: delivered_distinct delivered_keys)

lemma redelivered: "set xs \<subseteq> set ys \<Longrightarrow>
    key ` set (items (fold add (ys @ xs) s) k) = key ` set (items (fold add ys s) k)"
  by (auto simp: delivered_keys)

lemma cleared_keys: "key ` set (items (fold add xs (clear k s)) k) = key ` {x \<in> set xs. sess x = k}"
  by (simp add: delivered_keys clear_items)

end

end
