(* ===== verification/Attention.thy ===== *)
theory Attention
  imports Buckets
begin

text \<open>
  The attention store (\<open>apps/web/src/stores/attention.ts\<close>): items that ask for the user's
  attention, per session, with a cached count of unread ones, the panel and the announcement
  settings. Dates are milliseconds.
\<close>

section \<open>Types\<close>

datatype attention_type = NeedsApproval | Completed | AttentionError | WaitingInput

datatype attention_priority = LowPriority | MediumPriority | HighPriority | CriticalPriority

record attention =
  at_id :: ident
  at_agentId :: ident
  at_agentName :: string
  at_sessionId :: ident
  at_type :: attention_type
  at_title :: string
  at_message :: string
  at_metadata :: "json option"
  at_priority :: attention_priority
  at_read :: bool
  at_dismissed :: bool
  at_createdAt :: int
  at_expiresAt :: "int option"

record attention_state =
  as_attentions :: "attention list obj"
  as_unread :: "nat obj"
  as_ttsEnabled :: bool
  as_announcePriorities :: "attention_priority list"
  as_panelOpen :: bool
  as_focusedAgentId :: "ident option"
  as_focusedSessionId :: "ident option"

definition init_attention :: attention_state where
  "init_attention =
     \<lparr>as_attentions = [], as_unread = [], as_ttsEnabled = True,
      as_announcePriorities = [HighPriority, CriticalPriority], as_panelOpen = False,
      as_focusedAgentId = None, as_focusedSessionId = None\<rparr>"

definition unread :: "attention \<Rightarrow> bool" where
  "unread a \<longleftrightarrow> \<not> at_read a \<and> \<not> at_dismissed a"

definition calculateUnreadCount :: "attention list \<Rightarrow> nat" where
  "calculateUnreadCount attentions = length (filter unread attentions)"

fun PRIORITY_ORDER :: "attention_priority \<Rightarrow> nat" where
  "PRIORITY_ORDER CriticalPriority = 0"
| "PRIORITY_ORDER HighPriority = 1"
| "PRIORITY_ORDER MediumPriority = 2"
| "PRIORITY_ORDER LowPriority = 3"

text \<open>Priorities are ordered as the code sorts them, the most urgent first.\<close>

lemma PRIORITY_ORDER_inj: "PRIORITY_ORDER p = PRIORITY_ORDER q \<longleftrightarrow> p = q"
  by (cases p; cases q) simp_all

instantiation attention_priority :: linorder
begin

definition "p \<le> q \<longleftrightarrow> PRIORITY_ORDER p \<le> PRIORITY_ORDER q"

definition "p < q \<longleftrightarrow> PRIORITY_ORDER p < PRIORITY_ORDER q"

instance
  by standard (auto simp: less_eq_attention_priority_def less_attention_priority_def PRIORITY_ORDER_inj)

end

section \<open>Actions\<close>

text \<open>Every action stores the changed list and the count together.\<close>

definition put_attentions :: "ident \<Rightarrow> attention list \<Rightarrow> nat \<Rightarrow> attention_state \<Rightarrow> attention_state" where
  "put_attentions sessionId updated count state =
     state\<lparr>as_attentions := AList.update sessionId updated (as_attentions state),
           as_unread := AList.update sessionId count (as_unread state)\<rparr>"

definition addAttention :: "attention \<Rightarrow> attention_state \<Rightarrow> attention_state" where
  "addAttention attention state =
     (let sessionAttentions = bucket (as_attentions state) (at_sessionId attention)
      in if \<exists>a \<in> set sessionAttentions. at_id a = at_id attention then state
         else let newAttentions = attention # sessionAttentions
              in put_attentions (at_sessionId attention) newAttentions
                   (calculateUnreadCount newAttentions) state)"

definition markAsRead :: "ident \<Rightarrow> ident \<Rightarrow> attention_state \<Rightarrow> attention_state" where
  "markAsRead sessionId attentionId state =
     (let updated = map_where (\<lambda>a. at_id a = attentionId) (\<lambda>a. a\<lparr>at_read := True\<rparr>)
            (bucket (as_attentions state) sessionId)
      in put_attentions sessionId updated (calculateUnreadCount updated) state)"

definition markAllAsReadForSession :: "ident \<Rightarrow> attention_state \<Rightarrow> attention_state" where
  "markAllAsReadForSession sessionId state =
     put_attentions sessionId
       (map_where (\<lambda>a. \<not> at_dismissed a) (\<lambda>a. a\<lparr>at_read := True\<rparr>) (bucket (as_attentions state) sessionId))
       0 state"

definition markAllAsReadForAgent :: "ident \<Rightarrow> ident \<Rightarrow> attention_state \<Rightarrow> attention_state" where
  "markAllAsReadForAgent sessionId agentId state =
     (let updated = map_where (\<lambda>a. at_agentId a = agentId \<and> \<not> at_dismissed a) (\<lambda>a. a\<lparr>at_read := True\<rparr>)
            (bucket (as_attentions state) sessionId)
      in put_attentions sessionId updated (calculateUnreadCount updated) state)"

definition dismissAttention :: "ident \<Rightarrow> ident \<Rightarrow> attention_state \<Rightarrow> attention_state" where
  "dismissAttention sessionId attentionId state =
     (let updated = map_where (\<lambda>a. at_id a = attentionId) (\<lambda>a. a\<lparr>at_dismissed := True\<rparr>)
            (bucket (as_attentions state) sessionId)
      in put_attentions sessionId updated (calculateUnreadCount updated) state)"

definition dismissAllForAgent :: "ident \<Rightarrow> ident \<Rightarrow> attention_state \<Rightarrow> attention_state" where
  "dismissAllForAgent sessionId agentId state =
     (let updated = map_where (\<lambda>a. at_agentId a = agentId) (\<lambda>a. a\<lparr>at_dismissed := True\<rparr>)
            (bucket (as_attentions state) sessionId)
      in put_attentions sessionId updated (calculateUnreadCount updated) state)"

definition dismissAllForSession :: "ident \<Rightarrow> attention_state \<Rightarrow> attention_state" where
  "dismissAllForSession sessionId state =
     put_attentions sessionId
       (map (\<lambda>a. a\<lparr>at_dismissed := True\<rparr>) (bucket (as_attentions state) sessionId)) 0 state"

definition clearAttentions :: "ident \<Rightarrow> attention_state \<Rightarrow> attention_state" where
  "clearAttentions sessionId state =
     state\<lparr>as_attentions := AList.delete sessionId (as_attentions state),
           as_unread := AList.delete sessionId (as_unread state)\<rparr>"

definition setFocusedAgent :: "ident option \<Rightarrow> ident option \<Rightarrow> attention_state \<Rightarrow> attention_state" where
  "setFocusedAgent sessionId agentId state =
     state\<lparr>as_focusedSessionId := sessionId, as_focusedAgentId := agentId\<rparr>"

definition openPanel :: "attention_state \<Rightarrow> attention_state" where
  "openPanel state = state\<lparr>as_panelOpen := True\<rparr>"

definition closePanel :: "attention_state \<Rightarrow> attention_state" where
  "closePanel state = state\<lparr>as_panelOpen := False\<rparr>"

definition togglePanel :: "attention_state \<Rightarrow> attention_state" where
  "togglePanel state = state\<lparr>as_panelOpen := \<not> as_panelOpen state\<rparr>"

definition setTTSEnabled :: "bool \<Rightarrow> attention_state \<Rightarrow> attention_state" where
  "setTTSEnabled enabled state = state\<lparr>as_ttsEnabled := enabled\<rparr>"

definition setAnnouncePriorities :: "attention_priority list \<Rightarrow> attention_state \<Rightarrow> attention_state" where
  "setAnnouncePriorities priorities state = state\<lparr>as_announcePriorities := priorities\<rparr>"

section \<open>Selectors\<close>

definition getAttentionsForSession :: "ident \<Rightarrow> attention_state \<Rightarrow> attention list" where
  "getAttentionsForSession sessionId state =
     filter (\<lambda>a. \<not> at_dismissed a) (bucket (as_attentions state) sessionId)"

definition getAttentionsForAgent :: "ident \<Rightarrow> ident \<Rightarrow> attention_state \<Rightarrow> attention list" where
  "getAttentionsForAgent sessionId agentId state =
     filter (\<lambda>a. at_agentId a = agentId \<and> \<not> at_dismissed a) (bucket (as_attentions state) sessionId)"

definition getUnreadCount :: "ident \<Rightarrow> attention_state \<Rightarrow> nat" where
  "getUnreadCount sessionId state = (case map_of (as_unread state) sessionId of None \<Rightarrow> 0 | Some n \<Rightarrow> n)"

definition getUnreadCountForAgent :: "ident \<Rightarrow> ident \<Rightarrow> attention_state \<Rightarrow> nat" where
  "getUnreadCountForAgent sessionId agentId state =
     length (filter (\<lambda>a. at_agentId a = agentId \<and> \<not> at_read a \<and> \<not> at_dismissed a)
       (bucket (as_attentions state) sessionId))"

definition hasAttentionForAgent :: "ident \<Rightarrow> ident \<Rightarrow> attention_state \<Rightarrow> bool" where
  "hasAttentionForAgent sessionId agentId state =
     (length (getAttentionsForAgent sessionId agentId state) > 0)"

definition hasUnreadForAgent :: "ident \<Rightarrow> ident \<Rightarrow> attention_state \<Rightarrow> bool" where
  "hasUnreadForAgent sessionId agentId state = (getUnreadCountForAgent sessionId agentId state > 0)"

text \<open>The sort is stable and acts on the copy that the filter made.\<close>

definition getHighestPriorityAttention :: "ident \<Rightarrow> ident \<Rightarrow> attention_state \<Rightarrow> attention option" where
  "getHighestPriorityAttention sessionId agentId state =
     (let attentions = getAttentionsForAgent sessionId agentId state
      in if attentions = [] then None
         else js_at (sort_key (\<lambda>a. PRIORITY_ORDER (at_priority a)) attentions) 0)"

section \<open>The store as a machine\<close>

datatype attention_event =
    AddAttention attention
  | MarkAsRead ident ident
  | MarkAllAsReadForSession ident
  | MarkAllAsReadForAgent ident ident
  | DismissAttention ident ident
  | DismissAllForAgent ident ident
  | DismissAllForSession ident
  | ClearAttentions ident
  | SetFocusedAgent "ident option" "ident option"
  | OpenPanel
  | ClosePanel
  | TogglePanel
  | SetTTSEnabled bool
  | SetAnnouncePriorities "attention_priority list"

primrec attention_step :: "attention_event \<Rightarrow> attention_state \<Rightarrow> attention_state" where
  "attention_step (AddAttention a) st = addAttention a st"
| "attention_step (MarkAsRead k i) st = markAsRead k i st"
| "attention_step (MarkAllAsReadForSession k) st = markAllAsReadForSession k st"
| "attention_step (MarkAllAsReadForAgent k a) st = markAllAsReadForAgent k a st"
| "attention_step (DismissAttention k i) st = dismissAttention k i st"
| "attention_step (DismissAllForAgent k a) st = dismissAllForAgent k a st"
| "attention_step (DismissAllForSession k) st = dismissAllForSession k st"
| "attention_step (ClearAttentions k) st = clearAttentions k st"
| "attention_step (SetFocusedAgent k a) st = setFocusedAgent k a st"
| "attention_step OpenPanel st = openPanel st"
| "attention_step ClosePanel st = closePanel st"
| "attention_step TogglePanel st = togglePanel st"
| "attention_step (SetTTSEnabled b) st = setTTSEnabled b st"
| "attention_step (SetAnnouncePriorities ps) st = setAnnouncePriorities ps st"

text \<open>The cached count is the real one, ids are unique per session, items are filed correctly.\<close>

definition attention_ok :: "attention_state \<Rightarrow> bool" where
  "attention_ok st \<longleftrightarrow> (\<forall>k. getUnreadCount k st = calculateUnreadCount (bucket (as_attentions st) k) \<and>
     distinct (map at_id (bucket (as_attentions st) k)) \<and>
     (\<forall>a \<in> set (bucket (as_attentions st) k). at_sessionId a = k))"

lemma put_attentions_simps [simp]:
  "bucket (as_attentions (put_attentions k xs n st)) k' = (if k' = k then xs else bucket (as_attentions st) k')"
  "getUnreadCount k' (put_attentions k xs n st) = (if k' = k then n else getUnreadCount k' st)"
  by (simp_all add: put_attentions_def getUnreadCount_def)

lemma put_ok:
  assumes "attention_ok st" "n = calculateUnreadCount xs" "map at_id xs = map at_id (bucket (as_attentions st) k)"
    and "\<forall>a \<in> set xs. at_sessionId a = k"
  shows "attention_ok (put_attentions k xs n st)"
  using assms by (simp add: attention_ok_def)

lemma none_unread: "\<forall>a \<in> set xs. \<not> unread a \<Longrightarrow> calculateUnreadCount xs = 0"
  by (simp add: calculateUnreadCount_def)

lemma addAttention_ok: "attention_ok st \<Longrightarrow> attention_ok (addAttention a st)"
  by (auto simp: attention_ok_def addAttention_def Let_def)

lemma edit_ok:
  assumes ok: "attention_ok st" and f: "\<And>a. at_id (f a) = at_id a" "\<And>a. at_sessionId (f a) = at_sessionId a"
    and n: "n = calculateUnreadCount (map_where P f (bucket (as_attentions st) k))"
  shows "attention_ok (put_attentions k (map_where P f (bucket (as_attentions st) k)) n st)"
  using ok n f by (intro put_ok) (auto simp: attention_ok_def set_map_where key_simps)

lemma attention_step_ok:
  assumes ok: "attention_ok st"
  shows "attention_ok (attention_step e st)"
proof (cases e)
  case (MarkAllAsReadForSession k)
  have "calculateUnreadCount (map_where (\<lambda>a. \<not> at_dismissed a) (\<lambda>a. a\<lparr>at_read := True\<rparr>)
      (bucket (as_attentions st) k)) = 0"
    by (rule none_unread) (auto simp: set_map_where unread_def)
  with MarkAllAsReadForSession ok show ?thesis
    by (simp add: markAllAsReadForSession_def edit_ok)
next
  case (DismissAllForSession k)
  have "0 = calculateUnreadCount (map (\<lambda>a. a\<lparr>at_dismissed := True\<rparr>) (bucket (as_attentions st) k))"
    by (rule none_unread [symmetric]) (simp add: unread_def)
  then have "attention_ok (dismissAllForSession k st)"
    unfolding dismissAllForSession_def by (intro put_ok [OF ok]) (use ok in \<open>auto simp: attention_ok_def\<close>)
  with DismissAllForSession show ?thesis by simp
next
  case (ClearAttentions k)
  with ok show ?thesis
    by (simp add: attention_ok_def clearAttentions_def getUnreadCount_def calculateUnreadCount_def)
qed (use ok in \<open>simp_all add: addAttention_ok markAsRead_def markAllAsReadForAgent_def dismissAttention_def
    dismissAllForAgent_def Let_def edit_ok\<close>,
  simp_all add: attention_ok_def getUnreadCount_def setFocusedAgent_def openPanel_def closePanel_def
    togglePanel_def setTTSEnabled_def setAnnouncePriorities_def)

lemma init_attention_ok: "attention_ok init_attention"
  by (simp add: attention_ok_def init_attention_def getUnreadCount_def calculateUnreadCount_def)

interpretation attention: machine attention_step "\<lambda>e st. True" attention_ok init_attention
  by unfold_locales (simp_all add: init_attention_ok attention_step_ok)

interpretation attention_bucket: bucket_store "\<lambda>st. bucket (as_attentions st)" at_id at_sessionId
  addAttention clearAttentions
  by unfold_locales (auto simp: addAttention_def clearAttentions_def Let_def bex_key)

section \<open>Properties\<close>

text \<open>
  C14: The cached unread counter of a session is the number of its unread, undismissed items after
  every history of actions.
\<close>

theorem unread_counter_coherent:
  "getUnreadCount k (fold attention_step es init_attention) =
     length (filter (\<lambda>a. \<not> at_read a) (getAttentionsForSession k (fold attention_step es init_attention)))"
proof -
  have "attention_ok (fold attention_step es init_attention)"
    by (rule attention.inv_history) simp
  then show ?thesis
    by (simp add: attention_ok_def calculateUnreadCount_def getAttentionsForSession_def unread_def conj_commute cong: filter_cong)
qed

text \<open>
  Attention items that are delivered again add nothing: after any sequence of deliveries to an
  empty store a session lists exactly the delivered ids, each once.
\<close>

theorem attentions_listed_once:
  "distinct (map at_id (bucket (as_attentions (fold addAttention xs init_attention)) k)) \<and>
   at_id ` set (bucket (as_attentions (fold addAttention xs init_attention)) k) =
     at_id ` {a \<in> set xs. at_sessionId a = k}"
  using attention_bucket.delivered_once [of init_attention k xs] by (simp add: init_attention_def)

lemma sort_key_hd:
  assumes "xs \<noteq> []"
  shows "hd (sort_key f xs) \<in> set xs \<and> (\<forall>x \<in> set xs. f (hd (sort_key f xs)) \<le> f x)"
proof -
  obtain y ys where y: "sort_key f xs = y # ys"
    using assms by (cases "sort_key f xs") (auto simp flip: set_empty dest: arg_cong [where f = set])
  have "sorted (map f (y # ys))" "set xs = set (y # ys)"
    by (simp_all only: y [symmetric] sorted_sort_key set_sort)
  then show ?thesis
    by (simp add: y)
qed

text \<open>
  The highest-priority item of an agent is one of its undismissed items, none of them has a
  more urgent priority, and there is none exactly when the agent has no undismissed item; among
  equally urgent ones it is the one added last.
\<close>

theorem highest_priority_is_highest:
  "case getHighestPriorityAttention k a st of
     None \<Rightarrow> \<not> hasAttentionForAgent k a st
   | Some x \<Rightarrow> x \<in> set (getAttentionsForAgent k a st) \<and>
       (\<forall>y \<in> set (getAttentionsForAgent k a st). at_priority x \<le> at_priority y) \<and>
       x = hd (filter (\<lambda>y. at_priority y = at_priority x) (getAttentionsForAgent k a st))"
proof (cases "getAttentionsForAgent k a st = []")
  case True
  then show ?thesis by (simp add: getHighestPriorityAttention_def hasAttentionForAgent_def)
next
  case False
  let ?xs = "getAttentionsForAgent k a st" and ?f = "\<lambda>a. PRIORITY_ORDER (at_priority a)"
  define x where "x = hd (sort_key ?f ?xs)"
  have ne: "sort_key ?f ?xs \<noteq> []" using False by (simp flip: set_empty)
  have x: "getHighestPriorityAttention k a st = Some x"
    using False ne by (simp add: getHighestPriorityAttention_def Let_def js_at_def x_def hd_conv_nth)
  have "filter (\<lambda>y. ?f y = ?f x) (sort_key ?f ?xs) = filter (\<lambda>y. ?f y = ?f x) ?xs"
    by (rule sort_key_stable)
  moreover have "hd (filter (\<lambda>y. ?f y = ?f x) (sort_key ?f ?xs)) = x"
    using ne unfolding x_def by (cases "sort_key ?f ?xs") auto
  ultimately have "x = hd (filter (\<lambda>y. at_priority y = at_priority x) ?xs)"
    by (simp add: PRIORITY_ORDER_inj)
  then show ?thesis
    using x sort_key_hd [OF False, of ?f] by (simp add: x_def less_eq_attention_priority_def)
qed

definition ex_attention :: "ident \<Rightarrow> attention_priority \<Rightarrow> attention" where
  "ex_attention i p = \<lparr>at_id = i, at_agentId = ''a'', at_agentName = ''A'', at_sessionId = ''s'', at_type = Completed,
     at_title = [], at_message = [], at_metadata = None, at_priority = p, at_read = False, at_dismissed = False,
     at_createdAt = 0, at_expiresAt = None\<rparr>"

theorem highest_priority_is_highest_witness:
  "let st = fold addAttention [ex_attention ''x'' HighPriority, ex_attention ''y'' LowPriority] init_attention
   in getHighestPriorityAttention ''s'' ''a'' st \<noteq> None"
proof -
  let ?st = "fold addAttention [ex_attention ''x'' HighPriority, ex_attention ''y'' LowPriority] init_attention"
  have "hasAttentionForAgent ''s'' ''a'' ?st"
    by (simp add: hasAttentionForAgent_def getAttentionsForAgent_def ex_attention_def addAttention_def init_attention_def
        Let_def bucket_def put_attentions_def)
  with highest_priority_is_highest [of "''s''" "''a''" ?st] show ?thesis
    unfolding Let_def by (auto split: option.splits)
qed

end
