(* ===== verification/Approvals.thy ===== *)
theory Approvals
  imports Buckets
begin

text \<open>
  The approvals store (\<open>apps/web/src/stores/approvals.ts\<close>): requests of agents to write a file
  or run a command, per session, and the one whose dialog is open. A resolved request is removed
  by a timer half a second later; pending timers are part of the state here, and may fire in any
  order. The conversion from the API's record is not modelled (it parses dates).
\<close>

section \<open>Types\<close>

datatype approval_action = FileWrite | CommandExecute

datatype approval_status = ApprovalPending | Approved | Rejected | Expired

record approval_details =
  ad_toolName :: "string option"
  ad_filePath :: "string option"
  ad_command :: "string option"
  ad_arguments :: "json option"

record approval =
  ap_id :: ident
  ap_agentId :: ident
  ap_agentName :: string
  ap_sessionId :: ident
  ap_actionType :: approval_action
  ap_actionDetails :: approval_details
  ap_status :: approval_status
  ap_expiresAt :: int
  ap_createdAt :: int

record approvals_state =
  aps_pending :: "approval list obj"
  aps_active :: "approval option"

definition init_approvals :: approvals_state where
  "init_approvals = \<lparr>aps_pending = [], aps_active = None\<rparr>"

section \<open>Actions\<close>

definition addApproval :: "approval \<Rightarrow> approvals_state \<Rightarrow> approvals_state" where
  "addApproval approval state =
     (let sessionApprovals = bucket (aps_pending state) (ap_sessionId approval)
      in if \<exists>a \<in> set sessionApprovals. ap_id a = ap_id approval then state
         else state\<lparr>aps_pending := AList.update (ap_sessionId approval) (sessionApprovals @ [approval])
                      (aps_pending state),
                    aps_active := Some (coalesce (aps_active state) approval)\<rparr>)"

definition next_pending :: "approval list \<Rightarrow> approval option" where
  "next_pending = find (\<lambda>a. ap_status a = ApprovalPending)"

definition removeApproval :: "ident \<Rightarrow> ident \<Rightarrow> approvals_state \<Rightarrow> approvals_state" where
  "removeApproval sessionId approvalId state =
     (let updatedApprovals = filter (\<lambda>a. ap_id a \<noteq> approvalId) (bucket (aps_pending state) sessionId)
      in state\<lparr>aps_pending := AList.update sessionId updatedApprovals (aps_pending state),
               aps_active := (if map_option ap_id (aps_active state) = Some approvalId
                  then next_pending updatedApprovals else aps_active state)\<rparr>)"

definition clearSessionApprovals :: "ident \<Rightarrow> approvals_state \<Rightarrow> approvals_state" where
  "clearSessionApprovals sessionId state =
     state\<lparr>aps_pending := AList.delete sessionId (aps_pending state),
           aps_active := (if map_option ap_sessionId (aps_active state) = Some sessionId
              then None else aps_active state)\<rparr>"

definition clearAgentApprovals :: "ident \<Rightarrow> ident \<Rightarrow> approvals_state \<Rightarrow> approvals_state" where
  "clearAgentApprovals sessionId agentId state =
     (let updatedApprovals = filter (\<lambda>a. ap_agentId a \<noteq> agentId) (bucket (aps_pending state) sessionId)
      in state\<lparr>aps_pending := AList.update sessionId updatedApprovals (aps_pending state),
               aps_active := (if map_option ap_agentId (aps_active state) = Some agentId
                  then next_pending updatedApprovals else aps_active state)\<rparr>)"

definition setActiveApproval :: "approval option \<Rightarrow> approvals_state \<Rightarrow> approvals_state" where
  "setActiveApproval approval state = state\<lparr>aps_active := approval\<rparr>"

text \<open>Updating the status arms a removal timer for every status but \<open>pending\<close>.\<close>

type_synonym approval_timers = "(ident \<times> ident) list"

definition updateApprovalStatus ::
    "ident \<Rightarrow> ident \<Rightarrow> approval_status \<Rightarrow> approvals_state \<times> approval_timers \<Rightarrow>
     approvals_state \<times> approval_timers" where
  "updateApprovalStatus sessionId approvalId status st =
     (let (state, timers) = st
      in (state\<lparr>aps_pending := AList.update sessionId
              (map_where (\<lambda>a. ap_id a = approvalId) (\<lambda>a. a\<lparr>ap_status := status\<rparr>)
                 (bucket (aps_pending state) sessionId))
              (aps_pending state)\<rparr>,
          if status \<noteq> ApprovalPending then timers @ [(sessionId, approvalId)] else timers))"

text \<open>The timer's callback.\<close>

definition approval_timeout :: "ident \<Rightarrow> ident \<Rightarrow> approvals_state \<Rightarrow> approvals_state" where
  "approval_timeout sessionId approvalId state =
     (if \<exists>a \<in> set (bucket (aps_pending state) sessionId). ap_id a = approvalId
      then removeApproval sessionId approvalId state else state)"

section \<open>Selectors\<close>

definition getSessionApprovals :: "ident \<Rightarrow> approvals_state \<Rightarrow> approval list" where
  "getSessionApprovals sessionId state = bucket (aps_pending state) sessionId"

definition getAgentApprovals :: "ident \<Rightarrow> ident \<Rightarrow> approvals_state \<Rightarrow> approval list" where
  "getAgentApprovals sessionId agentId state =
     filter (\<lambda>a. ap_agentId a = agentId) (bucket (aps_pending state) sessionId)"

definition getApprovalCount :: "ident \<Rightarrow> approvals_state \<Rightarrow> nat" where
  "getApprovalCount sessionId state =
     length (filter (\<lambda>a. ap_status a = ApprovalPending) (bucket (aps_pending state) sessionId))"

definition hasApprovals :: "ident \<Rightarrow> approvals_state \<Rightarrow> bool" where
  "hasApprovals sessionId state = (getApprovalCount sessionId state > 0)"

section \<open>The store as a machine\<close>

datatype approval_event =
    AddApproval approval
  | RemoveApproval ident ident
  | ClearSessionApprovals ident
  | ClearAgentApprovals ident ident
  | SetActiveApproval "approval option"
  | UpdateApprovalStatus ident ident approval_status
  | ApprovalTimer nat

fun approval_step :: "approval_event \<Rightarrow> approvals_state \<times> approval_timers \<Rightarrow> approvals_state \<times> approval_timers" where
  "approval_step (AddApproval a) (st, ts) = (addApproval a st, ts)"
| "approval_step (RemoveApproval k i) (st, ts) = (removeApproval k i st, ts)"
| "approval_step (ClearSessionApprovals k) (st, ts) = (clearSessionApprovals k st, ts)"
| "approval_step (ClearAgentApprovals k a) (st, ts) = (clearAgentApprovals k a st, ts)"
| "approval_step (SetActiveApproval a) (st, ts) = (setActiveApproval a st, ts)"
| "approval_step (UpdateApprovalStatus k i s) (st, ts) = updateApprovalStatus k i s (st, ts)"
| "approval_step (ApprovalTimer n) (st, ts) =
     (if n < length ts
      then (approval_timeout (fst (ts ! n)) (snd (ts ! n)) st, take n ts @ drop (Suc n) ts)
      else (st, ts))"

















interpretation approval_bucket: bucket_store "\<lambda>st. bucket (aps_pending st)" ap_id ap_sessionId
  addApproval clearSessionApprovals
  by unfold_locales (auto simp: addApproval_def clearSessionApprovals_def Let_def bex_key)

section \<open>Properties\<close>


definition ex_approval :: "ident \<Rightarrow> approval" where
  "ex_approval i = \<lparr>ap_id = i, ap_agentId = ''a'', ap_agentName = ''A'', ap_sessionId = ''s'',
     ap_actionType = FileWrite, ap_actionDetails = \<lparr>ad_toolName = None, ad_filePath = Some ''x'',
     ad_command = None, ad_arguments = None\<rparr>, ap_status = ApprovalPending, ap_expiresAt = 9, ap_createdAt = 1\<rparr>"



text \<open>
  Approval requests that are delivered again add nothing: a session lists exactly the delivered
  ids, each once.
\<close>

theorem approvals_listed_once:
  "distinct (map ap_id (getSessionApprovals k (fold addApproval xs init_approvals))) \<and>
   ap_id ` set (getSessionApprovals k (fold addApproval xs init_approvals)) = ap_id ` {a \<in> set xs. ap_sessionId a = k}"
  using approval_bucket.delivered_once [of init_approvals k xs]
  by (simp add: init_approvals_def getSessionApprovals_def)

text \<open>
  A resolved request leaves: approving, rejecting or expiring it arms a timer, and when that
  fires the request is gone, the others of the session are untouched, and a dialog that still
  showed it has moved on to the session's next pending request, or closed.
\<close>

theorem resolved_approval_leaves:
  assumes s: "s \<noteq> ApprovalPending" and i: "i \<in> ap_id ` set (bucket (aps_pending st) k)"
    and st': "st' = fst (approval_step (ApprovalTimer (length ts)) (updateApprovalStatus k i s (st, ts)))"
  shows "getSessionApprovals k st' = filter (\<lambda>a. ap_id a \<noteq> i) (getSessionApprovals k st) \<and>
    (map_option ap_id (aps_active st) = Some i \<longrightarrow>
       aps_active st' = find (\<lambda>a. ap_status a = ApprovalPending \<and> ap_id a \<noteq> i) (getSessionApprovals k st)) \<and>
    snd (approval_step (ApprovalTimer (length ts)) (updateApprovalStatus k i s (st, ts))) = ts"
proof -
  let ?f = "map_where (\<lambda>a. ap_id a = i) (\<lambda>a. a\<lparr>ap_status := s\<rparr>)"
  have others: "filter (\<lambda>a. ap_id a \<noteq> i) (?f xs) = filter (\<lambda>a. ap_id a \<noteq> i) xs" for xs
    by (induction xs) auto
  have next_one: "find P (filter Q xs) = find (\<lambda>a. P a \<and> Q a) xs" for P Q and xs :: "approval list"
    by (induction xs) auto
  have "\<exists>a \<in> set (?f (bucket (aps_pending st) k)). ap_id a = i"
  proof -
    have "map ap_id (?f xs) = map ap_id xs" for xs by (induction xs) auto
    then have "i \<in> ap_id ` set (?f (bucket (aps_pending st) k))" using i by (metis list.set_map)
    then show ?thesis by (simp add: bex_key)
  qed
  with s show ?thesis
    unfolding st' by (simp add: updateApprovalStatus_def approval_timeout_def removeApproval_def Let_def
        getSessionApprovals_def others next_pending_def next_one)
qed

theorem resolved_approval_leaves_witness:
  "getSessionApprovals ''s'' (fst (approval_step (ApprovalTimer 0)
     (updateApprovalStatus ''s'' ''p'' Rejected (fold addApproval [ex_approval ''p'', ex_approval ''q''] init_approvals, [])))) =
   [ex_approval ''q'']"
proof -
  have "''p'' \<in> ap_id ` set (bucket (aps_pending (fold addApproval [ex_approval ''p'', ex_approval ''q''] init_approvals)) ''s'')"
    by (simp add: ex_approval_def init_approvals_def addApproval_def Let_def bucket_def)
  from resolved_approval_leaves [OF _ this refl, of Rejected "[]"] show ?thesis
    by (simp add: getSessionApprovals_def ex_approval_def init_approvals_def addApproval_def Let_def bucket_def)
qed

end
