(* ===== verification/Pending_Changes.thy ===== *)
theory Pending_Changes
  imports Buckets
begin

text \<open>
  The store of proposed file changes (\<open>apps/web/src/stores/pendingChanges.ts\<close>), per session,
  and the change under review. A resolved change is removed by a timer two seconds later; pending
  timers are part of the state, and may fire in any order. The conversion from the API's record is
  not modelled (it parses dates).
\<close>

section \<open>Types\<close>

datatype change_status = ChangePending | ChangeAccepted | ChangeRejected

record pending_change =
  pc_id :: ident
  pc_sessionId :: ident
  pc_agentId :: ident
  pc_agentName :: string
  pc_filePath :: string
  pc_originalContent :: "string option"
  pc_proposedContent :: string
  pc_description :: "string option"
  pc_status :: change_status
  pc_createdAt :: int

record changes_state =
  cs_changes :: "pending_change list obj"
  cs_activeReviewId :: "ident option"
  cs_activeSessionId :: "ident option"

definition init_changes :: changes_state where
  "init_changes = \<lparr>cs_changes = [], cs_activeReviewId = None, cs_activeSessionId = None\<rparr>"

section \<open>Actions\<close>

definition addChange :: "pending_change \<Rightarrow> changes_state \<Rightarrow> changes_state" where
  "addChange change state =
     (let sessionChanges = bucket (cs_changes state) (pc_sessionId change)
      in if \<exists>c \<in> set sessionChanges. pc_id c = pc_id change then state
         else state\<lparr>cs_changes := AList.update (pc_sessionId change) (sessionChanges @ [change])
                      (cs_changes state),
                    cs_activeReviewId := Some (coalesce (cs_activeReviewId state) (pc_id change)),
                    cs_activeSessionId := Some (coalesce (cs_activeSessionId state) (pc_sessionId change))\<rparr>)"

definition next_change :: "pending_change list \<Rightarrow> pending_change option" where
  "next_change = find (\<lambda>c. pc_status c = ChangePending)"

text \<open>Store a list and, when the reviewed change is resolved, move the review on.\<close>

definition put_changes :: "ident \<Rightarrow> pending_change list \<Rightarrow> bool \<Rightarrow> changes_state \<Rightarrow> changes_state" where
  "put_changes sessionId updatedChanges moves_on state =
     (let nextPending = next_change updatedChanges
      in state\<lparr>cs_changes := AList.update sessionId updatedChanges (cs_changes state),
               cs_activeReviewId := (if moves_on then map_option pc_id nextPending
                                     else cs_activeReviewId state),
               cs_activeSessionId := (if moves_on
                  then (if nextPending \<noteq> None then Some sessionId else None)
                  else cs_activeSessionId state)\<rparr>)"

definition removeChange :: "ident \<Rightarrow> ident \<Rightarrow> changes_state \<Rightarrow> changes_state" where
  "removeChange sessionId changeId state =
     put_changes sessionId (filter (\<lambda>c. pc_id c \<noteq> changeId) (bucket (cs_changes state) sessionId))
       (cs_activeReviewId state = Some changeId) state"

definition clearSessionChanges :: "ident \<Rightarrow> changes_state \<Rightarrow> changes_state" where
  "clearSessionChanges sessionId state =
     (let here = (cs_activeSessionId state = Some sessionId)
      in state\<lparr>cs_changes := AList.delete sessionId (cs_changes state),
               cs_activeReviewId := (if here then None else cs_activeReviewId state),
               cs_activeSessionId := (if here then None else cs_activeSessionId state)\<rparr>)"

type_synonym change_timers = "(ident \<times> ident) list"

definition updateChangeStatus ::
    "ident \<Rightarrow> ident \<Rightarrow> change_status \<Rightarrow> changes_state \<times> change_timers \<Rightarrow> changes_state \<times> change_timers" where
  "updateChangeStatus sessionId changeId status st =
     (let (state, timers) = st
      in (put_changes sessionId
            (map_where (\<lambda>c. pc_id c = changeId) (\<lambda>c. c\<lparr>pc_status := status\<rparr>)
               (bucket (cs_changes state) sessionId))
            (status \<noteq> ChangePending \<and> cs_activeReviewId state = Some changeId) state,
          if status \<noteq> ChangePending then timers @ [(sessionId, changeId)] else timers))"

definition change_timeout :: "ident \<Rightarrow> ident \<Rightarrow> changes_state \<Rightarrow> changes_state" where
  "change_timeout sessionId changeId state =
     (if \<exists>c \<in> set (bucket (cs_changes state) sessionId). pc_id c = changeId
      then removeChange sessionId changeId state else state)"

definition openReview :: "ident \<Rightarrow> ident \<Rightarrow> changes_state \<Rightarrow> changes_state" where
  "openReview sessionId changeId state =
     state\<lparr>cs_activeReviewId := Some changeId, cs_activeSessionId := Some sessionId\<rparr>"

definition closeReview :: "changes_state \<Rightarrow> changes_state" where
  "closeReview state = state\<lparr>cs_activeReviewId := None, cs_activeSessionId := None\<rparr>"

section \<open>Selectors\<close>

definition getSessionChanges :: "ident \<Rightarrow> changes_state \<Rightarrow> pending_change list" where
  "getSessionChanges sessionId state = bucket (cs_changes state) sessionId"

definition getPendingCount :: "ident \<Rightarrow> changes_state \<Rightarrow> nat" where
  "getPendingCount sessionId state =
     length (filter (\<lambda>c. pc_status c = ChangePending) (bucket (cs_changes state) sessionId))"

definition hasPendingChanges :: "ident \<Rightarrow> changes_state \<Rightarrow> bool" where
  "hasPendingChanges sessionId state = (getPendingCount sessionId state > 0)"

definition getActiveChange :: "changes_state \<Rightarrow> pending_change option" where
  "getActiveChange state =
     (if \<not> truthy (cs_activeReviewId state) \<or> \<not> truthy (cs_activeSessionId state) then None
      else find (\<lambda>c. Some (pc_id c) = cs_activeReviewId state)
             (bucket (cs_changes state) (the (cs_activeSessionId state))))"

section \<open>The store as a machine\<close>

datatype change_event =
    AddChange pending_change
  | RemoveChange ident ident
  | ClearSessionChanges ident
  | UpdateChangeStatus ident ident change_status
  | OpenReview ident ident
  | CloseReview
  | ChangeTimer nat

fun change_step :: "change_event \<Rightarrow> changes_state \<times> change_timers \<Rightarrow> changes_state \<times> change_timers" where
  "change_step (AddChange c) (st, ts) = (addChange c st, ts)"
| "change_step (RemoveChange k i) (st, ts) = (removeChange k i st, ts)"
| "change_step (ClearSessionChanges k) (st, ts) = (clearSessionChanges k st, ts)"
| "change_step (UpdateChangeStatus k i s) (st, ts) = updateChangeStatus k i s (st, ts)"
| "change_step (OpenReview k i) (st, ts) = (openReview k i st, ts)"
| "change_step CloseReview (st, ts) = (closeReview st, ts)"
| "change_step (ChangeTimer n) (st, ts) =
     (if n < length ts
      then (change_timeout (fst (ts ! n)) (snd (ts ! n)) st, take n ts @ drop (Suc n) ts)
      else (st, ts))"

text \<open>The two halves of the review pointer agree and name a listed change.\<close>

definition review_ok :: "pending_change list obj \<Rightarrow> ident option \<Rightarrow> ident option \<Rightarrow> bool" where
  "review_ok m i k \<longleftrightarrow> (i = None \<and> k = None) \<or>
     (\<exists>j s. i = Some j \<and> k = Some s \<and> j \<noteq> [] \<and> s \<noteq> [] \<and> j \<in> pc_id ` set (bucket m s))"

definition changes_ok :: "changes_state \<Rightarrow> bool" where
  "changes_ok st \<longleftrightarrow>
     (\<forall>k. distinct (map pc_id (bucket (cs_changes st) k)) \<and>
        (\<forall>c \<in> set (bucket (cs_changes st) k). pc_sessionId c = k \<and> pc_id c \<noteq> [] \<and> k \<noteq> [])) \<and>
     review_ok (cs_changes st) (cs_activeReviewId st) (cs_activeSessionId st)"

fun change_guard :: "change_event \<Rightarrow> changes_state \<times> change_timers \<Rightarrow> bool" where
  "change_guard (AddChange c) _ = (pc_id c \<noteq> [] \<and> pc_sessionId c \<noteq> [])"
| "change_guard (OpenReview k i) (st, ts) =
     (i \<noteq> [] \<and> k \<noteq> [] \<and> i \<in> pc_id ` set (bucket (cs_changes st) k))"
| "change_guard _ _ = True"

lemma addChange_ok:
  assumes ok: "changes_ok st" and c: "pc_id c \<noteq> []" "pc_sessionId c \<noteq> []"
  shows "changes_ok (addChange c st)"
proof (cases "pc_id c \<in> pc_id ` set (bucket (cs_changes st) (pc_sessionId c))")
  case True
  with ok show ?thesis by (simp add: addChange_def Let_def bex_key)
next
  case False
  have "review_ok (cs_changes (addChange c st)) (cs_activeReviewId (addChange c st)) (cs_activeSessionId (addChange c st))"
    using ok False c by (auto simp: changes_ok_def review_ok_def addChange_def Let_def bex_key)
  with ok False c show ?thesis
    by (auto simp: changes_ok_def addChange_def Let_def bex_key)
qed

lemma review_ok_mono:
  assumes "review_ok m i k"
    and "\<And>j s. i = Some j \<Longrightarrow> k = Some s \<Longrightarrow> j \<in> pc_id ` set (bucket m s) \<Longrightarrow> j \<in> pc_id ` set (bucket m' s)"
  shows "review_ok m' i k"
proof (cases "i = None \<and> k = None")
  case False
  then obtain j s where js: "i = Some j" "k = Some s" "j \<noteq> []" "s \<noteq> []" "j \<in> pc_id ` set (bucket m s)"
    using assms(1) unfolding review_ok_def by metis
  with assms(2) [OF js(1,2,5)] show ?thesis
    unfolding review_ok_def by metis
qed (simp add: review_ok_def)

lemma put_changes_ok:
  assumes ok: "changes_ok st" and d: "distinct (map pc_id xs)"
    and xs: "\<forall>c \<in> set xs. pc_sessionId c = k \<and> pc_id c \<noteq> [] \<and> k \<noteq> []"
    and stay: "\<not> b \<Longrightarrow> pc_id ` set (bucket (cs_changes st) k) \<subseteq>
      pc_id ` set xs \<union> {i. cs_activeReviewId st \<noteq> Some i}"
  shows "changes_ok (put_changes k xs b st)"
proof -
  have "review_ok (cs_changes (put_changes k xs b st)) (cs_activeReviewId (put_changes k xs b st))
      (cs_activeSessionId (put_changes k xs b st))"
  proof (cases b)
    case True
    show ?thesis
    proof (cases "next_change xs")
      case (Some c)
      then have "c \<in> set xs" by (auto simp: next_change_def find_Some_iff)
      with True Some xs show ?thesis by (auto simp: review_ok_def put_changes_def Let_def)
    qed (use True in \<open>simp add: review_ok_def put_changes_def Let_def\<close>)
  next
    case False
    have old: "review_ok (cs_changes st) (cs_activeReviewId st) (cs_activeSessionId st)"
      using ok by (simp add: changes_ok_def)
    have "review_ok (cs_changes (put_changes k xs b st)) (cs_activeReviewId st) (cs_activeSessionId st)"
    proof (rule review_ok_mono [OF old])
      fix j s
      assume "cs_activeReviewId st = Some j" "j \<in> pc_id ` set (bucket (cs_changes st) s)"
      with stay [OF False] show "j \<in> pc_id ` set (bucket (cs_changes (put_changes k xs b st)) s)"
        by (cases "s = k") (auto simp: put_changes_def Let_def simp del: set_map image_iff)
    qed
    with False show ?thesis by (simp add: put_changes_def Let_def)
  qed
  with ok d xs show ?thesis
    by (auto simp: changes_ok_def put_changes_def Let_def)
qed

lemma removeChange_ok: "changes_ok st \<Longrightarrow> changes_ok (removeChange k i st)"
  unfolding removeChange_def by (rule put_changes_ok) (auto simp: changes_ok_def distinct_map_filter)

lemma updateChangeStatus_ok: "changes_ok st \<Longrightarrow> changes_ok (fst (updateChangeStatus k i s (st, ts)))"
  unfolding updateChangeStatus_def Let_def split_conv fst_conv
proof (rule put_changes_ok)
  let ?f = "map_where (\<lambda>c. pc_id c = i) (\<lambda>c. c\<lparr>pc_status := s\<rparr>)"
  have ids: "map pc_id (?f xs) = map pc_id xs" for xs by (induction xs) auto
  assume ok: "changes_ok st"
  then show "distinct (map pc_id (?f (bucket (cs_changes st) k)))" by (simp add: ids changes_ok_def)
  show "pc_id ` set (bucket (cs_changes st) k) \<subseteq> pc_id ` set (?f (bucket (cs_changes st) k)) \<union>
      {i. cs_activeReviewId st \<noteq> Some i}"
    using ids by (metis Un_upper1 list.set_map)
  show "\<forall>c \<in> set (?f (bucket (cs_changes st) k)). pc_sessionId c = k \<and> pc_id c \<noteq> [] \<and> k \<noteq> []"
    using ok by (auto simp: changes_ok_def ball_map_where)
qed

lemma change_step_ok:
  assumes ok: "changes_ok (fst c)" and g: "change_guard e c"
  shows "changes_ok (fst (change_step e c))"
proof -
  obtain st ts where c: "c = (st, ts)" by (cases c)
  show ?thesis
  proof (cases e)
    case (ClearSessionChanges k)
    with ok c show ?thesis by (auto simp: changes_ok_def clearSessionChanges_def review_ok_def Let_def del: imageE)
  next
    case (OpenReview k i)
    with ok g c show ?thesis by (auto simp: changes_ok_def openReview_def review_ok_def)
  next
    case CloseReview
    with ok c show ?thesis by (auto simp: changes_ok_def closeReview_def review_ok_def)
  qed (use ok g c in \<open>simp_all add: addChange_ok removeChange_ok updateChangeStatus_ok change_timeout_def\<close>)
qed

interpretation changes: machine change_step change_guard "\<lambda>c. changes_ok (fst c)" "(init_changes, [])"
proof unfold_locales
  show "changes_ok (fst (init_changes, []))"
    by (simp add: changes_ok_def init_changes_def review_ok_def)
qed (rule change_step_ok)

interpretation change_bucket: bucket_store "\<lambda>st. bucket (cs_changes st)" pc_id pc_sessionId
  addChange clearSessionChanges
  by unfold_locales (auto simp: addChange_def clearSessionChanges_def Let_def bex_key)

section \<open>Properties\<close>

text \<open>
  In every history of actions and timers (with non-empty ids, reviews opened on listed changes)
  the change under review exists: whenever a review is open, the selector finds its change.
\<close>

theorem reviewed_change_exists:
  assumes "guarded change_guard change_step es (init_changes, [])"
    and "st = fst (fold change_step es (init_changes, []))" "cs_activeReviewId st \<noteq> None"
  shows "\<exists>c. getActiveChange st = Some c \<and> Some (pc_id c) = cs_activeReviewId st \<and>
     Some (pc_sessionId c) = cs_activeSessionId st \<and> c \<in> set (getSessionChanges (pc_sessionId c) st)"
proof -
  have ok: "changes_ok st"
    using changes.inv_history [OF assms(1)] assms(2) by simp
  with assms(3) obtain j s where js: "cs_activeReviewId st = Some j" "cs_activeSessionId st = Some s"
      "j \<noteq> []" "s \<noteq> []" "j \<in> pc_id ` set (bucket (cs_changes st) s)"
    by (auto simp: changes_ok_def review_ok_def)
  then obtain c where c: "find (\<lambda>c. pc_id c = j) (bucket (cs_changes st) s) = Some c"
    by (cases "find (\<lambda>c. pc_id c = j) (bucket (cs_changes st) s)") (auto simp: find_None_iff)
  then have "c \<in> set (bucket (cs_changes st) s)" "pc_id c = j"
    by (auto simp: find_Some_iff)
  moreover from this ok have "pc_sessionId c = s" by (auto simp: changes_ok_def)
  ultimately show ?thesis
    using js c by (simp add: getActiveChange_def getSessionChanges_def)
qed

definition ex_change :: "ident \<Rightarrow> pending_change" where
  "ex_change i = \<lparr>pc_id = i, pc_sessionId = ''s'', pc_agentId = ''a'', pc_agentName = ''A'', pc_filePath = ''f'',
     pc_originalContent = None, pc_proposedContent = ''x'', pc_description = None, pc_status = ChangePending,
     pc_createdAt = 0\<rparr>"

definition ex_change_events :: "change_event list" where
  "ex_change_events = [AddChange (ex_change ''c''), AddChange (ex_change ''d''),
     UpdateChangeStatus ''s'' ''c'' ChangeAccepted, ChangeTimer 0]"

theorem reviewed_change_exists_witness:
  "getActiveChange (fst (fold change_step ex_change_events (init_changes, []))) \<noteq> None"
proof -
  have h: "guarded change_guard change_step ex_change_events (init_changes, [])"
    "cs_activeReviewId (fst (fold change_step ex_change_events (init_changes, []))) \<noteq> None"
    by (simp_all add: ex_change_events_def ex_change_def init_changes_def addChange_def updateChangeStatus_def
        change_timeout_def removeChange_def put_changes_def next_change_def Let_def bucket_def)
  from reviewed_change_exists [OF h(1) refl h(2)] show ?thesis by blast
qed

text \<open>
  Changes that are delivered again add nothing: a session lists exactly the delivered ids, each
  once.
\<close>

theorem changes_listed_once:
  "distinct (map pc_id (getSessionChanges k (fold addChange xs init_changes))) \<and>
   pc_id ` set (getSessionChanges k (fold addChange xs init_changes)) = pc_id ` {c \<in> set xs. pc_sessionId c = k}"
  using change_bucket.delivered_once [of init_changes k xs]
  by (simp add: init_changes_def getSessionChanges_def)

text \<open>
  Resolving the reviewed change moves the review to the first change of the session that is
  still pending, or closes it, and lowers the session's count of pending changes by one.
\<close>

theorem resolving_moves_review:
  assumes ok: "changes_ok st" and c: "c \<in> set (getSessionChanges k st)" "pc_status c = ChangePending"
    and act: "cs_activeReviewId st = Some (pc_id c)" and s: "s \<noteq> ChangePending"
    and st': "st' = fst (updateChangeStatus k (pc_id c) s (st, ts))"
  shows "cs_activeReviewId st' = map_option pc_id
      (find (\<lambda>x. pc_status x = ChangePending \<and> pc_id x \<noteq> pc_id c) (getSessionChanges k st)) \<and>
    getPendingCount k st = Suc (getPendingCount k st')"
proof -
  let ?f = "map_where (\<lambda>x. pc_id x = pc_id c) (\<lambda>x. x\<lparr>pc_status := s\<rparr>)"
  have next_one: "map_option pc_id (next_change (?f xs)) =
      map_option pc_id (find (\<lambda>x. pc_status x = ChangePending \<and> pc_id x \<noteq> pc_id c) xs)" for xs
    using s by (induction xs) (auto simp: next_change_def)
  have count: "length (filter (\<lambda>x. pc_status x = ChangePending) xs) =
      Suc (length (filter (\<lambda>x. pc_status x = ChangePending) (?f xs)))"
    if "distinct (map pc_id xs)" "c \<in> set xs" for xs
    using that
  proof (induction xs)
    case (Cons x xs)
    show ?case
    proof (cases "x = c")
      case True
      then have "\<forall>y \<in> set xs. pc_id y \<noteq> pc_id c" using Cons.prems(1) by (metis distinct.simps(2) image_eqI list.set_map list.simps(9))
      then have "?f xs = xs" by (rule map_where_id)
      with True s c(2) show ?thesis by simp
    next
      case False
      with Cons show ?thesis by auto
    qed
  qed simp
  have "distinct (map pc_id (bucket (cs_changes st) k))" using ok by (simp add: changes_ok_def)
  from count [OF this] next_one c(1) act s show ?thesis
    unfolding st' by (simp add: updateChangeStatus_def put_changes_def Let_def getPendingCount_def getSessionChanges_def)
qed

theorem resolving_moves_review_witness:
  "cs_activeReviewId (fst (updateChangeStatus ''s'' ''c'' ChangeAccepted
      (fold addChange [ex_change ''c'', ex_change ''d''] init_changes, []))) = Some ''d''"
proof -
  let ?st = "fold addChange [ex_change ''c'', ex_change ''d''] init_changes"
  have "changes_ok init_changes" by (simp add: changes_ok_def init_changes_def review_ok_def)
  then have "changes_ok ?st" by (simp add: addChange_ok ex_change_def)
  moreover have "ex_change ''c'' \<in> set (getSessionChanges ''s'' ?st)" "pc_status (ex_change ''c'') = ChangePending"
    "cs_activeReviewId ?st = Some (pc_id (ex_change ''c''))"
    "getSessionChanges ''s'' ?st = [ex_change ''c'', ex_change ''d'']"
    by (simp_all add: ex_change_def init_changes_def addChange_def getSessionChanges_def Let_def bucket_def)
  ultimately show ?thesis
    using resolving_moves_review [of ?st "ex_change ''c''" "''s''" ChangeAccepted _ "[]", OF _ _ _ _ _ refl]
    by (simp add: ex_change_def)
qed

end
