(* ===== verification/Portable_Session.thy ===== *)
theory Portable_Session
  imports Session_Conversations Streaming Machines
begin

text \<open>
  The platform-agnostic session slice (\<open>packages/state/src/stores/session.ts\<close>): sessions, agents
  and conversations per session, messages per conversation, streams per message. Conversations,
  messages and streaming entries have the types of the web store. The slice provides the
  token-stream interface a second time.
\<close>

section \<open>Types\<close>

record core_agent =
  ca_id :: ident
  ca_name :: string
  ca_role :: string
  ca_model :: string
  ca_modelDisplayName :: "string option"
  ca_status :: agent_status
  ca_color :: string
  ca_mode :: agent_mode
  ca_previousMode :: "agent_mode option"
  ca_commandAllowlist :: "string list option"
  ca_thinkingConfig :: "thinking_config option"
  ca_conversation :: "ident option"
  ca_templateId :: "string option"

record core_session =
  co_id :: ident
  co_name :: string
  co_workspaceId :: ident
  co_workspaceTier :: "string option"
  co_branch :: string
  co_gitUrl :: "string nullish"
  co_workspaceStatus :: workspace_status
  co_workspaceError :: "string nullish"
  co_localPodId :: "string nullish"
  co_localPodName :: "string nullish"
  co_mount_path :: "string nullish"

record portable_state =
  po_sessions :: "core_session obj"
  po_agents :: "core_agent list obj"
  po_conversations :: "conversation list obj"
  po_messages :: "message list obj"
  po_currentSessionId :: "ident option"
  po_currentAgentId :: "ident option"
  po_streaming :: "streaming_message obj"
  po_isConnected :: bool

definition init_portable :: portable_state where
  "init_portable =
     \<lparr>po_sessions = [], po_agents = [], po_conversations = [], po_messages = [],
      po_currentSessionId = None, po_currentAgentId = None, po_streaming = [], po_isConnected = False\<rparr>"

section \<open>Sessions\<close>

definition po_setCurrentSession :: "ident option \<Rightarrow> portable_state \<Rightarrow> portable_state" where
  "po_setCurrentSession sessionId state = state\<lparr>po_currentSessionId := sessionId\<rparr>"

definition po_setCurrentAgent :: "ident option \<Rightarrow> portable_state \<Rightarrow> portable_state" where
  "po_setCurrentAgent agentId state = state\<lparr>po_currentAgentId := agentId\<rparr>"

definition po_addSession :: "core_session \<Rightarrow> portable_state \<Rightarrow> portable_state" where
  "po_addSession session state = state\<lparr>po_sessions := AList.update (co_id session) session (po_sessions state)\<rparr>"

definition edit_core :: "ident \<Rightarrow> (core_session \<Rightarrow> core_session) \<Rightarrow> portable_state \<Rightarrow> portable_state" where
  "edit_core sessionId f state =
     (case map_of (po_sessions state) sessionId of
        None \<Rightarrow> state
      | Some session \<Rightarrow> state\<lparr>po_sessions := AList.update sessionId (f session) (po_sessions state)\<rparr>)"

datatype core_field =
    CoId ident | CoName string | CoWorkspaceId ident | CoWorkspaceTier "string option"
  | CoBranch string | CoGitUrl "string nullish" | CoWorkspaceStatus workspace_status
  | CoWorkspaceError "string nullish" | CoLocalPodId "string nullish"
  | CoLocalPodName "string nullish" | CoMountPath "string nullish"

fun assign_core :: "core_field \<Rightarrow> core_session \<Rightarrow> core_session" where
  "assign_core (CoId v) s = s\<lparr>co_id := v\<rparr>"
| "assign_core (CoName v) s = s\<lparr>co_name := v\<rparr>"
| "assign_core (CoWorkspaceId v) s = s\<lparr>co_workspaceId := v\<rparr>"
| "assign_core (CoWorkspaceTier v) s = s\<lparr>co_workspaceTier := v\<rparr>"
| "assign_core (CoBranch v) s = s\<lparr>co_branch := v\<rparr>"
| "assign_core (CoGitUrl v) s = s\<lparr>co_gitUrl := v\<rparr>"
| "assign_core (CoWorkspaceStatus v) s = s\<lparr>co_workspaceStatus := v\<rparr>"
| "assign_core (CoWorkspaceError v) s = s\<lparr>co_workspaceError := v\<rparr>"
| "assign_core (CoLocalPodId v) s = s\<lparr>co_localPodId := v\<rparr>"
| "assign_core (CoLocalPodName v) s = s\<lparr>co_localPodName := v\<rparr>"
| "assign_core (CoMountPath v) s = s\<lparr>co_mount_path := v\<rparr>"

definition po_updateSession :: "ident \<Rightarrow> core_field list \<Rightarrow> portable_state \<Rightarrow> portable_state" where
  "po_updateSession sessionId updates = edit_core sessionId (fold assign_core updates)"

definition po_removeSession :: "ident \<Rightarrow> portable_state \<Rightarrow> portable_state" where
  "po_removeSession sessionId state =
     state\<lparr>po_sessions := AList.delete sessionId (po_sessions state),
           po_agents := AList.delete sessionId (po_agents state),
           po_conversations := AList.delete sessionId (po_conversations state),
           po_currentSessionId := (if po_currentSessionId state = Some sessionId then None
              else po_currentSessionId state)\<rparr>"

definition po_setSessions :: "core_session list \<Rightarrow> portable_state \<Rightarrow> portable_state" where
  "po_setSessions sessions state = state\<lparr>po_sessions := from_entries (map (\<lambda>s. (co_id s, s)) sessions)\<rparr>"

section \<open>Agents\<close>

definition po_setAgents :: "ident \<Rightarrow> core_agent list \<Rightarrow> portable_state \<Rightarrow> portable_state" where
  "po_setAgents sessionId agents state = state\<lparr>po_agents := AList.update sessionId agents (po_agents state)\<rparr>"

definition edit_core_agent ::
    "ident \<Rightarrow> ident \<Rightarrow> (core_agent \<Rightarrow> core_agent) \<Rightarrow> portable_state \<Rightarrow> portable_state" where
  "edit_core_agent sessionId agentId f state =
     state\<lparr>po_agents := AList.update sessionId
        (map_where (\<lambda>a. ca_id a = agentId) f (bucket (po_agents state) sessionId)) (po_agents state)\<rparr>"

definition po_updateAgentStatus :: "ident \<Rightarrow> ident \<Rightarrow> agent_status \<Rightarrow> portable_state \<Rightarrow> portable_state" where
  "po_updateAgentStatus sessionId agentId status =
     edit_core_agent sessionId agentId (\<lambda>a. a\<lparr>ca_status := status\<rparr>)"

datatype core_agent_field =
    CaId ident | CaName string | CaRole string | CaModel string | CaModelDisplayName "string option"
  | CaStatus agent_status | CaColor string | CaMode agent_mode | CaPreviousMode "agent_mode option"
  | CaCommandAllowlist "string list option" | CaThinkingConfig "thinking_config option"
  | CaConversation "ident option" | CaTemplateId "string option"

fun assign_core_agent :: "core_agent_field \<Rightarrow> core_agent \<Rightarrow> core_agent" where
  "assign_core_agent (CaId v) a = a\<lparr>ca_id := v\<rparr>"
| "assign_core_agent (CaName v) a = a\<lparr>ca_name := v\<rparr>"
| "assign_core_agent (CaRole v) a = a\<lparr>ca_role := v\<rparr>"
| "assign_core_agent (CaModel v) a = a\<lparr>ca_model := v\<rparr>"
| "assign_core_agent (CaModelDisplayName v) a = a\<lparr>ca_modelDisplayName := v\<rparr>"
| "assign_core_agent (CaStatus v) a = a\<lparr>ca_status := v\<rparr>"
| "assign_core_agent (CaColor v) a = a\<lparr>ca_color := v\<rparr>"
| "assign_core_agent (CaMode v) a = a\<lparr>ca_mode := v\<rparr>"
| "assign_core_agent (CaPreviousMode v) a = a\<lparr>ca_previousMode := v\<rparr>"
| "assign_core_agent (CaCommandAllowlist v) a = a\<lparr>ca_commandAllowlist := v\<rparr>"
| "assign_core_agent (CaThinkingConfig v) a = a\<lparr>ca_thinkingConfig := v\<rparr>"
| "assign_core_agent (CaConversation v) a = a\<lparr>ca_conversation := v\<rparr>"
| "assign_core_agent (CaTemplateId v) a = a\<lparr>ca_templateId := v\<rparr>"

definition po_updateAgent ::
    "ident \<Rightarrow> ident \<Rightarrow> core_agent_field list \<Rightarrow> portable_state \<Rightarrow> portable_state" where
  "po_updateAgent sessionId agentId updates =
     edit_core_agent sessionId agentId (fold assign_core_agent updates)"

section \<open>Conversations and messages\<close>

definition po_setConversations :: "ident \<Rightarrow> conversation list \<Rightarrow> portable_state \<Rightarrow> portable_state" where
  "po_setConversations sessionId conversations state =
     state\<lparr>po_conversations := AList.update sessionId conversations (po_conversations state)\<rparr>"

definition po_addConversation :: "ident \<Rightarrow> conversation \<Rightarrow> portable_state \<Rightarrow> portable_state" where
  "po_addConversation sessionId conversation state =
     state\<lparr>po_conversations := AList.update sessionId
        (bucket (po_conversations state) sessionId @ [conversation]) (po_conversations state)\<rparr>"

definition po_updateConversation ::
    "ident \<Rightarrow> ident \<Rightarrow> conv_field list \<Rightarrow> portable_state \<Rightarrow> portable_state" where
  "po_updateConversation sessionId conversationId updates state =
     state\<lparr>po_conversations := AList.update sessionId
        (map_where (\<lambda>c. cv_id c = conversationId) (fold assign_conv updates)
           (bucket (po_conversations state) sessionId)) (po_conversations state)\<rparr>"

definition po_removeConversation :: "ident \<Rightarrow> ident \<Rightarrow> portable_state \<Rightarrow> portable_state" where
  "po_removeConversation sessionId conversationId state =
     state\<lparr>po_conversations := AList.update sessionId
        (filter (\<lambda>c. cv_id c \<noteq> conversationId) (bucket (po_conversations state) sessionId))
        (po_conversations state)\<rparr>"

definition po_setMessages :: "ident \<Rightarrow> message list \<Rightarrow> portable_state \<Rightarrow> portable_state" where
  "po_setMessages conversationId messages state =
     state\<lparr>po_messages := AList.update conversationId messages (po_messages state)\<rparr>"

definition po_addMessage :: "ident \<Rightarrow> message \<Rightarrow> portable_state \<Rightarrow> portable_state" where
  "po_addMessage conversationId msg state =
     state\<lparr>po_messages := AList.update conversationId
        (bucket (po_messages state) conversationId @ [msg]) (po_messages state)\<rparr>"

datatype message_field =
    MsId ident | MsRole message_role | MsContent string | MsThinking "string option"
  | MsTimestamp "int option" | MsToolCalls "tool_call list option"
  | MsToolResults "tool_result list option" | MsStopReason "string option"
  | MsUsage "usage_stats option" | MsModel "string option"

fun assign_message :: "message_field \<Rightarrow> message \<Rightarrow> message" where
  "assign_message (MsId v) m = m\<lparr>ms_id := v\<rparr>"
| "assign_message (MsRole v) m = m\<lparr>ms_role := v\<rparr>"
| "assign_message (MsContent v) m = m\<lparr>ms_content := v\<rparr>"
| "assign_message (MsThinking v) m = m\<lparr>ms_thinking := v\<rparr>"
| "assign_message (MsTimestamp v) m = m\<lparr>ms_timestamp := v\<rparr>"
| "assign_message (MsToolCalls v) m = m\<lparr>ms_toolCalls := v\<rparr>"
| "assign_message (MsToolResults v) m = m\<lparr>ms_toolResults := v\<rparr>"
| "assign_message (MsStopReason v) m = m\<lparr>ms_stopReason := v\<rparr>"
| "assign_message (MsUsage v) m = m\<lparr>ms_usage := v\<rparr>"
| "assign_message (MsModel v) m = m\<lparr>ms_model := v\<rparr>"

definition po_updateMessage :: "ident \<Rightarrow> ident \<Rightarrow> message_field list \<Rightarrow> portable_state \<Rightarrow> portable_state" where
  "po_updateMessage conversationId messageId updates state =
     state\<lparr>po_messages := AList.update conversationId
        (map_where (\<lambda>m. ms_id m = messageId) (fold assign_message updates)
           (bucket (po_messages state) conversationId)) (po_messages state)\<rparr>"

section \<open>Streams\<close>

definition po_startStreaming :: "clock \<Rightarrow> ident \<Rightarrow> ident \<Rightarrow> ident \<Rightarrow> portable_state \<Rightarrow> portable_state" where
  "po_startStreaming clk messageId agentId sessionId state =
     state\<lparr>po_streaming := AList.update messageId
        \<lparr>sm_messageId = messageId, sm_agentId = agentId, sm_sessionId = sessionId,
         sm_content = [], sm_thinking = [], sm_isStreaming = True, sm_startedAt = clk_ms clk\<rparr>
        (po_streaming state)\<rparr>"

definition po_appendStreamToken :: "ident \<Rightarrow> string \<Rightarrow> portable_state \<Rightarrow> portable_state" where
  "po_appendStreamToken messageId tok state =
     (case map_of (po_streaming state) messageId of
        None \<Rightarrow> state
      | Some existing \<Rightarrow> state\<lparr>po_streaming := AList.update messageId
          (existing\<lparr>sm_content := sm_content existing @ tok\<rparr>) (po_streaming state)\<rparr>)"

definition po_appendThinkingToken :: "ident \<Rightarrow> string \<Rightarrow> portable_state \<Rightarrow> portable_state" where
  "po_appendThinkingToken messageId thinking state =
     (case map_of (po_streaming state) messageId of
        None \<Rightarrow> state
      | Some existing \<Rightarrow> state\<lparr>po_streaming := AList.update messageId
          (existing\<lparr>sm_thinking := sm_thinking existing @ thinking\<rparr>) (po_streaming state)\<rparr>)"

text \<open>The final content is not used.\<close>

definition po_endStreaming :: "ident \<Rightarrow> portable_state \<Rightarrow> portable_state" where
  "po_endStreaming messageId state =
     (case map_of (po_streaming state) messageId of
        None \<Rightarrow> state
      | Some existing \<Rightarrow> state\<lparr>po_streaming := AList.delete messageId (po_streaming state)\<rparr>)"

section \<open>Workspace, connection and selectors\<close>

definition po_setWorkspaceStatus :: "ident \<Rightarrow> workspace_status \<Rightarrow> portable_state \<Rightarrow> portable_state" where
  "po_setWorkspaceStatus sessionId status = edit_core sessionId (\<lambda>s. s\<lparr>co_workspaceStatus := status\<rparr>)"

definition po_setWorkspaceError :: "ident \<Rightarrow> string option \<Rightarrow> portable_state \<Rightarrow> portable_state" where
  "po_setWorkspaceError sessionId err =
     edit_core sessionId (\<lambda>s. s\<lparr>co_workspaceError := (case err of None \<Rightarrow> Null | Some e \<Rightarrow> Val e)\<rparr>)"

definition po_setConnected :: "bool \<Rightarrow> portable_state \<Rightarrow> portable_state" where
  "po_setConnected connected state = state\<lparr>po_isConnected := connected\<rparr>"

definition po_getSession :: "ident \<Rightarrow> portable_state \<Rightarrow> core_session option" where
  "po_getSession sessionId state = map_of (po_sessions state) sessionId"

definition po_getAgents :: "ident \<Rightarrow> portable_state \<Rightarrow> core_agent list" where
  "po_getAgents sessionId state = bucket (po_agents state) sessionId"

definition po_getConversations :: "ident \<Rightarrow> portable_state \<Rightarrow> conversation list" where
  "po_getConversations sessionId state = bucket (po_conversations state) sessionId"

definition po_getMessages :: "ident \<Rightarrow> portable_state \<Rightarrow> message list" where
  "po_getMessages conversationId state = bucket (po_messages state) conversationId"

definition po_getStreamingMessage :: "ident \<Rightarrow> portable_state \<Rightarrow> streaming_message option" where
  "po_getStreamingMessage messageId state = map_of (po_streaming state) messageId"

definition po_getCurrentAgent :: "portable_state \<Rightarrow> core_agent option" where
  "po_getCurrentAgent state =
     (if \<not> truthy (po_currentSessionId state) \<or> \<not> truthy (po_currentAgentId state) then None
      else find (\<lambda>a. Some (ca_id a) = po_currentAgentId state)
             (bucket (po_agents state) (the (po_currentSessionId state))))"

interpretation portable_stream: token_stream
  "\<lambda>m. po_startStreaming clk m agentId sessionId" po_appendStreamToken po_appendThinkingToken
  po_endStreaming "\<lambda>st. stream_texts (po_streaming st)"
  by unfold_locales
    (auto simp: po_startStreaming_def po_appendStreamToken_def po_appendThinkingToken_def
      po_endStreaming_def stream_texts_def split: option.splits)

section \<open>The slice as a machine\<close>

datatype stream_command =
    BeginStream clock ident ident ident
  | TokenFor ident string
  | ThinkingFor ident string
  | EndStream ident

primrec portable_stream_step :: "stream_command \<Rightarrow> portable_state \<Rightarrow> portable_state" where
  "portable_stream_step (BeginStream clk m a s) st = po_startStreaming clk m a s st"
| "portable_stream_step (TokenFor m t) st = po_appendStreamToken m t st"
| "portable_stream_step (ThinkingFor m t) st = po_appendThinkingToken m t st"
| "portable_stream_step (EndStream m) st = po_endStreaming m st"

text \<open>The same commands on the web store.\<close>

primrec web_stream_step :: "stream_command \<Rightarrow> streaming_state \<Rightarrow> streaming_state" where
  "web_stream_step (BeginStream clk m a s) ws = startStreamingMessage clk s a m ws"
| "web_stream_step (TokenFor m t) ws = appendStreamingToken m t ws"
| "web_stream_step (ThinkingFor m t) ws = appendThinkingToken m t ws"
| "web_stream_step (EndStream m) ws = fst (completeStreaming m ws)"

datatype portable_event =
    PoSetCurrentSession "ident option"
  | PoSetCurrentAgent "ident option"
  | PoAddSession core_session
  | PoUpdateSession ident "core_field list"
  | PoRemoveSession ident
  | PoSetSessions "core_session list"
  | PoSetAgents ident "core_agent list"
  | PoUpdateAgentStatus ident ident agent_status
  | PoUpdateAgent ident ident "core_agent_field list"
  | PoSetConversations ident "conversation list"
  | PoAddConversation ident conversation
  | PoUpdateConversation ident ident "conv_field list"
  | PoRemoveConversation ident ident
  | PoSetMessages ident "message list"
  | PoAddMessage ident message
  | PoUpdateMessage ident ident "message_field list"
  | PoStream stream_command
  | PoSetWorkspaceStatus ident workspace_status
  | PoSetWorkspaceError ident "string option"
  | PoSetConnected bool

primrec portable_step :: "portable_event \<Rightarrow> portable_state \<Rightarrow> portable_state" where
  "portable_step (PoSetCurrentSession k) st = po_setCurrentSession k st"
| "portable_step (PoSetCurrentAgent a) st = po_setCurrentAgent a st"
| "portable_step (PoAddSession s) st = po_addSession s st"
| "portable_step (PoUpdateSession k ups) st = po_updateSession k ups st"
| "portable_step (PoRemoveSession k) st = po_removeSession k st"
| "portable_step (PoSetSessions ss) st = po_setSessions ss st"
| "portable_step (PoSetAgents k as) st = po_setAgents k as st"
| "portable_step (PoUpdateAgentStatus k a s) st = po_updateAgentStatus k a s st"
| "portable_step (PoUpdateAgent k a ups) st = po_updateAgent k a ups st"
| "portable_step (PoSetConversations k cs) st = po_setConversations k cs st"
| "portable_step (PoAddConversation k c) st = po_addConversation k c st"
| "portable_step (PoUpdateConversation k c ups) st = po_updateConversation k c ups st"
| "portable_step (PoRemoveConversation k c) st = po_removeConversation k c st"
| "portable_step (PoSetMessages c ms) st = po_setMessages c ms st"
| "portable_step (PoAddMessage c m) st = po_addMessage c m st"
| "portable_step (PoUpdateMessage c m ups) st = po_updateMessage c m ups st"
| "portable_step (PoStream cmd) st = portable_stream_step cmd st"
| "portable_step (PoSetWorkspaceStatus k s) st = po_setWorkspaceStatus k s st"
| "portable_step (PoSetWorkspaceError k e) st = po_setWorkspaceError k e st"
| "portable_step (PoSetConnected b) st = po_setConnected b st"

definition keyed :: "('v \<Rightarrow> ident) \<Rightarrow> 'v obj \<Rightarrow> bool" where
  "keyed f m \<longleftrightarrow> obj_ok m \<and> (\<forall>k v. map_of m k = Some v \<longrightarrow> f v = k)"

definition portable_ok :: "portable_state \<Rightarrow> bool" where
  "portable_ok st \<longleftrightarrow> keyed co_id (po_sessions st) \<and> keyed sm_messageId (po_streaming st) \<and>
     obj_ok (po_agents st) \<and> obj_ok (po_conversations st) \<and> obj_ok (po_messages st)"

text \<open>A session's id is not patched.\<close>

fun portable_guard :: "portable_event \<Rightarrow> portable_state \<Rightarrow> bool" where
  "portable_guard (PoUpdateSession k ups) st = (\<forall>u \<in> set ups. \<forall>v. u \<noteq> CoId v)"
| "portable_guard _ st = True"

lemma keyed_update: "keyed f m \<Longrightarrow> f v = k \<Longrightarrow> keyed f (AList.update k v m)"
  by (simp add: keyed_def del: map_of_eq_Some_iff)

lemma keyed_delete: "keyed f m \<Longrightarrow> keyed f (AList.delete k m)"
  by (simp add: keyed_def del: map_of_eq_Some_iff)

lemma keyed_from_entries: "keyed f (from_entries (map (\<lambda>v. (f v, v)) vs))"
proof -
  have "keyed f m \<Longrightarrow> keyed f (foldl (\<lambda>m (k, v). AList.update k v m) m (map (\<lambda>v. (f v, v)) vs))" for m
    by (induction vs arbitrary: m) (simp_all add: keyed_update)
  moreover have "keyed f []" by (simp add: keyed_def)
  ultimately show ?thesis unfolding from_entries_def by blast
qed

lemma assign_core_id: "\<forall>u \<in> set ups. \<forall>v. u \<noteq> CoId v \<Longrightarrow> co_id (fold assign_core ups s) = co_id s"
proof (induction ups arbitrary: s)
  case (Cons u ups)
  then show ?case by (cases u) simp_all
qed simp

lemma edit_core_ok: "portable_ok st \<Longrightarrow> (\<And>s. co_id (f s) = co_id s) \<Longrightarrow> portable_ok (edit_core k f st)"
  by (auto simp: portable_ok_def edit_core_def keyed_def simp del: map_of_eq_Some_iff split: option.splits)

lemma portable_stream_ok: "portable_ok st \<Longrightarrow> portable_ok (portable_stream_step c st)"
  by (cases c) (auto simp: portable_ok_def po_startStreaming_def po_appendStreamToken_def
      po_appendThinkingToken_def po_endStreaming_def keyed_def simp del: map_of_eq_Some_iff split: option.splits)

lemma portable_step_ok:
  assumes ok: "portable_ok st" and g: "portable_guard e st"
  shows "portable_ok (portable_step e st)"
proof (cases e)
  case (PoUpdateSession k ups)
  with ok g show ?thesis by (simp add: po_updateSession_def edit_core_ok assign_core_id)
next
  case (PoSetSessions ss)
  with ok show ?thesis by (simp add: portable_ok_def po_setSessions_def keyed_from_entries)
qed (use ok in \<open>simp_all add: portable_stream_ok po_setWorkspaceStatus_def po_setWorkspaceError_def edit_core_ok\<close>,
  simp_all add: portable_ok_def po_setCurrentSession_def po_setCurrentAgent_def po_addSession_def po_removeSession_def
    po_setAgents_def po_updateAgentStatus_def po_updateAgent_def edit_core_agent_def po_setConversations_def
    po_addConversation_def po_updateConversation_def po_removeConversation_def po_setMessages_def po_addMessage_def
    po_updateMessage_def po_setConnected_def keyed_update keyed_delete)

interpretation portable: machine portable_step portable_guard portable_ok init_portable
proof unfold_locales
  show "portable_ok init_portable" by (simp add: portable_ok_def init_portable_def keyed_def)
qed (rule portable_step_ok)

section \<open>Properties\<close>

lemma portable_stream_refines: "po_streaming (portable_stream_step c st) = web_stream_step c (po_streaming st)"
  by (cases c) (simp_all add: po_startStreaming_def startStreamingMessage_def po_appendStreamToken_def
      appendStreamingToken_def po_appendThinkingToken_def appendThinkingToken_def po_endStreaming_def
      completeStreaming_def split: option.splits)

text \<open>
  The portable slice streams exactly as the web store does: after any sequence of stream
  commands its streams are those of the web store, and nothing else of its state has changed.
\<close>

theorem portable_streams_refine_web:
  "po_streaming (fold portable_stream_step cs st) = fold web_stream_step cs (po_streaming st) \<and>
   fold portable_stream_step cs st = st\<lparr>po_streaming := po_streaming (fold portable_stream_step cs st)\<rparr>"
proof (induction cs arbitrary: st)
  case (Cons c cs)
  define st' where "st' = portable_stream_step c st"
  have "st' = st\<lparr>po_streaming := po_streaming st'\<rparr>"
    unfolding st'_def by (cases c) (simp_all add: po_startStreaming_def po_appendStreamToken_def
      po_appendThinkingToken_def po_endStreaming_def split: option.splits)
  then obtain X where X: "st' = st\<lparr>po_streaming := X\<rparr>" by blast
  define Y where "Y = po_streaming (fold portable_stream_step cs st')"
  have IH: "Y = fold web_stream_step cs (po_streaming st')" "fold portable_stream_step cs st' = st'\<lparr>po_streaming := Y\<rparr>"
    using Cons [of st'] unfolding Y_def by blast+
  have "fold portable_stream_step (c # cs) st = st\<lparr>po_streaming := Y\<rparr>"
    using IH(2) by (simp add: st'_def [symmetric] X)
  moreover have "Y = fold web_stream_step (c # cs) (po_streaming st)"
    using IH(1) by (simp add: st'_def portable_stream_refines)
  ultimately show ?case by simp
qed simp

text \<open>
  In every history of the portable slice in which no session's id is patched, sessions are
  stored under their ids and streams under their message ids.
\<close>

theorem portable_history_invariant:
  assumes "guarded portable_guard portable_step es init_portable"
    and "st = fold portable_step es init_portable"
  shows "(\<forall>k s. po_getSession k st = Some s \<longrightarrow> co_id s = k) \<and>
    (\<forall>m e. po_getStreamingMessage m st = Some e \<longrightarrow> sm_messageId e = m)"
proof -
  have "portable_ok st" unfolding assms(2) using assms(1) by (rule portable.inv_history)
  then show ?thesis by (simp add: portable_ok_def keyed_def po_getSession_def po_getStreamingMessage_def)
qed

definition ex_core :: core_session where
  "ex_core = \<lparr>co_id = ''s'', co_name = [], co_workspaceId = ''w'', co_workspaceTier = None, co_branch = ''main'',
     co_gitUrl = Undefined, co_workspaceStatus = WsRunning, co_workspaceError = Undefined,
     co_localPodId = Undefined, co_localPodName = Undefined, co_mount_path = Undefined\<rparr>"

theorem portable_history_invariant_witness:
  "let st = fold portable_step [PoAddSession ex_core, PoUpdateSession ''s'' [CoName ''n''],
      PoStream (BeginStream \<lparr>clk_ms = 0, clk_iso = []\<rparr> ''m'' ''a'' ''s'')] init_portable
   in \<forall>k s. po_getSession k st = Some s \<longrightarrow> co_id s = k"
proof -
  have "guarded portable_guard portable_step [PoAddSession ex_core, PoUpdateSession ''s'' [CoName ''n''],
      PoStream (BeginStream \<lparr>clk_ms = 0, clk_iso = []\<rparr> ''m'' ''a'' ''s'')] init_portable"
    by simp
  from portable_history_invariant [OF this refl] show ?thesis unfolding Let_def by blast
qed

text \<open>
  Removing a session removes its agents and conversations and closes it when it was current;
  the other sessions, and the message lists of its own conversations, stay.
\<close>

theorem removed_session_is_gone:
  "po_getSession k (po_removeSession k st) = None \<and> po_getAgents k (po_removeSession k st) = [] \<and>
   po_getConversations k (po_removeSession k st) = [] \<and> po_currentSessionId (po_removeSession k st) \<noteq> Some k \<and>
   (\<forall>j. j \<noteq> k \<longrightarrow> po_getSession j (po_removeSession k st) = po_getSession j st \<and>
      po_getAgents j (po_removeSession k st) = po_getAgents j st \<and>
      po_getConversations j (po_removeSession k st) = po_getConversations j st) \<and>
   po_messages (po_removeSession k st) = po_messages st \<and>
   (po_currentSessionId st = Some k \<longrightarrow> po_getCurrentAgent (po_removeSession k st) = None)"
  by (simp add: po_removeSession_def po_getSession_def po_getAgents_def po_getConversations_def po_getCurrentAgent_def)

theorem removed_session_is_gone_witness:
  "let st = po_setCurrentSession (Some ''s'') (po_addSession ex_core init_portable)
   in po_currentSessionId st = Some ''s'' \<and> po_getSession ''s'' st \<noteq> None \<and>
      po_getSession ''s'' (po_removeSession ''s'' st) = None \<and> po_getCurrentAgent (po_removeSession ''s'' st) = None"
  using removed_session_is_gone [of "''s''" "po_setCurrentSession (Some ''s'') (po_addSession ex_core init_portable)"]
  by (simp add: po_setCurrentSession_def po_addSession_def po_getSession_def ex_core_def Let_def)

end
