(* ===== verification/Checkpoints.thy ===== *)
theory Checkpoints
  imports Js_Text Machines
begin

text \<open>
  The checkpoints slice (\<open>packages/state/src/stores/checkpoints.ts\<close>): the checkpoints of each
  session, newest number first. \<open>setCheckpoints\<close> also sorts the caller's array in place; the
  model has the stored list only.
\<close>

datatype file_change_type = ChangeCreate | ChangeModify | ChangeDelete

record checkpoint_file =
  cf_path :: string
  cf_changeType :: file_change_type
  cf_linesAdded :: int
  cf_linesRemoved :: int

datatype checkpoint_status = CpActive | CpRestored | CpSuperseded

record checkpoint =
  cp_id :: ident
  cp_number :: int
  cp_description :: "string option"
  cp_actionType :: string
  cp_agentId :: ident
  cp_status :: checkpoint_status
  cp_createdAt :: int
  cp_files :: "checkpoint_file list"
  cp_fileCount :: int
  cp_totalLinesAdded :: int
  cp_totalLinesRemoved :: int

record checkpoints_state =
  ck_sessions :: "checkpoint list obj"
  ck_selected :: "ident option"
  ck_restoring :: "ident option"
  ck_loading :: "bool obj"

definition init_checkpoints :: checkpoints_state where
  "init_checkpoints = \<lparr>ck_sessions = [], ck_selected = None, ck_restoring = None, ck_loading = []\<rparr>"

text \<open>The sort by descending number; \<open>Array.prototype.sort\<close> is stable.\<close>

definition newest_first :: "checkpoint list \<Rightarrow> checkpoint list" where
  "newest_first = sort_key (\<lambda>c. - cp_number c)"

definition setCheckpoints :: "ident \<Rightarrow> checkpoint list \<Rightarrow> checkpoints_state \<Rightarrow> checkpoints_state" where
  "setCheckpoints sessionId checkpoints state =
     state\<lparr>ck_sessions := AList.update sessionId (newest_first checkpoints) (ck_sessions state)\<rparr>"

definition addCheckpoint :: "ident \<Rightarrow> checkpoint \<Rightarrow> checkpoints_state \<Rightarrow> checkpoints_state" where
  "addCheckpoint sessionId checkpoint state =
     (let existing = bucket (ck_sessions state) sessionId
      in state\<lparr>ck_sessions := AList.update sessionId (newest_first (existing @ [checkpoint]))
                 (ck_sessions state)\<rparr>)"

definition updateCheckpointStatus ::
    "ident \<Rightarrow> ident \<Rightarrow> checkpoint_status \<Rightarrow> checkpoints_state \<Rightarrow> checkpoints_state" where
  "updateCheckpointStatus sessionId checkpointId status state =
     (case map_of (ck_sessions state) sessionId of
        None \<Rightarrow> state
      | Some checkpoints \<Rightarrow>
          state\<lparr>ck_sessions := AList.update sessionId
             (map_where (\<lambda>c. cp_id c = checkpointId) (\<lambda>c. c\<lparr>cp_status := status\<rparr>) checkpoints)
             (ck_sessions state)\<rparr>)"

definition selectCheckpoint :: "ident option \<Rightarrow> checkpoints_state \<Rightarrow> checkpoints_state" where
  "selectCheckpoint checkpointId state = state\<lparr>ck_selected := checkpointId\<rparr>"

definition setRestoring :: "ident option \<Rightarrow> checkpoints_state \<Rightarrow> checkpoints_state" where
  "setRestoring checkpointId state = state\<lparr>ck_restoring := checkpointId\<rparr>"

definition setCheckpointsLoading :: "ident \<Rightarrow> bool \<Rightarrow> checkpoints_state \<Rightarrow> checkpoints_state" where
  "setCheckpointsLoading sessionId loading state =
     state\<lparr>ck_loading := AList.update sessionId loading (ck_loading state)\<rparr>"

definition getCheckpoints :: "ident \<Rightarrow> checkpoints_state \<Rightarrow> checkpoint list" where
  "getCheckpoints sessionId state = bucket (ck_sessions state) sessionId"

definition getCheckpoint :: "ident \<Rightarrow> ident \<Rightarrow> checkpoints_state \<Rightarrow> checkpoint option" where
  "getCheckpoint sessionId checkpointId state =
     Option.bind (map_of (ck_sessions state) sessionId) (find (\<lambda>c. cp_id c = checkpointId))"

definition getAgentCheckpoints :: "ident \<Rightarrow> ident \<Rightarrow> checkpoints_state \<Rightarrow> checkpoint list" where
  "getAgentCheckpoints sessionId agentId state =
     filter (\<lambda>c. cp_agentId c = agentId) (bucket (ck_sessions state) sessionId)"

section \<open>The slice as a machine\<close>

datatype checkpoint_event =
    SetCheckpoints ident "checkpoint list"
  | AddCheckpoint ident checkpoint
  | UpdateCheckpointStatus ident ident checkpoint_status
  | SelectCheckpoint "ident option"
  | SetRestoring "ident option"
  | SetCheckpointsLoading ident bool

primrec checkpoint_step :: "checkpoint_event \<Rightarrow> checkpoints_state \<Rightarrow> checkpoints_state" where
  "checkpoint_step (SetCheckpoints k cs) st = setCheckpoints k cs st"
| "checkpoint_step (AddCheckpoint k c) st = addCheckpoint k c st"
| "checkpoint_step (UpdateCheckpointStatus k i s) st = updateCheckpointStatus k i s st"
| "checkpoint_step (SelectCheckpoint i) st = selectCheckpoint i st"
| "checkpoint_step (SetRestoring i) st = setRestoring i st"
| "checkpoint_step (SetCheckpointsLoading k b) st = setCheckpointsLoading k b st"

definition descending :: "checkpoint list \<Rightarrow> bool" where
  "descending cs \<longleftrightarrow> sorted_wrt (\<lambda>c d. cp_number d \<le> cp_number c) cs"

definition checkpoints_ok :: "checkpoints_state \<Rightarrow> bool" where
  "checkpoints_ok st \<longleftrightarrow> (\<forall>k. descending (getCheckpoints k st))"

lemma descending_newest_first: "descending (newest_first cs)"
proof -
  have "sorted (map (\<lambda>c. - cp_number c) (newest_first cs))" by (simp add: newest_first_def)
  then show ?thesis by (simp add: descending_def sorted_map)
qed

lemma descending_status:
  "descending cs \<Longrightarrow> descending (map_where P (\<lambda>c. c\<lparr>cp_status := s\<rparr>) cs)"
  by (auto simp: descending_def map_where_def sorted_wrt_map elim: sorted_wrt_mono_rel [rotated])

lemma checkpoint_step_ok: "checkpoints_ok st \<Longrightarrow> checkpoints_ok (checkpoint_step e st)"
proof (cases e)
  case (UpdateCheckpointStatus k i s)
  assume ok: "checkpoints_ok st"
  show ?thesis
  proof (cases "map_of (ck_sessions st) k")
    case None
    with ok UpdateCheckpointStatus show ?thesis by (simp add: updateCheckpointStatus_def)
  next
    case (Some cs)
    with ok have "descending cs" by (auto simp: checkpoints_ok_def getCheckpoints_def bucket_def dest: spec [of _ k])
    with ok Some UpdateCheckpointStatus show ?thesis
      by (simp add: checkpoints_ok_def getCheckpoints_def updateCheckpointStatus_def descending_status)
  qed
qed (simp_all add: checkpoints_ok_def getCheckpoints_def setCheckpoints_def addCheckpoint_def selectCheckpoint_def
    setRestoring_def setCheckpointsLoading_def Let_def descending_newest_first)

interpretation checkpoints: machine checkpoint_step "\<lambda>e st. True" checkpoints_ok init_checkpoints
proof unfold_locales
  show "checkpoints_ok init_checkpoints"
    by (simp add: checkpoints_ok_def getCheckpoints_def init_checkpoints_def descending_def)
qed (rule checkpoint_step_ok)

section \<open>Properties\<close>

text \<open>
  After every history of actions the checkpoints of a session are listed by descending number,
  and adding one to it keeps the ones that were there and puts it in its place, after those with
  the same number.
\<close>

theorem checkpoints_newest_first:
  "descending (getCheckpoints k (fold checkpoint_step es init_checkpoints)) \<and>
   (\<exists>xs ys. getCheckpoints k (fold checkpoint_step es init_checkpoints) = xs @ ys \<and>
      getCheckpoints k (addCheckpoint k c (fold checkpoint_step es init_checkpoints)) = xs @ c # ys \<and>
      (\<forall>x \<in> set xs. cp_number c \<le> cp_number x) \<and> (\<forall>y \<in> set ys. cp_number y < cp_number c))"
proof -
  define cs where "cs = getCheckpoints k (fold checkpoint_step es init_checkpoints)"
  have "checkpoints_ok (fold checkpoint_step es init_checkpoints)"
    by (rule checkpoints.inv_history) simp
  then have d: "descending cs" by (simp add: checkpoints_ok_def cs_def)
  let ?f = "\<lambda>c. - cp_number c"
  have add: "getCheckpoints k (addCheckpoint k c (fold checkpoint_step es init_checkpoints)) = newest_first (cs @ [c])"
    by (simp add: getCheckpoints_def addCheckpoint_def Let_def cs_def)
  have place: "\<exists>xs ys. cs = xs @ ys \<and> newest_first (cs @ [c]) = xs @ c # ys \<and>
      (\<forall>x \<in> set xs. cp_number c \<le> cp_number x) \<and> (\<forall>y \<in> set ys. cp_number y < cp_number c)"
    using d
  proof (induction cs)
    case Nil
    show ?case by (simp add: newest_first_def)
  next
    case (Cons a cs)
    then have a: "\<forall>x \<in> set cs. cp_number x \<le> cp_number a" and "descending cs"
      by (simp_all add: descending_def)
    with Cons.IH obtain xs ys where IH: "cs = xs @ ys" "newest_first (cs @ [c]) = xs @ c # ys"
      "\<forall>x \<in> set xs. cp_number c \<le> cp_number x" "\<forall>y \<in> set ys. cp_number y < cp_number c" by blast
    have step: "newest_first ((a # cs) @ [c]) = insort_key ?f a (xs @ c # ys)"
      using IH(2) by (simp add: newest_first_def)
    show ?case
    proof (cases "cp_number c \<le> cp_number a")
      case True
      have "insort_key ?f a (xs @ c # ys) = a # xs @ c # ys"
        using a True IH(1) by (cases xs) auto
      with step IH True show ?thesis
        by (intro exI [of _ "a # xs"] exI [of _ ys]) simp
    next
      case False
      have "xs = []" using a False IH(1,3) by (cases xs) fastforce+
      moreover have "insort_key ?f a ys = a # ys"
        using a IH(1) by (cases ys) auto
      ultimately have "insort_key ?f a (xs @ c # ys) = c # a # ys" using False by simp
      with step IH \<open>xs = []\<close> False show ?thesis
        by (intro exI [of _ "[]"] exI [of _ "a # ys"]) simp
    qed
  qed
  show ?thesis
    using d place unfolding add cs_def [symmetric] by blast
qed

definition ex_checkpoint :: "ident \<Rightarrow> int \<Rightarrow> checkpoint" where
  "ex_checkpoint i n = \<lparr>cp_id = i, cp_number = n, cp_description = None, cp_actionType = [], cp_agentId = ''a'',
     cp_status = CpActive, cp_createdAt = 0, cp_files = [], cp_fileCount = 0, cp_totalLinesAdded = 0,
     cp_totalLinesRemoved = 0\<rparr>"

theorem checkpoints_newest_first_witness:
  "descending (getCheckpoints ''s'' (fold checkpoint_step
     [SetCheckpoints ''s'' [ex_checkpoint ''x'' 1, ex_checkpoint ''y'' 3], AddCheckpoint ''s'' (ex_checkpoint ''z'' 2)]
     init_checkpoints))"
  using checkpoints_newest_first by blast

end
