(* ===== verification/Js_Number.thy ===== *)
theory Js_Number
  imports Complex_Main
begin

text \<open>
  Double-precision arithmetic on non-negative values, as far as the stores compute with fractions:
  a result is the exact one rounded to 53 significant bits, ties to even. \<open>None\<close> is \<open>NaN\<close>.
  The fuel of \<open>shift53\<close> covers every double down to \<open>2 ^ -1000\<close>, and results are meant to lie
  below \<open>2 ^ 53\<close>, as counts of array elements and percentages do.
\<close>

fun shift53 :: "nat \<Rightarrow> rat \<Rightarrow> nat" where
  "shift53 0 x = 0"
| "shift53 (Suc n) x = (if 2 * x < 2 ^ 53 then Suc (shift53 n (2 * x)) else 0)"

definition round_half_even :: "rat \<Rightarrow> int" where
  "round_half_even y =
     (let f = \<lfloor>y\<rfloor>; d = y - of_int f
      in if d < 1 / 2 then f else if 1 / 2 < d then f + 1 else if even f then f else f + 1)"

definition to_double :: "rat \<Rightarrow> rat" where
  "to_double x =
     (if x \<le> 0 then 0
      else let k = shift53 1053 x in of_int (round_half_even (x * 2 ^ k)) / 2 ^ k)"

text \<open>\<open>a / b\<close> and \<open>a * b\<close> on doubles, and \<open>Math.round\<close>.\<close>

definition double_div :: "rat \<Rightarrow> rat \<Rightarrow> rat option" where
  "double_div a b = (if b = 0 then None else Some (to_double (a / b)))"

definition double_mult :: "rat \<Rightarrow> rat \<Rightarrow> rat" where
  "double_mult a b = to_double (a * b)"

definition js_round :: "rat \<Rightarrow> int" where
  "js_round x = \<lfloor>x + 1 / 2\<rfloor>"

lemma round_half_even_int: "round_half_even (of_int n) = n"
  by (simp add: round_half_even_def)

lemma round_half_even_le:
  assumes "y \<le> of_int n"
  shows "round_half_even y \<le> n"
proof -
  have f: "\<lfloor>y\<rfloor> \<le> n" using assms by linarith
  show ?thesis
  proof (cases "\<lfloor>y\<rfloor> = n")
    case True
    with assms have "y = of_int n" by linarith
    then show ?thesis by (simp add: round_half_even_int)
  next
    case False
    with f show ?thesis by (simp add: round_half_even_def Let_def)
  qed
qed

lemma round_half_even_nonneg: "0 \<le> y \<Longrightarrow> 0 \<le> round_half_even y"
  by (simp add: round_half_even_def Let_def)

lemma to_double_bounds:
  assumes "0 \<le> x" "x \<le> of_nat m"
  shows "0 \<le> to_double x \<and> to_double x \<le> of_nat m"
proof (cases "x \<le> 0")
  case True
  then show ?thesis by (simp add: to_double_def)
next
  case False
  define k where "k = shift53 1053 x"
  have d: "to_double x = of_int (round_half_even (x * 2 ^ k)) / 2 ^ k"
    using False by (simp add: to_double_def k_def Let_def)
  have "x * 2 ^ k \<le> of_int (int m * 2 ^ k)"
    using assms(2) by (simp add: mult_right_mono)
  then have "round_half_even (x * 2 ^ k) \<le> int m * 2 ^ k"
    by (rule round_half_even_le)
  then have "(of_int (round_half_even (x * 2 ^ k)) :: rat) \<le> of_int (int m * 2 ^ k)"
    by (simp only: of_int_le_iff)
  moreover have "0 \<le> round_half_even (x * 2 ^ k)"
    using assms(1) by (intro round_half_even_nonneg) simp
  ultimately show ?thesis
    unfolding d by (simp add: divide_le_eq)
qed

lemma to_double_nat: "to_double (of_nat m) = of_nat m"
proof (cases "m = 0")
  case False
  define k where "k = shift53 1053 (of_nat m)"
  have "(of_nat m :: rat) * 2 ^ k = of_int (int m * 2 ^ k)" by simp
  then have "round_half_even (of_nat m * 2 ^ k) = int m * 2 ^ k"
    by (simp only: round_half_even_int)
  with False show ?thesis
    by (simp add: to_double_def Let_def k_def [symmetric])
qed (simp add: to_double_def)

lemma js_round_bounds: "0 \<le> x \<Longrightarrow> x \<le> of_nat m \<Longrightarrow> 0 \<le> js_round x \<and> js_round x \<le> int m"
  unfolding js_round_def by (simp add: floor_le_iff le_floor_iff)

lemma js_round_nat: "js_round (of_nat m) = int m"
  by (simp add: js_round_def floor_eq_iff)

section \<open>Rounding is monotone and keeps doubles\<close>

definition double_add :: "rat \<Rightarrow> rat \<Rightarrow> rat" where
  "double_add a b = to_double (a + b)"

lemma round_half_even_mono:
  assumes "x \<le> y"
  shows "round_half_even x \<le> round_half_even y"
proof -
  have f: "\<lfloor>x\<rfloor> \<le> \<lfloor>y\<rfloor>" using assms by (rule floor_mono)
  have range: "\<lfloor>z\<rfloor> \<le> round_half_even z \<and> round_half_even z \<le> \<lfloor>z\<rfloor> + 1" for z
    by (simp add: round_half_even_def Let_def)
  show ?thesis
  proof (cases "\<lfloor>x\<rfloor> = \<lfloor>y\<rfloor>")
    case True
    with assms show ?thesis
      by (auto simp: round_half_even_def Let_def)
  next
    case False
    with f range [of x] range [of y] show ?thesis by linarith
  qed
qed

lemma shift53_le: "shift53 n x \<le> n"
  by (induction n arbitrary: x) (auto intro: le_SucI)

lemma shift53_scaled: "0 < shift53 n x \<Longrightarrow> x * 2 ^ shift53 n x < 2 ^ 53"
proof (induction n arbitrary: x)
  case (Suc n)
  then have x: "2 * x < 2 ^ 53" by (auto split: if_splits)
  show ?case
  proof (cases "shift53 n (2 * x) = 0")
    case False
    with Suc.IH [of "2 * x"] x show ?thesis by (simp add: mult_ac)
  qed (use x in \<open>simp add: mult_ac\<close>)
qed simp

lemma shift53_full: "shift53 n x < n \<Longrightarrow> 2 ^ 53 \<le> 2 * (x * 2 ^ shift53 n x)"
proof (induction n arbitrary: x)
  case (Suc n)
  show ?case
  proof (cases "2 * x < 2 ^ 53")
    case True
    with Suc.prems Suc.IH [of "2 * x"] show ?thesis by (simp add: mult_ac)
  qed (use Suc in simp)
qed simp

lemma shift53_antimono: "x \<le> y \<Longrightarrow> shift53 n y \<le> shift53 n x"
  by (induction n arbitrary: x y) auto

lemma to_double_scaled: "0 < x \<Longrightarrow> to_double x = of_int (round_half_even (x * 2 ^ shift53 1053 x)) / 2 ^ shift53 1053 x"
  by (simp add: to_double_def Let_def)

lemma to_double_nonneg: "0 \<le> to_double x"
  by (simp add: to_double_def Let_def round_half_even_nonneg)

lemma to_double_mono:
  assumes "x \<le> y"
  shows "to_double x \<le> to_double y"
proof (cases "0 < x")
  case False
  then have "to_double x = 0" by (simp add: to_double_def)
  then show ?thesis using to_double_nonneg by simp
next
  case True
  with assms have y: "0 < y" by linarith
  define k where "k = shift53 1053 x"
  define l where "l = shift53 1053 y"
  have dx: "to_double x = of_int (round_half_even (x * 2 ^ k)) / 2 ^ k"
    and dy: "to_double y = of_int (round_half_even (y * 2 ^ l)) / 2 ^ l"
    using True y by (simp_all add: to_double_scaled k_def l_def)
  have "l \<le> k" using assms by (simp add: k_def l_def shift53_antimono)
  show ?thesis
  proof (cases "l = k")
    case same: True
    have "round_half_even (x * 2 ^ k) \<le> round_half_even (y * 2 ^ k)"
      using assms by (intro round_half_even_mono) (simp add: mult_right_mono)
    then show ?thesis
      by (simp add: dx dy same divide_right_mono)
  next
    case False
    with \<open>l \<le> k\<close> have "l < k" by simp
    have "x * 2 ^ k \<le> of_int (2 ^ 53)"
      using shift53_scaled [of 1053 x] \<open>l < k\<close> by (simp add: k_def)
    then have "round_half_even (x * 2 ^ k) \<le> 2 ^ 53"
      by (rule round_half_even_le)
    then have "(of_int (round_half_even (x * 2 ^ k)) :: rat) \<le> of_int (2 ^ 53)"
      by (simp only: of_int_le_iff)
    then have x': "to_double x \<le> 2 ^ 53 / 2 ^ k"
      by (simp add: dx divide_right_mono)
    have "l < 1053"
      using \<open>l < k\<close> shift53_le [of 1053 x] by (simp add: k_def)
    then have "of_int (2 ^ 52) \<le> y * 2 ^ l"
      using shift53_full [of 1053 y] by (simp add: l_def)
    then have "round_half_even (of_int (2 ^ 52)) \<le> round_half_even (y * 2 ^ l)"
      by (rule round_half_even_mono)
    then have "(of_int (2 ^ 52) :: rat) \<le> of_int (round_half_even (y * 2 ^ l))"
      by (simp only: round_half_even_int of_int_le_iff)
    then have y': "2 ^ 52 / 2 ^ l \<le> to_double y"
      by (simp add: dy divide_right_mono)
    have "(2 ^ 53 / 2 ^ k :: rat) \<le> 2 ^ 53 / 2 ^ Suc l"
      using \<open>l < k\<close> by (intro divide_left_mono power_increasing) auto
    also have "\<dots> = 2 ^ 52 / 2 ^ l" by simp
    finally show ?thesis using x' y' by linarith
  qed
qed

text \<open>A value that is a whole number after its scaling is represented exactly.\<close>

lemma to_double_exact:
  assumes "0 < x" "j \<le> shift53 1053 x" "x * 2 ^ j = of_int m"
  shows "to_double x = x"
proof -
  let ?k = "shift53 1053 x"
  have "x * 2 ^ ?k = x * 2 ^ j * 2 ^ (?k - j)"
    using assms(2) by (simp add: power_add [symmetric] mult.assoc)
  also have "\<dots> = of_int (m * 2 ^ (?k - j))"
    by (simp add: assms(3))
  finally have "round_half_even (x * 2 ^ ?k) = m * 2 ^ (?k - j)" "x * 2 ^ ?k = of_int (m * 2 ^ (?k - j))"
    by (simp_all only: round_half_even_int)
  then have "to_double x = x * 2 ^ ?k / 2 ^ ?k"
    using assms(1) by (simp only: to_double_scaled)
  then show ?thesis by simp
qed

lemma shift53_ge: "k \<le> n \<Longrightarrow> x * 2 ^ k < 2 ^ 53 \<Longrightarrow> 0 \<le> x \<Longrightarrow> k \<le> shift53 n x"
proof (induction n arbitrary: k x)
  case (Suc n)
  show ?case
  proof (cases k)
    case (Suc j)
    have "2 * x \<le> x * 2 ^ k"
      using Suc.prems(3) \<open>k = Suc j\<close> mult_left_mono [of 1 "2 ^ j" "2 * x"] by (simp add: mult_ac)
    with Suc.prems(2) have "2 * x < 2 ^ 53" by linarith
    with Suc.IH [of j "2 * x"] Suc.prems \<open>k = Suc j\<close> show ?thesis by (simp add: mult_ac)
  qed simp
qed simp

lemma to_double_idem [simp]: "to_double (to_double x) = to_double x"
proof (cases "0 < to_double x")
  case False
  then have "to_double x = 0" using to_double_nonneg [of x] by simp
  then show ?thesis by (simp add: to_double_def [of 0])
next
  case pos: True
  then have x: "0 < x" by (auto simp: to_double_def split: if_splits)
  define k where "k = shift53 1053 x"
  define m where "m = round_half_even (x * 2 ^ k)"
  have d: "to_double x = of_int m / 2 ^ k"
    using x by (simp add: to_double_scaled k_def m_def)
  have k: "k \<le> 1053" by (simp add: k_def shift53_le)
  show ?thesis
  proof (cases "k = 0")
    case True
    with d pos show ?thesis
      by (intro to_double_exact [of _ 0 m]) auto
  next
    case False
    then have "x * 2 ^ k \<le> of_int (2 ^ 53)"
      using shift53_scaled [of 1053 x] by (simp add: k_def)
    then have m: "m \<le> 2 ^ 53"
      unfolding m_def by (rule round_half_even_le)
    show ?thesis
    proof (cases "m = 2 ^ 53")
      case True
      have "k - 1 \<le> shift53 1053 (to_double x)"
        using k False d True pos by (intro shift53_ge) (simp_all add: power_diff)
      moreover have "to_double x * 2 ^ (k - 1) = of_int (2 ^ 52)"
        using False d True by (simp add: power_diff)
      ultimately show ?thesis
        using pos by (rule to_double_exact [rotated])
    next
      case False
      with m have "m < 2 ^ 53" by simp
      then have "(of_int m :: rat) < of_int (2 ^ 53)" by (simp only: of_int_less_iff)
      then have "k \<le> shift53 1053 (to_double x)"
        using k d pos by (intro shift53_ge) auto
      with pos d show ?thesis
        by (intro to_double_exact [of _ k m]) auto
    qed
  qed
qed

end
