(* ===== verification/Progress.thy ===== *)
theory Progress
  imports Js_Text Js_Number
begin

text \<open>
  The task-progress slice (\<open>packages/state/src/stores/progress.ts\<close>): the tasks of each agent
  with their steps, and the percentage of completed steps as the doubles of the code compute it.
  The set of loading agents is kept in insertion order.
\<close>

section \<open>Types\<close>

datatype step_status = StepPending | StepInProgress | StepCompleted | StepFailed | StepSkipped

datatype task_status = TaskPending | TaskInProgress | TaskCompleted | TaskFailed

record progress_step =
  ps_id :: ident
  ps_index :: int
  ps_description :: string
  ps_status :: step_status
  ps_startedAt :: "int option"
  ps_completedAt :: "int option"
  ps_durationMs :: "int option"
  ps_elapsedMs :: "int option"
  ps_error :: "string option"

text \<open>\<open>progressPercent\<close> is \<open>None\<close> for \<open>NaN\<close>.\<close>

record task_progress =
  tp_id :: ident
  tp_agentId :: ident
  tp_sessionId :: ident
  tp_title :: string
  tp_status :: task_status
  tp_steps :: "progress_step list"
  tp_currentStepIndex :: "int option"
  tp_completedSteps :: nat
  tp_totalSteps :: nat
  tp_progressPercent :: "int option"
  tp_createdAt :: int
  tp_completedAt :: "int option"
  tp_totalDurationMs :: "int option"

record progress_state =
  pr_byAgent :: "task_progress list obj"
  pr_expanded :: "ident option"
  pr_loading :: "ident list"

definition init_progress :: progress_state where
  "init_progress = \<lparr>pr_byAgent = [], pr_expanded = None, pr_loading = []\<rparr>"

section \<open>Actions\<close>

definition setProgress :: "ident \<Rightarrow> task_progress list \<Rightarrow> progress_state \<Rightarrow> progress_state" where
  "setProgress agentId progress state =
     state\<lparr>pr_byAgent := AList.update agentId (sort_key (\<lambda>p. - tp_createdAt p) progress) (pr_byAgent state)\<rparr>"

definition addProgress :: "ident \<Rightarrow> task_progress \<Rightarrow> progress_state \<Rightarrow> progress_state" where
  "addProgress agentId progress state =
     state\<lparr>pr_byAgent := AList.update agentId (progress # bucket (pr_byAgent state) agentId) (pr_byAgent state)\<rparr>"

text \<open>Patches: the assignments of a \<open>Partial<...>\<close>.\<close>

datatype task_field =
    TpAgentId ident | TpSessionId ident | TpTitle string | TpStatus task_status
  | TpSteps "progress_step list" | TpCurrentStepIndex "int option" | TpCompletedSteps nat
  | TpTotalSteps nat | TpProgressPercent "int option" | TpCreatedAt int
  | TpCompletedAt "int option" | TpTotalDurationMs "int option" | TpId ident

fun assign_task :: "task_field \<Rightarrow> task_progress \<Rightarrow> task_progress" where
  "assign_task (TpAgentId v) t = t\<lparr>tp_agentId := v\<rparr>"
| "assign_task (TpSessionId v) t = t\<lparr>tp_sessionId := v\<rparr>"
| "assign_task (TpTitle v) t = t\<lparr>tp_title := v\<rparr>"
| "assign_task (TpStatus v) t = t\<lparr>tp_status := v\<rparr>"
| "assign_task (TpSteps v) t = t\<lparr>tp_steps := v\<rparr>"
| "assign_task (TpCurrentStepIndex v) t = t\<lparr>tp_currentStepIndex := v\<rparr>"
| "assign_task (TpCompletedSteps v) t = t\<lparr>tp_completedSteps := v\<rparr>"
| "assign_task (TpTotalSteps v) t = t\<lparr>tp_totalSteps := v\<rparr>"
| "assign_task (TpProgressPercent v) t = t\<lparr>tp_progressPercent := v\<rparr>"
| "assign_task (TpCreatedAt v) t = t\<lparr>tp_createdAt := v\<rparr>"
| "assign_task (TpCompletedAt v) t = t\<lparr>tp_completedAt := v\<rparr>"
| "assign_task (TpTotalDurationMs v) t = t\<lparr>tp_totalDurationMs := v\<rparr>"
| "assign_task (TpId v) t = t\<lparr>tp_id := v\<rparr>"

datatype step_field =
    PsId ident | PsIndex int | PsDescription string | PsStatus step_status
  | PsStartedAt "int option" | PsCompletedAt "int option" | PsDurationMs "int option"
  | PsElapsedMs "int option" | PsError "string option"

fun assign_step :: "step_field \<Rightarrow> progress_step \<Rightarrow> progress_step" where
  "assign_step (PsId v) s = s\<lparr>ps_id := v\<rparr>"
| "assign_step (PsIndex v) s = s\<lparr>ps_index := v\<rparr>"
| "assign_step (PsDescription v) s = s\<lparr>ps_description := v\<rparr>"
| "assign_step (PsStatus v) s = s\<lparr>ps_status := v\<rparr>"
| "assign_step (PsStartedAt v) s = s\<lparr>ps_startedAt := v\<rparr>"
| "assign_step (PsCompletedAt v) s = s\<lparr>ps_completedAt := v\<rparr>"
| "assign_step (PsDurationMs v) s = s\<lparr>ps_durationMs := v\<rparr>"
| "assign_step (PsElapsedMs v) s = s\<lparr>ps_elapsedMs := v\<rparr>"
| "assign_step (PsError v) s = s\<lparr>ps_error := v\<rparr>"

text \<open>
  The loop over \<open>Object.entries\<close>: the first agent, in enumeration order, whose list has the id;
  its first such task is replaced and the loop ends.
\<close>

definition edit_progress ::
    "ident \<Rightarrow> (task_progress \<Rightarrow> task_progress) \<Rightarrow> progress_state \<Rightarrow> progress_state" where
  "edit_progress progressId f state =
     (case find (\<lambda>e. findIndex (\<lambda>p. tp_id p = progressId) (snd e) \<noteq> -1) (own_entries (pr_byAgent state)) of
        None \<Rightarrow> state
      | Some (agentId, ps) \<Rightarrow>
          let idx = nat (findIndex (\<lambda>p. tp_id p = progressId) ps)
          in state\<lparr>pr_byAgent := AList.update agentId (ps[idx := f (ps ! idx)]) (pr_byAgent state)\<rparr>)"

definition updateProgress :: "ident \<Rightarrow> task_field list \<Rightarrow> progress_state \<Rightarrow> progress_state" where
  "updateProgress progressId updates = edit_progress progressId (fold assign_task updates)"

text \<open>\<open>Math.round((completedSteps / newSteps.length) * 100)\<close>.\<close>

definition percent :: "nat \<Rightarrow> nat \<Rightarrow> int option" where
  "percent completedSteps count =
     map_option (\<lambda>q. js_round (double_mult q 100)) (double_div (of_nat completedSteps) (of_nat count))"

definition step_completed :: "progress_step \<Rightarrow> bool" where
  "step_completed s \<longleftrightarrow> ps_status s = StepCompleted"

definition update_task_step :: "int \<Rightarrow> step_field list \<Rightarrow> task_progress \<Rightarrow> task_progress" where
  "update_task_step stepIndex updates t =
     (let newSteps = (case js_at (tp_steps t) stepIndex of
            None \<Rightarrow> tp_steps t
          | Some s \<Rightarrow> (tp_steps t)[nat stepIndex := fold assign_step updates s]);
          completedSteps = length (filter step_completed newSteps)
      in t\<lparr>tp_steps := newSteps, tp_completedSteps := completedSteps,
           tp_progressPercent := percent completedSteps (length newSteps)\<rparr>)"

definition updateStep :: "ident \<Rightarrow> int \<Rightarrow> step_field list \<Rightarrow> progress_state \<Rightarrow> progress_state" where
  "updateStep progressId stepIndex updates = edit_progress progressId (update_task_step stepIndex updates)"

definition removeProgress :: "ident \<Rightarrow> ident \<Rightarrow> progress_state \<Rightarrow> progress_state" where
  "removeProgress agentId progressId state =
     state\<lparr>pr_byAgent := AList.update agentId
        (filter (\<lambda>p. tp_id p \<noteq> progressId) (bucket (pr_byAgent state) agentId)) (pr_byAgent state)\<rparr>"

definition setExpanded :: "ident option \<Rightarrow> progress_state \<Rightarrow> progress_state" where
  "setExpanded progressId state = state\<lparr>pr_expanded := progressId\<rparr>"

definition setProgressLoading :: "ident \<Rightarrow> bool \<Rightarrow> progress_state \<Rightarrow> progress_state" where
  "setProgressLoading agentId loading state =
     state\<lparr>pr_loading := (if loading
        then (if agentId \<in> set (pr_loading state) then pr_loading state else pr_loading state @ [agentId])
        else filter (\<lambda>a. a \<noteq> agentId) (pr_loading state))\<rparr>"

definition getProgress :: "ident \<Rightarrow> progress_state \<Rightarrow> task_progress list" where
  "getProgress agentId state = bucket (pr_byAgent state) agentId"

definition getActiveProgress :: "ident \<Rightarrow> progress_state \<Rightarrow> task_progress option" where
  "getActiveProgress agentId state = find (\<lambda>p. tp_status p = TaskInProgress) (bucket (pr_byAgent state) agentId)"

definition getProgressById :: "ident \<Rightarrow> progress_state \<Rightarrow> task_progress option" where
  "getProgressById progressId state =
     find (\<lambda>p. tp_id p = progressId) (concat (own_values (pr_byAgent state)))"

section \<open>Facts\<close>

lemma percent_some: "0 < n \<Longrightarrow> percent c n = Some (js_round (to_double (to_double (of_nat c / of_nat n) * 100)))"
  by (simp add: percent_def double_div_def double_mult_def)

lemma percent_none: "percent c 0 = None"
  by (simp add: percent_def double_div_def)

lemma percent_bounds:
  assumes "0 < n" "c \<le> n"
  shows "\<exists>p. percent c n = Some p \<and> 0 \<le> p \<and> p \<le> 100"
proof -
  have q: "0 \<le> (of_nat c :: rat) / of_nat n" "(of_nat c :: rat) / of_nat n \<le> of_nat 1"
    using assms by (simp_all add: divide_le_eq)
  have d: "0 \<le> to_double (of_nat c / of_nat n)" "to_double (of_nat c / of_nat n) \<le> 1"
    using to_double_bounds [OF q] by simp_all
  then have "0 \<le> to_double (of_nat c / of_nat n) * 100" "to_double (of_nat c / of_nat n) * 100 \<le> of_nat 100"
    by simp_all
  from to_double_bounds [OF this] show ?thesis
    using assms(1) js_round_bounds [of _ 100] by (simp add: percent_some)
qed

lemma percent_all: "0 < n \<Longrightarrow> percent n n = Some 100"
  using to_double_nat [of 1] to_double_nat [of 100] js_round_nat [of 100] by (simp add: percent_some)

lemma percent_nothing: "0 < n \<Longrightarrow> percent 0 n = Some 0"
  using to_double_nat [of 0] js_round_nat [of 0] by (simp add: percent_some)

lemma update_task_step_effect:
  "length (tp_steps (update_task_step i ups t)) = length (tp_steps t) \<and>
   tp_completedSteps (update_task_step i ups t) = length (filter step_completed (tp_steps (update_task_step i ups t))) \<and>
   tp_progressPercent (update_task_step i ups t) =
     percent (tp_completedSteps (update_task_step i ups t)) (length (tp_steps t)) \<and>
   (\<forall>j. j < length (tp_steps t) \<longrightarrow> int j \<noteq> i \<longrightarrow> tp_steps (update_task_step i ups t) ! j = tp_steps t ! j)"
  by (auto simp: update_task_step_def Let_def nth_list_update js_at_def split: option.splits)

section \<open>Properties\<close>

text \<open>
  Updating a step keeps the number of steps and the other steps, recounts the completed ones,
  and sets the percentage to a value from 0 to 100 that is 100 when all steps are completed and 0
  when none is; only a task without steps gets \<open>NaN\<close>.
\<close>

theorem step_update_recounts:
  fixes i ups t
  defines "t' \<equiv> update_task_step i ups t"
  shows "length (tp_steps t') = length (tp_steps t) \<and>
     (\<forall>j < length (tp_steps t). int j \<noteq> i \<longrightarrow> tp_steps t' ! j = tp_steps t ! j) \<and>
     tp_completedSteps t' = length (filter step_completed (tp_steps t')) \<and>
     (tp_progressPercent t' = None \<longleftrightarrow> tp_steps t = []) \<and>
     (\<forall>p. tp_progressPercent t' = Some p \<longrightarrow> 0 \<le> p \<and> p \<le> 100 \<and>
        (list_all step_completed (tp_steps t') \<longrightarrow> p = 100) \<and>
        (tp_completedSteps t' = 0 \<longrightarrow> p = 0))"
proof -
  note e = update_task_step_effect [of i ups t, folded t'_def]
  show ?thesis
  proof (cases "tp_steps t = []")
    case True
    then show ?thesis using e by (simp add: percent_none)
  next
    case False
    then have n: "0 < length (tp_steps t)" by simp
    have c: "tp_completedSteps t' \<le> length (tp_steps t)"
      using e by (metis length_filter_le)
    from percent_bounds [OF n c] obtain p where p: "percent (tp_completedSteps t') (length (tp_steps t)) = Some p" "0 \<le> p" "p \<le> 100"
      by blast
    have "p = 100" if "list_all step_completed (tp_steps t')"
    proof -
      have "tp_completedSteps t' = length (tp_steps t)"
        using that e by (simp add: list_all_iff)
      then show ?thesis using p(1) percent_all [OF n] by simp
    qed
    moreover have "p = 0" if "tp_completedSteps t' = 0"
      using that p(1) percent_nothing [OF n] by simp
    ultimately show ?thesis using e p False by auto
  qed
qed

theorem step_update_recounts_witness:
  "let t' = update_task_step 0 [PsStatus StepCompleted]
     \<lparr>tp_id = ''t'', tp_agentId = ''a'', tp_sessionId = ''s'', tp_title = [], tp_status = TaskInProgress,
      tp_steps = [\<lparr>ps_id = ''p'', ps_index = 0, ps_description = [], ps_status = StepPending, ps_startedAt = None,
        ps_completedAt = None, ps_durationMs = None, ps_elapsedMs = None, ps_error = None\<rparr>],
      tp_currentStepIndex = None, tp_completedSteps = 0, tp_totalSteps = 1, tp_progressPercent = Some 0,
      tp_createdAt = 0, tp_completedAt = None, tp_totalDurationMs = None\<rparr>
   in tp_progressPercent t' = Some 100"
proof -
  let ?t = "\<lparr>tp_id = ''t'', tp_agentId = ''a'', tp_sessionId = ''s'', tp_title = [], tp_status = TaskInProgress,
      tp_steps = [\<lparr>ps_id = ''p'', ps_index = 0, ps_description = [], ps_status = StepPending, ps_startedAt = None,
        ps_completedAt = None, ps_durationMs = None, ps_elapsedMs = None, ps_error = None\<rparr>],
      tp_currentStepIndex = None, tp_completedSteps = 0, tp_totalSteps = 1, tp_progressPercent = Some 0,
      tp_createdAt = 0, tp_completedAt = None, tp_totalDurationMs = None\<rparr>"
  let ?t' = "update_task_step 0 [PsStatus StepCompleted] ?t"
  note r = step_update_recounts [of 0 "[PsStatus StepCompleted]" ?t]
  have "tp_progressPercent ?t' \<noteq> None" using r by simp
  moreover have "list_all step_completed (tp_steps ?t')"
    by (simp add: update_task_step_def js_at_def step_completed_def Let_def)
  ultimately show ?thesis using r unfolding Let_def by (cases "tp_progressPercent ?t'") simp_all
qed

lemma filter_list_update:
  "n < length xs \<Longrightarrow> \<not> P (xs ! n) \<Longrightarrow> \<not> P y \<Longrightarrow> filter P (xs[n := y]) = filter P xs"
  by (induction xs arbitrary: n) (auto split: nat.splits)

lemma progress_entries:
  assumes "obj_ok m"
  shows "find (\<lambda>e. findIndex (\<lambda>p. tp_id p = i) (snd e) \<noteq> -1) (own_entries m) = Some (a, ps) \<Longrightarrow>
    map_of m a = Some ps \<and> (\<exists>p \<in> set ps. tp_id p = i)"
proof -
  assume f: "find (\<lambda>e. findIndex (\<lambda>p. tp_id p = i) (snd e) \<noteq> -1) (own_entries m) = Some (a, ps)"
  have "(a, ps) \<in> set (own_entries m)" "findIndex (\<lambda>p. tp_id p = i) ps \<noteq> -1"
    using find_SomeD [OF f] by simp_all
  moreover from this(2) have "\<exists>p \<in> set ps. tp_id p = i"
    using findIndex_neg_iff [of "\<lambda>p. tp_id p = i" ps] findIndex_bounds [of "\<lambda>p. tp_id p = i" ps] by force
  ultimately show ?thesis using assms by auto
qed

text \<open>
  Updating the step of a task changes at most one task of one agent: the lists of all other
  agents, and every task of that agent with another id, stay as they are, and no task is added,
  dropped or moved.
\<close>

theorem step_update_is_local:
  assumes ok: "obj_ok (pr_byAgent st)"
  shows "\<exists>a. (\<forall>b. b \<noteq> a \<longrightarrow> getProgress b (updateStep i k ups st) = getProgress b st) \<and>
     map tp_id (getProgress a (updateStep i k ups st)) = map tp_id (getProgress a st) \<and>
     filter (\<lambda>p. tp_id p \<noteq> i) (getProgress a (updateStep i k ups st)) = filter (\<lambda>p. tp_id p \<noteq> i) (getProgress a st)"
proof (cases "find (\<lambda>e. findIndex (\<lambda>p. tp_id p = i) (snd e) \<noteq> -1) (own_entries (pr_byAgent st))")
  case None
  then show ?thesis by (simp add: updateStep_def edit_progress_def)
next
  case (Some e)
  obtain a ps where e: "e = (a, ps)" by (cases e)
  define n where "n = nat (findIndex (\<lambda>p. tp_id p = i) ps)"
  define p' where "p' = update_task_step k ups (ps ! n)"
  have ps: "map_of (pr_byAgent st) a = Some ps" "\<exists>p \<in> set ps. tp_id p = i"
    using progress_entries [OF ok Some [unfolded e]] by blast+
  have "\<not> findIndex (\<lambda>p. tp_id p = i) ps < 0"
    unfolding findIndex_neg_iff using ps(2) by blast
  then have ge: "0 \<le> findIndex (\<lambda>p. tp_id p = i) ps" by simp
  have "n < length ps"
    using findIndex_bounds [of "\<lambda>p. tp_id p = i" ps] ge unfolding n_def by linarith
  moreover have "tp_id (ps ! n) = i"
    unfolding n_def by (rule findIndex_nth [OF ge])
  ultimately have n: "n < length ps" "tp_id (ps ! n) = i"
    by blast+
  have st': "updateStep i k ups st = st\<lparr>pr_byAgent := AList.update a (ps[n := p']) (pr_byAgent st)\<rparr>"
    using Some e by (simp add: updateStep_def edit_progress_def Let_def n_def p'_def)
  have id: "tp_id p' = i" using n(2) by (simp add: p'_def update_task_step_def Let_def)
  have "map tp_id (ps[n := p']) = map tp_id ps"
    using id n by (simp add: map_update list_update_same_conv)
  moreover have "filter (\<lambda>p. tp_id p \<noteq> i) (ps[n := p']) = filter (\<lambda>p. tp_id p \<noteq> i) ps"
    using id n by (intro filter_list_update) simp_all
  ultimately show ?thesis
    using ps(1) by (intro exI [of _ a]) (simp add: st' getProgress_def bucket_def)
qed

theorem step_update_is_local_witness:
  "let st = init_progress\<lparr>pr_byAgent := [(''a'', []), (''b'', [])]\<rparr>
   in \<exists>a. \<forall>b. b \<noteq> a \<longrightarrow> getProgress b (updateStep ''t'' 0 [] st) = getProgress b st"
  using step_update_is_local [of "init_progress\<lparr>pr_byAgent := [(''a'', []), (''b'', [])]\<rparr>" "''t''" 0 "[]"]
  unfolding Let_def by auto

end
