(* ===== verification/Api_Utils.thy ===== *)
theory Api_Utils
  imports Js_Text
begin

text \<open>
  The helpers of the API client (\<open>packages/api-client/src/core/utils.ts\<close>): token expiry, the
  renaming of keys between snake and camel case, query strings and path segments. JSON data is
  \<open>json\<close>; class instances do not occur in it. The query string is the one \<open>URLSearchParams\<close>
  produces, the form encoding of the UTF-8 bytes.
\<close>

section \<open>Token expiry\<close>

definition calculateExpiry :: "clock \<Rightarrow> int \<Rightarrow> int" where
  "calculateExpiry clk expiresIn = clk_ms clk + expiresIn * 1000"

definition isTokenExpiringSoon :: "clock \<Rightarrow> int \<Rightarrow> int option \<Rightarrow> bool" where
  "isTokenExpiringSoon clk expiresAt bufferMs =
     (clk_ms clk + coalesce bufferMs (5 * 60 * 1000) \<ge> expiresAt)"

section \<open>Snake and camel case\<close>

definition is_lower :: "char \<Rightarrow> bool" where
  "is_lower c \<longleftrightarrow> 97 \<le> code c \<and> code c \<le> 122"

definition is_upper :: "char \<Rightarrow> bool" where
  "is_upper c \<longleftrightarrow> 65 \<le> code c \<and> code c \<le> 90"

fun snakeToCamel :: "string \<Rightarrow> string" where
  "snakeToCamel (c # d # cs) =
     (if c = CHR ''_'' \<and> is_lower d then upper_char d # snakeToCamel cs
      else c # snakeToCamel (d # cs))"
| "snakeToCamel s = s"

definition camelToSnake :: "string \<Rightarrow> string" where
  "camelToSnake s = concat (map (\<lambda>c. if is_upper c then [CHR ''_'', lower_char c] else [c]) s)"

lemma size_list_member: "x \<in> set xs \<Longrightarrow> g x < Suc (size_list g xs)"
  by (induction xs) auto

lemma json_entry_smaller:
  assumes "e \<in> set kvs"
  shows "size (snd e) < Suc (size_list (size_prod (\<lambda>_. 0) size) kvs)"
proof -
  have "size (snd e) \<le> size_prod (\<lambda>_. 0) size e"
    by (cases e) simp
  then show ?thesis
    using size_list_member [OF assms, of "size_prod (\<lambda>_. 0) size"] by linarith
qed

text \<open>Both transformations rebuild an object entry by entry; a later entry of the same name wins.\<close>

function transform_keys :: "(string \<Rightarrow> string) \<Rightarrow> json \<Rightarrow> json" where
  "transform_keys f (JArr xs) = JArr (map (transform_keys f) xs)"
| "transform_keys f (JObj kvs) =
     JObj (from_entries (map (\<lambda>e. (f (fst e), transform_keys f (snd e))) (own_entries kvs)))"
| "transform_keys f JNull = JNull"
| "transform_keys f (JBool b) = JBool b"
| "transform_keys f (JNum n) = JNum n"
| "transform_keys f (JStr s) = JStr s"
  by pat_completeness auto

termination
  by (relation "measure (\<lambda>(f, v). size v)") (auto simp: size_list_member json_entry_smaller)

definition transformKeysToCamel :: "json \<Rightarrow> json" where
  "transformKeysToCamel = transform_keys snakeToCamel"

definition transformKeysToSnake :: "json \<Rightarrow> json" where
  "transformKeysToSnake = transform_keys camelToSnake"


section \<open>Query strings\<close>

datatype query_value = QStr string | QNum int | QBool bool

text \<open>\<open>String(value)\<close>.\<close>

fun query_text :: "query_value \<Rightarrow> string" where
  "query_text (QStr s) = s"
| "query_text (QNum n) = show_int n"
| "query_text (QBool b) = (if b then ''true'' else ''false'')"

text \<open>\<open>URLSearchParams\<close>: the UTF-8 bytes of a code unit below 256, each kept or escaped.\<close>

definition utf8 :: "char \<Rightarrow> nat list" where
  "utf8 c = (if code c < 128 then [code c] else [192 + code c div 64, 128 + code c mod 64])"

definition form_safe :: "nat \<Rightarrow> bool" where
  "form_safe b \<longleftrightarrow> 48 \<le> b \<and> b \<le> 57 \<or> 65 \<le> b \<and> b \<le> 90 \<or> 97 \<le> b \<and> b \<le> 122 \<or>
     b = 42 \<or> b = 45 \<or> b = 46 \<or> b = 95"

definition hex_digit :: "nat \<Rightarrow> char" where
  "hex_digit n = char_of (if n < 10 then 48 + n else 55 + n)"

definition form_byte :: "nat \<Rightarrow> string" where
  "form_byte b =
     (if form_safe b then [char_of b] else if b = 32 then ''+''
      else [CHR ''%'', hex_digit (b div 16), hex_digit (b mod 16)])"

definition form_encode :: "string \<Rightarrow> string" where
  "form_encode s = concat (map form_byte (concat (map utf8 s)))"

definition form_pair :: "string \<times> string \<Rightarrow> string" where
  "form_pair e = form_encode (fst e) @ ''='' @ form_encode (snd e)"

fun join_with :: "string \<Rightarrow> string list \<Rightarrow> string" where
  "join_with sep [] = []"
| "join_with sep [s] = s"
| "join_with sep (s # t # ss) = s @ sep @ join_with sep (t # ss)"

text \<open>The parameters that are neither \<open>undefined\<close> nor \<open>null\<close>, in enumeration order.\<close>

definition present_params :: "query_value nullish obj \<Rightarrow> (string \<times> string) list" where
  "present_params params =
     List.map_filter (\<lambda>e. case snd e of Val v \<Rightarrow> Some (fst e, query_text v) | _ \<Rightarrow> None)
       (own_entries params)"

definition buildQueryString :: "query_value nullish obj \<Rightarrow> string" where
  "buildQueryString params =
     (let str = join_with ''&'' (map form_pair (present_params params))
      in if str \<noteq> [] then CHR ''?'' # str else [])"

section \<open>Path segments\<close>

definition trim_end :: "string \<Rightarrow> string" where
  "trim_end s = rev (dropWhile (\<lambda>c. c = CHR ''/'') (rev s))"

definition trim_both :: "string \<Rightarrow> string" where
  "trim_both s = trim_end (dropWhile (\<lambda>c. c = CHR ''/'') s)"

definition joinPath :: "string list \<Rightarrow> string" where
  "joinPath segments =
     (case segments of
        [] \<Rightarrow> []
      | s # ss \<Rightarrow> join_with ''/'' (filter (\<lambda>t. t \<noteq> []) (trim_end s # map trim_both ss)))"


section \<open>Round trips\<close>

lemma code_char_of: "n < 256 \<Longrightarrow> code (char_of n) = n"
  by (simp add: code_def)

lemma char_of_code [simp]: "char_of (code c) = c"
  by (simp add: code_def)

lemma code_less [simp]: "code c < 256"
  unfolding code_def by (metis mod_less_divisor of_char_mod_256 zero_less_numeral)

lemma upper_lower:
  assumes "is_lower d"
  shows "is_upper (upper_char d)" "lower_char (upper_char d) = d"
proof -
  have "code d - 32 < 256"
    using code_less [of d] by linarith
  then have "code (upper_char d) = code d - 32"
    using assms by (simp add: upper_char_def is_lower_def Let_def code_char_of)
  then show "is_upper (upper_char d)" "lower_char (upper_char d) = d"
    using assms by (auto simp: is_upper_def is_lower_def lower_char_def Let_def)
qed

definition no_upper :: "string \<Rightarrow> bool" where
  "no_upper s \<longleftrightarrow> (\<forall>c \<in> set s. \<not> is_upper c)"

lemma no_upper_simps [simp]: "no_upper []" "no_upper (c # s) \<longleftrightarrow> \<not> is_upper c \<and> no_upper s"
  by (auto simp: no_upper_def)

lemma camelToSnake_simps [simp]:
  "camelToSnake [] = []"
  "camelToSnake (c # s) = (if is_upper c then [CHR ''_'', lower_char c] else [c]) @ camelToSnake s"
  by (auto simp: camelToSnake_def)

lemma camelToSnake_snakeToCamel: "no_upper s \<Longrightarrow> camelToSnake (snakeToCamel s) = s"
  by (induction s rule: snakeToCamel.induct) (auto simp: upper_lower)

lemma camelToSnake_id: "no_upper s \<Longrightarrow> camelToSnake s = s"
  by (induction s) auto

lemma digit_not_upper: "is_digit c \<Longrightarrow> \<not> is_upper c \<and> \<not> is_lower c"
  by (auto simp: is_digit_def is_upper_def is_lower_def code_def)

lemma snakeToCamel_digits: "list_all is_digit s \<Longrightarrow> snakeToCamel s = s"
  by (induction s rule: snakeToCamel.induct) (auto simp: digit_not_upper)

lemma is_index_digits: "is_index s \<Longrightarrow> list_all is_digit s"
  by (simp add: is_index_def)

lemma digits_no_upper: "list_all is_digit s \<Longrightarrow> no_upper s"
  by (induction s) (auto simp: digit_not_upper)

lemma is_index_camel:
  assumes "no_upper s"
  shows "is_index (snakeToCamel s) = is_index s"
proof
  assume "is_index (snakeToCamel s)"
  then have "camelToSnake (snakeToCamel s) = snakeToCamel s"
    by (intro camelToSnake_id digits_no_upper is_index_digits)
  with assms \<open>is_index (snakeToCamel s)\<close> show "is_index s"
    by (simp add: camelToSnake_snakeToCamel)
next
  assume "is_index s"
  then show "is_index (snakeToCamel s)"
    by (simp add: snakeToCamel_digits is_index_digits)
qed

text \<open>An object whose keys all satisfy \<open>P\<close>, in enumeration order and without repetition.\<close>

function keys_ok :: "(string \<Rightarrow> bool) \<Rightarrow> json \<Rightarrow> bool" where
  "keys_ok P (JArr xs) = (\<forall>x \<in> set xs. keys_ok P x)"
| "keys_ok P (JObj kvs) =
     (distinct (map fst kvs) \<and> own_entries kvs = kvs \<and>
      (\<forall>e \<in> set kvs. P (fst e) \<and> keys_ok P (snd e)))"
| "keys_ok P JNull = True"
| "keys_ok P (JBool b) = True"
| "keys_ok P (JNum n) = True"
| "keys_ok P (JStr s) = True"
  by pat_completeness auto

termination
  by (relation "measure (\<lambda>(f, v). size v)") (auto simp: size_list_member json_entry_smaller)

lemma own_entries_rename:
  assumes "own_entries kvs = kvs" "\<forall>e \<in> set kvs. is_index (f (fst e)) = is_index (fst e)"
    and "\<forall>e \<in> set kvs. is_index (fst e) \<longrightarrow> f (fst e) = fst e"
  shows "own_entries (map (\<lambda>e. (f (fst e), g e)) kvs) = map (\<lambda>e. (f (fst e), g e)) kvs"
proof -
  let ?h = "\<lambda>e. (f (fst e), g e)"
  let ?as = "sort_key (\<lambda>e. dec_val (fst e)) (filter (\<lambda>e. is_index (fst e)) kvs)"
  let ?bs = "filter (\<lambda>e. \<not> is_index (fst e)) kvs"
  have split: "kvs = ?as @ ?bs"
    using assms(1) by (simp add: own_entries_def)
  have "map (\<lambda>e. dec_val (f (fst e))) ?as = map (\<lambda>e. dec_val (fst e)) ?as"
    using assms(3) by (intro map_cong) auto
  then have "sorted (map (\<lambda>e. dec_val (f (fst e))) ?as)"
    by (metis sorted_sort_key)
  then have "own_entries (map ?h ?as @ map ?h ?bs) = map ?h ?as @ map ?h ?bs"
    using assms(2) by (intro own_entries_arranged) (auto simp: comp_def)
  then show ?thesis
    using split by (metis map_append)
qed

lemma transform_keys_inverse:
  assumes "\<And>k. P k \<Longrightarrow> g (f k) = k" "\<And>k. P k \<Longrightarrow> is_index (f k) = is_index k"
    and "\<And>k. P k \<Longrightarrow> is_index k \<Longrightarrow> f k = k"
  shows "keys_ok P v \<Longrightarrow> transform_keys g (transform_keys f v) = v"
  using assms
proof (induction P v rule: keys_ok.induct)
  case (1 P xs)
  then show ?case by (simp add: map_idI)
next
  case (2 P kvs)
  let ?m = "map (\<lambda>e. (f (fst e), transform_keys f (snd e))) kvs"
  have keys: "P (fst e)" "keys_ok P (snd e)" if "e \<in> set kvs" for e
    using 2(2) that by auto
  have inv: "map (\<lambda>e. (g (fst e), transform_keys g (snd e))) ?m = kvs"
    using 2 keys by (auto intro!: map_idI)
  have "inj_on f (fst ` set kvs)"
    using 2(3) keys by (metis (no_types, lifting) imageE inj_onI)
  then have "distinct (map fst ?m)"
    using 2(2) distinct_map [of f "map fst kvs"] by (simp add: comp_def)
  then have "from_entries ?m = ?m"
    by (rule from_entries_distinct)
  moreover have "own_entries ?m = ?m"
    using 2 keys by (intro own_entries_rename) auto
  moreover have "from_entries kvs = kvs"
    using 2(2) by (simp add: from_entries_distinct)
  ultimately show ?case
    using 2(2) inv by simp
qed auto

text \<open>
  C13: Data whose keys have no upper-case letter survives the trip to camel case and back: no key
  is lost, merged with another or moved.
\<close>

theorem snake_camel_roundtrip:
  "keys_ok no_upper v \<Longrightarrow> transformKeysToSnake (transformKeysToCamel v) = v"
  unfolding transformKeysToSnake_def transformKeysToCamel_def
  by (rule transform_keys_inverse [of no_upper])
    (auto simp: camelToSnake_snakeToCamel is_index_camel snakeToCamel_digits is_index_digits)


definition ex_json :: json where
  "ex_json = JObj [(''user_id'', JNum 7), (''file_list'', JArr [JObj [(''is_dirty'', JBool True)]])]"

lemma keys_ok_ex: "keys_ok no_upper ex_json"
  by (simp add: ex_json_def own_entries_def is_index_def is_digit_def is_upper_def code_def)

theorem snake_camel_roundtrip_witness:
  "transformKeysToSnake (transformKeysToCamel ex_json) = ex_json"
  by (rule snake_camel_roundtrip [OF keys_ok_ex])

text \<open>The reading side, written for the specification: a form decoder.\<close>

definition unhex :: "char \<Rightarrow> nat" where
  "unhex c = (if code c < 58 then code c - 48 else code c - 55)"

fun form_bytes :: "string \<Rightarrow> nat list" where
  "form_bytes [] = []"
| "form_bytes (c # cs) =
     (if c = CHR ''%'' then (case cs of h # l # ds \<Rightarrow> (16 * unhex h + unhex l) # form_bytes ds | _ \<Rightarrow> [])
      else (if c = CHR ''+'' then 32 else code c) # form_bytes cs)"

fun from_utf8 :: "nat list \<Rightarrow> string" where
  "from_utf8 [] = []"
| "from_utf8 (b # bs) =
     (if b < 128 then char_of b # from_utf8 bs
      else case bs of [] \<Rightarrow> [] | b' # ds \<Rightarrow> char_of (64 * (b - 192) + (b' - 128)) # from_utf8 ds)"

definition form_decode :: "string \<Rightarrow> string" where
  "form_decode s = from_utf8 (form_bytes s)"

definition read_pair :: "string \<Rightarrow> string \<times> string" where
  "read_pair s = (form_decode (takeWhile (\<lambda>c. c \<noteq> CHR ''='') s),
                  form_decode (tl (dropWhile (\<lambda>c. c \<noteq> CHR ''='') s)))"

definition read_query :: "string \<Rightarrow> (string \<times> string) list" where
  "read_query s = (case s of [] \<Rightarrow> [] | _ # t \<Rightarrow> map read_pair (split_char (CHR ''&'') t))"

lemma unhex_digit: "n < 16 \<Longrightarrow> unhex (hex_digit n) = n"
  by (simp add: unhex_def hex_digit_def code_char_of)

lemma char_of_neq: "b < 256 \<Longrightarrow> code c \<noteq> b \<Longrightarrow> char_of b \<noteq> c"
  using code_char_of by blast

lemma form_bytes_byte: "b < 256 \<Longrightarrow> form_bytes (form_byte b @ s) = b # form_bytes s"
proof -
  assume b: "b < 256"
  show ?thesis
  proof (cases "form_safe b")
    case True
    then have "char_of b \<noteq> CHR ''%''" "char_of b \<noteq> CHR ''+''"
      by (intro char_of_neq [OF b]; auto simp: form_safe_def code_def)+
    with True b show ?thesis by (simp add: form_byte_def code_char_of)
  next
    case False
    then show ?thesis
      using b unhex_digit [of "b div 16"] unhex_digit [of "b mod 16"] by (auto simp: form_byte_def)
  qed
qed

lemma utf8_bytes: "\<forall>b \<in> set (utf8 c). b < 256"
proof -
  have "code c div 64 < 4" "code c mod 64 < 128"
    using code_less [of c] mod_less_divisor [of 64 "code c"] by linarith+
  then show ?thesis by (simp add: utf8_def)
qed

lemma form_bytes_bytes:
  "\<forall>b \<in> set bs. b < 256 \<Longrightarrow> form_bytes (concat (map form_byte bs) @ s) = bs @ form_bytes s"
  by (induction bs) (auto simp: form_bytes_byte)

lemma from_utf8_char: "from_utf8 (utf8 c @ bs) = c # from_utf8 bs"
proof -
  have "64 * (code c div 64) + code c mod 64 = code c"
    by simp
  moreover have "code c div 64 < 64"
    using code_less [of c] by linarith
  ultimately show ?thesis
    using char_of_code [of c] by (auto simp: utf8_def simp del: mult_div_mod_eq)
qed

lemma form_decode_encode: "form_decode (form_encode s) = s"
proof -
  have "\<forall>b \<in> set (concat (map utf8 s)). b < 256"
    using utf8_bytes by auto
  then have "form_bytes (form_encode s) = concat (map utf8 s)"
    using form_bytes_bytes [of _ "[]"] by (simp add: form_encode_def)
  moreover have "from_utf8 (concat (map utf8 s)) = s"
    by (induction s) (auto simp: from_utf8_char)
  ultimately show ?thesis
    by (simp add: form_decode_def)
qed

text \<open>An encoded text holds no separator.\<close>

lemma form_byte_safe: "b < 256 \<Longrightarrow> CHR ''&'' \<notin> set (form_byte b) \<and> CHR ''='' \<notin> set (form_byte b)"
proof -
  assume b: "b < 256"
  have hex: "hex_digit n \<noteq> CHR ''&'' \<and> hex_digit n \<noteq> CHR ''=''" if "n < 16" for n
    using that unfolding hex_digit_def by (intro conjI char_of_neq) (auto simp: code_def)
  have "b div 16 < 16" using b by linarith
  moreover have "form_safe b \<longrightarrow> char_of b \<noteq> CHR ''&'' \<and> char_of b \<noteq> CHR ''=''"
    by (intro impI conjI char_of_neq [OF b]) (auto simp: form_safe_def code_def)
  ultimately show ?thesis
    using hex [of "b div 16"] hex [of "b mod 16"] by (auto simp: form_byte_def)
qed

lemma form_encode_safe: "CHR ''&'' \<notin> set (form_encode s)" "CHR ''='' \<notin> set (form_encode s)"
  using utf8_bytes form_byte_safe by (fastforce simp: form_encode_def)+

lemma read_form_pair: "read_pair (form_pair e) = e"
proof -
  have *: "\<forall>c \<in> set (form_encode s). c \<noteq> CHR ''=''" for s
    using form_encode_safe by metis
  have "takeWhile (\<lambda>c. c \<noteq> CHR ''='') (form_pair e) = form_encode (fst e)"
    "dropWhile (\<lambda>c. c \<noteq> CHR ''='') (form_pair e) = CHR ''='' # form_encode (snd e)"
    using * by (simp_all add: form_pair_def takeWhile_append dropWhile_append)
  then show ?thesis
    by (simp add: read_pair_def form_decode_encode)
qed

lemma split_char_none: "d \<notin> set s \<Longrightarrow> split_char d s = [s]"
  by (induction s) auto

lemma split_char_sep: "d \<notin> set s \<Longrightarrow> split_char d (s @ d # t) = s # split_char d t"
  by (induction s) (auto split: list.splits)

lemma split_join:
  "ss \<noteq> [] \<Longrightarrow> \<forall>s \<in> set ss. d \<notin> set s \<Longrightarrow> split_char d (join_with [d] ss) = ss"
  by (induction "[d]" ss rule: join_with.induct) (auto simp: split_char_none split_char_sep)

text \<open>
  A form decoder reads back from the query string exactly the parameters that are present, in
  order, whatever characters their names and values hold.
\<close>

theorem query_string_roundtrip: "read_query (buildQueryString params) = present_params params"
proof (cases "present_params params = []")
  case True
  then show ?thesis by (simp add: buildQueryString_def read_query_def)
next
  case False
  let ?ss = "map form_pair (present_params params)"
  have "join_with ''&'' ?ss \<noteq> []"
    using False by (cases "present_params params" rule: remdups_adj.cases) (auto simp: form_pair_def)
  moreover have "\<forall>s \<in> set ?ss. CHR ''&'' \<notin> set s"
    using form_encode_safe by (auto simp: form_pair_def)
  ultimately show ?thesis
    using False split_join [of ?ss "CHR ''&''"]
    by (simp add: buildQueryString_def read_query_def Let_def read_form_pair comp_def)
qed

section \<open>Joining segments\<close>

lemma trim_end_id: "CHR ''/'' \<notin> set s \<Longrightarrow> trim_end s = s"
proof -
  assume "CHR ''/'' \<notin> set s"
  then have "\<forall>c \<in> set (rev s). c \<noteq> CHR ''/''" by auto
  then have "dropWhile (\<lambda>c. c = CHR ''/'') (rev s) = rev s"
    by (cases "rev s") auto
  then show ?thesis by (simp add: trim_end_def)
qed

lemma trim_both_id: "CHR ''/'' \<notin> set s \<Longrightarrow> trim_both s = s"
  by (cases s) (auto simp: trim_both_def trim_end_id)

text \<open>Plain segments can be read off the path again.\<close>

lemma split_joinPath:
  assumes "ss \<noteq> []" "\<forall>s \<in> set ss. s \<noteq> [] \<and> CHR ''/'' \<notin> set s"
  shows "split_char (CHR ''/'') (joinPath ss) = ss"
proof -
  have "joinPath ss = join_with ''/'' ss"
    using assms by (cases ss) (auto simp: joinPath_def trim_end_id trim_both_id map_idI filter_id_conv)
  with assms split_join show ?thesis by metis
qed

text \<open>A first segment that is only a slash is lost: the path is relative.\<close>

lemma joinPath_root: "joinPath [''/'', ''api''] = ''api''"
  by (simp add: joinPath_def trim_end_def trim_both_def)

end
