(* ===== verification/Api_Errors.thy ===== *)
theory Api_Errors
  imports Api_Utils
begin

text \<open>
  The values the API client throws and the predicates that classify them
  (\<open>packages/api-client/src/core/errors.ts\<close>). A thrown value is the client's own
  \<open>ApiRequestError\<close>, a built-in error with its \<open>name\<close>, \<open>message\<close> and \<open>code\<close>, or anything else.
  The platform has \<open>DOMException\<close>, whose instances are \<open>Error\<close>s too.
\<close>

datatype error_class = ErrorClass | TypeErrorClass | DOMExceptionClass

datatype thrown =
    ApiRequestError string int bool
  | BuiltinError error_class string string "string option"
  | OtherThrown json

fun isAbortError :: "thrown \<Rightarrow> bool" where
  "isAbortError (ApiRequestError _ _ isAborted) = isAborted"
| "isAbortError (BuiltinError cls name _ _) = (cls = DOMExceptionClass \<and> name = ''AbortError'')"
| "isAbortError (OtherThrown _) = False"

definition quota_text :: "string \<Rightarrow> bool" where
  "quota_text message =
     (let msg = to_lower message
      in has_substring msg ''quota'' \<or> has_substring msg ''credit'' \<or> has_substring msg ''exceeded'' \<or>
         has_substring msg ''insufficient'')"

fun isQuotaError :: "thrown \<Rightarrow> bool" where
  "isQuotaError (ApiRequestError message status _) =
     (status = 402 \<or> status = 403 \<and> quota_text message)"
| "isQuotaError (BuiltinError _ _ message _) = quota_text message"
| "isQuotaError (OtherThrown _) = False"

fun isNetworkError :: "thrown \<Rightarrow> bool" where
  "isNetworkError (ApiRequestError _ status _) = (status = 503)"
| "isNetworkError (BuiltinError cls _ message _) =
     (cls = TypeErrorClass \<and> message = ''Failed to fetch'')"
| "isNetworkError (OtherThrown _) = False"

definition has_status :: "(int \<Rightarrow> bool) \<Rightarrow> thrown \<Rightarrow> bool" where
  "has_status P e = (case e of ApiRequestError _ status _ \<Rightarrow> P status | _ \<Rightarrow> False)"

definition isAuthError :: "thrown \<Rightarrow> bool" where
  "isAuthError = has_status (\<lambda>s. s = 401)"

definition isForbiddenError :: "thrown \<Rightarrow> bool" where
  "isForbiddenError = has_status (\<lambda>s. s = 403)"

definition isNotFoundError :: "thrown \<Rightarrow> bool" where
  "isNotFoundError = has_status (\<lambda>s. s = 404)"

definition isServerError :: "thrown \<Rightarrow> bool" where
  "isServerError = has_status (\<lambda>s. s \<ge> 500)"

end
