(* ===== verification/Api_Client.thy ===== *)
theory Api_Client
  imports Api_Errors
begin

text \<open>
  The API client (\<open>packages/api-client/src/client/base-client.ts\<close>): headers, the reading of
  responses, and requests that refresh an expired token and retry once, any number of them at the
  same time. The HTTP adapter, the auth provider and the error reporter are supplied by the
  application: an answer of the adapter is an event that carries a response or a thrown value, the
  end of a refresh is an event that carries its success, and the trace records what the client
  asked of them. The reporter and the logout callback return; a body is the JSON value that is
  serialized.
\<close>

section \<open>Requests and responses\<close>

datatype http_method = GET | POST | PUT | PATCH | DELETE

record request_config =
  rq_url :: string
  rq_method :: http_method
  rq_headers :: "string obj"
  rq_body :: "json option"
  rq_signal :: "nat option"

record http_response =
  hr_status :: int
  hr_statusText :: string
  hr_url :: string
  hr_data :: json
  hr_ok :: bool

text \<open>What the client does besides answering: log out, or report an error.\<close>

datatype api_effect = LoggedOut | Captured thrown http_response bool

definition strip_slash :: "string \<Rightarrow> string" where
  "strip_slash url = (if url \<noteq> [] \<and> last url = CHR ''/'' then butlast url else url)"

definition getHeaders :: "string option \<Rightarrow> bool \<Rightarrow> string obj" where
  "getHeaders token includeAuth =
     (let headers = [(''Content-Type'', ''application/json'')]
      in if includeAuth \<and> truthy token
         then AList.update ''Authorization'' (''Bearer '' @ the token) headers else headers)"

text \<open>\<open>Array.prototype.join\<close> of JSON values, and \<open>e.msg\<close> of one validation error.\<close>

fun json_text :: "json \<Rightarrow> string" where
  "json_text JNull = []"
| "json_text (JBool b) = (if b then ''true'' else ''false'')"
| "json_text (JNum n) = show_int n"
| "json_text (JStr s) = s"
| "json_text (JArr xs) = join_with '','' (map json_text xs)"
| "json_text (JObj kvs) = ''[object Object]''"

fun detail_msg :: "json \<Rightarrow> thrown + string" where
  "detail_msg JNull =
     Inl (BuiltinError TypeErrorClass ''TypeError''
       ''Cannot read properties of null (reading 'msg')'' None)"
| "detail_msg (JObj kvs) =
     Inr (case map_of kvs ''msg'' of None \<Rightarrow> [] | Some v \<Rightarrow> json_text v)"
| "detail_msg _ = Inr []"

fun detail_msgs :: "json list \<Rightarrow> thrown + string list" where
  "detail_msgs [] = Inr []"
| "detail_msgs (e # es) =
     (case detail_msg e of
        Inl err \<Rightarrow> Inl err
      | Inr m \<Rightarrow> (case detail_msgs es of Inl err \<Rightarrow> Inl err | Inr ms \<Rightarrow> Inr (m # ms)))"

definition error_message :: "http_response \<Rightarrow> thrown + string" where
  "error_message r =
     (case (case hr_data r of JObj kvs \<Rightarrow> map_of kvs ''detail'' | _ \<Rightarrow> None) of
        Some (JArr es) \<Rightarrow> (case detail_msgs es of
          Inl err \<Rightarrow> Inl err | Inr ms \<Rightarrow> Inr (join_with '', '' ms))
      | Some (JStr s) \<Rightarrow> Inr s
      | _ \<Rightarrow> Inr (''HTTP '' @ show_int (hr_status r) @ '': '' @ hr_statusText r))"

definition reportable :: "int \<Rightarrow> bool" where
  "reportable status \<longleftrightarrow> status \<ge> 500 \<or> status \<ge> 400 \<and> status \<noteq> 401 \<and> status \<noteq> 403"

text \<open>\<open>reports\<close> says whether an error reporter is configured.\<close>

definition handleResponse :: "bool \<Rightarrow> http_response \<Rightarrow> bool \<Rightarrow> api_effect list \<times> (thrown + json)" where
  "handleResponse reports r isRetry =
     (if hr_ok r then ([], Inr (hr_data r))
      else case error_message r of
        Inl err \<Rightarrow> ([], Inl err)
      | Inr message \<Rightarrow>
          (let err = ApiRequestError message (hr_status r) False
           in ((if hr_status r = 401 \<and> isRetry then [LoggedOut] else []) @
               (if reports \<and> reportable (hr_status r) then [Captured err r isRetry] else []),
               Inl err)))"

fun handleRequestError :: "thrown \<Rightarrow> thrown" where
  "handleRequestError (ApiRequestError m s a) = ApiRequestError m s a"
| "handleRequestError (BuiltinError cls name message errcode) =
     (if name = ''AbortError'' \<or> errcode = Some ''ABORT_ERR''
      then ApiRequestError ''Request was cancelled'' 0 True
      else if cls = TypeErrorClass \<and> has_substring message ''fetch''
      then ApiRequestError ''Unable to connect to the API server. Please check your connection.'' 503 False
      else BuiltinError cls name message errcode)"
| "handleRequestError (OtherThrown v) = OtherThrown v"

section \<open>One request\<close>

text \<open>
  \<open>requestWithRetry\<close> read from top to bottom: \<open>first\<close> and \<open>second\<close> are what the adapter
  answers to the request and to its retry, \<open>refreshed\<close> what the token refresh gives. An answer
  is a thrown value or a response.
\<close>

definition attempt :: "bool \<Rightarrow> bool \<Rightarrow> thrown + http_response \<Rightarrow> api_effect list \<times> (thrown + json)" where
  "attempt reports isRetry answer =
     (case answer of Inl e \<Rightarrow> ([], Inl e) | Inr r \<Rightarrow> handleResponse reports r isRetry)"

definition expired :: "bool \<Rightarrow> thrown \<Rightarrow> bool" where
  "expired includeAuth e \<longleftrightarrow>
     (case e of ApiRequestError _ status isAborted \<Rightarrow> status = 401 \<and> includeAuth \<and> \<not> isAborted
      | _ \<Rightarrow> False)"

definition requestWithRetry ::
    "bool \<Rightarrow> bool \<Rightarrow> thrown + http_response \<Rightarrow> bool \<Rightarrow> thrown + http_response \<Rightarrow>
     api_effect list \<times> (thrown + json)" where
  "requestWithRetry reports includeAuth first refreshed second =
     (case attempt reports False first of
        (effs, Inr v) \<Rightarrow> (effs, Inr v)
      | (effs, Inl e) \<Rightarrow>
          if expired includeAuth e
          then if refreshed
               then (case attempt reports True second of
                       (effs', Inr v) \<Rightarrow> (effs @ effs', Inr v)
                     | (effs', Inl e') \<Rightarrow> (effs @ effs', Inl (handleRequestError e')))
               else (effs @ [LoggedOut], Inl e)
          else (effs, Inl (handleRequestError e)))"


section \<open>Requests at the same time\<close>

text \<open>
  The caller's request, where its \<open>requestWithRetry\<close> is waiting, and the client: its base URL, the
  access token the auth provider would give, whether \<open>refreshPromise\<close> is set, the requests in
  the order they were made, and the trace. A request that waits for the shared refresh is woken in
  a tick of its own after the refresh has ended.
\<close>

record api_call =
  ac_method :: http_method
  ac_path :: string
  ac_body :: "json option"
  ac_signal :: "nat option"
  ac_includeAuth :: bool

datatype phase =
    FirstTry
  | AwaitRefresh thrown
  | Woken bool thrown
  | Retrying
  | Settled "thrown + json"

datatype api_trace =
    Requested nat request_config
  | Answered nat "thrown + http_response"
  | RefreshStarted
  | RefreshEnded bool
  | Resumed nat bool
  | Effect nat api_effect

record api_client =
  cl_baseUrl :: string
  cl_reports :: bool
  cl_token :: "string option"
  cl_refreshing :: bool
  cl_tasks :: "(api_call \<times> phase) list"
  cl_trace :: "api_trace list"

definition new_client :: "string \<Rightarrow> bool \<Rightarrow> string option \<Rightarrow> api_client" where
  "new_client baseUrl reports token =
     \<lparr>cl_baseUrl = strip_slash baseUrl, cl_reports = reports, cl_token = token,
      cl_refreshing = False, cl_tasks = [], cl_trace = []\<rparr>"

definition setBaseUrl :: "string \<Rightarrow> api_client \<Rightarrow> api_client" where
  "setBaseUrl url c = c\<lparr>cl_baseUrl := strip_slash url\<rparr>"

definition config_of :: "api_call \<Rightarrow> api_client \<Rightarrow> request_config" where
  "config_of call c =
     \<lparr>rq_url = cl_baseUrl c @ ac_path call, rq_method = ac_method call,
      rq_headers = getHeaders (cl_token c) (ac_includeAuth call),
      rq_body = ac_body call, rq_signal = ac_signal call\<rparr>"

definition put_phase :: "nat \<Rightarrow> phase \<Rightarrow> api_client \<Rightarrow> api_client" where
  "put_phase i ph c = c\<lparr>cl_tasks := (cl_tasks c)[i := (fst (cl_tasks c ! i), ph)]\<rparr>"

definition record_trace :: "api_trace list \<Rightarrow> api_client \<Rightarrow> api_client" where
  "record_trace ts c = c\<lparr>cl_trace := cl_trace c @ ts\<rparr>"

text \<open>The call runs up to its first \<open>await\<close>: the request is sent.\<close>

definition start_request :: "api_call \<Rightarrow> api_client \<Rightarrow> api_client" where
  "start_request call c =
     record_trace [Requested (length (cl_tasks c)) (config_of call c)]
       (c\<lparr>cl_tasks := cl_tasks c @ [(call, FirstTry)]\<rparr>)"

definition attemptTokenRefresh :: "api_client \<Rightarrow> api_client" where
  "attemptTokenRefresh c =
     (if cl_refreshing c then c else record_trace [RefreshStarted] (c\<lparr>cl_refreshing := True\<rparr>))"

definition first_answer :: "nat \<Rightarrow> thrown + http_response \<Rightarrow> api_client \<Rightarrow> api_client" where
  "first_answer i answer c =
     (let (effs, res) = attempt (cl_reports c) False answer;
          c' = record_trace (Answered i answer # map (Effect i) effs) c
      in case res of
           Inr v \<Rightarrow> put_phase i (Settled (Inr v)) c'
         | Inl e \<Rightarrow>
             if expired (ac_includeAuth (fst (cl_tasks c ! i))) e
             then put_phase i (AwaitRefresh e) (attemptTokenRefresh c')
             else put_phase i (Settled (Inl (handleRequestError e))) c')"

text \<open>The shared promise settles: it is cleared, and its result goes to everyone who awaits it.\<close>

definition wake :: "bool \<Rightarrow> phase \<Rightarrow> phase" where
  "wake refreshed ph = (case ph of AwaitRefresh e \<Rightarrow> Woken refreshed e | _ \<Rightarrow> ph)"

definition refresh_ended :: "bool \<Rightarrow> api_client \<Rightarrow> api_client" where
  "refresh_ended refreshed c =
     record_trace [RefreshEnded refreshed]
       (c\<lparr>cl_refreshing := False,
          cl_tasks := map (\<lambda>t. (fst t, wake refreshed (snd t))) (cl_tasks c)\<rparr>)"

definition resume :: "nat \<Rightarrow> api_client \<Rightarrow> api_client" where
  "resume i c =
     (case snd (cl_tasks c ! i) of
        Woken True e \<Rightarrow>
          record_trace [Resumed i True, Requested i (config_of (fst (cl_tasks c ! i)) c)]
            (put_phase i Retrying c)
      | Woken False e \<Rightarrow>
          record_trace [Resumed i False, Effect i LoggedOut] (put_phase i (Settled (Inl e)) c)
      | _ \<Rightarrow> c)"

definition retry_answer :: "nat \<Rightarrow> thrown + http_response \<Rightarrow> api_client \<Rightarrow> api_client" where
  "retry_answer i answer c =
     (let (effs, res) = attempt (cl_reports c) True answer;
          c' = record_trace (Answered i answer # map (Effect i) effs) c
      in case res of
           Inr v \<Rightarrow> put_phase i (Settled (Inr v)) c'
         | Inl e \<Rightarrow> put_phase i (Settled (Inl (handleRequestError e))) c')"

text \<open>The methods of the class.\<close>

definition get_request :: "string \<Rightarrow> bool \<Rightarrow> nat option \<Rightarrow> api_call" where
  "get_request path includeAuth signal =
     \<lparr>ac_method = GET, ac_path = path, ac_body = None, ac_signal = signal, ac_includeAuth = includeAuth\<rparr>"

definition post_request :: "string \<Rightarrow> json \<Rightarrow> bool \<Rightarrow> nat option \<Rightarrow> api_call" where
  "post_request path data includeAuth signal =
     \<lparr>ac_method = POST, ac_path = path, ac_body = Some data, ac_signal = signal, ac_includeAuth = includeAuth\<rparr>"

definition put_request :: "string \<Rightarrow> json \<Rightarrow> bool \<Rightarrow> nat option \<Rightarrow> api_call" where
  "put_request path data includeAuth signal =
     \<lparr>ac_method = PUT, ac_path = path, ac_body = Some data, ac_signal = signal, ac_includeAuth = includeAuth\<rparr>"

definition patch_request :: "string \<Rightarrow> json \<Rightarrow> bool \<Rightarrow> nat option \<Rightarrow> api_call" where
  "patch_request path data includeAuth signal =
     \<lparr>ac_method = PATCH, ac_path = path, ac_body = Some data, ac_signal = signal, ac_includeAuth = includeAuth\<rparr>"

definition delete_request :: "string \<Rightarrow> bool \<Rightarrow> nat option \<Rightarrow> api_call" where
  "delete_request path includeAuth signal =
     \<lparr>ac_method = DELETE, ac_path = path, ac_body = None, ac_signal = signal, ac_includeAuth = includeAuth\<rparr>"

text \<open>
  The interleavings. The token may change at any time (it is the auth store's), an answer comes
  for a request that is out, the refresh ends once after it was started.
\<close>

inductive api_step :: "api_client \<Rightarrow> api_client \<Rightarrow> bool" where
  step_request: "api_step c (start_request call c)"
| step_token: "api_step c (c\<lparr>cl_token := tok\<rparr>)"
| step_base: "api_step c (setBaseUrl url c)"
| step_first: "i < length (cl_tasks c) \<Longrightarrow> snd (cl_tasks c ! i) = FirstTry \<Longrightarrow>
    api_step c (first_answer i answer c)"
| step_refresh: "cl_refreshing c \<Longrightarrow> api_step c (refresh_ended refreshed c)"
| step_resume: "i < length (cl_tasks c) \<Longrightarrow> snd (cl_tasks c ! i) = Woken refreshed e \<Longrightarrow>
    api_step c (resume i c)"
| step_retry: "i < length (cl_tasks c) \<Longrightarrow> snd (cl_tasks c ! i) = Retrying \<Longrightarrow>
    api_step c (retry_answer i answer c)"

inductive api_run :: "api_client \<Rightarrow> bool" where
  run_new: "api_run (new_client baseUrl reports tok)"
| run_step: "api_run c \<Longrightarrow> api_step c c' \<Longrightarrow> api_run c'"

end
