(* ===== verification/Api_Client_Properties.thy ===== *)
theory Api_Client_Properties
  imports Api_Client
begin

text \<open>
  What the API client guarantees about requests that run at the same time: each one behaves as
  \<open>requestWithRetry\<close> read alone on the answers it saw, token refreshes never overlap, nothing
  waits for a refresh that is not running, and once the environment has answered every request has
  settled.
\<close>

section \<open>What one request saw and did\<close>

datatype settlement = Http "thrown + http_response" | Refresh bool

fun seen1 :: "nat \<Rightarrow> api_trace \<Rightarrow> settlement list" where
  "seen1 i (Answered j answer) = (if j = i then [Http answer] else [])"
| "seen1 i (Resumed j refreshed) = (if j = i then [Refresh refreshed] else [])"
| "seen1 i _ = []"

fun effects1 :: "nat \<Rightarrow> api_trace \<Rightarrow> api_effect list" where
  "effects1 i (Effect j eff) = (if j = i then [eff] else [])"
| "effects1 i _ = []"

fun sent1 :: "nat \<Rightarrow> api_trace \<Rightarrow> request_config list" where
  "sent1 i (Requested j cfg) = (if j = i then [cfg] else [])"
| "sent1 i _ = []"

definition seen :: "nat \<Rightarrow> api_trace list \<Rightarrow> settlement list" where
  "seen i tr = concat (map (seen1 i) tr)"

definition effects :: "nat \<Rightarrow> api_trace list \<Rightarrow> api_effect list" where
  "effects i tr = concat (map (effects1 i) tr)"

definition sent :: "nat \<Rightarrow> api_trace list \<Rightarrow> request_config list" where
  "sent i tr = concat (map (sent1 i) tr)"

definition started :: "api_trace list \<Rightarrow> nat" where
  "started tr = length (filter (\<lambda>t. t = RefreshStarted) tr)"

definition ended :: "api_trace list \<Rightarrow> nat" where
  "ended tr = length (filter (\<lambda>t. t = RefreshEnded True \<or> t = RefreshEnded False) tr)"

lemma trace_Nil [simp]:
  "seen i [] = []" "effects i [] = []" "sent i [] = []" "started [] = 0" "ended [] = 0"
  by (simp_all add: seen_def effects_def sent_def started_def ended_def)

lemma trace_Cons [simp]:
  "seen i (t # tr) = seen1 i t @ seen i tr" "effects i (t # tr) = effects1 i t @ effects i tr"
  "sent i (t # tr) = sent1 i t @ sent i tr"
  "started (t # tr) = (if t = RefreshStarted then Suc (started tr) else started tr)"
  "ended (t # tr) = (if t = RefreshEnded True \<or> t = RefreshEnded False then Suc (ended tr) else ended tr)"
  by (simp_all add: seen_def effects_def sent_def started_def ended_def)

lemma trace_append [simp]:
  "seen i (tr @ ts) = seen i tr @ seen i ts" "effects i (tr @ ts) = effects i tr @ effects i ts"
  "sent i (tr @ ts) = sent i tr @ sent i ts" "started (tr @ ts) = started tr + started ts"
  "ended (tr @ ts) = ended tr + ended ts"
  by (simp_all add: seen_def effects_def sent_def started_def ended_def)

lemma trace_effects [simp]:
  "seen i (map (Effect j) effs) = []" "effects i (map (Effect j) effs) = (if j = i then effs else [])"
  "sent i (map (Effect j) effs) = []" "started (map (Effect j) effs) = 0" "ended (map (Effect j) effs) = 0"
  by (induction effs) auto

text \<open>The values \<open>requestWithRetry\<close> awaits before it returns.\<close>

definition needs_refresh :: "bool \<Rightarrow> bool \<Rightarrow> thrown + http_response \<Rightarrow> bool" where
  "needs_refresh reports includeAuth first \<longleftrightarrow>
     (case snd (attempt reports False first) of Inr _ \<Rightarrow> False | Inl e \<Rightarrow> expired includeAuth e)"

definition awaited ::
    "bool \<Rightarrow> bool \<Rightarrow> thrown + http_response \<Rightarrow> bool \<Rightarrow> thrown + http_response \<Rightarrow> settlement list" where
  "awaited reports includeAuth first refreshed second =
     Http first #
       (if needs_refresh reports includeAuth first
        then Refresh refreshed # (if refreshed then [Http second] else []) else [])"

section \<open>The invariant\<close>

definition tried :: "bool \<Rightarrow> api_call \<Rightarrow> thrown + http_response \<Rightarrow> api_effect list \<Rightarrow> thrown \<Rightarrow> bool" where
  "tried reports call first effs e \<longleftrightarrow>
     attempt reports False first = (effs, Inl e) \<and> expired (ac_includeAuth call) e"

fun task_ok :: "bool \<Rightarrow> api_trace list \<Rightarrow> nat \<Rightarrow> api_call \<Rightarrow> phase \<Rightarrow> bool" where
  "task_ok reports tr i call FirstTry = (seen i tr = [] \<and> effects i tr = [] \<and> length (sent i tr) = 1)"
| "task_ok reports tr i call (AwaitRefresh e) =
     (\<exists>first. seen i tr = [Http first] \<and> tried reports call first (effects i tr) e \<and> length (sent i tr) = 1)"
| "task_ok reports tr i call (Woken b e) =
     (\<exists>first. seen i tr = [Http first] \<and> tried reports call first (effects i tr) e \<and> length (sent i tr) = 1)"
| "task_ok reports tr i call Retrying =
     (\<exists>first e. seen i tr = [Http first, Refresh True] \<and> tried reports call first (effects i tr) e \<and>
        length (sent i tr) = 2)"
| "task_ok reports tr i call (Settled res) =
     (\<exists>first refreshed second.
        seen i tr = awaited reports (ac_includeAuth call) first refreshed second \<and>
        requestWithRetry reports (ac_includeAuth call) first refreshed second = (effects i tr, res) \<and>
        length (sent i tr) = (if needs_refresh reports (ac_includeAuth call) first \<and> refreshed then 2 else 1))"

definition tasks_ok :: "api_client \<Rightarrow> bool" where
  "tasks_ok c \<longleftrightarrow> (\<forall>i < length (cl_tasks c).
     task_ok (cl_reports c) (cl_trace c) i (fst (cl_tasks c ! i)) (snd (cl_tasks c ! i)))"

definition fresh_ok :: "api_client \<Rightarrow> bool" where
  "fresh_ok c \<longleftrightarrow> (\<forall>i \<ge> length (cl_tasks c).
     seen i (cl_trace c) = [] \<and> effects i (cl_trace c) = [] \<and> sent i (cl_trace c) = [])"

definition refresh_ok :: "api_client \<Rightarrow> bool" where
  "refresh_ok c \<longleftrightarrow> started (cl_trace c) = ended (cl_trace c) + (if cl_refreshing c then 1 else 0) \<and>
     (\<forall>i < length (cl_tasks c). \<forall>e. snd (cl_tasks c ! i) = AwaitRefresh e \<longrightarrow> cl_refreshing c)"

lemmas client_defs = tasks_ok_def fresh_ok_def refresh_ok_def
lemmas op_defs = put_phase_def record_trace_def attemptTokenRefresh_def

text \<open>A record about request \<open>i\<close> leaves the others as they were.\<close>

lemma task_ok_other:
  assumes "task_ok reports tr i call ph" "seen i ts = []" "effects i ts = []" "sent i ts = []"
  shows "task_ok reports (tr @ ts) i call ph"
  using assms by (cases ph) auto


section \<open>Every step keeps it\<close>

lemma tasks_ok_put:
  assumes "tasks_ok c" "i < length (cl_tasks c)" "\<forall>j. j \<noteq> i \<longrightarrow> seen j ts = [] \<and> effects j ts = [] \<and> sent j ts = []"
    and "task_ok (cl_reports c) (cl_trace c @ ts) i (fst (cl_tasks c ! i)) ph"
    and "cl_tasks c' = (cl_tasks c)[i := (fst (cl_tasks c ! i), ph)]" "cl_trace c' = cl_trace c @ ts"
    and "cl_reports c' = cl_reports c"
  shows "tasks_ok c'"
  unfolding tasks_ok_def
proof (intro allI impI)
  fix j assume j: "j < length (cl_tasks c')"
  show "task_ok (cl_reports c') (cl_trace c') j (fst (cl_tasks c' ! j)) (snd (cl_tasks c' ! j))"
  proof (cases "j = i")
    case True
    with assms show ?thesis by simp
  next
    case False
    with j assms have "task_ok (cl_reports c) (cl_trace c) j (fst (cl_tasks c ! j)) (snd (cl_tasks c ! j))"
      by (simp add: tasks_ok_def)
    with False assms(3) show ?thesis
      by (simp add: assms(5-7) task_ok_other)
  qed
qed

lemma fresh_ok_put:
  assumes "fresh_ok c" "i < length (cl_tasks c)" "\<forall>j. j \<noteq> i \<longrightarrow> seen j ts = [] \<and> effects j ts = [] \<and> sent j ts = []"
    and "length (cl_tasks c') = length (cl_tasks c)" "cl_trace c' = cl_trace c @ ts"
  shows "fresh_ok c'"
  using assms by (auto simp: fresh_ok_def)

lemma refresh_ok_put:
  assumes "refresh_ok c" "i < length (cl_tasks c)" "started ts = 0" "ended ts = 0"
    and "\<And>e. ph \<noteq> AwaitRefresh e"
    and "cl_tasks c' = (cl_tasks c)[i := (fst (cl_tasks c ! i), ph)]" "cl_trace c' = cl_trace c @ ts"
    and "cl_refreshing c' = cl_refreshing c"
  shows "refresh_ok c'"
  using assms unfolding refresh_ok_def by (auto simp: nth_list_update)

text \<open>The state after the first answer, when the token has not expired.\<close>

lemma first_answer_cases:
  obtains (settles) effs res where
      "requestWithRetry (cl_reports c) (ac_includeAuth (fst (cl_tasks c ! i))) answer r s = (effs, res)"
      "\<not> needs_refresh (cl_reports c) (ac_includeAuth (fst (cl_tasks c ! i))) answer"
      "first_answer i answer c = put_phase i (Settled res) (record_trace (Answered i answer # map (Effect i) effs) c)"
  | (refreshes) effs e where
      "tried (cl_reports c) (fst (cl_tasks c ! i)) answer effs e"
      "first_answer i answer c = put_phase i (AwaitRefresh e)
         (attemptTokenRefresh (record_trace (Answered i answer # map (Effect i) effs) c))"
proof (cases "attempt (cl_reports c) False answer")
  case (Pair effs res)
  then show ?thesis
    using that
    by (cases res) (auto simp: requestWithRetry_def needs_refresh_def first_answer_def tried_def)
qed

lemma awaited_once: "\<not> needs_refresh reports auth first \<Longrightarrow> awaited reports auth first r s = [Http first]"
  by (simp add: awaited_def)

lemma requestWithRetry_once:
  "\<not> needs_refresh reports auth first \<Longrightarrow>
   requestWithRetry reports auth first r s = requestWithRetry reports auth first r' s'"
  by (auto simp: needs_refresh_def requestWithRetry_def split: prod.splits sum.splits)

lemma tried_needs: "tried reports call first effs e \<Longrightarrow> needs_refresh reports (ac_includeAuth call) first"
  by (simp add: tried_def needs_refresh_def)


definition client_inv :: "api_client \<Rightarrow> bool" where
  "client_inv c \<longleftrightarrow> tasks_ok c \<and> fresh_ok c \<and> refresh_ok c"

lemma client_inv_task:
  "client_inv c \<Longrightarrow> i < length (cl_tasks c) \<Longrightarrow> snd (cl_tasks c ! i) = ph \<Longrightarrow>
   task_ok (cl_reports c) (cl_trace c) i (fst (cl_tasks c ! i)) ph"
  by (auto simp: client_inv_def tasks_ok_def)

lemma client_inv_put:
  assumes "client_inv c" "i < length (cl_tasks c)"
    and "task_ok (cl_reports c) (cl_trace c @ ts) i (fst (cl_tasks c ! i)) ph" "\<And>e. ph \<noteq> AwaitRefresh e"
    and "\<forall>j. j \<noteq> i \<longrightarrow> seen j ts = [] \<and> effects j ts = [] \<and> sent j ts = []" "started ts = 0" "ended ts = 0"
  shows "client_inv (put_phase i ph (record_trace ts c))"
  unfolding client_inv_def
proof (intro conjI)
  have cs: "tasks_ok c" "fresh_ok c" "refresh_ok c"
    using assms(1) by (auto simp: client_inv_def)
  show "tasks_ok (put_phase i ph (record_trace ts c))"
    by (rule tasks_ok_put [OF cs(1) assms(2,5,3)]) (simp_all add: op_defs)
  show "fresh_ok (put_phase i ph (record_trace ts c))"
    by (rule fresh_ok_put [OF cs(2) assms(2,5)]) (simp_all add: op_defs)
  show "refresh_ok (put_phase i ph (record_trace ts c))"
    by (rule refresh_ok_put [OF cs(3) assms(2,6,7,4)]) (simp_all add: op_defs)
qed

lemma start_request_ok: "client_inv c \<Longrightarrow> client_inv (start_request call c)"
  unfolding client_inv_def
  by (auto simp: client_defs start_request_def op_defs nth_append less_Suc_eq task_ok_other)

lemma first_answer_ok:
  assumes inv: "client_inv c" and i: "i < length (cl_tasks c)" "snd (cl_tasks c ! i) = FirstTry"
  shows "client_inv (first_answer i answer c)"
proof -
  have start: "seen i (cl_trace c) = []" "effects i (cl_trace c) = []" "length (sent i (cl_trace c)) = 1"
    using client_inv_task [OF inv i] by auto
  have cs: "tasks_ok c" "fresh_ok c" "refresh_ok c"
    using inv by (auto simp: client_inv_def)
  let ?call = "fst (cl_tasks c ! i)"
  show ?thesis
  proof (cases rule: first_answer_cases [of c i answer False answer])
    case (settles effs res)
    let ?ts = "Answered i answer # map (Effect i) effs"
    have "task_ok (cl_reports c) (cl_trace c @ ?ts) i ?call (Settled res)"
      using start settles(1,2) by (auto simp: awaited_once intro!: exI [of _ answer] exI [of _ False])
    then show ?thesis
      unfolding settles(3) by (rule client_inv_put [OF inv i(1)]) auto
  next
    case (refreshes effs e)
    let ?ts = "Answered i answer # map (Effect i) effs @ (if cl_refreshing c then [] else [RefreshStarted])"
    have "task_ok (cl_reports c) (cl_trace c @ ?ts) i ?call (AwaitRefresh e)"
      using start refreshes(1) by auto
    then have "tasks_ok (first_answer i answer c)"
      unfolding refreshes(2) by (rule tasks_ok_put [OF cs(1) i(1), rotated]) (auto simp: op_defs)
    moreover have "fresh_ok (first_answer i answer c)"
      unfolding refreshes(2) by (rule fresh_ok_put [OF cs(2) i(1), where ts = ?ts]) (auto simp: op_defs)
    moreover have "refresh_ok (first_answer i answer c)"
      unfolding refreshes(2) using cs(3) by (auto simp: refresh_ok_def op_defs nth_list_update)
    ultimately show ?thesis by (simp add: client_inv_def)
  qed
qed


lemma refresh_ended_ok:
  assumes inv: "client_inv c" and "cl_refreshing c"
  shows "client_inv (refresh_ended refreshed c)"
proof -
  have "task_ok (cl_reports c) (cl_trace c @ [RefreshEnded refreshed]) i (fst t) (wake refreshed (snd t))"
    if "task_ok (cl_reports c) (cl_trace c) i (fst t) (snd t)" for i and t :: "api_call \<times> phase"
    using that by (cases "snd t") (auto simp: wake_def)
  then show ?thesis
    using assms unfolding client_inv_def
    by (cases refreshed) (auto simp: client_defs refresh_ended_def record_trace_def wake_def split: phase.splits)
qed

lemma resume_ok:
  assumes inv: "client_inv c" and i: "i < length (cl_tasks c)" "snd (cl_tasks c ! i) = Woken b e"
  shows "client_inv (resume i c)"
proof -
  let ?call = "fst (cl_tasks c ! i)"
  obtain first where first: "seen i (cl_trace c) = [Http first]"
      "tried (cl_reports c) ?call first (effects i (cl_trace c)) e" "length (sent i (cl_trace c)) = 1"
    using client_inv_task [OF inv i] by auto
  show ?thesis
  proof (cases b)
    case True
    let ?ts = "[Resumed i True, Requested i (config_of ?call c)]"
    have "resume i c = put_phase i Retrying (record_trace ?ts c)"
      using True i by (simp add: resume_def op_defs config_of_def)
    moreover have "task_ok (cl_reports c) (cl_trace c @ ?ts) i ?call Retrying"
      using first by auto
    ultimately show ?thesis
      using client_inv_put [OF inv i(1), of ?ts Retrying] by simp
  next
    case False
    let ?ts = "[Resumed i False, Effect i LoggedOut]"
    have "resume i c = put_phase i (Settled (Inl e)) (record_trace ?ts c)"
      using False i by (simp add: resume_def op_defs)
    moreover have "task_ok (cl_reports c) (cl_trace c @ ?ts) i ?call (Settled (Inl e))"
      using first tried_needs [OF first(2)]
      by (auto simp: awaited_def requestWithRetry_def tried_def intro!: exI [of _ first] exI [of _ False])
    ultimately show ?thesis
      using client_inv_put [OF inv i(1), of ?ts "Settled (Inl e)"] by simp
  qed
qed

lemma retry_answer_ok:
  assumes inv: "client_inv c" and i: "i < length (cl_tasks c)" "snd (cl_tasks c ! i) = Retrying"
  shows "client_inv (retry_answer i answer c)"
proof -
  let ?call = "fst (cl_tasks c ! i)"
  obtain effs res where res: "attempt (cl_reports c) True answer = (effs, res)"
    by fastforce
  let ?ts = "Answered i answer # map (Effect i) effs"
  let ?res = "case res of Inr v \<Rightarrow> Inr v | Inl e \<Rightarrow> Inl (handleRequestError e)"
  obtain first e where first: "seen i (cl_trace c) = [Http first, Refresh True]"
      "tried (cl_reports c) ?call first (effects i (cl_trace c)) e" "length (sent i (cl_trace c)) = 2"
    using client_inv_task [OF inv i] by auto
  have "retry_answer i answer c = put_phase i (Settled ?res) (record_trace ?ts c)"
    using res by (cases res) (simp_all add: retry_answer_def)
  moreover have "task_ok (cl_reports c) (cl_trace c @ ?ts) i ?call (Settled ?res)"
    using first tried_needs [OF first(2)] res
    by (cases res) (auto simp: awaited_def requestWithRetry_def tried_def
        intro!: exI [of _ first] exI [of _ True] exI [of _ answer])
  ultimately show ?thesis
    using client_inv_put [OF inv i(1), of ?ts "Settled ?res"] by simp
qed

lemma environment_ok:
  "client_inv c \<Longrightarrow> client_inv (c\<lparr>cl_token := tok\<rparr>)" "client_inv c \<Longrightarrow> client_inv (setBaseUrl url c)"
  by (auto simp: client_inv_def client_defs setBaseUrl_def)

lemmas api_ops_ok = start_request_ok first_answer_ok refresh_ended_ok resume_ok retry_answer_ok environment_ok

lemma api_step_ok: "api_step c c' \<Longrightarrow> client_inv c \<Longrightarrow> client_inv c'"
  by (induction rule: api_step.induct) (auto intro: api_ops_ok)

lemma new_client_ok: "client_inv (new_client baseUrl reports tok)"
  by (simp add: client_inv_def client_defs new_client_def)

lemma api_run_ok: "api_run c \<Longrightarrow> client_inv c"
  by (induction rule: api_run.induct) (auto intro: new_client_ok api_step_ok)


section \<open>Properties\<close>

text \<open>
  C7: However the requests interleave, a settled request did what \<open>requestWithRetry\<close> does when it
  is read alone on the answers this request saw: same result, same logout and reports, and a
  second request only after a successful refresh.
\<close>

theorem concurrent_request_refines:
  assumes "api_run c" "i < length (cl_tasks c)" "cl_tasks c ! i = (call, Settled res)"
  shows "\<exists>first refreshed second.
    seen i (cl_trace c) = awaited (cl_reports c) (ac_includeAuth call) first refreshed second \<and>
    requestWithRetry (cl_reports c) (ac_includeAuth call) first refreshed second =
      (effects i (cl_trace c), res) \<and>
    length (sent i (cl_trace c)) =
      (if needs_refresh (cl_reports c) (ac_includeAuth call) first \<and> refreshed then 2 else 1)"
  using client_inv_task [OF api_run_ok [OF assms(1)] assms(2)] assms(3) by fastforce

text \<open>C9: Token refreshes never overlap, however many requests find the token expired.\<close>

theorem refreshes_do_not_overlap:
  assumes "api_run c"
  shows "started (cl_trace c) = ended (cl_trace c) + (if cl_refreshing c then 1 else 0)"
  using api_run_ok [OF assms] by (simp add: client_inv_def refresh_ok_def)

text \<open>Answers, ends of refreshes and resumptions: what happens when no new request is made.\<close>

inductive api_answer :: "api_client \<Rightarrow> api_client \<Rightarrow> bool" where
  answer_first: "i < length (cl_tasks c) \<Longrightarrow> snd (cl_tasks c ! i) = FirstTry \<Longrightarrow>
    api_answer c (first_answer i answer c)"
| answer_refresh: "cl_refreshing c \<Longrightarrow> api_answer c (refresh_ended refreshed c)"
| answer_resume: "i < length (cl_tasks c) \<Longrightarrow> snd (cl_tasks c ! i) = Woken refreshed e \<Longrightarrow>
    api_answer c (resume i c)"
| answer_retry: "i < length (cl_tasks c) \<Longrightarrow> snd (cl_tasks c ! i) = Retrying \<Longrightarrow>
    api_answer c (retry_answer i answer c)"

lemma api_answer_step: "api_answer c c' \<Longrightarrow> api_step c c'"
  by (induction rule: api_answer.induct) (auto intro: api_step.intros)

fun work :: "phase \<Rightarrow> nat" where
  "work FirstTry = 5"
| "work (AwaitRefresh e) = 3"
| "work (Woken b e) = 2"
| "work Retrying = 1"
| "work (Settled res) = 0"

definition work_left :: "api_client \<Rightarrow> nat" where
  "work_left c = (\<Sum>t \<leftarrow> cl_tasks c. work (snd t)) + (if cl_refreshing c then 1 else 0)"

lemma sum_list_put:
  fixes f :: "'a \<Rightarrow> nat"
  shows "i < length xs \<Longrightarrow> sum_list (map f (xs[i := x])) + f (xs ! i) = sum_list (map f xs) + f x"
  by (induction xs arbitrary: i) (auto split: nat.splits)

lemma work_put:
  assumes "i < length (cl_tasks c)" "cl_tasks c' = (cl_tasks c)[i := (fst (cl_tasks c ! i), ph)]"
    and "work ph + (if cl_refreshing c' then 1 else 0) < work (snd (cl_tasks c ! i)) + (if cl_refreshing c then 1 else 0)"
  shows "work_left c' < work_left c"
  using sum_list_put [OF assms(1), of "\<lambda>t. work (snd t)" "(fst (cl_tasks c ! i), ph)"] assms(2,3)
  by (simp add: work_left_def)

lemma work_wake: "work (wake b ph) \<le> work ph"
  by (cases ph) (auto simp: wake_def)

lemma retry_answer_form:
  "\<exists>effs res. retry_answer i answer c =
     put_phase i (Settled res) (record_trace (Answered i answer # map (Effect i) effs) c)"
proof (cases "attempt (cl_reports c) True answer")
  case (Pair effs res)
  then show ?thesis
    by (cases res) (auto simp: retry_answer_def)
qed

lemma api_answer_works:
  assumes "api_answer c c'"
  shows "work_left c' < work_left c \<and> length (cl_tasks c') = length (cl_tasks c)"
  using assms
proof cases
  case (answer_first i answer)
  then show ?thesis
    by (cases rule: first_answer_cases [of c i answer False answer])
      (auto intro!: work_put [of i c] simp: op_defs)
next
  case (answer_refresh refreshed)
  have "(\<Sum>t \<leftarrow> cl_tasks c. work (wake refreshed (snd t))) \<le> (\<Sum>t \<leftarrow> cl_tasks c. work (snd t))"
    by (intro sum_list_mono) (simp add: work_wake)
  with answer_refresh show ?thesis
    by (simp add: work_left_def refresh_ended_def record_trace_def comp_def)
next
  case (answer_resume i refreshed e)
  then show ?thesis
    by (cases refreshed) (auto intro!: work_put [of i c] simp: op_defs resume_def)
next
  case (answer_retry i answer)
  moreover obtain effs res where
    "retry_answer i answer c = put_phase i (Settled res) (record_trace (Answered i answer # map (Effect i) effs) c)"
    using retry_answer_form by blast
  ultimately show ?thesis
    by (auto intro!: work_put [of i c] simp: op_defs)
qed

lemma work_bound: "work_left c \<le> 5 * length (cl_tasks c) + 1"
proof -
  have "work ph \<le> 5" for ph by (cases ph) auto
  then have "(\<Sum>t \<leftarrow> cl_tasks c. work (snd t)) \<le> (\<Sum>t \<leftarrow> cl_tasks c. 5)"
    by (intro sum_list_mono) simp
  then show ?thesis by (simp add: work_left_def sum_list_triv)
qed

lemma answers_bounded: "(api_answer ^^ k) c c' \<Longrightarrow> work_left c' + k \<le> work_left c"
proof (induction k arbitrary: c')
  case (Suc k)
  then obtain d where "(api_answer ^^ k) c d" "api_answer d c'" by auto
  with Suc.IH [of d] api_answer_works [of d c'] show ?case by linarith
qed simp

lemma stuck_settled:
  assumes "client_inv c" "\<forall>c'. \<not> api_answer c c'" "i < length (cl_tasks c)"
  shows "\<exists>res. snd (cl_tasks c ! i) = Settled res"
proof (cases "snd (cl_tasks c ! i)")
  case (AwaitRefresh e)
  with assms have "cl_refreshing c"
    by (auto simp: client_inv_def refresh_ok_def)
  with assms(2) show ?thesis by (blast intro: answer_refresh)
qed (use assms in \<open>blast intro: api_answer.intros\<close>)+

text \<open>
  C8: No request hangs in the client: when no answer, refresh or resumption is due any more, every
  request has settled; and between two new requests at most five of them per request, and the end
  of one refresh, can happen.
\<close>

theorem requests_settle:
  assumes "api_run c"
  shows "(\<forall>k c'. (api_answer ^^ k) c c' \<longrightarrow> k \<le> 5 * length (cl_tasks c) + 1) \<and>
    ((\<forall>c'. \<not> api_answer c c') \<longrightarrow> (\<forall>i < length (cl_tasks c). \<exists>res. snd (cl_tasks c ! i) = Settled res))"
  using answers_bounded [of _ c] work_bound [of c] stuck_settled [OF api_run_ok [OF assms]]
  by (meson add_leD2 le_trans)

lemma handleResponse_effects:
  "handleResponse reports r isRetry = (effs, res) \<Longrightarrow>
   (LoggedOut \<in> set effs \<longrightarrow> isRetry \<and> (\<exists>m. res = Inl (ApiRequestError m 401 False)) \<and> effs = [LoggedOut]) \<and>
   (\<forall>e q b. Captured e q b \<in> set effs \<longrightarrow> reports \<and> reportable (hr_status q) \<and> q = r \<and> b = isRetry \<and> res = Inl e)"
  by (auto simp: handleResponse_def Let_def reportable_def split: if_splits sum.splits)

lemma attempt_effects:
  "attempt reports isRetry answer = (effs, res) \<Longrightarrow>
   (LoggedOut \<in> set effs \<longrightarrow> isRetry \<and> (\<exists>m. res = Inl (ApiRequestError m 401 False)) \<and> effs = [LoggedOut])"
  using handleResponse_effects by (fastforce simp: attempt_def split: sum.splits)

lemma expiredD: "expired auth e \<Longrightarrow> auth \<and> (\<exists>m. e = ApiRequestError m 401 False)"
  by (auto simp: expired_def split: thrown.splits)

lemma expired_no_effects: "attempt reports False answer = (effs, Inl e) \<Longrightarrow> expired auth e \<Longrightarrow> effs = []"
  by (auto simp: attempt_def handleResponse_def reportable_def expired_def Let_def split: sum.splits if_splits)

lemma logout_alone:
  assumes "requestWithRetry reports auth first refreshed second = (effs, res)" "LoggedOut \<in> set effs"
  shows "auth \<and> effs = [LoggedOut] \<and> (\<exists>m. res = Inl (ApiRequestError m 401 False))"
proof (cases "attempt reports False first")
  case first: (Pair effs1 res1)
  have quiet: "LoggedOut \<notin> set effs1"
    using attempt_effects [OF first] by blast
  show ?thesis
  proof (cases res1)
    case (Inr v)
    with assms first quiet show ?thesis by (simp add: requestWithRetry_def)
  next
    case (Inl e)
    have exp: "expired auth e"
      using assms first quiet Inl by (auto simp: requestWithRetry_def split: if_splits)
    have "effs1 = []"
      using expired_no_effects first Inl exp by blast
    obtain effs2 res2 where second: "attempt reports True second = (effs2, res2)"
      by fastforce
    from exp expiredD obtain m where "auth" "e = ApiRequestError m 401 False" by blast
    with assms first second Inl exp \<open>effs1 = []\<close> attempt_effects [OF second] show ?thesis
      by (cases res2) (auto simp: requestWithRetry_def split: if_splits)
  qed
qed

text \<open>
  C10: A request logs the user out at most once, and then only if it carries the token, is over, and
  its caller sees the 401: no refresh that works and no other error ends the login.
\<close>

theorem logout_means_unauthorized:
  assumes "api_run c" "i < length (cl_tasks c)" "LoggedOut \<in> set (effects i (cl_trace c))"
  shows "effects i (cl_trace c) = [LoggedOut] \<and> ac_includeAuth (fst (cl_tasks c ! i)) \<and>
    (\<exists>m. snd (cl_tasks c ! i) = Settled (Inl (ApiRequestError m 401 False)))"
proof -
  have ok: "task_ok (cl_reports c) (cl_trace c) i (fst (cl_tasks c ! i)) (snd (cl_tasks c ! i))"
    by (rule client_inv_task [OF api_run_ok [OF assms(1)] assms(2) refl])
  have none: "LoggedOut \<notin> set effs" if "tried reports call first effs e" for reports call first effs e
    using that attempt_effects by (fastforce simp: tried_def)
  show ?thesis
    using ok none assms(3) by (cases "snd (cl_tasks c ! i)") (auto dest: logout_alone)
qed

section \<open>An example run\<close>

text \<open>A request whose token has expired and whose refresh fails.\<close>

definition ex_401 :: http_response where
  "ex_401 = \<lparr>hr_status = 401, hr_statusText = ''Unauthorized'', hr_url = ''https://x/me'',
     hr_data = JObj [(''detail'', JStr ''expired'')], hr_ok = False\<rparr>"

definition ex_call :: api_call where
  "ex_call = get_request ''/me'' True None"

definition ex_waiting :: api_client where
  "ex_waiting = first_answer 0 (Inr ex_401) (start_request ex_call (new_client ''https://x/'' True (Some ''t'')))"

definition ex_logged_out :: api_client where
  "ex_logged_out = resume 0 (refresh_ended False ex_waiting)"

lemma ex_attempt:
  "attempt True False (Inr ex_401) = ([], Inl (ApiRequestError ''expired'' 401 False))"
  by (simp add: attempt_def handleResponse_def ex_401_def error_message_def reportable_def)

lemma ex_waiting_state:
  "cl_tasks ex_waiting = [(ex_call, AwaitRefresh (ApiRequestError ''expired'' 401 False))]"
  "cl_refreshing ex_waiting" "cl_reports ex_waiting"
  by (simp_all add: ex_waiting_def first_answer_def start_request_def new_client_def op_defs ex_attempt
      expired_def ex_call_def get_request_def)

lemma ex_waiting_run: "api_run ex_waiting"
  unfolding ex_waiting_def
  by (intro run_step [OF run_step [OF run_new step_request] step_first])
    (simp_all add: start_request_def record_trace_def new_client_def)

lemma ex_logged_out_run: "api_run ex_logged_out"
  unfolding ex_logged_out_def
  by (rule run_step [OF run_step [OF ex_waiting_run step_refresh] step_resume])
    (auto simp: ex_waiting_state refresh_ended_def record_trace_def wake_def)

lemma ex_logged_out_state:
  "cl_tasks ex_logged_out = [(ex_call, Settled (Inl (ApiRequestError ''expired'' 401 False)))]"
  "effects 0 (cl_trace ex_logged_out) = [LoggedOut]"
proof -
  have "effects 0 (cl_trace ex_waiting) = []"
    by (simp add: ex_waiting_def first_answer_def start_request_def new_client_def op_defs ex_attempt
        expired_def ex_call_def get_request_def)
  then show "cl_tasks ex_logged_out = [(ex_call, Settled (Inl (ApiRequestError ''expired'' 401 False)))]"
    "effects 0 (cl_trace ex_logged_out) = [LoggedOut]"
    by (simp_all add: ex_logged_out_def resume_def refresh_ended_def record_trace_def put_phase_def
        wake_def ex_waiting_state)
qed

theorem concurrent_request_refines_witness:
  "\<exists>first refreshed second.
    seen 0 (cl_trace ex_logged_out) =
      awaited (cl_reports ex_logged_out) (ac_includeAuth ex_call) first refreshed second \<and>
    requestWithRetry (cl_reports ex_logged_out) (ac_includeAuth ex_call) first refreshed second =
      (effects 0 (cl_trace ex_logged_out), Inl (ApiRequestError ''expired'' 401 False)) \<and>
    length (sent 0 (cl_trace ex_logged_out)) =
      (if needs_refresh (cl_reports ex_logged_out) (ac_includeAuth ex_call) first \<and> refreshed then 2 else 1)"
  by (rule concurrent_request_refines [OF ex_logged_out_run]) (simp_all add: ex_logged_out_state)

theorem refreshes_do_not_overlap_witness:
  "started (cl_trace ex_waiting) = ended (cl_trace ex_waiting) + 1"
  using refreshes_do_not_overlap [OF ex_waiting_run] by (simp add: ex_waiting_state)

theorem requests_settle_witness:
  "\<forall>c'. \<not> (api_answer ^^ 7) ex_waiting c'"
proof
  fix c'
  show "\<not> (api_answer ^^ 7) ex_waiting c'"
    using requests_settle [OF ex_waiting_run] by (auto simp: ex_waiting_state dest: spec [of _ 7])
qed

theorem logout_means_unauthorized_witness:
  "\<exists>m. snd (cl_tasks ex_logged_out ! 0) = Settled (Inl (ApiRequestError m 401 False))"
  using logout_means_unauthorized [OF ex_logged_out_run, of 0] by (simp add: ex_logged_out_state)

end
