(* ===== verification/Request_Cache.thy ===== *)
theory Request_Cache
  imports Api_Errors Machines
begin

text \<open>
  The request cache of the API client (\<open>packages/api-client/src/core/cache.ts\<close>) and
  \<open>getCached\<close> over it (\<open>client/base-client.ts\<close>). Time is the clock of each event. A fetch is
  the promise of \<open>this.get(path)\<close>: it settles once, its success is stored, and in a later tick
  the \<open>finally\<close> callback takes it off the pending map. A caller either had a cached value or
  waits for a fetch. Both maps are keyed by strings; only look-ups and sizes are observable.
\<close>

section \<open>The cache\<close>

record cache_entry =
  ce_data :: json
  ce_timestamp :: int
  ce_expiresAt :: int

datatype fetch_state = InFlight | Answer "thrown + json" | Finished "thrown + json"

record fetch =
  ft_key :: string
  ft_ttl :: "int option"
  ft_state :: fetch_state

datatype caller = Hit json | Waits nat

record request_cache =
  rc_defaultTTL :: int
  rc_cache :: "cache_entry obj"
  rc_pending :: "nat obj"
  rc_fetches :: "fetch list"
  rc_callers :: "(string \<times> caller) list"

definition new_cache :: "int option \<Rightarrow> request_cache" where
  "new_cache ttl =
     \<lparr>rc_defaultTTL = coalesce ttl (30 * 1000), rc_cache = [], rc_pending = [], rc_fetches = [],
      rc_callers = []\<rparr>"

text \<open>\<open>None\<close> is \<open>null\<close>; an expired entry is deleted on the way.\<close>

definition cache_get :: "clock \<Rightarrow> string \<Rightarrow> request_cache \<Rightarrow> request_cache \<times> json option" where
  "cache_get clk key c =
     (case map_of (rc_cache c) key of
        None \<Rightarrow> (c, None)
      | Some e \<Rightarrow>
          if clk_ms clk > ce_expiresAt e
          then (c\<lparr>rc_cache := AList.delete key (rc_cache c)\<rparr>, None)
          else (c, Some (ce_data e)))"

definition cache_set :: "clock \<Rightarrow> string \<Rightarrow> json \<Rightarrow> int option \<Rightarrow> request_cache \<Rightarrow> request_cache" where
  "cache_set clk key data ttl c =
     c\<lparr>rc_cache := AList.update key
         \<lparr>ce_data = data, ce_timestamp = clk_ms clk,
          ce_expiresAt = clk_ms clk + coalesce ttl (rc_defaultTTL c)\<rparr> (rc_cache c)\<rparr>"

definition cache_delete :: "string \<Rightarrow> request_cache \<Rightarrow> request_cache" where
  "cache_delete key c = c\<lparr>rc_cache := AList.delete key (rc_cache c)\<rparr>"

text \<open>The pattern is the predicate of the regular expression's test.\<close>

definition invalidatePattern :: "(string \<Rightarrow> bool) \<Rightarrow> request_cache \<Rightarrow> request_cache" where
  "invalidatePattern test c = c\<lparr>rc_cache := filter (\<lambda>e. \<not> test (fst e)) (rc_cache c)\<rparr>"

definition cache_clear :: "request_cache \<Rightarrow> request_cache" where
  "cache_clear c = c\<lparr>rc_cache := []\<rparr>"

definition cache_size :: "request_cache \<Rightarrow> nat" where
  "cache_size c = length (rc_cache c)"

text \<open>The index of the fetch whose promise the caller gets.\<close>

definition deduplicateRequest :: "string \<Rightarrow> int option \<Rightarrow> request_cache \<Rightarrow> request_cache \<times> nat" where
  "deduplicateRequest key ttl c =
     (case map_of (rc_pending c) key of
        Some f \<Rightarrow> (c, f)
      | None \<Rightarrow>
          (let f = length (rc_fetches c)
           in (c\<lparr>rc_fetches := rc_fetches c @ [\<lparr>ft_key = key, ft_ttl = ttl, ft_state = InFlight\<rparr>],
                 rc_pending := AList.update key f (rc_pending c)\<rparr>, f)))"

definition cache_key :: "string \<Rightarrow> string" where
  "cache_key path = ''GET:'' @ path"

text \<open>A cached \<open>null\<close> counts as a miss.\<close>

definition getCached :: "clock \<Rightarrow> string \<Rightarrow> int option \<Rightarrow> bool \<Rightarrow> request_cache \<Rightarrow> request_cache \<times> caller" where
  "getCached clk path ttl forceRefresh c =
     (let key = cache_key path;
          (c', cached) = (if forceRefresh then (c, None) else cache_get clk key c)
      in case cached of
           None \<Rightarrow> (let (c'', f) = deduplicateRequest key ttl c' in (c'', Waits f))
         | Some v \<Rightarrow>
             if v \<noteq> JNull then (c', Hit v)
             else (let (c'', f) = deduplicateRequest key ttl c' in (c'', Waits f)))"

section \<open>Fetches and callers\<close>

definition call_cached :: "clock \<Rightarrow> string \<Rightarrow> int option \<Rightarrow> bool \<Rightarrow> request_cache \<Rightarrow> request_cache" where
  "call_cached clk path ttl forceRefresh c =
     (let (c', r) = getCached clk path ttl forceRefresh c
      in c'\<lparr>rc_callers := rc_callers c' @ [(cache_key path, r)]\<rparr>)"

text \<open>The awaited \<open>get\<close> settles: a success is stored.\<close>

definition fetch_answered :: "clock \<Rightarrow> nat \<Rightarrow> thrown + json \<Rightarrow> request_cache \<Rightarrow> request_cache" where
  "fetch_answered clk f res c =
     (let ft = rc_fetches c ! f;
          c' = c\<lparr>rc_fetches := (rc_fetches c)[f := ft\<lparr>ft_state := Answer res\<rparr>]\<rparr>
      in case res of
           Inl _ \<Rightarrow> c'
         | Inr data \<Rightarrow> cache_set clk (ft_key ft) data (ft_ttl ft) c')"

text \<open>The \<open>finally\<close> callback; then the promise the callers hold settles.\<close>

definition fetch_finally :: "nat \<Rightarrow> request_cache \<Rightarrow> request_cache" where
  "fetch_finally f c =
     (let ft = rc_fetches c ! f
      in case ft_state ft of
           Answer res \<Rightarrow>
             c\<lparr>rc_fetches := (rc_fetches c)[f := ft\<lparr>ft_state := Finished res\<rparr>],
               rc_pending := AList.delete (ft_key ft) (rc_pending c)\<rparr>
         | _ \<Rightarrow> c)"

text \<open>What a caller has got, once it has got something.\<close>

definition caller_result :: "request_cache \<Rightarrow> caller \<Rightarrow> (thrown + json) option" where
  "caller_result c r =
     (case r of
        Hit v \<Rightarrow> Some (Inr v)
      | Waits f \<Rightarrow> (case ft_state (rc_fetches c ! f) of Finished res \<Rightarrow> Some res | _ \<Rightarrow> None))"

section \<open>As a machine\<close>

datatype cache_event =
    CallCached clock string "int option" bool
  | FetchAnswered clock nat "thrown + json"
  | FetchFinally nat
  | CacheDelete string
  | CacheInvalidate "string \<Rightarrow> bool"
  | CacheClear

fun cache_step :: "cache_event \<Rightarrow> request_cache \<Rightarrow> request_cache" where
  "cache_step (CallCached clk path ttl force) c = call_cached clk path ttl force c"
| "cache_step (FetchAnswered clk f res) c = fetch_answered clk f res c"
| "cache_step (FetchFinally f) c = fetch_finally f c"
| "cache_step (CacheDelete key) c = cache_delete key c"
| "cache_step (CacheInvalidate test) c = invalidatePattern test c"
| "cache_step CacheClear c = cache_clear c"

text \<open>A fetch answers once, while it is in flight, and its callback runs once after that.\<close>

fun cache_guard :: "cache_event \<Rightarrow> request_cache \<Rightarrow> bool" where
  "cache_guard (FetchAnswered clk f res) c \<longleftrightarrow>
     f < length (rc_fetches c) \<and> ft_state (rc_fetches c ! f) = InFlight"
| "cache_guard (FetchFinally f) c \<longleftrightarrow>
     f < length (rc_fetches c) \<and> (\<exists>res. ft_state (rc_fetches c ! f) = Answer res)"
| "cache_guard _ c \<longleftrightarrow> True"


section \<open>The invariant\<close>

fun answer_of :: "fetch_state \<Rightarrow> (thrown + json) option" where
  "answer_of InFlight = None"
| "answer_of (Answer res) = Some res"
| "answer_of (Finished res) = Some res"

definition unfinished :: "fetch \<Rightarrow> bool" where
  "unfinished ft \<longleftrightarrow> (\<forall>res. ft_state ft \<noteq> Finished res)"

text \<open>Some fetch of the key was answered with the value.\<close>

definition gives :: "fetch list \<Rightarrow> string \<Rightarrow> json \<Rightarrow> bool" where
  "gives fs k v \<longleftrightarrow> (\<exists>ft \<in> set fs. ft_key ft = k \<and> answer_of (ft_state ft) = Some (Inr v))"

definition pending_ok :: "(string \<rightharpoonup> nat) \<Rightarrow> fetch list \<Rightarrow> bool" where
  "pending_ok P fs \<longleftrightarrow>
     (\<forall>k f. P k = Some f \<longrightarrow> f < length fs \<and> ft_key (fs ! f) = k \<and> unfinished (fs ! f)) \<and>
     (\<forall>f < length fs. unfinished (fs ! f) \<longrightarrow> P (ft_key (fs ! f)) = Some f)"

definition callers_ok :: "(string \<times> caller) list \<Rightarrow> fetch list \<Rightarrow> bool" where
  "callers_ok cs fs \<longleftrightarrow> (\<forall>(k, r) \<in> set cs.
     case r of Hit v \<Rightarrow> gives fs k v | Waits f \<Rightarrow> f < length fs \<and> ft_key (fs ! f) = k)"

definition entries_ok :: "cache_entry obj \<Rightarrow> fetch list \<Rightarrow> bool" where
  "entries_ok m fs \<longleftrightarrow> (\<forall>(k, e) \<in> set m. gives fs k (ce_data e))"

definition cache_ok :: "request_cache \<Rightarrow> bool" where
  "cache_ok c \<longleftrightarrow> pending_ok (map_of (rc_pending c)) (rc_fetches c) \<and>
     callers_ok (rc_callers c) (rc_fetches c) \<and> entries_ok (rc_cache c) (rc_fetches c)"

lemma cache_okD:
  "cache_ok c \<Longrightarrow> pending_ok (map_of (rc_pending c)) (rc_fetches c)"
  "cache_ok c \<Longrightarrow> callers_ok (rc_callers c) (rc_fetches c)"
  "cache_ok c \<Longrightarrow> entries_ok (rc_cache c) (rc_fetches c)"
  by (auto simp: cache_ok_def)

text \<open>Fetches only gain answers.\<close>

definition grows :: "fetch list \<Rightarrow> fetch list \<Rightarrow> bool" where
  "grows fs gs \<longleftrightarrow> length fs \<le> length gs \<and> (\<forall>i < length fs. ft_key (gs ! i) = ft_key (fs ! i) \<and>
     (\<forall>res. answer_of (ft_state (fs ! i)) = Some res \<longrightarrow> answer_of (ft_state (gs ! i)) = Some res))"

lemma grows_refl [simp]: "grows fs fs"
  by (simp add: grows_def)

lemma grows_snoc [simp]: "grows fs (fs @ [ft])"
  by (simp add: grows_def nth_append)

lemma grows_update:
  "f < length fs \<Longrightarrow> ft_key ft = ft_key (fs ! f) \<Longrightarrow>
   (\<And>res. answer_of (ft_state (fs ! f)) = Some res \<Longrightarrow> answer_of (ft_state ft) = Some res) \<Longrightarrow>
   grows fs (fs[f := ft])"
  by (auto simp: grows_def nth_list_update)

lemma gives_grows: "grows fs gs \<Longrightarrow> gives fs k v \<Longrightarrow> gives gs k v"
  unfolding gives_def grows_def by (metis in_set_conv_nth order_less_le_trans)

lemma callers_grow: "grows fs gs \<Longrightarrow> callers_ok cs fs \<Longrightarrow> callers_ok cs gs"
  using gives_grows by (fastforce simp: callers_ok_def grows_def split: caller.splits)

lemma entries_grow: "grows fs gs \<Longrightarrow> entries_ok m fs \<Longrightarrow> entries_ok m gs"
  using gives_grows by (fastforce simp: entries_ok_def)

lemma set_update_subset: "set (AList.update k v m) \<subseteq> insert (k, v) (set m)"
  by (induction m) auto

lemma set_delete_subset: "set (AList.delete k m) \<subseteq> set m"
  by (induction m) (auto simp: AList.delete_eq)

lemma entries_ok_mono: "set m \<subseteq> set m' \<Longrightarrow> entries_ok m' fs \<Longrightarrow> entries_ok m fs"
  by (auto simp: entries_ok_def)

lemma entries_ok_set:
  "entries_ok m fs \<Longrightarrow> gives fs k (ce_data e) \<Longrightarrow> entries_ok (AList.update k e m) fs"
  using set_update_subset [of k e m] by (auto simp: entries_ok_def)

lemma unfinished_new [simp]: "unfinished \<lparr>ft_key = k, ft_ttl = t, ft_state = InFlight\<rparr>"
  by (simp add: unfinished_def)

lemma pending_unfinished:
  "pending_ok P fs \<Longrightarrow> f < length fs \<Longrightarrow> unfinished (fs ! f) \<Longrightarrow> P (ft_key (fs ! f)) = Some f"
  by (simp add: pending_ok_def)

lemma pending_new:
  "pending_ok P fs \<Longrightarrow> P k = None \<Longrightarrow>
   pending_ok (P(k \<mapsto> length fs)) (fs @ [\<lparr>ft_key = k, ft_ttl = t, ft_state = InFlight\<rparr>])"
  unfolding pending_ok_def by (auto simp: nth_append less_Suc_eq split: if_splits)

lemma pending_answer:
  "pending_ok P fs \<Longrightarrow> f < length fs \<Longrightarrow> ft_key ft = ft_key (fs ! f) \<Longrightarrow>
   unfinished ft \<Longrightarrow> unfinished (fs ! f) \<Longrightarrow> pending_ok P (fs[f := ft])"
  unfolding pending_ok_def by (auto simp: nth_list_update)

lemma pending_finish:
  "pending_ok P fs \<Longrightarrow> f < length fs \<Longrightarrow> ft_key ft = ft_key (fs ! f) \<Longrightarrow>
   \<not> unfinished ft \<Longrightarrow> unfinished (fs ! f) \<Longrightarrow> pending_ok (P(ft_key (fs ! f) := None)) (fs[f := ft])"
proof -
  assume ok: "pending_ok P fs" and f: "f < length fs" "unfinished (fs ! f)"
    and ft: "ft_key ft = ft_key (fs ! f)" "\<not> unfinished ft"
  have here: "P (ft_key (fs ! f)) = Some f"
    by (rule pending_unfinished [OF ok f])
  have other: "ft_key (fs ! g) \<noteq> ft_key (fs ! f)" if "g < length fs" "unfinished (fs ! g)" "g \<noteq> f" for g
  proof -
    have "P (ft_key (fs ! g)) = Some g"
      using ok that(1,2) unfolding pending_ok_def by blast
    with here that(3) show ?thesis by auto
  qed
  show ?thesis
    unfolding pending_ok_def
  proof (intro conjI allI impI)
    fix k g assume "(P(ft_key (fs ! f) := None)) k = Some g"
    then have "k \<noteq> ft_key (fs ! f)" "P k = Some g"
      by (auto split: if_splits)
    moreover have "g < length fs" "ft_key (fs ! g) = k" "unfinished (fs ! g)"
      using ok \<open>P k = Some g\<close> unfolding pending_ok_def by blast+
    moreover have "g \<noteq> f"
      using calculation by blast
    ultimately show "g < length (fs[f := ft])" "ft_key (fs[f := ft] ! g) = k" "unfinished (fs[f := ft] ! g)"
      by simp_all
  next
    fix g assume g: "g < length (fs[f := ft])" "unfinished (fs[f := ft] ! g)"
    then have "g \<noteq> f" using ft(2) f by auto
    with g have "g < length fs" "unfinished (fs ! g)" by simp_all
    moreover from this have "P (ft_key (fs ! g)) = Some g"
      using ok unfolding pending_ok_def by blast
    ultimately show "(P(ft_key (fs ! f) := None)) (ft_key (fs[f := ft] ! g)) = Some g"
      using \<open>g \<noteq> f\<close> other by simp
  qed
qed

section \<open>Every step keeps it\<close>

lemma cache_get_ok:
  assumes "cache_ok c" "cache_get clk k c = (c', r)"
  shows "cache_ok c' \<and> rc_fetches c' = rc_fetches c \<and> rc_callers c' = rc_callers c \<and>
    (\<forall>v. r = Some v \<longrightarrow> gives (rc_fetches c') k v)"
proof (cases "map_of (rc_cache c) k")
  case None
  with assms show ?thesis by (simp add: cache_get_def)
next
  case (Some e)
  have "gives (rc_fetches c) k (ce_data e)"
    using cache_okD(3) [OF assms(1)] map_of_SomeD [OF Some] by (auto simp: entries_ok_def)
  with assms Some show ?thesis
    using entries_ok_mono [OF set_delete_subset, of "rc_cache c" "rc_fetches c" k]
    by (auto simp: cache_get_def cache_ok_def split: if_splits)
qed

lemma deduplicate_ok:
  assumes "cache_ok c" "deduplicateRequest k ttl c = (c', f)"
  shows "cache_ok c' \<and> rc_callers c' = rc_callers c \<and> f < length (rc_fetches c') \<and> ft_key (rc_fetches c' ! f) = k"
proof (cases "map_of (rc_pending c) k")
  case (Some g)
  with assms show ?thesis
    by (auto simp: deduplicateRequest_def cache_ok_def pending_ok_def)
next
  case None
  with assms have c': "c' = c\<lparr>rc_fetches := rc_fetches c @ [\<lparr>ft_key = k, ft_ttl = ttl, ft_state = InFlight\<rparr>],
      rc_pending := AList.update k (length (rc_fetches c)) (rc_pending c)\<rparr>" "f = length (rc_fetches c)"
    by (auto simp: deduplicateRequest_def Let_def)
  with assms(1) None show ?thesis
    by (auto simp: cache_ok_def update_conv' intro!: pending_new
        intro: callers_grow [OF grows_snoc] entries_grow [OF grows_snoc])
qed

lemma getCached_ok:
  assumes "cache_ok c" "getCached clk path ttl force c = (c', r)"
  shows "cache_ok c' \<and> rc_callers c' = rc_callers c \<and>
    (case r of Hit v \<Rightarrow> gives (rc_fetches c') (cache_key path) v
     | Waits f \<Rightarrow> f < length (rc_fetches c') \<and> ft_key (rc_fetches c' ! f) = cache_key path)"
proof -
  obtain d cached where d: "(if force then (c, None) else cache_get clk (cache_key path) c) = (d, cached)"
    by fastforce
  then have ok: "cache_ok d" "rc_callers d = rc_callers c"
    "\<forall>v. cached = Some v \<longrightarrow> gives (rc_fetches d) (cache_key path) v"
    using assms(1) cache_get_ok [OF assms(1), of clk "cache_key path" d cached] by (auto split: if_splits)
  obtain e f where e: "deduplicateRequest (cache_key path) ttl d = (e, f)"
    by fastforce
  have miss: "(c', r) = (e, Waits f)" if "cached = None \<or> cached = Some JNull"
    using assms(2) d e that by (auto simp: getCached_def Let_def)
  have hit: "(c', r) = (d, Hit v)" if "cached = Some v" "v \<noteq> JNull" for v
    using assms(2) d that by (auto simp: getCached_def Let_def)
  show ?thesis
    using miss hit ok deduplicate_ok [OF ok(1) e] by (cases cached; cases "cached = Some JNull") auto
qed

lemma call_cached_ok: "cache_ok c \<Longrightarrow> cache_ok (call_cached clk path ttl force c)"
proof -
  assume ok: "cache_ok c"
  obtain c' r where g: "getCached clk path ttl force c = (c', r)" by fastforce
  from getCached_ok [OF ok g] show ?thesis
    unfolding call_cached_def g by (cases r) (simp_all add: cache_ok_def callers_ok_def)
qed

lemma fetch_answered_ok:
  assumes "cache_ok c" "f < length (rc_fetches c)" "ft_state (rc_fetches c ! f) = InFlight"
  shows "cache_ok (fetch_answered clk f res c)"
proof -
  let ?ft = "(rc_fetches c ! f)\<lparr>ft_state := Answer res\<rparr>"
  let ?fs = "(rc_fetches c)[f := ?ft]"
  have g: "grows (rc_fetches c) ?fs"
    using assms by (intro grows_update) auto
  have p: "pending_ok (map_of (rc_pending c)) ?fs"
    using assms by (intro pending_answer cache_okD) (auto simp: unfinished_def)
  have "gives ?fs (ft_key (rc_fetches c ! f)) v" if "res = Inr v" for v
    using that assms(2) unfolding gives_def by (intro bexI [of _ ?ft] set_update_memI) auto
  then show ?thesis
    using p callers_grow [OF g cache_okD(2) [OF assms(1)]] entries_grow [OF g cache_okD(3) [OF assms(1)]]
    by (auto simp: fetch_answered_def cache_set_def cache_ok_def Let_def intro!: entries_ok_set split: sum.splits)
qed

lemma fetch_finally_ok:
  assumes "cache_ok c" "f < length (rc_fetches c)" "ft_state (rc_fetches c ! f) = Answer res"
  shows "cache_ok (fetch_finally f c)"
proof -
  let ?fs = "(rc_fetches c)[f := (rc_fetches c ! f)\<lparr>ft_state := Finished res\<rparr>]"
  have g: "grows (rc_fetches c) ?fs"
    using assms by (intro grows_update) auto
  have "pending_ok ((map_of (rc_pending c))(ft_key (rc_fetches c ! f) := None)) ?fs"
    using assms by (intro pending_finish cache_okD) (auto simp: unfinished_def)
  then show ?thesis
    using assms(3) callers_grow [OF g cache_okD(2) [OF assms(1)]] entries_grow [OF g cache_okD(3) [OF assms(1)]]
    by (simp add: fetch_finally_def cache_ok_def delete_conv' Let_def)
qed

lemma cache_drop_ok: "cache_ok c \<Longrightarrow> set m \<subseteq> set (rc_cache c) \<Longrightarrow> cache_ok (c\<lparr>rc_cache := m\<rparr>)"
  using entries_ok_mono by (auto simp: cache_ok_def)

lemma cache_step_ok: "cache_ok c \<Longrightarrow> cache_guard e c \<Longrightarrow> cache_ok (cache_step e c)"
  by (cases e) (auto simp: cache_delete_def invalidatePattern_def cache_clear_def
      intro!: call_cached_ok fetch_answered_ok fetch_finally_ok cache_drop_ok set_delete_subset)

lemma new_cache_ok: "cache_ok (new_cache ttl)"
  by (simp add: cache_ok_def new_cache_def pending_ok_def callers_ok_def entries_ok_def)

interpretation request_cache: machine cache_step cache_guard cache_ok "new_cache ttl" for ttl
  by unfold_locales (auto intro: cache_step_ok new_cache_ok)

section \<open>Properties\<close>

text \<open>
  C11: At any time at most one fetch per path is under way, whatever callers, invalidations and
  answers came before.
\<close>

theorem one_fetch_per_path:
  assumes "guarded cache_guard cache_step es (new_cache ttl)"
    and "f < length (rc_fetches c)" "g < length (rc_fetches c)"
    and "unfinished (rc_fetches c ! f)" "unfinished (rc_fetches c ! g)"
    and "ft_key (rc_fetches c ! f) = ft_key (rc_fetches c ! g)"
    and "c = fold cache_step es (new_cache ttl)"
  shows "f = g"
proof -
  have ok: "pending_ok (map_of (rc_pending c)) (rc_fetches c)"
    unfolding assms(7) by (rule cache_okD(1) [OF request_cache.inv_history [OF assms(1)]])
  have "map_of (rc_pending c) (ft_key (rc_fetches c ! f)) = Some f"
    by (rule pending_unfinished [OF ok assms(2,4)])
  moreover have "map_of (rc_pending c) (ft_key (rc_fetches c ! g)) = Some g"
    by (rule pending_unfinished [OF ok assms(3,5)])
  ultimately have "Some f = Some g"
    unfolding assms(6) by (rule trans [OF sym])
  then show ?thesis by blast
qed

text \<open>
  C12: What a caller gets, from the cache or by waiting, is an answer the server gave to a request
  for that very path; a caller that has nothing yet waits for a fetch that is still under way.
\<close>

theorem cached_answer_is_response:
  assumes "guarded cache_guard cache_step es (new_cache ttl)"
    and "(k, r) \<in> set (rc_callers c)" "c = fold cache_step es (new_cache ttl)"
  shows "case caller_result c r of
      Some res \<Rightarrow> \<exists>ft \<in> set (rc_fetches c). ft_key ft = k \<and> answer_of (ft_state ft) = Some res
    | None \<Rightarrow> \<exists>ft \<in> set (rc_fetches c). ft_key ft = k \<and> unfinished ft"
proof -
  have ok: "callers_ok (rc_callers c) (rc_fetches c)"
    unfolding assms(3) by (rule cache_okD(2) [OF request_cache.inv_history [OF assms(1)]])
  show ?thesis
  proof (cases r)
    case (Hit v)
    with ok assms(2) show ?thesis
      by (force simp: callers_ok_def gives_def caller_result_def)
  next
    case (Waits f)
    with ok assms(2) have f: "f < length (rc_fetches c)" "ft_key (rc_fetches c ! f) = k"
      by (auto simp: callers_ok_def)
    note mem = nth_mem [OF f(1)]
    show ?thesis
    proof (cases "unfinished (rc_fetches c ! f)")
      case True
      then have "caller_result c r = None"
        by (cases "ft_state (rc_fetches c ! f)") (simp_all add: Waits caller_result_def unfinished_def)
      with True f mem show ?thesis by auto
    next
      case False
      then obtain res where res: "ft_state (rc_fetches c ! f) = Finished res"
        by (auto simp: unfinished_def)
      then have "answer_of (ft_state (rc_fetches c ! f)) = Some res" by simp
      moreover from res have "caller_result c r = Some res"
        by (simp add: Waits caller_result_def)
      ultimately show ?thesis using f(2) mem by auto
    qed
  qed
qed

text \<open>
  A response that was under way when the cache was invalidated is stored all the same, and
  serves callers until its time to live is over: invalidating does not reach pending requests.
\<close>

theorem invalidation_misses_fetch:
  assumes "f < length (rc_fetches c)" "ft_key (rc_fetches c ! f) = cache_key path" "v \<noteq> JNull"
    and "d = fetch_answered clk f (Inr v) (invalidatePattern test c)"
  shows "snd (getCached clk' path ttl False d) = Hit v \<longleftrightarrow>
    clk_ms clk' \<le> clk_ms clk + coalesce (ft_ttl (rc_fetches c ! f)) (rc_defaultTTL c)"
  using assms
  by (auto simp: fetch_answered_def invalidatePattern_def cache_set_def getCached_def cache_get_def Let_def
      split: prod.splits)

section \<open>An example run\<close>

definition ex_clock :: "int \<Rightarrow> clock" where
  "ex_clock t = \<lparr>clk_ms = t, clk_iso = []\<rparr>"

text \<open>Two callers of one path share a fetch; a third hits the cache.\<close>

definition ex_cache_events :: "cache_event list" where
  "ex_cache_events =
     [CallCached (ex_clock 0) ''/me'' None False, CallCached (ex_clock 1) ''/me'' None True,
      FetchAnswered (ex_clock 9) 0 (Inr (JNum 7)), FetchFinally 0,
      CallCached (ex_clock 10) ''/me'' None False]"

lemmas cache_op_defs = call_cached_def getCached_def cache_get_def deduplicateRequest_def fetch_answered_def
  fetch_finally_def cache_set_def new_cache_def

definition ex_cache :: request_cache where
  "ex_cache = fold cache_step ex_cache_events (new_cache None)"

lemma ex_cache_guarded: "guarded cache_guard cache_step ex_cache_events (new_cache None)"
  by (simp add: ex_cache_events_def cache_op_defs ex_clock_def Let_def)

lemma ex_cache_state:
  "rc_fetches ex_cache = [\<lparr>ft_key = ''GET:/me'', ft_ttl = None, ft_state = Finished (Inr (JNum 7))\<rparr>]"
  "rc_callers ex_cache = [(''GET:/me'', Waits 0), (''GET:/me'', Waits 0), (''GET:/me'', Hit (JNum 7))]"
  by (simp_all add: ex_cache_def ex_cache_events_def cache_op_defs ex_clock_def Let_def cache_key_def)

definition ex_flight :: request_cache where
  "ex_flight = fold cache_step (take 2 ex_cache_events) (new_cache None)"

lemma ex_flight_guarded: "guarded cache_guard cache_step (take 2 ex_cache_events) (new_cache None)"
  by (simp add: ex_cache_events_def cache_op_defs ex_clock_def Let_def)

lemma ex_flight_state:
  "rc_fetches ex_flight = [\<lparr>ft_key = ''GET:/me'', ft_ttl = None, ft_state = InFlight\<rparr>]"
  "rc_defaultTTL ex_flight = 30000"
  by (simp_all add: ex_flight_def ex_cache_events_def cache_op_defs ex_clock_def Let_def cache_key_def)

theorem one_fetch_per_path_witness: "(0::nat) = 0 \<and> length (rc_fetches ex_flight) = 1"
  using one_fetch_per_path [OF ex_flight_guarded, of 0 ex_flight 0]
  by (simp add: ex_flight_state ex_flight_def [symmetric])

theorem cached_answer_is_response_witness:
  "\<exists>ft \<in> set (rc_fetches ex_cache). ft_key ft = ''GET:/me'' \<and> answer_of (ft_state ft) = Some (Inr (JNum 7))"
  using cached_answer_is_response [OF ex_cache_guarded, of "''GET:/me''" "Hit (JNum 7)" ex_cache]
  by (simp add: ex_cache_state ex_cache_def [symmetric] caller_result_def)

theorem invalidation_misses_fetch_witness:
  "snd (getCached (ex_clock 100) ''/me'' None False
     (fetch_answered (ex_clock 9) 0 (Inr (JNum 7)) (invalidatePattern (\<lambda>k. True) ex_flight))) = Hit (JNum 7)"
  using invalidation_misses_fetch [of 0 ex_flight "''/me''" "JNum 7" _ "ex_clock 9" "\<lambda>k. True" "ex_clock 100" None]
  by (simp add: ex_flight_state ex_clock_def cache_key_def)

end
