(* ===== verification/Retry.thy ===== *)
theory Retry
  imports Main
begin

text \<open>
  The two retry helpers of the web application: \<open>fetchWithRetry\<close>
  (\<open>apps/web/src/lib/performance/requestCache.ts\<close>) and \<open>retryAsync\<close>
  (\<open>apps/web/src/lib/async-utils.ts\<close>). \<open>call k\<close> is what the \<open>k\<close>-th call of the operation
  gives, a thrown error or a value. A run returns the delays it slept, in order, and its result:
  a value, or what it throws, where \<open>None\<close> is \<open>undefined\<close>. Delays are whole milliseconds; the
  products are exact in double precision below \<open>2 ^ 53\<close>, and beyond that the cap decides. The
  jitter that \<open>fetchWithRetry\<close> adds to a delay, less than a tenth of it, is left out.
\<close>

record 'e retry_options =
  ro_maxRetries :: int
  ro_initialDelay :: int
  ro_maxDelay :: int
  ro_backoffFactor :: int
  ro_retryCondition :: "'e \<Rightarrow> nat \<Rightarrow> bool"

definition default_retry :: "'e retry_options" where
  "default_retry = \<lparr>ro_maxRetries = 3, ro_initialDelay = 1000, ro_maxDelay = 30000,
     ro_backoffFactor = 2, ro_retryCondition = (\<lambda>e k. True)\<rparr>"

definition backoff :: "'e retry_options \<Rightarrow> nat \<Rightarrow> int" where
  "backoff opts attempt =
     min (ro_initialDelay opts * ro_backoffFactor opts ^ attempt) (ro_maxDelay opts)"

function fetch_loop ::
    "'e retry_options \<Rightarrow> (nat \<Rightarrow> 'e + 'a) \<Rightarrow> nat \<Rightarrow> 'e option \<Rightarrow> int list \<times> ('e option + 'a)" where
  "fetch_loop opts call attempt lastError =
     (if int attempt \<le> ro_maxRetries opts
      then (case call attempt of
          Inr v \<Rightarrow> ([], Inr v)
        | Inl e \<Rightarrow>
            if int attempt \<ge> ro_maxRetries opts \<or> \<not> ro_retryCondition opts e attempt
            then ([], Inl (Some e))
            else (let (ds, res) = fetch_loop opts call (Suc attempt) (Some e)
                  in (backoff opts attempt # ds, res)))
      else ([], Inl lastError))"
  by pat_completeness auto

termination
  by (relation "measure (\<lambda>(opts, call, attempt, l). nat (ro_maxRetries opts + 1 - int attempt))") auto

declare fetch_loop.simps [simp del]

definition fetchWithRetry ::
    "'e retry_options \<Rightarrow> (nat \<Rightarrow> 'e + 'a) \<Rightarrow> int list \<times> ('e option + 'a)" where
  "fetchWithRetry opts call = fetch_loop opts call 0 None"

text \<open>\<open>retryAsync\<close> carries the delay along and doubles it.\<close>

function async_loop ::
    "int \<Rightarrow> int \<Rightarrow> ('e \<Rightarrow> bool) \<Rightarrow> (nat \<Rightarrow> 'e + 'a) \<Rightarrow> nat \<Rightarrow> int \<Rightarrow> 'e option \<Rightarrow>
     int list \<times> ('e option + 'a)" where
  "async_loop maxRetries maxDelayMs shouldRetry call attempt delay lastError =
     (if int attempt \<le> maxRetries
      then (case call attempt of
          Inr v \<Rightarrow> ([], Inr v)
        | Inl e \<Rightarrow>
            if int attempt = maxRetries \<or> \<not> shouldRetry e
            then ([], Inl (Some e))
            else (let (ds, res) = async_loop maxRetries maxDelayMs shouldRetry call (Suc attempt)
                        (min (delay * 2) maxDelayMs) (Some e)
                  in (delay # ds, res)))
      else ([], Inl lastError))"
  by pat_completeness auto

termination
  by (relation "measure (\<lambda>(m, d, s, call, attempt, l). nat (m + 1 - int attempt))") auto

declare async_loop.simps [simp del]

definition retryAsync ::
    "int \<Rightarrow> int \<Rightarrow> int \<Rightarrow> ('e \<Rightarrow> bool) \<Rightarrow> (nat \<Rightarrow> 'e + 'a) \<Rightarrow> int list \<times> ('e option + 'a)" where
  "retryAsync maxRetries initialDelayMs maxDelayMs shouldRetry call =
     async_loop maxRetries maxDelayMs shouldRetry call 0 initialDelayMs None"

section \<open>Facts\<close>

text \<open>The attempt at which a run stops: a success, a refused error, or the last one allowed.\<close>

definition stops :: "'e retry_options \<Rightarrow> (nat \<Rightarrow> 'e + 'a) \<Rightarrow> nat \<Rightarrow> bool" where
  "stops opts call n \<longleftrightarrow> int n = ro_maxRetries opts \<or>
     (case call n of Inr _ \<Rightarrow> True | Inl e \<Rightarrow> \<not> ro_retryCondition opts e n)"

lemma fetch_loop_stops:
  "int k \<le> ro_maxRetries opts \<Longrightarrow> \<exists>n \<ge> k. int n \<le> ro_maxRetries opts \<and> (\<forall>j \<in> {k..<n}. \<not> stops opts call j) \<and>
     stops opts call n \<and>
     fetch_loop opts call k l = (map (backoff opts) [k..<n],
       case call n of Inr v \<Rightarrow> Inr v | Inl e \<Rightarrow> Inl (Some e))"
proof (induction opts call k l rule: fetch_loop.induct)
  case (1 opts call k l)
  show ?case
  proof (cases "stops opts call k")
    case True
    with "1.prems" show ?thesis
      by (intro exI [of _ k]) (auto simp: stops_def fetch_loop.simps [of opts call k] split: sum.splits)
  next
    case False
    then obtain e where e: "call k = Inl e" "ro_retryCondition opts e k" "int k \<noteq> ro_maxRetries opts"
      by (auto simp: stops_def split: sum.splits)
    with "1.prems" have le: "int (Suc k) \<le> ro_maxRetries opts" by simp
    from "1.IH" [OF "1.prems" e(1) _ le] e "1.prems"
    obtain n where n: "n \<ge> Suc k" "int n \<le> ro_maxRetries opts" "\<forall>j \<in> {Suc k..<n}. \<not> stops opts call j"
      "stops opts call n" "fetch_loop opts call (Suc k) (Some e) = (map (backoff opts) [Suc k..<n],
         case call n of Inr v \<Rightarrow> Inr v | Inl e \<Rightarrow> Inl (Some e))"
      by auto
    have "fetch_loop opts call k l = (map (backoff opts) [k..<n],
         case call n of Inr v \<Rightarrow> Inr v | Inl e \<Rightarrow> Inl (Some e))"
      using e "1.prems" n(1,5) by (simp add: fetch_loop.simps [of opts call k] upt_conv_Cons)
    moreover have "\<forall>j \<in> {k..<n}. \<not> stops opts call j"
      using n(3) False by (auto simp: Suc_le_eq)
    ultimately show ?thesis
      using n by (intro exI [of _ n]) auto
  qed
qed

lemma loops_agree:
  assumes "ro_retryCondition opts = (\<lambda>e k. shouldRetry e)" "ro_backoffFactor opts = 2"
    and "ro_initialDelay opts \<le> ro_maxDelay opts" "0 \<le> ro_initialDelay opts"
  shows "async_loop (ro_maxRetries opts) (ro_maxDelay opts) shouldRetry call k (backoff opts k) l =
    fetch_loop opts call k l"
  using assms
proof (induction opts call k l rule: fetch_loop.induct)
  case (1 opts call k l)
  have next_delay: "min (backoff opts k * 2) (ro_maxDelay opts) = backoff opts (Suc k)"
    using "1.prems" by (auto simp: backoff_def min_def)
  show ?case
    using 1 next_delay
    by (auto simp: async_loop.simps [of _ _ _ _ k] fetch_loop.simps [of opts call k] split: sum.splits)
qed

section \<open>Properties\<close>

text \<open>
  \<open>fetchWithRetry\<close> always ends, after at most \<open>maxRetries\<close> retries: it stops at the first
  attempt that succeeds, is refused or is the last one allowed, gives what that attempt gave, and
  sleeps the capped exponential delay before every retry.
\<close>

theorem retry_stops_first:
  assumes "0 \<le> ro_maxRetries opts"
  shows "\<exists>n. int n \<le> ro_maxRetries opts \<and> (\<forall>j < n. \<not> stops opts call j) \<and> stops opts call n \<and>
    fetchWithRetry opts call = (map (backoff opts) [0..<n],
      case call n of Inr v \<Rightarrow> Inr v | Inl e \<Rightarrow> Inl (Some e))"
  using fetch_loop_stops [of 0 opts call None] assms unfolding fetchWithRetry_def
  by (metis atLeastLessThan_iff le0 of_nat_0)

definition ex_calls :: "nat \<Rightarrow> string + int" where
  "ex_calls k = (if k < 2 then Inl ''503'' else Inr 7)"

theorem retry_stops_first_witness:
  "\<exists>n. int n \<le> 3 \<and> fetchWithRetry (default_retry :: string retry_options) ex_calls = (map (backoff (default_retry :: string retry_options)) [0..<n],
      case ex_calls n of Inr v \<Rightarrow> Inr v | Inl e \<Rightarrow> Inl (Some e))"
  using retry_stops_first [of "default_retry :: string retry_options" ex_calls]
  by (auto simp: default_retry_def)

text \<open>
  The two helpers agree: with a factor of two and a first delay within the cap,
  \<open>retryAsync\<close> makes the same calls, sleeps the same delays and gives the same result as
  \<open>fetchWithRetry\<close>.
\<close>

theorem retry_helpers_agree:
  assumes "ro_retryCondition opts = (\<lambda>e k. shouldRetry e)" "ro_backoffFactor opts = 2"
    and "0 \<le> ro_initialDelay opts" "ro_initialDelay opts \<le> ro_maxDelay opts"
  shows "retryAsync (ro_maxRetries opts) (ro_initialDelay opts) (ro_maxDelay opts) shouldRetry call =
    fetchWithRetry opts call"
  using loops_agree [OF assms(1,2,4,3), of call 0 None] assms(4)
  by (simp add: retryAsync_def fetchWithRetry_def backoff_def)

theorem retry_helpers_agree_witness:
  "retryAsync 3 1000 30000 (\<lambda>e. True) ex_calls = fetchWithRetry default_retry ex_calls"
  using retry_helpers_agree [of "default_retry :: string retry_options" "\<lambda>e. True" ex_calls]
  by (simp add: default_retry_def)

end
