(* ===== verification/Batch.thy ===== *)
theory Batch
  imports Machines "HOL-Library.AList"
begin

text \<open>
  Batched requests (\<open>createBatchedRequest\<close> in \<open>apps/web/src/lib/performance/requestCache.ts\<close>):
  keys are collected until the batch is full or a timer fires, then fetched with one call of
  \<open>batchFn\<close>. A promise is its key and, once settled, its result; a resolver is the index of its
  promise. \<open>timeoutId\<close> and the timers that are really armed are kept apart, because a flush of a
  full batch clears the variable but not the timer.
\<close>

datatype 'e batch_error = NoResult | Rejected 'e

record ('k, 'r, 'e) batch_promise =
  bp_key :: 'k
  bp_result :: "('e batch_error + 'r) option"

record ('k, 'r, 'e) flight =
  fl_keys :: "'k list"
  fl_resolvers :: "('k \<times> nat) list"
  fl_answer :: "('e + ('k \<rightharpoonup> 'r)) option"

record ('k, 'r, 'e) batcher =
  bt_maxBatchSize :: nat
  bt_batch :: "'k list"
  bt_resolvers :: "('k \<times> nat) list"
  bt_timeoutId :: bool
  bt_armed :: nat
  bt_flights :: "('k, 'r, 'e) flight list"
  bt_promises :: "('k, 'r, 'e) batch_promise list"

definition new_batcher :: "nat \<Rightarrow> ('k, 'r, 'e) batcher" where
  "new_batcher maxBatchSize =
     \<lparr>bt_maxBatchSize = maxBatchSize, bt_batch = [], bt_resolvers = [], bt_timeoutId = False,
      bt_armed = 0, bt_flights = [], bt_promises = []\<rparr>"

definition flush :: "('k, 'r, 'e) batcher \<Rightarrow> ('k, 'r, 'e) batcher" where
  "flush b =
     (if bt_batch b = [] then b
      else b\<lparr>bt_batch := [], bt_resolvers := [], bt_timeoutId := False,
             bt_flights := bt_flights b @
               [\<lparr>fl_keys = bt_batch b, fl_resolvers = bt_resolvers b, fl_answer = None\<rparr>]\<rparr>)"

definition batchedRequest :: "'k \<Rightarrow> ('k, 'r, 'e) batcher \<Rightarrow> ('k, 'r, 'e) batcher" where
  "batchedRequest key b =
     (let b' = b\<lparr>bt_batch := bt_batch b @ [key],
                 bt_resolvers := AList.update key (length (bt_promises b)) (bt_resolvers b),
                 bt_promises := bt_promises b @ [\<lparr>bp_key = key, bp_result = None\<rparr>]\<rparr>
      in if length (bt_batch b') \<ge> bt_maxBatchSize b' then flush b'
         else if \<not> bt_timeoutId b' then b'\<lparr>bt_timeoutId := True, bt_armed := Suc (bt_armed b')\<rparr>
         else b')"

definition batch_timer :: "('k, 'r, 'e) batcher \<Rightarrow> ('k, 'r, 'e) batcher" where
  "batch_timer b = flush (b\<lparr>bt_armed := bt_armed b - 1\<rparr>)"

text \<open>A promise settles once; later attempts have no effect.\<close>

definition settle ::
    "nat \<Rightarrow> 'e batch_error + 'r \<Rightarrow> ('k, 'r, 'e) batch_promise list \<Rightarrow> ('k, 'r, 'e) batch_promise list" where
  "settle p res ps = (case bp_result (ps ! p) of None \<Rightarrow> ps[p := (ps ! p)\<lparr>bp_result := Some res\<rparr>] | Some _ \<Rightarrow> ps)"

definition own_result :: "'e + ('k \<rightharpoonup> 'r) \<Rightarrow> 'k \<Rightarrow> 'e batch_error + 'r" where
  "own_result answer key =
     (case answer of
        Inl e \<Rightarrow> Inl (Rejected e)
      | Inr results \<Rightarrow> (case results key of None \<Rightarrow> Inl NoResult | Some v \<Rightarrow> Inr v))"

text \<open>\<open>batchFn\<close> answers the batch \<open>f\<close>: with results key by key, or with an error for all.\<close>

definition batch_answered :: "nat \<Rightarrow> 'e + ('k \<rightharpoonup> 'r) \<Rightarrow> ('k, 'r, 'e) batcher \<Rightarrow> ('k, 'r, 'e) batcher" where
  "batch_answered f answer b =
     (let fl = bt_flights b ! f
      in b\<lparr>bt_flights := (bt_flights b)[f := fl\<lparr>fl_answer := Some answer\<rparr>],
           bt_promises :=
             (case answer of
                Inl e \<Rightarrow> fold (\<lambda>r. settle (snd r) (Inl (Rejected e))) (fl_resolvers fl) (bt_promises b)
              | Inr results \<Rightarrow>
                  fold (\<lambda>key ps. case map_of (fl_resolvers fl) key of
                          None \<Rightarrow> ps | Some p \<Rightarrow> settle p (own_result answer key) ps)
                    (fl_keys fl) (bt_promises b))\<rparr>)"

datatype ('k, 'r, 'e) batch_event =
    BatchedRequest 'k
  | BatchTimer
  | BatchAnswered nat "'e + ('k \<rightharpoonup> 'r)"

fun batch_step :: "('k, 'r, 'e) batch_event \<Rightarrow> ('k, 'r, 'e) batcher \<Rightarrow> ('k, 'r, 'e) batcher" where
  "batch_step (BatchedRequest key) b = batchedRequest key b"
| "batch_step BatchTimer b = batch_timer b"
| "batch_step (BatchAnswered f answer) b = batch_answered f answer b"

text \<open>Timers fire as often as they were armed, and \<open>batchFn\<close> answers each batch once.\<close>

fun batch_guard :: "('k, 'r, 'e) batch_event \<Rightarrow> ('k, 'r, 'e) batcher \<Rightarrow> bool" where
  "batch_guard (BatchedRequest key) b \<longleftrightarrow> True"
| "batch_guard BatchTimer b \<longleftrightarrow> bt_armed b > 0"
| "batch_guard (BatchAnswered f answer) b \<longleftrightarrow>
     f < length (bt_flights b) \<and> fl_answer (bt_flights b ! f) = None"

text \<open>The discipline the callers need: no key is asked for again while it waits in the batch.\<close>

fun batch_distinct :: "('k, 'r, 'e) batch_event \<Rightarrow> ('k, 'r, 'e) batcher \<Rightarrow> bool" where
  "batch_distinct (BatchedRequest key) b \<longleftrightarrow> key \<notin> set (bt_batch b)"
| "batch_distinct e b \<longleftrightarrow> batch_guard e b"

section \<open>Sizes and timers\<close>

definition sizes_ok :: "('k, 'r, 'e) batcher \<Rightarrow> bool" where
  "sizes_ok b \<longleftrightarrow> 0 < bt_maxBatchSize b \<and> length (bt_batch b) < bt_maxBatchSize b \<and>
     bt_timeoutId b = (bt_batch b \<noteq> []) \<and> (bt_batch b \<noteq> [] \<longrightarrow> bt_armed b > 0) \<and>
     (\<forall>fl \<in> set (bt_flights b). fl_keys fl \<noteq> [] \<and> length (fl_keys fl) \<le> bt_maxBatchSize b)"

lemma batch_sizes_step: "sizes_ok b \<Longrightarrow> batch_guard e b \<Longrightarrow> sizes_ok (batch_step e b)"
  by (cases e) (auto simp: sizes_ok_def batchedRequest_def batch_timer_def flush_def batch_answered_def
      Let_def elim!: set_update_subsetI [THEN subsetD, rotated] dest!: set_update_subset_insert [THEN subsetD])


section \<open>Every promise is served\<close>

definition promise_indices :: "('k, 'r, 'e) batcher \<Rightarrow> nat list" where
  "promise_indices b = concat (map (\<lambda>fl. map snd (fl_resolvers fl)) (bt_flights b)) @ map snd (bt_resolvers b)"

definition resolver_ok ::
    "('k, 'r, 'e) batch_promise list \<Rightarrow> ('e + ('k \<rightharpoonup> 'r)) option \<Rightarrow> 'k \<times> nat \<Rightarrow> bool" where
  "resolver_ok ps answer kp \<longleftrightarrow> bp_key (ps ! snd kp) = fst kp \<and>
     bp_result (ps ! snd kp) = map_option (\<lambda>a. own_result a (fst kp)) answer"

definition promises_ok :: "('k, 'r, 'e) batcher \<Rightarrow> bool" where
  "promises_ok b \<longleftrightarrow>
     promise_indices b = [0..<length (bt_promises b)] \<and>
     map fst (bt_resolvers b) = bt_batch b \<and> distinct (bt_batch b) \<and>
     (\<forall>kp \<in> set (bt_resolvers b). resolver_ok (bt_promises b) None kp) \<and>
     (\<forall>fl \<in> set (bt_flights b). map fst (fl_resolvers fl) = fl_keys fl \<and> distinct (fl_keys fl) \<and>
        (\<forall>kp \<in> set (fl_resolvers fl). resolver_ok (bt_promises b) (fl_answer fl) kp))"

lemma update_fresh: "k \<notin> fst ` set m \<Longrightarrow> AList.update k v m = m @ [(k, v)]"
  by (induction m) auto

lemma index_bound:
  "promise_indices b = [0..<length (bt_promises b)] \<Longrightarrow> kp \<in> set (bt_resolvers b) \<Longrightarrow>
   snd kp < length (bt_promises b)"
  "promise_indices b = [0..<length (bt_promises b)] \<Longrightarrow> fl \<in> set (bt_flights b) \<Longrightarrow>
   kp \<in> set (fl_resolvers fl) \<Longrightarrow> snd kp < length (bt_promises b)"
proof -
  assume eq: "promise_indices b = [0..<length (bt_promises b)]"
  have *: "n < length (bt_promises b)" if "n \<in> set (promise_indices b)" for n
    using that unfolding eq by simp
  show "snd kp < length (bt_promises b)" if "kp \<in> set (bt_resolvers b)"
    using that by (intro *) (auto simp: promise_indices_def)
  show "snd kp < length (bt_promises b)" if "fl \<in> set (bt_flights b)" "kp \<in> set (fl_resolvers fl)"
    using that by (intro *) (auto simp: promise_indices_def)
qed

lemma promises_ok_flush: "promises_ok b \<Longrightarrow> promises_ok (flush b)"
  by (auto simp: promises_ok_def flush_def promise_indices_def)

lemma promises_ok_timers:
  "promises_ok (b\<lparr>bt_timeoutId := t, bt_armed := n\<rparr>) = promises_ok b"
  "promises_ok (b\<lparr>bt_armed := n\<rparr>) = promises_ok b"
  "promises_ok (b\<lparr>bt_timeoutId := t\<rparr>) = promises_ok b"
  by (simp_all add: promises_ok_def promise_indices_def)

lemma resolver_ok_snoc: "snd kp < length ps \<Longrightarrow> resolver_ok (ps @ [x]) answer kp = resolver_ok ps answer kp"
  by (simp add: resolver_ok_def nth_append)

lemma promises_ok_request:
  assumes ok: "promises_ok b" and fresh: "key \<notin> set (bt_batch b)"
  shows "promises_ok (batchedRequest key b)"
proof -
  let ?n = "length (bt_promises b)"
  define b' where "b' = b\<lparr>bt_batch := bt_batch b @ [key],
    bt_resolvers := AList.update key ?n (bt_resolvers b),
    bt_promises := bt_promises b @ [\<lparr>bp_key = key, bp_result = None\<rparr>]\<rparr>"
  have "set (bt_batch b) = fst ` set (bt_resolvers b)"
    using ok by (metis list.set_map promises_ok_def)
  with fresh have r: "AList.update key ?n (bt_resolvers b) = bt_resolvers b @ [(key, ?n)]"
    by (intro update_fresh) simp
  have "promises_ok b'"
    using ok fresh unfolding promises_ok_def b'_def r
    by (auto simp: promise_indices_def resolver_ok_snoc index_bound [unfolded promise_indices_def])
      (simp add: resolver_ok_def)
  then show ?thesis
    unfolding batchedRequest_def b'_def [symmetric] Let_def
    by (auto intro: promises_ok_flush simp: promises_ok_timers)
qed

section \<open>Settling a batch\<close>

lemma length_settle [simp]: "length (settle p res ps) = length ps"
  by (simp add: settle_def split: option.splits)

lemma nth_settle:
  "p < length ps \<Longrightarrow> bp_result (ps ! p) = None \<Longrightarrow>
   settle p res ps ! q = (if q = p then (ps ! p)\<lparr>bp_result := Some res\<rparr> else ps ! q)"
  by (simp add: settle_def)

definition settle_all ::
    "('e + ('k \<rightharpoonup> 'r)) \<Rightarrow> ('k \<times> nat) list \<Rightarrow> ('k, 'r, 'e) batch_promise list \<Rightarrow> ('k, 'r, 'e) batch_promise list" where
  "settle_all answer = fold (\<lambda>kp. settle (snd kp) (own_result answer (fst kp)))"

lemma length_settle_all [simp]: "length (settle_all answer rs ps) = length ps"
  by (induction rs arbitrary: ps) (simp_all add: settle_all_def)

lemma settle_all_other: "q \<notin> snd ` set rs \<Longrightarrow> settle_all answer rs ps ! q = ps ! q"
proof (induction rs arbitrary: ps)
  case (Cons kp rs)
  have "settle (snd kp) res ps ! q = ps ! q" for res
    using Cons.prems by (auto simp: settle_def split: option.splits)
  with Cons show ?case by (simp add: settle_all_def)
qed (simp add: settle_all_def)

lemma settle_all_own:
  assumes "distinct (map snd rs)" "\<forall>kp \<in> set rs. snd kp < length ps \<and> bp_result (ps ! snd kp) = None"
    and "kp \<in> set rs"
  shows "settle_all answer rs ps ! snd kp = (ps ! snd kp)\<lparr>bp_result := Some (own_result answer (fst kp))\<rparr>"
  using assms
proof (induction rs arbitrary: ps)
  case (Cons r rs)
  let ?ps = "settle (snd r) (own_result answer (fst r)) ps"
  have step: "settle_all answer (r # rs) ps = settle_all answer rs ?ps"
    by (simp add: settle_all_def)
  have nth: "?ps ! q = (if q = snd r then (ps ! q)\<lparr>bp_result := Some (own_result answer (fst r))\<rparr> else ps ! q)" for q
    using Cons.prems(2) by (simp add: nth_settle)
  show ?case
  proof (cases "kp = r")
    case True
    have "snd r \<notin> snd ` set rs" using Cons.prems(1) by simp
    then show ?thesis
      using True by (simp add: step settle_all_other nth)
  next
    case False
    then have kp: "kp \<in> set rs" "snd kp \<noteq> snd r"
      using Cons.prems by (auto simp: image_iff)
    have "\<forall>x \<in> set rs. snd x < length ?ps \<and> bp_result (?ps ! snd x) = None"
      using Cons.prems by (auto simp: nth image_iff)
    with Cons.IH [of ?ps] Cons.prems(1) kp show ?thesis
      by (simp add: step nth)
  qed
qed simp

lemma settle_by_keys:
  assumes "distinct (map fst rs)"
  shows "fold (\<lambda>key ps. case map_of rs key of None \<Rightarrow> ps | Some p \<Rightarrow> settle p (f key) ps) (map fst rs) ps =
    fold (\<lambda>kp. settle (snd kp) (f (fst kp))) rs ps"
proof -
  have "fold (\<lambda>key ps. case map_of rs key of None \<Rightarrow> ps | Some p \<Rightarrow> settle p (f key) ps) (map fst rs) ps =
      fold (\<lambda>kp ps. case map_of rs (fst kp) of None \<Rightarrow> ps | Some p \<Rightarrow> settle p (f (fst kp)) ps) rs ps"
    by (simp add: fold_map comp_def)
  also have "\<dots> = fold (\<lambda>kp. settle (snd kp) (f (fst kp))) rs ps"
    using assms by (intro fold_cong) (auto simp: map_of_eq_Some_iff)
  finally show ?thesis .
qed

lemma batch_answered_settles:
  assumes "map fst (fl_resolvers (bt_flights b ! f)) = fl_keys (bt_flights b ! f)"
    and "distinct (fl_keys (bt_flights b ! f))"
  shows "batch_answered f answer b =
    b\<lparr>bt_flights := (bt_flights b)[f := (bt_flights b ! f)\<lparr>fl_answer := Some answer\<rparr>],
      bt_promises := settle_all answer (fl_resolvers (bt_flights b ! f)) (bt_promises b)\<rparr>"
proof (cases answer)
  case (Inl e)
  then show ?thesis
    by (simp add: batch_answered_def Let_def settle_all_def own_result_def)
next
  case (Inr results)
  with assms settle_by_keys [of "fl_resolvers (bt_flights b ! f)" "own_result (Inr results)" "bt_promises b"] show ?thesis
    by (simp add: batch_answered_def Let_def settle_all_def)
qed


lemma distinct_middle:
  assumes "distinct (a @ r @ c @ z)"
  shows "distinct r" "set r \<inter> set a = {}" "set r \<inter> set c = {}" "set r \<inter> set z = {}"
  using assms by auto

lemma map_update_same: "g x = g (xs ! f) \<Longrightarrow> map g (xs[f := x]) = map g xs"
  by (metis list_update_id map_update)

lemma promises_ok_answer:
  assumes ok: "promises_ok b" and f: "f < length (bt_flights b)" "fl_answer (bt_flights b ! f) = None"
  shows "promises_ok (batch_answered f answer b)"
proof -
  let ?fl = "bt_flights b ! f" and ?ps = "bt_promises b"
  let ?rs = "fl_resolvers ?fl"
  let ?qs = "settle_all answer ?rs ?ps"
  let ?fls = "(bt_flights b)[f := ?fl\<lparr>fl_answer := Some answer\<rparr>]"
  have fl: "?fl \<in> set (bt_flights b)" using f(1) by simp
  have idx: "promise_indices b = [0..<length ?ps]" and fl_ok: "map fst ?rs = fl_keys ?fl" "distinct (fl_keys ?fl)"
    and own: "\<forall>kp \<in> set ?rs. resolver_ok ?ps None kp"
    using ok fl f(2) by (auto simp: promises_ok_def)
  have eq: "batch_answered f answer b = b\<lparr>bt_flights := ?fls, bt_promises := ?qs\<rparr>"
    by (rule batch_answered_settles [OF fl_ok])
  have same: "map (\<lambda>fl. map snd (fl_resolvers fl)) ?fls = map (\<lambda>fl. map snd (fl_resolvers fl)) (bt_flights b)"
    by (rule map_update_same) simp
  have dist: "distinct (promise_indices b)" unfolding idx by simp
  have split: "bt_flights b = take f (bt_flights b) @ ?fl # drop (Suc f) (bt_flights b)"
    using f(1) by (rule id_take_nth_drop)
  let ?before = "concat (map (\<lambda>fl. map snd (fl_resolvers fl)) (take f (bt_flights b)))"
  let ?after = "concat (map (\<lambda>fl. map snd (fl_resolvers fl)) (drop (Suc f) (bt_flights b)))"
  have "promise_indices b = ?before @ map snd ?rs @ ?after @ map snd (bt_resolvers b)"
    unfolding promise_indices_def by (subst split) simp
  with dist have "distinct (?before @ map snd ?rs @ ?after @ map snd (bt_resolvers b))" by simp
  note apart = distinct_middle [OF this]
  then have d: "distinct (map snd ?rs)" by blast
  have other1: "snd ` set ?rs \<inter> snd ` set (bt_resolvers b) = {}"
    using apart(4) by (simp only: list.set_map)
  have other2: "snd ` set ?rs \<inter> snd ` set (fl_resolvers fl) = {}"
    if "fl \<in> set (take f (bt_flights b)) \<union> set (drop (Suc f) (bt_flights b))" for fl
  proof -
    have "snd ` set (fl_resolvers fl) \<subseteq> set ?before \<union> set ?after"
      using that by auto
    moreover have "snd ` set ?rs \<inter> (set ?before \<union> set ?after) = {}"
      using apart(2,3) by (simp only: list.set_map Int_Un_distrib Un_empty)
    ultimately show ?thesis by blast
  qed
  have keep: "resolver_ok ?qs a kp = resolver_ok ?ps a kp" if "snd kp \<notin> snd ` set ?rs" for a kp
    using that by (simp add: resolver_ok_def settle_all_other)
  have here: "resolver_ok ?qs (Some answer) kp" if "kp \<in> set ?rs" for kp
  proof -
    have "\<forall>kp \<in> set ?rs. snd kp < length ?ps \<and> bp_result (?ps ! snd kp) = None"
      using own index_bound(2) [OF idx fl] by (simp add: resolver_ok_def)
    from settle_all_own [OF d this that] own that show ?thesis
      by (simp add: resolver_ok_def)
  qed
  have members: "set ?fls \<subseteq> insert (?fl\<lparr>fl_answer := Some answer\<rparr>)
      (set (take f (bt_flights b)) \<union> set (drop (Suc f) (bt_flights b)))"
    using f(1) by (simp add: upd_conv_take_nth_drop)
  have rest: "set (take f (bt_flights b)) \<union> set (drop (Suc f) (bt_flights b)) \<subseteq> set (bt_flights b)"
    by (auto dest: in_set_takeD in_set_dropD)
  have flights: "map fst (fl_resolvers fl) = fl_keys fl \<and> distinct (fl_keys fl) \<and>
      (\<forall>kp \<in> set (fl_resolvers fl). resolver_ok ?qs (fl_answer fl) kp)" if "fl \<in> set ?fls" for fl
  proof (cases "fl = ?fl\<lparr>fl_answer := Some answer\<rparr>")
    case True
    with fl_ok here show ?thesis by simp
  next
    case False
    with that members have fl': "fl \<in> set (take f (bt_flights b)) \<union> set (drop (Suc f) (bt_flights b))" by blast
    with rest have "fl \<in> set (bt_flights b)" by blast
    with ok have "map fst (fl_resolvers fl) = fl_keys fl" "distinct (fl_keys fl)"
      "\<forall>kp \<in> set (fl_resolvers fl). resolver_ok ?ps (fl_answer fl) kp"
      by (auto simp: promises_ok_def)
    moreover have "\<forall>kp \<in> set (fl_resolvers fl). snd kp \<notin> snd ` set ?rs"
      using other2 [OF fl'] by blast
    ultimately show ?thesis using keep by blast
  qed
  have "\<forall>kp \<in> set (bt_resolvers b). resolver_ok ?qs None kp"
  proof
    fix kp assume kp: "kp \<in> set (bt_resolvers b)"
    with other1 have "snd kp \<notin> snd ` set ?rs" by blast
    moreover have "resolver_ok ?ps None kp"
      using ok kp by (simp add: promises_ok_def)
    ultimately show "resolver_ok ?qs None kp" using keep by blast
  qed
  then show ?thesis
    unfolding eq promises_ok_def promise_indices_def
    using ok flights same idx by (simp add: promises_ok_def promise_indices_def)
qed

lemma promises_ok_step: "promises_ok b \<Longrightarrow> batch_distinct e b \<Longrightarrow> promises_ok (batch_step e b)"
  by (cases e) (auto simp: batch_timer_def promises_ok_timers intro: promises_ok_request promises_ok_flush promises_ok_answer)

lemma sizes_ok_new: "sizes_ok (new_batcher (Suc n))"
  by (simp add: sizes_ok_def new_batcher_def)

interpretation batch_sizes: machine batch_step batch_guard sizes_ok "new_batcher (Suc n)" for n
  by unfold_locales (auto intro: sizes_ok_new batch_sizes_step)

lemma promises_ok_new: "promises_ok (new_batcher n)"
  by (simp add: promises_ok_def promise_indices_def new_batcher_def)

interpretation batch_promises: machine batch_step batch_distinct promises_ok "new_batcher n" for n
  by unfold_locales (auto intro: promises_ok_new promises_ok_step)

section \<open>Properties\<close>

text \<open>
  \<open>batchFn\<close> is never called with no keys or with more than \<open>maxBatchSize\<close> keys, and a
  request that waits always has an armed timer that will flush it.
\<close>

theorem batches_bounded:
  assumes "guarded batch_guard batch_step es (new_batcher (Suc n))" "b = fold batch_step es (new_batcher (Suc n))"
  shows "(\<forall>fl \<in> set (bt_flights b). fl_keys fl \<noteq> [] \<and> length (fl_keys fl) \<le> bt_maxBatchSize b) \<and>
    (bt_batch b \<noteq> [] \<longrightarrow> bt_armed b > 0)"
  using batch_sizes.inv_history [OF assms(1)] unfolding assms(2) by (simp add: sizes_ok_def)

text \<open>
  C16: When no key is asked for twice in one batch, every request is answered as soon as the batches
  are: its promise has settled with the result of its own key, or is rejected when there is none
  or the whole batch failed.
\<close>

theorem batched_requests_answered:
  assumes "guarded batch_distinct batch_step es (new_batcher n)" "b = fold batch_step es (new_batcher n)"
    and "bt_batch b = []" "\<forall>fl \<in> set (bt_flights b). fl_answer fl \<noteq> None" "p < length (bt_promises b)"
  shows "\<exists>fl \<in> set (bt_flights b). \<exists>answer. fl_answer fl = Some answer \<and>
    bp_key (bt_promises b ! p) \<in> set (fl_keys fl) \<and>
    bp_result (bt_promises b ! p) = Some (own_result answer (bp_key (bt_promises b ! p)))"
proof -
  have ok: "promises_ok b"
    unfolding assms(2) by (rule batch_promises.inv_history [OF assms(1)])
  then have idx: "promise_indices b = [0..<length (bt_promises b)]" and "bt_resolvers b = []"
    using assms(3) by (auto simp: promises_ok_def)
  have "p \<in> set (promise_indices b)"
    unfolding idx using assms(5) by simp
  then obtain fl k where fl: "fl \<in> set (bt_flights b)" "(k, p) \<in> set (fl_resolvers fl)"
    using \<open>bt_resolvers b = []\<close> by (force simp: promise_indices_def)
  with ok have "resolver_ok (bt_promises b) (fl_answer fl) (k, p)" "map fst (fl_resolvers fl) = fl_keys fl"
    by (auto simp: promises_ok_def)
  moreover have "k \<in> set (map fst (fl_resolvers fl))"
    using fl(2) by force
  moreover obtain answer where "fl_answer fl = Some answer"
    using assms(4) fl(1) by blast
  ultimately show ?thesis
    using fl(1) by (intro bexI [of _ fl] exI [of _ answer]) (auto simp: resolver_ok_def)
qed


text \<open>A promise whose resolver was overwritten.\<close>

definition orphan :: "nat \<Rightarrow> ('k, 'r, 'e) batcher \<Rightarrow> bool" where
  "orphan p b \<longleftrightarrow> p < length (bt_promises b) \<and> bp_result (bt_promises b ! p) = None \<and>
     p \<notin> set (promise_indices b)"

lemma orphan_flush: "orphan p b \<Longrightarrow> orphan p (flush b)"
  by (auto simp: orphan_def flush_def promise_indices_def)

lemma orphan_timers:
  "orphan p (b\<lparr>bt_timeoutId := t, bt_armed := n\<rparr>) = orphan p b" "orphan p (b\<lparr>bt_armed := n\<rparr>) = orphan p b"
  "orphan p (b\<lparr>bt_timeoutId := t\<rparr>) = orphan p b"
  by (simp_all add: orphan_def promise_indices_def)

lemma set_update_range: "snd ` set (AList.update k v m) \<subseteq> insert v (snd ` set m)"
  by (induction m) auto

lemma orphan_request:
  assumes "orphan p b"
  shows "orphan p (batchedRequest key b)"
proof -
  have "orphan p (b\<lparr>bt_batch := bt_batch b @ [key],
      bt_resolvers := AList.update key (length (bt_promises b)) (bt_resolvers b),
      bt_promises := bt_promises b @ [\<lparr>bp_key = key, bp_result = None\<rparr>]\<rparr>)"
    using assms set_update_range [of key "length (bt_promises b)" "bt_resolvers b"]
    by (auto simp: orphan_def promise_indices_def nth_append)
  then show ?thesis
    unfolding batchedRequest_def Let_def by (auto intro: orphan_flush simp: orphan_timers)
qed

lemma settle_other: "q \<noteq> p \<Longrightarrow> settle p res ps ! q = ps ! q"
  by (simp add: settle_def split: option.splits)

lemma fold_settle_other:
  "(\<And>x ps. x \<in> set xs \<Longrightarrow> length (g x ps) = length ps \<and> g x ps ! q = ps ! q) \<Longrightarrow>
   length (fold g xs ps) = length ps \<and> fold g xs ps ! q = ps ! q"
  by (induction xs arbitrary: ps) auto

lemma orphan_answer:
  assumes "orphan p b" "f < length (bt_flights b)"
  shows "orphan p (batch_answered f answer b)"
proof -
  let ?fl = "bt_flights b ! f"
  have fl: "?fl \<in> set (bt_flights b)" using assms(2) by simp
  have p: "p \<noteq> snd kp" if "kp \<in> set (fl_resolvers ?fl)" for kp
    using assms(1) fl that by (auto simp: orphan_def promise_indices_def)
  have "length (bt_promises (batch_answered f answer b)) = length (bt_promises b) \<and>
      bt_promises (batch_answered f answer b) ! p = bt_promises b ! p"
  proof (cases answer)
    case (Inl e)
    then show ?thesis
      using p by (auto simp: batch_answered_def Let_def settle_other intro!: fold_settle_other)
  next
    case (Inr results)
    have "map_of (fl_resolvers ?fl) key \<noteq> Some p" for key
      using p map_of_SomeD by fastforce
    then show ?thesis
      unfolding Inr batch_answered_def Let_def
      by (auto intro!: fold_settle_other split: option.splits) (metis settle_other)
  qed
  moreover have "promise_indices (batch_answered f answer b) = promise_indices b"
    by (simp add: promise_indices_def batch_answered_def Let_def map_update_same)
  ultimately show ?thesis
    using assms(1) by (simp add: orphan_def)
qed

lemma orphan_step: "orphan p b \<Longrightarrow> batch_guard e b \<Longrightarrow> orphan p (batch_step e b)"
  by (cases e) (auto simp: batch_timer_def orphan_timers intro: orphan_request orphan_flush orphan_answer)

lemma orphan_history: "orphan p b \<Longrightarrow> guarded batch_guard batch_step es b \<Longrightarrow> orphan p (fold batch_step es b)"
  by (induction es arbitrary: b) (auto intro: orphan_step)

text \<open>
  A key that is asked for twice in one batch leaves the first caller waiting for ever: whatever
  happens afterwards, its promise never settles.
\<close>

theorem repeated_key_never_answered:
  assumes "2 \<le> n" "guarded batch_guard batch_step es (batchedRequest k (batchedRequest k (new_batcher n)))"
  shows "bp_result (bt_promises (fold batch_step es (batchedRequest k (batchedRequest k (new_batcher n)))) ! 0) = None"
proof -
  have "orphan 0 (batchedRequest k (batchedRequest k (new_batcher n)))"
    using assms(1) by (auto simp: orphan_def batchedRequest_def new_batcher_def flush_def promise_indices_def Let_def)
  from orphan_history [OF this assms(2)] show ?thesis by (simp add: orphan_def)
qed

section \<open>An example run\<close>

definition ex_batch :: "(string, int, string) batch_event list" where
  "ex_batch = [BatchedRequest ''a'', BatchedRequest ''b'', BatchTimer,
     BatchAnswered 0 (Inr (\<lambda>k. if k = ''a'' then Some 1 else None))]"

lemmas batch_op_defs = batchedRequest_def batch_timer_def flush_def batch_answered_def new_batcher_def
  settle_def own_result_def

theorem batches_bounded_witness:
  "\<exists>b. b = fold batch_step ex_batch (new_batcher (Suc 4)) \<and>
     (\<forall>fl \<in> set (bt_flights b). fl_keys fl \<noteq> [] \<and> length (fl_keys fl) \<le> bt_maxBatchSize b)"
proof -
  have "guarded batch_guard batch_step ex_batch (new_batcher (Suc 4))"
    by (simp add: ex_batch_def batch_op_defs Let_def)
  from batches_bounded [OF this refl] show ?thesis by blast
qed

theorem batched_requests_answered_witness:
  "\<exists>fl \<in> set (bt_flights (fold batch_step ex_batch (new_batcher 5))). \<exists>answer. fl_answer fl = Some answer \<and>
    bp_key (bt_promises (fold batch_step ex_batch (new_batcher 5)) ! 1) \<in> set (fl_keys fl) \<and>
    bp_result (bt_promises (fold batch_step ex_batch (new_batcher 5)) ! 1) =
      Some (own_result answer (bp_key (bt_promises (fold batch_step ex_batch (new_batcher 5)) ! 1)))"
  by (rule batched_requests_answered [of ex_batch 5 _ 1, OF _ refl])
    (simp_all add: ex_batch_def batch_op_defs Let_def)

theorem repeated_key_never_answered_witness:
  "bp_result (bt_promises (fold batch_step [BatchTimer, BatchAnswered 0 (Inr (\<lambda>k. Some (1 :: int)))]
     (batchedRequest ''a'' (batchedRequest ''a'' (new_batcher 50 :: (string, int, string) batcher)))) ! 0) = None"
  by (rule repeated_key_never_answered) (simp_all add: batch_op_defs Let_def)

end
