(* ===== verification/Keybindings.thy ===== *)
theory Keybindings
  imports Js_Text Machines "HOL-Library.Multiset" "HOL-Library.Char_ord" "HOL-Library.List_Lexorder"
begin

text \<open>
  The keyboard shortcut manager (\<open>apps/web/src/lib/keybindings/KeybindingManager.ts\<close>). A handler
  is a number, and running it appends the number to a log; so do the listeners that are told of a
  change. \<open>collate a b\<close> is \<open>a.localeCompare(b) <= 0\<close>, which depends on the locale. The display
  form of a key (\<open>formatKeyForDisplay\<close>) is not modelled: it is made of symbols.
\<close>

section \<open>Key strings\<close>

text \<open>\<open>s.replace(/p1|p2|.../g, r)\<close>: at each place the first alternative that matches.\<close>

fun replace_all :: "string list \<Rightarrow> string \<Rightarrow> string \<Rightarrow> string" where
  "replace_all pats r [] = []"
| "replace_all pats r (c # cs) =
     (case find (starts_with (c # cs)) pats of
        Some p \<Rightarrow> r @ replace_all pats r (drop (length p - 1) cs)
      | None \<Rightarrow> c # replace_all pats r cs)"

definition modOrder :: "string list" where
  "modOrder = [''mod'', ''ctrl'', ''alt'', ''shift'']"

definition part_le :: "(string \<Rightarrow> string \<Rightarrow> bool) \<Rightarrow> string \<Rightarrow> string \<Rightarrow> bool" where
  "part_le collate a b =
     (let aIdx = indexOf a modOrder; bIdx = indexOf b modOrder
      in if aIdx \<noteq> -1 \<and> bIdx \<noteq> -1 then aIdx \<le> bIdx
         else if aIdx \<noteq> -1 then True
         else if bIdx \<noteq> -1 then False
         else collate a b)"

text \<open>A stable sort by a comparison.\<close>

fun insert_by :: "('a \<Rightarrow> 'a \<Rightarrow> bool) \<Rightarrow> 'a \<Rightarrow> 'a list \<Rightarrow> 'a list" where
  "insert_by le x [] = [x]"
| "insert_by le x (y # ys) = (if le x y then x # y # ys else y # insert_by le x ys)"

definition sort_by :: "('a \<Rightarrow> 'a \<Rightarrow> bool) \<Rightarrow> 'a list \<Rightarrow> 'a list" where
  "sort_by le xs = foldr (insert_by le) xs []"

fun join_plus :: "string list \<Rightarrow> string" where
  "join_plus [] = []"
| "join_plus [s] = s"
| "join_plus (s # t # ss) = s @ ''+'' @ join_plus (t # ss)"

definition sort_parts :: "(string \<Rightarrow> string \<Rightarrow> bool) \<Rightarrow> string list \<Rightarrow> string" where
  "sort_parts collate parts = join_plus (sort_by (part_le collate) parts)"

definition clean_key :: "string \<Rightarrow> string" where
  "clean_key key =
     filter (\<lambda>c. \<not> is_space c)
       (replace_all [''option''] ''alt''
         (replace_all [''control''] ''ctrl''
           (replace_all [''meta'', ''cmd'', ''command''] ''mod'' (to_lower key))))"

definition normalizeKey :: "(string \<Rightarrow> string \<Rightarrow> bool) \<Rightarrow> string \<Rightarrow> string" where
  "normalizeKey collate key = sort_parts collate (split_char (CHR ''+'') (clean_key key))"

record key_event =
  ke_ctrlKey :: bool
  ke_metaKey :: bool
  ke_altKey :: bool
  ke_shiftKey :: bool
  ke_key :: string

definition keyMap :: "string obj" where
  "keyMap = [('' '', ''space''), (''arrowup'', ''up''), (''arrowdown'', ''down''),
     (''arrowleft'', ''left''), (''arrowright'', ''right''), (''escape'', ''esc''),
     (''backspace'', ''backspace''), (''delete'', ''delete''), (''enter'', ''enter''),
     (''tab'', ''tab''), (''`'', ''backtick'')]"

definition event_parts :: "bool \<Rightarrow> key_event \<Rightarrow> string list" where
  "event_parts isMac event =
     (let mods = (if isMac
          then (if ke_metaKey event then [''mod''] else []) @ (if ke_ctrlKey event then [''ctrl''] else [])
          else (if ke_ctrlKey event then [''mod''] else []) @ (if ke_metaKey event then [''meta''] else []));
          key = str_or (map_of keyMap (to_lower (ke_key event))) (to_lower (ke_key event))
      in mods @ (if ke_altKey event then [''alt''] else []) @ (if ke_shiftKey event then [''shift''] else []) @
         (if key \<notin> {''control'', ''alt'', ''shift'', ''meta''} then [key] else []))"

definition eventToKeyString :: "(string \<Rightarrow> string \<Rightarrow> bool) \<Rightarrow> bool \<Rightarrow> key_event \<Rightarrow> string" where
  "eventToKeyString collate isMac event = sort_parts collate (event_parts isMac event)"

section \<open>Conditions\<close>

record kb_context =
  kc_editorFocus :: bool
  kc_terminalFocus :: bool
  kc_sidebarFocus :: bool
  kc_inputFocus :: bool
  kc_modalOpen :: bool
  kc_quickOpenOpen :: bool
  kc_commandPaletteOpen :: bool

definition context_value :: "kb_context \<Rightarrow> string \<Rightarrow> bool" where
  "context_value ctx key =
     (key = ''editorFocus'' \<and> kc_editorFocus ctx \<or> key = ''terminalFocus'' \<and> kc_terminalFocus ctx \<or>
      key = ''sidebarFocus'' \<and> kc_sidebarFocus ctx \<or> key = ''inputFocus'' \<and> kc_inputFocus ctx \<or>
      key = ''modalOpen'' \<and> kc_modalOpen ctx \<or> key = ''quickOpenOpen'' \<and> kc_quickOpenOpen ctx \<or>
      key = ''commandPaletteOpen'' \<and> kc_commandPaletteOpen ctx)"

text \<open>A separator, white space around an operator, at the start of the text: the operator and the rest.\<close>

definition operator_at :: "string \<Rightarrow> (string \<times> string) option" where
  "operator_at s =
     (let r = dropWhile is_space s; op = take 2 r; t = drop 2 r
      in if s \<noteq> [] \<and> is_space (hd s) \<and> (op = ''&&'' \<or> op = ''||'') \<and> t \<noteq> [] \<and> is_space (hd t)
         then Some (op, dropWhile is_space t) else None)"

lemma operator_at_shorter: "operator_at s = Some (op, rest) \<Longrightarrow> length rest < length s"
proof -
  assume op: "operator_at s = Some (op, rest)"
  then have s: "s \<noteq> []" and rest: "rest = dropWhile is_space (drop 2 (dropWhile is_space s))"
    and t: "drop 2 (dropWhile is_space s) \<noteq> []"
    by (auto simp: operator_at_def Let_def split: if_splits)
  have "length rest \<le> length (drop 2 (dropWhile is_space s))"
    unfolding rest by (rule length_dropWhile_le)
  also have "\<dots> < length (dropWhile is_space s)"
    using t by simp
  also have "\<dots> \<le> length s"
    by (rule length_dropWhile_le)
  finally show ?thesis .
qed

function split_condition :: "string \<Rightarrow> string \<Rightarrow> string list" where
  "split_condition acc [] = [rev acc]"
| "split_condition acc (c # cs) =
     (case operator_at (c # cs) of
        Some (op, rest) \<Rightarrow> rev acc # op # split_condition [] rest
      | None \<Rightarrow> split_condition (c # acc) cs)"
  by pat_completeness auto

termination
  by (relation "measure (\<lambda>(acc, s). length s)") (auto dest: operator_at_shorter)

fun eval_tokens :: "kb_context \<Rightarrow> bool \<Rightarrow> string \<Rightarrow> string list \<Rightarrow> bool" where
  "eval_tokens ctx result operator [] = result"
| "eval_tokens ctx result operator (token # tokens) =
     (if token = ''&&'' \<or> token = ''||'' then eval_tokens ctx result token tokens
      else let negated = starts_with token ''!'';
               key = (if negated then drop 1 token else token);
               value = (context_value ctx key \<noteq> negated)
           in eval_tokens ctx (if operator = ''&&'' then result \<and> value else result \<or> value) operator tokens)"

definition evaluateCondition :: "string \<Rightarrow> kb_context \<Rightarrow> bool" where
  "evaluateCondition condition ctx =
     (condition = [] \<or> eval_tokens ctx True ''&&'' (split_condition [] condition))"


section \<open>The manager\<close>

record keybinding =
  kb_id :: string
  kb_key :: string
  kb_command :: string
  kb_when :: "string option"
  kb_description :: "string option"
  kb_category :: "string option"

datatype chord_timer = ForgetChord | RunPending

text \<open>
  \<open>chordTimeout\<close> is the armed timer, of the one kind or the other. The platform and the collation
  are fixed when the manager is made.
\<close>

record kb_manager =
  km_collate :: "string \<Rightarrow> string \<Rightarrow> bool"
  km_isMac :: bool
  km_bindings :: "keybinding list obj"
  km_commands :: "nat obj"
  km_context :: kb_context
  km_chordState :: "string option"
  km_chordTimeout :: "chord_timer option"
  km_pendingCommand :: "nat option"
  km_listeners :: "nat list"
  km_ran :: "nat list"
  km_notified :: "nat list"

definition new_manager :: "(string \<Rightarrow> string \<Rightarrow> bool) \<Rightarrow> bool \<Rightarrow> kb_manager" where
  "new_manager collate isMac =
     \<lparr>km_collate = collate, km_isMac = isMac, km_bindings = [], km_commands = [],
      km_context = \<lparr>kc_editorFocus = False, kc_terminalFocus = False, kc_sidebarFocus = False,
        kc_inputFocus = False, kc_modalOpen = False, kc_quickOpenOpen = False,
        kc_commandPaletteOpen = False\<rparr>,
      km_chordState = None, km_chordTimeout = None, km_pendingCommand = None, km_listeners = [],
      km_ran = [], km_notified = []\<rparr>"

definition notifyListeners :: "kb_manager \<Rightarrow> kb_manager" where
  "notifyListeners m = m\<lparr>km_notified := km_notified m @ km_listeners m\<rparr>"

definition registerKeybinding :: "keybinding \<Rightarrow> kb_manager \<Rightarrow> kb_manager" where
  "registerKeybinding binding m =
     (let normalizedKey = normalizeKey (km_collate m) (kb_key binding);
          existing = bucket (km_bindings m) normalizedKey;
          filtered = filter (\<lambda>b. kb_command b \<noteq> kb_command binding) existing
      in notifyListeners (m\<lparr>km_bindings := AList.update normalizedKey
           (filtered @ [binding\<lparr>kb_key := normalizedKey\<rparr>]) (km_bindings m)\<rparr>))"

definition registerKeybindings :: "keybinding list \<Rightarrow> kb_manager \<Rightarrow> kb_manager" where
  "registerKeybindings bindings = fold registerKeybinding bindings"

definition unregisterKeybinding :: "string \<Rightarrow> kb_manager \<Rightarrow> kb_manager" where
  "unregisterKeybinding i m =
     notifyListeners (m\<lparr>km_bindings :=
       filter (\<lambda>e. snd e \<noteq> [])
         (map (\<lambda>e. (fst e, filter (\<lambda>b. kb_id b \<noteq> i) (snd e))) (km_bindings m))\<rparr>)"

definition clearAllKeybindings :: "kb_manager \<Rightarrow> kb_manager" where
  "clearAllKeybindings m = notifyListeners (m\<lparr>km_bindings := []\<rparr>)"

definition registerCommand :: "string \<Rightarrow> nat \<Rightarrow> kb_manager \<Rightarrow> kb_manager" where
  "registerCommand command handler m = m\<lparr>km_commands := AList.update command handler (km_commands m)\<rparr>"

definition unregisterCommand :: "string \<Rightarrow> kb_manager \<Rightarrow> kb_manager" where
  "unregisterCommand command m = m\<lparr>km_commands := AList.delete command (km_commands m)\<rparr>"

definition run_handler :: "nat \<Rightarrow> kb_manager \<Rightarrow> kb_manager" where
  "run_handler handler m = m\<lparr>km_ran := km_ran m @ [handler]\<rparr>"

definition executeCommand :: "string \<Rightarrow> kb_manager \<Rightarrow> kb_manager" where
  "executeCommand command m =
     (case map_of (km_commands m) command of None \<Rightarrow> m | Some handler \<Rightarrow> run_handler handler m)"

definition setContext :: "(kb_context \<Rightarrow> kb_context) \<Rightarrow> kb_manager \<Rightarrow> kb_manager" where
  "setContext updates m = m\<lparr>km_context := updates (km_context m)\<rparr>"

text \<open>Where the focus went: the flags the DOM look-ups give.\<close>

record focus_target =
  ft_isInput :: bool
  ft_isEditor :: bool
  ft_isTerminal :: bool
  ft_isSidebar :: bool

definition handleFocusIn :: "focus_target \<Rightarrow> kb_manager \<Rightarrow> kb_manager" where
  "handleFocusIn t =
     setContext (\<lambda>c. c\<lparr>kc_inputFocus := ft_isInput t \<and> \<not> ft_isEditor t, kc_editorFocus := ft_isEditor t,
       kc_terminalFocus := ft_isTerminal t, kc_sidebarFocus := ft_isSidebar t\<rparr>)"

text \<open>The timer of \<open>handleFocusOut\<close>: \<open>nowhere\<close> says that nothing but the body has the focus.\<close>

definition focus_lost :: "bool \<Rightarrow> kb_manager \<Rightarrow> kb_manager" where
  "focus_lost nowhere m =
     (if nowhere
      then setContext (\<lambda>c. c\<lparr>kc_inputFocus := False, kc_editorFocus := False,
             kc_terminalFocus := False, kc_sidebarFocus := False\<rparr>) m
      else m)"

definition isChordStarter :: "string \<Rightarrow> kb_manager \<Rightarrow> bool" where
  "isChordStarter key m = (\<exists>e \<in> set (km_bindings m). starts_with (fst e) (key @ '' ''))"

definition clearChord :: "kb_manager \<Rightarrow> kb_manager" where
  "clearChord m = m\<lparr>km_chordState := None, km_pendingCommand := None, km_chordTimeout := None\<rparr>"

definition startChord :: "string \<Rightarrow> kb_manager \<Rightarrow> kb_manager" where
  "startChord key m = m\<lparr>km_chordState := Some key, km_chordTimeout := Some ForgetChord\<rparr>"

definition startChordWithPendingCommand :: "string \<Rightarrow> nat \<Rightarrow> kb_manager \<Rightarrow> kb_manager" where
  "startChordWithPendingCommand key command m =
     m\<lparr>km_chordState := Some key, km_pendingCommand := Some command, km_chordTimeout := Some RunPending\<rparr>"

definition chord_timeout :: "kb_manager \<Rightarrow> kb_manager" where
  "chord_timeout m =
     (case km_chordTimeout m of
        None \<Rightarrow> m
      | Some ForgetChord \<Rightarrow> clearChord m
      | Some RunPending \<Rightarrow>
          clearChord (case km_pendingCommand m of None \<Rightarrow> m | Some h \<Rightarrow> run_handler h m))"

definition globalCommands :: "string list" where
  "globalCommands = [''quickOpen.toggle'', ''commandPalette.toggle'', ''terminal.toggle'', ''sidebar.toggle'']"

text \<open>Whether the loop over the bindings of the key gets as far as the look-up of the handler.\<close>

definition applies :: "kb_context \<Rightarrow> bool \<Rightarrow> keybinding \<Rightarrow> bool" where
  "applies ctx isInput b =
     ((truthy (kb_when b) \<longrightarrow> evaluateCondition (the (kb_when b)) ctx) \<and>
      (isInput \<and> \<not> (case kb_when b of None \<Rightarrow> False | Some w \<Rightarrow> has_substring w ''!inputFocus'') \<longrightarrow>
       kb_command b \<in> set globalCommands))"

definition find_handler :: "kb_manager \<Rightarrow> bool \<Rightarrow> keybinding list \<Rightarrow> nat option" where
  "find_handler m isInput bs =
     (case List.map_filter (\<lambda>b. if applies (km_context m) isInput b
             then map_of (km_commands m) (kb_command b) else None) bs of
        [] \<Rightarrow> None
      | h # _ \<Rightarrow> Some h)"

definition handleKeyDown :: "bool \<Rightarrow> bool \<Rightarrow> key_event \<Rightarrow> kb_manager \<Rightarrow> kb_manager" where
  "handleKeyDown isInTerminal isInput event m =
     (if isInTerminal \<and> ke_key event \<noteq> ''Escape'' then m
      else let keyString = eventToKeyString (km_collate m) (km_isMac m) event
      in if keyString = [] \<or> keyString = ''mod'' \<or> keyString = ''shift'' then m
      else let fullKey = (if truthy (km_chordState m) then the (km_chordState m) @ '' '' @ keyString else keyString);
               m' = (if truthy (km_chordState m) then clearChord m else m);
               normalizedKey = normalizeKey (km_collate m) fullKey;
               starter = (isChordStarter normalizedKey m' \<and> \<not> truthy (km_chordState m'))
           in case find_handler m' isInput (bucket (km_bindings m') normalizedKey) of
                Some handler \<Rightarrow>
                  if starter then startChordWithPendingCommand normalizedKey handler m'
                  else run_handler handler m'
              | None \<Rightarrow> if starter then startChord normalizedKey m' else m')"

definition getAllKeybindings :: "kb_manager \<Rightarrow> keybinding list" where
  "getAllKeybindings m = concat (map snd (km_bindings m))"

definition getKeybindingForCommand :: "string \<Rightarrow> kb_manager \<Rightarrow> keybinding option" where
  "getKeybindingForCommand command m = find (\<lambda>b. kb_command b = command) (getAllKeybindings m)"

definition kb_subscribe :: "nat \<Rightarrow> kb_manager \<Rightarrow> kb_manager" where
  "kb_subscribe listener m = m\<lparr>km_listeners :=
     (if listener \<in> set (km_listeners m) then km_listeners m else km_listeners m @ [listener])\<rparr>"

definition kb_unsubscribe :: "nat \<Rightarrow> kb_manager \<Rightarrow> kb_manager" where
  "kb_unsubscribe listener m = m\<lparr>km_listeners := filter (\<lambda>l. l \<noteq> listener) (km_listeners m)\<rparr>"

section \<open>As a machine\<close>

datatype kb_event =
    RegisterKeybinding keybinding
  | RegisterKeybindings "keybinding list"
  | UnregisterKeybinding string
  | ClearAllKeybindings
  | RegisterCommand string nat
  | UnregisterCommand string
  | ExecuteCommand string
  | SetContext "kb_context \<Rightarrow> kb_context"
  | FocusIn focus_target
  | FocusLost bool
  | KeyDown bool bool key_event
  | ChordTimeout
  | Subscribe nat
  | Unsubscribe nat

fun kb_step :: "kb_event \<Rightarrow> kb_manager \<Rightarrow> kb_manager" where
  "kb_step (RegisterKeybinding b) m = registerKeybinding b m"
| "kb_step (RegisterKeybindings bs) m = registerKeybindings bs m"
| "kb_step (UnregisterKeybinding i) m = unregisterKeybinding i m"
| "kb_step ClearAllKeybindings m = clearAllKeybindings m"
| "kb_step (RegisterCommand c h) m = registerCommand c h m"
| "kb_step (UnregisterCommand c) m = unregisterCommand c m"
| "kb_step (ExecuteCommand c) m = executeCommand c m"
| "kb_step (SetContext f) m = setContext f m"
| "kb_step (FocusIn t) m = handleFocusIn t m"
| "kb_step (FocusLost n) m = focus_lost n m"
| "kb_step (KeyDown t i e) m = handleKeyDown t i e m"
| "kb_step ChordTimeout m = chord_timeout m"
| "kb_step (Subscribe l) m = kb_subscribe l m"
| "kb_step (Unsubscribe l) m = kb_unsubscribe l m"


section \<open>Normal forms of keys\<close>

lemma set_insert_by [simp]: "set (insert_by le x xs) = insert x (set xs)"
  by (induction xs) auto

lemma mset_insert_by [simp]: "mset (insert_by le x xs) = add_mset x (mset xs)"
  by (induction xs) auto

lemma mset_sort_by [simp]: "mset (sort_by le xs) = mset xs"
  by (induction xs) (simp_all add: sort_by_def)

lemma set_sort_by [simp]: "set (sort_by le xs) = set xs"
  by (rule mset_eq_setD [OF mset_sort_by])

lemma sorted_insert_by:
  assumes "\<And>a b. le a b \<or> le b a" "\<And>a b c. le a b \<Longrightarrow> le b c \<Longrightarrow> le a c"
  shows "sorted_wrt le xs \<Longrightarrow> sorted_wrt le (insert_by le x xs)"
proof (induction xs)
  case (Cons y ys)
  then have y: "\<forall>z \<in> set ys. le y z" and ys: "sorted_wrt le (insert_by le x ys)" "sorted_wrt le ys"
    by simp_all
  show ?case
  proof (cases "le x y")
    case True
    with y assms(2) have "\<forall>z \<in> set ys. le x z" by blast
    with True y ys show ?thesis by simp
  next
    case False
    with assms(1) have "le y x" by blast
    with False y ys show ?thesis by simp
  qed
qed simp

lemma sorted_sort_by:
  assumes "\<And>a b. le a b \<or> le b a" "\<And>a b c. le a b \<Longrightarrow> le b c \<Longrightarrow> le a c"
  shows "sorted_wrt le (sort_by le xs)"
  by (induction xs) (simp_all add: sort_by_def sorted_insert_by [of le, OF assms])

lemma sorted_wrt_unique:
  assumes "\<And>a b. le a b \<Longrightarrow> le b a \<Longrightarrow> a = b"
  shows "sorted_wrt le xs \<Longrightarrow> sorted_wrt le ys \<Longrightarrow> mset xs = mset ys \<Longrightarrow> xs = ys"
proof (induction xs arbitrary: ys)
  case (Cons x xs)
  then obtain y ys' where ys: "ys = y # ys'" by (cases ys) auto
  have "x \<in> set ys" "y \<in> set (x # xs)"
    using Cons.prems(3) ys by (metis list.set_intros(1) mset_eq_setD)+
  then have "x = y"
    using Cons.prems(1,2) ys assms by auto
  with Cons ys show ?case by auto
qed simp

lemma modOrder_index: "indexOf a modOrder \<noteq> -1 \<longleftrightarrow> a \<in> set modOrder"
proof -
  have "indexOf a modOrder < 0 \<longleftrightarrow> a \<notin> set modOrder"
    unfolding indexOf_def findIndex_neg_iff by blast
  moreover have "-1 \<le> indexOf a modOrder"
    using findIndex_bounds [of "\<lambda>y. y = a" modOrder] by (simp add: indexOf_def)
  ultimately show ?thesis by auto
qed

lemma modOrder_inj:
  assumes "a \<in> set modOrder" "b \<in> set modOrder" "indexOf a modOrder = indexOf b modOrder"
  shows "a = b"
  by (metis assms indexOf_mem)

text \<open>A comparison by rank, and by another one where there is none.\<close>

lemma ranked_trans:
  fixes r :: "'a \<Rightarrow> int"
  assumes "if M a then \<not> M b \<or> r a \<le> r b else \<not> M b \<and> le a b"
    and "if M b then \<not> M c \<or> r b \<le> r c else \<not> M c \<and> le b c"
    and "le a b \<Longrightarrow> le b c \<Longrightarrow> le a c"
  shows "if M a then \<not> M c \<or> r a \<le> r c else \<not> M c \<and> le a c"
  using assms by (auto split: if_splits)

locale collation =
  fixes collate :: "string \<Rightarrow> string \<Rightarrow> bool"
  assumes linear: "collate a b \<or> collate b a"
    and transitive: "collate a b \<Longrightarrow> collate b c \<Longrightarrow> collate a c"
    and antisymmetric: "collate a b \<Longrightarrow> collate b a \<Longrightarrow> a = b"
begin

lemma part_le_iff:
  "part_le collate a b \<longleftrightarrow>
     (if a \<in> set modOrder then b \<notin> set modOrder \<or> indexOf a modOrder \<le> indexOf b modOrder
      else b \<notin> set modOrder \<and> collate a b)"
  unfolding part_le_def Let_def modOrder_index by simp

lemma part_le_linear: "part_le collate a b \<or> part_le collate b a"
  unfolding part_le_iff using linear [of a b]
  by (cases "a \<in> set modOrder"; cases "b \<in> set modOrder") auto

lemma part_le_trans: "part_le collate a b \<Longrightarrow> part_le collate b c \<Longrightarrow> part_le collate a c"
  unfolding part_le_iff by (rule ranked_trans [of "\<lambda>x. x \<in> set modOrder" a b _ _ c, OF _ _ transitive])

lemma part_le_antisym: "part_le collate a b \<Longrightarrow> part_le collate b a \<Longrightarrow> a = b"
  unfolding part_le_iff by (metis antisymmetric modOrder_inj order_antisym)

lemma sort_parts_unique: "mset ps = mset qs \<Longrightarrow> sort_parts collate ps = sort_parts collate qs"
  unfolding sort_parts_def
  by (rule arg_cong [of _ _ join_plus], rule sorted_wrt_unique [of "part_le collate"])
    (simp_all add: part_le_antisym sorted_sort_by [of "part_le collate", OF part_le_linear part_le_trans])

lemma order_of_parts:
  "mset (split_char (CHR ''+'') (clean_key k)) = mset (split_char (CHR ''+'') (clean_key k')) \<Longrightarrow>
   normalizeKey collate k = normalizeKey collate k'"
  unfolding normalizeKey_def by (rule sort_parts_unique)

end

interpretation code_units: collation "(\<le>) :: string \<Rightarrow> string \<Rightarrow> bool"
  by unfold_locales auto

section \<open>No key holds white space\<close>

lemma split_char_subset: "p \<in> set (split_char d s) \<Longrightarrow> set p \<subseteq> set s"
proof (induction s arbitrary: p)
  case (Cons c s)
  obtain q qs where q: "split_char d s = q # qs"
    by (cases "split_char d s") auto
  have "set q \<subseteq> set s" "\<forall>r \<in> set qs. set r \<subseteq> set s"
    using Cons.IH q by auto
  with Cons.prems q show ?case
    by (auto split: if_splits)
qed simp

lemma set_join_plus: "set (join_plus ps) \<subseteq> insert (CHR ''+'') (\<Union>p \<in> set ps. set p)"
  by (induction ps rule: join_plus.induct) auto

definition blank :: "string \<Rightarrow> bool" where
  "blank s \<longleftrightarrow> (\<exists>c \<in> set s. is_space c)"

lemma normalizeKey_no_blank: "\<not> blank (normalizeKey collate k)"
proof -
  have "\<not> is_space (CHR ''+'')"
    by (simp add: is_space_def code_def)
  moreover have "set (normalizeKey collate k) \<subseteq> insert (CHR ''+'') (set (clean_key k))"
    using set_join_plus [of "sort_by (part_le collate) (split_char (CHR ''+'') (clean_key k))"]
      split_char_subset [of _ "CHR ''+''" "clean_key k"]
    by (auto simp: normalizeKey_def sort_parts_def)
  ultimately show ?thesis
    by (auto simp: blank_def clean_key_def)
qed

lemma prefix_blank: "starts_with k (key @ '' '') \<Longrightarrow> blank k"
  by (auto simp: starts_with_iff blank_def is_space_def code_def)

section \<open>The invariant\<close>

definition entry_ok :: "string \<times> keybinding list \<Rightarrow> bool" where
  "entry_ok e \<longleftrightarrow> \<not> blank (fst e) \<and> snd e \<noteq> [] \<and> (\<forall>b \<in> set (snd e). kb_key b = fst e) \<and>
     distinct (map kb_command (snd e))"

definition bindings_ok :: "keybinding list obj \<Rightarrow> bool" where
  "bindings_ok m \<longleftrightarrow> obj_ok m \<and> (\<forall>e \<in> set m. entry_ok e)"

definition manager_ok :: "kb_manager \<Rightarrow> bool" where
  "manager_ok m \<longleftrightarrow> bindings_ok (km_bindings m) \<and> km_chordState m = None \<and>
     km_chordTimeout m = None \<and> km_pendingCommand m = None"

lemma no_chord_starter: "bindings_ok (km_bindings m) \<Longrightarrow> \<not> isChordStarter key m"
  using prefix_blank unfolding bindings_ok_def entry_ok_def isChordStarter_def by blast

lemma bindings_bucket:
  assumes "bindings_ok m"
  shows "\<forall>b \<in> set (bucket m k). kb_key b = k" "distinct (map kb_command (bucket m k))"
proof -
  have "bucket m k = [] \<or> entry_ok (k, bucket m k)"
    using assms by (auto simp: bindings_ok_def bucket_def split: option.splits dest!: map_of_SomeD)
  then show "\<forall>b \<in> set (bucket m k). kb_key b = k" "distinct (map kb_command (bucket m k))"
    by (auto simp: entry_ok_def)
qed

lemma distinct_map_filter_key: "distinct (map f xs) \<Longrightarrow> distinct (map f (filter P xs))"
  by (induction xs) auto

lemma set_update_cases: "e \<in> set (AList.update k v m) \<Longrightarrow> e = (k, v) \<or> e \<in> set m"
  by (induction m) (auto split: if_splits)

lemma bindings_ok_update: "bindings_ok m \<Longrightarrow> entry_ok (k, bs) \<Longrightarrow> bindings_ok (AList.update k bs m)"
proof -
  assume m: "bindings_ok m" and e: "entry_ok (k, bs)"
  have "entry_ok x" if "x \<in> set (AList.update k bs m)" for x
    using set_update_cases [OF that] m e by (auto simp: bindings_ok_def)
  with m show ?thesis by (simp add: bindings_ok_def)
qed

lemma register_ok:
  assumes "manager_ok m"
  shows "manager_ok (registerKeybinding b m)"
proof -
  let ?k = "normalizeKey (km_collate m) (kb_key b)"
  let ?bs = "filter (\<lambda>c. kb_command c \<noteq> kb_command b) (bucket (km_bindings m) ?k) @ [b\<lparr>kb_key := ?k\<rparr>]"
  have ok: "bindings_ok (km_bindings m)"
    using assms by (simp add: manager_ok_def)
  have "entry_ok (?k, ?bs)"
    using bindings_bucket [OF ok, of ?k] normalizeKey_no_blank
    by (auto simp: entry_ok_def distinct_map_filter_key)
  with ok have "bindings_ok (AList.update ?k ?bs (km_bindings m))"
    by (rule bindings_ok_update)
  with assms show ?thesis
    by (simp add: manager_ok_def registerKeybinding_def notifyListeners_def Let_def)
qed

lemma registers_ok: "manager_ok m \<Longrightarrow> manager_ok (registerKeybindings bs m)"
  unfolding registerKeybindings_def by (induction bs arbitrary: m) (auto intro: register_ok)

lemma unregister_ok: "manager_ok m \<Longrightarrow> manager_ok (unregisterKeybinding i m)"
proof -
  assume m: "manager_ok m"
  let ?g = "\<lambda>e. (fst e, filter (\<lambda>b. kb_id b \<noteq> i) (snd e))"
  let ?m = "filter (\<lambda>e. snd e \<noteq> []) (map ?g (km_bindings m))"
  have "obj_ok ?m"
    using m by (intro distinct_map_filter_key) (simp add: manager_ok_def bindings_ok_def comp_def)
  moreover have "entry_ok (?g e)" if "entry_ok e" "snd (?g e) \<noteq> []" for e
    using that by (simp add: entry_ok_def distinct_map_filter_key)
  ultimately have "bindings_ok ?m"
    using m by (auto simp: manager_ok_def bindings_ok_def)
  with m show ?thesis
    by (simp add: manager_ok_def unregisterKeybinding_def notifyListeners_def)
qed

lemma keydown_ok: "manager_ok m \<Longrightarrow> manager_ok (handleKeyDown t i e m)"
  using no_chord_starter [of m]
  by (auto simp: handleKeyDown_def manager_ok_def Let_def run_handler_def split: option.splits)

lemma kb_step_ok: "manager_ok m \<Longrightarrow> manager_ok (kb_step e m)"
  by (cases e) (auto intro: register_ok registers_ok unregister_ok keydown_ok,
    auto simp: manager_ok_def bindings_ok_def clearAllKeybindings_def notifyListeners_def registerCommand_def
      unregisterCommand_def executeCommand_def run_handler_def setContext_def handleFocusIn_def focus_lost_def
      chord_timeout_def kb_subscribe_def kb_unsubscribe_def split: option.splits)

lemma new_manager_ok: "manager_ok (new_manager collate isMac)"
  by (simp add: manager_ok_def bindings_ok_def new_manager_def)

interpretation keybindings: machine kb_step "\<lambda>e m. True" manager_ok "new_manager collate isMac" for collate isMac
  by unfold_locales (auto intro: kb_step_ok new_manager_ok)

section \<open>Properties\<close>

text \<open>
  No chord is ever started: normal forms hold no white space, so no binding looks like the
  continuation of a key, and the two-key bindings of the default table can never be reached.
\<close>

theorem chords_never_start:
  "km_chordState (fold kb_step es (new_manager collate isMac)) = None \<and>
   \<not> isChordStarter key (fold kb_step es (new_manager collate isMac))"
proof -
  have "manager_ok (fold kb_step es (new_manager collate isMac))"
    by (rule keybindings.inv_history) simp
  then show ?thesis
    by (simp add: manager_ok_def no_chord_starter)
qed

text \<open>The order in which the parts of a key are written does not matter.\<close>

theorem modifier_order_irrelevant:
  assumes "\<And>a b. collate a b \<or> collate b a" "\<And>a b c. collate a b \<Longrightarrow> collate b c \<Longrightarrow> collate a c"
    and "\<And>a b. collate a b \<Longrightarrow> collate b a \<Longrightarrow> a = b"
    and "mset (split_char (CHR ''+'') (clean_key k)) = mset (split_char (CHR ''+'') (clean_key k'))"
  shows "normalizeKey collate k = normalizeKey collate k'"
proof (rule collation.order_of_parts)
  show "collation collate"
    by (rule collation.intro) (fact assms(1), fact assms(2), fact assms(3))
qed (fact assms(4))

lemma fixed_step [simp]: "km_collate (kb_step e m) = km_collate m" "km_isMac (kb_step e m) = km_isMac m"
proof -
  have reg: "km_collate (registerKeybindings bs m) = km_collate m \<and> km_isMac (registerKeybindings bs m) = km_isMac m" for bs
    unfolding registerKeybindings_def
    by (induction bs arbitrary: m) (simp_all add: registerKeybinding_def notifyListeners_def Let_def)
  show "km_collate (kb_step e m) = km_collate m" "km_isMac (kb_step e m) = km_isMac m"
    by (cases e; simp add: reg registerKeybinding_def unregisterKeybinding_def clearAllKeybindings_def
        notifyListeners_def registerCommand_def unregisterCommand_def executeCommand_def run_handler_def
        setContext_def handleFocusIn_def focus_lost_def handleKeyDown_def clearChord_def startChord_def
        startChordWithPendingCommand_def chord_timeout_def kb_subscribe_def kb_unsubscribe_def Let_def
        split: option.splits chord_timer.splits)+
qed

lemma fixed_history [simp]:
  "km_collate (fold kb_step es (new_manager collate isMac)) = collate"
  "km_isMac (fold kb_step es (new_manager collate isMac)) = isMac"
proof -
  have "km_collate (fold kb_step es m) = km_collate m \<and> km_isMac (fold kb_step es m) = km_isMac m" for m
    by (induction es arbitrary: m) simp_all
  then show "km_collate (fold kb_step es (new_manager collate isMac)) = collate"
    "km_isMac (fold kb_step es (new_manager collate isMac)) = isMac"
    by (simp_all add: new_manager_def)
qed


section \<open>Examples\<close>



lemmas key_defs = normalizeKey_def clean_key_def to_lower_def lower_char_def code_def is_space_def
  sort_parts_def sort_by_def part_le_def modOrder_def indexOf_def Let_def

lemma ex_clean: "clean_key ''Shift+Cmd+P'' = ''shift+mod+p''" "clean_key ''mod+shift+p'' = ''mod+shift+p''"
  "clean_key ''meta+p'' = ''mod+p''" "clean_key ''mod+p'' = ''mod+p''"
  by code_simp+



theorem modifier_order_irrelevant_witness:
  "normalizeKey (\<le>) ''Shift+Cmd+P'' = normalizeKey (\<le>) ''mod+shift+p''"
  by (rule modifier_order_irrelevant) (auto simp: ex_clean)


text \<open>
  On a platform other than the Mac the Meta (Windows) key is a part of its own, which normalizing
  turns into \<open>mod\<close>: it triggers the shortcuts of the Ctrl key.
\<close>

lemma meta_key_acts_as_mod:
  "normalizeKey (\<le>) (eventToKeyString (\<le>) False
     \<lparr>ke_ctrlKey = False, ke_metaKey = True, ke_altKey = False, ke_shiftKey = False, ke_key = ''p''\<rparr>) =
   normalizeKey (\<le>) ''mod+p''"
  by code_simp

text \<open>Operators have no precedence: conditions are read from left to right.\<close>

lemma condition_left_to_right:
  "\<not> evaluateCondition ''editorFocus || terminalFocus && modalOpen''
     ((km_context (new_manager (\<le>) False))\<lparr>kc_editorFocus := True\<rparr>)"
  by (simp add: evaluateCondition_def operator_at_def is_space_def code_def context_value_def new_manager_def Let_def)

end
