(* ===== verification/Parallel.thy ===== *)
theory Parallel
  imports Prelude Machines
begin

text \<open>
  \<open>parallelLimit\<close> and \<open>withTimeout\<close> of \<open>apps/web/src/lib/async-utils.ts\<close>. \<open>parallelLimit\<close> starts
  workers that take the next item, call \<open>fn\<close> on it and wait; an event is the answer to one of
  these calls. An item may be \<open>undefined\<close>, which the loop skips. The array of results has holes
  until they are filled, and \<open>Promise.all\<close> settles with the first rejection or the last return.
\<close>

section \<open>The workers\<close>

text \<open>\<open>xs[i] = v\<close> on an array with holes.\<close>

definition put_at :: "nat \<Rightarrow> 'b \<Rightarrow> 'b option list \<Rightarrow> 'b option list" where
  "put_at i v xs =
     (if i < length xs then xs[i := Some v] else xs @ replicate (i - length xs) None @ [Some v])"

datatype worker = Waiting nat | Returned | Failed

datatype ('r, 'e) outcome = Running | Resolved "'r option list" | RejectedWith 'e

record ('a, 'r, 'e) pool =
  pl_items :: "'a option list"
  pl_index :: nat
  pl_results :: "'r option list"
  pl_workers :: "worker list"
  pl_calls :: "('a \<times> nat) list"
  pl_outcome :: "('r, 'e) outcome"

text \<open>The \<open>while\<close> loop up to the next call: the index of the next item that is there.\<close>

function next_item :: "'a option list \<Rightarrow> nat \<Rightarrow> (nat \<times> 'a) option" where
  "next_item items i =
     (if i < length items
      then (case items ! i of None \<Rightarrow> next_item items (Suc i) | Some x \<Rightarrow> Some (i, x))
      else None)"
  by pat_completeness auto

termination
  by (relation "measure (\<lambda>(items, i). length items - i)") auto

declare next_item.simps [simp del]

definition worker_loop :: "nat \<Rightarrow> ('a, 'r, 'e) pool \<Rightarrow> ('a, 'r, 'e) pool" where
  "worker_loop w p =
     (case next_item (pl_items p) (pl_index p) of
        None \<Rightarrow> p\<lparr>pl_index := max (pl_index p) (length (pl_items p)), pl_workers := (pl_workers p)[w := Returned]\<rparr>
      | Some (currentIndex, item) \<Rightarrow>
          p\<lparr>pl_index := Suc currentIndex, pl_workers := (pl_workers p)[w := Waiting currentIndex],
            pl_calls := pl_calls p @ [(item, currentIndex)]\<rparr>)"

text \<open>\<open>Promise.all(workers)\<close>, looked at again after each event.\<close>

definition all_workers :: "('a, 'r, 'e) pool \<Rightarrow> ('a, 'r, 'e) pool" where
  "all_workers p =
     (if pl_outcome p = Running \<and> (\<forall>w \<in> set (pl_workers p). w = Returned)
      then p\<lparr>pl_outcome := Resolved (pl_results p)\<rparr> else p)"

definition parallelLimit :: "'a option list \<Rightarrow> int \<Rightarrow> ('a, 'r, 'e) pool" where
  "parallelLimit items concurrency =
     (let n = nat (min concurrency (int (length items)))
      in all_workers (fold worker_loop [0..<n]
        \<lparr>pl_items = items, pl_index = 0, pl_results = [], pl_workers = replicate n Returned,
         pl_calls = [], pl_outcome = Running\<rparr>))"

text \<open>The call that worker \<open>w\<close> waits for is answered.\<close>

definition call_answered :: "nat \<Rightarrow> 'e + 'r \<Rightarrow> ('a, 'r, 'e) pool \<Rightarrow> ('a, 'r, 'e) pool" where
  "call_answered w answer p =
     (case pl_workers p ! w of
        Waiting currentIndex \<Rightarrow>
          (case answer of
             Inr v \<Rightarrow> all_workers (worker_loop w (p\<lparr>pl_results := put_at currentIndex v (pl_results p)\<rparr>))
           | Inl e \<Rightarrow> p\<lparr>pl_workers := (pl_workers p)[w := Failed],
               pl_outcome := if pl_outcome p = Running then RejectedWith e else pl_outcome p\<rparr>)
      | _ \<Rightarrow> p)"

text \<open>
  An event names the worker whose call is answered. \<open>fn item index\<close> is the answer of the call.
\<close>

definition pool_step :: "('a \<Rightarrow> nat \<Rightarrow> 'e + 'r) \<Rightarrow> nat \<Rightarrow> ('a, 'r, 'e) pool \<Rightarrow> ('a, 'r, 'e) pool" where
  "pool_step fn w p =
     (case pl_workers p ! w of
        Waiting i \<Rightarrow> call_answered w (fn (the (pl_items p ! i)) i) p
      | _ \<Rightarrow> p)"

definition pool_guard :: "nat \<Rightarrow> ('a, 'r, 'e) pool \<Rightarrow> bool" where
  "pool_guard w p \<longleftrightarrow> w < length (pl_workers p) \<and> (\<exists>i. pl_workers p ! w = Waiting i)"

section \<open>Racing against a timer\<close>

text \<open>
  What happens to the promise and to the timer, in order. The result is what settles first; the
  timer is cleared then, so it cannot fire afterwards.
\<close>

datatype ('r, 'e) race_event = PromiseSettled "'e + 'r" | TimerFired

datatype 'e timeout_error = TimedOut string | PromiseError 'e

fun withTimeout :: "string \<Rightarrow> ('r, 'e) race_event list \<Rightarrow> ('e timeout_error + 'r) option" where
  "withTimeout timeoutMessage [] = None"
| "withTimeout timeoutMessage (TimerFired # es) = Some (Inl (TimedOut timeoutMessage))"
| "withTimeout timeoutMessage (PromiseSettled (Inr v) # es) = Some (Inr v)"
| "withTimeout timeoutMessage (PromiseSettled (Inl e) # es) = Some (Inl (PromiseError e))"

section \<open>The invariant\<close>

definition slot :: "'b option list \<Rightarrow> nat \<Rightarrow> 'b option" where
  "slot xs i = (if i < length xs then xs ! i else None)"

lemma slot_put_at: "slot (put_at i v xs) j = (if j = i then Some v else slot xs j)"
  by (auto simp: slot_def put_at_def nth_append nth_Cons')

lemma length_put_at: "length (put_at i v xs) = max (length xs) (Suc i)"
  by (simp add: put_at_def)

definition result_of :: "'e + 'r \<Rightarrow> 'r option" where
  "result_of a = (case a of Inl _ \<Rightarrow> None | Inr v \<Rightarrow> Some v)"

lemma result_of_simps [simp]: "result_of (Inl e) = None" "result_of (Inr v) = Some v"
  by (simp_all add: result_of_def)

definition waits :: "worker list \<Rightarrow> nat \<Rightarrow> bool" where
  "waits ws i \<longleftrightarrow> Waiting i \<in> set ws"

definition settled :: "'a option list \<Rightarrow> nat \<Rightarrow> worker list \<Rightarrow> nat \<Rightarrow> 'a \<Rightarrow> bool" where
  "settled items index ws i x \<longleftrightarrow> i < index \<and> slot items i = Some x \<and> \<not> waits ws i"

text \<open>The calls of the first \<open>n\<close> items, in order.\<close>

definition calls_upto :: "'a option list \<Rightarrow> nat \<Rightarrow> ('a \<times> nat) list" where
  "calls_upto items n = concat (map (\<lambda>i. case items ! i of None \<Rightarrow> [] | Some x \<Rightarrow> [(x, i)]) [0..<n])"

lemma next_item_Some:
  "next_item items i = Some (j, x) \<Longrightarrow>
   i \<le> j \<and> j < length items \<and> items ! j = Some x \<and> (\<forall>k \<in> {i..<j}. items ! k = None)"
proof (induction items i rule: next_item.induct)
  case (1 items i)
  show ?case
  proof (cases "i < length items \<and> items ! i = None")
    case True
    then have "next_item items (Suc i) = Some (j, x)"
      using "1.prems" by (simp add: next_item.simps [of items i])
    with "1.IH" True have IH: "Suc i \<le> j \<and> j < length items \<and> items ! j = Some x \<and> (\<forall>k \<in> {Suc i..<j}. items ! k = None)"
      by simp
    moreover have "items ! k = None" if "k \<in> {i..<j}" for k
      using that True IH by (cases "k = i") auto
    ultimately show ?thesis by simp
  next
    case False
    with "1.prems" show ?thesis
      by (auto simp: next_item.simps [of items i] split: if_splits option.splits)
  qed
qed

lemma next_item_None: "next_item items i = None \<Longrightarrow> i \<le> k \<Longrightarrow> k < length items \<Longrightarrow> items ! k = None"
proof (induction items i rule: next_item.induct)
  case (1 items i)
  then have i: "i < length items" "items ! i = None" "next_item items (Suc i) = None"
    by (auto simp: next_item.simps [of items i] split: option.splits)
  with 1 show ?case by (cases "k = i") auto
qed

lemma calls_skip:
  "n \<le> m \<Longrightarrow> \<forall>k \<in> {n..<m}. items ! k = None \<Longrightarrow> calls_upto items m = calls_upto items n"
proof (induction m)
  case (Suc m)
  then show ?case
    by (cases "n = Suc m") (auto simp: calls_upto_def)
qed (simp add: calls_upto_def)

text \<open>
  A worker that has returned found no item left, except the idle ones, which are about to enter
  the loop; no two workers wait for the same call; a worker waits for a call that was made; the
  array of results holds the answers of the calls that were answered.
\<close>

definition roles_ok :: "nat set \<Rightarrow> 'a option list \<Rightarrow> nat \<Rightarrow> worker list \<Rightarrow> bool" where
  "roles_ok idle items index ws \<longleftrightarrow>
     (\<forall>w < length ws. if w \<in> idle then ws ! w = Returned else ws ! w = Returned \<longrightarrow> index = length items)"

definition alone :: "worker list \<Rightarrow> bool" where
  "alone ws \<longleftrightarrow> (\<forall>v < length ws. \<forall>w < length ws. \<forall>i. ws ! v = Waiting i \<longrightarrow> ws ! w = Waiting i \<longrightarrow> v = w)"

definition waits_ok :: "'a option list \<Rightarrow> nat \<Rightarrow> worker list \<Rightarrow> bool" where
  "waits_ok items index ws \<longleftrightarrow> (\<forall>i. waits ws i \<longrightarrow> i < index \<and> slot items i \<noteq> None)"

definition results_ok ::
    "('a \<Rightarrow> nat \<Rightarrow> 'e + 'r) \<Rightarrow> 'a option list \<Rightarrow> nat \<Rightarrow> worker list \<Rightarrow> 'r option list \<Rightarrow> bool" where
  "results_ok fn items index ws rs \<longleftrightarrow> length rs \<le> length items \<and>
     (\<forall>i. slot rs i = (case slot items i of None \<Rightarrow> None
        | Some x \<Rightarrow> if settled items index ws i x then result_of (fn x i) else None))"

definition pool_core :: "('a \<Rightarrow> nat \<Rightarrow> 'e + 'r) \<Rightarrow> nat set \<Rightarrow> ('a, 'r, 'e) pool \<Rightarrow> bool" where
  "pool_core fn idle p \<longleftrightarrow>
     pl_index p \<le> length (pl_items p) \<and>
     pl_calls p = calls_upto (pl_items p) (pl_index p) \<and>
     roles_ok idle (pl_items p) (pl_index p) (pl_workers p) \<and> alone (pl_workers p) \<and>
     waits_ok (pl_items p) (pl_index p) (pl_workers p) \<and>
     results_ok fn (pl_items p) (pl_index p) (pl_workers p) (pl_results p)"

lemma slot_Some [simp]: "slot xs i = Some x \<longleftrightarrow> i < length xs \<and> xs ! i = Some x"
  by (simp add: slot_def)

lemma waiting_update:
  assumes "w < length ws" "ws ! w = Returned"
  shows "Waiting i \<in> set (ws[w := x]) \<longleftrightarrow> x = Waiting i \<or> Waiting i \<in> set ws"
proof
  assume "Waiting i \<in> set (ws[w := x])"
  then show "x = Waiting i \<or> Waiting i \<in> set ws"
    using set_update_subset_insert [of ws w x] by auto
next
  assume *: "x = Waiting i \<or> Waiting i \<in> set ws"
  show "Waiting i \<in> set (ws[w := x])"
  proof (cases "x = Waiting i")
    case True
    with assms(1) show ?thesis by (simp add: set_update_memI)
  next
    case False
    with * obtain v where "v < length ws" "ws ! v = Waiting i"
      by (auto simp: in_set_conv_nth)
    moreover have "v \<noteq> w"
      using calculation(2) assms(2) by auto
    ultimately have "v < length (ws[w := x]) \<and> ws[w := x] ! v = Waiting i"
      by simp
    then show ?thesis
      by (metis nth_mem)
  qed
qed

lemma idle_returned: "roles_ok idle items index ws \<Longrightarrow> w < length ws \<Longrightarrow> w \<in> idle \<Longrightarrow> ws ! w = Returned"
  by (auto simp: roles_ok_def)

lemma settled_skip:
  assumes "index \<le> j" "\<forall>k \<in> {index..<j}. items ! k = None"
  shows "settled items j ws i x = settled items index ws i x"
proof (cases "i < index")
  case False
  with assms(2) show ?thesis by (auto simp: settled_def)
qed (use assms(1) in \<open>simp add: settled_def\<close>)

text \<open>Taking the next item changes what is waited for, and nothing that was settled.\<close>

lemma settled_take:
  assumes "w < length ws" "ws ! w = Returned" "index \<le> j" "\<forall>k \<in> {index..<j}. items ! k = None"
  shows "settled items (Suc j) (ws[w := Waiting j]) i x = (settled items index ws i x \<and> i \<noteq> j)"
  using settled_skip [OF assms(3,4), of ws i x] waiting_update [OF assms(1,2), of i "Waiting j"]
  by (auto simp: settled_def waits_def less_Suc_eq)

lemma results_cong:
  "results_ok fn items index ws rs \<Longrightarrow> (\<And>i x. settled items index' ws' i x = settled items index ws i x) \<Longrightarrow>
   results_ok fn items index' ws' rs"
  by (simp add: results_ok_def cong: option.case_cong)

lemma take_roles:
  assumes "roles_ok idle items index ws" "w < length ws" "index \<noteq> length items"
  shows "roles_ok (idle - {w}) items (Suc j) (ws[w := Waiting j])"
  using assms by (auto simp: roles_ok_def nth_list_update)

lemma alone_update:
  assumes "alone ws" "\<And>i. x = Waiting i \<Longrightarrow> \<not> waits ws i"
  shows "alone (ws[w := x])"
proof -
  have "ws ! v \<noteq> Waiting i" if "v < length ws" "x = Waiting i" for v i
    using assms(2) that by (auto simp: waits_def dest: nth_mem)
  with assms(1) show ?thesis
    unfolding alone_def by (metis length_list_update nth_list_update_eq nth_list_update_neq)
qed

lemma worker_loop_core:
  assumes ok: "pool_core fn idle p" and w: "w < length (pl_workers p)" "w \<in> idle"
  shows "pool_core fn (idle - {w}) (worker_loop w p)"
    and "settled (pl_items p) (pl_index (worker_loop w p)) (pl_workers (worker_loop w p)) i x =
      settled (pl_items p) (pl_index p) (pl_workers p) i x"
proof -
  let ?items = "pl_items p" and ?index = "pl_index p" and ?ws = "pl_workers p"
  note core = ok [unfolded pool_core_def]
  have ret: "?ws ! w = Returned"
    using core w by (auto intro: idle_returned)
  have "pool_core fn (idle - {w}) (worker_loop w p) \<and>
    settled ?items (pl_index (worker_loop w p)) (pl_workers (worker_loop w p)) i x = settled ?items ?index ?ws i x"
  proof (cases "next_item ?items ?index")
    case None
    have gap: "\<forall>k \<in> {?index..<length ?items}. ?items ! k = None"
      using next_item_None [OF None] by simp
    have same: "?ws[w := Returned] = ?ws"
      using ret by (metis list_update_id)
    have eq: "worker_loop w p = p\<lparr>pl_index := length ?items, pl_workers := ?ws\<rparr>"
      using None core same by (simp add: worker_loop_def max_def)
    have s: "settled ?items (length ?items) ?ws i x = settled ?items ?index ?ws i x" for i x
      using core by (intro settled_skip gap) blast
    have "roles_ok (idle - {w}) ?items (length ?items) ?ws"
      using core by (auto simp: roles_ok_def)
    moreover have "waits_ok ?items (length ?items) ?ws"
      using core by (force simp: waits_ok_def)
    moreover have "results_ok fn ?items (length ?items) ?ws (pl_results p)"
      using core s by (blast intro: results_cong)
    ultimately show ?thesis
      using core s calls_skip [OF _ gap] unfolding eq pool_core_def by simp
  next
    case (Some jx)
    then obtain j y where jy: "next_item ?items ?index = Some (j, y)" by (cases jx) auto
    from next_item_Some [OF jy] have j: "?index \<le> j" "j < length ?items" "?items ! j = Some y"
      and gap: "\<forall>k \<in> {?index..<j}. ?items ! k = None" by auto
    have eq: "worker_loop w p = p\<lparr>pl_index := Suc j, pl_workers := ?ws[w := Waiting j], pl_calls := pl_calls p @ [(y, j)]\<rparr>"
      using jy by (simp add: worker_loop_def)
    have nj: "\<not> waits ?ws j"
      using core j(1) by (auto simp: waits_ok_def)
    have s: "settled ?items (Suc j) (?ws[w := Waiting j]) i x = settled ?items ?index ?ws i x" for i x
      using settled_take [OF w(1) ret j(1) gap] j(1) by (auto simp: settled_def)
    have "roles_ok (idle - {w}) ?items (Suc j) (?ws[w := Waiting j])"
      using core j w by (intro take_roles) auto
    moreover have "alone (?ws[w := Waiting j])"
      using core nj by (intro alone_update) auto
    moreover have "waits_ok ?items (Suc j) (?ws[w := Waiting j])"
      using core j waiting_update [OF w(1) ret] by (fastforce simp: waits_ok_def waits_def)
    moreover have "results_ok fn ?items (Suc j) (?ws[w := Waiting j]) (pl_results p)"
      using core s by (blast intro: results_cong)
    moreover have "pl_calls p @ [(y, j)] = calls_upto ?items (Suc j)"
      using core calls_skip [OF j(1) gap] j(3) by (simp add: calls_upto_def)
    ultimately show ?thesis
      using j s unfolding eq pool_core_def by simp
  qed
  then show "pool_core fn (idle - {w}) (worker_loop w p)"
    "settled ?items (pl_index (worker_loop w p)) (pl_workers (worker_loop w p)) i x = settled ?items ?index ?ws i x"
    by blast+
qed

text \<open>The answer frees the worker that waited for it.\<close>

lemma waits_freed:
  assumes "alone ws" "w < length ws" "ws ! w = Waiting j" "x = Returned \<or> x = Failed"
  shows "waits (ws[w := x]) i \<longleftrightarrow> waits ws i \<and> i \<noteq> j"
proof
  assume "waits (ws[w := x]) i"
  then obtain v where v: "v < length ws" "ws[w := x] ! v = Waiting i"
    by (auto simp: waits_def in_set_conv_nth)
  with assms(2,4) have "v \<noteq> w" by auto
  with v have "ws ! v = Waiting i" by simp
  with v(1) \<open>v \<noteq> w\<close> assms(1-3) show "waits ws i \<and> i \<noteq> j"
    by (auto simp: waits_def alone_def dest: nth_mem)
next
  assume *: "waits ws i \<and> i \<noteq> j"
  then obtain v where v: "v < length ws" "ws ! v = Waiting i"
    by (auto simp: waits_def in_set_conv_nth)
  with * assms(3) have "v \<noteq> w" by auto
  with v have "v < length (ws[w := x])" "ws[w := x] ! v = Waiting i" by simp_all
  then show "waits (ws[w := x]) i"
    unfolding waits_def by (metis nth_mem)
qed

lemma answer_core:
  assumes ok: "pool_core fn {} p" and w: "w < length (pl_workers p)" "pl_workers p ! w = Waiting j"
    and p': "p' = p\<lparr>pl_workers := (pl_workers p)[w := if x = None then Failed else Returned],
      pl_results := case x of None \<Rightarrow> pl_results p | Some v \<Rightarrow> put_at j v (pl_results p)\<rparr>"
    and x: "x = result_of (fn (the (pl_items p ! j)) j)"
  shows "pool_core fn (if x = None then {} else {w}) p'"
    and "settled (pl_items p) (pl_index p) (pl_workers p') i y \<longleftrightarrow>
      settled (pl_items p) (pl_index p) (pl_workers p) i y \<or> i = j \<and> slot (pl_items p) j = Some y"
proof -
  let ?items = "pl_items p" and ?index = "pl_index p" and ?ws = "pl_workers p"
  let ?ws' = "?ws[w := if x = None then Failed else Returned]"
  note core = ok [unfolded pool_core_def]
  have "waits ?ws j"
    using w unfolding waits_def by (metis nth_mem)
  with core have j: "j < ?index" "slot ?items j = Some (the (?items ! j))"
    by (auto simp: waits_ok_def slot_def split: if_splits)
  have w': "waits ?ws' i \<longleftrightarrow> waits ?ws i \<and> i \<noteq> j" for i
    by (rule waits_freed [OF _ w]) (use core in auto)
  have s: "settled ?items ?index ?ws' i y \<longleftrightarrow> settled ?items ?index ?ws i y \<or> i = j \<and> slot ?items j = Some y" for i y
    using j \<open>waits ?ws j\<close> by (auto simp: settled_def w')
  have "slot (case x of None \<Rightarrow> pl_results p | Some v \<Rightarrow> put_at j v (pl_results p)) i =
      (case slot ?items i of None \<Rightarrow> None | Some y \<Rightarrow> if settled ?items ?index ?ws' i y then result_of (fn y i) else None)" for i
  proof (cases "i = j")
    case True
    have "\<not> settled ?items ?index ?ws j y" for y
      using \<open>waits ?ws j\<close> by (simp add: settled_def)
    then have "slot (pl_results p) j = None"
      using core by (simp add: results_ok_def split: option.split)
    moreover have "settled ?items ?index ?ws' j (the (?items ! j))"
      using j(2) s by blast
    ultimately have "(case slot ?items j of None \<Rightarrow> None
        | Some y \<Rightarrow> if settled ?items ?index ?ws' j y then result_of (fn y j) else None) = x"
      "slot (pl_results p) j = None"
      using x by (simp_all only: j(2) option.case if_True)
    moreover from this(2) have "slot (case x of None \<Rightarrow> pl_results p | Some v \<Rightarrow> put_at j v (pl_results p)) j = x"
      by (cases x) (simp_all add: slot_put_at)
    ultimately show ?thesis
      by (simp only: True)
  next
    case False
    then have "slot (case x of None \<Rightarrow> pl_results p | Some v \<Rightarrow> put_at j v (pl_results p)) i = slot (pl_results p) i"
      by (cases x) (simp_all add: slot_put_at)
    also have "\<dots> = (case slot ?items i of None \<Rightarrow> None
        | Some y \<Rightarrow> if settled ?items ?index ?ws i y then result_of (fn y i) else None)"
      using core unfolding results_ok_def by blast
    also have "settled ?items ?index ?ws i = settled ?items ?index ?ws' i"
      using False s by (intro ext) blast
    finally show ?thesis .
  qed
  moreover have "length (case x of None \<Rightarrow> pl_results p | Some v \<Rightarrow> put_at j v (pl_results p)) \<le> length ?items"
    using core j(1) by (auto simp: results_ok_def length_put_at split: option.split)
  ultimately have "results_ok fn ?items ?index ?ws' (pl_results p')"
    by (simp add: results_ok_def p')
  moreover have "roles_ok (if x = None then {} else {w}) ?items ?index ?ws'"
    using core w(1) by (auto simp: roles_ok_def nth_list_update)
  moreover have "alone ?ws'"
    using core by (intro alone_update) (auto split: if_splits)
  moreover have "waits_ok ?items ?index ?ws'"
    using core by (auto simp: waits_ok_def w')
  ultimately show "pool_core fn (if x = None then {} else {w}) p'"
    using core by (simp add: pool_core_def p')
  show "settled ?items ?index (pl_workers p') i y \<longleftrightarrow> settled ?items ?index ?ws i y \<or> i = j \<and> slot ?items j = Some y"
    using s by (simp add: p')
qed

lemma worker_loop_frame [simp]:
  "pl_items (worker_loop w p) = pl_items p" "pl_outcome (worker_loop w p) = pl_outcome p"
  "pl_results (worker_loop w p) = pl_results p"
  "length (pl_workers (worker_loop w p)) = length (pl_workers p)"
  by (simp_all add: worker_loop_def split: option.split prod.split)

lemma worker_loop_failed: "Failed \<in> set (pl_workers (worker_loop w p)) \<Longrightarrow> Failed \<in> set (pl_workers p)"
  by (auto simp: worker_loop_def dest!: subsetD [OF set_update_subset_insert] split: option.splits)

definition outcome_ok :: "('a \<Rightarrow> nat \<Rightarrow> 'e + 'r) \<Rightarrow> ('a, 'r, 'e) pool \<Rightarrow> bool" where
  "outcome_ok fn p \<longleftrightarrow>
     (let done_ok = (\<forall>i x. settled (pl_items p) (pl_index p) (pl_workers p) i x \<longrightarrow> (\<exists>v. fn x i = Inr v))
      in case pl_outcome p of
        Running \<Rightarrow> Failed \<notin> set (pl_workers p) \<and> (\<exists>i. waits (pl_workers p) i) \<and> done_ok
      | Resolved rs \<Rightarrow> rs = pl_results p \<and> (\<forall>w \<in> set (pl_workers p). w = Returned) \<and> done_ok
      | RejectedWith e \<Rightarrow> \<exists>i x. settled (pl_items p) (pl_index p) (pl_workers p) i x \<and> fn x i = Inl e)"

definition pool_ok :: "('a \<Rightarrow> nat \<Rightarrow> 'e + 'r) \<Rightarrow> ('a, 'r, 'e) pool \<Rightarrow> bool" where
  "pool_ok fn p \<longleftrightarrow> pool_core fn {} p \<and> outcome_ok fn p"

lemma all_workers_frame [simp]:
  "pl_items (all_workers p) = pl_items p" "pl_index (all_workers p) = pl_index p"
  "pl_workers (all_workers p) = pl_workers p" "pl_results (all_workers p) = pl_results p"
  "pl_calls (all_workers p) = pl_calls p" "pool_core fn idle (all_workers p) = pool_core fn idle p"
  by (simp_all add: all_workers_def pool_core_def)

lemma all_workers_ok:
  assumes "pl_outcome p = Running" "Failed \<notin> set (pl_workers p)"
    and "\<And>i x. settled (pl_items p) (pl_index p) (pl_workers p) i x \<Longrightarrow> \<exists>v. fn x i = Inr v"
  shows "outcome_ok fn (all_workers p)"
proof (cases "\<forall>w \<in> set (pl_workers p). w = Returned")
  case False
  then obtain w where "w \<in> set (pl_workers p)" "w \<noteq> Returned" by blast
  with assms(2) have "\<exists>i. waits (pl_workers p) i"
    by (cases w) (auto simp: waits_def)
  with False assms show ?thesis
    by (auto simp: all_workers_def outcome_ok_def)
qed (use assms in \<open>auto simp: all_workers_def outcome_ok_def\<close>)

lemma pool_start: "pool_ok fn (parallelLimit items concurrency)"
proof -
  define n where "n = nat (min concurrency (int (length items)))"
  define p0 :: "('a, 'c, 'b) pool" where "p0 = \<lparr>pl_items = items, pl_index = 0, pl_results = [],
    pl_workers = replicate n Returned, pl_calls = [], pl_outcome = Running\<rparr>"
  have "pool_core fn {k..<n} (fold worker_loop [0..<k] p0) \<and> length (pl_workers (fold worker_loop [0..<k] p0)) = n \<and>
      pl_items (fold worker_loop [0..<k] p0) = items \<and> pl_outcome (fold worker_loop [0..<k] p0) = Running \<and>
      Failed \<notin> set (pl_workers (fold worker_loop [0..<k] p0)) \<and>
      (\<forall>i x. \<not> settled items (pl_index (fold worker_loop [0..<k] p0)) (pl_workers (fold worker_loop [0..<k] p0)) i x)"
    if "k \<le> n" for k
    using that
  proof (induction k)
    case 0
    show ?case
      by (auto simp: p0_def pool_core_def roles_ok_def alone_def waits_ok_def waits_def results_ok_def calls_upto_def
          slot_def settled_def split: option.split)
  next
    case (Suc k)
    let ?p = "fold worker_loop [0..<k] p0"
    have core: "pool_core fn {k..<n} ?p" and k: "k < length (pl_workers ?p)" "k \<in> {k..<n}"
      and idle: "{k..<n} - {k} = {Suc k..<n}"
      using Suc by auto
    from worker_loop_core [OF core k] Suc idle show ?case
      by (auto dest: worker_loop_failed)
  qed
  from this [of n] have "pool_core fn {} (fold worker_loop [0..<n] p0)" "outcome_ok fn (all_workers (fold worker_loop [0..<n] p0))"
    by (auto intro: all_workers_ok)
  then show ?thesis
    by (simp add: pool_ok_def parallelLimit_def n_def p0_def Let_def)
qed

lemma pool_step_ok:
  assumes "pool_ok fn p" "pool_guard w p"
  shows "pool_ok fn (pool_step fn w p)"
proof -
  let ?items = "pl_items p" and ?index = "pl_index p" and ?ws = "pl_workers p"
  obtain j where w: "w < length ?ws" "?ws ! w = Waiting j"
    using assms(2) by (auto simp: pool_guard_def)
  have core: "pool_core fn {} p" and out: "outcome_ok fn p"
    using assms(1) by (auto simp: pool_ok_def)
  have "waits ?ws j"
    using w unfolding waits_def by (metis nth_mem)
  then have j: "slot ?items j = Some (the (?items ! j))"
    using core by (auto simp: pool_core_def waits_ok_def slot_def split: if_splits)
  have pending: "\<not> (\<forall>w \<in> set ?ws. w = Returned)"
    using \<open>waits ?ws j\<close> by (auto simp: waits_def)
  note step = answer_core [OF core w refl refl]
  show ?thesis
  proof (cases "fn (the (?items ! j)) j")
    case (Inl e)
    let ?q = "pool_step fn w p"
    have q: "?q = p\<lparr>pl_workers := ?ws[w := Failed], pl_outcome := if pl_outcome p = Running then RejectedWith e else pl_outcome p\<rparr>"
      using w Inl by (simp add: pool_step_def call_answered_def)
    have "pool_core fn {} ?q"
      using step(1) Inl by (simp add: q pool_core_def)
    moreover have s: "settled ?items ?index (pl_workers ?q) i y \<longleftrightarrow> settled ?items ?index ?ws i y \<or> i = j \<and> slot ?items j = Some y" for i y
      using step(2) Inl by (simp add: q)
    have "outcome_ok fn ?q"
    proof (cases "pl_outcome p")
      case Running
      with Inl j s show ?thesis
        by (auto simp: outcome_ok_def q)
    next
      case (Resolved rs)
      with out pending show ?thesis by (auto simp: outcome_ok_def)
    next
      case (RejectedWith e')
      with out s show ?thesis by (auto simp: outcome_ok_def q)
    qed
    ultimately show ?thesis by (simp add: pool_ok_def)
  next
    case (Inr v)
    let ?r = "p\<lparr>pl_workers := ?ws[w := Returned], pl_results := put_at j v (pl_results p)\<rparr>"
    let ?q = "worker_loop w ?r"
    have "worker_loop w (p\<lparr>pl_results := put_at j v (pl_results p)\<rparr>) = ?q"
      by (simp add: worker_loop_def split: option.split)
    then have q: "pool_step fn w p = all_workers ?q"
      using w Inr by (simp add: pool_step_def call_answered_def)
    have r: "pool_core fn {w} ?r"
      using step(1) Inr by simp
    have w': "w < length (pl_workers ?r)" "w \<in> {w}" using w by simp_all
    from worker_loop_core [OF r w'] have core': "pool_core fn {} ?q"
      and "settled ?items (pl_index ?q) (pl_workers ?q) i y = settled ?items ?index (?ws[w := Returned]) i y" for i y
      by simp_all
    then have s: "settled ?items (pl_index ?q) (pl_workers ?q) i y \<longleftrightarrow> settled ?items ?index ?ws i y \<or> i = j \<and> slot ?items j = Some y" for i y
      using step(2) Inr by simp
    have "outcome_ok fn (all_workers ?q)"
    proof (cases "pl_outcome p")
      case Running
      show ?thesis
      proof (rule all_workers_ok)
        show "pl_outcome ?q = Running" using Running by simp
        show "Failed \<notin> set (pl_workers ?q)"
          using out Running set_update_subset_insert [of ?ws w Returned]
          by (auto simp: outcome_ok_def dest!: worker_loop_failed)
        show "\<exists>v. fn x i = Inr v" if "settled (pl_items ?q) (pl_index ?q) (pl_workers ?q) i x" for i x
          using that out Running Inr j s by (auto simp: outcome_ok_def)
      qed
    next
      case (Resolved rs)
      with out pending show ?thesis by (auto simp: outcome_ok_def)
    next
      case (RejectedWith e')
      then have "all_workers ?q = ?q" by (simp add: all_workers_def)
      with RejectedWith out s show ?thesis by (auto simp: outcome_ok_def)
    qed
    with core' show ?thesis by (simp add: pool_ok_def q)
  qed
qed

interpretation pool: machine "pool_step fn" pool_guard "pool_ok fn" "parallelLimit items concurrency" for fn items concurrency
  by unfold_locales (auto intro: pool_start pool_step_ok)

section \<open>Properties\<close>

lemma pool_frame: 
  "pl_items (fold (pool_step fn) ws p) = pl_items p \<and>
   length (pl_workers (fold (pool_step fn) ws p)) = length (pl_workers p)"
  by (induction ws arbitrary: p)
    (simp_all add: pool_step_def call_answered_def split: worker.split sum.split)

lemma loops_frame:
  "pl_items (fold worker_loop vs p) = pl_items p \<and> length (pl_workers (fold worker_loop vs p)) = length (pl_workers p)"
  by (induction vs arbitrary: p) simp_all

lemma pool_frame_start [simp]:
  "pl_items (fold (pool_step fn) ws (parallelLimit items c)) = items"
  "length (pl_workers (fold (pool_step fn) ws (parallelLimit items c))) = nat (min c (int (length items)))"
  by (simp_all add: pool_frame parallelLimit_def loops_frame Let_def)

lemma running_waits:
  assumes "pool_ok fn p" "pl_outcome p = Running"
  shows "\<exists>w. pool_guard w p"
proof -
  have "\<exists>i. waits (pl_workers p) i"
    using assms by (simp add: pool_ok_def outcome_ok_def)
  then obtain i w where "w < length (pl_workers p)" "pl_workers p ! w = Waiting i"
    by (auto simp: waits_def in_set_conv_nth)
  then show ?thesis by (auto simp: pool_guard_def)
qed

lemma rejected_by_call:
  assumes "pool_ok fn p" "pl_outcome p = RejectedWith e"
  shows "\<exists>i x. slot (pl_items p) i = Some x \<and> fn x i = Inl e"
  using assms by (fastforce simp: pool_ok_def outcome_ok_def settled_def)

text \<open>
  C18: With at least one worker and whatever the order in which the calls are answered, when every
  call of \<open>fn\<close> returns then \<open>parallelLimit\<close> resolves as soon as no call waits for its answer; then
  \<open>fn\<close> has been called exactly once on every item that is there, in order, and the array holds its
  value at every such index and a hole elsewhere. It stays pending only while some call waits, and
  rejects only with the error of a call.
\<close>

theorem parallel_maps:
  assumes "guarded pool_guard (pool_step fn) ws (parallelLimit items c)" "0 < c"
    and "p = fold (pool_step fn) ws (parallelLimit items c)"
  shows "((\<forall>i x. slot items i = Some x \<longrightarrow> (\<exists>v. fn x i = Inr v)) \<and> (\<nexists>w. pool_guard w p) \<longrightarrow>
      (\<exists>rs. pl_outcome p = Resolved rs)) \<and>
    (case pl_outcome p of
       Running \<Rightarrow> \<exists>w. pool_guard w p
     | Resolved rs \<Rightarrow> pl_calls p = calls_upto items (length items) \<and>
         (\<forall>i. case slot items i of None \<Rightarrow> slot rs i = None | Some x \<Rightarrow> \<exists>v. fn x i = Inr v \<and> slot rs i = Some v)
     | RejectedWith e \<Rightarrow> \<exists>i x. slot items i = Some x \<and> fn x i = Inl e)"
proof -
  have ok: "pool_ok fn p"
    unfolding assms(3) by (rule pool.inv_history [OF assms(1)])
  have items: "pl_items p = items" "length (pl_workers p) = nat (min c (int (length items)))"
    unfolding assms(3) by simp_all
  note core = ok [unfolded pool_ok_def pool_core_def]
  show ?thesis
  proof (cases "pl_outcome p")
    case (Resolved rs)
    have idle: "\<forall>w \<in> set (pl_workers p). w = Returned" and rs: "rs = pl_results p"
      using ok Resolved by (auto simp: pool_ok_def outcome_ok_def)
    have index: "pl_index p = length items"
    proof (cases "items = []")
      case False
      then have "0 < length (pl_workers p)"
        using items(2) assms(2) by (simp add: min_def)
      moreover from this have "pl_workers p ! 0 = Returned"
        using idle by simp
      ultimately show ?thesis
        using core items(1) by (auto simp: roles_ok_def)
    qed (use core items in simp)
    have done_: "settled items (pl_index p) (pl_workers p) i x" if "slot items i = Some x" for i x
      using that index idle by (auto simp: settled_def waits_def)
    with ok Resolved items(1) have good: "\<exists>v. fn x i = Inr v" if "slot items i = Some x" for i x
      using that by (auto simp: pool_ok_def outcome_ok_def)
    have "case slot items i of None \<Rightarrow> slot rs i = None | Some x \<Rightarrow> \<exists>v. fn x i = Inr v \<and> slot rs i = Some v" for i
    proof -
      have "slot rs i = (case slot items i of None \<Rightarrow> None
          | Some x \<Rightarrow> if settled items (pl_index p) (pl_workers p) i x then result_of (fn x i) else None)"
        using core items(1) rs unfolding results_ok_def by blast
      then show ?thesis
        using done_ [of i] good [of i] by (cases "slot items i") (auto simp del: slot_Some)
    qed
    with Resolved core items(1) index show ?thesis by (simp del: slot_Some)
  next
    case (RejectedWith e)
    with rejected_by_call [OF ok RejectedWith] items(1) obtain i x where
      call: "slot items i = Some x" "fn x i = Inl e" by blast
    then have "\<not> (\<forall>i x. slot items i = Some x \<longrightarrow> (\<exists>v. fn x i = Inr v))"
      by (metis sum.distinct(1))
    moreover have "\<exists>i x. slot items i = Some x \<and> fn x i = Inl e"
      using call by blast
    ultimately show ?thesis
      using RejectedWith by (simp del: slot_Some)
  next
    case Running
    with running_waits [OF ok] show ?thesis by simp
  qed
qed

text \<open>How many answers can still come.\<close>

definition is_waiting :: "worker \<Rightarrow> bool" where
  "is_waiting w \<longleftrightarrow> (\<exists>i. w = Waiting i)"

definition answers_left :: "('a, 'r, 'e) pool \<Rightarrow> nat" where
  "answers_left p = length (pl_items p) - pl_index p + length (filter is_waiting (pl_workers p))"

lemma filter_update_count:
  "w < length ws \<Longrightarrow> length (filter P (ws[w := x])) + (if P (ws ! w) then 1 else 0) =
   length (filter P ws) + (if P x then 1 else 0)"
proof (induction ws arbitrary: w)
  case (Cons a ws)
  then show ?case by (cases w) auto
qed simp

lemma answers_decrease:
  assumes "pool_guard w p"
  shows "answers_left (pool_step fn w p) < answers_left p"
proof -
  obtain j where w: "w < length (pl_workers p)" "pl_workers p ! w = Waiting j"
    using assms by (auto simp: pool_guard_def)
  have count: "length (filter is_waiting ((pl_workers p)[w := x])) + 1 =
      length (filter is_waiting (pl_workers p)) + (if is_waiting x then 1 else 0)" for x
    using filter_update_count [OF w(1), of is_waiting x] w(2) by (simp add: is_waiting_def)
  show ?thesis
  proof (cases "fn (the (pl_items p ! j)) j")
    case (Inl e)
    with w count [of Failed] show ?thesis
      by (simp add: answers_left_def pool_step_def call_answered_def is_waiting_def)
  next
    case (Inr v)
    show ?thesis
    proof (cases "next_item (pl_items p) (pl_index p)")
      case None
      with Inr w count [of Returned] show ?thesis
        by (simp add: answers_left_def pool_step_def call_answered_def worker_loop_def is_waiting_def)
    next
      case (Some jx)
      then obtain k x where kx: "next_item (pl_items p) (pl_index p) = Some (k, x)" by (cases jx) auto
      have "length (filter is_waiting ((pl_workers p)[w := Waiting k])) = length (filter is_waiting (pl_workers p))"
        using count [of "Waiting k"] by (simp add: is_waiting_def)
      moreover have "pl_index p \<le> k" "k < length (pl_items p)"
        using next_item_Some [OF kx] by auto
      ultimately show ?thesis
        using Inr w kx by (simp add: answers_left_def pool_step_def call_answered_def worker_loop_def)
    qed
  qed
qed

lemma answers_run:
  "guarded pool_guard (pool_step fn) ws p \<Longrightarrow> length ws + answers_left (fold (pool_step fn) ws p) \<le> answers_left p"
proof (induction ws arbitrary: p)
  case (Cons w ws)
  then have "answers_left (pool_step fn w p) < answers_left p"
    "length ws + answers_left (fold (pool_step fn) ws (pool_step fn w p)) \<le> answers_left (pool_step fn w p)"
    by (auto intro: answers_decrease)
  then show ?case by simp
qed simp

lemma loop_answers:
  assumes "w < length (pl_workers p)" "\<not> is_waiting (pl_workers p ! w)"
  shows "answers_left (worker_loop w p) \<le> answers_left p"
proof (cases "next_item (pl_items p) (pl_index p)")
  case None
  with filter_update_count [OF assms(1), of is_waiting Returned] assms(2) show ?thesis
    by (simp add: answers_left_def worker_loop_def is_waiting_def)
next
  case (Some kx)
  then obtain k x where kx: "next_item (pl_items p) (pl_index p) = Some (k, x)" by (cases kx) auto
  have "length (filter is_waiting ((pl_workers p)[w := Waiting k])) = Suc (length (filter is_waiting (pl_workers p)))"
    using filter_update_count [OF assms(1), of is_waiting "Waiting k"] assms(2) by (simp add: is_waiting_def)
  moreover have "pl_index p \<le> k" "k < length (pl_items p)"
    using next_item_Some [OF kx] by auto
  ultimately show ?thesis
    using kx by (simp add: answers_left_def worker_loop_def)
qed

lemma loops_answers:
  "distinct vs \<Longrightarrow> \<forall>v \<in> set vs. v < length (pl_workers p) \<and> \<not> is_waiting (pl_workers p ! v) \<Longrightarrow>
   answers_left (fold worker_loop vs p) \<le> answers_left p"
proof (induction vs arbitrary: p)
  case (Cons w vs)
  have other: "pl_workers (worker_loop w p) ! v = pl_workers p ! v" if "v \<noteq> w" for v
    using that by (simp add: worker_loop_def split: option.split prod.split)
  have "answers_left (fold worker_loop vs (worker_loop w p)) \<le> answers_left (worker_loop w p)"
  proof (rule Cons.IH)
    show "\<forall>v \<in> set vs. v < length (pl_workers (worker_loop w p)) \<and> \<not> is_waiting (pl_workers (worker_loop w p) ! v)"
    proof
      fix v assume v: "v \<in> set vs"
      with Cons.prems(1) have "v \<noteq> w" by auto
      with v Cons.prems(2) show "v < length (pl_workers (worker_loop w p)) \<and> \<not> is_waiting (pl_workers (worker_loop w p) ! v)"
        by (simp add: other)
    qed
  qed (use Cons.prems in simp)
  also have "\<dots> \<le> answers_left p"
    using Cons.prems by (intro loop_answers) auto
  finally show ?case by simp
qed simp

lemma answers_start: "answers_left (parallelLimit items c) \<le> length items"
proof -
  have "filter is_waiting (replicate n Returned) = []" for n
    by (simp add: is_waiting_def filter_empty_conv)
  moreover have "answers_left (all_workers p) = answers_left p" for p
    by (simp add: answers_left_def)
  ultimately show ?thesis
    unfolding parallelLimit_def Let_def
    by (intro order_trans [OF eq_refl [OF \<open>\<And>p. answers_left (all_workers p) = answers_left p\<close>]]
        order_trans [OF loops_answers]) (auto simp: is_waiting_def answers_left_def)
qed

text \<open>
  C19: \<open>parallelLimit\<close> ends: there are at most as many answers as items, and as long as the
  promise is pending some call waits for its answer; meanwhile at most \<open>concurrency\<close> calls wait,
  made for the first items in order.
\<close>

theorem parallel_ends:
  assumes "guarded pool_guard (pool_step fn) ws (parallelLimit items c)" "0 \<le> c"
    and "p = fold (pool_step fn) ws (parallelLimit items c)"
  shows "length ws \<le> length items \<and> int (length (filter is_waiting (pl_workers p))) \<le> c \<and>
    pl_calls p = calls_upto items (pl_index p) \<and> (pl_outcome p = Running \<longrightarrow> (\<exists>w. pool_guard w p))"
proof -
  have ok: "pool_ok fn p"
    unfolding assms(3) by (rule pool.inv_history [OF assms(1)])
  have "length ws \<le> length items"
    by (rule order_trans [OF add_leD1 [OF answers_run [OF assms(1)]] answers_start])
  moreover have "int (length (filter is_waiting (pl_workers p))) \<le> c"
    using length_filter_le [of is_waiting "pl_workers p"] assms(2) unfolding assms(3) by simp
  moreover have "pl_calls p = calls_upto items (pl_index p)"
    using ok unfolding assms(3) by (simp add: pool_ok_def pool_core_def)
  moreover have "\<exists>w. pool_guard w p" if "pl_outcome p = Running"
    using running_waits [OF ok that] .
  ultimately show ?thesis by blast
qed

text \<open>With no worker the promise resolves at once, and nothing is called.\<close>

lemma no_workers: "c \<le> 0 \<Longrightarrow> pl_outcome (parallelLimit items c) = Resolved [] \<and> pl_calls (parallelLimit items c) = []"
  by (simp add: parallelLimit_def all_workers_def)

section \<open>An example run\<close>

definition ex_items :: "int option list" where
  "ex_items = [Some 3, None, Some 5, Some 7]"

definition ex_double :: "int \<Rightarrow> nat \<Rightarrow> string + int" where
  "ex_double x i = (if x < 0 then Inl ''negative'' else Inr (2 * x))"

lemmas pool_run_defs = parallelLimit_def worker_loop_def next_item.simps all_workers_def pool_step_def
  call_answered_def put_at_def ex_items_def ex_double_def pool_guard_def

lemma ex_start: "parallelLimit ex_items 2 =
  \<lparr>pl_items = ex_items, pl_index = 3, pl_results = [], pl_workers = [Waiting 0, Waiting 2],
   pl_calls = [(3, 0), (5, 2)], pl_outcome = Running\<rparr>"
  by (simp add: pool_run_defs Let_def upt_rec numeral_eq_Suc)

theorem parallel_maps_witness:
  "\<exists>rs. pl_outcome (fold (pool_step ex_double) [1, 0, 1] (parallelLimit ex_items 2)) = Resolved rs \<and>
     slot rs 0 = Some 6 \<and> slot rs 1 = None"
proof -
  let ?p = "fold (pool_step ex_double) [1, 0, 1] (parallelLimit ex_items 2)"
  have g: "guarded pool_guard (pool_step ex_double) [1, 0, 1] (parallelLimit ex_items 2)"
    by (simp add: ex_start pool_run_defs numeral_eq_Suc)
  have "pl_workers ?p = [Returned, Returned]"
    by (simp add: ex_start pool_run_defs numeral_eq_Suc)
  then have idle: "\<nexists>w. pool_guard w ?p"
    by (auto simp: pool_guard_def less_Suc_eq nth_Cons')
  have calls: "\<forall>i x. slot ex_items i = Some x \<longrightarrow> (\<exists>v. ex_double x i = Inr v)"
    by (auto simp: ex_items_def ex_double_def less_Suc_eq nth_Cons')
  note maps = parallel_maps [OF g _ refl]
  from maps calls idle obtain rs where rs: "pl_outcome ?p = Resolved rs" by auto
  have here: "slot ex_items 0 = Some 3" "slot ex_items 1 = None"
    by (simp_all add: ex_items_def slot_def)
  from maps rs have "\<forall>i. case slot ex_items i of None \<Rightarrow> slot rs i = None | Some x \<Rightarrow> \<exists>v. ex_double x i = Inr v \<and> slot rs i = Some v"
    by simp
  from spec [OF this, of 0] spec [OF this, of 1] here have "\<exists>v. ex_double 3 0 = Inr v \<and> slot rs 0 = Some v" "slot rs 1 = None"
    by (simp_all del: slot_Some)
  with rs show ?thesis by (auto simp: ex_double_def simp del: slot_Some)
qed

theorem parallel_ends_witness:
  "length [1 :: nat] \<le> length ex_items \<and>
   pl_outcome (fold (pool_step ex_double) [1] (parallelLimit ex_items 2)) = Running \<and>
   (\<exists>w. pool_guard w (fold (pool_step ex_double) [1] (parallelLimit ex_items 2)))"
proof -
  have "guarded pool_guard (pool_step ex_double) [1] (parallelLimit ex_items 2)"
    by (simp add: ex_start pool_run_defs numeral_eq_Suc)
  moreover have "(0 :: int) \<le> 2" by simp
  moreover have "pl_outcome (fold (pool_step ex_double) [1] (parallelLimit ex_items 2)) = Running"
    by (simp add: ex_start pool_run_defs numeral_eq_Suc)
  ultimately show ?thesis
    using parallel_ends [OF _ _ refl] by blast
qed

end
