(* ===== verification/Debug_Store.thy ===== *)
theory Debug_Store
  imports Js_Text Machines
begin

text \<open>
  The debug store of \<open>apps/web/src/lib/debug/DAPClient.ts\<close>: debug sessions with their threads,
  frames, scopes, variables and breakpoints, and the console. A \<open>Map\<close> is an association list.
  The id of a new breakpoint, made of the time and a random part, is an argument.
\<close>

section \<open>Data\<close>

record dap_source =
  src_name :: "string option"
  src_path :: "string option"
  src_sourceReference :: "int option"

record dap_breakpoint =
  bk_id :: "int option"
  bk_verified :: bool
  bk_message :: "string option"
  bk_source :: "dap_source option"
  bk_line :: "int option"
  bk_column :: "int option"
  bk_endLine :: "int option"
  bk_endColumn :: "int option"

record stack_frame =
  fr_id :: int
  fr_name :: string
  fr_source :: "dap_source option"
  fr_line :: int
  fr_column :: int
  fr_endLine :: "int option"
  fr_endColumn :: "int option"
  fr_canRestart :: "bool option"
  fr_moduleId :: "json option"

record dap_scope =
  sc_name :: string
  sc_variablesReference :: int
  sc_namedVariables :: "int option"
  sc_indexedVariables :: "int option"
  sc_expensive :: bool
  sc_source :: "dap_source option"
  sc_line :: "int option"
  sc_column :: "int option"
  sc_endLine :: "int option"
  sc_endColumn :: "int option"

record dap_variable =
  va_name :: string
  va_value :: string
  va_type :: "string option"
  va_variablesReference :: int
  va_namedVariables :: "int option"
  va_indexedVariables :: "int option"
  va_evaluateName :: "string option"

record dap_thread =
  th_id :: int
  th_name :: string

datatype stopped_reason =
    StoppedStep | StoppedBreakpoint | StoppedException | StoppedPause | StoppedEntry | StoppedGoto
  | StoppedFunctionBreakpoint | StoppedDataBreakpoint

datatype debug_state = DebugDisconnected | Initializing | DebugRunning | Stopped | Terminated

record breakpoint_config =
  bc_id :: string
  bc_filePath :: string
  bc_line :: int
  bc_column :: "int option"
  bc_condition :: "string option"
  bc_hitCondition :: "string option"
  bc_logMessage :: "string option"
  bc_enabled :: bool
  bc_verified :: bool

record debug_session =
  ds_id :: string
  ds_name :: string
  ds_type :: string
  ds_state :: debug_state
  ds_threads :: "dap_thread list"
  ds_currentThreadId :: "int option"
  ds_stackFrames :: "stack_frame list"
  ds_currentFrameId :: "int option"
  ds_scopes :: "dap_scope list"
  ds_variables :: "(int \<times> dap_variable list) list"
  ds_breakpoints :: "breakpoint_config list"
  ds_stoppedReason :: "stopped_reason option"

datatype console_kind = Stdout | Stderr | Console

record debug_store =
  db_sessions :: "debug_session obj"
  db_activeSessionId :: "string option"
  db_consoleOutput :: "(console_kind \<times> string \<times> int) list"

definition init_debug :: debug_store where
  "init_debug = \<lparr>db_sessions = [], db_activeSessionId = None, db_consoleOutput = []\<rparr>"

section \<open>Actions\<close>

definition createDebugSession :: "string \<Rightarrow> string \<Rightarrow> string \<Rightarrow> debug_store \<Rightarrow> debug_store" where
  "createDebugSession i name ty st =
     st\<lparr>db_sessions := AList.update i
         \<lparr>ds_id = i, ds_name = name, ds_type = ty, ds_state = DebugDisconnected, ds_threads = [],
          ds_currentThreadId = None, ds_stackFrames = [], ds_currentFrameId = None, ds_scopes = [],
          ds_variables = [], ds_breakpoints = [], ds_stoppedReason = None\<rparr> (db_sessions st),
       db_activeSessionId := Some i\<rparr>"

definition removeDebugSession :: "string \<Rightarrow> debug_store \<Rightarrow> debug_store" where
  "removeDebugSession i st =
     st\<lparr>db_sessions := AList.delete i (db_sessions st),
       db_activeSessionId := if db_activeSessionId st = Some i then None else db_activeSessionId st\<rparr>"

definition setActiveSession :: "string option \<Rightarrow> debug_store \<Rightarrow> debug_store" where
  "setActiveSession i st = st\<lparr>db_activeSessionId := i\<rparr>"

definition getActiveSession :: "debug_store \<Rightarrow> debug_session option" where
  "getActiveSession st =
     (if truthy (db_activeSessionId st) then map_of (db_sessions st) (the (db_activeSessionId st)) else None)"

text \<open>The shape of every update of one session: nothing happens when it is not there.\<close>

definition edit_debug :: "string \<Rightarrow> (debug_session \<Rightarrow> debug_session) \<Rightarrow> debug_store \<Rightarrow> debug_store" where
  "edit_debug i f st =
     (case map_of (db_sessions st) i of
        None \<Rightarrow> st
      | Some s \<Rightarrow> st\<lparr>db_sessions := AList.update i (f s) (db_sessions st)\<rparr>)"

definition updateSessionState :: "string \<Rightarrow> debug_state \<Rightarrow> debug_store \<Rightarrow> debug_store" where
  "updateSessionState i state = edit_debug i (\<lambda>s. s\<lparr>ds_state := state\<rparr>)"

definition setThreads :: "string \<Rightarrow> dap_thread list \<Rightarrow> debug_store \<Rightarrow> debug_store" where
  "setThreads i threads = edit_debug i (\<lambda>s. s\<lparr>ds_threads := threads\<rparr>)"

definition setCurrentThread :: "string \<Rightarrow> int \<Rightarrow> debug_store \<Rightarrow> debug_store" where
  "setCurrentThread i threadId = edit_debug i (\<lambda>s. s\<lparr>ds_currentThreadId := Some threadId\<rparr>)"

definition setStackFrames :: "string \<Rightarrow> stack_frame list \<Rightarrow> debug_store \<Rightarrow> debug_store" where
  "setStackFrames i frames =
     edit_debug i (\<lambda>s. s\<lparr>ds_stackFrames := frames,
       ds_currentFrameId := case frames of [] \<Rightarrow> None | f # _ \<Rightarrow> Some (fr_id f)\<rparr>)"

definition setCurrentFrame :: "string \<Rightarrow> int \<Rightarrow> debug_store \<Rightarrow> debug_store" where
  "setCurrentFrame i frameId = edit_debug i (\<lambda>s. s\<lparr>ds_currentFrameId := Some frameId\<rparr>)"

definition setScopes :: "string \<Rightarrow> dap_scope list \<Rightarrow> debug_store \<Rightarrow> debug_store" where
  "setScopes i scopes = edit_debug i (\<lambda>s. s\<lparr>ds_scopes := scopes\<rparr>)"

definition setVariables :: "string \<Rightarrow> int \<Rightarrow> dap_variable list \<Rightarrow> debug_store \<Rightarrow> debug_store" where
  "setVariables i reference variables =
     edit_debug i (\<lambda>s. s\<lparr>ds_variables := AList.update reference variables (ds_variables s)\<rparr>)"

definition setStopped :: "string \<Rightarrow> stopped_reason \<Rightarrow> int \<Rightarrow> debug_store \<Rightarrow> debug_store" where
  "setStopped i reason threadId =
     edit_debug i (\<lambda>s. s\<lparr>ds_state := Stopped, ds_stoppedReason := Some reason,
       ds_currentThreadId := Some threadId\<rparr>)"

text \<open>The breakpoint actions work on the active session.\<close>

definition edit_active :: "(debug_session \<Rightarrow> debug_session) \<Rightarrow> debug_store \<Rightarrow> debug_store" where
  "edit_active f st =
     (if truthy (db_activeSessionId st) then edit_debug (the (db_activeSessionId st)) f st else st)"

definition addBreakpoint :: "breakpoint_config \<Rightarrow> string \<Rightarrow> debug_store \<Rightarrow> debug_store \<times> breakpoint_config" where
  "addBreakpoint bp newId st =
     (let breakpoint = bp\<lparr>bc_id := newId, bc_verified := False\<rparr>
      in (edit_active (\<lambda>s. s\<lparr>ds_breakpoints := ds_breakpoints s @ [breakpoint]\<rparr>) st, breakpoint))"

definition removeBreakpoint :: "string \<Rightarrow> debug_store \<Rightarrow> debug_store" where
  "removeBreakpoint i =
     edit_active (\<lambda>s. s\<lparr>ds_breakpoints := filter (\<lambda>bp. bc_id bp \<noteq> i) (ds_breakpoints s)\<rparr>)"

definition updateBreakpoint ::
    "string \<Rightarrow> (breakpoint_config \<Rightarrow> breakpoint_config) \<Rightarrow> debug_store \<Rightarrow> debug_store" where
  "updateBreakpoint i updates =
     edit_active (\<lambda>s. s\<lparr>ds_breakpoints := map_where (\<lambda>bp. bc_id bp = i) updates (ds_breakpoints s)\<rparr>)"

definition toggleBreakpoint :: "string \<Rightarrow> debug_store \<Rightarrow> debug_store" where
  "toggleBreakpoint i st =
     (case Option.bind (getActiveSession st) (\<lambda>s. find (\<lambda>b. bc_id b = i) (ds_breakpoints s)) of
        None \<Rightarrow> st
      | Some bp \<Rightarrow> updateBreakpoint i (\<lambda>b. b\<lparr>bc_enabled := \<not> bc_enabled bp\<rparr>) st)"

definition getBreakpointsForFile :: "string \<Rightarrow> debug_store \<Rightarrow> breakpoint_config list" where
  "getBreakpointsForFile filePath st =
     (case getActiveSession st of
        None \<Rightarrow> []
      | Some s \<Rightarrow> filter (\<lambda>bp. bc_filePath bp = filePath) (ds_breakpoints s))"

definition addConsoleOutput :: "console_kind \<Rightarrow> string \<Rightarrow> int \<Rightarrow> debug_store \<Rightarrow> debug_store" where
  "addConsoleOutput kind s now st = st\<lparr>db_consoleOutput := db_consoleOutput st @ [(kind, s, now)]\<rparr>"

definition clearConsole :: "debug_store \<Rightarrow> debug_store" where
  "clearConsole st = st\<lparr>db_consoleOutput := []\<rparr>"

section \<open>As a machine\<close>

datatype debug_action =
    CreateDebugSession string string string
  | RemoveDebugSession string
  | SetActiveSession "string option"
  | UpdateSessionState string debug_state
  | SetThreads string "dap_thread list"
  | SetCurrentThread string int
  | SetStackFrames string "stack_frame list"
  | SetCurrentFrame string int
  | SetScopes string "dap_scope list"
  | SetVariables string int "dap_variable list"
  | SetStopped string stopped_reason int
  | AddBreakpoint breakpoint_config string
  | RemoveBreakpoint string
  | UpdateBreakpoint string "breakpoint_config \<Rightarrow> breakpoint_config"
  | ToggleBreakpoint string
  | AddConsoleOutput console_kind string int
  | ClearConsole

fun debug_step :: "debug_action \<Rightarrow> debug_store \<Rightarrow> debug_store" where
  "debug_step (CreateDebugSession i name ty) = createDebugSession i name ty"
| "debug_step (RemoveDebugSession i) = removeDebugSession i"
| "debug_step (SetActiveSession i) = setActiveSession i"
| "debug_step (UpdateSessionState i state) = updateSessionState i state"
| "debug_step (SetThreads i threads) = setThreads i threads"
| "debug_step (SetCurrentThread i t) = setCurrentThread i t"
| "debug_step (SetStackFrames i frames) = setStackFrames i frames"
| "debug_step (SetCurrentFrame i f) = setCurrentFrame i f"
| "debug_step (SetScopes i scopes) = setScopes i scopes"
| "debug_step (SetVariables i r vs) = setVariables i r vs"
| "debug_step (SetStopped i reason t) = setStopped i reason t"
| "debug_step (AddBreakpoint bp newId) = (\<lambda>st. fst (addBreakpoint bp newId st))"
| "debug_step (RemoveBreakpoint i) = removeBreakpoint i"
| "debug_step (UpdateBreakpoint i updates) = updateBreakpoint i updates"
| "debug_step (ToggleBreakpoint i) = toggleBreakpoint i"
| "debug_step (AddConsoleOutput kind s now) = addConsoleOutput kind s now"
| "debug_step ClearConsole = clearConsole"

text \<open>
  A new breakpoint gets an id that no session uses, an update keeps the id (the callers change
  other fields only), and a session is stopped by \<open>setStopped\<close>.
\<close>

fun debug_guard :: "debug_action \<Rightarrow> debug_store \<Rightarrow> bool" where
  "debug_guard (AddBreakpoint bp newId) st =
     (\<forall>e \<in> set (db_sessions st). newId \<notin> bc_id ` set (ds_breakpoints (snd e)))"
| "debug_guard (UpdateBreakpoint i updates) st = (\<forall>b. bc_id (updates b) = bc_id b)"
| "debug_guard (UpdateSessionState i state) st = (state \<noteq> Stopped)"
| "debug_guard _ st = True"

definition debug_session_ok :: "string \<Rightarrow> debug_session \<Rightarrow> bool" where
  "debug_session_ok i s \<longleftrightarrow> ds_id s = i \<and> distinct (map bc_id (ds_breakpoints s)) \<and>
     distinct (map fst (ds_variables s)) \<and> (ds_state s = Stopped \<longrightarrow> ds_stoppedReason s \<noteq> None)"

definition debug_ok :: "debug_store \<Rightarrow> bool" where
  "debug_ok st \<longleftrightarrow> obj_ok (db_sessions st) \<and>
     (\<forall>i s. map_of (db_sessions st) i = Some s \<longrightarrow> debug_session_ok i s)"

lemma edit_debug_ok:
  assumes "debug_ok st" "\<And>s. map_of (db_sessions st) i = Some s \<Longrightarrow> debug_session_ok i s \<Longrightarrow> debug_session_ok i (f s)"
  shows "debug_ok (edit_debug i f st)"
proof (cases "map_of (db_sessions st) i")
  case (Some s)
  with assms have "debug_session_ok i (f s)" by (simp add: debug_ok_def del: map_of_eq_Some_iff)
  with assms(1) Some show ?thesis
    by (simp add: debug_ok_def edit_debug_def del: map_of_eq_Some_iff)
qed (use assms in \<open>simp add: edit_debug_def\<close>)

lemma edit_active_ok:
  assumes "debug_ok st" "\<And>i s. map_of (db_sessions st) i = Some s \<Longrightarrow> debug_session_ok i s \<Longrightarrow> debug_session_ok i (f s)"
  shows "debug_ok (edit_active f st)"
  using assms unfolding edit_active_def by (auto intro: edit_debug_ok)

lemma ids_map_where: "\<forall>x. g (f x) = g x \<Longrightarrow> map g (map_where P f xs) = map g xs"
  by (simp add: map_where_def)

lemma update_breakpoint_ok:
  "debug_ok st \<Longrightarrow> \<forall>b. bc_id (updates b) = bc_id b \<Longrightarrow> debug_ok (updateBreakpoint i updates st)"
  unfolding updateBreakpoint_def
  by (rule edit_active_ok) (auto simp: debug_session_ok_def ids_map_where)

lemma add_breakpoint_ok:
  assumes "debug_ok st" "\<forall>e \<in> set (db_sessions st). newId \<notin> bc_id ` set (ds_breakpoints (snd e))"
  shows "debug_ok (fst (addBreakpoint bp newId st))"
  unfolding addBreakpoint_def Let_def fst_conv
proof (rule edit_active_ok [OF assms(1)])
  fix i s assume s: "map_of (db_sessions st) i = Some s" and ok: "debug_session_ok i s"
  from s have "(i, s) \<in> set (db_sessions st)" by (rule map_of_SomeD)
  with assms(2) have "newId \<notin> bc_id ` set (ds_breakpoints s)" by fastforce
  with ok show "debug_session_ok i (s\<lparr>ds_breakpoints := ds_breakpoints s @ [bp\<lparr>bc_id := newId, bc_verified := False\<rparr>]\<rparr>)"
    by (auto simp: debug_session_ok_def)
qed

lemma debug_step_ok:
  assumes "debug_ok st" "debug_guard a st"
  shows "debug_ok (debug_step a st)"
proof (cases a)
  case (AddBreakpoint bp newId)
  with assms show ?thesis by (simp add: add_breakpoint_ok)
next
  case (UpdateBreakpoint i updates)
  with assms show ?thesis by (simp add: update_breakpoint_ok)
next
  case (ToggleBreakpoint i)
  with assms(1) show ?thesis
    by (auto simp: toggleBreakpoint_def intro: update_breakpoint_ok split: option.split)
next
  case (RemoveBreakpoint i)
  have "debug_ok (removeBreakpoint i st)"
    unfolding removeBreakpoint_def
    by (rule edit_active_ok [OF assms(1)]) (auto simp: debug_session_ok_def distinct_map_filter)
  with RemoveBreakpoint show ?thesis by simp
next
  case (CreateDebugSession i name ty)
  with assms(1) show ?thesis
    by (simp add: createDebugSession_def debug_ok_def debug_session_ok_def del: map_of_eq_Some_iff)
next
  case (RemoveDebugSession i)
  with assms(1) show ?thesis
    by (simp add: removeDebugSession_def debug_ok_def del: map_of_eq_Some_iff)
next
  case (SetActiveSession i)
  with assms(1) show ?thesis by (simp add: setActiveSession_def debug_ok_def)
next
  case (AddConsoleOutput kind s now)
  with assms(1) show ?thesis by (simp add: addConsoleOutput_def debug_ok_def)
next
  case ClearConsole
  with assms(1) show ?thesis by (simp add: clearConsole_def debug_ok_def)
next
  case (UpdateSessionState i state)
  with assms show ?thesis
    by (auto simp: updateSessionState_def debug_session_ok_def intro!: edit_debug_ok)
qed (use assms in \<open>auto intro!: edit_debug_ok simp: debug_session_ok_def setThreads_def setVariables_def distinct_update
      setCurrentThread_def setStackFrames_def setCurrentFrame_def setScopes_def setStopped_def split: list.split\<close>)

lemma init_debug_ok: "debug_ok init_debug"
  by (simp add: debug_ok_def init_debug_def)

interpretation debug: machine debug_step debug_guard debug_ok init_debug
  by unfold_locales (auto intro: init_debug_ok debug_step_ok)

text \<open>A breakpoint that is added while no session is active is returned but kept nowhere.\<close>

lemma breakpoint_without_session:
  "db_activeSessionId st = None \<Longrightarrow> fst (addBreakpoint bp newId st) = st"
  by (simp add: addBreakpoint_def edit_active_def truthy_def Let_def)

end
