(* ===== verification/Dap_Client.thy ===== *)
theory Dap_Client
  imports Debug_Store
begin

text \<open>
  The Debug Adapter Protocol client of \<open>apps/web/src/lib/debug/DAPClient.ts\<close> over the debug store.
  Every call makes a promise, identified by its place in \<open>dc_promises\<close>; a promise that was sent
  carries its sequence number. The WebSocket is the browser's: what it does are the events
  \<open>SocketOpened\<close>, \<open>SocketClosed\<close>, \<open>SocketFailed\<close> and \<open>SocketMessage\<close>. What follows an \<open>await\<close>
  runs before the next event, since nothing else can run in between.
\<close>

section \<open>Calls\<close>

datatype dap_call =
    DapInitialize
  | DapLaunch "json obj"
  | DapAttach "json obj"
  | DapDisconnect bool
  | DapSetBreakpoints json json
  | DapConfigurationDone
  | DapContinue int
  | DapNext int
  | DapStepIn int
  | DapStepOut int
  | DapPause int
  | DapThreads
  | DapStackTrace int int int
  | DapScopes int
  | DapVariables int "string option" "int option" "int option"
  | DapEvaluate string "int option" "string option"
  | DapSetVariable int string string
  | DapRestart
  | DapTerminate

fun dap_command :: "dap_call \<Rightarrow> string" where
  "dap_command DapInitialize = ''initialize''"
| "dap_command (DapLaunch config) = ''launch''"
| "dap_command (DapAttach config) = ''attach''"
| "dap_command (DapDisconnect r) = ''disconnect''"
| "dap_command (DapSetBreakpoints s bs) = ''setBreakpoints''"
| "dap_command DapConfigurationDone = ''configurationDone''"
| "dap_command (DapContinue t) = ''continue''"
| "dap_command (DapNext t) = ''next''"
| "dap_command (DapStepIn t) = ''stepIn''"
| "dap_command (DapStepOut t) = ''stepOut''"
| "dap_command (DapPause t) = ''pause''"
| "dap_command DapThreads = ''threads''"
| "dap_command (DapStackTrace t a b) = ''stackTrace''"
| "dap_command (DapScopes f) = ''scopes''"
| "dap_command (DapVariables r f a c) = ''variables''"
| "dap_command (DapEvaluate e f c) = ''evaluate''"
| "dap_command (DapSetVariable r n v) = ''setVariable''"
| "dap_command DapRestart = ''restart''"
| "dap_command DapTerminate = ''terminate''"

text \<open>The arguments as they are sent: \<open>JSON.stringify\<close> leaves out what is \<open>undefined\<close>.\<close>

definition if_given :: "string \<Rightarrow> ('a \<Rightarrow> json) \<Rightarrow> 'a option \<Rightarrow> json obj" where
  "if_given k f v = (case v of None \<Rightarrow> [] | Some x \<Rightarrow> [(k, f x)])"

fun dap_arguments :: "dap_call \<Rightarrow> json obj option" where
  "dap_arguments DapInitialize = Some
     [(''clientID'', JStr ''podex''), (''clientName'', JStr ''Podex IDE''), (''adapterID'', JStr ''debug''),
      (''pathFormat'', JStr ''path''), (''linesStartAt1'', JBool True), (''columnsStartAt1'', JBool True),
      (''supportsVariableType'', JBool True), (''supportsVariablePaging'', JBool True),
      (''supportsRunInTerminalRequest'', JBool True)]"
| "dap_arguments (DapLaunch config) = Some config"
| "dap_arguments (DapAttach config) = Some config"
| "dap_arguments (DapDisconnect r) = Some [(''restart'', JBool r)]"
| "dap_arguments (DapSetBreakpoints s bs) = Some [(''source'', s), (''breakpoints'', bs)]"
| "dap_arguments DapConfigurationDone = None"
| "dap_arguments (DapContinue t) = Some [(''threadId'', JNum t)]"
| "dap_arguments (DapNext t) = Some [(''threadId'', JNum t)]"
| "dap_arguments (DapStepIn t) = Some [(''threadId'', JNum t)]"
| "dap_arguments (DapStepOut t) = Some [(''threadId'', JNum t)]"
| "dap_arguments (DapPause t) = Some [(''threadId'', JNum t)]"
| "dap_arguments DapThreads = None"
| "dap_arguments (DapStackTrace t a b) =
     Some [(''threadId'', JNum t), (''startFrame'', JNum a), (''levels'', JNum b)]"
| "dap_arguments (DapScopes f) = Some [(''frameId'', JNum f)]"
| "dap_arguments (DapVariables r f a c) =
     Some ([(''variablesReference'', JNum r)] @ if_given ''filter'' JStr f @ if_given ''start'' JNum a @
       if_given ''count'' JNum c)"
| "dap_arguments (DapEvaluate e f c) =
     Some ([(''expression'', JStr e)] @ if_given ''frameId'' JNum f @ if_given ''context'' JStr c)"
| "dap_arguments (DapSetVariable r n v) =
     Some [(''variablesReference'', JNum r), (''name'', JStr n), (''value'', JStr v)]"
| "dap_arguments DapRestart = None"
| "dap_arguments DapTerminate = None"

record dap_request =
  rq_seq :: nat
  rq_command :: string
  rq_arguments :: "json obj option"

section \<open>Messages\<close>

text \<open>The parts of a response's body that the client reads; an absent part is \<open>None\<close>.\<close>

record dap_body =
  rb_threads :: "dap_thread list option"
  rb_stackFrames :: "stack_frame list option"
  rb_scopes :: "dap_scope list option"
  rb_variables :: "dap_variable list option"

record dap_response =
  rs_request_seq :: nat
  rs_success :: bool
  rs_command :: string
  rs_message :: "string option"
  rs_body :: "dap_body option"

datatype dap_event =
    EvInitialized
  | EvStopped "(stopped_reason \<times> int) option"
  | EvContinued
  | EvTerminated
  | EvOutput "(string option \<times> string) option"
  | EvThread
  | EvBreakpoint "dap_breakpoint option"
  | EvOther string

datatype dap_message = ResponseMsg dap_response | EventMsg dap_event | OtherMsg

section \<open>The client\<close>

datatype ready_state = WsConnecting | WsOpen | WsClosing | WsClosed

datatype dap_outcome =
    Awaiting
  | Answered dap_response
  | NotConnected
  | RequestFailed string
  | TimedOut

record dap_promise =
  pm_call :: dap_call
  pm_seq :: "nat option"
  pm_outcome :: dap_outcome

record dap_client =
  dc_sessionId :: string
  dc_ws :: "nat option"
  dc_sockets :: "ready_state list"
  dc_seq :: nat
  dc_pending :: "(nat \<times> nat) list"
  dc_promises :: "dap_promise list"
  dc_timers :: "nat list"
  dc_sent :: "dap_request list"
  dc_handlers :: "nat list"
  dc_notified :: "(nat \<times> dap_message) list"

type_synonym dap_world = "dap_client \<times> debug_store"

definition new_dap :: "string \<Rightarrow> dap_client" where
  "new_dap sessionId =
     \<lparr>dc_sessionId = sessionId, dc_ws = None, dc_sockets = [], dc_seq = 1, dc_pending = [],
      dc_promises = [], dc_timers = [], dc_sent = [], dc_handlers = [], dc_notified = []\<rparr>"

definition ws_open :: "dap_client \<Rightarrow> bool" where
  "ws_open c = (case dc_ws c of None \<Rightarrow> False | Some g \<Rightarrow> dc_sockets c ! g = WsOpen)"

definition sendRequest :: "dap_call \<Rightarrow> dap_client \<Rightarrow> dap_client" where
  "sendRequest call c =
     (if \<not> ws_open c
      then c\<lparr>dc_promises := dc_promises c @ [\<lparr>pm_call = call, pm_seq = None, pm_outcome = NotConnected\<rparr>]\<rparr>
      else c\<lparr>dc_seq := Suc (dc_seq c),
        dc_pending := AList.update (dc_seq c) (length (dc_promises c)) (dc_pending c),
        dc_promises := dc_promises c @ [\<lparr>pm_call = call, pm_seq = Some (dc_seq c), pm_outcome = Awaiting\<rparr>],
        dc_sent := dc_sent c @ [\<lparr>rq_seq = dc_seq c, rq_command = dap_command call, rq_arguments = dap_arguments call\<rparr>],
        dc_timers := dc_timers c @ [dc_seq c]\<rparr>)"

text \<open>A method of the client: \<open>continue\<close> marks the session as running first.\<close>

definition dap_call_made :: "dap_call \<Rightarrow> dap_world \<Rightarrow> dap_world" where
  "dap_call_made call w =
     (sendRequest call (fst w),
      case call of DapContinue t \<Rightarrow> updateSessionState (dc_sessionId (fst w)) DebugRunning (snd w)
        | _ \<Rightarrow> snd w)"

text \<open>What the methods do with a response after their \<open>await\<close>.\<close>

fun after_response :: "string \<Rightarrow> dap_call \<Rightarrow> dap_response \<Rightarrow> debug_store \<Rightarrow> debug_store" where
  "after_response sid DapThreads r =
     setThreads sid (coalesce (Option.bind (rs_body r) rb_threads) [])"
| "after_response sid (DapStackTrace t a b) r =
     setStackFrames sid (coalesce (Option.bind (rs_body r) rb_stackFrames) [])"
| "after_response sid (DapScopes f) r =
     setScopes sid (coalesce (Option.bind (rs_body r) rb_scopes) [])"
| "after_response sid (DapVariables v f a c) r =
     setVariables sid v (coalesce (Option.bind (rs_body r) rb_variables) [])"
| "after_response sid _ r = id"

text \<open>A promise settles once.\<close>

definition settle_promise :: "nat \<Rightarrow> dap_outcome \<Rightarrow> dap_client \<Rightarrow> dap_client" where
  "settle_promise p out c =
     (if pm_outcome (dc_promises c ! p) = Awaiting
      then c\<lparr>dc_promises := (dc_promises c)[p := (dc_promises c ! p)\<lparr>pm_outcome := out\<rparr>]\<rparr>
      else c)"

definition handleEvent :: "int \<Rightarrow> dap_event \<Rightarrow> dap_world \<Rightarrow> dap_world" where
  "handleEvent now ev w =
     (let c = fst w; st = snd w; sid = dc_sessionId c
      in case ev of
           EvInitialized \<Rightarrow> (c, updateSessionState sid DebugRunning st)
         | EvStopped body \<Rightarrow>
             (c, case body of None \<Rightarrow> st | Some (reason, threadId) \<Rightarrow> setStopped sid reason threadId st)
         | EvContinued \<Rightarrow> (c, updateSessionState sid DebugRunning st)
         | EvTerminated \<Rightarrow> (c, updateSessionState sid Terminated st)
         | EvOutput body \<Rightarrow>
             (c, case body of
                   None \<Rightarrow> st
                 | Some (category, output) \<Rightarrow>
                     addConsoleOutput (if category = Some ''stderr'' then Stderr
                       else if category = Some ''console'' then Console else Stdout) output now st)
         | EvThread \<Rightarrow> (sendRequest DapThreads c, st)
         | EvBreakpoint body \<Rightarrow>
             (c, case body of
                   None \<Rightarrow> st
                 | Some bk \<Rightarrow>
                     if bk_id bk \<noteq> None \<and> bk_id bk \<noteq> Some 0
                     then (case Option.bind (map_of (db_sessions st) sid)
                              (\<lambda>s. find (\<lambda>b. Some (bc_line b) = bk_line bk) (ds_breakpoints s)) of
                             None \<Rightarrow> st
                           | Some bp \<Rightarrow> updateBreakpoint (bc_id bp) (\<lambda>b. b\<lparr>bc_verified := bk_verified bk\<rparr>) st)
                     else st)
         | EvOther s \<Rightarrow> w)"

definition response_outcome :: "dap_response \<Rightarrow> dap_outcome" where
  "response_outcome r =
     (if rs_success r then Answered r else RequestFailed (str_or (rs_message r) ''Request failed''))"

definition handleMessage :: "int \<Rightarrow> dap_message \<Rightarrow> dap_world \<Rightarrow> dap_world" where
  "handleMessage now m w =
     (let (c, st) =
        (case m of
           ResponseMsg r \<Rightarrow>
             (case map_of (dc_pending (fst w)) (rs_request_seq r) of
                None \<Rightarrow> w
              | Some p \<Rightarrow>
                  (settle_promise p (response_outcome r)
                     (fst w\<lparr>dc_pending := AList.delete (rs_request_seq r) (dc_pending (fst w))\<rparr>), snd w))
         | EventMsg ev \<Rightarrow> handleEvent now ev w
         | OtherMsg \<Rightarrow> w);
        c = c\<lparr>dc_notified := dc_notified c @ map (\<lambda>h. (h, m)) (dc_handlers c)\<rparr>
      in (c, case m of
               ResponseMsg r \<Rightarrow>
                 (case map_of (dc_pending (fst w)) (rs_request_seq r) of
                    None \<Rightarrow> st
                  | Some p \<Rightarrow> if rs_success r
                      then after_response (dc_sessionId c) (pm_call (dc_promises c ! p)) r st else st)
             | _ \<Rightarrow> st))"

definition request_timeout :: "nat \<Rightarrow> dap_client \<Rightarrow> dap_client" where
  "request_timeout sq c =
     (let c = c\<lparr>dc_timers := filter (\<lambda>t. t \<noteq> sq) (dc_timers c)\<rparr>
      in case map_of (dc_pending c) sq of
           None \<Rightarrow> c
         | Some p \<Rightarrow> settle_promise p TimedOut (c\<lparr>dc_pending := AList.delete sq (dc_pending c)\<rparr>))"

definition dap_connect :: "dap_client \<Rightarrow> dap_client" where
  "dap_connect c = c\<lparr>dc_ws := Some (length (dc_sockets c)), dc_sockets := dc_sockets c @ [WsConnecting]\<rparr>"

definition dap_close :: "dap_client \<Rightarrow> dap_client" where
  "dap_close c =
     c\<lparr>dc_sockets := (case dc_ws c of
           None \<Rightarrow> dc_sockets c
         | Some g \<Rightarrow> if dc_sockets c ! g = WsClosed then dc_sockets c else (dc_sockets c)[g := WsClosing]),
       dc_ws := None, dc_pending := []\<rparr>"

definition onMessage :: "nat \<Rightarrow> dap_client \<Rightarrow> dap_client" where
  "onMessage h c = c\<lparr>dc_handlers := dc_handlers c @ [h]\<rparr>"

definition offMessage :: "nat \<Rightarrow> dap_client \<Rightarrow> dap_client" where
  "offMessage h c = c\<lparr>dc_handlers := filter (\<lambda>x. x \<noteq> h) (dc_handlers c)\<rparr>"

text \<open>The handlers of a socket.\<close>

definition socket_opened :: "nat \<Rightarrow> dap_world \<Rightarrow> dap_world" where
  "socket_opened g w =
     (fst w\<lparr>dc_sockets := (dc_sockets (fst w))[g := WsOpen]\<rparr>,
      updateSessionState (dc_sessionId (fst w)) Initializing (snd w))"

definition socket_closed :: "nat \<Rightarrow> dap_world \<Rightarrow> dap_world" where
  "socket_closed g w =
     (fst w\<lparr>dc_sockets := (dc_sockets (fst w))[g := WsClosed]\<rparr>,
      updateSessionState (dc_sessionId (fst w)) DebugDisconnected (snd w))"

section \<open>As a machine\<close>

datatype dap_action =
    DapCall dap_call
  | DapConnect
  | DapClose
  | OnMessage nat
  | OffMessage nat
  | SocketOpened nat
  | SocketFailed nat
  | SocketClosed nat
  | SocketMessage nat int "dap_message option"
  | RequestTimeout nat
  | StoreAction debug_action

fun dap_step :: "dap_action \<Rightarrow> dap_world \<Rightarrow> dap_world" where
  "dap_step (DapCall call) w = dap_call_made call w"
| "dap_step DapConnect w = (dap_connect (fst w), snd w)"
| "dap_step DapClose w = (dap_close (fst w), snd w)"
| "dap_step (OnMessage h) w = (onMessage h (fst w), snd w)"
| "dap_step (OffMessage h) w = (offMessage h (fst w), snd w)"
| "dap_step (SocketOpened g) w = socket_opened g w"
| "dap_step (SocketFailed g) w = w"
| "dap_step (SocketClosed g) w = socket_closed g w"
| "dap_step (SocketMessage g now m) w = (case m of None \<Rightarrow> w | Some msg \<Rightarrow> handleMessage now msg w)"
| "dap_step (RequestTimeout sq) w = (request_timeout sq (fst w), snd w)"
| "dap_step (StoreAction a) w = (fst w, debug_step a (snd w))"

text \<open>What the browser may do: a socket opens once, delivers while it is open, closes once; a timer fires once.\<close>

fun dap_guard :: "dap_action \<Rightarrow> dap_world \<Rightarrow> bool" where
  "dap_guard (SocketOpened g) w = (g < length (dc_sockets (fst w)) \<and> dc_sockets (fst w) ! g = WsConnecting)"
| "dap_guard (SocketClosed g) w = (g < length (dc_sockets (fst w)) \<and> dc_sockets (fst w) ! g \<noteq> WsClosed)"
| "dap_guard (SocketMessage g now m) w = (g < length (dc_sockets (fst w)) \<and> dc_sockets (fst w) ! g = WsOpen)"
| "dap_guard (RequestTimeout sq) w = (sq \<in> set (dc_timers (fst w)))"
| "dap_guard (StoreAction a) w = debug_guard a (snd w)"
| "dap_guard _ w = True"

text \<open>
  The sequence numbers of the promises, and of what was sent, are \<open>1, 2, ...\<close> in order; a promise
  without one was refused; an answered promise holds a response with its own number; a pending
  entry leads to the promise with its number, which still waits.
\<close>

definition promise_ok :: "dap_promise \<Rightarrow> bool" where
  "promise_ok pr \<longleftrightarrow>
     (pm_seq pr = None \<longleftrightarrow> pm_outcome pr = NotConnected) \<and>
     (\<forall>r. pm_outcome pr = Answered r \<longrightarrow> pm_seq pr = Some (rs_request_seq r) \<and> rs_success r)"

definition pending_ok :: "(nat \<times> nat) list \<Rightarrow> dap_promise list \<Rightarrow> bool" where
  "pending_ok pend ps \<longleftrightarrow> distinct (map fst pend) \<and>
     (\<forall>s p. (s, p) \<in> set pend \<longrightarrow> p < length ps \<and> pm_seq (ps ! p) = Some s \<and> pm_outcome (ps ! p) = Awaiting)"

definition client_ok :: "dap_client \<Rightarrow> bool" where
  "client_ok c \<longleftrightarrow> 1 \<le> dc_seq c \<and>
     List.map_filter pm_seq (dc_promises c) = [1..<dc_seq c] \<and> map rq_seq (dc_sent c) = [1..<dc_seq c] \<and>
     (\<forall>pr \<in> set (dc_promises c). promise_ok pr) \<and> pending_ok (dc_pending c) (dc_promises c)"

definition dap_ok :: "dap_world \<Rightarrow> bool" where
  "dap_ok w \<longleftrightarrow> client_ok (fst w) \<and> debug_ok (snd w)"

text \<open>While the client is not closed, a waiting promise is pending and its timer is armed.\<close>

definition watched :: "dap_client \<Rightarrow> bool" where
  "watched c \<longleftrightarrow> (\<forall>p < length (dc_promises c). pm_outcome (dc_promises c ! p) = Awaiting \<longrightarrow>
     (\<exists>s. (s, p) \<in> set (dc_pending c) \<and> s \<in> set (dc_timers c)))"

lemma seqs_update:
  "pm_seq pr = pm_seq (ps ! p) \<Longrightarrow> List.map_filter pm_seq (ps[p := pr]) = List.map_filter pm_seq ps"
proof (induction ps arbitrary: p)
  case (Cons a ps)
  then show ?case by (cases p) (auto split: option.split)
qed simp

lemma seqs_append: "List.map_filter f (xs @ ys) = List.map_filter f xs @ List.map_filter f ys"
  by (induction xs) (auto split: option.split)

lemma seq_bound:
  assumes "client_ok c" "pr \<in> set (dc_promises c)" "pm_seq pr = Some s"
  shows "s < dc_seq c"
proof -
  have "s \<in> set (List.map_filter pm_seq (dc_promises c))"
    using assms(2,3) by (force simp: List.map_filter_def)
  then show ?thesis
    using assms(1) by (simp add: client_ok_def)
qed

lemma pending_bound: "client_ok c \<Longrightarrow> (s, p) \<in> set (dc_pending c) \<Longrightarrow> s < dc_seq c"
  by (rule seq_bound [of c "dc_promises c ! p"]) (auto simp: client_ok_def pending_ok_def)

lemma pending_append: "pending_ok pend ps \<Longrightarrow> pending_ok pend (ps @ [pr])"
  by (auto simp: pending_ok_def nth_append intro: less_SucI)

lemma send_ok:
  assumes ok: "client_ok c"
  shows "client_ok (sendRequest call c)"
proof (cases "ws_open c")
  case False
  with ok show ?thesis
    by (simp add: client_ok_def sendRequest_def seqs_append promise_ok_def pending_append)
next
  case True
  have fresh: "dc_seq c \<notin> fst ` set (dc_pending c)"
    using pending_bound [OF ok] by fastforce
  let ?pr = "\<lparr>pm_call = call, pm_seq = Some (dc_seq c), pm_outcome = Awaiting\<rparr>"
  have "pending_ok (dc_pending c) (dc_promises c @ [?pr])"
    using ok by (intro pending_append) (simp add: client_ok_def)
  then have "pending_ok (AList.update (dc_seq c) (length (dc_promises c)) (dc_pending c)) (dc_promises c @ [?pr])"
    using fresh by (auto simp: pending_ok_def obj_update_fresh)
  with True ok show ?thesis
    by (simp add: client_ok_def sendRequest_def seqs_append promise_ok_def)
qed

lemma send_watched:
  assumes ok: "client_ok c" and w: "watched c"
  shows "watched (sendRequest call c)"
proof -
  have fresh: "dc_seq c \<notin> fst ` set (dc_pending c)"
    using pending_bound [OF ok] by fastforce
  have "\<exists>s. (s, p) \<in> set (dc_pending (sendRequest call c)) \<and> s \<in> set (dc_timers (sendRequest call c))"
    if p: "p < length (dc_promises (sendRequest call c))" "pm_outcome (dc_promises (sendRequest call c) ! p) = Awaiting" for p
  proof (cases "p < length (dc_promises c)")
    case True
    with p(2) have "pm_outcome (dc_promises c ! p) = Awaiting"
      by (auto simp: sendRequest_def nth_append split: if_splits)
    with w True obtain s where "(s, p) \<in> set (dc_pending c)" "s \<in> set (dc_timers c)"
      by (auto simp: watched_def)
    then show ?thesis
      using fresh by (auto simp: sendRequest_def obj_update_fresh)
  next
    case False
    with p have "ws_open c" "p = length (dc_promises c)"
      by (auto simp: sendRequest_def nth_append split: if_splits)
    then show ?thesis
      using fresh by (auto simp: sendRequest_def obj_update_fresh)
  qed
  then show ?thesis by (simp add: watched_def)
qed

text \<open>Settling a pending promise, for a response or a timeout.\<close>

definition settles :: "nat \<Rightarrow> dap_outcome \<Rightarrow> bool" where
  "settles sq out \<longleftrightarrow> out \<noteq> Awaiting \<and> out \<noteq> NotConnected \<and> (\<forall>r. out = Answered r \<longrightarrow> rs_request_seq r = sq \<and> rs_success r)"

lemma settle_ok:
  assumes ok: "client_ok c" and p: "map_of (dc_pending c) sq = Some p" and out: "settles sq out"
  shows "client_ok (settle_promise p out (c\<lparr>dc_pending := AList.delete sq (dc_pending c)\<rparr>))"
proof -
  have sp: "(sq, p) \<in> set (dc_pending c)"
    using p by (rule map_of_SomeD)
  with ok have pr: "p < length (dc_promises c)" "pm_seq (dc_promises c ! p) = Some sq"
    "pm_outcome (dc_promises c ! p) = Awaiting"
    by (auto simp: client_ok_def pending_ok_def)
  let ?ps = "(dc_promises c)[p := (dc_promises c ! p)\<lparr>pm_outcome := out\<rparr>]"
  have other: "q \<noteq> p" if "(s, q) \<in> set (AList.delete sq (dc_pending c))" for s q
  proof
    assume "q = p"
    moreover have "(s, q) \<in> set (dc_pending c)" "s \<noteq> sq"
      using that by (auto simp: set_obj_delete)
    ultimately show False
      using ok pr(2) by (auto simp: client_ok_def pending_ok_def)
  qed
  have "s' < length ?ps \<and> pm_seq (?ps ! s') = Some s \<and> pm_outcome (?ps ! s') = Awaiting"
    if "(s, s') \<in> set (AList.delete sq (dc_pending c))" for s s'
  proof -
    have "?ps ! s' = dc_promises c ! s'"
      using other [OF that] by (metis nth_list_update_neq)
    moreover have "(s, s') \<in> set (dc_pending c)"
      using that by (auto simp: set_obj_delete)
    ultimately show ?thesis
      using ok by (simp add: client_ok_def pending_ok_def)
  qed
  then have "pending_ok (AList.delete sq (dc_pending c)) ?ps"
    using ok by (simp add: client_ok_def pending_ok_def distinct_delete)
  moreover have "\<forall>pr \<in> set ?ps. promise_ok pr"
    using ok pr out by (auto simp: client_ok_def promise_ok_def settles_def dest!: subsetD [OF set_update_subset_insert])
  ultimately show ?thesis
    using ok pr(3) by (simp add: client_ok_def settle_promise_def seqs_update)
qed

lemma settle_watched:
  assumes ok: "client_ok c" and w: "watched c" and p: "map_of (dc_pending c) sq = Some p" and out: "settles sq out"
    and t: "set (dc_timers c) - {sq} \<subseteq> set ts"
  shows "watched (settle_promise p out (c\<lparr>dc_timers := ts, dc_pending := AList.delete sq (dc_pending c)\<rparr>))"
proof -
  have sp: "(sq, p) \<in> set (dc_pending c)"
    using p by (rule map_of_SomeD)
  with ok have pr: "p < length (dc_promises c)" "pm_outcome (dc_promises c ! p) = Awaiting"
    by (auto simp: client_ok_def pending_ok_def)
  have "\<exists>s. (s, q) \<in> set (AList.delete sq (dc_pending c)) \<and> s \<in> set ts"
    if q: "q < length (dc_promises c)" "pm_outcome (dc_promises c ! q) = Awaiting" "q \<noteq> p" for q
  proof -
    obtain s where s: "(s, q) \<in> set (dc_pending c)" "s \<in> set (dc_timers c)"
      using w q by (auto simp: watched_def)
    moreover have "s \<noteq> sq"
      using sp s(1) q(3) ok by (metis client_ok_def pending_ok_def eq_key_imp_eq_value)
    ultimately show ?thesis
      using t by (auto simp: set_obj_delete)
  qed
  with pr out show ?thesis
    by (auto simp: watched_def settle_promise_def nth_list_update settles_def)
qed

lemma response_settles: "settles (rs_request_seq r) (response_outcome r)"
  by (simp add: settles_def response_outcome_def)

lemma timeout_settles: "settles sq TimedOut"
  by (simp add: settles_def)

lemma client_ok_fields [simp]:
  "client_ok (c\<lparr>dc_timers := ts\<rparr>) = client_ok c" "client_ok (c\<lparr>dc_notified := ns\<rparr>) = client_ok c"
  "client_ok (c\<lparr>dc_sockets := ss\<rparr>) = client_ok c" "client_ok (c\<lparr>dc_ws := g\<rparr>) = client_ok c"
  "client_ok (c\<lparr>dc_handlers := hs\<rparr>) = client_ok c"
  by (simp_all add: client_ok_def)

lemma watched_fields [simp]:
  "watched (c\<lparr>dc_notified := ns\<rparr>) = watched c" "watched (c\<lparr>dc_sockets := ss\<rparr>) = watched c"
  "watched (c\<lparr>dc_ws := g\<rparr>) = watched c" "watched (c\<lparr>dc_handlers := hs\<rparr>) = watched c"
  by (simp_all add: watched_def)

lemma timeout_ok: "client_ok c \<Longrightarrow> client_ok (request_timeout sq c)"
  using settle_ok [of "c\<lparr>dc_timers := filter (\<lambda>t. t \<noteq> sq) (dc_timers c)\<rparr>" sq _ TimedOut] timeout_settles
  by (auto simp: request_timeout_def Let_def split: option.split)

lemma timeout_watched:
  assumes ok: "client_ok c" and w: "watched c"
  shows "watched (request_timeout sq c)"
proof (cases "map_of (dc_pending c) sq")
  case None
  have "s \<noteq> sq" if "(s, p) \<in> set (dc_pending c)" for s p
    using None that by (auto simp: map_of_eq_None_iff image_iff)
  with w None show ?thesis
    by (fastforce simp: request_timeout_def watched_def)
next
  case (Some p)
  then have "watched (settle_promise p TimedOut (c\<lparr>dc_timers := filter (\<lambda>t. t \<noteq> sq) (dc_timers c),
      dc_pending := AList.delete sq (dc_pending c)\<rparr>))"
    by (intro settle_watched [OF ok w Some timeout_settles]) auto
  with Some show ?thesis
    by (simp add: request_timeout_def)
qed

text \<open>The store stays well-formed, whatever an event or a response brings.\<close>

lemma updateSessionState_ok: "debug_ok st \<Longrightarrow> state \<noteq> Stopped \<Longrightarrow> debug_ok (updateSessionState i state st)"
  using debug_step_ok [of st "UpdateSessionState i state"] by simp

lemma setters_ok:
  "debug_ok st \<Longrightarrow> debug_ok (setThreads i ts st)" "debug_ok st \<Longrightarrow> debug_ok (setStackFrames i fs st)"
  "debug_ok st \<Longrightarrow> debug_ok (setScopes i scs st)" "debug_ok st \<Longrightarrow> debug_ok (setVariables i r vs st)"
  "debug_ok st \<Longrightarrow> debug_ok (setStopped i reason t st)" "debug_ok st \<Longrightarrow> debug_ok (addConsoleOutput k s now st)"
  using debug_step_ok [of st "SetThreads i ts"] debug_step_ok [of st "SetStackFrames i fs"]
    debug_step_ok [of st "SetScopes i scs"] debug_step_ok [of st "SetVariables i r vs"]
    debug_step_ok [of st "SetStopped i reason t"] debug_step_ok [of st "AddConsoleOutput k s now"]
  by simp_all

lemma after_response_ok: "debug_ok st \<Longrightarrow> debug_ok (after_response sid call r st)"
  by (cases call) (simp_all add: setters_ok)

lemma handleEvent_ok:
  assumes "dap_ok w"
  shows "dap_ok (handleEvent now ev w)"
proof -
  have "debug_ok (snd (handleEvent now ev w))"
    using assms by (cases ev)
      (auto simp: handleEvent_def Let_def dap_ok_def intro: updateSessionState_ok setters_ok update_breakpoint_ok
        split: option.split)
  moreover have "client_ok (fst (handleEvent now ev w))"
    using assms by (cases ev) (auto simp: handleEvent_def Let_def dap_ok_def intro: send_ok)
  ultimately show ?thesis by (simp add: dap_ok_def)
qed

lemma handleEvent_watched: "dap_ok w \<Longrightarrow> watched (fst w) \<Longrightarrow> watched (fst (handleEvent now ev w))"
  by (cases ev) (auto simp: handleEvent_def Let_def dap_ok_def intro: send_watched)

lemma handleMessage_client:
  "fst (handleMessage now m w) =
    (let c = (case m of
         ResponseMsg r \<Rightarrow>
           (case map_of (dc_pending (fst w)) (rs_request_seq r) of
              None \<Rightarrow> fst w
            | Some p \<Rightarrow> settle_promise p (response_outcome r)
                (fst w\<lparr>dc_pending := AList.delete (rs_request_seq r) (dc_pending (fst w))\<rparr>))
       | EventMsg ev \<Rightarrow> fst (handleEvent now ev w)
       | OtherMsg \<Rightarrow> fst w)
     in c\<lparr>dc_notified := dc_notified c @ map (\<lambda>h. (h, m)) (dc_handlers c)\<rparr>)"
  by (simp add: handleMessage_def Let_def split_beta split: dap_message.split option.split)

lemma handleMessage_store: "debug_ok (snd w) \<Longrightarrow> dap_ok w \<Longrightarrow> debug_ok (snd (handleMessage now m w))"
  using handleEvent_ok [of w now]
  by (auto simp: handleMessage_def Let_def split_beta dap_ok_def after_response_ok
      split: dap_message.split option.split)

lemma handleMessage_ok: "dap_ok w \<Longrightarrow> dap_ok (handleMessage now m w)"
  using handleEvent_ok [of w now] handleMessage_store [of w now m] settle_ok [OF _ _ response_settles, of "fst w"]
  by (auto simp: dap_ok_def handleMessage_client Let_def split: dap_message.split option.split)

lemma handleMessage_watched:
  assumes "dap_ok w" "watched (fst w)"
  shows "watched (fst (handleMessage now m w))"
proof -
  have "watched (settle_promise p (response_outcome r)
      (fst w\<lparr>dc_pending := AList.delete (rs_request_seq r) (dc_pending (fst w))\<rparr>))"
    if "map_of (dc_pending (fst w)) (rs_request_seq r) = Some p" for r p
    using settle_watched [OF _ assms(2) that response_settles, of "dc_timers (fst w)"] assms(1)
    by (simp add: dap_ok_def)
  with assms handleEvent_watched [of w now] show ?thesis
    by (auto simp: handleMessage_client Let_def split: dap_message.split option.split)
qed

lemma connect_close [simp]:
  "client_ok (dap_connect c) = client_ok c" "watched (dap_connect c) = watched c"
  "client_ok c \<Longrightarrow> client_ok (dap_close c)"
  "client_ok (onMessage h c) = client_ok c" "client_ok (offMessage h c) = client_ok c"
  "watched (onMessage h c) = watched c" "watched (offMessage h c) = watched c"
  by (simp_all add: dap_connect_def dap_close_def onMessage_def offMessage_def client_ok_def watched_def pending_ok_def)

lemma dap_step_ok:
  assumes "dap_ok w" "dap_guard a w"
  shows "dap_ok (dap_step a w)"
proof (cases a)
  case (SocketMessage g now m)
  with assms show ?thesis by (auto intro: handleMessage_ok split: option.split)
next
  case (DapCall call)
  with assms show ?thesis
    by (auto simp: dap_call_made_def dap_ok_def intro: send_ok updateSessionState_ok split: dap_call.split)
qed (use assms in \<open>auto simp: dap_ok_def socket_opened_def socket_closed_def
      intro: timeout_ok updateSessionState_ok debug_step_ok\<close>)

lemma watched_step:
  assumes "dap_ok w" "watched (fst w)" "a \<noteq> DapClose"
  shows "watched (fst (dap_step a w))"
proof (cases a)
  case (SocketMessage g now m)
  with assms show ?thesis by (auto intro: handleMessage_watched split: option.split)
next
  case (RequestTimeout sq)
  with assms show ?thesis by (simp add: dap_ok_def timeout_watched)
qed (use assms in \<open>auto simp: dap_ok_def dap_call_made_def socket_opened_def socket_closed_def intro: send_watched\<close>)

lemma new_dap_ok: "dap_ok (new_dap i, init_debug)"
  by (simp add: dap_ok_def client_ok_def new_dap_def pending_ok_def init_debug_ok)

definition open_guard :: "dap_action \<Rightarrow> dap_world \<Rightarrow> bool" where
  "open_guard a w \<longleftrightarrow> dap_guard a w \<and> a \<noteq> DapClose"

interpretation dap: machine dap_step dap_guard dap_ok "(new_dap i, init_debug)" for i
  by unfold_locales (auto intro: new_dap_ok dap_step_ok)

interpretation dap_open: machine dap_step open_guard "\<lambda>w. dap_ok w \<and> watched (fst w)" "(new_dap i, init_debug)" for i
proof
  show "dap_ok (new_dap i, init_debug) \<and> watched (fst (new_dap i, init_debug))"
    by (simp add: new_dap_ok) (simp add: watched_def new_dap_def)
  show "dap_ok (dap_step a w) \<and> watched (fst (dap_step a w))" if "dap_ok w \<and> watched (fst w)" "open_guard a w" for a w
    using that by (auto simp: open_guard_def intro: dap_step_ok watched_step)
qed

section \<open>Timers\<close>

text \<open>A number is used once, so the timer of a request that has fired or was never armed stays gone.\<close>

definition timer_gone :: "nat \<Rightarrow> dap_client \<Rightarrow> bool" where
  "timer_gone s c \<longleftrightarrow> s < dc_seq c \<and> s \<notin> set (dc_timers c)"

lemma timer_gone_send: "timer_gone s c \<Longrightarrow> timer_gone s (sendRequest call c)"
  by (auto simp: timer_gone_def sendRequest_def)

lemma timer_gone_settle [simp]: "timer_gone s (settle_promise p out c) = timer_gone s c"
  by (simp add: timer_gone_def settle_promise_def)

lemma timer_gone_fields [simp]:
  "timer_gone s (c\<lparr>dc_pending := x\<rparr>) = timer_gone s c" "timer_gone s (c\<lparr>dc_notified := ns\<rparr>) = timer_gone s c"
  "timer_gone s (c\<lparr>dc_sockets := ss\<rparr>) = timer_gone s c" "timer_gone s (c\<lparr>dc_ws := g\<rparr>) = timer_gone s c"
  "timer_gone s (c\<lparr>dc_handlers := hs\<rparr>) = timer_gone s c"
  by (simp_all add: timer_gone_def)

lemma timer_gone_timeout: "timer_gone s c \<or> s = t \<and> s < dc_seq c \<Longrightarrow> timer_gone s (request_timeout t c)"
  by (auto simp: request_timeout_def Let_def split: option.split, auto simp: timer_gone_def)

lemma timer_gone_step: "timer_gone s (fst w) \<Longrightarrow> timer_gone s (fst (dap_step a w))"
proof (cases a)
  case (SocketMessage g now m)
  assume gone: "timer_gone s (fst w)"
  have "timer_gone s (fst (handleEvent now ev w))" for ev
    using gone by (cases ev) (auto simp: handleEvent_def Let_def intro: timer_gone_send)
  with gone SocketMessage show ?thesis
    by (auto simp: handleMessage_client Let_def split: option.split dap_message.split)
qed (auto simp: dap_call_made_def socket_opened_def socket_closed_def dap_connect_def dap_close_def
    onMessage_def offMessage_def intro: timer_gone_send timer_gone_timeout)

lemma timer_gone_run: "timer_gone s (fst w) \<Longrightarrow> timer_gone s (fst (fold dap_step as w))"
  by (induction as arbitrary: w) (simp_all add: timer_gone_step)

text \<open>A timer is armed only with a number that was given out.\<close>

lemma timers_bound_send: "\<forall>s \<in> set (dc_timers c). s < dc_seq c \<Longrightarrow> \<forall>s \<in> set (dc_timers (sendRequest call c)). s < dc_seq (sendRequest call c)"
  by (auto simp: sendRequest_def)

lemma timers_bound_step:
  "\<forall>s \<in> set (dc_timers (fst w)). s < dc_seq (fst w) \<Longrightarrow> \<forall>s \<in> set (dc_timers (fst (dap_step a w))). s < dc_seq (fst (dap_step a w))"
proof (cases a)
  case (SocketMessage g now m)
  assume b: "\<forall>s \<in> set (dc_timers (fst w)). s < dc_seq (fst w)"
  have "\<forall>s \<in> set (dc_timers (fst (handleEvent now ev w))). s < dc_seq (fst (handleEvent now ev w))" for ev
    using b timers_bound_send [OF b] by (cases ev) (auto simp: handleEvent_def Let_def)
  with b SocketMessage show ?thesis
    by (auto simp: handleMessage_client Let_def settle_promise_def split: option.split dap_message.split)
qed (use timers_bound_send in \<open>auto simp: dap_call_made_def socket_opened_def socket_closed_def dap_connect_def dap_close_def
    onMessage_def offMessage_def request_timeout_def settle_promise_def Let_def split: option.split\<close>)

lemma timers_bound: "\<forall>s \<in> set (dc_timers (fst (fold dap_step as (new_dap i, init_debug)))). s < dc_seq (fst (fold dap_step as (new_dap i, init_debug)))"
proof (induction as rule: rev_induct)
  case (snoc a as)
  then show ?case by (simp add: timers_bound_step)
qed (simp add: new_dap_def)

lemma fired_timer_gone:
  assumes "guarded dap_guard dap_step as (new_dap i, init_debug)" "RequestTimeout s \<in> set as"
  shows "timer_gone s (fst (fold dap_step as (new_dap i, init_debug)))"
proof -
  let ?w = "(new_dap i, init_debug)"
  from assms(2) obtain xs ys where as: "as = xs @ RequestTimeout s # ys"
    by (meson split_list)
  have "s \<in> set (dc_timers (fst (fold dap_step xs ?w)))"
    using assms(1) by (simp add: as guarded_append)
  then have "timer_gone s (fst (dap_step (RequestTimeout s) (fold dap_step xs ?w)))"
    using timers_bound [of xs i] by (simp add: timer_gone_timeout)
  from timer_gone_run [OF this, of ys] show ?thesis
    by (simp add: as)
qed

section \<open>Properties\<close>

text \<open>
  C20: Whatever arrives and in whatever order, a call's promise is answered only with the response
  to its own request: no two requests share a number, and the promise with number \<open>s\<close> holds a
  successful response whose \<open>request_seq\<close> is \<open>s\<close>.
\<close>

theorem dap_answers_match:
  assumes "guarded dap_guard dap_step as (new_dap i, init_debug)" "c = fst (fold dap_step as (new_dap i, init_debug))"
    and "pr \<in> set (dc_promises c)" "pm_outcome pr = Answered r"
  shows "pm_seq pr = Some (rs_request_seq r) \<and> rs_success r \<and> distinct (map rq_seq (dc_sent c)) \<and>
    rs_request_seq r \<in> set (map rq_seq (dc_sent c))"
proof -
  have ok: "client_ok c"
    using dap.inv_history [OF assms(1)] unfolding assms(2) by (simp add: dap_ok_def)
  then have "pm_seq pr = Some (rs_request_seq r)" "rs_success r"
    using assms(3,4) by (auto simp: client_ok_def promise_ok_def)
  moreover from this have "rs_request_seq r \<in> set (List.map_filter pm_seq (dc_promises c))"
    using assms(3) by (force simp: List.map_filter_def)
  ultimately show ?thesis
    using ok by (simp add: client_ok_def)
qed

text \<open>
  C21: As long as the client is not closed every call settles: a call that was refused has settled at
  once, and one that was sent has settled when its own timer has fired, whatever the other calls do
  and whatever else arrives; so has any call whose timer is not armed any more.
\<close>

theorem dap_calls_settle:
  assumes "guarded open_guard dap_step as (new_dap i, init_debug)" "c = fst (fold dap_step as (new_dap i, init_debug))"
    and "pr \<in> set (dc_promises c)" "pm_outcome pr = Awaiting"
  shows "\<exists>s. pm_seq pr = Some s \<and> s \<in> set (dc_timers c) \<and> RequestTimeout s \<notin> set as"
proof -
  have ok: "client_ok c" "watched c"
    using dap_open.inv_history [OF assms(1)] by (simp_all add: assms(2) dap_ok_def)
  from assms(3) obtain p where p: "p < length (dc_promises c)" "dc_promises c ! p = pr"
    by (auto simp: in_set_conv_nth)
  with ok(2) assms(4) obtain s where s: "(s, p) \<in> set (dc_pending c)" "s \<in> set (dc_timers c)"
    by (auto simp: watched_def)
  have "pm_seq pr = Some s"
    using ok(1) s(1) p(2) by (auto simp: client_ok_def pending_ok_def)
  moreover have "guarded dap_guard dap_step as (new_dap i, init_debug)"
    using assms(1) by (rule guarded_mono) (simp add: open_guard_def)
  then have "RequestTimeout s \<notin> set as"
    using fired_timer_gone [of as i s] s(2) by (auto simp: timer_gone_def assms(2))
  ultimately show ?thesis using s(2) by blast
qed

text \<open>A promise that waits although no pending entry leads to it.\<close>

definition abandoned :: "nat \<Rightarrow> dap_client \<Rightarrow> bool" where
  "abandoned p c \<longleftrightarrow> p < length (dc_promises c) \<and> pm_outcome (dc_promises c ! p) = Awaiting \<and>
     p \<notin> snd ` set (dc_pending c)"

lemma abandoned_send: "client_ok c \<Longrightarrow> abandoned p c \<Longrightarrow> abandoned p (sendRequest call c)"
proof -
  assume ok: "client_ok c" and p: "abandoned p c"
  have "dc_seq c \<notin> fst ` set (dc_pending c)"
    using pending_bound [OF ok] by fastforce
  with p show ?thesis
    by (auto simp: abandoned_def sendRequest_def nth_append obj_update_fresh)
qed

lemma abandoned_settle:
  "abandoned p c \<Longrightarrow> map_of (dc_pending c) sq = Some q \<Longrightarrow>
   abandoned p (settle_promise q out (c\<lparr>dc_pending := AList.delete sq (dc_pending c)\<rparr>))"
proof -
  assume p: "abandoned p c" and "map_of (dc_pending c) sq = Some q"
  then have "(sq, q) \<in> set (dc_pending c)" by (auto dest: map_of_SomeD)
  with p have "q \<noteq> p" by (force simp: abandoned_def)
  then have "(dc_promises c)[q := x] ! p = dc_promises c ! p" for x by simp
  with p show ?thesis
    by (auto simp: abandoned_def settle_promise_def set_obj_delete image_iff)
qed

lemma abandoned_fields [simp]:
  "abandoned p (c\<lparr>dc_timers := ts\<rparr>) = abandoned p c" "abandoned p (c\<lparr>dc_notified := ns\<rparr>) = abandoned p c"
  "abandoned p (c\<lparr>dc_sockets := ss\<rparr>) = abandoned p c" "abandoned p (c\<lparr>dc_ws := g\<rparr>) = abandoned p c"
  "abandoned p (c\<lparr>dc_handlers := hs\<rparr>) = abandoned p c"
  by (simp_all add: abandoned_def)

lemma abandoned_step:
  assumes "dap_ok w" "abandoned p (fst w)"
  shows "abandoned p (fst (dap_step a w))"
proof (cases a)
  case (SocketMessage g now m)
  have "abandoned p (fst (handleEvent now ev w))" for ev
    using assms by (cases ev) (auto simp: handleEvent_def Let_def dap_ok_def intro: abandoned_send)
  with assms SocketMessage show ?thesis
    by (auto simp: handleMessage_client Let_def intro: abandoned_settle split: option.split dap_message.split)
next
  case (RequestTimeout sq)
  with assms abandoned_settle [of p "fst w\<lparr>dc_timers := filter (\<lambda>t. t \<noteq> sq) (dc_timers (fst w))\<rparr>"] show ?thesis
    by (auto simp: request_timeout_def Let_def split: option.split)
next
  case DapClose
  with assms show ?thesis by (simp add: dap_close_def abandoned_def)
qed (use assms in \<open>auto simp: dap_ok_def dap_call_made_def socket_opened_def socket_closed_def dap_connect_def
      onMessage_def offMessage_def intro: abandoned_send\<close>)

lemma abandoned_run:
  "dap_ok w \<Longrightarrow> abandoned p (fst w) \<Longrightarrow> guarded dap_guard dap_step as w \<Longrightarrow> abandoned p (fst (fold dap_step as w))"
proof (induction as arbitrary: w)
  case (Cons a as)
  then have "dap_ok (dap_step a w)" "abandoned p (fst (dap_step a w))"
    by (auto intro: abandoned_step dap_step_ok)
  with Cons.IH Cons.prems(3) show ?case by simp
qed simp

text \<open>
  Closing the client abandons its calls: one that waits when \<open>close\<close> is called is never
  settled, neither by a response nor by its timer.
\<close>

theorem closed_calls_never_settle:
  assumes "guarded dap_guard dap_step as (new_dap i, init_debug)" "w = fold dap_step as (new_dap i, init_debug)"
    and "p < length (dc_promises (fst w))" "pm_outcome (dc_promises (fst w) ! p) = Awaiting"
    and "guarded dap_guard dap_step bs (dap_step DapClose w)"
  shows "pm_outcome (dc_promises (fst (fold dap_step bs (dap_step DapClose w))) ! p) = Awaiting"
proof -
  have "dap_ok w"
    unfolding assms(2) by (rule dap.inv_history [OF assms(1)])
  then have "dap_ok (dap_step DapClose w)"
    by (rule dap_step_ok) simp
  moreover have "abandoned p (fst (dap_step DapClose w))"
    using assms(3,4) by (simp add: abandoned_def dap_close_def)
  ultimately show ?thesis
    using abandoned_run assms(5) by (fastforce simp: abandoned_def)
qed

text \<open>
  The \<open>breakpoint\<close> event looks for the breakpoint in the client's session and updates it in the
  active one: when that is another session, the verification is lost.
\<close>

lemma edit_debug_other: "j \<noteq> i \<Longrightarrow> map_of (db_sessions (edit_debug j f st)) i = map_of (db_sessions st) i"
  by (simp add: edit_debug_def split: option.split)

lemma breakpoint_event_needs_active:
  assumes "db_activeSessionId (snd w) \<noteq> Some (dc_sessionId (fst w))"
  shows "map_of (db_sessions (snd (handleEvent now (EvBreakpoint body) w))) (dc_sessionId (fst w)) =
    map_of (db_sessions (snd w)) (dc_sessionId (fst w))"
proof -
  have "the (db_activeSessionId (snd w)) \<noteq> dc_sessionId (fst w)" if "truthy (db_activeSessionId (snd w))"
    using assms that by (auto simp: truthy_def split: option.splits)
  then show ?thesis
    by (simp add: handleEvent_def Let_def updateBreakpoint_def edit_active_def edit_debug_other split: option.split)
qed

section \<open>An example run\<close>

definition ex_reply :: "nat \<Rightarrow> dap_response" where
  "ex_reply s = \<lparr>rs_request_seq = s, rs_success = True, rs_command = ''threads'', rs_message = None,
     rs_body = Some \<lparr>rb_threads = Some [\<lparr>th_id = 1, th_name = ''main''\<rparr>], rb_stackFrames = None,
       rb_scopes = None, rb_variables = None\<rparr>\<rparr>"

definition ex_dap :: "dap_action list" where
  "ex_dap = [StoreAction (CreateDebugSession ''s'' ''Debug'' ''node''), DapConnect, SocketOpened 0,
     DapCall DapThreads, DapCall (DapScopes 1)]"

lemmas dap_run_defs = ex_dap_def new_dap_def init_debug_def createDebugSession_def dap_connect_def socket_opened_def
  updateSessionState_def edit_debug_def dap_call_made_def sendRequest_def ws_open_def

definition ex_world :: dap_world where
  "ex_world = fold dap_step ex_dap (new_dap ''s'', init_debug)"

lemma ex_dap_guarded: "guarded open_guard dap_step ex_dap (new_dap ''s'', init_debug)"
  by (simp add: dap_run_defs open_guard_def)

lemma ex_promises:
  "dc_promises (fst ex_world) =
     [\<lparr>pm_call = DapThreads, pm_seq = Some 1, pm_outcome = Awaiting\<rparr>,
      \<lparr>pm_call = DapScopes 1, pm_seq = Some 2, pm_outcome = Awaiting\<rparr>]"
  "dc_pending (fst ex_world) = [(1, 0), (2, 1)]" "dc_timers (fst ex_world) = [1, 2]"
  "dc_sockets (fst ex_world) = [WsOpen]" "dc_handlers (fst ex_world) = []" "dc_ws (fst ex_world) = Some 0"
  by (simp_all add: ex_world_def dap_run_defs)

theorem dap_answers_match_witness:
  "\<exists>c pr r. c = fst (fold dap_step (ex_dap @ [SocketMessage 0 5 (Some (ResponseMsg (ex_reply 2)))]) (new_dap ''s'', init_debug)) \<and>
     pr \<in> set (dc_promises c) \<and> pm_outcome pr = Answered r \<and> rs_request_seq r = 2 \<and>
     pm_seq pr = Some (rs_request_seq r) \<and> rs_success r"
proof -
  let ?as = "ex_dap @ [SocketMessage 0 5 (Some (ResponseMsg (ex_reply 2)))]"
  let ?c = "fst (fold dap_step ?as (new_dap ''s'', init_debug))"
  let ?pr = "\<lparr>pm_call = DapScopes 1, pm_seq = Some 2, pm_outcome = Answered (ex_reply 2)\<rparr>"
  have "guarded dap_guard dap_step ?as (new_dap ''s'', init_debug)"
    by (simp add: dap_run_defs)
  moreover have "?pr \<in> set (dc_promises ?c)"
    by (simp add: dap_run_defs handleMessage_def settle_promise_def response_outcome_def ex_reply_def Let_def)
  ultimately have "pm_seq ?pr = Some (rs_request_seq (ex_reply 2)) \<and> rs_success (ex_reply 2)"
    using dap_answers_match [OF _ refl, of ?as "''s''" ?pr "ex_reply 2"] by simp
  with \<open>?pr \<in> set (dc_promises ?c)\<close> show ?thesis
    by (intro exI [of _ ?c] exI [of _ ?pr] exI [of _ "ex_reply 2"]) (simp add: ex_reply_def)
qed

theorem dap_calls_settle_witness:
  "\<exists>pr. pm_seq pr = Some 1 \<and> pr \<in> set (dc_promises (fst (fold dap_step (ex_dap @ [RequestTimeout 1]) (new_dap ''s'', init_debug)))) \<and>
     pm_outcome pr \<noteq> Awaiting"
proof -
  let ?as = "ex_dap @ [RequestTimeout 1]"
  have g: "guarded open_guard dap_step ?as (new_dap ''s'', init_debug)"
    by (simp add: dap_run_defs open_guard_def request_timeout_def settle_promise_def)
  have "\<exists>pr \<in> set (dc_promises (fst (fold dap_step ?as (new_dap ''s'', init_debug)))). pm_seq pr = Some 1"
    by (simp add: dap_run_defs request_timeout_def settle_promise_def)
  then obtain pr where pr: "pr \<in> set (dc_promises (fst (fold dap_step ?as (new_dap ''s'', init_debug))))" "pm_seq pr = Some 1" ..
  have "pm_outcome pr \<noteq> Awaiting"
    using dap_calls_settle [OF g refl pr(1)] pr(2) by auto
  with pr show ?thesis by blast
qed

theorem closed_calls_never_settle_witness:
  "pm_outcome (dc_promises (fst (fold dap_step [RequestTimeout 1, SocketClosed 0, RequestTimeout 2]
     (dap_step DapClose (fold dap_step ex_dap (new_dap ''s'', init_debug))))) ! 1) = Awaiting"
  by (rule closed_calls_never_settle [OF _ refl])
    (simp_all add: dap_run_defs dap_close_def request_timeout_def settle_promise_def socket_closed_def)

end
