(* ===== verification/Ui_Store.thy ===== *)
theory Ui_Store
  imports Js_Text Js_Number Machines
begin

text \<open>
  The UI store (\<open>apps/web/src/stores/ui.ts\<close>): the side bars and their panels, overlays, terminal,
  bottom panel, modals, mobile sheets, widget settings per session, and the synchronisation of
  the preferences. Sizes and panel heights are doubles. The debounced synchronisation is a timer
  (\<open>ui_syncArmed\<close>) whose event sends the preferences of that moment; an announcement is cleared by
  a timer of its own. The defaults of the configuration store are arguments.
\<close>

section \<open>Data\<close>

datatype theme = DarkTheme | LightTheme | SystemTheme

datatype resolved_theme = ResolvedDark | ResolvedLight

record grid_config =
  gc_columns :: int
  gc_rowHeight :: int
  gc_maxRows :: int
  gc_maxCols :: int

definition DEFAULT_GRID_CONFIG :: grid_config where
  "DEFAULT_GRID_CONFIG = \<lparr>gc_columns = 2, gc_rowHeight = 300, gc_maxRows = 0, gc_maxCols = 0\<rparr>"

datatype panel_id =
    PanelAgents | PanelFiles | PanelGit | PanelGithub | PanelMcp | PanelExtensions | PanelSearch
  | PanelUsage | PanelSentry | PanelSkills | PanelHealth | PanelTunnels | PanelOpenclaw

fun panel_name :: "panel_id \<Rightarrow> string" where
  "panel_name PanelAgents = ''agents''"
| "panel_name PanelFiles = ''files''"
| "panel_name PanelGit = ''git''"
| "panel_name PanelGithub = ''github''"
| "panel_name PanelMcp = ''mcp''"
| "panel_name PanelExtensions = ''extensions''"
| "panel_name PanelSearch = ''search''"
| "panel_name PanelUsage = ''usage''"
| "panel_name PanelSentry = ''sentry''"
| "panel_name PanelSkills = ''skills''"
| "panel_name PanelHealth = ''health''"
| "panel_name PanelTunnels = ''tunnels''"
| "panel_name PanelOpenclaw = ''openclaw''"

datatype sidebar_side = LeftSide | RightSide

record panel_slot =
  ps_panelId :: panel_id
  ps_height :: rat

record sidebar_config =
  sb_collapsed :: bool
  sb_width :: rat
  sb_panels :: "panel_slot list"

record sidebar_layout =
  sl_left :: sidebar_config
  sl_right :: sidebar_config

definition DEFAULT_SIDEBAR_LAYOUT :: sidebar_layout where
  "DEFAULT_SIDEBAR_LAYOUT =
     \<lparr>sl_left = \<lparr>sb_collapsed = False, sb_width = 280,
        sb_panels = [\<lparr>ps_panelId = PanelFiles, ps_height = 50\<rparr>, \<lparr>ps_panelId = PanelGit, ps_height = 50\<rparr>]\<rparr>,
      sl_right = \<lparr>sb_collapsed = False, sb_width = 360,
        sb_panels = [\<lparr>ps_panelId = PanelAgents, ps_height = 60\<rparr>, \<lparr>ps_panelId = PanelMcp, ps_height = 40\<rparr>]\<rparr>\<rparr>"

definition normalizePanelHeights :: "panel_slot list \<Rightarrow> panel_slot list" where
  "normalizePanelHeights panels =
     (if panels = [] then []
      else let tot = foldl (\<lambda>sum p. double_add sum (ps_height p)) 0 panels
           in if tot = 0 then map (\<lambda>p. p\<lparr>ps_height := to_double (100 / of_nat (length panels))\<rparr>) panels
              else map (\<lambda>p. p\<lparr>ps_height := double_mult (to_double (ps_height p / tot)) 100\<rparr>) panels)"

record widget_filters =
  wf_branch :: "string option"
  wf_status :: "string option"

record widget_repo =
  wr_owner :: string
  wr_repo :: string

record widget_panels =
  wp_pullRequestsOpen :: "bool option"
  wp_actionsOpen :: "bool option"

datatype shell = Bash | Zsh | Fish

datatype bottom_panel = PanelOutput | PanelProblems | PanelTerminal

datatype file_kind = PlainFile | DirectoryFile

record mobile_file =
  mo_path :: string
  mo_content :: string
  mo_language :: string

record file_target =
  ft_path :: string
  ft_name :: string
  ft_type :: file_kind

text \<open>What the store sends to the server.\<close>

record ui_prefs =
  up_sidebarLayout :: sidebar_layout
  up_gitWidgetSettings :: "string option obj"
  up_githubFilters :: "widget_filters obj"
  up_githubRepo :: "widget_repo option obj"
  up_githubPanels :: "widget_panels obj"
  up_terminalHeight :: rat
  up_panelHeight :: rat
  up_prefersReducedMotion :: bool
  up_focusMode :: bool
  up_showHiddenFiles :: bool
  up_gridConfig :: grid_config

record ui_state =
  ui_hasHydrated :: bool
  ui_isLoading :: bool
  ui_lastSyncedAt :: "int option"
  ui_theme :: theme
  ui_resolvedTheme :: resolved_theme
  ui_documentTheme :: "resolved_theme option"
  ui_commandPaletteOpen :: bool
  ui_quickOpenOpen :: bool
  ui_globalSearchOpen :: bool
  ui_sidebarLayout :: sidebar_layout
  ui_gitWidgetSettings :: "string option obj"
  ui_githubFilters :: "widget_filters obj"
  ui_githubRepo :: "widget_repo option obj"
  ui_githubPanels :: "widget_panels obj"
  ui_terminalVisible :: bool
  ui_terminalHeight :: rat
  ui_defaultShell :: shell
  ui_pendingTerminalCommand :: "string option"
  ui_panelVisible :: bool
  ui_panelHeight :: rat
  ui_activePanel :: bottom_panel
  ui_activeModal :: "string option"
  ui_modalData :: "json obj"
  ui_announcement :: string
  ui_isMobileMenuOpen :: bool
  ui_mobileActiveWidget :: "string option"
  ui_mobileOpenFile :: "mobile_file option"
  ui_mobileFileActionsTarget :: "file_target option"
  ui_prefersReducedMotion :: bool
  ui_focusMode :: bool
  ui_showHiddenFiles :: bool
  ui_gridConfig :: grid_config
  ui_syncArmed :: bool
  ui_announceTimers :: nat
  ui_sent :: "ui_prefs list"

definition init_ui :: ui_state where
  "init_ui =
     \<lparr>ui_hasHydrated = False, ui_isLoading = False, ui_lastSyncedAt = None, ui_theme = DarkTheme,
      ui_resolvedTheme = ResolvedDark, ui_documentTheme = None, ui_commandPaletteOpen = False,
      ui_quickOpenOpen = False, ui_globalSearchOpen = False, ui_sidebarLayout = DEFAULT_SIDEBAR_LAYOUT,
      ui_gitWidgetSettings = [], ui_githubFilters = [], ui_githubRepo = [], ui_githubPanels = [],
      ui_terminalVisible = False, ui_terminalHeight = 300, ui_defaultShell = Bash,
      ui_pendingTerminalCommand = None, ui_panelVisible = False, ui_panelHeight = 200,
      ui_activePanel = PanelOutput, ui_activeModal = None, ui_modalData = [], ui_announcement = [],
      ui_isMobileMenuOpen = False, ui_mobileActiveWidget = None, ui_mobileOpenFile = None,
      ui_mobileFileActionsTarget = None, ui_prefersReducedMotion = False, ui_focusMode = False,
      ui_showHiddenFiles = False, ui_gridConfig = DEFAULT_GRID_CONFIG, ui_syncArmed = False,
      ui_announceTimers = 0, ui_sent = []\<rparr>"

section \<open>Synchronisation and announcements\<close>

definition debouncedSync :: "ui_state \<Rightarrow> ui_state" where
  "debouncedSync s = s\<lparr>ui_syncArmed := True\<rparr>"

definition prefsToSync :: "ui_state \<Rightarrow> ui_prefs" where
  "prefsToSync s =
     \<lparr>up_sidebarLayout = ui_sidebarLayout s, up_gitWidgetSettings = ui_gitWidgetSettings s,
      up_githubFilters = ui_githubFilters s, up_githubRepo = ui_githubRepo s,
      up_githubPanels = ui_githubPanels s, up_terminalHeight = ui_terminalHeight s,
      up_panelHeight = ui_panelHeight s, up_prefersReducedMotion = ui_prefersReducedMotion s,
      up_focusMode = ui_focusMode s, up_showHiddenFiles = ui_showHiddenFiles s, up_gridConfig = ui_gridConfig s\<rparr>"

text \<open>The timer fires; \<open>authenticated\<close> says that there are a user and tokens.\<close>

definition syncToServer :: "bool \<Rightarrow> ui_state \<Rightarrow> ui_state" where
  "syncToServer authenticated s = (if authenticated then s\<lparr>ui_sent := ui_sent s @ [prefsToSync s]\<rparr> else s)"

definition sync_timer :: "bool \<Rightarrow> ui_state \<Rightarrow> ui_state" where
  "sync_timer authenticated s = syncToServer authenticated (s\<lparr>ui_syncArmed := False\<rparr>)"

text \<open>The server answers with a configuration, with \<open>null\<close>, or with an error, which is only logged.\<close>

definition sync_answered :: "bool \<Rightarrow> int \<Rightarrow> ui_state \<Rightarrow> ui_state" where
  "sync_answered stored now s = (if stored then s\<lparr>ui_lastSyncedAt := Some now\<rparr> else s)"

record server_prefs =
  sp_sidebarLayout :: "sidebar_layout option"
  sp_gitWidgetSettings :: "string option obj option"
  sp_githubFilters :: "widget_filters obj option"
  sp_githubRepo :: "widget_repo option obj option"
  sp_githubPanels :: "widget_panels obj option"
  sp_terminalHeight :: "rat option"
  sp_panelHeight :: "rat option"
  sp_prefersReducedMotion :: "bool option"
  sp_focusMode :: "bool option"
  sp_showHiddenFiles :: "bool option"
  sp_gridConfig :: "(grid_config \<Rightarrow> grid_config) option"
  sp_defaultShell :: "shell option"

definition load_started :: "ui_state \<Rightarrow> ui_state" where
  "load_started s = s\<lparr>ui_isLoading := True\<rparr>"

text \<open>
  The answer of \<open>getUserConfig\<close>: a configuration, or \<open>None\<close> for \<open>null\<close> and for an error. An entry
  of \<open>sp_gridConfig\<close> overrides the fields it has; \<open>configDefaults\<close> are those of the configuration store.
\<close>

definition load_answered :: "grid_config option \<Rightarrow> server_prefs option \<Rightarrow> int \<Rightarrow> ui_state \<Rightarrow> ui_state" where
  "load_answered configDefaults config now s =
     (case config of
        None \<Rightarrow> s\<lparr>ui_isLoading := False\<rparr>
      | Some c \<Rightarrow>
          s\<lparr>ui_isLoading := False, ui_lastSyncedAt := Some now,
            ui_sidebarLayout := coalesce (sp_sidebarLayout c) (ui_sidebarLayout s),
            ui_gitWidgetSettings := coalesce (sp_gitWidgetSettings c) (ui_gitWidgetSettings s),
            ui_githubFilters := coalesce (sp_githubFilters c) (ui_githubFilters s),
            ui_githubRepo := coalesce (sp_githubRepo c) (ui_githubRepo s),
            ui_githubPanels := coalesce (sp_githubPanels c) (ui_githubPanels s),
            ui_terminalHeight := coalesce (sp_terminalHeight c) (ui_terminalHeight s),
            ui_defaultShell := coalesce (sp_defaultShell c) (ui_defaultShell s),
            ui_panelHeight := coalesce (sp_panelHeight c) (ui_panelHeight s),
            ui_prefersReducedMotion := coalesce (sp_prefersReducedMotion c) (ui_prefersReducedMotion s),
            ui_focusMode := coalesce (sp_focusMode c) (ui_focusMode s),
            ui_showHiddenFiles := coalesce (sp_showHiddenFiles c) (ui_showHiddenFiles s),
            ui_gridConfig := (case sp_gridConfig c of
                None \<Rightarrow> ui_gridConfig s
              | Some over \<Rightarrow> over (coalesce configDefaults DEFAULT_GRID_CONFIG))\<rparr>)"

definition announce :: "string \<Rightarrow> ui_state \<Rightarrow> ui_state" where
  "announce msg s = s\<lparr>ui_announcement := msg, ui_announceTimers := Suc (ui_announceTimers s)\<rparr>"

definition announce_timer :: "ui_state \<Rightarrow> ui_state" where
  "announce_timer s = s\<lparr>ui_announcement := [], ui_announceTimers := ui_announceTimers s - 1\<rparr>"

section \<open>Theme, overlays\<close>

definition resolve_theme :: "resolved_theme \<Rightarrow> theme \<Rightarrow> resolved_theme" where
  "resolve_theme system t =
     (case t of SystemTheme \<Rightarrow> system | DarkTheme \<Rightarrow> ResolvedDark | LightTheme \<Rightarrow> ResolvedLight)"

definition setTheme :: "resolved_theme \<Rightarrow> theme \<Rightarrow> ui_state \<Rightarrow> ui_state" where
  "setTheme system t s =
     (let resolved = resolve_theme system t
      in debouncedSync (s\<lparr>ui_documentTheme := Some resolved, ui_theme := t, ui_resolvedTheme := resolved\<rparr>))"

text \<open>The listener for changes of the system's colour scheme.\<close>

definition system_theme_changed :: "resolved_theme \<Rightarrow> ui_state \<Rightarrow> ui_state" where
  "system_theme_changed resolved s =
     (if ui_theme s = SystemTheme
      then s\<lparr>ui_documentTheme := Some resolved, ui_resolvedTheme := resolved\<rparr> else s)"

definition openCommandPalette :: "ui_state \<Rightarrow> ui_state" where
  "openCommandPalette s = s\<lparr>ui_commandPaletteOpen := True, ui_quickOpenOpen := False, ui_globalSearchOpen := False\<rparr>"

definition closeCommandPalette :: "ui_state \<Rightarrow> ui_state" where
  "closeCommandPalette s = s\<lparr>ui_commandPaletteOpen := False\<rparr>"

definition toggleCommandPalette :: "ui_state \<Rightarrow> ui_state" where
  "toggleCommandPalette s =
     s\<lparr>ui_commandPaletteOpen := \<not> ui_commandPaletteOpen s, ui_quickOpenOpen := False, ui_globalSearchOpen := False\<rparr>"

definition openQuickOpen :: "ui_state \<Rightarrow> ui_state" where
  "openQuickOpen s = s\<lparr>ui_quickOpenOpen := True, ui_commandPaletteOpen := False, ui_globalSearchOpen := False\<rparr>"

definition closeQuickOpen :: "ui_state \<Rightarrow> ui_state" where
  "closeQuickOpen s = s\<lparr>ui_quickOpenOpen := False\<rparr>"

definition toggleQuickOpen :: "ui_state \<Rightarrow> ui_state" where
  "toggleQuickOpen s =
     s\<lparr>ui_quickOpenOpen := \<not> ui_quickOpenOpen s, ui_commandPaletteOpen := False, ui_globalSearchOpen := False\<rparr>"

definition openGlobalSearch :: "ui_state \<Rightarrow> ui_state" where
  "openGlobalSearch s = s\<lparr>ui_globalSearchOpen := True, ui_commandPaletteOpen := False, ui_quickOpenOpen := False\<rparr>"

definition closeGlobalSearch :: "ui_state \<Rightarrow> ui_state" where
  "closeGlobalSearch s = s\<lparr>ui_globalSearchOpen := False\<rparr>"

definition toggleGlobalSearch :: "ui_state \<Rightarrow> ui_state" where
  "toggleGlobalSearch s =
     s\<lparr>ui_globalSearchOpen := \<not> ui_globalSearchOpen s, ui_commandPaletteOpen := False, ui_quickOpenOpen := False\<rparr>"

section \<open>Widget settings\<close>

definition setGitWidgetWorkingDirectory :: "string \<Rightarrow> string option \<Rightarrow> ui_state \<Rightarrow> ui_state" where
  "setGitWidgetWorkingDirectory sessionId dir s =
     debouncedSync (s\<lparr>ui_gitWidgetSettings := AList.update sessionId dir (ui_gitWidgetSettings s)\<rparr>)"

text \<open>A filter is given as absent, as \<open>null\<close> or as a value; \<open>??\<close> takes the first two alike.\<close>

definition nullish_or :: "'a nullish \<Rightarrow> 'a option \<Rightarrow> 'a option" where
  "nullish_or v old = (case v of Val x \<Rightarrow> Some x | _ \<Rightarrow> old)"

definition setGitHubWidgetFilters :: "string \<Rightarrow> string nullish \<Rightarrow> string nullish \<Rightarrow> ui_state \<Rightarrow> ui_state" where
  "setGitHubWidgetFilters sessionId branch status s =
     (let current = coalesce (map_of (ui_githubFilters s) sessionId) \<lparr>wf_branch = None, wf_status = None\<rparr>
      in debouncedSync (s\<lparr>ui_githubFilters := AList.update sessionId
           \<lparr>wf_branch = nullish_or branch (wf_branch current), wf_status = nullish_or status (wf_status current)\<rparr>
           (ui_githubFilters s)\<rparr>))"

definition setGitHubWidgetRepo :: "string \<Rightarrow> widget_repo option \<Rightarrow> ui_state \<Rightarrow> ui_state" where
  "setGitHubWidgetRepo sessionId repo s =
     debouncedSync (s\<lparr>ui_githubRepo := AList.update sessionId repo (ui_githubRepo s)\<rparr>)"

datatype github_panel = PullRequestsPanel | ActionsPanel

definition setGitHubWidgetPanelState :: "string \<Rightarrow> github_panel \<Rightarrow> bool \<Rightarrow> ui_state \<Rightarrow> ui_state" where
  "setGitHubWidgetPanelState sessionId panel isOpen s =
     (let current = coalesce (map_of (ui_githubPanels s) sessionId)
            \<lparr>wp_pullRequestsOpen = None, wp_actionsOpen = None\<rparr>
      in debouncedSync (s\<lparr>ui_githubPanels := AList.update sessionId
           (case panel of
              PullRequestsPanel \<Rightarrow> current\<lparr>wp_pullRequestsOpen := Some isOpen\<rparr>
            | ActionsPanel \<Rightarrow> current\<lparr>wp_actionsOpen := Some isOpen\<rparr>) (ui_githubPanels s)\<rparr>))"

section \<open>Side bars\<close>

definition bar :: "sidebar_side \<Rightarrow> sidebar_layout \<Rightarrow> sidebar_config" where
  "bar side l = (case side of LeftSide \<Rightarrow> sl_left l | RightSide \<Rightarrow> sl_right l)"

definition edit_bar :: "sidebar_side \<Rightarrow> (sidebar_config \<Rightarrow> sidebar_config) \<Rightarrow> sidebar_layout \<Rightarrow> sidebar_layout" where
  "edit_bar side f l =
     (case side of LeftSide \<Rightarrow> l\<lparr>sl_left := f (sl_left l)\<rparr> | RightSide \<Rightarrow> l\<lparr>sl_right := f (sl_right l)\<rparr>)"

definition toggleSidebar :: "sidebar_side \<Rightarrow> ui_state \<Rightarrow> ui_state" where
  "toggleSidebar side s =
     (let newCollapsed = (\<not> sb_collapsed (bar side (ui_sidebarLayout s)))
      in debouncedSync (announce
           ((case side of LeftSide \<Rightarrow> ''Left'' | RightSide \<Rightarrow> ''Right'') @ '' sidebar '' @
            (if newCollapsed then ''collapsed'' else ''expanded''))
           (s\<lparr>ui_sidebarLayout := edit_bar side (\<lambda>b. b\<lparr>sb_collapsed := newCollapsed\<rparr>) (ui_sidebarLayout s)\<rparr>)))"

definition setSidebarCollapsed :: "sidebar_side \<Rightarrow> bool \<Rightarrow> ui_state \<Rightarrow> ui_state" where
  "setSidebarCollapsed side collapsed s =
     debouncedSync (s\<lparr>ui_sidebarLayout := edit_bar side (\<lambda>b. b\<lparr>sb_collapsed := collapsed\<rparr>) (ui_sidebarLayout s)\<rparr>)"

definition clamp :: "rat \<Rightarrow> rat \<Rightarrow> rat \<Rightarrow> rat" where
  "clamp lo hi x = max lo (min hi x)"

definition setSidebarWidth :: "sidebar_side \<Rightarrow> rat \<Rightarrow> ui_state \<Rightarrow> ui_state" where
  "setSidebarWidth side width s =
     debouncedSync (s\<lparr>ui_sidebarLayout := edit_bar side (\<lambda>b. b\<lparr>sb_width := clamp 200 500 width\<rparr>) (ui_sidebarLayout s)\<rparr>)"

definition setSidebarPanelHeight :: "sidebar_side \<Rightarrow> int \<Rightarrow> rat \<Rightarrow> ui_state \<Rightarrow> ui_state" where
  "setSidebarPanelHeight side panelIndex height s =
     (let panels = sb_panels (bar side (ui_sidebarLayout s))
      in case js_at panels panelIndex of
           None \<Rightarrow> s
         | Some panel \<Rightarrow>
             (let panels' = panels[nat panelIndex := \<lparr>ps_panelId = ps_panelId panel, ps_height = clamp 10 90 height\<rparr>]
              in debouncedSync (s\<lparr>ui_sidebarLayout :=
                   edit_bar side (\<lambda>b. b\<lparr>sb_panels := normalizePanelHeights panels'\<rparr>) (ui_sidebarLayout s)\<rparr>)))"

definition panel_side :: "panel_id \<Rightarrow> sidebar_layout \<Rightarrow> sidebar_side" where
  "panel_side panelId l =
     (if \<exists>p \<in> set (sb_panels (sl_left l)). ps_panelId p = panelId then LeftSide else RightSide)"

definition without_panel :: "panel_id \<Rightarrow> panel_slot list \<Rightarrow> panel_slot list" where
  "without_panel panelId = filter (\<lambda>p. ps_panelId p \<noteq> panelId)"

definition side_name :: "sidebar_side \<Rightarrow> string" where
  "side_name side = (case side of LeftSide \<Rightarrow> ''left'' | RightSide \<Rightarrow> ''right'')"

definition movePanel :: "panel_id \<Rightarrow> sidebar_side \<Rightarrow> ui_state \<Rightarrow> ui_state" where
  "movePanel panelId toSide s =
     (let l = ui_sidebarLayout s; fromSide = panel_side panelId l
      in if fromSide = toSide then s
         else debouncedSync (announce (panel_name panelId @ '' moved to '' @ side_name toSide @ '' sidebar'')
           (s\<lparr>ui_sidebarLayout :=
              edit_bar toSide (\<lambda>b. b\<lparr>sb_panels := normalizePanelHeights
                  (sb_panels (bar toSide l) @ [\<lparr>ps_panelId = panelId, ps_height = 100\<rparr>])\<rparr>)
                (edit_bar fromSide (\<lambda>b. b\<lparr>sb_panels := normalizePanelHeights
                  (without_panel panelId (sb_panels (bar fromSide l)))\<rparr>) l)\<rparr>)))"

definition removePanel :: "panel_id \<Rightarrow> ui_state \<Rightarrow> ui_state" where
  "removePanel panelId s =
     (let l = ui_sidebarLayout s
      in debouncedSync (announce (panel_name panelId @ '' panel closed'')
           (s\<lparr>ui_sidebarLayout := edit_bar (panel_side panelId l)
              (\<lambda>b. b\<lparr>sb_panels := normalizePanelHeights (without_panel panelId (sb_panels b))\<rparr>) l\<rparr>)))"

definition addPanel :: "panel_id \<Rightarrow> sidebar_side \<Rightarrow> ui_state \<Rightarrow> ui_state" where
  "addPanel panelId side s =
     (let l = ui_sidebarLayout s;
          added = (\<lambda>here ps. without_panel panelId ps @
            (if side = here then [\<lparr>ps_panelId = panelId, ps_height = 100\<rparr>] else []))
      in debouncedSync (announce (panel_name panelId @ '' added to '' @ side_name side @ '' sidebar'')
           (s\<lparr>ui_sidebarLayout :=
              \<lparr>sl_left = (sl_left l)\<lparr>sb_panels := normalizePanelHeights (added LeftSide (sb_panels (sl_left l)))\<rparr>,
               sl_right = (sl_right l)\<lparr>sb_panels := normalizePanelHeights (added RightSide (sb_panels (sl_right l)))\<rparr>\<rparr>\<rparr>)))"

definition resetSidebarLayout :: "sidebar_layout option \<Rightarrow> ui_state \<Rightarrow> ui_state" where
  "resetSidebarLayout configDefaults s =
     debouncedSync (announce ''Sidebar layout reset to default''
       (s\<lparr>ui_sidebarLayout := coalesce configDefaults DEFAULT_SIDEBAR_LAYOUT\<rparr>))"

section \<open>Terminal, bottom panel, modals, mobile, preferences\<close>

definition toggleTerminal :: "ui_state \<Rightarrow> ui_state" where
  "toggleTerminal s =
     announce (if \<not> ui_terminalVisible s then ''Terminal opened'' else ''Terminal closed'')
       (s\<lparr>ui_terminalVisible := \<not> ui_terminalVisible s\<rparr>)"

definition setTerminalHeight :: "rat \<Rightarrow> ui_state \<Rightarrow> ui_state" where
  "setTerminalHeight height s = debouncedSync (s\<lparr>ui_terminalHeight := clamp 100 600 height\<rparr>)"

definition setDefaultShell :: "shell \<Rightarrow> ui_state \<Rightarrow> ui_state" where
  "setDefaultShell sh s = debouncedSync (s\<lparr>ui_defaultShell := sh\<rparr>)"

definition sendTerminalCommand :: "string \<Rightarrow> ui_state \<Rightarrow> ui_state" where
  "sendTerminalCommand command s = s\<lparr>ui_pendingTerminalCommand := Some command, ui_terminalVisible := True\<rparr>"

definition clearPendingTerminalCommand :: "ui_state \<Rightarrow> ui_state" where
  "clearPendingTerminalCommand s = s\<lparr>ui_pendingTerminalCommand := None\<rparr>"

definition setPanelHeight :: "rat \<Rightarrow> ui_state \<Rightarrow> ui_state" where
  "setPanelHeight height s = debouncedSync (s\<lparr>ui_panelHeight := clamp 100 400 height\<rparr>)"

definition setActivePanel :: "bottom_panel \<Rightarrow> ui_state \<Rightarrow> ui_state" where
  "setActivePanel panel s = s\<lparr>ui_activePanel := panel, ui_panelVisible := True\<rparr>"

definition openModal :: "string \<Rightarrow> json obj \<Rightarrow> ui_state \<Rightarrow> ui_state" where
  "openModal modalId data s = s\<lparr>ui_activeModal := Some modalId, ui_modalData := data\<rparr>"

definition closeModal :: "ui_state \<Rightarrow> ui_state" where
  "closeModal s = s\<lparr>ui_activeModal := None, ui_modalData := []\<rparr>"

definition openMobileFile :: "string \<Rightarrow> string \<Rightarrow> string \<Rightarrow> ui_state \<Rightarrow> ui_state" where
  "openMobileFile path content language s =
     s\<lparr>ui_mobileOpenFile := Some \<lparr>mo_path = path, mo_content = content, mo_language = language\<rparr>\<rparr>"

definition openMobileFileActions :: "string \<Rightarrow> string \<Rightarrow> file_kind \<Rightarrow> ui_state \<Rightarrow> ui_state" where
  "openMobileFileActions path name ty s =
     s\<lparr>ui_mobileFileActionsTarget := Some \<lparr>ft_path = path, ft_name = name, ft_type = ty\<rparr>\<rparr>"

definition toggleFocusMode :: "ui_state \<Rightarrow> ui_state" where
  "toggleFocusMode s =
     debouncedSync (announce (if \<not> ui_focusMode s then ''Focus mode enabled'' else ''Focus mode disabled'')
       (s\<lparr>ui_focusMode := \<not> ui_focusMode s\<rparr>))"

definition setShowHiddenFiles :: "bool \<Rightarrow> ui_state \<Rightarrow> ui_state" where
  "setShowHiddenFiles v s = debouncedSync (s\<lparr>ui_showHiddenFiles := v\<rparr>)"

definition setGridConfig :: "(grid_config \<Rightarrow> grid_config) \<Rightarrow> ui_state \<Rightarrow> ui_state" where
  "setGridConfig config s = debouncedSync (s\<lparr>ui_gridConfig := config (ui_gridConfig s)\<rparr>)"

definition resetGridConfig :: "grid_config option \<Rightarrow> ui_state \<Rightarrow> ui_state" where
  "resetGridConfig configDefaults s =
     debouncedSync (s\<lparr>ui_gridConfig := coalesce configDefaults DEFAULT_GRID_CONFIG\<rparr>)"

text \<open>The actions that set one field and nothing else.\<close>

datatype ui_setter =
    SetHasHydrated bool
  | SetTerminalVisible bool
  | TogglePanel
  | SetPanelVisible bool
  | SetMobileMenuOpen bool
  | ToggleMobileMenu
  | OpenMobileWidget string
  | CloseMobileWidget
  | CloseMobileFile
  | CloseMobileFileActions
  | SetPrefersReducedMotion bool

fun set_field :: "ui_setter \<Rightarrow> ui_state \<Rightarrow> ui_state" where
  "set_field (SetHasHydrated v) s = s\<lparr>ui_hasHydrated := v\<rparr>"
| "set_field (SetTerminalVisible v) s = s\<lparr>ui_terminalVisible := v\<rparr>"
| "set_field TogglePanel s = s\<lparr>ui_panelVisible := \<not> ui_panelVisible s\<rparr>"
| "set_field (SetPanelVisible v) s = s\<lparr>ui_panelVisible := v\<rparr>"
| "set_field (SetMobileMenuOpen v) s = s\<lparr>ui_isMobileMenuOpen := v\<rparr>"
| "set_field ToggleMobileMenu s = s\<lparr>ui_isMobileMenuOpen := \<not> ui_isMobileMenuOpen s\<rparr>"
| "set_field (OpenMobileWidget w) s = s\<lparr>ui_mobileActiveWidget := Some w\<rparr>"
| "set_field CloseMobileWidget s = s\<lparr>ui_mobileActiveWidget := None\<rparr>"
| "set_field CloseMobileFile s = s\<lparr>ui_mobileOpenFile := None\<rparr>"
| "set_field CloseMobileFileActions s = s\<lparr>ui_mobileFileActionsTarget := None\<rparr>"
| "set_field (SetPrefersReducedMotion v) s = s\<lparr>ui_prefersReducedMotion := v\<rparr>"

section \<open>What is persisted\<close>

record ui_persisted = ui_prefs +
  pe_terminalVisible :: bool
  pe_panelVisible :: bool
  pe_activePanel :: bottom_panel

definition ui_partialize :: "ui_state \<Rightarrow> ui_persisted" where
  "ui_partialize s =
     \<lparr>up_sidebarLayout = ui_sidebarLayout s, up_gitWidgetSettings = ui_gitWidgetSettings s,
      up_githubFilters = ui_githubFilters s, up_githubRepo = ui_githubRepo s,
      up_githubPanels = ui_githubPanels s, up_terminalHeight = ui_terminalHeight s,
      up_panelHeight = ui_panelHeight s, up_prefersReducedMotion = ui_prefersReducedMotion s,
      up_focusMode = ui_focusMode s, up_showHiddenFiles = ui_showHiddenFiles s, up_gridConfig = ui_gridConfig s,
      pe_terminalVisible = ui_terminalVisible s, pe_panelVisible = ui_panelVisible s,
      pe_activePanel = ui_activePanel s\<rparr>"

text \<open>The two fields of an old persisted state that the migration looks at.\<close>

definition ui_migrate :: "bool option \<Rightarrow> sidebar_layout option \<Rightarrow> sidebar_layout option" where
  "ui_migrate sidebarCollapsed sidebarLayout =
     (case (sidebarCollapsed, sidebarLayout) of
        (Some collapsed, None) \<Rightarrow>
          Some (DEFAULT_SIDEBAR_LAYOUT\<lparr>sl_left := (sl_left DEFAULT_SIDEBAR_LAYOUT)\<lparr>sb_collapsed := collapsed\<rparr>\<rparr>)
      | _ \<Rightarrow> sidebarLayout)"

section \<open>As a machine\<close>

datatype ui_event =
    SetTheme resolved_theme theme
  | SystemThemeChanged resolved_theme
  | OpenCommandPalette | CloseCommandPalette | ToggleCommandPalette
  | OpenQuickOpen | CloseQuickOpen | ToggleQuickOpen
  | OpenGlobalSearch | CloseGlobalSearch | ToggleGlobalSearch
  | SetGitWidgetWorkingDirectory string "string option"
  | SetGitHubWidgetFilters string "string nullish" "string nullish"
  | SetGitHubWidgetRepo string "widget_repo option"
  | SetGitHubWidgetPanelState string github_panel bool
  | ToggleSidebar sidebar_side
  | SetSidebarCollapsed sidebar_side bool
  | SetSidebarWidth sidebar_side rat
  | SetSidebarPanelHeight sidebar_side int rat
  | MovePanel panel_id sidebar_side
  | RemovePanel panel_id
  | AddPanel panel_id sidebar_side
  | ResetSidebarLayout "sidebar_layout option"
  | ToggleTerminal
  | SetTerminalHeight rat
  | SetDefaultShell shell
  | SendTerminalCommand string
  | ClearPendingTerminalCommand
  | SetPanelHeight rat
  | SetActivePanel bottom_panel
  | OpenModal string "json obj"
  | CloseModal
  | OpenMobileFile string string string
  | OpenMobileFileActions string string file_kind
  | ToggleFocusMode
  | SetShowHiddenFiles bool
  | SetGridConfig "grid_config \<Rightarrow> grid_config"
  | ResetGridConfig "grid_config option"
  | Announce string
  | SetField ui_setter
  | LoadFromServer
  | LoadAnswered "grid_config option" "server_prefs option" int
  | SyncTimer bool
  | SyncAnswered bool int
  | AnnounceTimer

fun ui_step :: "ui_event \<Rightarrow> ui_state \<Rightarrow> ui_state" where
  "ui_step (SetTheme system t) = setTheme system t"
| "ui_step (SystemThemeChanged r) = system_theme_changed r"
| "ui_step OpenCommandPalette = openCommandPalette"
| "ui_step CloseCommandPalette = closeCommandPalette"
| "ui_step ToggleCommandPalette = toggleCommandPalette"
| "ui_step OpenQuickOpen = openQuickOpen"
| "ui_step CloseQuickOpen = closeQuickOpen"
| "ui_step ToggleQuickOpen = toggleQuickOpen"
| "ui_step OpenGlobalSearch = openGlobalSearch"
| "ui_step CloseGlobalSearch = closeGlobalSearch"
| "ui_step ToggleGlobalSearch = toggleGlobalSearch"
| "ui_step (SetGitWidgetWorkingDirectory i d) = setGitWidgetWorkingDirectory i d"
| "ui_step (SetGitHubWidgetFilters i b st) = setGitHubWidgetFilters i b st"
| "ui_step (SetGitHubWidgetRepo i r) = setGitHubWidgetRepo i r"
| "ui_step (SetGitHubWidgetPanelState i p v) = setGitHubWidgetPanelState i p v"
| "ui_step (ToggleSidebar side) = toggleSidebar side"
| "ui_step (SetSidebarCollapsed side v) = setSidebarCollapsed side v"
| "ui_step (SetSidebarWidth side w) = setSidebarWidth side w"
| "ui_step (SetSidebarPanelHeight side i h) = setSidebarPanelHeight side i h"
| "ui_step (MovePanel p side) = movePanel p side"
| "ui_step (RemovePanel p) = removePanel p"
| "ui_step (AddPanel p side) = addPanel p side"
| "ui_step (ResetSidebarLayout d) = resetSidebarLayout d"
| "ui_step ToggleTerminal = toggleTerminal"
| "ui_step (SetTerminalHeight h) = setTerminalHeight h"
| "ui_step (SetDefaultShell sh) = setDefaultShell sh"
| "ui_step (SendTerminalCommand c) = sendTerminalCommand c"
| "ui_step ClearPendingTerminalCommand = clearPendingTerminalCommand"
| "ui_step (SetPanelHeight h) = setPanelHeight h"
| "ui_step (SetActivePanel p) = setActivePanel p"
| "ui_step (OpenModal i d) = openModal i d"
| "ui_step CloseModal = closeModal"
| "ui_step (OpenMobileFile p c l) = openMobileFile p c l"
| "ui_step (OpenMobileFileActions p n k) = openMobileFileActions p n k"
| "ui_step ToggleFocusMode = toggleFocusMode"
| "ui_step (SetShowHiddenFiles v) = setShowHiddenFiles v"
| "ui_step (SetGridConfig c) = setGridConfig c"
| "ui_step (ResetGridConfig d) = resetGridConfig d"
| "ui_step (Announce msg) = announce msg"
| "ui_step (SetField f) = set_field f"
| "ui_step LoadFromServer = load_started"
| "ui_step (LoadAnswered d c now) = load_answered d c now"
| "ui_step (SyncTimer auth) = sync_timer auth"
| "ui_step (SyncAnswered ok now) = sync_answered ok now"
| "ui_step AnnounceTimer = announce_timer"

text \<open>Every panel is in one place, bars have a sensible width, heights are percentages.\<close>

definition slots_ok :: "panel_slot list \<Rightarrow> bool" where
  "slots_ok ps \<longleftrightarrow> (\<forall>p \<in> set ps. 0 \<le> ps_height p \<and> ps_height p \<le> 100 \<and> to_double (ps_height p) = ps_height p)"

definition bar_ok :: "sidebar_config \<Rightarrow> bool" where
  "bar_ok b \<longleftrightarrow> 200 \<le> sb_width b \<and> sb_width b \<le> 500 \<and> slots_ok (sb_panels b)"

definition layout_ok :: "sidebar_layout \<Rightarrow> bool" where
  "layout_ok l \<longleftrightarrow> bar_ok (sl_left l) \<and> bar_ok (sl_right l) \<and>
     distinct (map ps_panelId (sb_panels (sl_left l) @ sb_panels (sl_right l)))"

definition overlays_ok :: "ui_state \<Rightarrow> bool" where
  "overlays_ok s \<longleftrightarrow>
     \<not> (ui_commandPaletteOpen s \<and> ui_quickOpenOpen s) \<and> \<not> (ui_commandPaletteOpen s \<and> ui_globalSearchOpen s) \<and>
     \<not> (ui_quickOpenOpen s \<and> ui_globalSearchOpen s)"

definition ui_ok :: "ui_state \<Rightarrow> bool" where
  "ui_ok s \<longleftrightarrow> layout_ok (ui_sidebarLayout s) \<and> overlays_ok s \<and>
     100 \<le> ui_terminalHeight s \<and> ui_terminalHeight s \<le> 600 \<and> 100 \<le> ui_panelHeight s \<and> ui_panelHeight s \<le> 400"

text \<open>
  Layouts that come from the server or the configuration were written by this store, and a height
  that the user drags to is a number of the machine.
\<close>

fun ui_guard :: "ui_event \<Rightarrow> ui_state \<Rightarrow> bool" where
  "ui_guard (SetSidebarPanelHeight side i h) s = (to_double h = h)"
| "ui_guard (ResetSidebarLayout d) s = (case d of None \<Rightarrow> True | Some l \<Rightarrow> layout_ok l)"
| "ui_guard (LoadAnswered d c now) s = (case c of
      None \<Rightarrow> True
    | Some c \<Rightarrow> (case sp_sidebarLayout c of None \<Rightarrow> True | Some l \<Rightarrow> layout_ok l) \<and>
        (case sp_terminalHeight c of None \<Rightarrow> True | Some h \<Rightarrow> 100 \<le> h \<and> h \<le> 600) \<and>
        (case sp_panelHeight c of None \<Rightarrow> True | Some h \<Rightarrow> 100 \<le> h \<and> h \<le> 400))"
| "ui_guard _ s = True"

section \<open>Heights\<close>

lemma double_add_ge:
  assumes "to_double a = a" "to_double b = b" "0 \<le> a" "0 \<le> b"
  shows "a \<le> double_add a b" "b \<le> double_add a b" "to_double (double_add a b) = double_add a b"
proof -
  have "to_double a \<le> to_double (a + b)" "to_double b \<le> to_double (a + b)"
    using assms(3,4) by (simp_all add: to_double_mono)
  then show "a \<le> double_add a b" "b \<le> double_add a b"
    using assms(1,2) by (simp_all add: double_add_def)
qed (simp add: double_add_def)

lemma total_ge:
  "slots_ok ps \<Longrightarrow> to_double t = t \<Longrightarrow> 0 \<le> t \<Longrightarrow>
   t \<le> foldl (\<lambda>sum p. double_add sum (ps_height p)) t ps \<and>
   (\<forall>p \<in> set ps. ps_height p \<le> foldl (\<lambda>sum p. double_add sum (ps_height p)) t ps)"
proof (induction ps arbitrary: t)
  case (Cons p ps)
  then have h: "0 \<le> ps_height p" "to_double (ps_height p) = ps_height p" and rest: "slots_ok ps"
    by (auto simp: slots_ok_def)
  note add = double_add_ge [OF Cons.prems(2) h(2) Cons.prems(3) h(1)]
  have "0 \<le> double_add t (ps_height p)"
    using add(1) Cons.prems(3) by linarith
  from Cons.IH [OF rest add(3) this] add(1,2) show ?case
    by fastforce
qed simp

lemma percent_height:
  assumes "0 \<le> h" "h \<le> tot" "tot \<noteq> 0"
  shows "0 \<le> double_mult (to_double (h / tot)) 100 \<and> double_mult (to_double (h / tot)) 100 \<le> 100"
proof -
  have "0 \<le> h / tot" "h / tot \<le> of_nat 1"
    using assms by (simp_all add: divide_le_eq)
  from to_double_bounds [OF this] have "0 \<le> to_double (h / tot) * 100" "to_double (h / tot) * 100 \<le> of_nat 100"
    by simp_all
  from to_double_bounds [OF this] show ?thesis
    by (simp add: double_mult_def)
qed

lemma normalize_ok:
  assumes "slots_ok ps"
  shows "slots_ok (normalizePanelHeights ps)"
proof -
  let ?t = "foldl (\<lambda>sum p. double_add sum (ps_height p)) 0 ps"
  have zero: "to_double 0 = 0" by (simp add: to_double_def)
  have t: "\<forall>p \<in> set ps. ps_height p \<le> ?t"
    using total_ge [OF assms zero] by simp
  have equal: "0 \<le> to_double (100 / of_nat (length ps)) \<and> to_double (100 / of_nat (length ps)) \<le> 100" if "ps \<noteq> []"
  proof -
    have "(100 / of_nat (length ps) :: rat) \<le> of_nat 100"
      using that by (cases ps) (simp_all add: divide_le_eq)
    from to_double_bounds [OF _ this] show ?thesis by simp
  qed
  have "0 \<le> double_mult (to_double (ps_height p / ?t)) 100 \<and> double_mult (to_double (ps_height p / ?t)) 100 \<le> 100"
    if "p \<in> set ps" "?t \<noteq> 0" for p
    using that t assms by (intro percent_height) (auto simp: slots_ok_def)
  with equal show ?thesis
    by (auto simp: normalizePanelHeights_def slots_ok_def Let_def double_mult_def)
qed

lemma normalize_ids [simp]: "map ps_panelId (normalizePanelHeights ps) = map ps_panelId ps"
  by (simp add: normalizePanelHeights_def Let_def)

lemma normalize_mem [simp]:
  "ps_panelId ` set (normalizePanelHeights ps) = ps_panelId ` set ps"
  by (metis list.set_map normalize_ids)

section \<open>The invariant\<close>

lemma new_slot_ok: "slots_ok ps \<Longrightarrow> slots_ok (ps @ [\<lparr>ps_panelId = p, ps_height = 100\<rparr>])"
  using to_double_nat [of 100] by (auto simp: slots_ok_def)

lemma without_ok: "slots_ok ps \<Longrightarrow> slots_ok (without_panel p ps)"
  by (auto simp: slots_ok_def without_panel_def)

lemma clamp_double: "to_double h = h \<Longrightarrow> to_double (clamp 10 90 h) = clamp 10 90 h"
  using to_double_nat [of 10] to_double_nat [of 90] by (simp add: clamp_def min_def max_def)

lemma clamp_bounds: "lo \<le> hi \<Longrightarrow> lo \<le> clamp lo hi x \<and> clamp lo hi x \<le> hi"
  by (simp add: clamp_def)

lemma layout_ok_panels:
  assumes "layout_ok l" "slots_ok ls" "slots_ok rs" "distinct (map ps_panelId (ls @ rs))"
  shows "layout_ok (l\<lparr>sl_left := (sl_left l)\<lparr>sb_panels := ls\<rparr>, sl_right := (sl_right l)\<lparr>sb_panels := rs\<rparr>\<rparr>)"
  using assms by (simp add: layout_ok_def bar_ok_def)

lemma ids_without: "map ps_panelId (without_panel p ps) = filter (\<lambda>q. q \<noteq> p) (map ps_panelId ps)"
  by (simp add: without_panel_def filter_map comp_def)

lemma mem_without [simp]: "ps_panelId ` set (without_panel p ps) = ps_panelId ` set ps - {p}"
  by (auto simp: without_panel_def)

lemma layout_ok_height:
  assumes "layout_ok l" "js_at (sb_panels (bar side l)) i = Some p" "to_double h = h"
  shows "layout_ok (edit_bar side (\<lambda>b. b\<lparr>sb_panels := normalizePanelHeights
    ((sb_panels (bar side l))[nat i := \<lparr>ps_panelId = ps_panelId p, ps_height = clamp 10 90 h\<rparr>])\<rparr>) l)"
proof -
  let ?ps = "sb_panels (bar side l)"
  let ?qs = "?ps[nat i := \<lparr>ps_panelId = ps_panelId p, ps_height = clamp 10 90 h\<rparr>]"
  have i: "nat i < length ?ps" "?ps ! nat i = p"
    using assms(2) by (auto simp: js_at_def split: if_splits)
  have "map ps_panelId ?qs = map ps_panelId ?ps"
    using i by (metis list_update_id map_update panel_slot.select_convs(1))
  moreover have "slots_ok ?qs"
    using assms(1) clamp_double [OF assms(3)] clamp_bounds [of 10 90 h] unfolding slots_ok_def
    by (cases side) (auto simp: bar_def layout_ok_def bar_ok_def slots_ok_def dest!: subsetD [OF set_update_subset_insert])
  ultimately show ?thesis
    using assms(1) by (cases side) (simp_all add: edit_bar_def bar_def layout_ok_def bar_ok_def normalize_ok)
qed

lemma layout_ok_move:
  assumes "layout_ok l" "panel_side p l \<noteq> side"
  shows "layout_ok (edit_bar side (\<lambda>b. b\<lparr>sb_panels := normalizePanelHeights
        (sb_panels (bar side l) @ [\<lparr>ps_panelId = p, ps_height = 100\<rparr>])\<rparr>)
      (edit_bar (panel_side p l) (\<lambda>b. b\<lparr>sb_panels := normalizePanelHeights
        (without_panel p (sb_panels (bar (panel_side p l) l)))\<rparr>) l))"
  using assms
  by (cases side; cases "panel_side p l")
    (auto simp: edit_bar_def bar_def layout_ok_def bar_ok_def normalize_ok new_slot_ok without_ok ids_without
      panel_side_def image_iff split: if_splits)

lemma layout_ok_remove:
  "layout_ok l \<Longrightarrow> layout_ok (edit_bar (panel_side p l)
     (\<lambda>b. b\<lparr>sb_panels := normalizePanelHeights (without_panel p (sb_panels b))\<rparr>) l)"
  by (cases "panel_side p l")
    (auto simp: edit_bar_def layout_ok_def bar_ok_def normalize_ok without_ok ids_without)

lemma layout_ok_add:
  assumes "layout_ok l"
  shows "layout_ok \<lparr>sl_left = (sl_left l)\<lparr>sb_panels := normalizePanelHeights (without_panel p (sb_panels (sl_left l)) @
        (if side = LeftSide then [\<lparr>ps_panelId = p, ps_height = 100\<rparr>] else []))\<rparr>,
      sl_right = (sl_right l)\<lparr>sb_panels := normalizePanelHeights (without_panel p (sb_panels (sl_right l)) @
        (if side = RightSide then [\<lparr>ps_panelId = p, ps_height = 100\<rparr>] else []))\<rparr>\<rparr>"
  using assms
  by (cases side) (auto simp: layout_ok_def bar_ok_def normalize_ok new_slot_ok without_ok ids_without)

lemma layout_ok_bar:
  "layout_ok l \<Longrightarrow> layout_ok (edit_bar side (\<lambda>b. b\<lparr>sb_collapsed := c\<rparr>) l)"
  "layout_ok l \<Longrightarrow> 200 \<le> w \<Longrightarrow> w \<le> 500 \<Longrightarrow> layout_ok (edit_bar side (\<lambda>b. b\<lparr>sb_width := w\<rparr>) l)"
  by (cases side; simp add: edit_bar_def layout_ok_def bar_ok_def)+

lemma default_layout_ok: "layout_ok DEFAULT_SIDEBAR_LAYOUT"
  using to_double_nat [of 50] to_double_nat [of 60] to_double_nat [of 40]
  by (simp add: DEFAULT_SIDEBAR_LAYOUT_def layout_ok_def bar_ok_def slots_ok_def)

lemma init_ui_ok: "ui_ok init_ui"
  by (simp add: ui_ok_def init_ui_def default_layout_ok overlays_ok_def)

lemma ui_ok_sync [simp]: "ui_ok (debouncedSync s) = ui_ok s" "ui_ok (announce msg s) = ui_ok s"
  by (simp_all add: ui_ok_def debouncedSync_def announce_def overlays_ok_def)

lemma ui_ok_layout: "ui_ok s \<Longrightarrow> layout_ok l \<Longrightarrow> ui_ok (s\<lparr>ui_sidebarLayout := l\<rparr>)"
  by (simp add: ui_ok_def overlays_ok_def)

lemma ui_ok_layoutD: "ui_ok s \<Longrightarrow> layout_ok (ui_sidebarLayout s)"
  by (simp add: ui_ok_def)

lemmas side_bar_defs = toggleSidebar_def setSidebarCollapsed_def setSidebarWidth_def movePanel_def removePanel_def
  addPanel_def resetSidebarLayout_def setSidebarPanelHeight_def

lemma side_bars_ok:
  assumes ok: "ui_ok s"
  shows "ui_ok (toggleSidebar side s)" "ui_ok (setSidebarCollapsed side c s)" "ui_ok (setSidebarWidth side w s)"
    "ui_ok (movePanel p side s)" "ui_ok (removePanel p s)" "ui_ok (addPanel p side s)"
    "to_double h = h \<Longrightarrow> ui_ok (setSidebarPanelHeight side i h s)"
    "case d of None \<Rightarrow> True | Some l \<Rightarrow> layout_ok l \<Longrightarrow> ui_ok (resetSidebarLayout d s)"
proof -
  note l = ui_ok_layoutD [OF ok]
  show "ui_ok (toggleSidebar side s)"
    unfolding toggleSidebar_def Let_def ui_ok_sync by (intro ui_ok_layout ok layout_ok_bar(1) l)
  show "ui_ok (setSidebarCollapsed side c s)"
    unfolding setSidebarCollapsed_def Let_def ui_ok_sync by (intro ui_ok_layout ok layout_ok_bar(1) l)
  show "ui_ok (setSidebarWidth side w s)"
    unfolding setSidebarWidth_def Let_def ui_ok_sync
    using clamp_bounds [of 200 500 w] by (intro ui_ok_layout ok layout_ok_bar(2) l) auto
  show "ui_ok (movePanel p side s)"
  proof (cases "panel_side p (ui_sidebarLayout s) = side")
    case False
    then show ?thesis
      unfolding movePanel_def Let_def if_not_P [OF False] ui_ok_sync
      by (intro ui_ok_layout ok layout_ok_move l)
  qed (use ok in \<open>simp add: movePanel_def\<close>)
  show "ui_ok (removePanel p s)"
    unfolding removePanel_def Let_def ui_ok_sync by (intro ui_ok_layout ok layout_ok_remove l)
  show "ui_ok (addPanel p side s)"
    unfolding addPanel_def Let_def ui_ok_sync by (intro ui_ok_layout layout_ok_add ok l)
  show "ui_ok (setSidebarPanelHeight side i h s)" if "to_double h = h"
  proof (cases "js_at (sb_panels (bar side (ui_sidebarLayout s))) i")
    case (Some p)
    show ?thesis
      unfolding setSidebarPanelHeight_def Let_def Some option.case ui_ok_sync
      by (intro ui_ok_layout ok layout_ok_height [OF l Some that])
  qed (use ok in \<open>simp add: setSidebarPanelHeight_def\<close>)
  show "ui_ok (resetSidebarLayout d s)" if "case d of None \<Rightarrow> True | Some l \<Rightarrow> layout_ok l"
    using that unfolding resetSidebarLayout_def ui_ok_sync
    by (intro ui_ok_layout ok) (auto simp: coalesce_def default_layout_ok split: option.splits)
qed

lemma coalesce_cases: "(case x of None \<Rightarrow> True | Some v \<Rightarrow> P v) \<Longrightarrow> P d \<Longrightarrow> P (coalesce x d)"
  by (simp add: coalesce_def split: option.splits)

lemma load_answered_ok:
  assumes ok: "ui_ok s" and g: "ui_guard (LoadAnswered d c now) s"
  shows "ui_ok (load_answered d c now s)"
proof (cases c)
  case None
  with ok show ?thesis by (simp add: load_answered_def ui_ok_def overlays_ok_def)
next
  case (Some c')
  have "layout_ok (coalesce (sp_sidebarLayout c') (ui_sidebarLayout s))"
    using ok g Some by (intro coalesce_cases [where P = layout_ok]) (simp_all add: ui_ok_def)
  moreover have "100 \<le> coalesce (sp_terminalHeight c') (ui_terminalHeight s) \<and> coalesce (sp_terminalHeight c') (ui_terminalHeight s) \<le> 600"
    using ok g Some by (intro coalesce_cases [where P = "\<lambda>h. 100 \<le> h \<and> h \<le> 600"]) (simp_all add: ui_ok_def)
  moreover have "100 \<le> coalesce (sp_panelHeight c') (ui_panelHeight s) \<and> coalesce (sp_panelHeight c') (ui_panelHeight s) \<le> 400"
    using ok g Some by (intro coalesce_cases [where P = "\<lambda>h. 100 \<le> h \<and> h \<le> 400"]) (simp_all add: ui_ok_def)
  moreover have
    "ui_sidebarLayout (load_answered d c now s) = coalesce (sp_sidebarLayout c') (ui_sidebarLayout s)"
    "ui_terminalHeight (load_answered d c now s) = coalesce (sp_terminalHeight c') (ui_terminalHeight s)"
    "ui_panelHeight (load_answered d c now s) = coalesce (sp_panelHeight c') (ui_panelHeight s)"
    "overlays_ok (load_answered d c now s) = overlays_ok s"
    by (simp_all add: load_answered_def Some overlays_ok_def)
  moreover have "overlays_ok s"
    using ok by (simp add: ui_ok_def)
  ultimately show ?thesis
    unfolding ui_ok_def by (simp only:)
qed

lemma sizes_ui_ok:
  assumes ok: "ui_ok s"
  shows "ui_ok (setTerminalHeight h s)" "ui_ok (setPanelHeight h s)" "ui_ok (set_field f s)"
proof -
  show "ui_ok (setTerminalHeight h s)"
    using ok clamp_bounds [of 100 600 h]
    unfolding setTerminalHeight_def ui_ok_sync by (simp add: ui_ok_def overlays_ok_def)
  show "ui_ok (setPanelHeight h s)"
    using ok clamp_bounds [of 100 400 h]
    unfolding setPanelHeight_def ui_ok_sync by (simp add: ui_ok_def overlays_ok_def)
  show "ui_ok (set_field f s)"
    using ok by (cases f) (simp_all add: ui_ok_def overlays_ok_def)
qed

text \<open>The actions that touch neither layout nor sizes, and open an overlay only by closing the others.\<close>

lemma plain_ui_ok:
  assumes "ui_sidebarLayout s' = ui_sidebarLayout s" "ui_terminalHeight s' = ui_terminalHeight s"
    "ui_panelHeight s' = ui_panelHeight s" "ui_ok s" "overlays_ok s'"
  shows "ui_ok s'"
  using assms by (simp add: ui_ok_def)

lemmas plain_action_defs = setTheme_def system_theme_changed_def openCommandPalette_def closeCommandPalette_def
  toggleCommandPalette_def openQuickOpen_def closeQuickOpen_def toggleQuickOpen_def openGlobalSearch_def
  closeGlobalSearch_def toggleGlobalSearch_def setGitWidgetWorkingDirectory_def setGitHubWidgetFilters_def
  setGitHubWidgetRepo_def setGitHubWidgetPanelState_def toggleTerminal_def setDefaultShell_def
  sendTerminalCommand_def clearPendingTerminalCommand_def setActivePanel_def openModal_def closeModal_def
  openMobileFile_def openMobileFileActions_def toggleFocusMode_def setShowHiddenFiles_def setGridConfig_def
  resetGridConfig_def load_started_def sync_timer_def syncToServer_def sync_answered_def announce_timer_def

lemma ui_step_ok:
  assumes ok: "ui_ok s" and g: "ui_guard e s"
  shows "ui_ok (ui_step e s)"
proof (cases e)
  case (ToggleSidebar side)
  with g show ?thesis by (simp add: side_bars_ok [OF ok] sizes_ui_ok [OF ok])
next
  case (SetSidebarCollapsed side v)
  with g show ?thesis by (simp add: side_bars_ok [OF ok] sizes_ui_ok [OF ok])
next
  case (SetSidebarWidth side w)
  with g show ?thesis by (simp add: side_bars_ok [OF ok] sizes_ui_ok [OF ok])
next
  case (SetSidebarPanelHeight side i h)
  with g show ?thesis by (simp add: side_bars_ok [OF ok] sizes_ui_ok [OF ok])
next
  case (MovePanel p side)
  with g show ?thesis by (simp add: side_bars_ok [OF ok] sizes_ui_ok [OF ok])
next
  case (RemovePanel p)
  with g show ?thesis by (simp add: side_bars_ok [OF ok] sizes_ui_ok [OF ok])
next
  case (AddPanel p side)
  with g show ?thesis by (simp add: side_bars_ok [OF ok] sizes_ui_ok [OF ok])
next
  case (ResetSidebarLayout d)
  with g show ?thesis by (simp add: side_bars_ok [OF ok] sizes_ui_ok [OF ok])
next
  case (SetTerminalHeight h)
  with g show ?thesis by (simp add: side_bars_ok [OF ok] sizes_ui_ok [OF ok])
next
  case (SetPanelHeight h)
  with g show ?thesis by (simp add: side_bars_ok [OF ok] sizes_ui_ok [OF ok])
next
  case (SetField f)
  with g show ?thesis by (simp add: side_bars_ok [OF ok] sizes_ui_ok [OF ok])
next
  case (LoadAnswered d c now)
  with g show ?thesis by (simp only: ui_step.simps load_answered_ok [OF ok])
qed (rule plain_ui_ok [OF _ _ _ ok], use ok in \<open>simp_all add: plain_action_defs debouncedSync_def announce_def
      overlays_ok_def ui_ok_def Let_def\<close>)+

interpretation ui: machine ui_step ui_guard ui_ok init_ui
  by unfold_locales (auto intro: init_ui_ok ui_step_ok)

section \<open>Properties\<close>

text \<open>
  C22: In every state the UI store reaches, each panel is in one place only, panel heights are
  percentages and bars between 200 and 500 pixels wide, and at most one of command palette, quick
  open and global search is open.
\<close>

theorem ui_history_invariant:
  assumes "guarded ui_guard ui_step es init_ui" "s = fold ui_step es init_ui" "l = ui_sidebarLayout s"
  shows "distinct (map ps_panelId (sb_panels (sl_left l) @ sb_panels (sl_right l))) \<and>
    (\<forall>p \<in> set (sb_panels (sl_left l) @ sb_panels (sl_right l)). 0 \<le> ps_height p \<and> ps_height p \<le> 100) \<and>
    (\<forall>side. 200 \<le> sb_width (bar side l) \<and> sb_width (bar side l) \<le> 500) \<and> overlays_ok s"
proof -
  have ok: "ui_ok s"
    unfolding assms(2) by (rule ui.inv_history [OF assms(1)])
  then have "layout_ok l" "overlays_ok s"
    by (simp_all add: ui_ok_def assms(3))
  then show ?thesis
    by (auto simp: layout_ok_def bar_ok_def slots_ok_def bar_def split: sidebar_side.split)
qed

text \<open>
  Moving a panel takes it out of its side bar and puts it last in the other one; every other
  panel keeps its place.
\<close>

theorem moved_panel_changes_sides:
  assumes "layout_ok (ui_sidebarLayout s)" "panel_side p (ui_sidebarLayout s) = from" "from \<noteq> side"
    and "ids = (\<lambda>b s. map ps_panelId (sb_panels (bar b (ui_sidebarLayout s))))"
  shows "ids side (movePanel p side s) = ids side s @ [p] \<and>
    ids from (movePanel p side s) = filter (\<lambda>q. q \<noteq> p) (ids from s)"
  using assms(2,3) unfolding assms(4)
  by (cases side; cases "from")
    (simp_all add: movePanel_def Let_def debouncedSync_def announce_def edit_bar_def bar_def ids_without)

text \<open>
  A filter of the GitHub widget cannot be cleared: \<open>null\<close> is taken for absent, so once a branch
  is set, every action leaves some branch set, until a configuration is loaded from the server.
\<close>

definition branch_set :: "string \<Rightarrow> ui_state \<Rightarrow> bool" where
  "branch_set i s = (case map_of (ui_githubFilters s) i of None \<Rightarrow> False | Some f \<Rightarrow> wf_branch f \<noteq> None)"

lemma branch_set_filters: "branch_set i s \<Longrightarrow> branch_set i (setGitHubWidgetFilters j b st s)"
  by (auto simp: branch_set_def setGitHubWidgetFilters_def debouncedSync_def nullish_or_def coalesce_def Let_def
      split: option.splits nullish.splits)

lemma branch_set_step:
  assumes "branch_set i s" "\<forall>d c now. e \<noteq> LoadAnswered d c now"
  shows "branch_set i (ui_step e s)"
proof (cases e)
  case (SetGitHubWidgetFilters j b st)
  with assms(1) show ?thesis by (simp add: branch_set_filters)
next
  case (SetField f)
  have "ui_githubFilters (set_field f s) = ui_githubFilters s"
    by (cases f) simp_all
  with assms(1) SetField show ?thesis by (simp add: branch_set_def)
next
  case (SetSidebarPanelHeight side j h)
  have "ui_githubFilters (setSidebarPanelHeight side j h s) = ui_githubFilters s"
    by (simp add: setSidebarPanelHeight_def Let_def debouncedSync_def split: option.split)
  with assms(1) SetSidebarPanelHeight show ?thesis by (simp add: branch_set_def)
next
  case (LoadAnswered d c now)
  with assms(2) show ?thesis by blast
qed (use assms(1) in \<open>simp_all add: branch_set_def plain_action_defs side_bar_defs setTerminalHeight_def
      setPanelHeight_def debouncedSync_def announce_def Let_def\<close>)

theorem filters_never_cleared:
  assumes "branch_set i s" "\<forall>e \<in> set es. \<forall>d c now. e \<noteq> LoadAnswered d c now"
  shows "branch_set i (fold ui_step es s)"
  using assms by (induction es arbitrary: s) (simp_all add: branch_set_step)

text \<open>The comment promises an equal share; a panel that is added takes half of the bar.\<close>

lemma quarter_exact: "to_double (1 / 4) = 1 / 4" "to_double (1 / 2) = 1 / 2"
proof -
  show "to_double (1 / 4) = 1 / 4"
    by (rule to_double_exact [of _ 2 1]) (simp, rule shift53_ge, simp_all)
  show "to_double (1 / 2) = 1 / 2"
    by (rule to_double_exact [of _ 1 1]) (simp, rule shift53_ge, simp_all)
qed

lemma added_panel_takes_half:
  "map ps_height (normalizePanelHeights
     [\<lparr>ps_panelId = a, ps_height = 50\<rparr>, \<lparr>ps_panelId = b, ps_height = 50\<rparr>, \<lparr>ps_panelId = c, ps_height = 100\<rparr>]) =
   [25, 25, 50]"
proof -
  have "to_double (to_double (1 / 4) * 100) = 25" "to_double (to_double (1 / 2) * 100) = 50"
    using to_double_nat [of 25] to_double_nat [of 50] by (simp_all add: quarter_exact del: divide_eq_eq_numeral1)
  moreover have "to_double 50 = 50" "to_double 100 = 100" "to_double 200 = 200"
    using to_double_nat [of 50] to_double_nat [of 100] to_double_nat [of 200] by simp_all
  ultimately show ?thesis
    by (simp add: normalizePanelHeights_def double_add_def double_mult_def)
qed

section \<open>An example run\<close>

definition ex_ui :: "ui_event list" where
  "ex_ui = [OpenQuickOpen, OpenCommandPalette, MovePanel PanelGit RightSide, SetSidebarWidth LeftSide 900]"

theorem ui_history_invariant_witness:
  "overlays_ok (fold ui_step ex_ui init_ui) \<and> 200 \<le> sb_width (bar LeftSide (ui_sidebarLayout (fold ui_step ex_ui init_ui)))"
proof -
  have "guarded ui_guard ui_step ex_ui init_ui"
    by (simp add: ex_ui_def)
  from ui_history_invariant [OF this refl refl] show ?thesis by blast
qed

theorem moved_panel_changes_sides_witness:
  "map ps_panelId (sb_panels (bar RightSide (ui_sidebarLayout (movePanel PanelGit RightSide init_ui)))) =
   [PanelAgents, PanelMcp, PanelGit]"
  using moved_panel_changes_sides [of init_ui PanelGit LeftSide RightSide, OF _ _ _ refl] default_layout_ok
  by (simp add: init_ui_def panel_side_def DEFAULT_SIDEBAR_LAYOUT_def bar_def)

theorem filters_never_cleared_witness:
  "branch_set ''s'' (fold ui_step [SetGitHubWidgetFilters ''s'' Null Null]
     (setGitHubWidgetFilters ''s'' (Val ''main'') Undefined init_ui))"
  by (rule filters_never_cleared)
    (simp_all add: branch_set_def setGitHubWidgetFilters_def debouncedSync_def nullish_or_def init_ui_def coalesce_def Let_def)

end
