(* ===== verification/Web_Cache.thy ===== *)
theory Web_Cache
  imports Js_Text Machines
begin

text \<open>
  The request cache of the web application (class \<open>RequestCache\<close> in
  \<open>apps/web/src/lib/performance/requestCache.ts\<close>): entries with a time to live, de-duplication of
  requests under way, stale-while-revalidate. A fetch is known by its place in \<open>wc_fetches\<close>; a
  caller gets cached data at once or waits for a fetch. A pattern is its test.
\<close>

section \<open>Operations\<close>

record 'd web_entry =
  we_data :: 'd
  we_timestamp :: int
  we_expiresAt :: int

datatype fetch_kind = Foreground | Background

record ('d, 'e) web_fetch =
  wq_key :: string
  wq_kind :: fetch_kind
  wq_ttl :: int
  wq_answer :: "('e + 'd) option"

record ('d, 'e) web_cache =
  wc_cache :: "'d web_entry obj"
  wc_pending :: "nat obj"
  wc_fetches :: "('d, 'e) web_fetch list"

datatype 'd cache_answer = Cached 'd | FetchedBy nat

definition defaultTTL :: int where
  "defaultTTL = 5 * 60 * 1000"

definition new_web_cache :: "('d, 'e) web_cache" where
  "new_web_cache = \<lparr>wc_cache = [], wc_pending = [], wc_fetches = []\<rparr>"

definition refreshInBackground :: "string \<Rightarrow> int \<Rightarrow> ('d, 'e) web_cache \<Rightarrow> ('d, 'e) web_cache" where
  "refreshInBackground key ttl c =
     (if map_of (wc_pending c) key \<noteq> None then c
      else c\<lparr>wc_fetches := wc_fetches c @ [\<lparr>wq_key = key, wq_kind = Background, wq_ttl = ttl, wq_answer = None\<rparr>]\<rparr>)"

text \<open>The second half of \<open>getOrFetch\<close>: join a pending request or make a new one.\<close>

definition join_or_fetch :: "string \<Rightarrow> int \<Rightarrow> ('d, 'e) web_cache \<Rightarrow> ('d, 'e) web_cache \<times> 'd cache_answer" where
  "join_or_fetch key ttl c =
     (case map_of (wc_pending c) key of
        Some i \<Rightarrow> (c, FetchedBy i)
      | None \<Rightarrow>
          (c\<lparr>wc_fetches := wc_fetches c @ [\<lparr>wq_key = key, wq_kind = Foreground, wq_ttl = ttl, wq_answer = None\<rparr>],
             wc_pending := AList.update key (length (wc_fetches c)) (wc_pending c)\<rparr>,
           FetchedBy (length (wc_fetches c))))"

definition getOrFetch ::
    "string \<Rightarrow> int option \<Rightarrow> bool \<Rightarrow> bool \<Rightarrow> int \<Rightarrow> ('d, 'e) web_cache \<Rightarrow> ('d, 'e) web_cache \<times> 'd cache_answer" where
  "getOrFetch key ttlOption forceRefresh staleWhileRevalidate now c =
     (let ttl = coalesce ttlOption defaultTTL
      in if forceRefresh then join_or_fetch key ttl c
         else case map_of (wc_cache c) key of
             None \<Rightarrow> join_or_fetch key ttl c
           | Some cached \<Rightarrow>
               if now < we_expiresAt cached then (c, Cached (we_data cached))
               else if staleWhileRevalidate \<and> now - we_timestamp cached < ttl * 2
               then (refreshInBackground key ttl c, Cached (we_data cached))
               else join_or_fetch key ttl c)"

text \<open>The \<open>then\<close> and \<open>catch\<close> of a fetch.\<close>

definition web_answered :: "nat \<Rightarrow> 'e + 'd \<Rightarrow> int \<Rightarrow> ('d, 'e) web_cache \<Rightarrow> ('d, 'e) web_cache" where
  "web_answered i answer now c =
     (let f = wc_fetches c ! i;
          c = c\<lparr>wc_fetches := (wc_fetches c)[i := f\<lparr>wq_answer := Some answer\<rparr>]\<rparr>;
          c = (case answer of
                 Inl e \<Rightarrow> c
               | Inr d \<Rightarrow> c\<lparr>wc_cache := AList.update (wq_key f)
                   \<lparr>we_data = d, we_timestamp = now, we_expiresAt = now + wq_ttl f\<rparr> (wc_cache c)\<rparr>)
      in if wq_kind f = Foreground then c\<lparr>wc_pending := AList.delete (wq_key f) (wc_pending c)\<rparr> else c)"

definition web_get :: "string \<Rightarrow> int \<Rightarrow> ('d, 'e) web_cache \<Rightarrow> 'd option" where
  "web_get key now c =
     (case map_of (wc_cache c) key of
        None \<Rightarrow> None
      | Some cached \<Rightarrow> if now < we_expiresAt cached then Some (we_data cached) else None)"

definition web_set :: "string \<Rightarrow> 'd \<Rightarrow> int option \<Rightarrow> int \<Rightarrow> ('d, 'e) web_cache \<Rightarrow> ('d, 'e) web_cache" where
  "web_set key data ttl now c =
     c\<lparr>wc_cache := AList.update key
        \<lparr>we_data = data, we_timestamp = now,
         we_expiresAt = now + (case ttl of Some t \<Rightarrow> if t = 0 then defaultTTL else t | None \<Rightarrow> defaultTTL)\<rparr> (wc_cache c)\<rparr>"

definition web_invalidate :: "string \<Rightarrow> ('d, 'e) web_cache \<Rightarrow> ('d, 'e) web_cache" where
  "web_invalidate key c = c\<lparr>wc_cache := AList.delete key (wc_cache c)\<rparr>"

definition web_invalidatePattern :: "(string \<Rightarrow> bool) \<Rightarrow> ('d, 'e) web_cache \<Rightarrow> ('d, 'e) web_cache" where
  "web_invalidatePattern pattern c = c\<lparr>wc_cache := filter (\<lambda>e. \<not> pattern (fst e)) (wc_cache c)\<rparr>"

definition web_clear :: "('d, 'e) web_cache \<Rightarrow> ('d, 'e) web_cache" where
  "web_clear c = c\<lparr>wc_cache := [], wc_pending := []\<rparr>"

definition web_getStats :: "('d, 'e) web_cache \<Rightarrow> nat \<times> nat \<times> string list" where
  "web_getStats c = (length (wc_cache c), length (wc_pending c), map fst (wc_cache c))"

section \<open>As a machine\<close>

datatype ('d, 'e) web_event =
    WebGetOrFetch string "int option" bool bool int
  | WebAnswered nat "'e + 'd" int
  | WebSet string 'd "int option" int
  | WebInvalidate string
  | WebInvalidatePattern "string \<Rightarrow> bool"
  | WebClear

fun web_step :: "('d, 'e) web_event \<Rightarrow> ('d, 'e) web_cache \<Rightarrow> ('d, 'e) web_cache" where
  "web_step (WebGetOrFetch key ttl force swr now) c = fst (getOrFetch key ttl force swr now c)"
| "web_step (WebAnswered i answer now) c = web_answered i answer now c"
| "web_step (WebSet key d ttl now) c = web_set key d ttl now c"
| "web_step (WebInvalidate key) c = web_invalidate key c"
| "web_step (WebInvalidatePattern p) c = web_invalidatePattern p c"
| "web_step WebClear c = web_clear c"

text \<open>A fetch is answered once.\<close>

fun web_guard :: "('d, 'e) web_event \<Rightarrow> ('d, 'e) web_cache \<Rightarrow> bool" where
  "web_guard (WebAnswered i answer now) c = (i < length (wc_fetches c) \<and> wq_answer (wc_fetches c ! i) = None)"
| "web_guard _ c = True"

fun no_clear :: "('d, 'e) web_event \<Rightarrow> ('d, 'e) web_cache \<Rightarrow> bool" where
  "no_clear WebClear c = False"
| "no_clear e c = web_guard e c"

text \<open>The foreground fetches under way are exactly the pending entries.\<close>

definition under_way :: "('d, 'e) web_cache \<Rightarrow> string \<Rightarrow> nat \<Rightarrow> bool" where
  "under_way c key i \<longleftrightarrow> i < length (wc_fetches c) \<and> wq_key (wc_fetches c ! i) = key \<and>
     wq_kind (wc_fetches c ! i) = Foreground \<and> wq_answer (wc_fetches c ! i) = None"

definition pending_exact :: "('d, 'e) web_cache \<Rightarrow> bool" where
  "pending_exact c \<longleftrightarrow> (\<forall>key i. map_of (wc_pending c) key = Some i \<longleftrightarrow> under_way c key i)"

lemma under_way_append:
  "under_way (c\<lparr>wc_fetches := wc_fetches c @ [f]\<rparr>) key i \<longleftrightarrow> under_way c key i \<or>
     i = length (wc_fetches c) \<and> wq_key f = key \<and> wq_kind f = Foreground \<and> wq_answer f = None"
  by (auto simp: under_way_def nth_append less_Suc_eq)

lemma under_way_pending [simp]: "under_way (c\<lparr>wc_pending := ps\<rparr>) = under_way c" "under_way (c\<lparr>wc_cache := es\<rparr>) = under_way c"
  by (simp_all add: under_way_def fun_eq_iff)

lemma under_way_answered:
  "i < length (wc_fetches c) \<Longrightarrow>
   under_way (c\<lparr>wc_fetches := (wc_fetches c)[i := (wc_fetches c ! i)\<lparr>wq_answer := Some a\<rparr>]\<rparr>) key j \<longleftrightarrow>
     under_way c key j \<and> j \<noteq> i"
  by (auto simp: under_way_def nth_list_update)

lemma pending_exact_fields [simp]: "pending_exact (c\<lparr>wc_cache := es\<rparr>) = pending_exact c"
  by (simp add: pending_exact_def)

lemma under_way_bound: "under_way c key i \<Longrightarrow> i < length (wc_fetches c)"
  by (simp add: under_way_def)

lemma pending_none: "pending_exact c \<Longrightarrow> map_of (wc_pending c) key = None \<Longrightarrow> \<not> under_way c key i"
  unfolding pending_exact_def by (metis option.distinct(1))

lemma pending_unique: "pending_exact c \<Longrightarrow> under_way c key i \<Longrightarrow> under_way c key j \<Longrightarrow> i = j"
  unfolding pending_exact_def by (metis option.inject)

lemma join_exact:
  assumes "pending_exact c"
  shows "pending_exact (fst (join_or_fetch key ttl c))"
proof (cases "map_of (wc_pending c) key")
  case None
  note pending_none [OF assms this]
  with assms None show ?thesis
    by (auto simp: join_or_fetch_def pending_exact_def under_way_append dest: under_way_bound)
qed (use assms in \<open>simp add: join_or_fetch_def\<close>)

lemma refresh_exact: "pending_exact c \<Longrightarrow> pending_exact (refreshInBackground key ttl c)"
  by (auto simp: refreshInBackground_def pending_exact_def under_way_append)

lemma getOrFetch_cases:
  "(\<exists>cached. map_of (wc_cache c) key = Some cached \<and> snd (getOrFetch key ttl force swr now c) = Cached (we_data cached) \<and>
      fst (getOrFetch key ttl force swr now c) \<in> {c, refreshInBackground key (coalesce ttl defaultTTL) c}) \<or>
   getOrFetch key ttl force swr now c = join_or_fetch key (coalesce ttl defaultTTL) c"
  by (auto simp: getOrFetch_def Let_def split: option.split)

lemma getOrFetch_exact: "pending_exact c \<Longrightarrow> pending_exact (fst (getOrFetch key ttl force swr now c))"
  using getOrFetch_cases [of c key ttl force swr now] join_exact refresh_exact by fastforce

lemma answered_exact:
  assumes ok: "pending_exact c" and i: "i < length (wc_fetches c)" "wq_answer (wc_fetches c ! i) = None"
  shows "pending_exact (web_answered i answer now c)"
proof -
  let ?f = "wc_fetches c ! i"
  let ?c = "c\<lparr>wc_fetches := (wc_fetches c)[i := ?f\<lparr>wq_answer := Some answer\<rparr>]\<rparr>"
  obtain es where answered: "web_answered i answer now c = (if wq_kind ?f = Foreground
      then ?c\<lparr>wc_cache := es, wc_pending := AList.delete (wq_key ?f) (wc_pending c)\<rparr> else ?c\<lparr>wc_cache := es\<rparr>)"
    by (rule that [of "wc_cache (web_answered i answer now c)"]; cases answer; simp add: web_answered_def Let_def)
  have under: "under_way ?c key j \<longleftrightarrow> under_way c key j \<and> j \<noteq> i" for key j
    by (rule under_way_answered [OF i(1)])
  show ?thesis
  proof (cases "wq_kind ?f = Foreground")
    case True
    with i have "under_way c (wq_key ?f) i" by (simp add: under_way_def)
    note only = pending_unique [OF ok this]
    have "map_of (AList.delete (wq_key ?f) (wc_pending c)) key = Some j \<longleftrightarrow> under_way ?c key j" for key j
    proof (cases "key = wq_key ?f")
      case True
      with only [of j] show ?thesis unfolding under by auto
    next
      case False
      with ok show ?thesis unfolding under pending_exact_def by (auto simp: under_way_def)
    qed
    then show ?thesis
      using answered True by (simp add: pending_exact_def)
  next
    case False
    have "map_of (wc_pending c) key = Some j \<longleftrightarrow> under_way ?c key j" for key j
      using ok False unfolding under pending_exact_def by (auto simp: under_way_def)
    then show ?thesis
      using answered False by (simp add: pending_exact_def)
  qed
qed

lemma web_exact_step: "pending_exact c \<Longrightarrow> no_clear e c \<Longrightarrow> pending_exact (web_step e c)"
  by (cases e) (simp_all add: getOrFetch_exact answered_exact web_set_def web_invalidate_def web_invalidatePattern_def)

lemma new_web_exact: "pending_exact new_web_cache"
  by (simp add: pending_exact_def new_web_cache_def under_way_def)

interpretation web_fetches: machine web_step no_clear pending_exact new_web_cache
  by unfold_locales (auto intro: new_web_exact web_exact_step)

text \<open>What is stored under a key has a property that all answers and manual entries for it have.\<close>

definition stores_only :: "(string \<Rightarrow> 'd \<Rightarrow> bool) \<Rightarrow> ('d, 'e) web_cache \<Rightarrow> bool" where
  "stores_only P c \<longleftrightarrow> (\<forall>e \<in> set (wc_cache c). P (fst e) (we_data (snd e)))"

fun web_good :: "(string \<Rightarrow> 'd \<Rightarrow> bool) \<Rightarrow> ('d, 'e) web_event \<Rightarrow> ('d, 'e) web_cache \<Rightarrow> bool" where
  "web_good P (WebAnswered i (Inr d) now) c = (web_guard (WebAnswered i (Inr d) now) c \<and> P (wq_key (wc_fetches c ! i)) d)"
| "web_good P (WebSet key d ttl now) c = P key d"
| "web_good P e c = web_guard e c"

lemma update_mem: "e \<in> set (AList.update k v m) \<Longrightarrow> e = (k, v) \<or> e \<in> set m"
  by (induction m) (auto split: if_splits)

lemma getOrFetch_cache [simp]: "wc_cache (fst (getOrFetch key ttl force swr now c)) = wc_cache c"
  by (auto simp: getOrFetch_def join_or_fetch_def refreshInBackground_def Let_def split: option.split)

lemma web_answered_cache:
  "wc_cache (web_answered i answer now c) = (case answer of Inl e \<Rightarrow> wc_cache c
     | Inr d \<Rightarrow> AList.update (wq_key (wc_fetches c ! i))
         \<lparr>we_data = d, we_timestamp = now, we_expiresAt = now + wq_ttl (wc_fetches c ! i)\<rparr> (wc_cache c))"
  by (simp add: web_answered_def Let_def split: sum.split)

lemma stores_only_step:
  assumes "stores_only P c" "web_good P e c"
  shows "stores_only P (web_step e c)"
proof (cases e)
  case (WebAnswered i answer now)
  with assms show ?thesis
    by (cases answer) (auto simp: web_answered_cache stores_only_def dest!: update_mem)
next
  case (WebSet key d ttl now)
  with assms show ?thesis
    by (auto simp: web_set_def stores_only_def dest!: update_mem)
qed (use assms in \<open>auto simp: stores_only_def web_invalidate_def web_invalidatePattern_def web_clear_def set_obj_delete\<close>)

lemma new_stores_only: "stores_only P new_web_cache"
  by (simp add: stores_only_def new_web_cache_def)

interpretation web_contents: machine web_step "web_good P" "stores_only P" new_web_cache for P
  by unfold_locales (auto intro: new_stores_only stores_only_step)

section \<open>Properties\<close>

text \<open>
  C23: As long as the cache is not cleared, at most one foreground request per key is under way, and
  a caller that has to wait waits for a request for its own key that is under way.
\<close>

theorem web_requests_deduplicated:
  assumes "guarded no_clear web_step es new_web_cache" "c = fold web_step es new_web_cache"
  shows "(under_way c key i \<and> under_way c key j \<longrightarrow> i = j) \<and>
    (snd (getOrFetch key ttl force swr now c) = FetchedBy i \<longrightarrow> under_way (fst (getOrFetch key ttl force swr now c)) key i)"
proof -
  have ok: "pending_exact c"
    unfolding assms(2) by (rule web_fetches.inv_history [OF assms(1)])
  have joined: "under_way (fst (join_or_fetch key t c)) key i" if "snd (join_or_fetch key t c) = FetchedBy i" for t
  proof (cases "map_of (wc_pending c) key")
    case None
    with that show ?thesis by (auto simp: join_or_fetch_def under_way_append)
  next
    case (Some j)
    with that have "join_or_fetch key t c = (c, FetchedBy i)" "j = i" by (simp_all add: join_or_fetch_def)
    with ok Some show ?thesis by (simp add: pending_exact_def)
  qed
  have "under_way (fst (getOrFetch key ttl force swr now c)) key i" if "snd (getOrFetch key ttl force swr now c) = FetchedBy i"
    using that getOrFetch_cases [of c key ttl force swr now] joined by fastforce
  moreover have "i = j" if "under_way c key i" "under_way c key j"
    using that by (rule pending_unique [OF ok])
  ultimately show ?thesis by blast
qed

text \<open>
  The cache never mixes keys up: if every answer to a fetch for a key and every value set under
  it has a property, so has every value that is served for it.
\<close>

theorem web_cache_serves_own_key:
  assumes "guarded (web_good P) web_step es new_web_cache" "c = fold web_step es new_web_cache"
    and "snd (getOrFetch key ttl force swr now c) = Cached d \<or> web_get key now c = Some d"
  shows "P key d"
proof -
  have ok: "stores_only P c"
    unfolding assms(2) by (rule web_contents.inv_history [OF assms(1)])
  have "\<exists>cached. map_of (wc_cache c) key = Some cached \<and> we_data cached = d"
    using assms(3)
  proof
    assume "snd (getOrFetch key ttl force swr now c) = Cached d"
    then show ?thesis
      using getOrFetch_cases [of c key ttl force swr now]
      by (fastforce simp: join_or_fetch_def split: option.splits)
  qed (auto simp: web_get_def split: option.splits if_splits)
  then show ?thesis
    using ok by (fastforce simp: stores_only_def dest: map_of_SomeD)
qed

text \<open>
  \<open>clear\<close> forgets the requests under way without stopping them: one that was made before it can run
  next to a new one for the same key, and its answer makes the cache forget the new one too.
\<close>

lemma cleared_request_forgotten:
  fixes d :: 'd
  assumes "c = fold web_step [WebGetOrFetch k None False False 0, WebClear, WebGetOrFetch k None False False 1]
      (new_web_cache :: ('d, 'e) web_cache)"
  shows "under_way c k 0 \<and> under_way c k 1 \<and> map_of (wc_pending (web_answered 0 (Inr d) 2 c)) k = None"
  unfolding assms
  by (simp add: getOrFetch_def join_or_fetch_def web_clear_def web_answered_def new_web_cache_def under_way_def Let_def)

section \<open>An example run\<close>

definition ex_web :: "(int, string) web_event list" where
  "ex_web = [WebGetOrFetch ''a'' None False False 0, WebAnswered 0 (Inr 7) 10, WebSet ''b'' 9 None 20,
     WebGetOrFetch ''b'' None True False 30]"

lemmas web_run_defs = ex_web_def getOrFetch_def join_or_fetch_def web_answered_def web_set_def new_web_cache_def
  coalesce_def defaultTTL_def

theorem web_requests_deduplicated_witness:
  "under_way (fst (getOrFetch ''b'' None True False 40 (fold web_step ex_web new_web_cache))) ''b'' 1"
proof -
  have "guarded no_clear web_step ex_web new_web_cache"
    by (simp add: web_run_defs Let_def)
  moreover have "snd (getOrFetch ''b'' None True False 40 (fold web_step ex_web new_web_cache)) = FetchedBy 1"
    by (simp add: web_run_defs Let_def)
  ultimately show ?thesis
    using web_requests_deduplicated [OF _ refl] by blast
qed

theorem web_cache_serves_own_key_witness:
  "\<exists>d. web_get ''a'' 40 (fold web_step ex_web new_web_cache) = Some d \<and> d = 7"
proof -
  let ?P = "\<lambda>k d :: int. if k = ''a'' then d = 7 else d = 9"
  have "guarded (web_good ?P) web_step ex_web new_web_cache"
    by (simp add: web_run_defs Let_def)
  note served = web_cache_serves_own_key [OF this refl, where now = 40]
  obtain d where d: "web_get ''a'' 40 (fold web_step ex_web new_web_cache) = Some d"
    by (simp add: web_run_defs web_get_def Let_def)
  with served [of "''a''" None False False d] have "d = 7" by simp
  with d show ?thesis by blast
qed

end
