(* ===== verification/Rate_Limits.thy ===== *)
theory Rate_Limits
  imports Machines
begin

text \<open>
  \<open>createDebouncedRequest\<close> and \<open>createThrottledRequest\<close> of
  \<open>apps/web/src/lib/performance/requestCache.ts\<close>. A call, its timer and its promise are known by
  their place among the calls; the result of \<open>fn\<close> is a thrown error or a value.
\<close>

section \<open>Debounced requests\<close>

record ('a, 'r, 'e) debounced_call =
  dl_args :: 'a
  dl_outcome :: "('e + 'r) option"

record ('a, 'r, 'e) debouncer =
  dq_timeoutId :: "nat option"
  dq_pending :: "nat option"
  dq_calls :: "('a, 'r, 'e) debounced_call list"
  dq_timers :: "nat list"
  dq_running :: "nat list"
  dq_invoked :: "'a list"

definition new_debouncer :: "('a, 'r, 'e) debouncer" where
  "new_debouncer = \<lparr>dq_timeoutId = None, dq_pending = None, dq_calls = [], dq_timers = [],
     dq_running = [], dq_invoked = []\<rparr>"

definition debouncedFn :: "'a \<Rightarrow> ('a, 'r, 'e) debouncer \<Rightarrow> ('a, 'r, 'e) debouncer" where
  "debouncedFn args d =
     (let n = length (dq_calls d);
          timers = (case dq_timeoutId d of None \<Rightarrow> dq_timers d | Some t \<Rightarrow> filter (\<lambda>x. x \<noteq> t) (dq_timers d))
      in d\<lparr>dq_timeoutId := Some n, dq_pending := Some n,
           dq_calls := dq_calls d @ [\<lparr>dl_args = args, dl_outcome = None\<rparr>], dq_timers := timers @ [n]\<rparr>)"

text \<open>A timer fires: \<open>fn\<close> is called and awaited.\<close>

definition debounce_timer :: "nat \<Rightarrow> ('a, 'r, 'e) debouncer \<Rightarrow> ('a, 'r, 'e) debouncer" where
  "debounce_timer n d =
     d\<lparr>dq_timers := filter (\<lambda>x. x \<noteq> n) (dq_timers d), dq_running := dq_running d @ [n],
       dq_invoked := dq_invoked d @ [dl_args (dq_calls d ! n)]\<rparr>"

text \<open>\<open>fn\<close> returns or throws: whoever is in \<open>pendingResolve\<close> at that moment gets the result.\<close>

definition debounce_answered :: "nat \<Rightarrow> 'e + 'r \<Rightarrow> ('a, 'r, 'e) debouncer \<Rightarrow> ('a, 'r, 'e) debouncer" where
  "debounce_answered n answer d =
     d\<lparr>dq_calls := (case dq_pending d of
           None \<Rightarrow> dq_calls d
         | Some p \<Rightarrow> if dl_outcome (dq_calls d ! p) = None
             then (dq_calls d)[p := (dq_calls d ! p)\<lparr>dl_outcome := Some answer\<rparr>] else dq_calls d),
       dq_running := filter (\<lambda>x. x \<noteq> n) (dq_running d), dq_timeoutId := None, dq_pending := None\<rparr>"

datatype ('a, 'r, 'e) debounce_event =
    DebouncedCall 'a
  | DebounceTimer nat
  | DebounceAnswered nat "'e + 'r"

fun debounce_step :: "('a, 'r, 'e) debounce_event \<Rightarrow> ('a, 'r, 'e) debouncer \<Rightarrow> ('a, 'r, 'e) debouncer" where
  "debounce_step (DebouncedCall args) d = debouncedFn args d"
| "debounce_step (DebounceTimer n) d = debounce_timer n d"
| "debounce_step (DebounceAnswered n answer) d = debounce_answered n answer d"

fun debounce_guard :: "('a, 'r, 'e) debounce_event \<Rightarrow> ('a, 'r, 'e) debouncer \<Rightarrow> bool" where
  "debounce_guard (DebounceTimer n) d = (n \<in> set (dq_timers d))"
| "debounce_guard (DebounceAnswered n answer) d = (n \<in> set (dq_running d))"
| "debounce_guard (DebouncedCall args) d = True"

section \<open>Throttled requests\<close>

record ('a, 'r, 'e) throttled_call =
  tc_args :: 'a
  tc_delayed :: bool
  tc_invoked :: bool
  tc_outcome :: "('e + 'r) option"

record ('a, 'r, 'e) throttler =
  tq_interval :: int
  tq_lastCall :: int
  tq_pending :: "nat option"
  tq_calls :: "('a, 'r, 'e) throttled_call list"
  tq_immediate :: "int list"

definition new_throttler :: "int \<Rightarrow> ('a, 'r, 'e) throttler" where
  "new_throttler interval = \<lparr>tq_interval = interval, tq_lastCall = 0, tq_pending = None, tq_calls = [], tq_immediate = []\<rparr>"

text \<open>The place of the promise that the caller gets.\<close>

definition throttledFn :: "'a \<Rightarrow> int \<Rightarrow> ('a, 'r, 'e) throttler \<Rightarrow> ('a, 'r, 'e) throttler \<times> nat" where
  "throttledFn args now t =
     (let n = length (tq_calls t)
      in if now - tq_lastCall t < tq_interval t
         then (case tq_pending t of
             Some p \<Rightarrow> (t, p)
           | None \<Rightarrow> (t\<lparr>tq_calls := tq_calls t @ [\<lparr>tc_args = args, tc_delayed = True, tc_invoked = False, tc_outcome = None\<rparr>]\<rparr>, n))
         else (t\<lparr>tq_lastCall := now, tq_pending := Some n,
                 tq_calls := tq_calls t @ [\<lparr>tc_args = args, tc_delayed = False, tc_invoked = True, tc_outcome = None\<rparr>],
                 tq_immediate := tq_immediate t @ [now]\<rparr>, n))"

text \<open>The timer of a delayed call.\<close>

definition throttle_timer :: "nat \<Rightarrow> ('a, 'r, 'e) throttler \<Rightarrow> ('a, 'r, 'e) throttler" where
  "throttle_timer n t = t\<lparr>tq_calls := (tq_calls t)[n := (tq_calls t ! n)\<lparr>tc_invoked := True\<rparr>]\<rparr>"

text \<open>The answer to a call; the \<open>finally\<close> belongs to the immediate ones.\<close>

definition throttle_answered :: "nat \<Rightarrow> 'e + 'r \<Rightarrow> ('a, 'r, 'e) throttler \<Rightarrow> ('a, 'r, 'e) throttler" where
  "throttle_answered n answer t =
     t\<lparr>tq_calls := (tq_calls t)[n := (tq_calls t ! n)\<lparr>tc_outcome := Some answer\<rparr>],
       tq_pending := if tc_delayed (tq_calls t ! n) then tq_pending t else None\<rparr>"

datatype ('a, 'r, 'e) throttle_event =
    ThrottledCall 'a int
  | ThrottleTimer nat
  | ThrottleAnswered nat "'e + 'r"

fun throttle_step :: "('a, 'r, 'e) throttle_event \<Rightarrow> ('a, 'r, 'e) throttler \<Rightarrow> ('a, 'r, 'e) throttler" where
  "throttle_step (ThrottledCall args now) t = fst (throttledFn args now t)"
| "throttle_step (ThrottleTimer n) t = throttle_timer n t"
| "throttle_step (ThrottleAnswered n answer) t = throttle_answered n answer t"

section \<open>Facts\<close>

text \<open>A debounced call that was superseded before it was answered.\<close>

definition superseded :: "nat \<Rightarrow> ('a, 'r, 'e) debouncer \<Rightarrow> bool" where
  "superseded p d \<longleftrightarrow> p < length (dq_calls d) \<and> dl_outcome (dq_calls d ! p) = None \<and> dq_pending d \<noteq> Some p"

lemma superseded_step: "superseded p d \<Longrightarrow> superseded p (debounce_step e d)"
  by (cases e) (auto simp: superseded_def debouncedFn_def debounce_timer_def debounce_answered_def Let_def nth_append
      split: option.split)

text \<open>What the debouncer always keeps: ids are places of calls, and each timer is armed once.\<close>

definition debounce_ok :: "('a, 'r, 'e) debouncer \<Rightarrow> bool" where
  "debounce_ok d \<longleftrightarrow> (\<forall>n \<in> set (dq_timers d) \<union> set (dq_running d) \<union> set_option (dq_timeoutId d) \<union> set_option (dq_pending d).
       n < length (dq_calls d)) \<and> distinct (dq_timers d)"

lemma debounce_ok_step: "debounce_ok d \<Longrightarrow> debounce_guard e d \<Longrightarrow> debounce_ok (debounce_step e d)"
  by (cases e) (auto simp: debounce_ok_def debouncedFn_def debounce_timer_def debounce_answered_def Let_def less_SucI
      split: option.splits)

lemma new_debouncer_ok: "debounce_ok new_debouncer"
  by (simp add: debounce_ok_def new_debouncer_def)

interpretation debounce: machine debounce_step debounce_guard debounce_ok new_debouncer
  by unfold_locales (auto intro: new_debouncer_ok debounce_ok_step)

lemma burst:
  "fold debouncedFn xs new_debouncer =
     (if xs = [] then new_debouncer
      else new_debouncer\<lparr>dq_timeoutId := Some (length xs - 1), dq_pending := Some (length xs - 1),
        dq_calls := map (\<lambda>x. \<lparr>dl_args = x, dl_outcome = None\<rparr>) xs, dq_timers := [length xs - 1]\<rparr>)"
proof (induction xs rule: rev_induct)
  case (snoc x xs)
  then show ?case
    by (auto simp: debouncedFn_def new_debouncer_def Let_def)
qed simp

text \<open>The immediate calls of a throttler.\<close>

definition spaced :: "('a, 'r, 'e) throttler \<Rightarrow> bool" where
  "spaced t \<longleftrightarrow> sorted_wrt (\<lambda>a b. tq_interval t \<le> b - a) (tq_immediate t) \<and>
     (tq_immediate t \<noteq> [] \<longrightarrow> tq_lastCall t = last (tq_immediate t))"

lemma spaced_append:
  assumes "sorted_wrt (\<lambda>a b. i \<le> b - a) xs" "xs = [] \<or> i \<le> now - last xs" "(0 :: int) \<le> i"
  shows "sorted_wrt (\<lambda>a b. i \<le> b - a) (xs @ [now])"
proof (cases xs rule: rev_cases)
  case (snoc ys l)
  with assms(1) have before: "\<forall>a \<in> set ys. i \<le> l - a"
    by (auto simp: sorted_wrt_append)
  have now: "i \<le> now - l"
    using assms(2) snoc by simp
  have "i \<le> now - a" if "a \<in> set ys" for a
    using before now assms(3) that by fastforce
  with assms(1) now snoc show ?thesis
    by (auto simp: sorted_wrt_append)
qed simp

definition throttle_ok :: "int \<Rightarrow> ('a, 'r, 'e) throttler \<Rightarrow> bool" where
  "throttle_ok i t \<longleftrightarrow> tq_interval t = i \<and> (0 \<le> i \<longrightarrow> spaced t)"

lemma throttle_ok_step: "throttle_ok i t \<Longrightarrow> throttle_ok i (throttle_step e t)"
proof (cases e)
  case (ThrottledCall args now)
  moreover assume "throttle_ok i t"
  ultimately show ?thesis
    by (auto simp: throttle_ok_def spaced_def throttledFn_def Let_def intro!: spaced_append split: option.split)
qed (auto simp: throttle_ok_def spaced_def throttle_timer_def throttle_answered_def)

lemma new_throttler_ok: "throttle_ok i (new_throttler i)"
  by (simp add: throttle_ok_def new_throttler_def spaced_def)

interpretation throttle: machine throttle_step "\<lambda>e t. True" "throttle_ok i" "new_throttler i" for i
  by unfold_locales (auto intro: new_throttler_ok throttle_ok_step)

section \<open>Properties\<close>

text \<open>
  A burst of debounced calls makes one call of \<open>fn\<close>, with the arguments of the last, whose
  caller gets the result.
\<close>

theorem debounce_last_wins:
  assumes "xs \<noteq> []" "d = debounce_answered (length xs - 1) answer
      (debounce_timer (length xs - 1) (fold debouncedFn xs new_debouncer))"
  shows "dq_invoked d = [last xs] \<and> dl_outcome (last (dq_calls d)) = Some answer \<and> dq_timers d = []"
proof -
  have n: "length xs - 1 < length xs" using assms(1) by simp
  have fold: "fold debouncedFn xs new_debouncer = new_debouncer\<lparr>dq_timeoutId := Some (length xs - 1),
      dq_pending := Some (length xs - 1), dq_calls := map (\<lambda>x. \<lparr>dl_args = x, dl_outcome = None\<rparr>) xs,
      dq_timers := [length xs - 1]\<rparr>"
    using burst [of xs] assms(1) by simp
  have "last (zs[length xs - 1 := y]) = y" if "length zs = length xs" for zs and y :: "('a, 'c, 'b) debounced_call"
  proof -
    have "zs \<noteq> []" using assms(1) that by auto
    then show ?thesis using that by (simp add: last_list_update)
  qed
  with n show ?thesis
    unfolding assms(2) fold by (simp add: debounce_timer_def debounce_answered_def new_debouncer_def last_conv_nth assms(1))
qed

text \<open>
  The callers that a later call supersedes are left waiting: whatever happens afterwards, their
  promises never settle.
\<close>

theorem superseded_call_never_settles:
  assumes "guarded debounce_guard debounce_step es new_debouncer" "d = fold debounce_step es new_debouncer"
    and "dq_pending d = Some p" "dl_outcome (dq_calls d ! p) = None"
  shows "dl_outcome (dq_calls (fold debounce_step fs (debouncedFn args d)) ! p) = None"
proof -
  have "p < length (dq_calls d)"
    using debounce.inv_history [OF assms(1)] assms(2,3) by (auto simp: debounce_ok_def)
  then have "superseded p (debouncedFn args d)"
    using assms(4) by (auto simp: superseded_def debouncedFn_def Let_def nth_append)
  moreover have "superseded p (fold debounce_step fs x)" if "superseded p x" for x
    using that by (induction fs arbitrary: x) (simp_all add: superseded_step)
  ultimately show ?thesis by (simp add: superseded_def)
qed

text \<open>
  C24: The calls of \<open>fn\<close> that a throttler makes at once are at least the interval apart.
\<close>

theorem throttled_calls_spaced:
  assumes "0 \<le> i" "t = fold throttle_step es (new_throttler i)" "j < k" "k < length (tq_immediate t)"
  shows "i \<le> tq_immediate t ! k - tq_immediate t ! j"
proof -
  have "throttle_ok i t"
    unfolding assms(2) by (rule throttle.inv_history) simp
  then show ?thesis
    using assms(1,3,4) by (auto simp: throttle_ok_def spaced_def sorted_wrt_iff_nth_less)
qed

text \<open>
  When \<open>fn\<close> is still running at the next call, its result goes to the new caller, and the result
  of the new call is dropped.
\<close>

lemma running_result_goes_to_newer_call:
  assumes "d = fold debounce_step [DebouncedCall a, DebounceTimer 0, DebouncedCall b, DebounceAnswered 0 (Inr x),
      DebounceTimer 1, DebounceAnswered 1 (Inr y)] new_debouncer"
  shows "map dl_outcome (dq_calls d) = [None, Some (Inr x)]"
  unfolding assms by (simp add: debouncedFn_def debounce_timer_def debounce_answered_def new_debouncer_def)

text \<open>The delayed calls are not throttled: all that come within the interval run when it ends.\<close>

lemma delayed_calls_not_throttled:
  assumes "t = fold throttle_step [ThrottledCall a 1000, ThrottleAnswered 0 (Inr x), ThrottledCall b 1001,
      ThrottledCall c 1002, ThrottleTimer 1, ThrottleTimer 2] (new_throttler 500)"
  shows "map tc_invoked (tq_calls t) = [True, True, True] \<and> tq_lastCall t = 1000"
  unfolding assms by (simp add: throttledFn_def throttle_timer_def throttle_answered_def new_throttler_def)

section \<open>Examples\<close>

theorem debounce_last_wins_witness:
  "dq_invoked (debounce_answered 2 (Inr 5 :: string + int) (debounce_timer 2 (fold debouncedFn [''a'', ''ab'', ''abc''] new_debouncer))) = [''abc'']"
  using debounce_last_wins [of "[''a'', ''ab'', ''abc'']" _ "Inr 5 :: string + int", OF _ refl] by (simp add: numeral_2_eq_2)

theorem superseded_call_never_settles_witness:
  "dl_outcome (dq_calls (fold debounce_step [DebounceTimer 1, DebounceAnswered 1 (Inr 5 :: string + int)]
     (debouncedFn ''ab'' (fold debounce_step [DebouncedCall ''a''] new_debouncer))) ! 0) = None"
  by (rule superseded_call_never_settles [OF _ refl]) (simp_all add: debouncedFn_def new_debouncer_def)

theorem throttled_calls_spaced_witness:
  "500 \<le> tq_immediate (fold throttle_step [ThrottledCall ''a'' 1000, ThrottledCall ''b'' 1200, ThrottledCall ''c'' 1700] (new_throttler 500 :: (string, int, string) throttler)) ! 1 -
     tq_immediate (fold throttle_step [ThrottledCall ''a'' 1000, ThrottledCall ''b'' 1200, ThrottledCall ''c'' 1700] (new_throttler 500 :: (string, int, string) throttler)) ! 0"
  by (rule throttled_calls_spaced [OF _ refl]) (simp_all add: throttledFn_def new_throttler_def)

end
