(* ===== verification/Js_Format.thy ===== *)
theory Js_Format
  imports Js_Text Js_Number
begin

text \<open>
  Numbers as text: \<open>toFixed\<close> of a non-negative number rounds to the nearest decimal with the given
  number of digits, and upwards when two are equally near.
\<close>

definition pad_zeros :: "nat \<Rightarrow> string \<Rightarrow> string" where
  "pad_zeros n s = replicate (n - length s) CHR ''0'' @ s"

definition to_fixed :: "nat \<Rightarrow> rat \<Rightarrow> string" where
  "to_fixed d x =
     (let n = nat \<lfloor>x * 10 ^ d + 1 / 2\<rfloor>
      in show_nat (n div 10 ^ d) @ (if d = 0 then [] else CHR ''.'' # pad_zeros d (show_nat (n mod 10 ^ d))))"

lemma show_nat_bounds: "0 < length (show_nat n)" "n < 10 ^ d \<Longrightarrow> 0 < d \<Longrightarrow> length (show_nat n) \<le> d"
proof -
  show "0 < length (show_nat n)"
    by (subst show_nat.simps) simp
  show "length (show_nat n) \<le> d" if "n < 10 ^ d" "0 < d"
    using that
  proof (induction n arbitrary: d rule: show_nat.induct)
    case (1 n)
    show ?case
    proof (cases "n < 10")
      case True
      with 1(3) show ?thesis by (subst show_nat.simps) simp
    next
      case False
      from 1(3) obtain d' where d: "d = Suc d'"
        by (cases d) simp_all
      moreover have "0 < d'"
        using 1(2) False d by (cases d') simp_all
      moreover have "n div 10 < 10 ^ d'"
        using 1(2) d by (simp add: less_mult_imp_div_less mult.commute)
      ultimately show ?thesis
        using 1(1) [OF False] False d by (subst show_nat.simps) simp
    qed
  qed
qed

text \<open>The text has exactly \<open>d\<close> digits behind the point.\<close>

lemma to_fixed_digits: "\<exists>ds. length ds = d \<and> to_fixed d x = show_nat (nat \<lfloor>x * 10 ^ d + 1 / 2\<rfloor> div 10 ^ d) @ (if d = 0 then [] else CHR ''.'' # ds)"
proof -
  have "length (pad_zeros d (show_nat (m mod 10 ^ d))) = d" if "0 < d" for m
    using show_nat_bounds(2) [of "m mod 10 ^ d" d] that by (simp add: pad_zeros_def)
  then show ?thesis
    by (cases "d = 0") (auto simp: to_fixed_def Let_def)
qed

end
