(* ===== verification/Local_Storage.thy ===== *)
theory Local_Storage
  imports Prelude Js_Format Machines "HOL-Library.Char_ord" "HOL-Library.List_Lexorder"
begin

text \<open>
  The browser's \<open>localStorage\<close> and \<open>apps/web/src/lib/storageQuota.ts\<close>: how much of it is used,
  warnings when it fills up, writes that may be refused, and the removal of old entries. The
  browser decides which contents fit (an argument) and may refuse any access. The configured
  quota is a positive number of bytes; \<open>None\<close> stands for a configuration that is not there yet.
\<close>

section \<open>The storage\<close>

record local_storage =
  ls_accessible :: bool
  ls_items :: "string obj"

datatype storage_error = QuotaExceededError | SecurityError

definition ls_set :: "(string obj \<Rightarrow> bool) \<Rightarrow> string \<Rightarrow> string \<Rightarrow> local_storage \<Rightarrow> storage_error + local_storage" where
  "ls_set fits k v ls =
     (if \<not> ls_accessible ls then Inl SecurityError
      else if fits (AList.update k v (ls_items ls)) then Inr (ls\<lparr>ls_items := AList.update k v (ls_items ls)\<rparr>)
      else Inl QuotaExceededError)"

definition ls_remove :: "string \<Rightarrow> local_storage \<Rightarrow> local_storage" where
  "ls_remove k ls = (if ls_accessible ls then ls\<lparr>ls_items := AList.delete k (ls_items ls)\<rparr> else ls)"

section \<open>Quota\<close>

record quota_config =
  qf_defaultQuotaBytes :: int
  qf_warningThreshold :: rat
  qf_criticalThreshold :: rat

record storage_quota =
  sq_used :: int
  sq_total :: int
  sq_percentage :: "rat option"
  sq_usedFormatted :: string
  sq_totalFormatted :: string

definition formatBytes :: "int \<Rightarrow> string" where
  "formatBytes bytes =
     (if bytes < 1024 then show_int bytes @ '' B''
      else if bytes < 1024 * 1024 then to_fixed 1 (to_double (of_int bytes / 1024)) @ '' KB''
      else to_fixed 2 (to_double (of_int bytes / (1024 * 1024))) @ '' MB'')"

text \<open>Two bytes for each code unit; an empty key is skipped.\<close>

definition item_size :: "string \<times> string \<Rightarrow> int" where
  "item_size e = (int (length (fst e)) + int (length (snd e))) * 2"

definition listed_items :: "local_storage \<Rightarrow> (string \<times> string) list" where
  "listed_items ls = filter (\<lambda>e. fst e \<noteq> []) (ls_items ls)"

definition getStorageQuota :: "quota_config option \<Rightarrow> local_storage \<Rightarrow> storage_quota option" where
  "getStorageQuota config ls =
     (case config of
        None \<Rightarrow> None
      | Some c \<Rightarrow>
          if ls_accessible ls
          then (let used = sum_list (map item_size (listed_items ls))
                in Some \<lparr>sq_used = used, sq_total = qf_defaultQuotaBytes c,
                     sq_percentage = double_div (of_int used) (of_int (qf_defaultQuotaBytes c)),
                     sq_usedFormatted = formatBytes used,
                     sq_totalFormatted = formatBytes (qf_defaultQuotaBytes c)\<rparr>)
          else Some \<lparr>sq_used = 0, sq_total = qf_defaultQuotaBytes c, sq_percentage = Some 0,
                 sq_usedFormatted = ''0 B'', sq_totalFormatted = formatBytes (qf_defaultQuotaBytes c)\<rparr>)"

text \<open>\<open>percentage >= threshold\<close>, false for \<open>NaN\<close>.\<close>

definition reaches :: "rat option \<Rightarrow> rat \<Rightarrow> bool" where
  "reaches p threshold = (case p of None \<Rightarrow> False | Some x \<Rightarrow> threshold \<le> x)"

definition isNearQuota :: "rat option \<Rightarrow> quota_config option \<Rightarrow> local_storage \<Rightarrow> bool" where
  "isNearQuota threshold config ls =
     (case (config, getStorageQuota config ls) of
        (Some c, Some q) \<Rightarrow> reaches (sq_percentage q) (coalesce threshold (qf_warningThreshold c))
      | _ \<Rightarrow> False)"

definition isCriticallyFull :: "quota_config option \<Rightarrow> local_storage \<Rightarrow> bool" where
  "isCriticallyFull config ls =
     (case (config, getStorageQuota config ls) of
        (Some c, Some q) \<Rightarrow> reaches (sq_percentage q) (qf_criticalThreshold c)
      | _ \<Rightarrow> False)"

definition getUsageByPrefix :: "string \<Rightarrow> local_storage \<Rightarrow> int" where
  "getUsageByPrefix pre ls =
     (if ls_accessible ls
      then sum_list (map item_size (filter (\<lambda>e. starts_with (fst e) pre) (listed_items ls)))
      else 0)"

definition getKeysSortedBySize :: "local_storage \<Rightarrow> (string \<times> int) list" where
  "getKeysSortedBySize ls =
     (if ls_accessible ls
      then sort_key (\<lambda>e. - snd e) (map (\<lambda>e. (fst e, item_size e)) (listed_items ls))
      else [])"

section \<open>Monitoring\<close>

datatype quota_level = WarningLevel | CriticalLevel

record quota_warning =
  qw_level :: quota_level
  qw_message :: string
  qw_quota :: storage_quota

record quota_monitor =
  mo_lastWarningLevel :: "quota_level option"
  mo_warnings :: "quota_warning list"

definition new_monitor :: quota_monitor where
  "new_monitor = \<lparr>mo_lastWarningLevel = None, mo_warnings = []\<rparr>"

definition percent_text :: "storage_quota \<Rightarrow> string" where
  "percent_text q = to_fixed 1 (double_mult (case sq_percentage q of None \<Rightarrow> 0 | Some p \<Rightarrow> p) 100)"

definition warn :: "quota_level \<Rightarrow> string \<Rightarrow> storage_quota \<Rightarrow> quota_monitor \<Rightarrow> quota_monitor" where
  "warn level message q m =
     (if mo_lastWarningLevel m \<noteq> Some level
      then \<lparr>mo_lastWarningLevel = Some level,
            mo_warnings = mo_warnings m @ [\<lparr>qw_level = level, qw_message = message, qw_quota = q\<rparr>]\<rparr>
      else m)"

definition quota_check :: "quota_config option \<Rightarrow> local_storage \<Rightarrow> quota_monitor \<Rightarrow> quota_monitor" where
  "quota_check config ls m =
     (case (config, getStorageQuota config ls) of
        (Some c, Some q) \<Rightarrow>
          (if reaches (sq_percentage q) (qf_criticalThreshold c)
           then warn CriticalLevel
             (''localStorage is critically full ('' @ percent_text q @ ''%). Some data may not be saved.'') q m
           else if reaches (sq_percentage q) (qf_warningThreshold c)
           then warn WarningLevel
             (''localStorage is '' @ percent_text q @ ''% full. Consider clearing old data.'') q m
           else m\<lparr>mo_lastWarningLevel := None\<rparr>)
      | _ \<Rightarrow> m)"

section \<open>Writes and clean-up\<close>

text \<open>The result, the storage afterwards, and the error the callback gets.\<close>

definition safeSetItem ::
    "(string obj \<Rightarrow> bool) \<Rightarrow> string \<Rightarrow> string \<Rightarrow> local_storage \<Rightarrow> bool \<times> local_storage \<times> storage_error option" where
  "safeSetItem fits k v ls =
     (case ls_set fits k v ls of
        Inr ls' \<Rightarrow> (True, ls', None)
      | Inl e \<Rightarrow> (False, ls, Some e))"

text \<open>The matching keys without the last \<open>keepCount\<close> of them in the order of code units.\<close>

definition stale_keys :: "string \<Rightarrow> int \<Rightarrow> local_storage \<Rightarrow> string list" where
  "stale_keys pre keepCount ls =
     (let matchingKeys = sort (filter (\<lambda>k. starts_with k pre) (map fst (listed_items ls)))
      in take (nat (max 0 (int (length matchingKeys) - keepCount))) matchingKeys)"

definition cleanupByPrefix :: "string \<Rightarrow> int \<Rightarrow> local_storage \<Rightarrow> local_storage \<times> nat" where
  "cleanupByPrefix pre keepCount ls =
     (if ls_accessible ls
      then (fold ls_remove (stale_keys pre keepCount ls) ls, length (stale_keys pre keepCount ls))
      else (ls, 0))"

section \<open>Facts\<close>

lemma fold_remove_items:
  "ls_accessible ls \<Longrightarrow> ls_items (fold ls_remove ks ls) = fold AList.delete ks (ls_items ls) \<and> ls_accessible (fold ls_remove ks ls)"
  by (induction ks arbitrary: ls) (simp_all add: ls_remove_def)

lemma set_fold_delete: "set (fold AList.delete ks m) = {e \<in> set m. fst e \<notin> set ks}"
  by (induction ks arbitrary: m) (auto simp: set_obj_delete)

lemma lookup_fold_delete: "map_of (fold AList.delete ks m) k = (if k \<in> set ks then None else map_of m k)"
  by (induction ks arbitrary: m) simp_all

lemma obj_ok_fold_delete: "obj_ok m \<Longrightarrow> obj_ok (fold AList.delete ks m)"
  by (induction ks arbitrary: m) (simp_all add: distinct_delete)

definition matching_keys :: "string \<Rightarrow> local_storage \<Rightarrow> string set" where
  "matching_keys pre ls = {k. k \<noteq> [] \<and> starts_with k pre \<and> map_of (ls_items ls) k \<noteq> None}"

lemma finite_matching: "finite (matching_keys pre ls)"
  by (rule finite_subset [of _ "fst ` set (ls_items ls)"]) (auto simp: matching_keys_def map_of_eq_None_iff)

lemma matching_list:
  assumes "obj_ok (ls_items ls)"
  shows "distinct (filter (\<lambda>k. starts_with k pre) (map fst (listed_items ls)))"
    and "set (filter (\<lambda>k. starts_with k pre) (map fst (listed_items ls))) = matching_keys pre ls"
proof -
  have "map fst (listed_items ls) = filter (\<lambda>k. k \<noteq> []) (map fst (ls_items ls))"
    by (simp add: listed_items_def filter_map comp_def)
  with assms show "distinct (filter (\<lambda>k. starts_with k pre) (map fst (listed_items ls)))"
    and "set (filter (\<lambda>k. starts_with k pre) (map fst (listed_items ls))) = matching_keys pre ls"
    by (auto simp: matching_keys_def map_of_eq_None_iff simp del: map_of_eq_Some_iff)
qed

lemma stale_subset: "set (stale_keys pre n ls) \<subseteq> {k. starts_with k pre}"
  using set_take_subset by (fastforce simp: stale_keys_def Let_def)

lemma cleanup_accessible [simp]: "ls_accessible (fst (cleanupByPrefix pre n ls)) = ls_accessible ls"
  by (simp add: cleanupByPrefix_def fold_remove_items)

text \<open>
  The clean-up removes the matching entries that come first in the order of their keys, all but
  \<open>keepCount\<close> of them, and leaves every other entry as it is.
\<close>

theorem cleanup_keeps_last:
  assumes "ls_accessible ls" "obj_ok (ls_items ls)" "0 \<le> n" "cleanupByPrefix pre n ls = (ls', removed)"
  shows "matching_keys pre ls' \<subseteq> matching_keys pre ls \<and>
    int (card (matching_keys pre ls')) = min n (int (card (matching_keys pre ls))) \<and>
    int removed = int (card (matching_keys pre ls)) - int (card (matching_keys pre ls')) \<and>
    (\<forall>k \<in> matching_keys pre ls - matching_keys pre ls'. \<forall>l \<in> matching_keys pre ls'. k < l) \<and>
    (\<forall>k. k \<notin> matching_keys pre ls - matching_keys pre ls' \<longrightarrow> map_of (ls_items ls') k = map_of (ls_items ls) k)"
proof -
  define ks where "ks = sort (filter (\<lambda>k. starts_with k pre) (map fst (listed_items ls)))"
  define i where "i = nat (max 0 (int (length ks) - n))"
  have ks: "distinct ks" "set ks = matching_keys pre ls" "sorted ks" "length ks = card (matching_keys pre ls)"
    using matching_list [OF assms(2)] distinct_card [of ks] by (simp_all add: ks_def)
  have stale: "stale_keys pre n ls = take i ks"
    by (simp add: stale_keys_def ks_def i_def)
  have out: "removed = length (take i ks)" "ls_items ls' = fold AList.delete (take i ks) (ls_items ls)"
    using assms(1,4) fold_remove_items [OF assms(1)] by (auto simp: cleanupByPrefix_def stale)
  have disj: "set (take i ks) \<inter> set (drop i ks) = {}"
    using ks(1) by (metis append_take_drop_id distinct_append)
  have parts: "set ks = set (take i ks) \<union> set (drop i ks)"
    by (metis append_take_drop_id set_append)
  have left: "matching_keys pre ls' = set (drop i ks)"
    using disj parts unfolding ks(2) [symmetric] by (auto simp: matching_keys_def out lookup_fold_delete ks(2))
  have gone: "matching_keys pre ls - matching_keys pre ls' = set (take i ks)"
    using disj parts unfolding left ks(2) [symmetric] by auto
  have "card (matching_keys pre ls') = length ks - i"
    unfolding left using ks(1) by (simp add: distinct_card)
  moreover have "sorted (take i ks @ drop i ks)" "distinct (take i ks @ drop i ks)"
    using ks(1,3) by simp_all
  then have "\<forall>k \<in> set (take i ks). \<forall>l \<in> set (drop i ks). k < l"
    unfolding sorted_append distinct_append by (metis disjoint_iff order_le_neq_trans)
  moreover have "\<forall>k. k \<notin> set (take i ks) \<longrightarrow> map_of (ls_items ls') k = map_of (ls_items ls) k"
    by (simp add: out lookup_fold_delete)
  moreover have "matching_keys pre ls' \<subseteq> matching_keys pre ls"
    using parts left ks(2) by auto
  ultimately show ?thesis
    unfolding gone left [symmetric] using ks(4) assms(3) by (auto simp: out i_def)
qed

text \<open>As long as no more than \<open>keepCount\<close> keys match, the clean-up does nothing.\<close>

lemma cleanup_few:
  assumes "obj_ok (ls_items ls)" "int (card (matching_keys pre ls)) \<le> n"
  shows "cleanupByPrefix pre n ls = (ls, 0)"
proof -
  have "length (filter (\<lambda>k. starts_with k pre) (map fst (listed_items ls))) = card (matching_keys pre ls)"
    using matching_list [OF assms(1)] distinct_card by metis
  with assms(2) have "stale_keys pre n ls = []"
    by (simp add: stale_keys_def Let_def)
  then show ?thesis by (simp add: cleanupByPrefix_def)
qed

text \<open>The level that a check finds, and the warnings as the changes of the level.\<close>

definition quota_level_of :: "quota_config \<Rightarrow> local_storage \<Rightarrow> quota_level option" where
  "quota_level_of c ls =
     (case getStorageQuota (Some c) ls of
        None \<Rightarrow> None
      | Some q \<Rightarrow> if reaches (sq_percentage q) (qf_criticalThreshold c) then Some CriticalLevel
          else if reaches (sq_percentage q) (qf_warningThreshold c) then Some WarningLevel else None)"

definition observed_levels :: "(quota_config option \<times> local_storage) list \<Rightarrow> quota_level option list" where
  "observed_levels obs = List.map_filter (\<lambda>(config, ls). map_option (\<lambda>c. quota_level_of c ls) config) obs"

lemma ready_quota: "getStorageQuota (Some c) ls \<noteq> None"
  by (simp add: getStorageQuota_def Let_def)

lemma tl_remdups_adj: "tl (remdups_adj (a # b # xs)) = (if a = b then [] else [b]) @ tl (remdups_adj (b # xs))"
proof -
  have "remdups_adj (b # xs) = b # tl (remdups_adj (b # xs))"
    by (metis list.collapse list.distinct(1) list.sel(1) remdups_adj_Cons_alt)
  then show ?thesis by simp
qed

lemma changed_level:
  "List.map_filter id ((if a = b then [] else [b]) @ xs) =
   (if b = a then [] else case b of None \<Rightarrow> [] | Some l \<Rightarrow> [l]) @ List.map_filter id xs"
  by (auto simp: List.map_filter_simps split: option.split)

lemma quota_check_effect:
  "mo_lastWarningLevel (quota_check (Some c) ls m) = quota_level_of c ls \<and>
   map qw_level (mo_warnings (quota_check (Some c) ls m)) =
     map qw_level (mo_warnings m) @
       (if quota_level_of c ls = mo_lastWarningLevel m then [] else case quota_level_of c ls of None \<Rightarrow> [] | Some l \<Rightarrow> [l])"
  using ready_quota [of c ls] by (auto simp: quota_check_def quota_level_of_def warn_def split: option.split)

lemma quota_history:
  "map qw_level (mo_warnings (fold (\<lambda>(config, ls). quota_check config ls) obs m)) =
   map qw_level (mo_warnings m) @ List.map_filter id (tl (remdups_adj (mo_lastWarningLevel m # observed_levels obs)))"
proof (induction obs arbitrary: m)
  case (Cons o1 obs)
  obtain config ls where o1: "o1 = (config, ls)" by (cases o1)
  show ?case
  proof (cases config)
    case None
    then have "quota_check config ls m = m" by (simp add: quota_check_def)
    with Cons None o1 show ?thesis by (simp add: observed_levels_def List.map_filter_simps)
  next
    case (Some c)
    then have lev: "observed_levels (o1 # obs) = quota_level_of c ls # observed_levels obs"
      by (simp add: observed_levels_def List.map_filter_simps o1)
    have "fold (\<lambda>(config, ls). quota_check config ls) (o1 # obs) m =
        fold (\<lambda>(config, ls). quota_check config ls) obs (quota_check (Some c) ls m)"
      by (simp add: o1 Some)
    with Cons [of "quota_check (Some c) ls m"] show ?thesis
      by (simp only: lev tl_remdups_adj quota_check_effect changed_level append_assoc)
  qed
qed (simp add: observed_levels_def List.map_filter_simps)

text \<open>
  Monitoring warns exactly when the level changes to warning or critical: the warnings are the
  observed levels without repetitions.
\<close>

theorem warnings_on_level_changes:
  "map qw_level (mo_warnings (fold (\<lambda>(config, ls). quota_check config ls) obs new_monitor)) =
   List.map_filter id (tl (remdups_adj (None # observed_levels obs)))"
  using quota_history [of obs new_monitor] by (simp add: new_monitor_def)

section \<open>Examples\<close>

theorem cleanup_keeps_last_witness:
  "\<exists>ls. ls = fst (cleanupByPrefix ''log-'' 1 \<lparr>ls_accessible = True, ls_items = [(''log-1'', ''x''), (''ui'', ''y''), (''log-2'', ''z'')]\<rparr>) \<and>
     map_of (ls_items ls) ''ui'' = Some ''y'' \<and> matching_keys ''log-'' ls \<subseteq> matching_keys ''log-''
       \<lparr>ls_accessible = True, ls_items = [(''log-1'', ''x''), (''ui'', ''y''), (''log-2'', ''z'')]\<rparr>"
proof -
  let ?ls = "\<lparr>ls_accessible = True, ls_items = [(''log-1'', ''x''), (''ui'', ''y''), (''log-2'', ''z'')]\<rparr>"
  have "cleanupByPrefix ''log-'' 1 ?ls = (fst (cleanupByPrefix ''log-'' 1 ?ls), snd (cleanupByPrefix ''log-'' 1 ?ls))"
    by simp
  moreover have "''ui'' \<notin> matching_keys ''log-'' ?ls"
    by (simp add: matching_keys_def)
  ultimately show ?thesis
    using cleanup_keeps_last [of ?ls 1 "''log-''" "fst (cleanupByPrefix ''log-'' 1 ?ls)" "snd (cleanupByPrefix ''log-'' 1 ?ls)"]
    by simp
qed

end
