(* ===== verification/Debounced_Storage.thy ===== *)
theory Debounced_Storage
  imports Local_Storage
begin

text \<open>
  The storage adapter that the session store persists through (\<open>createDebouncedStorage\<close> in
  \<open>apps/web/src/stores/sessionStorage.ts\<close>), over \<open>localStorage\<close> and the quota functions. A
  callback given to \<open>requestIdleCallback\<close> or \<open>setTimeout\<close> is an element of \<open>dw_idle\<close> or
  \<open>dw_timers\<close> until an event runs it. The environment says which contents the browser admits,
  the quota configuration, and whether \<open>requestIdleCallback\<close> exists. A value that cannot be
  serialised is \<open>None\<close>.
\<close>

section \<open>The adapter\<close>

record storage_env =
  en_fits :: "string obj \<Rightarrow> bool"
  en_config :: "quota_config option"
  en_idle :: bool
  en_prefix :: string
  en_debounceMs :: int

record debounced =
  dw_pendingWrite :: "string option"
  dw_writeTimeout :: "nat option"
  dw_lastWriteTime :: int
  dw_timers :: "(nat \<times> string) list"
  dw_idle :: "string list"
  dw_nextTimer :: nat
  dw_storage :: local_storage

definition new_debounced :: "local_storage \<Rightarrow> debounced" where
  "new_debounced ls = \<lparr>dw_pendingWrite = None, dw_writeTimeout = None, dw_lastWriteTime = 0,
     dw_timers = [], dw_idle = [], dw_nextTimer = 0, dw_storage = ls\<rparr>"

text \<open>\<open>doWrite\<close>.\<close>

definition do_write :: "storage_env \<Rightarrow> string \<Rightarrow> int \<Rightarrow> debounced \<Rightarrow> debounced" where
  "do_write env key now d =
     (case dw_pendingWrite d of
        None \<Rightarrow> d
      | Some v \<Rightarrow>
          (let ls = (if isCriticallyFull (en_config env) (dw_storage d)
                     then fst (cleanupByPrefix (en_prefix env) 5 (dw_storage d)) else dw_storage d)
           in (case ls_set (en_fits env) key v ls of
                 Inr ls' \<Rightarrow> d\<lparr>dw_storage := ls', dw_lastWriteTime := now\<rparr>
               | Inl QuotaExceededError \<Rightarrow>
                   (let ls2 = fst (cleanupByPrefix (en_prefix env) 3 ls)
                    in (case ls_set (en_fits env) key v ls2 of
                          Inr ls' \<Rightarrow> d\<lparr>dw_storage := ls', dw_lastWriteTime := now\<rparr>
                        | Inl _ \<Rightarrow> d\<lparr>dw_storage := ls2\<rparr>))
               | Inl SecurityError \<Rightarrow> d\<lparr>dw_storage := ls\<rparr>)\<lparr>dw_pendingWrite := None\<rparr>))"

text \<open>The callback of the timer.\<close>

definition timer_write :: "storage_env \<Rightarrow> string \<Rightarrow> int \<Rightarrow> debounced \<Rightarrow> debounced" where
  "timer_write env key now d =
     (case dw_pendingWrite d of
        None \<Rightarrow> d
      | Some v \<Rightarrow>
          (let ls = (if isNearQuota (Some (to_double (9 / 10))) (en_config env) (dw_storage d)
                     then fst (cleanupByPrefix (en_prefix env) 5 (dw_storage d)) else dw_storage d)
           in (case ls_set (en_fits env) key v ls of
                 Inr ls' \<Rightarrow> d\<lparr>dw_storage := ls', dw_lastWriteTime := now\<rparr>
               | Inl _ \<Rightarrow> d\<lparr>dw_storage := ls\<rparr>)\<lparr>dw_pendingWrite := None\<rparr>))\<lparr>dw_writeTimeout := None\<rparr>"

definition clear_write_timeout :: "debounced \<Rightarrow> debounced" where
  "clear_write_timeout d =
     (case dw_writeTimeout d of
        None \<Rightarrow> d
      | Some t \<Rightarrow> d\<lparr>dw_timers := filter (\<lambda>x. fst x \<noteq> t) (dw_timers d)\<rparr>)"

definition scheduleWrite :: "storage_env \<Rightarrow> string \<Rightarrow> string \<Rightarrow> int \<Rightarrow> debounced \<Rightarrow> debounced" where
  "scheduleWrite env key v now d =
     (let d1 = clear_write_timeout (d\<lparr>dw_pendingWrite := Some v\<rparr>)
      in if en_debounceMs env \<le> now - dw_lastWriteTime d1
         then (if en_idle env then d1\<lparr>dw_idle := dw_idle d1 @ [key]\<rparr> else do_write env key now d1)
         else d1\<lparr>dw_timers := dw_timers d1 @ [(dw_nextTimer d1, key)],
                dw_writeTimeout := Some (dw_nextTimer d1), dw_nextTimer := Suc (dw_nextTimer d1)\<rparr>)"

definition storage_setItem :: "storage_env \<Rightarrow> string \<Rightarrow> string option \<Rightarrow> int \<Rightarrow> debounced \<Rightarrow> debounced" where
  "storage_setItem env name v now d =
     (case v of None \<Rightarrow> d | Some text \<Rightarrow> scheduleWrite env name text now d)"

definition storage_removeItem :: "string \<Rightarrow> debounced \<Rightarrow> debounced" where
  "storage_removeItem name d =
     (clear_write_timeout d)\<lparr>dw_writeTimeout := None, dw_pendingWrite := None,
        dw_storage := ls_remove name (dw_storage d)\<rparr>"

text \<open>\<open>JSON.parse\<close> is an argument, \<open>None\<close> where it throws.\<close>

definition storage_getItem :: "(string \<Rightarrow> 'v option) \<Rightarrow> string \<Rightarrow> debounced \<Rightarrow> 'v option" where
  "storage_getItem parse name d =
     (if ls_accessible (dw_storage d)
      then (case map_of (ls_items (dw_storage d)) name of
              None \<Rightarrow> None
            | Some v \<Rightarrow> if v = [] then None else parse v)
      else None)"

section \<open>Events\<close>

datatype storage_event =
    StorageSet string "string option" int
  | StorageRemoved string
  | IdleRuns nat int
  | WriteTimer nat int

fun storage_step :: "storage_env \<Rightarrow> storage_event \<Rightarrow> debounced \<Rightarrow> debounced" where
  "storage_step env (StorageSet name v now) d = storage_setItem env name v now d"
| "storage_step env (StorageRemoved name) d = storage_removeItem name d"
| "storage_step env (IdleRuns i now) d =
     do_write env (dw_idle d ! i) now (d\<lparr>dw_idle := take i (dw_idle d) @ drop (Suc i) (dw_idle d)\<rparr>)"
| "storage_step env (WriteTimer t now) d =
     (case map_of (dw_timers d) t of
        None \<Rightarrow> d
      | Some key \<Rightarrow> timer_write env key now (d\<lparr>dw_timers := AList.delete t (dw_timers d)\<rparr>))"

text \<open>The \<open>persist\<close> middleware uses one name, the store's.\<close>

fun storage_guard :: "string \<Rightarrow> storage_event \<Rightarrow> debounced \<Rightarrow> bool" where
  "storage_guard name (StorageSet n v now) d = (n = name)"
| "storage_guard name (StorageRemoved n) d = (n = name)"
| "storage_guard name (IdleRuns i now) d = (i < length (dw_idle d))"
| "storage_guard name (WriteTimer t now) d = (t \<in> fst ` set (dw_timers d))"


section \<open>The adapter as a variable\<close>

text \<open>What the adapter promises: a variable that is set and removed at once.\<close>

fun variable_step :: "storage_event \<Rightarrow> string option \<Rightarrow> string option" where
  "variable_step (StorageSet n (Some v) now) x = Some v"
| "variable_step (StorageRemoved n) x = None"
| "variable_step e x = x"

definition storage_view :: "string \<Rightarrow> debounced \<Rightarrow> string option" where
  "storage_view name d =
     (case dw_pendingWrite d of Some v \<Rightarrow> Some v | None \<Rightarrow> map_of (ls_items (dw_storage d)) name)"

lemma storage_view_callbacks [simp]:
  "storage_view name (d\<lparr>dw_idle := is\<rparr>) = storage_view name d"
  "storage_view name (d\<lparr>dw_timers := ts\<rparr>) = storage_view name d"
  by (simp_all add: storage_view_def split: option.split)

lemma storage_view_written [simp]:
  "dw_pendingWrite d = None \<Longrightarrow> storage_view name d = map_of (ls_items (dw_storage d)) name"
  by (simp add: storage_view_def)

definition storage_ok :: "string \<Rightarrow> debounced \<Rightarrow> bool" where
  "storage_ok name d \<longleftrightarrow> ls_accessible (dw_storage d) \<and>
     set (dw_idle d) \<subseteq> {name} \<and> snd ` set (dw_timers d) \<subseteq> {name} \<and>
     (\<forall>t \<in> fst ` set (dw_timers d). dw_writeTimeout d = Some t) \<and>
     (dw_pendingWrite d \<noteq> None \<longrightarrow> dw_idle d \<noteq> [] \<or> dw_timers d \<noteq> [])"

text \<open>The two writes, when the browser admits them.\<close>

lemma admitted_write:
  assumes "en_fits env = (\<lambda>_. True)" "ls_accessible (dw_storage d)"
  shows "\<exists>ls now'. do_write env key now d = d\<lparr>dw_pendingWrite := None, dw_storage := ls, dw_lastWriteTime := now'\<rparr> \<and>
      ls_accessible ls \<and> map_of (ls_items ls) key = storage_view key d"
    and "\<exists>ls now'. timer_write env key now d =
        d\<lparr>dw_pendingWrite := None, dw_writeTimeout := None, dw_storage := ls, dw_lastWriteTime := now'\<rparr> \<and>
      ls_accessible ls \<and> map_of (ls_items ls) key = storage_view key d"
proof -
  have set: "\<exists>ls'. ls_set (en_fits env) key v ls = Inr ls' \<and> ls_accessible ls' \<and> map_of (ls_items ls') key = Some v"
    if "ls_accessible ls" for v ls
    using assms(1) that by (simp add: ls_set_def)
  show "\<exists>ls now'. do_write env key now d = d\<lparr>dw_pendingWrite := None, dw_storage := ls, dw_lastWriteTime := now'\<rparr> \<and>
      ls_accessible ls \<and> map_of (ls_items ls) key = storage_view key d"
  proof (cases "dw_pendingWrite d")
    case None
    with assms(2) show ?thesis
      by (intro exI [of _ "dw_storage d"] exI [of _ "dw_lastWriteTime d"]) (simp add: do_write_def storage_view_def)
  next
    case (Some v)
    define ls where "ls = (if isCriticallyFull (en_config env) (dw_storage d)
        then fst (cleanupByPrefix (en_prefix env) 5 (dw_storage d)) else dw_storage d)"
    have acc: "ls_accessible ls"
      using assms(2) by (simp add: ls_def)
    obtain ls' where "ls_set (en_fits env) key v ls = Inr ls'" "ls_accessible ls'" "map_of (ls_items ls') key = Some v"
      using set [of ls v] acc by blast
    with Some show ?thesis
      by (intro exI [of _ ls'] exI [of _ now]) (simp add: do_write_def storage_view_def ls_def [symmetric])
  qed
  show "\<exists>ls now'. timer_write env key now d =
        d\<lparr>dw_pendingWrite := None, dw_writeTimeout := None, dw_storage := ls, dw_lastWriteTime := now'\<rparr> \<and>
      ls_accessible ls \<and> map_of (ls_items ls) key = storage_view key d"
  proof (cases "dw_pendingWrite d")
    case None
    with assms(2) show ?thesis
      by (intro exI [of _ "dw_storage d"] exI [of _ "dw_lastWriteTime d"]) (simp add: timer_write_def storage_view_def)
  next
    case (Some v)
    define ls where "ls = (if isNearQuota (Some (to_double (9 / 10))) (en_config env) (dw_storage d)
        then fst (cleanupByPrefix (en_prefix env) 5 (dw_storage d)) else dw_storage d)"
    have acc: "ls_accessible ls"
      using assms(2) by (simp add: ls_def)
    obtain ls' where "ls_set (en_fits env) key v ls = Inr ls'" "ls_accessible ls'" "map_of (ls_items ls') key = Some v"
      using set [of ls v] acc by blast
    with Some show ?thesis
      by (intro exI [of _ ls'] exI [of _ now]) (simp add: timer_write_def storage_view_def ls_def [symmetric])
  qed
qed

lemma clear_timeout_ok:
  assumes "\<forall>t \<in> fst ` set (dw_timers d). dw_writeTimeout d = Some t"
  shows "clear_write_timeout d = d\<lparr>dw_timers := []\<rparr>"
proof (cases "dw_timers d")
  case Nil
  then show ?thesis by (cases d) (simp add: clear_write_timeout_def split: option.split)
next
  case (Cons t ts)
  with assms have "dw_writeTimeout d = Some (fst t)" "filter (\<lambda>x. fst x \<noteq> fst t) (dw_timers d) = []"
    by (auto simp: filter_empty_conv)
  then show ?thesis by (simp add: clear_write_timeout_def)
qed

lemma schedule_write_ok:
  assumes "en_fits env = (\<lambda>_. True)" "storage_ok name d"
  shows "storage_ok name (scheduleWrite env name v now d) \<and> storage_view name (scheduleWrite env name v now d) = Some v"
proof -
  let ?d = "d\<lparr>dw_pendingWrite := Some v, dw_timers := []\<rparr>"
  have d: "clear_write_timeout (d\<lparr>dw_pendingWrite := Some v\<rparr>) = ?d"
    using assms(2) clear_timeout_ok [of "d\<lparr>dw_pendingWrite := Some v\<rparr>"] by (simp add: storage_ok_def)
  obtain ls now' where w: "do_write env name now ?d = ?d\<lparr>dw_pendingWrite := None, dw_storage := ls, dw_lastWriteTime := now'\<rparr>"
      "ls_accessible ls" "map_of (ls_items ls) name = storage_view name ?d"
    using admitted_write(1) [OF assms(1), of ?d name now] assms(2) by (auto simp: storage_ok_def)
  then have "map_of (ls_items ls) name = Some v" by (simp add: storage_view_def)
  with assms(2) w(1,2) show ?thesis
    unfolding scheduleWrite_def d Let_def by (auto simp: storage_ok_def storage_view_def)
qed

lemma storage_step_ok:
  assumes "en_fits env = (\<lambda>_. True)" "storage_ok name d" "storage_guard name e d"
  shows "storage_ok name (storage_step env e d) \<and> storage_view name (storage_step env e d) = variable_step e (storage_view name d)"
proof (cases e)
  case (StorageSet n v now)
  with assms(3) schedule_write_ok [OF assms(1,2)] show ?thesis
    by (cases v) (simp_all add: storage_setItem_def assms(2))
next
  case (StorageRemoved n)
  with assms show ?thesis
    by (auto simp: storage_removeItem_def clear_timeout_ok storage_ok_def storage_view_def ls_remove_def)
next
  case (IdleRuns i now)
  let ?d = "d\<lparr>dw_idle := take i (dw_idle d) @ drop (Suc i) (dw_idle d)\<rparr>"
  have key: "dw_idle d ! i = name"
    using assms(2,3) IdleRuns nth_mem [of i "dw_idle d"] unfolding storage_ok_def by (simp add: subset_iff)
  obtain ls now' where w: "do_write env name now ?d = ?d\<lparr>dw_pendingWrite := None, dw_storage := ls, dw_lastWriteTime := now'\<rparr>"
      "ls_accessible ls" "map_of (ls_items ls) name = storage_view name ?d"
    using admitted_write(1) [OF assms(1), of ?d name now] assms(2) by (auto simp: storage_ok_def)
  have "set (take i (dw_idle d) @ drop (Suc i) (dw_idle d)) \<subseteq> {name}"
    using assms(2) set_take_subset [of i "dw_idle d"] set_drop_subset [of "Suc i" "dw_idle d"]
    unfolding storage_ok_def by (simp only: set_append) blast
  with w assms(2) show ?thesis
    by (simp add: IdleRuns key) (simp add: storage_ok_def)
next
  case (WriteTimer t now)
  then obtain key where t: "map_of (dw_timers d) t = Some key"
    using assms(3) by (metis map_of_eq_None_iff not_None_eq storage_guard.simps(4))
  then have key: "key = name"
    using assms(2) map_of_SomeD [OF t] unfolding storage_ok_def by fastforce
  have none: "AList.delete t (dw_timers d) = []"
  proof -
    have "dw_writeTimeout d = Some t'" if "t' \<in> fst ` set (dw_timers d)" for t'
      using assms(2) that unfolding storage_ok_def by blast
    moreover have "t \<in> fst ` set (dw_timers d)"
      using map_of_SomeD [OF t] by force
    ultimately have "\<forall>x \<in> set (dw_timers d). fst x = t"
      by (metis imageI option.inject)
    then show ?thesis by (auto simp: AList.delete_eq filter_empty_conv)
  qed
  let ?d = "d\<lparr>dw_timers := []\<rparr>"
  obtain ls now' where w: "timer_write env name now ?d =
        ?d\<lparr>dw_pendingWrite := None, dw_writeTimeout := None, dw_storage := ls, dw_lastWriteTime := now'\<rparr>"
      "ls_accessible ls" "map_of (ls_items ls) name = storage_view name ?d"
    using admitted_write(2) [OF assms(1), of ?d name now] assms(2) by (auto simp: storage_ok_def)
  with assms(2) show ?thesis
    by (simp add: WriteTimer t key none) (simp add: storage_ok_def)
qed

lemma new_debounced_ok: "ls_accessible ls \<Longrightarrow> storage_ok name (new_debounced ls)"
  by (simp add: storage_ok_def new_debounced_def)


interpretation storage: simulation "storage_step (env\<lparr>en_fits := \<lambda>_. True\<rparr>)" "storage_guard name" "storage_ok name"
    "new_debounced \<lparr>ls_accessible = True, ls_items = m\<rparr>" "storage_view name" variable_step for env name m
  by unfold_locales (simp_all add: new_debounced_ok storage_step_ok)

section \<open>Properties\<close>

text \<open>
  C25: As long as the browser admits the writes, the adapter refines a variable: what is pending, or
  else stored, is what was set last and not removed since; and once the callbacks have run, it is
  in the storage.
\<close>

theorem debounced_storage_refines_variable:
  assumes "guarded (storage_guard name) (storage_step env) es (new_debounced ls)"
    and "en_fits env = (\<lambda>_. True)" "ls_accessible ls" "d = fold (storage_step env) es (new_debounced ls)"
  shows "storage_view name d = fold variable_step es (map_of (ls_items ls) name) \<and>
    (dw_idle d = [] \<and> dw_timers d = [] \<longrightarrow>
       map_of (ls_items (dw_storage d)) name = fold variable_step es (map_of (ls_items ls) name))"
proof -
  have env: "env = env\<lparr>en_fits := \<lambda>_. True\<rparr>"
    using assms(2) by (cases env) simp
  have ls: "ls = \<lparr>ls_accessible = True, ls_items = ls_items ls\<rparr>"
    using assms(3) by (cases ls) simp
  have run: "guarded (storage_guard name) (storage_step (env\<lparr>en_fits := \<lambda>_. True\<rparr>)) es
      (new_debounced \<lparr>ls_accessible = True, ls_items = ls_items ls\<rparr>)"
    using assms(1) by (simp only: env [symmetric] ls [symmetric])
  have "storage_ok name d"
    using storage.inv_history [OF run] unfolding assms(4) env [symmetric] ls [symmetric] .
  moreover have "storage_view name d = fold variable_step es (storage_view name (new_debounced ls))"
    using storage.abs_history [OF run] unfolding assms(4) env [symmetric] ls [symmetric] .
  ultimately show ?thesis
    by (auto simp: storage_ok_def new_debounced_def)
qed

text \<open>
  A refused write is lost: with at most three keys under the prefix (the session store has one),
  the clean-up that is meant to make room removes nothing, and the value is dropped.
\<close>

theorem refused_write_is_lost:
  assumes "dw_pendingWrite d = Some v" "ls_accessible (dw_storage d)" "obj_ok (ls_items (dw_storage d))"
    and "card (matching_keys (en_prefix env) (dw_storage d)) \<le> 3"
    and "\<not> en_fits env (AList.update key v (ls_items (dw_storage d)))"
  shows "do_write env key now d = d\<lparr>dw_pendingWrite := None\<rparr>"
proof -
  have "cleanupByPrefix (en_prefix env) n (dw_storage d) = (dw_storage d, 0)" if "3 \<le> n" for n
    using cleanup_few [OF assms(3), of "en_prefix env" n] assms(4) that by simp
  with assms(1,2,5) show ?thesis
    by (simp add: do_write_def ls_set_def)
qed

text \<open>
  An adapter used under two names mixes them up: the first callback writes the value of the
  second name under the first one, and the second finds nothing to write.
\<close>

lemma two_names_mixed_up:
  assumes "env = \<lparr>en_fits = \<lambda>_. True, en_config = None, en_idle = True, en_prefix = [], en_debounceMs = 1000\<rparr>"
    and "d = fold (storage_step env) [StorageSet ''a'' (Some ''1'') 5000, StorageSet ''b'' (Some ''2'') 5001,
      IdleRuns 0 5002, IdleRuns 0 5003] (new_debounced \<lparr>ls_accessible = True, ls_items = []\<rparr>)"
  shows "ls_items (dw_storage d) = [(''a'', ''2'')]"
  unfolding assms by (simp add: storage_setItem_def scheduleWrite_def clear_write_timeout_def do_write_def
      isCriticallyFull_def ls_set_def new_debounced_def Let_def)

section \<open>Examples\<close>

definition ex_env :: storage_env where
  "ex_env = \<lparr>en_fits = \<lambda>_. True, en_config = None, en_idle = False, en_prefix = ''s'', en_debounceMs = 1000\<rparr>"

lemmas storage_defs = storage_setItem_def scheduleWrite_def clear_write_timeout_def do_write_def timer_write_def
  isCriticallyFull_def isNearQuota_def ls_set_def new_debounced_def ex_env_def Let_def

theorem debounced_storage_refines_variable_witness:
  "map_of (ls_items (dw_storage (fold (storage_step ex_env)
     [StorageSet ''s'' (Some ''1'') 5000, StorageSet ''s'' (Some ''2'') 5001, StorageSet ''s'' (Some ''3'') 5002, WriteTimer 1 6000]
     (new_debounced \<lparr>ls_accessible = True, ls_items = []\<rparr>)))) ''s'' = Some ''3''"
proof -
  let ?es = "[StorageSet ''s'' (Some ''1'') 5000, StorageSet ''s'' (Some ''2'') 5001, StorageSet ''s'' (Some ''3'') 5002, WriteTimer 1 6000]"
  let ?ls = "\<lparr>ls_accessible = True, ls_items = []\<rparr> :: local_storage"
  have "guarded (storage_guard ''s'') (storage_step ex_env) ?es (new_debounced ?ls)"
    by (simp add: storage_defs)
  moreover have "dw_idle (fold (storage_step ex_env) ?es (new_debounced ?ls)) = []"
      "dw_timers (fold (storage_step ex_env) ?es (new_debounced ?ls)) = []"
    by (simp_all add: storage_defs)
  ultimately show ?thesis
    using debounced_storage_refines_variable [of "''s''" ex_env ?es ?ls, OF _ _ _ refl] by (simp add: ex_env_def)
qed

theorem refused_write_is_lost_witness:
  "dw_pendingWrite (do_write (ex_env\<lparr>en_fits := \<lambda>_. False\<rparr>) ''s'' 5000
     ((new_debounced \<lparr>ls_accessible = True, ls_items = []\<rparr>)\<lparr>dw_pendingWrite := Some ''1''\<rparr>)) = None"
  by (subst refused_write_is_lost [where v = "''1''"]) (simp_all add: new_debounced_def matching_keys_def)

end
