(* ===== verification/Dev_Tools.thy ===== *)
theory Dev_Tools
  imports Complex_Main Js_Text Machines
begin

text \<open>
  The store of the preview's developer tools (\<open>apps/web/src/stores/devtools.ts\<close>): console, network
  requests, errors and evaluation results, each bounded, the DOM snapshot, and the browser history
  with its position. Ids that are made of the time and a random part, and times, are arguments.
\<close>

section \<open>Data\<close>

datatype console_level = LevelLog | LevelWarn | LevelError | LevelInfo | LevelDebug

record console_entry =
  ce_id :: ident
  ce_timestamp :: int
  ce_level :: console_level
  ce_args :: "(string \<times> string) list"
  ce_url :: "string option"

datatype request_type = FetchRequest | XhrRequest

record network_request =
  nr_id :: ident
  nr_url :: string
  nr_method :: string
  nr_headers :: "string obj"
  nr_body :: "string option"
  nr_timestamp :: int
  nr_type :: request_type
  nr_status :: "int option"
  nr_statusText :: "string option"
  nr_responseHeaders :: "string obj option"
  nr_responseBody :: "string nullish"
  nr_duration :: "int option"
  nr_size :: "int option"
  nr_error :: "string option"

text \<open>\<open>Partial<NetworkRequest>\<close>.\<close>

datatype request_field =
    NrId ident | NrUrl string | NrMethod string | NrHeaders "string obj" | NrBody "string option"
  | NrTimestamp int | NrType request_type | NrStatus "int option" | NrStatusText "string option"
  | NrResponseHeaders "string obj option" | NrResponseBody "string nullish" | NrDuration "int option"
  | NrSize "int option" | NrError "string option"

fun assign_request :: "request_field \<Rightarrow> network_request \<Rightarrow> network_request" where
  "assign_request (NrId x) r = r\<lparr>nr_id := x\<rparr>"
| "assign_request (NrUrl x) r = r\<lparr>nr_url := x\<rparr>"
| "assign_request (NrMethod x) r = r\<lparr>nr_method := x\<rparr>"
| "assign_request (NrHeaders x) r = r\<lparr>nr_headers := x\<rparr>"
| "assign_request (NrBody x) r = r\<lparr>nr_body := x\<rparr>"
| "assign_request (NrTimestamp x) r = r\<lparr>nr_timestamp := x\<rparr>"
| "assign_request (NrType x) r = r\<lparr>nr_type := x\<rparr>"
| "assign_request (NrStatus x) r = r\<lparr>nr_status := x\<rparr>"
| "assign_request (NrStatusText x) r = r\<lparr>nr_statusText := x\<rparr>"
| "assign_request (NrResponseHeaders x) r = r\<lparr>nr_responseHeaders := x\<rparr>"
| "assign_request (NrResponseBody x) r = r\<lparr>nr_responseBody := x\<rparr>"
| "assign_request (NrDuration x) r = r\<lparr>nr_duration := x\<rparr>"
| "assign_request (NrSize x) r = r\<lparr>nr_size := x\<rparr>"
| "assign_request (NrError x) r = r\<lparr>nr_error := x\<rparr>"

datatype dom_node = DomNode (dom_tagName: "string option") (dom_id: "string option")
  (dom_className: "string option") (dom_attributes: "string obj option")
  (dom_children: "dom_node list option") (dom_text: "string option")

datatype error_type = JsErrorType | UnhandledRejection | NetworkErrorType

record browser_error =
  be_id :: ident
  be_type :: error_type
  be_message :: string
  be_stack :: "string nullish"
  be_filename :: "string option"
  be_lineno :: "int option"
  be_colno :: "int option"
  be_timestamp :: int

record history_entry =
  he_url :: string
  he_title :: "string option"
  he_timestamp :: int

record html_snapshot =
  hs_html :: string
  hs_url :: string
  hs_timestamp :: int

record eval_result =
  ev_id :: ident
  ev_code :: string
  ev_result :: string
  ev_error :: "string option"
  ev_timestamp :: int

datatype devtools_panel = ConsolePanel | NetworkPanel | ElementsPanel

datatype console_filter = FilterAll | FilterLevel console_level

definition MAX_CONSOLE_ENTRIES :: nat where "MAX_CONSOLE_ENTRIES = 1000"
definition MAX_NETWORK_REQUESTS :: nat where "MAX_NETWORK_REQUESTS = 500"
definition MAX_ERRORS :: nat where "MAX_ERRORS = 100"
definition MAX_HISTORY_ENTRIES :: nat where "MAX_HISTORY_ENTRIES = 100"
definition MAX_EVAL_RESULTS :: nat where "MAX_EVAL_RESULTS = 100"

record devtools =
  dt_activePanel :: devtools_panel
  dt_panelHeight :: rat
  dt_isOpen :: bool
  dt_consoleEntries :: "console_entry list"
  dt_consoleFilter :: console_filter
  dt_networkRequests :: "network_request list"
  dt_selectedRequestId :: "ident option"
  dt_networkFilter :: string
  dt_domSnapshot :: "dom_node option"
  dt_selectedElementPath :: "int list"
  dt_errors :: "browser_error list"
  dt_history :: "history_entry list"
  dt_historyIndex :: int
  dt_currentUrl :: string
  dt_iframeReady :: bool
  dt_htmlSnapshot :: "html_snapshot option"
  dt_evalResults :: "eval_result list"
  dt_pendingEvalId :: "ident option"

definition init_devtools :: devtools where
  "init_devtools = \<lparr>dt_activePanel = ConsolePanel, dt_panelHeight = 250, dt_isOpen = False,
     dt_consoleEntries = [], dt_consoleFilter = FilterAll, dt_networkRequests = [],
     dt_selectedRequestId = None, dt_networkFilter = [], dt_domSnapshot = None,
     dt_selectedElementPath = [], dt_errors = [], dt_history = [], dt_historyIndex = -1,
     dt_currentUrl = [], dt_iframeReady = False, dt_htmlSnapshot = None, dt_evalResults = [],
     dt_pendingEvalId = None\<rparr>"

section \<open>Actions\<close>

definition setDevPanel :: "devtools_panel \<Rightarrow> devtools \<Rightarrow> devtools" where
  "setDevPanel panel s = s\<lparr>dt_activePanel := panel\<rparr>"

definition setDevPanelHeight :: "rat \<Rightarrow> devtools \<Rightarrow> devtools" where
  "setDevPanelHeight height s = s\<lparr>dt_panelHeight := max 150 (min 500 height)\<rparr>"

definition toggleDevTools :: "devtools \<Rightarrow> devtools" where
  "toggleDevTools s = s\<lparr>dt_isOpen := \<not> dt_isOpen s\<rparr>"

definition openDevTools :: "devtools \<Rightarrow> devtools" where
  "openDevTools s = s\<lparr>dt_isOpen := True\<rparr>"

definition closeDevTools :: "devtools \<Rightarrow> devtools" where
  "closeDevTools s = s\<lparr>dt_isOpen := False\<rparr>"

definition push_bounded :: "nat \<Rightarrow> 'a \<Rightarrow> 'a list \<Rightarrow> 'a list" where
  "push_bounded n x xs = slice_last (n - 1) xs @ [x]"

definition addConsoleEntry :: "console_entry \<Rightarrow> devtools \<Rightarrow> devtools" where
  "addConsoleEntry entry s = s\<lparr>dt_consoleEntries := push_bounded MAX_CONSOLE_ENTRIES entry (dt_consoleEntries s)\<rparr>"

definition clearDevConsole :: "devtools \<Rightarrow> devtools" where
  "clearDevConsole s = s\<lparr>dt_consoleEntries := []\<rparr>"

definition setConsoleFilter :: "console_filter \<Rightarrow> devtools \<Rightarrow> devtools" where
  "setConsoleFilter f s = s\<lparr>dt_consoleFilter := f\<rparr>"

definition getFilteredConsoleEntries :: "devtools \<Rightarrow> console_entry list" where
  "getFilteredConsoleEntries s =
     (case dt_consoleFilter s of
        FilterAll \<Rightarrow> dt_consoleEntries s
      | FilterLevel l \<Rightarrow> filter (\<lambda>e. ce_level e = l) (dt_consoleEntries s))"

definition addNetworkRequest :: "network_request \<Rightarrow> int \<Rightarrow> devtools \<Rightarrow> devtools" where
  "addNetworkRequest request now s =
     s\<lparr>dt_networkRequests :=
         push_bounded MAX_NETWORK_REQUESTS (request\<lparr>nr_timestamp := now\<rparr>) (dt_networkRequests s)\<rparr>"

definition updateNetworkRequest :: "ident \<Rightarrow> request_field list \<Rightarrow> devtools \<Rightarrow> devtools" where
  "updateNetworkRequest i update s =
     s\<lparr>dt_networkRequests := map_where (\<lambda>r. nr_id r = i) (fold assign_request update) (dt_networkRequests s)\<rparr>"

definition clearNetworkRequests :: "devtools \<Rightarrow> devtools" where
  "clearNetworkRequests s = s\<lparr>dt_networkRequests := [], dt_selectedRequestId := None\<rparr>"

definition setSelectedRequest :: "ident option \<Rightarrow> devtools \<Rightarrow> devtools" where
  "setSelectedRequest i s = s\<lparr>dt_selectedRequestId := i\<rparr>"

definition setNetworkFilter :: "string \<Rightarrow> devtools \<Rightarrow> devtools" where
  "setNetworkFilter f s = s\<lparr>dt_networkFilter := f\<rparr>"

definition getFilteredNetworkRequests :: "devtools \<Rightarrow> network_request list" where
  "getFilteredNetworkRequests s =
     (if dt_networkFilter s = [] then dt_networkRequests s
      else filter (\<lambda>r. has_substring (to_lower (nr_url r)) (to_lower (dt_networkFilter s))) (dt_networkRequests s))"

definition setDOMSnapshot :: "dom_node option \<Rightarrow> devtools \<Rightarrow> devtools" where
  "setDOMSnapshot snapshot s = s\<lparr>dt_domSnapshot := snapshot\<rparr>"

definition setSelectedElementPath :: "int list \<Rightarrow> devtools \<Rightarrow> devtools" where
  "setSelectedElementPath path s = s\<lparr>dt_selectedElementPath := path\<rparr>"

definition addBrowserError :: "browser_error \<Rightarrow> devtools \<Rightarrow> devtools" where
  "addBrowserError e s = s\<lparr>dt_errors := push_bounded MAX_ERRORS e (dt_errors s)\<rparr>"

definition clearErrors :: "devtools \<Rightarrow> devtools" where
  "clearErrors s = s\<lparr>dt_errors := []\<rparr>"

text \<open>\<open>newHistory[newHistory.length - 1]\<close> of an empty list is \<open>undefined\<close>.\<close>

definition pushHistory :: "string \<Rightarrow> string option \<Rightarrow> int \<Rightarrow> devtools \<Rightarrow> devtools" where
  "pushHistory url title now s =
     (let newHistory = take (nat (dt_historyIndex s + 1)) (dt_history s)
      in if newHistory \<noteq> [] \<and> he_url (last newHistory) = url then s
         else (let trimmed = slice_last MAX_HISTORY_ENTRIES
                     (newHistory @ [\<lparr>he_url = url, he_title = title, he_timestamp = now\<rparr>])
               in s\<lparr>dt_history := trimmed, dt_historyIndex := int (length trimmed) - 1, dt_currentUrl := url\<rparr>))"

definition goBack :: "devtools \<Rightarrow> devtools \<times> history_entry option" where
  "goBack s =
     (if 0 < dt_historyIndex s
      then (case js_at (dt_history s) (dt_historyIndex s - 1) of
              Some entry \<Rightarrow> (s\<lparr>dt_historyIndex := dt_historyIndex s - 1, dt_currentUrl := he_url entry\<rparr>, Some entry)
            | None \<Rightarrow> (s, None))
      else (s, None))"

definition goForward :: "devtools \<Rightarrow> devtools \<times> history_entry option" where
  "goForward s =
     (if dt_historyIndex s < int (length (dt_history s)) - 1
      then (case js_at (dt_history s) (dt_historyIndex s + 1) of
              Some entry \<Rightarrow> (s\<lparr>dt_historyIndex := dt_historyIndex s + 1, dt_currentUrl := he_url entry\<rparr>, Some entry)
            | None \<Rightarrow> (s, None))
      else (s, None))"

definition canGoBack :: "devtools \<Rightarrow> bool" where
  "canGoBack s \<longleftrightarrow> 0 < dt_historyIndex s"

definition canGoForward :: "devtools \<Rightarrow> bool" where
  "canGoForward s \<longleftrightarrow> dt_historyIndex s < int (length (dt_history s)) - 1"

definition setCurrentUrl :: "string \<Rightarrow> devtools \<Rightarrow> devtools" where
  "setCurrentUrl url s = s\<lparr>dt_currentUrl := url\<rparr>"

definition setIframeReady :: "bool \<Rightarrow> devtools \<Rightarrow> devtools" where
  "setIframeReady ready s = s\<lparr>dt_iframeReady := ready\<rparr>"

definition setHtmlSnapshot :: "string \<Rightarrow> string \<Rightarrow> int \<Rightarrow> devtools \<Rightarrow> devtools" where
  "setHtmlSnapshot html url now s = s\<lparr>dt_htmlSnapshot := Some \<lparr>hs_html = html, hs_url = url, hs_timestamp = now\<rparr>\<rparr>"

definition clearHtmlSnapshot :: "devtools \<Rightarrow> devtools" where
  "clearHtmlSnapshot s = s\<lparr>dt_htmlSnapshot := None\<rparr>"

definition addEvalResult :: "eval_result \<Rightarrow> devtools \<Rightarrow> devtools" where
  "addEvalResult r s =
     s\<lparr>dt_evalResults := push_bounded MAX_EVAL_RESULTS r (dt_evalResults s), dt_pendingEvalId := None\<rparr>"

definition setPendingEvalId :: "ident option \<Rightarrow> devtools \<Rightarrow> devtools" where
  "setPendingEvalId i s = s\<lparr>dt_pendingEvalId := i\<rparr>"

definition clearEvalResults :: "devtools \<Rightarrow> devtools" where
  "clearEvalResults s = s\<lparr>dt_evalResults := [], dt_pendingEvalId := None\<rparr>"

definition resetDevTools :: "devtools \<Rightarrow> devtools" where
  "resetDevTools s = init_devtools\<lparr>dt_panelHeight := dt_panelHeight s, dt_isOpen := dt_isOpen s,
     dt_consoleFilter := dt_consoleFilter s\<rparr>"

definition resetForNewPreview :: "devtools \<Rightarrow> devtools" where
  "resetForNewPreview s =
     s\<lparr>dt_consoleEntries := [], dt_networkRequests := [], dt_selectedRequestId := None,
       dt_domSnapshot := None, dt_selectedElementPath := [], dt_errors := [], dt_history := [],
       dt_historyIndex := -1, dt_currentUrl := [], dt_iframeReady := False, dt_htmlSnapshot := None,
       dt_evalResults := [], dt_pendingEvalId := None\<rparr>"

text \<open>What is persisted.\<close>

definition devtools_partialize :: "devtools \<Rightarrow> rat \<times> bool \<times> console_filter \<times> devtools_panel" where
  "devtools_partialize s = (dt_panelHeight s, dt_isOpen s, dt_consoleFilter s, dt_activePanel s)"

section \<open>Events\<close>

datatype devtools_event =
    DevPanel devtools_panel
  | DevHeight rat
  | DevConsoleFilter console_filter
  | DevNetworkFilter string
  | DevOpen "bool option"
  | DevConsole "console_entry option"
  | DevRequest network_request int
  | DevRequestUpdate ident "request_field list"
  | DevRequestsCleared
  | DevSelect "ident option"
  | DevDom "dom_node option"
  | DevPath "int list"
  | DevError "browser_error option"
  | DevPush string "string option" int
  | DevBack
  | DevForward
  | DevUrl string
  | DevReady bool
  | DevHtml "(string \<times> string \<times> int) option"
  | DevEval "eval_result option"
  | DevPending "ident option"
  | DevReset
  | DevNewPreview

fun devtools_step :: "devtools_event \<Rightarrow> devtools \<Rightarrow> devtools" where
  "devtools_step (DevPanel p) s = setDevPanel p s"
| "devtools_step (DevHeight h) s = setDevPanelHeight h s"
| "devtools_step (DevConsoleFilter f) s = setConsoleFilter f s"
| "devtools_step (DevNetworkFilter f) s = setNetworkFilter f s"
| "devtools_step (DevOpen to) s =
     (case to of None \<Rightarrow> toggleDevTools s | Some True \<Rightarrow> openDevTools s | Some False \<Rightarrow> closeDevTools s)"
| "devtools_step (DevConsole e) s = (case e of None \<Rightarrow> clearDevConsole s | Some x \<Rightarrow> addConsoleEntry x s)"
| "devtools_step (DevRequest r now) s = addNetworkRequest r now s"
| "devtools_step (DevRequestUpdate i u) s = updateNetworkRequest i u s"
| "devtools_step DevRequestsCleared s = clearNetworkRequests s"
| "devtools_step (DevSelect i) s = setSelectedRequest i s"
| "devtools_step (DevDom d) s = setDOMSnapshot d s"
| "devtools_step (DevPath p) s = setSelectedElementPath p s"
| "devtools_step (DevError e) s = (case e of None \<Rightarrow> clearErrors s | Some x \<Rightarrow> addBrowserError x s)"
| "devtools_step (DevPush url title now) s = pushHistory url title now s"
| "devtools_step DevBack s = fst (goBack s)"
| "devtools_step DevForward s = fst (goForward s)"
| "devtools_step (DevUrl u) s = setCurrentUrl u s"
| "devtools_step (DevReady b) s = setIframeReady b s"
| "devtools_step (DevHtml h) s =
     (case h of None \<Rightarrow> clearHtmlSnapshot s | Some (html, url, now) \<Rightarrow> setHtmlSnapshot html url now s)"
| "devtools_step (DevEval r) s = (case r of None \<Rightarrow> clearEvalResults s | Some x \<Rightarrow> addEvalResult x s)"
| "devtools_step (DevPending i) s = setPendingEvalId i s"
| "devtools_step DevReset s = resetDevTools s"
| "devtools_step DevNewPreview s = resetForNewPreview s"

lemmas devtools_defs = setDevPanel_def setDevPanelHeight_def toggleDevTools_def openDevTools_def
  closeDevTools_def addConsoleEntry_def clearDevConsole_def setConsoleFilter_def addNetworkRequest_def
  updateNetworkRequest_def clearNetworkRequests_def setSelectedRequest_def setNetworkFilter_def
  setDOMSnapshot_def setSelectedElementPath_def addBrowserError_def clearErrors_def setCurrentUrl_def
  setIframeReady_def setHtmlSnapshot_def clearHtmlSnapshot_def addEvalResult_def setPendingEvalId_def
  clearEvalResults_def resetDevTools_def resetForNewPreview_def init_devtools_def


section \<open>The invariant\<close>

definition history_ok :: "devtools \<Rightarrow> bool" where
  "history_ok s \<longleftrightarrow> length (dt_history s) \<le> MAX_HISTORY_ENTRIES \<and>
     (dt_history s = [] \<and> dt_historyIndex s = -1 \<or>
      0 \<le> dt_historyIndex s \<and> dt_historyIndex s < int (length (dt_history s))) \<and>
     distinct_adj (map he_url (dt_history s))"

definition devtools_ok :: "devtools \<Rightarrow> bool" where
  "devtools_ok s \<longleftrightarrow> history_ok s \<and> length (dt_consoleEntries s) \<le> MAX_CONSOLE_ENTRIES \<and>
     length (dt_networkRequests s) \<le> MAX_NETWORK_REQUESTS \<and> length (dt_errors s) \<le> MAX_ERRORS \<and>
     length (dt_evalResults s) \<le> MAX_EVAL_RESULTS \<and> 150 \<le> dt_panelHeight s \<and> dt_panelHeight s \<le> 500"

lemmas dev_limits = MAX_CONSOLE_ENTRIES_def MAX_NETWORK_REQUESTS_def MAX_ERRORS_def MAX_EVAL_RESULTS_def
  MAX_HISTORY_ENTRIES_def

lemma push_bounded_length: "0 < n \<Longrightarrow> length (push_bounded n x xs) \<le> n"
  by (simp add: push_bounded_def slice_last_length)

text \<open>The visited part of the history: the entries up to the current one.\<close>

definition visited :: "devtools \<Rightarrow> history_entry list" where
  "visited s = take (nat (dt_historyIndex s + 1)) (dt_history s)"

lemma pushHistory_eq:
  "pushHistory url title now s =
     (if visited s \<noteq> [] \<and> he_url (last (visited s)) = url then s
      else let h = slice_last 99 (visited s) @ [\<lparr>he_url = url, he_title = title, he_timestamp = now\<rparr>]
        in s\<lparr>dt_history := h, dt_historyIndex := int (length h) - 1, dt_currentUrl := url\<rparr>)"
proof -
  have "slice_last 100 (visited s @ [x]) = slice_last 99 (visited s) @ [x]" for x
    by (simp add: slice_last_snoc)
  then show ?thesis
    by (simp only: pushHistory_def visited_def [symmetric] MAX_HISTORY_ENTRIES_def Let_def)
qed

lemma distinct_adj_parts:
  "distinct_adj (map f xs) \<Longrightarrow> distinct_adj (map f (take n xs))"
  "distinct_adj (map f xs) \<Longrightarrow> distinct_adj (map f (drop n xs))"
  by (simp_all add: take_map [symmetric] drop_map [symmetric])
    (metis append_take_drop_id distinct_adj_appendD1, metis append_take_drop_id distinct_adj_appendD2)

lemma push_history_ok:
  assumes "history_ok s"
  shows "history_ok (pushHistory url title now s)"
proof (cases "visited s \<noteq> [] \<and> he_url (last (visited s)) = url")
  case False
  define e where "e = \<lparr>he_url = url, he_title = title, he_timestamp = now\<rparr>"
  have "distinct_adj (map he_url (visited s))"
    using assms by (auto simp: history_ok_def visited_def distinct_adj_parts)
  then have adj: "distinct_adj (map he_url (slice_last 99 (visited s)))"
    unfolding slice_last_def by (rule distinct_adj_parts)
  have "distinct_adj (map he_url (slice_last 99 (visited s) @ [e]))"
  proof (cases "slice_last 99 (visited s) = []")
    case False2: False
    then have "last (slice_last 99 (visited s)) = last (visited s)" "visited s \<noteq> []"
      by (auto simp: slice_last_def last_drop)
    with adj False False2 show ?thesis
      by (simp add: distinct_adj_append_iff last_map e_def)
  qed simp
  moreover have "length (slice_last 99 (visited s) @ [e]) \<le> 100"
    by (simp add: slice_last_length)
  ultimately show ?thesis
    unfolding pushHistory_eq if_not_P [OF False]
    by (simp add: Let_def history_ok_def MAX_HISTORY_ENTRIES_def flip: e_def)
qed (use assms in \<open>simp add: pushHistory_eq\<close>)

lemma step_history:
  assumes "history_ok s"
  shows "history_ok (devtools_step e s)"
proof (cases e)
  case (DevPush url title now)
  then show ?thesis using push_history_ok [OF assms] by simp
qed (use assms in \<open>auto simp: history_ok_def devtools_defs goBack_def goForward_def js_at_def dev_limits
    split: option.split bool.split\<close>)

lemma step_bounded:
  assumes "devtools_ok s"
  shows "devtools_ok (devtools_step e s)"
proof -
  have "history_ok (devtools_step e s)"
    using assms step_history by (simp add: devtools_ok_def)
  moreover have "length (dt_consoleEntries (devtools_step e s)) \<le> MAX_CONSOLE_ENTRIES \<and>
     length (dt_networkRequests (devtools_step e s)) \<le> MAX_NETWORK_REQUESTS \<and>
     length (dt_errors (devtools_step e s)) \<le> MAX_ERRORS \<and>
     length (dt_evalResults (devtools_step e s)) \<le> MAX_EVAL_RESULTS \<and>
     150 \<le> dt_panelHeight (devtools_step e s) \<and> dt_panelHeight (devtools_step e s) \<le> 500"
    using assms unfolding devtools_ok_def
    by (cases e) (auto simp: devtools_defs push_bounded_length dev_limits pushHistory_def goBack_def goForward_def Let_def
        split: option.split bool.split)
  ultimately show ?thesis by (simp add: devtools_ok_def)
qed

lemma init_devtools_ok: "devtools_ok init_devtools"
  by (simp add: devtools_ok_def history_ok_def init_devtools_def)


section \<open>The history as a zipper\<close>

text \<open>
  What the history means: the pages behind, nearest first, the current page, the pages ahead. At
  most 99 pages are behind.
\<close>

type_synonym 'p zipper = "'p list \<times> 'p option \<times> 'p list"

fun zip_push :: "history_entry \<Rightarrow> history_entry zipper \<Rightarrow> history_entry zipper" where
  "zip_push e (past, None, future) = ([], Some e, [])"
| "zip_push e (past, Some p, future) =
     (if he_url p = he_url e then (past, Some p, future) else (take 99 (p # past), Some e, []))"

fun zip_back :: "'p zipper \<Rightarrow> 'p zipper" where
  "zip_back (q # past, Some p, future) = (past, Some q, p # future)"
| "zip_back z = z"

fun zip_forward :: "'p zipper \<Rightarrow> 'p zipper" where
  "zip_forward (past, Some p, q # future) = (p # past, Some q, future)"
| "zip_forward z = z"

fun zip_step :: "devtools_event \<Rightarrow> history_entry zipper \<Rightarrow> history_entry zipper" where
  "zip_step (DevPush url title now) z = zip_push \<lparr>he_url = url, he_title = title, he_timestamp = now\<rparr> z"
| "zip_step DevBack z = zip_back z"
| "zip_step DevForward z = zip_forward z"
| "zip_step DevReset z = ([], None, [])"
| "zip_step DevNewPreview z = ([], None, [])"
| "zip_step _ z = z"

definition zipper_of :: "devtools \<Rightarrow> history_entry zipper" where
  "zipper_of s = (rev (take (nat (dt_historyIndex s)) (dt_history s)), js_at (dt_history s) (dt_historyIndex s),
     drop (nat (dt_historyIndex s + 1)) (dt_history s))"

text \<open>The shape of a state: either no page was visited, or the list splits around the current one.\<close>

lemma history_cases:
  assumes "history_ok s"
  obtains "dt_history s = []" "dt_historyIndex s = -1"
    | xs p ys where "dt_history s = xs @ p # ys" "dt_historyIndex s = int (length xs)"
proof (cases "dt_history s = [] \<and> dt_historyIndex s = -1")
  case False
  with assms have i: "0 \<le> dt_historyIndex s" "nat (dt_historyIndex s) < length (dt_history s)"
    by (auto simp: history_ok_def)
  show ?thesis
    by (rule that(2) [OF id_take_nth_drop [OF i(2)]]) (use i in simp)
qed (use that(1) in blast)

lemma zipper_split:
  "dt_history s = xs @ p # ys \<Longrightarrow> dt_historyIndex s = int (length xs) \<Longrightarrow> zipper_of s = (rev xs, Some p, ys)"
  by (simp add: zipper_of_def js_at_def nat_add_distrib)

lemma zipper_empty: "dt_history s = [] \<Longrightarrow> zipper_of s = ([], None, [])"
  by (simp add: zipper_of_def js_at_def)

lemma zipper_frame:
  "dt_history t = dt_history s \<Longrightarrow> dt_historyIndex t = dt_historyIndex s \<Longrightarrow> zipper_of t = zipper_of s"
  by (simp add: zipper_of_def)

lemma zipper_push:
  assumes "history_ok s"
  shows "zipper_of (pushHistory url title now s) =
    zip_push \<lparr>he_url = url, he_title = title, he_timestamp = now\<rparr> (zipper_of s)"
  using assms
proof (cases rule: history_cases)
  case 1
  then show ?thesis
    by (simp add: pushHistory_eq visited_def slice_last_def zipper_of_def js_at_def)
next
  case (2 xs p ys)
  then have v: "visited s = xs @ [p]"
    by (simp add: visited_def nat_add_distrib)
  show ?thesis
  proof (cases "he_url p = url")
    case True
    then show ?thesis by (simp add: pushHistory_eq v zipper_split [OF 2])
  next
    case False
    define e where "e = \<lparr>he_url = url, he_title = title, he_timestamp = now\<rparr>"
    have "zipper_of (pushHistory url title now s) = (rev (slice_last 99 (xs @ [p])), Some e, [])"
      using False by (intro zipper_split) (simp_all add: pushHistory_eq v Let_def e_def)
    moreover have "rev (slice_last 99 (xs @ [p])) = take 99 (p # rev xs)"
      using take_rev [of 99 "xs @ [p]"] by (simp add: slice_last_def)
    ultimately show ?thesis
      using False by (simp add: zipper_split [OF 2] e_def)
  qed
qed

lemma zipper_back:
  assumes "history_ok s"
  shows "zipper_of (fst (goBack s)) = zip_back (zipper_of s)"
  using assms
proof (cases rule: history_cases)
  case (2 xs p ys)
  show ?thesis
  proof (cases xs rule: rev_cases)
    case Nil
    with 2 show ?thesis by (simp add: zipper_split [of s "[]" p ys] goBack_def)
  next
    case (snoc zs q)
    with 2 have "fst (goBack s) = s\<lparr>dt_historyIndex := int (length zs), dt_currentUrl := he_url q\<rparr>"
      by (simp add: goBack_def js_at_def nth_append)
    then have "zipper_of (fst (goBack s)) = (rev zs, Some q, p # ys)"
      using 2 snoc by (intro zipper_split) simp_all
    with snoc show ?thesis by (simp add: zipper_split [OF 2])
  qed
qed (auto simp: goBack_def zipper_of_def js_at_def)

lemma zipper_forward:
  assumes "history_ok s"
  shows "zipper_of (fst (goForward s)) = zip_forward (zipper_of s)"
  using assms
proof (cases rule: history_cases)
  case (2 xs p ys)
  show ?thesis
  proof (cases ys)
    case Nil
    with 2 show ?thesis by (simp add: zipper_split goForward_def)
  next
    case (Cons q zs)
    with 2 have "fst (goForward s) = s\<lparr>dt_historyIndex := int (length (xs @ [p])), dt_currentUrl := he_url q\<rparr>"
      by (simp add: goForward_def js_at_def nat_add_distrib nth_append)
    then have "zipper_of (fst (goForward s)) = (rev (xs @ [p]), Some q, zs)"
      using 2 Cons by (intro zipper_split) simp_all
    with 2 Cons show ?thesis by (simp add: zipper_split)
  qed
qed (auto simp: goForward_def zipper_of_def js_at_def)

lemma zipper_step:
  assumes "history_ok s"
  shows "zipper_of (devtools_step e s) = zip_step e (zipper_of s)"
proof (cases e)
  case (DevPush url title now)
  then show ?thesis using zipper_push [OF assms] by simp
next
  case DevBack
  then show ?thesis using zipper_back [OF assms] by simp
next
  case DevForward
  then show ?thesis using zipper_forward [OF assms] by simp
next
  case DevReset
  then show ?thesis by (simp add: zipper_empty devtools_defs)
next
  case DevNewPreview
  then show ?thesis by (simp add: zipper_empty devtools_defs)
qed (auto intro!: zipper_frame simp: devtools_defs split: option.split bool.split)

interpretation devtools: simulation devtools_step "\<lambda>e s. True" devtools_ok init_devtools zipper_of zip_step
proof unfold_locales
  show "devtools_ok init_devtools" by (rule init_devtools_ok)
  show "devtools_ok (devtools_step e s)" if "devtools_ok s" for s e
    using that by (rule step_bounded)
  show "zipper_of (devtools_step e s) = zip_step e (zipper_of s)" if "devtools_ok s" for s e
    using that by (simp add: devtools_ok_def zipper_step)
qed

section \<open>Properties\<close>

text \<open>
  C26: The list with an index refines the zipper of a browser history, whatever happens in between:
  visiting drops the pages ahead and keeps at most 99 behind, visiting the current page again does
  nothing, and going back and forward moves along it.
\<close>

theorem devtools_history_refines_zipper:
  "zipper_of (fold devtools_step es init_devtools) = fold zip_step es ([], None, [])"
  using devtools.abs_history [of es] by (simp add: zipper_empty init_devtools_def)

text \<open>
  In every reachable state the lists stay within their limits, the position is an entry of the
  history, and neighbouring entries have different addresses.
\<close>

theorem devtools_bounded:
  assumes "s = fold devtools_step es init_devtools"
  shows "length (dt_consoleEntries s) \<le> 1000 \<and> length (dt_networkRequests s) \<le> 500 \<and>
    length (dt_errors s) \<le> 100 \<and> length (dt_evalResults s) \<le> 100 \<and> length (dt_history s) \<le> 100 \<and>
    (dt_history s = [] \<longleftrightarrow> dt_historyIndex s = -1) \<and> dt_historyIndex s < int (length (dt_history s)) \<and>
    distinct_adj (map he_url (dt_history s)) \<and> 150 \<le> dt_panelHeight s \<and> dt_panelHeight s \<le> 500"
  using devtools.inv_history [of es] unfolding assms devtools_ok_def history_ok_def dev_limits by auto

text \<open>Going back and then forward returns to the same place.\<close>

lemma back_and_forward:
  assumes "history_ok s" "canGoBack s"
  shows "zipper_of (fst (goForward (fst (goBack s)))) = zipper_of s \<and> canGoForward (fst (goBack s))"
proof -
  have "history_ok (fst (goBack s))"
    using step_history [OF assms(1), of DevBack] by simp
  then have "zipper_of (fst (goForward (fst (goBack s)))) = zip_forward (zip_back (zipper_of s))"
    by (simp add: zipper_forward zipper_back assms(1))
  moreover obtain xs q p ys where s: "dt_history s = (xs @ [q]) @ p # ys" "dt_historyIndex s = int (length (xs @ [q]))"
    using assms
  proof (cases rule: history_cases)
    case (2 xs p ys)
    with assms(2) that show ?thesis
      by (cases xs rule: rev_cases) (auto simp: canGoBack_def)
  qed (simp add: canGoBack_def)
  moreover have "zipper_of s = (q # rev xs, Some p, ys)"
    using zipper_split [OF s] by simp
  moreover have "canGoForward (fst (goBack s))"
    using s by (simp add: canGoForward_def goBack_def js_at_def nth_append)
  ultimately show ?thesis by simp
qed

section \<open>Examples\<close>

theorem devtools_bounded_witness:
  "length (dt_history (fold devtools_step [DevPush ''a'' None 1, DevPush ''b'' None 2, DevBack, DevPush ''c'' None 3] init_devtools)) \<le> 100"
  using devtools_bounded [OF refl, of "[DevPush ''a'' None 1, DevPush ''b'' None 2, DevBack, DevPush ''c'' None 3]"] by blast

end
