(* ===== verification/Browser_Context.thy ===== *)
theory Browser_Context
  imports Dev_Tools Prelude Js_Format
begin

text \<open>
  The store that decides what an agent is told about the previewed page
  (\<open>apps/web/src/stores/browserContext.ts\<close>): settings and pending context per agent, and
  \<open>captureContext\<close>, which reads the developer tools store. What the browser says about itself and
  the ISO text of a time are arguments.
\<close>

section \<open>Data\<close>

record console_log =
  cl_level :: console_level
  cl_message :: string
  cl_timestamp :: string
  cl_source :: "string option"

record network_log =
  nl_url :: string
  nl_method :: string
  nl_status :: int
  nl_statusText :: "string option"
  nl_duration :: "int option"
  nl_error :: "string option"
  nl_type :: request_type

record error_log =
  el_type :: error_type
  el_message :: string
  el_stack :: "string option"
  el_timestamp :: string

record browser_context =
  bc_url :: string
  bc_timestamp :: string
  bc_consoleLogs :: "console_log list"
  bc_networkRequests :: "network_log list"
  bc_errors :: "error_log list"
  bc_htmlSnapshot :: "string option"
  bc_userAgent :: "string option"
  bc_viewportSize :: "(int \<times> int) option"

text \<open>\<open>window\<close>, \<open>navigator\<close> and the clock.\<close>

record browser_env =
  bw_href :: string
  bw_userAgent :: "string option"
  bw_viewport :: "(int \<times> int) option"
  bw_now :: int
  bw_iso :: "int \<Rightarrow> string"

definition maxConsoleLogs :: nat where "maxConsoleLogs = 50"
definition maxNetworkRequests :: nat where "maxNetworkRequests = 30"
definition maxContextErrors :: nat where "maxContextErrors = 20"
definition maxHtmlSize :: nat where "maxHtmlSize = 50000"

record context_store =
  cx_agentCaptureEnabled :: "bool obj"
  cx_agentAutoInclude :: "bool obj"
  cx_pendingContext :: "browser_context option obj"
  cx_htmlSnapshot :: "string option"

definition init_context :: context_store where
  "init_context = \<lparr>cx_agentCaptureEnabled = [], cx_agentAutoInclude = [], cx_pendingContext = [],
     cx_htmlSnapshot = None\<rparr>"

section \<open>Operations\<close>

text \<open>\<open>args.map(value).join(' ')\<close>.\<close>

fun join_blank :: "string list \<Rightarrow> string" where
  "join_blank [] = []"
| "join_blank [s] = s"
| "join_blank (s # t # ts) = s @ '' '' @ join_blank (t # ts)"

definition formatConsoleEntry :: "(int \<Rightarrow> string) \<Rightarrow> console_entry \<Rightarrow> console_log" where
  "formatConsoleEntry toISO e =
     \<lparr>cl_level = ce_level e, cl_message = join_blank (map snd (ce_args e)),
      cl_timestamp = toISO (ce_timestamp e), cl_source = ce_url e\<rparr>"

definition formatNetworkRequest :: "network_request \<Rightarrow> network_log" where
  "formatNetworkRequest r =
     \<lparr>nl_url = nr_url r, nl_method = nr_method r, nl_status = coalesce (nr_status r) 0,
      nl_statusText = nr_statusText r, nl_duration = nr_duration r, nl_error = nr_error r, nl_type = nr_type r\<rparr>"

definition formatError :: "(int \<Rightarrow> string) \<Rightarrow> browser_error \<Rightarrow> error_log" where
  "formatError toISO e =
     \<lparr>el_type = be_type e, el_message = be_message e,
      el_stack = (case be_stack e of Val s \<Rightarrow> if s = [] then None else Some s | _ \<Rightarrow> None),
      el_timestamp = toISO (be_timestamp e)\<rparr>"

definition truncated_html :: "string option \<Rightarrow> string option" where
  "truncated_html html =
     (case html of
        None \<Rightarrow> None
      | Some h \<Rightarrow> if h = [] then None
          else if maxHtmlSize < length h
          then Some (take maxHtmlSize h @ CHR 0x0A # ''<!-- truncated -->'')
          else Some h)"

definition captureContext :: "browser_env \<Rightarrow> devtools \<Rightarrow> context_store \<Rightarrow> browser_context" where
  "captureContext env dev s =
     \<lparr>bc_url = (if dt_currentUrl dev = [] then bw_href env else dt_currentUrl dev),
      bc_timestamp = bw_iso env (bw_now env),
      bc_consoleLogs = map (formatConsoleEntry (bw_iso env)) (slice_last maxConsoleLogs (dt_consoleEntries dev)),
      bc_networkRequests = map formatNetworkRequest (slice_last maxNetworkRequests (dt_networkRequests dev)),
      bc_errors = map (formatError (bw_iso env)) (slice_last maxContextErrors (dt_errors dev)),
      bc_htmlSnapshot = truncated_html (cx_htmlSnapshot s),
      bc_userAgent = bw_userAgent env, bc_viewportSize = bw_viewport env\<rparr>"

definition setCaptureEnabled :: "ident \<Rightarrow> bool \<Rightarrow> context_store \<Rightarrow> context_store" where
  "setCaptureEnabled a enabled s = s\<lparr>cx_agentCaptureEnabled := AList.update a enabled (cx_agentCaptureEnabled s)\<rparr>"

definition setAutoInclude :: "ident \<Rightarrow> bool \<Rightarrow> context_store \<Rightarrow> context_store" where
  "setAutoInclude a enabled s = s\<lparr>cx_agentAutoInclude := AList.update a enabled (cx_agentAutoInclude s)\<rparr>"

text \<open>A missing setting is \<open>undefined\<close>, hence off.\<close>

definition is_on :: "bool obj \<Rightarrow> ident \<Rightarrow> bool" where
  "is_on m a = coalesce (map_of m a) False"

definition toggleCapture :: "ident \<Rightarrow> context_store \<Rightarrow> context_store" where
  "toggleCapture a s =
     s\<lparr>cx_agentCaptureEnabled := AList.update a (\<not> is_on (cx_agentCaptureEnabled s) a) (cx_agentCaptureEnabled s)\<rparr>"

definition toggleAutoInclude :: "ident \<Rightarrow> context_store \<Rightarrow> context_store" where
  "toggleAutoInclude a s =
     s\<lparr>cx_agentAutoInclude := AList.update a (\<not> is_on (cx_agentAutoInclude s) a) (cx_agentAutoInclude s)\<rparr>"

definition setPendingContext :: "ident \<Rightarrow> browser_context option \<Rightarrow> context_store \<Rightarrow> context_store" where
  "setPendingContext a c s = s\<lparr>cx_pendingContext := AList.update a c (cx_pendingContext s)\<rparr>"

definition clearPendingContext :: "ident \<Rightarrow> context_store \<Rightarrow> context_store" where
  "clearPendingContext a s = s\<lparr>cx_pendingContext := AList.update a None (cx_pendingContext s)\<rparr>"

definition getPendingContext :: "ident \<Rightarrow> context_store \<Rightarrow> browser_context option" where
  "getPendingContext a s = coalesce (map_of (cx_pendingContext s) a) None"

definition setContextHtml :: "string option \<Rightarrow> context_store \<Rightarrow> context_store" where
  "setContextHtml html s = s\<lparr>cx_htmlSnapshot := html\<rparr>"

definition resetAgentContext :: "ident \<Rightarrow> context_store \<Rightarrow> context_store" where
  "resetAgentContext a s =
     s\<lparr>cx_agentCaptureEnabled := AList.update a False (cx_agentCaptureEnabled s),
       cx_agentAutoInclude := AList.update a False (cx_agentAutoInclude s),
       cx_pendingContext := AList.update a None (cx_pendingContext s)\<rparr>"

definition resetContext :: "context_store \<Rightarrow> context_store" where
  "resetContext s = init_context"

definition formatContextSize :: "int \<Rightarrow> string" where
  "formatContextSize bytes =
     (if bytes < 1024 then show_int bytes @ '' B''
      else if bytes < 1024 * 1024 then to_fixed 1 (to_double (of_int bytes / 1024)) @ '' KB''
      else to_fixed 1 (to_double (of_int bytes / (1024 * 1024))) @ '' MB'')"

lemma recent_suffix: "\<exists>older. map f xs = older @ map f (slice_last n xs)"
  by (rule exI [of _ "map f (take (length xs - n) xs)"]) (simp add: slice_last_def flip: map_append)

section \<open>Properties\<close>

text \<open>
  A captured context is bounded whatever the developer tools hold, and what it tells is the most
  recent: the last entries, in their order.
\<close>

theorem captured_context_is_recent_and_bounded:
  assumes "c = captureContext env dev s"
  shows "length (bc_consoleLogs c) \<le> 50 \<and> length (bc_networkRequests c) \<le> 30 \<and> length (bc_errors c) \<le> 20 \<and>
    (\<forall>h. bc_htmlSnapshot c = Some h \<longrightarrow> h \<noteq> [] \<and> length h \<le> 50019) \<and>
    (\<exists>older. map (formatConsoleEntry (bw_iso env)) (dt_consoleEntries dev) = older @ bc_consoleLogs c) \<and>
    (\<exists>older. map formatNetworkRequest (dt_networkRequests dev) = older @ bc_networkRequests c) \<and>
    (\<exists>older. map (formatError (bw_iso env)) (dt_errors dev) = older @ bc_errors c)"
proof -
  have "h \<noteq> [] \<and> length h \<le> 50019" if "truncated_html html = Some h" for html h
    using that by (auto simp: truncated_html_def maxHtmlSize_def split: option.splits if_splits)
  with assms show ?thesis
    by (auto simp: captureContext_def slice_last_length recent_suffix maxConsoleLogs_def maxNetworkRequests_def maxContextErrors_def)
qed

section \<open>Examples\<close>

definition ex_browser :: browser_env where
  "ex_browser = \<lparr>bw_href = ''/'', bw_userAgent = None, bw_viewport = None, bw_now = 7, bw_iso = show_int\<rparr>"

theorem captured_context_is_recent_and_bounded_witness:
  "length (bc_errors (captureContext ex_browser (fold devtools_step [DevPush ''a'' None 1] init_devtools) init_context)) \<le> 20"
  using captured_context_is_recent_and_bounded [OF refl, of ex_browser
      "fold devtools_step [DevPush ''a'' None 1] init_devtools" init_context] by blast

end
