(* ===== verification/Completions.thy ===== *)
theory Completions
  imports Prelude Js_Text Machines
begin

text \<open>
  Inline code completion (\<open>apps/web/src/lib/ai/CompletionProvider.ts\<close>): the bounded cache and the
  provider that waits for a pause in typing, then asks the server. The text model is Monaco's, a
  record of what the provider asks it. A call, its timer and its cancellation token are known by
  the place of the call, a request to the server by its place in \<open>cp_fetches\<close>. An aborted request
  is answered with the abort error.
\<close>

section \<open>The cache\<close>

record completion_request =
  cr_prefix :: string
  cr_suffix :: string
  cr_language :: string
  cr_filePath :: string
  cr_cursorLine :: int
  cr_cursorColumn :: int

record completion_entry =
  cn_completion :: string
  cn_timestamp :: int

definition maxAge :: int where "maxAge = 60000"
definition maxSize :: nat where "maxSize = 100"

definition generateKey :: "completion_request \<Rightarrow> string" where
  "generateKey r = cr_language r @ '':'' @ slice_last 200 (cr_prefix r)"

text \<open>The cache afterwards and the completion.\<close>

definition completion_get :: "completion_request \<Rightarrow> int \<Rightarrow> completion_entry obj \<Rightarrow> completion_entry obj \<times> string option" where
  "completion_get r now c =
     (case map_of c (generateKey r) of
        None \<Rightarrow> (c, None)
      | Some e \<Rightarrow> if maxAge < now - cn_timestamp e then (AList.delete (generateKey r) c, None)
          else (c, Some (cn_completion e)))"

text \<open>A \<open>Map\<close> keeps the place of a key that is set again.\<close>

definition completion_set :: "completion_request \<Rightarrow> string \<Rightarrow> int \<Rightarrow> completion_entry obj \<Rightarrow> completion_entry obj" where
  "completion_set r text now c =
     (let c1 = (if maxSize \<le> length c then (case c of [] \<Rightarrow> c | e # es \<Rightarrow> AList.delete (fst e) c) else c)
      in AList.update (generateKey r) \<lparr>cn_completion = text, cn_timestamp = now\<rparr> c1)"

section \<open>The provider\<close>

record completion_config =
  cc_maxPrefixLines :: int
  cc_maxSuffixLines :: int
  cc_minTriggerLength :: nat
  cc_enabled :: bool

record text_position =
  tp_line :: int
  tp_column :: int

record text_model =
  tm_lineCount :: int
  tm_lineContent :: "int \<Rightarrow> string"
  tm_lineMaxColumn :: "int \<Rightarrow> int"
  tm_valueInRange :: "text_position \<Rightarrow> text_position \<Rightarrow> string"
  tm_language :: string
  tm_path :: string

record completion_item =
  ci_insertText :: string
  ci_at :: text_position

record completion_call =
  ca_request :: completion_request
  ca_position :: text_position
  ca_cancelled :: bool
  ca_outcome :: "completion_item option option"

record completion_fetch =
  cf_call :: nat
  cf_aborted :: bool
  cf_running :: bool

record completion_provider =
  cp_config :: completion_config
  cp_cache :: "completion_entry obj"
  cp_pendingRequest :: "nat option"
  cp_debounceTimer :: "nat option"
  cp_isRegistered :: bool
  cp_registrations :: "string list"
  cp_calls :: "completion_call list"
  cp_timers :: "nat list"
  cp_fetches :: "completion_fetch list"

definition new_provider :: "completion_config \<Rightarrow> completion_provider" where
  "new_provider config =
     \<lparr>cp_config = config, cp_cache = [], cp_pendingRequest = None, cp_debounceTimer = None,
      cp_isRegistered = False, cp_registrations = [], cp_calls = [], cp_timers = [], cp_fetches = []\<rparr>"

text \<open>\<open>Partial<CompletionProviderConfig>\<close>.\<close>

datatype completion_config_field = MaxPrefixLines int | MaxSuffixLines int | MinTriggerLength nat | EnabledFlag bool

fun assign_completion_config :: "completion_config_field \<Rightarrow> completion_config \<Rightarrow> completion_config" where
  "assign_completion_config (MaxPrefixLines x) c = c\<lparr>cc_maxPrefixLines := x\<rparr>"
| "assign_completion_config (MaxSuffixLines x) c = c\<lparr>cc_maxSuffixLines := x\<rparr>"
| "assign_completion_config (MinTriggerLength x) c = c\<lparr>cc_minTriggerLength := x\<rparr>"
| "assign_completion_config (EnabledFlag x) c = c\<lparr>cc_enabled := x\<rparr>"

definition updateConfig :: "completion_config_field list \<Rightarrow> completion_provider \<Rightarrow> completion_provider" where
  "updateConfig config p = p\<lparr>cp_config := fold assign_completion_config config (cp_config p)\<rparr>"

definition abort_fetch :: "nat \<Rightarrow> completion_provider \<Rightarrow> completion_provider" where
  "abort_fetch f p = p\<lparr>cp_fetches := (cp_fetches p)[f := (cp_fetches p ! f)\<lparr>cf_aborted := True\<rparr>]\<rparr>"

definition clear_debounce :: "completion_provider \<Rightarrow> completion_provider" where
  "clear_debounce p =
     (case cp_debounceTimer p of None \<Rightarrow> p | Some t \<Rightarrow> p\<lparr>cp_timers := filter (\<lambda>x. x \<noteq> t) (cp_timers p)\<rparr>)"

definition cancelPendingRequest :: "completion_provider \<Rightarrow> completion_provider" where
  "cancelPendingRequest p =
     (let p1 = (case cp_pendingRequest p of None \<Rightarrow> p | Some f \<Rightarrow> (abort_fetch f p)\<lparr>cp_pendingRequest := None\<rparr>)
      in (clear_debounce p1)\<lparr>cp_debounceTimer := None\<rparr>)"

definition setCompletionsEnabled :: "bool \<Rightarrow> completion_provider \<Rightarrow> completion_provider" where
  "setCompletionsEnabled enabled p =
     (let p1 = p\<lparr>cp_config := (cp_config p)\<lparr>cc_enabled := enabled\<rparr>\<rparr>
      in if enabled then p1 else cancelPendingRequest p1)"

definition extractContext :: "completion_config \<Rightarrow> text_model \<Rightarrow> text_position \<Rightarrow> string \<times> string" where
  "extractContext config model position =
     (let prefixStart = max 1 (tp_line position - cc_maxPrefixLines config);
          suffixEnd = min (tm_lineCount model) (tp_line position + cc_maxSuffixLines config)
      in (tm_valueInRange model \<lparr>tp_line = prefixStart, tp_column = 1\<rparr> position,
          tm_valueInRange model position \<lparr>tp_line = suffixEnd, tp_column = tm_lineMaxColumn model suffixEnd\<rparr>))"

definition text_before_cursor :: "text_model \<Rightarrow> text_position \<Rightarrow> string" where
  "text_before_cursor model position = take (nat (tp_column position - 1)) (tm_lineContent model (tp_line position))"

text \<open>When no completion is offered at all: switched off, line too short, or in a comment.\<close>

definition no_completion :: "completion_config \<Rightarrow> bool \<Rightarrow> string \<Rightarrow> bool" where
  "no_completion config isExplicit before \<longleftrightarrow>
     \<not> cc_enabled config \<or> \<not> isExplicit \<and> length (js_trim before) < cc_minTriggerLength config \<or>
     starts_with (js_trim before) ''//'' \<or> starts_with (js_trim before) ''#'' \<or> starts_with (js_trim before) ''*''"

text \<open>A call that gets \<open>null\<close> at once changes nothing; any other arms the timer.\<close>

definition provideInlineCompletions ::
    "text_model \<Rightarrow> text_position \<Rightarrow> bool \<Rightarrow> completion_provider \<Rightarrow> completion_provider" where
  "provideInlineCompletions model position isExplicit p =
     (if no_completion (cp_config p) isExplicit (text_before_cursor model position) then p
      else (let (pre, suf) = extractContext (cp_config p) model position;
                n = length (cp_calls p);
                request = \<lparr>cr_prefix = pre, cr_suffix = suf, cr_language = tm_language model, cr_filePath = tm_path model,
                  cr_cursorLine = tp_line position, cr_cursorColumn = tp_column position\<rparr>;
                p1 = clear_debounce p
            in p1\<lparr>cp_debounceTimer := Some n, cp_timers := cp_timers p1 @ [n],
                 cp_calls := cp_calls p @ [\<lparr>ca_request = request, ca_position = position,
                   ca_cancelled = False, ca_outcome = None\<rparr>]\<rparr>))"

definition settle_call :: "nat \<Rightarrow> string option \<Rightarrow> completion_provider \<Rightarrow> completion_provider" where
  "settle_call n completion p =
     (let c = cp_calls p ! n
      in p\<lparr>cp_calls := (cp_calls p)[n := c\<lparr>ca_outcome := Some
           (if \<not> truthy completion \<or> ca_cancelled c then None
            else Some \<lparr>ci_insertText = the completion, ci_at = ca_position c\<rparr>)\<rparr>]\<rparr>)"

text \<open>The timer: \<open>fetchCompletion\<close> up to its first \<open>await\<close>.\<close>

definition debounce_fired :: "nat \<Rightarrow> int \<Rightarrow> completion_provider \<Rightarrow> completion_provider" where
  "debounce_fired n now p0 =
     (let p = p0\<lparr>cp_timers := filter (\<lambda>x. x \<noteq> n) (cp_timers p0)\<rparr>
      in if ca_cancelled (cp_calls p ! n) then settle_call n None p
         else (let (cache, cached) = completion_get (ca_request (cp_calls p ! n)) now (cp_cache p);
                   p1 = p\<lparr>cp_cache := cache\<rparr>
               in if truthy cached then settle_call n cached p1
                  else (let p2 = cancelPendingRequest p1
                        in p2\<lparr>cp_pendingRequest := Some (length (cp_fetches p2)),
                             cp_fetches := cp_fetches p2 @ [\<lparr>cf_call = n, cf_aborted = False, cf_running = True\<rparr>]\<rparr>)))"

text \<open>The rest of it; \<open>Inl\<close> is an error status or an exception.\<close>

definition completion_answered :: "nat \<Rightarrow> unit + string \<Rightarrow> int \<Rightarrow> completion_provider \<Rightarrow> completion_provider" where
  "completion_answered f answer now p =
     (let fetch = cp_fetches p ! f;
          n = cf_call fetch;
          p1 = p\<lparr>cp_fetches := (cp_fetches p)[f := fetch\<lparr>cf_running := False\<rparr>]\<rparr>
      in (case answer of
            Inr completion \<Rightarrow>
              if cf_aborted fetch then settle_call n None (p1\<lparr>cp_pendingRequest := None\<rparr>)
              else settle_call n (Some completion)
                (p1\<lparr>cp_cache := completion_set (ca_request (cp_calls p ! n)) completion now (cp_cache p),
                   cp_pendingRequest := None\<rparr>)
          | Inl _ \<Rightarrow> settle_call n None (p1\<lparr>cp_pendingRequest := None\<rparr>)))"

definition register_provider :: "string list \<Rightarrow> completion_provider \<Rightarrow> completion_provider" where
  "register_provider languages p =
     (if cp_isRegistered p then p else p\<lparr>cp_isRegistered := True, cp_registrations := languages\<rparr>)"

definition dispose_provider :: "completion_provider \<Rightarrow> completion_provider" where
  "dispose_provider p =
     (cancelPendingRequest (p\<lparr>cp_registrations := []\<rparr>))\<lparr>cp_cache := [], cp_isRegistered := False\<rparr>"

section \<open>Events\<close>

datatype completion_event =
    Provide text_model text_position bool
  | TokenCancelled nat
  | DebounceFired nat int
  | CompletionAnswered nat "unit + string" int
  | CompletionsEnabled bool
  | CompletionConfig "completion_config_field list"
  | ProviderRegistered "string list"
  | ProviderDisposed

fun completion_step :: "completion_event \<Rightarrow> completion_provider \<Rightarrow> completion_provider" where
  "completion_step (Provide model position isExplicit) p = provideInlineCompletions model position isExplicit p"
| "completion_step (TokenCancelled n) p =
     p\<lparr>cp_calls := (cp_calls p)[n := (cp_calls p ! n)\<lparr>ca_cancelled := True\<rparr>]\<rparr>"
| "completion_step (DebounceFired n now) p = debounce_fired n now p"
| "completion_step (CompletionAnswered f answer now) p = completion_answered f answer now p"
| "completion_step (CompletionsEnabled b) p = setCompletionsEnabled b p"
| "completion_step (CompletionConfig config) p = updateConfig config p"
| "completion_step (ProviderRegistered languages) p = register_provider languages p"
| "completion_step ProviderDisposed p = dispose_provider p"

fun completion_guard :: "completion_event \<Rightarrow> completion_provider \<Rightarrow> bool" where
  "completion_guard (TokenCancelled n) p = (n < length (cp_calls p))"
| "completion_guard (DebounceFired n now) p = (n \<in> set (cp_timers p))"
| "completion_guard (CompletionAnswered f answer now) p = (f < length (cp_fetches p) \<and> cf_running (cp_fetches p ! f))"
| "completion_guard _ p = True"


section \<open>The invariant\<close>

text \<open>\<open>Q key text\<close> is a property of every answer to a request with that key.\<close>

definition answers_only :: "(string \<Rightarrow> string \<Rightarrow> bool) \<Rightarrow> completion_provider \<Rightarrow> bool" where
  "answers_only Q p \<longleftrightarrow>
     (\<forall>(k, e) \<in> set (cp_cache p). Q k (cn_completion e)) \<and>
     (\<forall>c \<in> set (cp_calls p). \<forall>i. ca_outcome c = Some (Some i) \<longrightarrow>
        Q (generateKey (ca_request c)) (ci_insertText i) \<and> ci_insertText i \<noteq> [] \<and> ci_at i = ca_position c)"

definition provider_ok :: "(string \<Rightarrow> string \<Rightarrow> bool) \<Rightarrow> completion_provider \<Rightarrow> bool" where
  "provider_ok Q p \<longleftrightarrow> answers_only Q p \<and> obj_ok (cp_cache p) \<and> length (cp_cache p) \<le> maxSize \<and>
     (\<forall>f \<in> set (cp_fetches p). cf_call f < length (cp_calls p)) \<and>
     (\<forall>n \<in> set (cp_timers p). n < length (cp_calls p))"

fun honest_server :: "(string \<Rightarrow> string \<Rightarrow> bool) \<Rightarrow> completion_event \<Rightarrow> completion_provider \<Rightarrow> bool" where
  "honest_server Q (CompletionAnswered f (Inr text) now) p =
     (completion_guard (CompletionAnswered f (Inr text) now) p \<and>
      Q (generateKey (ca_request (cp_calls p ! cf_call (cp_fetches p ! f)))) text)"
| "honest_server Q e p = completion_guard e p"

lemma set_AList_update: "set (AList.update k v m) \<subseteq> insert (k, v) (set m)"
  by (induction m) auto

lemma length_AList_update: "length (AList.update k v m) = (if k \<in> fst ` set m then length m else Suc (length m))"
  by (induction m) auto

lemma length_AList_delete: "length (AList.delete k m) \<le> length m"
  by (simp add: AList.delete_eq)

lemma completion_set_ok:
  assumes "obj_ok c" "length c \<le> maxSize" "\<forall>(k, e) \<in> set c. Q k (cn_completion e)" "Q (generateKey r) text"
  shows "obj_ok (completion_set r text now c) \<and> length (completion_set r text now c) \<le> maxSize \<and>
    (\<forall>(k, e) \<in> set (completion_set r text now c). Q k (cn_completion e))"
proof -
  define c1 where "c1 = (if maxSize \<le> length c then (case c of [] \<Rightarrow> c | e # es \<Rightarrow> AList.delete (fst e) c) else c)"
  have c1: "set c1 \<subseteq> set c" "obj_ok c1"
    using assms(1) by (auto simp: c1_def set_obj_delete split: list.splits)
  have "length c1 < maxSize"
  proof (cases c)
    case (Cons e es)
    then show ?thesis
      using length_AList_delete [of "fst e" es] assms(2) by (cases e) (auto simp: c1_def)
  qed (simp add: c1_def maxSize_def)
  then have "length (completion_set r text now c) \<le> maxSize"
    by (simp add: completion_set_def c1_def [symmetric] length_AList_update)
  moreover have "\<forall>(k, e) \<in> set (completion_set r text now c). Q k (cn_completion e)"
    using set_AList_update [of "generateKey r" "\<lparr>cn_completion = text, cn_timestamp = now\<rparr>" c1] c1(1) assms(3,4)
    by (fastforce simp: completion_set_def c1_def [symmetric])
  ultimately show ?thesis
    using c1(2) by (simp add: completion_set_def c1_def [symmetric])
qed

lemma completion_get_cases:
  obtains "completion_get r now c = (c, None)" | "completion_get r now c = (AList.delete (generateKey r) c, None)"
    | e where "completion_get r now c = (c, Some (cn_completion e))" "(generateKey r, e) \<in> set c"
proof (cases "map_of c (generateKey r)")
  case None
  then show ?thesis by (intro that(1)) (simp add: completion_get_def)
next
  case (Some e)
  show ?thesis
  proof (cases "maxAge < now - cn_timestamp e")
    case True
    with Some show ?thesis by (intro that(2)) (simp add: completion_get_def)
  next
    case False
    with Some show ?thesis by (intro that(3) [of e]) (auto simp: completion_get_def dest: map_of_SomeD)
  qed
qed

lemma cancel_frame [simp]:
  "cp_cache (cancelPendingRequest p) = cp_cache p" "cp_calls (cancelPendingRequest p) = cp_calls p"
  "cp_config (cancelPendingRequest p) = cp_config p"
  by (simp_all add: cancelPendingRequest_def clear_debounce_def abort_fetch_def Let_def split: option.split)

lemma clear_debounce_frame [simp]:
  "cp_cache (clear_debounce p) = cp_cache p" "cp_calls (clear_debounce p) = cp_calls p"
  "cp_fetches (clear_debounce p) = cp_fetches p" "set (cp_timers (clear_debounce p)) \<subseteq> set (cp_timers p)"
  by (auto simp: clear_debounce_def split: option.split)

lemma map_abort:
  assumes "\<And>x. g (x\<lparr>cf_aborted := True\<rparr>) = g x"
  shows "map g (xs[f := (xs ! f)\<lparr>cf_aborted := True\<rparr>]) = map g xs"
  by (cases "f < length xs") (simp_all add: assms map_update list_update_same_conv list_update_beyond)

lemma cancel_fetches:
  "map cf_call (cp_fetches (cancelPendingRequest p)) = map cf_call (cp_fetches p)"
  "set (cp_timers (cancelPendingRequest p)) \<subseteq> set (cp_timers p)"
  by (simp_all add: cancelPendingRequest_def abort_fetch_def clear_debounce_def map_abort Let_def split: option.split)

lemma settled_call_ok:
  assumes "provider_ok Q p" "\<And>t. completion = Some t \<Longrightarrow> t \<noteq> [] \<Longrightarrow> Q (generateKey (ca_request (cp_calls p ! n))) t"
  shows "provider_ok Q (settle_call n completion p)"
proof (cases "n < length (cp_calls p)")
  case True
  have "answers_only Q (settle_call n completion p)"
    using assms True unfolding provider_ok_def answers_only_def
    by (auto simp: settle_call_def Let_def truthy_def dest!: subsetD [OF set_update_subset_insert] split: option.splits)
  with assms(1) show ?thesis
    by (simp add: provider_ok_def settle_call_def Let_def)
next
  case False
  with assms(1) show ?thesis
    by (simp add: settle_call_def Let_def provider_ok_def answers_only_def list_update_beyond)
qed

lemma cancel_ok: "provider_ok Q p \<Longrightarrow> provider_ok Q (cancelPendingRequest p)"
proof -
  assume ok: "provider_ok Q p"
  then have "\<forall>n \<in> set (map cf_call (cp_fetches (cancelPendingRequest p))). n < length (cp_calls p)"
    unfolding cancel_fetches(1) by (simp add: provider_ok_def)
  with ok cancel_fetches(2) [of p] show ?thesis
    by (auto simp: provider_ok_def answers_only_def)
qed

lemma provide_ok:
  assumes "provider_ok Q p"
  shows "provider_ok Q (provideInlineCompletions model position isExplicit p)"
proof -
  have "\<forall>n \<in> set (cp_timers (clear_debounce p)). n < Suc (length (cp_calls p))"
    using assms clear_debounce_frame(4) [of p] unfolding provider_ok_def by (meson less_SucI subsetD)
  with assms show ?thesis
    by (auto simp: provideInlineCompletions_def Let_def provider_ok_def answers_only_def less_SucI split: prod.split)
qed

lemma fired_ok:
  assumes "provider_ok Q p" "n < length (cp_calls p)"
  shows "provider_ok Q (debounce_fired n now p)"
proof -
  let ?p = "p\<lparr>cp_timers := filter (\<lambda>x. x \<noteq> n) (cp_timers p)\<rparr>"
  have p: "provider_ok Q ?p"
    using assms by (simp add: provider_ok_def answers_only_def)
  have cached: "provider_ok Q (?p\<lparr>cp_cache := fst (completion_get r now (cp_cache p))\<rparr>)" for r
    using assms length_AList_delete [of "generateKey r" "cp_cache p"]
    by (cases rule: completion_get_cases [of r now "cp_cache p"])
      (auto simp: provider_ok_def answers_only_def set_obj_delete)
  have hit: "Q (generateKey r) t" if "snd (completion_get r now (cp_cache p)) = Some t" for r t
    using that assms by (cases rule: completion_get_cases [of r now "cp_cache p"])
      (auto simp: provider_ok_def answers_only_def)
  have asked: "provider_ok Q (q\<lparr>cp_pendingRequest := x, cp_fetches := cp_fetches q @ [\<lparr>cf_call = n, cf_aborted = False, cf_running = True\<rparr>]\<rparr>)"
    if "provider_ok Q q" "n < length (cp_calls q)" for q x
    using that by (simp add: provider_ok_def answers_only_def)
  let ?r = "ca_request (cp_calls p ! n)"
  obtain c t where get: "completion_get ?r now (cp_cache p) = (c, t)" by fastforce
  have c: "provider_ok Q (?p\<lparr>cp_cache := c\<rparr>)"
    using cached [of ?r] by (simp add: get)
  have t: "Q (generateKey ?r) x" if "t = Some x" for x
    using hit [of ?r x] that by (simp add: get)
  show ?thesis
    using settled_call_ok [OF p, of None n] settled_call_ok [OF c, of t n] t asked [OF cancel_ok [OF c]] assms(2)
    by (simp add: debounce_fired_def Let_def get)
qed

lemma answered_ok:
  assumes "provider_ok Q p" "f < length (cp_fetches p)"
    and "\<And>msg. answer = Inr msg \<Longrightarrow> Q (generateKey (ca_request (cp_calls p ! cf_call (cp_fetches p ! f)))) msg"
  shows "provider_ok Q (completion_answered f answer now p)"
proof -
  let ?q = "p\<lparr>cp_fetches := (cp_fetches p)[f := (cp_fetches p ! f)\<lparr>cf_running := False\<rparr>], cp_pendingRequest := None\<rparr>"
  have "cf_call (cp_fetches p ! f) < length (cp_calls p)"
    using assms(1,2) nth_mem by (auto simp: provider_ok_def)
  then have q: "provider_ok Q ?q"
    using assms(1) set_update_subset_insert [of "cp_fetches p" f] by (fastforce simp: provider_ok_def answers_only_def)
  have stored: "provider_ok Q (p\<lparr>cp_fetches := (cp_fetches p)[f := (cp_fetches p ! f)\<lparr>cf_running := False\<rparr>],
      cp_cache := completion_set (ca_request (cp_calls p ! cf_call (cp_fetches p ! f))) msg now (cp_cache p),
      cp_pendingRequest := None\<rparr>)"
    if "answer = Inr msg" for msg
    using q completion_set_ok [of "cp_cache p" Q "ca_request (cp_calls p ! cf_call (cp_fetches p ! f))" msg now] assms(3) [OF that]
    by (simp add: provider_ok_def answers_only_def)
  show ?thesis
  proof (cases answer)
    case (Inl u)
    then show ?thesis
      using settled_call_ok [OF q, of None] by (simp add: completion_answered_def Let_def)
  next
    case (Inr msg)
    then show ?thesis
      using settled_call_ok [OF q, of None] settled_call_ok [OF stored [OF Inr], of "Some msg"] assms(3) [OF Inr]
      by (simp add: completion_answered_def Let_def)
  qed
qed

lemma completion_step_ok:
  assumes "provider_ok Q p" "honest_server Q e p"
  shows "provider_ok Q (completion_step e p)"
proof (cases e)
  case (Provide model position isExplicit)
  with assms(1) show ?thesis by (simp add: provide_ok)
next
  case (TokenCancelled n)
  with assms(2) have "cp_calls p ! n \<in> set (cp_calls p)" by simp
  with assms(1) show ?thesis
    unfolding provider_ok_def answers_only_def TokenCancelled
    by (auto dest!: subsetD [OF set_update_subset_insert])
next
  case (DebounceFired n now)
  with assms have "n < length (cp_calls p)"
    by (simp add: provider_ok_def)
  with DebounceFired fired_ok [OF assms(1)] show ?thesis by simp
next
  case (CompletionAnswered f answer now)
  with assms show ?thesis
    by (cases answer) (auto intro!: answered_ok)
next
  case ProviderDisposed
  have "provider_ok Q (cancelPendingRequest (p\<lparr>cp_registrations := []\<rparr>))"
    using assms(1) by (intro cancel_ok) (simp add: provider_ok_def answers_only_def)
  then show ?thesis
    by (simp add: ProviderDisposed dispose_provider_def provider_ok_def answers_only_def)
next
  case (CompletionsEnabled b)
  have "provider_ok Q (p\<lparr>cp_config := x\<rparr>)" for x
    using assms(1) by (simp add: provider_ok_def answers_only_def)
  then show ?thesis
    by (simp add: CompletionsEnabled setCompletionsEnabled_def cancel_ok Let_def)
qed (use assms(1) in \<open>simp_all add: updateConfig_def register_provider_def provider_ok_def answers_only_def\<close>)

lemma new_provider_ok: "provider_ok Q (new_provider config)"
  by (simp add: provider_ok_def answers_only_def new_provider_def)

interpretation completions: machine completion_step "honest_server Q" "provider_ok Q" "new_provider config" for Q config
  by unfold_locales (auto intro: new_provider_ok completion_step_ok)

section \<open>Languages and prefixes\<close>

text \<open>
  What the server may answer is given as a relation between the language, the last 200 characters
  before the cursor and the text; languages (Monaco's identifiers) contain no colon, which
  separates the parts of a key.
\<close>

fun answers_fit :: "(string \<Rightarrow> string \<Rightarrow> string \<Rightarrow> bool) \<Rightarrow> completion_event \<Rightarrow> completion_provider \<Rightarrow> bool" where
  "answers_fit R (Provide model position isExplicit) p = (CHR '':'' \<notin> set (tm_language model))"
| "answers_fit R (CompletionAnswered f (Inr text) now) p =
     (completion_guard (CompletionAnswered f (Inr text) now) p \<and>
      (let r = ca_request (cp_calls p ! cf_call (cp_fetches p ! f)) in R (cr_language r) (slice_last 200 (cr_prefix r)) text))"
| "answers_fit R e p = completion_guard e p"

text \<open>The relation of a key to the answers, and that it determines language and prefix.\<close>

definition key_fits :: "(string \<Rightarrow> string \<Rightarrow> string \<Rightarrow> bool) \<Rightarrow> string \<Rightarrow> string \<Rightarrow> bool" where
  "key_fits R key text \<longleftrightarrow> (\<forall>l s. CHR '':'' \<notin> set l \<and> key = l @ '':'' @ s \<longrightarrow> R l s text)"

lemma split_at_first:
  assumes "l @ d # s = l' @ d # s'" "d \<notin> set l" "d \<notin> set l'"
  shows "l = l' \<and> s = s'"
  using assms by (induction l arbitrary: l') (auto simp: Cons_eq_append_conv append_eq_Cons_conv)

lemma key_fits_iff:
  "CHR '':'' \<notin> set (cr_language r) \<Longrightarrow>
   key_fits R (generateKey r) text \<longleftrightarrow> R (cr_language r) (slice_last 200 (cr_prefix r)) text"
  using split_at_first [of "cr_language r" "CHR '':''" "slice_last 200 (cr_prefix r)"]
  by (auto simp: key_fits_def generateKey_def)

definition plain_languages :: "completion_provider \<Rightarrow> bool" where
  "plain_languages p \<longleftrightarrow> (\<forall>r \<in> set (map ca_request (cp_calls p)). CHR '':'' \<notin> set (cr_language r))"

lemma settle_requests [simp]: "map ca_request (cp_calls (settle_call n completion p)) = map ca_request (cp_calls p)"
  by (cases "n < length (cp_calls p)")
    (simp_all add: settle_call_def Let_def map_update list_update_same_conv list_update_beyond)

lemma cancelled_requests:
  "map ca_request ((cp_calls p)[n := (cp_calls p ! n)\<lparr>ca_cancelled := True\<rparr>]) = map ca_request (cp_calls p)"
  by (cases "n < length (cp_calls p)") (simp_all add: map_update list_update_same_conv list_update_beyond)

text \<open>Only a new call adds a request.\<close>

lemma step_requests:
  "map ca_request (cp_calls (completion_step e p)) = map ca_request (cp_calls p) \<or>
   (\<exists>model position isExplicit r. e = Provide model position isExplicit \<and> cr_language r = tm_language model \<and>
      map ca_request (cp_calls (completion_step e p)) = map ca_request (cp_calls p) @ [r])"
proof (cases e)
  case (Provide model position isExplicit)
  obtain x y where "extractContext (cp_config p) model position = (x, y)" by fastforce
  with Provide show ?thesis
    by (simp add: provideInlineCompletions_def Let_def)
next
  case (TokenCancelled n)
  then show ?thesis using cancelled_requests by simp
next
  case (DebounceFired n now)
  obtain c t where "completion_get (ca_request (cp_calls p ! n)) now (cp_cache p) = (c, t)" by fastforce
  with DebounceFired show ?thesis
    by (simp add: debounce_fired_def Let_def)
next
  case (CompletionAnswered f answer now)
  then show ?thesis
    by (cases answer) (simp_all add: completion_answered_def Let_def)
qed (simp_all add: updateConfig_def register_provider_def dispose_provider_def setCompletionsEnabled_def Let_def)

lemma plain_step:
  assumes "plain_languages p" "answers_fit R e p"
  shows "plain_languages (completion_step e p)"
  using step_requests [of e p] assms by (auto simp: plain_languages_def simp del: set_map)

lemma answers_fit_honest:
  assumes "provider_ok Q p" "plain_languages p" "answers_fit R e p"
  shows "honest_server (key_fits R) e p"
proof (cases e)
  case (CompletionAnswered f answer now)
  show ?thesis
  proof (cases answer)
    case (Inr msg)
    with CompletionAnswered assms(1,3) have "cf_call (cp_fetches p ! f) < length (cp_calls p)"
      by (auto simp: provider_ok_def)
    with assms(2) have "CHR '':'' \<notin> set (cr_language (ca_request (cp_calls p ! cf_call (cp_fetches p ! f))))"
      by (simp add: plain_languages_def)
    with CompletionAnswered Inr assms(3) show ?thesis
      by (simp add: key_fits_iff Let_def)
  qed (use CompletionAnswered assms(3) in simp)
qed (use assms(3) in simp_all)

lemma answers_fit_ok:
  assumes "guarded (answers_fit R) completion_step es (new_provider config)"
  shows "provider_ok (key_fits R) (fold completion_step es (new_provider config)) \<and>
    plain_languages (fold completion_step es (new_provider config))"
  using assms
proof (induction es rule: rev_induct)
  case (snoc e es)
  let ?p = "fold completion_step es (new_provider config)"
  from snoc.prems have "guarded (answers_fit R) completion_step es (new_provider config)" and e: "answers_fit R e ?p"
    by (simp_all add: guarded_append)
  with snoc.IH have p: "provider_ok (key_fits R) ?p" "plain_languages ?p" by simp_all
  with answers_fit_honest [OF p e] plain_step [OF p(2) e] show ?case
    by (simp add: completion_step_ok)
qed (simp add: new_provider_ok, simp add: plain_languages_def new_provider_def)

section \<open>Properties\<close>

text \<open>
  C27: A completion that a caller gets was an answer of the server to a request with the same language
  and the same last 200 characters before the cursor, is not empty and is inserted where the call
  was made; and the cache never holds more than 100 completions, one per key. Asked for is that the identifiers of
  languages contain no colon: the key joins language and text with one.
\<close>

theorem completions_fit_their_prefix:
  assumes "guarded (answers_fit R) completion_step es (new_provider config)"
    and "p = fold completion_step es (new_provider config)" "call \<in> set (cp_calls p)" "ca_outcome call = Some (Some item)"
  shows "R (cr_language (ca_request call)) (slice_last 200 (cr_prefix (ca_request call))) (ci_insertText item) \<and>
    ci_insertText item \<noteq> [] \<and> ci_at item = ca_position call \<and> length (cp_cache p) \<le> 100 \<and> obj_ok (cp_cache p)"
proof -
  have ok: "provider_ok (key_fits R) p" "plain_languages p"
    unfolding assms(2) using answers_fit_ok [OF assms(1)] by simp_all
  then have "key_fits R (generateKey (ca_request call)) (ci_insertText item)"
    using assms(3,4) by (auto simp: provider_ok_def answers_only_def)
  moreover have "CHR '':'' \<notin> set (cr_language (ca_request call))"
    using ok(2) assms(3) by (simp add: plain_languages_def)
  ultimately show ?thesis
    using ok(1) assms(3,4) by (auto simp: key_fits_iff provider_ok_def answers_only_def maxSize_def)
qed

text \<open>
  The answer to an aborted request makes the provider forget the request that replaced it: the
  next call does not abort that one, and two requests run at a time.
\<close>

definition ex_text :: text_model where
  "ex_text = \<lparr>tm_lineCount = 1, tm_lineContent = (\<lambda>_. ''value = ''), tm_lineMaxColumn = (\<lambda>_. 9),
     tm_valueInRange = (\<lambda>a b. take (nat (tp_column b - tp_column a)) (drop (nat (tp_column a - 1)) ''value = '')),
     tm_language = ''py'', tm_path = ''/a.py''\<rparr>"

definition ex_completion_config :: completion_config where
  "ex_completion_config = \<lparr>cc_maxPrefixLines = 50, cc_maxSuffixLines = 10, cc_minTriggerLength = 3, cc_enabled = True\<rparr>"

definition ex_typing :: "completion_event list" where
  "ex_typing = [Provide ex_text \<lparr>tp_line = 1, tp_column = 6\<rparr> False, DebounceFired 0 300,
     Provide ex_text \<lparr>tp_line = 1, tp_column = 8\<rparr> False, DebounceFired 1 700, CompletionAnswered 0 (Inl ()) 710,
     Provide ex_text \<lparr>tp_line = 1, tp_column = 9\<rparr> False, DebounceFired 2 1100]"

lemma two_requests_run:
  "map (\<lambda>f. (cf_running f, cf_aborted f)) (cp_fetches (fold completion_step ex_typing (new_provider ex_completion_config))) =
     [(False, True), (True, False), (True, False)]"
  by code_simp

section \<open>Examples\<close>

theorem completions_fit_their_prefix_witness:
  "\<exists>call item. call \<in> set (cp_calls (fold completion_step (ex_typing @ [CompletionAnswered 2 (Inr ''41'') 1500])
       (new_provider ex_completion_config))) \<and> ca_outcome call = Some (Some item) \<and> ci_insertText item = ''41'' \<and>
     slice_last 200 (cr_prefix (ca_request call)) = ''value = '' \<and> ci_at item = ca_position call"
proof -
  let ?es = "ex_typing @ [CompletionAnswered 2 (Inr ''41'') 1500]"
  let ?R = "\<lambda>l s t. l = ''py'' \<and> s = ''value = '' \<and> t = ''41''"
  have "guarded (answers_fit ?R) completion_step ?es (new_provider ex_completion_config)"
    by code_simp
  moreover have "\<exists>call \<in> set (cp_calls (fold completion_step ?es (new_provider ex_completion_config))).
      ca_outcome call = Some (Some \<lparr>ci_insertText = ''41'', ci_at = \<lparr>tp_line = 1, tp_column = 9\<rparr>\<rparr>)"
    by code_simp
  then obtain call where "call \<in> set (cp_calls (fold completion_step ?es (new_provider ex_completion_config)))"
      "ca_outcome call = Some (Some \<lparr>ci_insertText = ''41'', ci_at = \<lparr>tp_line = 1, tp_column = 9\<rparr>\<rparr>)"
    by blast
  ultimately show ?thesis
    using completions_fit_their_prefix [of ?R ?es ex_completion_config, OF _ refl] by fastforce
qed

end
