(* ===== verification/Socket_Client.thy ===== *)
theory Socket_Client
  imports Prelude Js_Text Machines
begin

text \<open>
  The WebSocket client that the web application, the CLI and the VS Code extension share
  (\<open>packages/api-client/src/socket/client.ts\<close>). The sockets are socket.io's: the client reads
  \<open>connected\<close>, registers handlers, asks to connect or disconnect and emits; what a socket does is
  an event that names it by its place in \<open>sc_sockets\<close>. What was emitted is recorded with whether
  the socket was connected at that time. A handler or listener is a number.
\<close>

section \<open>State\<close>

record connection_state =
  cs_connected :: bool
  cs_reconnecting :: bool
  cs_reconnectAttempt :: int
  cs_error :: "string option"
  cs_disconnectReason :: "string option"

record active_session =
  as_sessionId :: ident
  as_userId :: ident
  as_authToken :: "string option"

datatype socket_request = ConnectAsked | DisconnectAsked

record io_socket =
  io_connected :: bool
  io_onceConnect :: "active_session list"
  io_handlers :: "(string \<times> nat) list"
  io_emitted :: "(bool \<times> string \<times> json) list"
  io_asked :: "socket_request list"

record socket_client =
  sc_sockets :: "io_socket list"
  sc_socket :: "nat option"
  sc_state :: connection_state
  sc_listeners :: "nat list"
  sc_notified :: "(nat \<times> connection_state) list"
  sc_activeSession :: "active_session option"

definition new_io_socket :: io_socket where
  "new_io_socket = \<lparr>io_connected = False, io_onceConnect = [], io_handlers = [], io_emitted = [], io_asked = []\<rparr>"

definition edit_socket :: "nat \<Rightarrow> (io_socket \<Rightarrow> io_socket) \<Rightarrow> socket_client \<Rightarrow> socket_client" where
  "edit_socket i f c = c\<lparr>sc_sockets := (sc_sockets c)[i := f (sc_sockets c ! i)]\<rparr>"

section \<open>Methods\<close>

text \<open>\<open>getSocket\<close>: the client afterwards and its socket.\<close>

definition getSocket :: "socket_client \<Rightarrow> socket_client \<times> nat" where
  "getSocket c =
     (case sc_socket c of
        Some i \<Rightarrow> (c, i)
      | None \<Rightarrow> (c\<lparr>sc_sockets := sc_sockets c @ [new_io_socket], sc_socket := Some (length (sc_sockets c))\<rparr>,
          length (sc_sockets c)))"

definition notifyConnectionListeners :: "socket_client \<Rightarrow> socket_client" where
  "notifyConnectionListeners c =
     c\<lparr>sc_notified := sc_notified c @ map (\<lambda>l. (l, sc_state c)) (sc_listeners c)\<rparr>"

definition updateConnectionState :: "(connection_state \<Rightarrow> connection_state) \<Rightarrow> socket_client \<Rightarrow> socket_client" where
  "updateConnectionState updates c = notifyConnectionListeners (c\<lparr>sc_state := updates (sc_state c)\<rparr>)"

text \<open>A \<open>Set\<close> keeps a listener once.\<close>

definition onConnectionStateChange :: "nat \<Rightarrow> socket_client \<Rightarrow> socket_client" where
  "onConnectionStateChange l c =
     c\<lparr>sc_listeners := (if l \<in> set (sc_listeners c) then sc_listeners c else sc_listeners c @ [l]),
       sc_notified := sc_notified c @ [(l, sc_state c)]\<rparr>"

definition unsubscribe_state :: "nat \<Rightarrow> socket_client \<Rightarrow> socket_client" where
  "unsubscribe_state l c = c\<lparr>sc_listeners := filter (\<lambda>x. x \<noteq> l) (sc_listeners c)\<rparr>"

definition ask :: "socket_request \<Rightarrow> io_socket \<Rightarrow> io_socket" where
  "ask r s = s\<lparr>io_asked := io_asked s @ [r]\<rparr>"

definition connect_socket :: "socket_client \<Rightarrow> socket_client" where
  "connect_socket c0 =
     (let (c, i) = getSocket c0
      in if io_connected (sc_sockets c ! i) then c else edit_socket i (ask ConnectAsked) c)"

definition new_socket_client :: "bool \<Rightarrow> socket_client" where
  "new_socket_client autoConnect =
     (let c = \<lparr>sc_sockets = [], sc_socket = None,
           sc_state = \<lparr>cs_connected = False, cs_reconnecting = False, cs_reconnectAttempt = 0, cs_error = None,
             cs_disconnectReason = None\<rparr>,
           sc_listeners = [], sc_notified = [], sc_activeSession = None\<rparr>
      in if autoConnect then connect_socket c else c)"

definition disconnect_socket :: "socket_client \<Rightarrow> socket_client" where
  "disconnect_socket c =
     (case sc_socket c of
        None \<Rightarrow> c
      | Some i \<Rightarrow> if io_connected (sc_sockets c ! i) then edit_socket i (ask DisconnectAsked) c else c)"

definition reconnect_socket :: "socket_client \<Rightarrow> socket_client" where
  "reconnect_socket c =
     (case sc_socket c of
        None \<Rightarrow> c
      | Some i \<Rightarrow> edit_socket i (\<lambda>s. ask ConnectAsked (ask DisconnectAsked s))
          (updateConnectionState
             (\<lambda>s. s\<lparr>cs_error := None, cs_reconnecting := True, cs_reconnectAttempt := 1\<rparr>) c))"

definition isConnected :: "socket_client \<Rightarrow> bool" where
  "isConnected c = cs_connected (sc_state c)"

definition emit_on :: "string \<Rightarrow> json \<Rightarrow> io_socket \<Rightarrow> io_socket" where
  "emit_on event data s = s\<lparr>io_emitted := io_emitted s @ [(io_connected s, event, data)]\<rparr>"

definition join_data :: "active_session \<Rightarrow> json" where
  "join_data a =
     JObj ([(''session_id'', JStr (as_sessionId a)), (''user_id'', JStr (as_userId a))] @
       (if truthy (as_authToken a) then [(''auth_token'', JStr (the (as_authToken a)))] else []))"

definition emitJoin :: "active_session \<Rightarrow> io_socket \<Rightarrow> io_socket" where
  "emitJoin a = emit_on ''session_join'' (join_data a)"

definition joinSession :: "active_session \<Rightarrow> socket_client \<Rightarrow> socket_client" where
  "joinSession a c0 =
     (let (c, i) = getSocket c0
      in edit_socket i
           (\<lambda>s. if io_connected s then emitJoin a s else s\<lparr>io_onceConnect := io_onceConnect s @ [a]\<rparr>)
           (c\<lparr>sc_activeSession := Some a\<rparr>))"

definition emit_event :: "string \<Rightarrow> json \<Rightarrow> socket_client \<Rightarrow> socket_client" where
  "emit_event event data c0 = (let (c, i) = getSocket c0 in edit_socket i (emit_on event data) c)"

definition leaveSession :: "ident \<Rightarrow> ident \<Rightarrow> socket_client \<Rightarrow> socket_client" where
  "leaveSession sessionId userId c =
     (let c1 = emit_event ''session_leave'' (JObj [(''session_id'', JStr sessionId), (''user_id'', JStr userId)]) c
      in c1\<lparr>sc_activeSession :=
           (case sc_activeSession c1 of
              Some a \<Rightarrow> if as_sessionId a = sessionId then None else Some a
            | None \<Rightarrow> None)\<rparr>)"

definition on_event :: "string \<Rightarrow> nat \<Rightarrow> socket_client \<Rightarrow> socket_client" where
  "on_event event h c0 =
     (let (c, i) = getSocket c0 in edit_socket i (\<lambda>s. s\<lparr>io_handlers := io_handlers s @ [(event, h)]\<rparr>) c)"

text \<open>socket.io removes one registration of the handler.\<close>

definition off_event :: "string \<Rightarrow> nat \<Rightarrow> socket_client \<Rightarrow> socket_client" where
  "off_event event h c =
     (case sc_socket c of
        None \<Rightarrow> c
      | Some i \<Rightarrow> edit_socket i (\<lambda>s. s\<lparr>io_handlers := remove1 (event, h) (io_handlers s)\<rparr>) c)"

definition emitCursorUpdate :: "ident \<Rightarrow> ident \<Rightarrow> string \<Rightarrow> int \<Rightarrow> int \<Rightarrow> socket_client \<Rightarrow> socket_client" where
  "emitCursorUpdate session user path line column =
     emit_event ''cursor_update'' (JObj [(''session_id'', JStr session), (''user_id'', JStr user),
       (''file_path'', JStr path), (''position'', JObj [(''line'', JNum line), (''column'', JNum column)])])"

definition emitFileChange :: "ident \<Rightarrow> string \<Rightarrow> string \<Rightarrow> ident \<Rightarrow> socket_client \<Rightarrow> socket_client" where
  "emitFileChange session path change user =
     emit_event ''file_change'' (JObj [(''session_id'', JStr session), (''file_path'', JStr path),
       (''change_type'', JStr change), (''changed_by'', JStr user)])"

definition attachTerminal :: "ident \<Rightarrow> socket_client \<Rightarrow> socket_client" where
  "attachTerminal w = emit_event ''terminal_attach'' (JObj [(''workspace_id'', JStr w)])"

definition detachTerminal :: "ident \<Rightarrow> socket_client \<Rightarrow> socket_client" where
  "detachTerminal w = emit_event ''terminal_detach'' (JObj [(''workspace_id'', JStr w)])"

definition sendTerminalInput :: "ident \<Rightarrow> string \<Rightarrow> socket_client \<Rightarrow> socket_client" where
  "sendTerminalInput w data = emit_event ''terminal_input'' (JObj [(''workspace_id'', JStr w), (''data'', JStr data)])"

definition resizeTerminal :: "ident \<Rightarrow> int \<Rightarrow> int \<Rightarrow> socket_client \<Rightarrow> socket_client" where
  "resizeTerminal w rows cols =
     emit_event ''terminal_resize'' (JObj [(''workspace_id'', JStr w), (''rows'', JNum rows), (''cols'', JNum cols)])"

definition emitApprovalResponse :: "ident \<Rightarrow> ident \<Rightarrow> ident \<Rightarrow> bool \<Rightarrow> bool \<Rightarrow> socket_client \<Rightarrow> socket_client" where
  "emitApprovalResponse session agent approval approved addToAllowlist =
     emit_event ''approval_response'' (JObj [(''session_id'', JStr session), (''agent_id'', JStr agent),
       (''approval_id'', JStr approval), (''approved'', JBool approved), (''added_to_allowlist'', JBool addToAllowlist)])"

definition emitNativeApprovalResponse ::
    "ident \<Rightarrow> ident \<Rightarrow> ident \<Rightarrow> bool \<Rightarrow> bool \<Rightarrow> socket_client \<Rightarrow> socket_client" where
  "emitNativeApprovalResponse session agent approval approved addToAllowlist =
     emit_event ''native_approval_response'' (JObj [(''session_id'', JStr session), (''agent_id'', JStr agent),
       (''approval_id'', JStr approval), (''approved'', JBool approved), (''add_to_allowlist'', JBool addToAllowlist)])"

definition emitAttentionRead :: "ident \<Rightarrow> ident \<Rightarrow> socket_client \<Rightarrow> socket_client" where
  "emitAttentionRead session attention =
     emit_event ''agent_attention_read'' (JObj [(''session_id'', JStr session), (''attention_id'', JStr attention)])"

definition emitAttentionDismiss :: "ident \<Rightarrow> ident \<Rightarrow> ident option \<Rightarrow> socket_client \<Rightarrow> socket_client" where
  "emitAttentionDismiss session attention agent =
     emit_event ''agent_attention_dismiss'' (JObj [(''session_id'', JStr session), (''attention_id'', JStr attention),
       (''agent_id'', if truthy agent then JStr (the agent) else JNull)])"

definition dispose_client :: "socket_client \<Rightarrow> socket_client" where
  "dispose_client c = (disconnect_socket c)\<lparr>sc_listeners := [], sc_activeSession := None, sc_socket := None\<rparr>"

section \<open>What the sockets do\<close>

text \<open>
  The handlers that \<open>setupEventHandlers\<close> leaves on every socket, also on one the client has let go.
  On \<open>connect\<close> the state is updated, then the joins that wait for it are emitted.
\<close>

definition socket_connected :: "nat \<Rightarrow> socket_client \<Rightarrow> socket_client" where
  "socket_connected i c =
     (let c1 = updateConnectionState
           (\<lambda>s. s\<lparr>cs_connected := True, cs_error := None, cs_reconnecting := False, cs_reconnectAttempt := 0\<rparr>)
           (edit_socket i (\<lambda>s. s\<lparr>io_connected := True\<rparr>) c)
      in edit_socket i (\<lambda>s. fold emitJoin (io_onceConnect s) (s\<lparr>io_onceConnect := []\<rparr>)) c1)"

definition socket_disconnected :: "nat \<Rightarrow> string \<Rightarrow> socket_client \<Rightarrow> socket_client" where
  "socket_disconnected i reason c =
     updateConnectionState (\<lambda>s. s\<lparr>cs_connected := False, cs_disconnectReason := Some reason\<rparr>)
       (edit_socket i (\<lambda>s. s\<lparr>io_connected := False\<rparr>) c)"

definition connect_failed :: "string \<Rightarrow> socket_client \<Rightarrow> socket_client" where
  "connect_failed message = updateConnectionState (\<lambda>s. s\<lparr>cs_connected := False, cs_error := Some message\<rparr>)"

definition reconnect_attempted :: "int \<Rightarrow> socket_client \<Rightarrow> socket_client" where
  "reconnect_attempted attempt = updateConnectionState (\<lambda>s. s\<lparr>cs_reconnecting := True, cs_reconnectAttempt := attempt\<rparr>)"

definition reconnected :: "socket_client \<Rightarrow> socket_client" where
  "reconnected c =
     (let c1 = updateConnectionState (\<lambda>s. s\<lparr>cs_reconnecting := False, cs_reconnectAttempt := 0, cs_error := None\<rparr>) c
      in case sc_activeSession c1 of None \<Rightarrow> c1 | Some a \<Rightarrow> joinSession a c1)"

definition reconnect_gave_up :: "socket_client \<Rightarrow> socket_client" where
  "reconnect_gave_up =
     updateConnectionState
       (\<lambda>s. s\<lparr>cs_reconnecting := False, cs_error := Some ''Reconnection failed after maximum attempts.''\<rparr>)"

section \<open>Events\<close>

datatype socket_event =
    ClientConnect
  | ClientDisconnect
  | ClientReconnect
  | Subscribe nat
  | Unsubscribe nat
  | Join active_session
  | Leave ident ident
  | HandlerOn string nat
  | HandlerOff string nat
  | Emit string json
  | Dispose
  | SocketUp nat
  | SocketDown nat string
  | ConnectError string
  | ReconnectAttempt int
  | Reconnected
  | ReconnectFailed

fun socket_step :: "socket_event \<Rightarrow> socket_client \<Rightarrow> socket_client" where
  "socket_step ClientConnect c = connect_socket c"
| "socket_step ClientDisconnect c = disconnect_socket c"
| "socket_step ClientReconnect c = reconnect_socket c"
| "socket_step (Subscribe l) c = onConnectionStateChange l c"
| "socket_step (Unsubscribe l) c = unsubscribe_state l c"
| "socket_step (Join a) c = joinSession a c"
| "socket_step (Leave s u) c = leaveSession s u c"
| "socket_step (HandlerOn e h) c = on_event e h c"
| "socket_step (HandlerOff e h) c = off_event e h c"
| "socket_step (Emit e d) c = emit_event e d c"
| "socket_step Dispose c = dispose_client c"
| "socket_step (SocketUp i) c = socket_connected i c"
| "socket_step (SocketDown i reason) c = socket_disconnected i reason c"
| "socket_step (ConnectError message) c = connect_failed message c"
| "socket_step (ReconnectAttempt n) c = reconnect_attempted n c"
| "socket_step Reconnected c = reconnected c"
| "socket_step ReconnectFailed c = reconnect_gave_up c"

text \<open>Only sockets that were made can do something.\<close>

fun socket_guard :: "socket_event \<Rightarrow> socket_client \<Rightarrow> bool" where
  "socket_guard (SocketUp i) c = (i < length (sc_sockets c))"
| "socket_guard (SocketDown i reason) c = (i < length (sc_sockets c))"
| "socket_guard _ c = True"


section \<open>The invariant\<close>

text \<open>What a listener was told last.\<close>

definition last_told :: "socket_client \<Rightarrow> nat \<Rightarrow> connection_state option" where
  "last_told c l = map_of (rev (sc_notified c)) l"

definition socket_ok :: "socket_client \<Rightarrow> bool" where
  "socket_ok c \<longleftrightarrow> (\<forall>i. sc_socket c = Some i \<longrightarrow> i < length (sc_sockets c)) \<and>
     distinct (sc_listeners c) \<and> (\<forall>l \<in> set (sc_listeners c). last_told c l = Some (sc_state c))"

lemma edit_socket_frame [simp]:
  "sc_socket (edit_socket i f c) = sc_socket c" "sc_state (edit_socket i f c) = sc_state c"
  "sc_listeners (edit_socket i f c) = sc_listeners c" "sc_notified (edit_socket i f c) = sc_notified c"
  "sc_activeSession (edit_socket i f c) = sc_activeSession c"
  "length (sc_sockets (edit_socket i f c)) = length (sc_sockets c)"
  by (simp_all add: edit_socket_def)

lemma edit_socket_same [simp]: "i < length (sc_sockets c) \<Longrightarrow> sc_sockets (edit_socket i f c) ! i = f (sc_sockets c ! i)"
  by (simp add: edit_socket_def)

lemma edit_socket_ok [simp]: "socket_ok (edit_socket i f c) = socket_ok c"
  by (simp add: socket_ok_def last_told_def)

lemma getSocket_ok:
  assumes "socket_ok c"
  shows "socket_ok (fst (getSocket c)) \<and> snd (getSocket c) < length (sc_sockets (fst (getSocket c)))"
  using assms by (auto simp: getSocket_def socket_ok_def last_told_def less_SucI split: option.splits)

lemma active_ok [simp]: "socket_ok (c\<lparr>sc_activeSession := a\<rparr>) = socket_ok c"
  by (simp add: socket_ok_def last_told_def)

lemma update_frame [simp]:
  "sc_sockets (updateConnectionState f c) = sc_sockets c" "sc_socket (updateConnectionState f c) = sc_socket c"
  "sc_state (updateConnectionState f c) = f (sc_state c)" "sc_listeners (updateConnectionState f c) = sc_listeners c"
  "sc_activeSession (updateConnectionState f c) = sc_activeSession c"
  by (simp_all add: updateConnectionState_def notifyConnectionListeners_def)

lemma told_all: "map_of (map (\<lambda>l. (l, s)) ls @ m) l = (if l \<in> set ls then Some s else map_of m l)"
  by (induction ls) auto

lemma update_ok: "socket_ok c \<Longrightarrow> socket_ok (updateConnectionState f c)"
  by (simp add: socket_ok_def last_told_def updateConnectionState_def notifyConnectionListeners_def rev_map told_all
      del: map_of_append)

lemma joinSession_ok: "socket_ok c \<Longrightarrow> socket_ok (joinSession a c)"
  using getSocket_ok [of c] by (auto simp: joinSession_def split: prod.split)

lemma socket_step_ok:
  assumes "socket_ok c" "socket_guard e c"
  shows "socket_ok (socket_step e c)"
proof (cases e)
  case (Subscribe l)
  with assms(1) show ?thesis
    by (auto simp: socket_ok_def last_told_def onConnectionStateChange_def split: option.splits)
next
  case (Unsubscribe l)
  with assms(1) show ?thesis
    by (auto simp: socket_ok_def last_told_def unsubscribe_state_def split: option.splits)
next
  case Dispose
  with assms(1) show ?thesis
    by (simp add: dispose_client_def socket_ok_def)
next
  case Reconnected
  have "socket_ok (updateConnectionState f c)" for f
    using assms(1) by (rule update_ok)
  then show ?thesis
    by (auto simp: Reconnected reconnected_def Let_def joinSession_ok split: option.split)
qed (use assms getSocket_ok [OF assms(1)] in \<open>auto simp: connect_socket_def disconnect_socket_def reconnect_socket_def
      joinSession_ok leaveSession_def emit_event_def on_event_def off_event_def socket_connected_def socket_disconnected_def
      connect_failed_def reconnect_attempted_def reconnect_gave_up_def Let_def update_ok split: option.split prod.split\<close>)

lemma new_socket_client_ok: "socket_ok (new_socket_client b)"
  by (simp add: new_socket_client_def connect_socket_def getSocket_def socket_ok_def Let_def new_io_socket_def edit_socket_def)

interpretation socket_client: machine socket_step socket_guard socket_ok "new_socket_client b" for b
  by unfold_locales (auto intro: new_socket_client_ok socket_step_ok)

section \<open>Properties\<close>

text \<open>
  Whatever the sockets and the callers do, the last state that a subscribed listener was told is
  the current one, and no listener is subscribed twice.
\<close>

theorem listeners_know_the_state:
  assumes "guarded socket_guard socket_step es (new_socket_client b)"
    and "c = fold socket_step es (new_socket_client b)" "l \<in> set (sc_listeners c)"
  shows "last_told c l = Some (sc_state c) \<and> distinct (sc_listeners c)"
  using socket_client.inv_history [OF assms(1)] assms(3) by (auto simp: assms(2) socket_ok_def)

lemma emitJoin_all:
  "io_emitted (fold emitJoin as s) = io_emitted s @ map (\<lambda>a. (io_connected s, ''session_join'', join_data a)) as \<and>
   io_connected (fold emitJoin as s) = io_connected s"
  by (induction as arbitrary: s) (simp_all add: emitJoin_def emit_on_def)

text \<open>
  After a reconnection the active session is joined again: once the socket is up, the last thing
  sent over it is the join of that session.
\<close>

theorem session_rejoined:
  assumes "guarded socket_guard socket_step es (new_socket_client b)" "c = fold socket_step es (new_socket_client b)"
    and "sc_socket c = Some i" "\<not> io_connected (sc_sockets c ! i)" "sc_activeSession c = Some a"
  shows "last (io_emitted (sc_sockets (fold socket_step [Reconnected, SocketUp i] c) ! i)) = (True, ''session_join'', join_data a) \<and>
    sc_activeSession (fold socket_step [Reconnected, SocketUp i] c) = Some a \<and>
    isConnected (fold socket_step [Reconnected, SocketUp i] c)"
proof -
  have i: "i < length (sc_sockets c)"
    using socket_client.inv_history [OF assms(1)] assms(3) by (simp add: assms(2) socket_ok_def)
  then have "sc_sockets (fold socket_step [Reconnected, SocketUp i] c) ! i =
      fold emitJoin (io_onceConnect (sc_sockets c ! i) @ [a]) ((sc_sockets c ! i)\<lparr>io_connected := True, io_onceConnect := []\<rparr>)"
    using assms(3-5) by (simp add: reconnected_def joinSession_def getSocket_def socket_connected_def Let_def)
  then show ?thesis
    using i assms(3-5)
    by (simp add: emitJoin_all reconnected_def joinSession_def getSocket_def socket_connected_def isConnected_def Let_def
        emitJoin_def emit_on_def)
qed

text \<open>
  Leaving a session does not take back a join that waits for the connection: the client joins a
  session it has left, and does not know it.
\<close>

theorem left_session_is_joined:
  assumes "sc_socket c = Some i" "i < length (sc_sockets c)" "\<not> io_connected (sc_sockets c ! i)"
    and "c' = fold socket_step [Join a, Leave (as_sessionId a) (as_userId a), SocketUp i] c"
  shows "last (io_emitted (sc_sockets c' ! i)) = (True, ''session_join'', join_data a) \<and> sc_activeSession c' = None"
  using assms(1-3) unfolding assms(4)
  by (simp add: joinSession_def leaveSession_def emit_event_def getSocket_def socket_connected_def emit_on_def emitJoin_def
      emitJoin_all Let_def)

text \<open>A manual reconnection does not join the active session again.\<close>

lemma manual_reconnect_forgets_session:
  assumes "sc_socket c = Some i" "i < length (sc_sockets c)" "io_onceConnect (sc_sockets c ! i) = []"
    and "c' = fold socket_step [ClientReconnect, SocketDown i r, SocketUp i] c"
  shows "io_emitted (sc_sockets c' ! i) = io_emitted (sc_sockets c ! i) \<and> sc_activeSession c' = sc_activeSession c"
  using assms(1-3) unfolding assms(4)
  by (simp add: reconnect_socket_def socket_disconnected_def socket_connected_def ask_def Let_def)

text \<open>Disposing of a client that is not connected at that moment does not stop its socket.\<close>

lemma disposed_socket_goes_on:
  assumes "sc_socket c = Some i" "\<not> io_connected (sc_sockets c ! i)"
  shows "sc_sockets (dispose_client c) = sc_sockets c \<and> sc_socket (dispose_client c) = None"
  using assms by (simp add: dispose_client_def disconnect_socket_def)

section \<open>Examples\<close>

definition ex_joined :: active_session where
  "ex_joined = \<lparr>as_sessionId = ''s'', as_userId = ''u'', as_authToken = None\<rparr>"

theorem listeners_know_the_state_witness:
  "last_told (fold socket_step [Subscribe 7, SocketUp 0, SocketDown 0 ''transport close''] (new_socket_client True)) 7 =
   Some (sc_state (fold socket_step [Subscribe 7, SocketUp 0, SocketDown 0 ''transport close''] (new_socket_client True)))"
proof -
  let ?es = "[Subscribe 7, SocketUp 0, SocketDown 0 ''transport close'']"
  have "guarded socket_guard socket_step ?es (new_socket_client True)"
    "7 \<in> set (sc_listeners (fold socket_step ?es (new_socket_client True)))"
    by (code_simp, code_simp)
  then show ?thesis
    using listeners_know_the_state [of ?es True _ 7, OF _ refl] by blast
qed

theorem session_rejoined_witness:
  "sc_activeSession (fold socket_step [Reconnected, SocketUp 0]
     (fold socket_step [SocketUp 0, Join ex_joined, SocketDown 0 ''ping timeout''] (new_socket_client True))) = Some ex_joined"
proof -
  let ?es = "[SocketUp 0, Join ex_joined, SocketDown 0 ''ping timeout'']"
  let ?c = "fold socket_step ?es (new_socket_client True)"
  have "guarded socket_guard socket_step ?es (new_socket_client True)" "sc_socket ?c = Some 0"
    "\<not> io_connected (sc_sockets ?c ! 0)" "sc_activeSession ?c = Some ex_joined"
    by (code_simp, code_simp, code_simp, code_simp)
  from session_rejoined [OF this(1) refl this(2,3,4)] show ?thesis by blast
qed

theorem left_session_is_joined_witness:
  "last (io_emitted (sc_sockets (fold socket_step [Join ex_joined, Leave ''s'' ''u'', SocketUp 0] (new_socket_client True)) ! 0)) =
     (True, ''session_join'', join_data ex_joined)"
proof -
  let ?c = "new_socket_client True"
  have "sc_socket ?c = Some 0" "0 < length (sc_sockets ?c)" "\<not> io_connected (sc_sockets ?c ! 0)"
    by (code_simp, code_simp, code_simp)
  from left_session_is_joined [OF this refl, of ex_joined] show ?thesis
    by (simp add: ex_joined_def)
qed

end
