(* ===== verification/Cost_Store.thy ===== *)
theory Cost_Store
  imports Prelude Js_Format Machines
begin

text \<open>
  The cost store (\<open>apps/web/src/stores/cost.ts\<close>): costs per session, budgets and their status,
  budget alerts with the number of unread_alerts ones, usage history. Amounts are doubles. The converters
  of API answers, which parse dates, are not modelled.
\<close>

section \<open>Data\<close>

record model_cost =
  mc_inputTokens :: int
  mc_outputTokens :: int
  mc_cost :: rat

record agent_cost =
  ac_tokens :: int
  ac_cost :: rat

record cost_breakdown =
  cb_totalCost :: rat
  cb_inputCost :: rat
  cb_outputCost :: rat
  cb_cachedInputCost :: rat
  cb_totalTokens :: int
  cb_inputTokens :: int
  cb_outputTokens :: int
  cb_cachedInputTokens :: int
  cb_callCount :: int
  cb_byModel :: "model_cost obj"
  cb_byAgent :: "agent_cost obj"

datatype cost_field =
    TotalCost rat | InputCost rat | OutputCost rat | CachedInputCost rat | TotalTokens int | InputTokens int
  | OutputTokens int | CachedInputTokens int | CallCount int | ByModel "model_cost obj" | ByAgent "agent_cost obj"

fun assign_cost :: "cost_field \<Rightarrow> cost_breakdown \<Rightarrow> cost_breakdown" where
  "assign_cost (TotalCost x) c = c\<lparr>cb_totalCost := x\<rparr>"
| "assign_cost (InputCost x) c = c\<lparr>cb_inputCost := x\<rparr>"
| "assign_cost (OutputCost x) c = c\<lparr>cb_outputCost := x\<rparr>"
| "assign_cost (CachedInputCost x) c = c\<lparr>cb_cachedInputCost := x\<rparr>"
| "assign_cost (TotalTokens x) c = c\<lparr>cb_totalTokens := x\<rparr>"
| "assign_cost (InputTokens x) c = c\<lparr>cb_inputTokens := x\<rparr>"
| "assign_cost (OutputTokens x) c = c\<lparr>cb_outputTokens := x\<rparr>"
| "assign_cost (CachedInputTokens x) c = c\<lparr>cb_cachedInputTokens := x\<rparr>"
| "assign_cost (CallCount x) c = c\<lparr>cb_callCount := x\<rparr>"
| "assign_cost (ByModel x) c = c\<lparr>cb_byModel := x\<rparr>"
| "assign_cost (ByAgent x) c = c\<lparr>cb_byAgent := x\<rparr>"

definition emptyCostBreakdown :: cost_breakdown where
  "emptyCostBreakdown = \<lparr>cb_totalCost = 0, cb_inputCost = 0, cb_outputCost = 0, cb_cachedInputCost = 0,
     cb_totalTokens = 0, cb_inputTokens = 0, cb_outputTokens = 0, cb_cachedInputTokens = 0, cb_callCount = 0,
     cb_byModel = [], cb_byAgent = []\<rparr>"

datatype budget_period = SessionPeriod | Daily | Weekly | Monthly

record budget =
  bu_id :: ident
  bu_userId :: ident
  bu_sessionId :: "ident option"
  bu_amount :: rat
  bu_period :: budget_period
  bu_warningThreshold :: rat
  bu_hardLimit :: bool
  bu_createdAt :: int
  bu_expiresAt :: "int option"

record budget_status =
  bs_budget :: budget
  bs_spent :: rat
  bs_remaining :: rat
  bs_percentageUsed :: rat
  bs_periodStart :: "int option"

datatype alert_type = ThresholdWarning | BudgetExceeded | DailyLimit | UnusualSpike | SessionLimit

datatype alert_severity = SeverityInfo | SeverityWarning | SeverityCritical

record budget_alert =
  al_id :: ident
  al_alertType :: alert_type
  al_severity :: alert_severity
  al_message :: string
  al_currentSpent :: rat
  al_budgetAmount :: rat
  al_percentageUsed :: rat
  al_createdAt :: int
  al_acknowledged :: bool

record usage_entry =
  ue_callId :: ident
  ue_model :: string
  ue_inputTokens :: int
  ue_outputTokens :: int
  ue_cachedInputTokens :: int
  ue_cost :: rat
  ue_timestamp :: int
  ue_agentId :: "ident option"

record daily_usage =
  du_date :: string
  du_totalCost :: rat
  du_totalTokens :: int
  du_callCount :: int

record cost_state =
  co_sessionCosts :: "cost_breakdown obj"
  co_currentSessionId :: "ident option"
  co_budgets :: "budget list"
  co_budgetStatuses :: "budget_status list"
  co_alerts :: "budget_alert list"
  co_unreadAlertCount :: int
  co_usageHistory :: "usage_entry list"
  co_dailyUsage :: "daily_usage list"
  co_showBudgetDialog :: bool
  co_showAlertDialog :: bool
  co_selectedAlert :: "budget_alert option"
  co_loading :: bool
  co_error :: "string option"

definition init_cost :: cost_state where
  "init_cost = \<lparr>co_sessionCosts = [], co_currentSessionId = None, co_budgets = [], co_budgetStatuses = [],
     co_alerts = [], co_unreadAlertCount = 0, co_usageHistory = [], co_dailyUsage = [],
     co_showBudgetDialog = False, co_showAlertDialog = False, co_selectedAlert = None,
     co_loading = False, co_error = None\<rparr>"

section \<open>Actions\<close>

definition setSessionCost :: "ident \<Rightarrow> cost_breakdown \<Rightarrow> cost_state \<Rightarrow> cost_state" where
  "setSessionCost i cost s = s\<lparr>co_sessionCosts := AList.update i cost (co_sessionCosts s)\<rparr>"

definition updateSessionCost :: "ident \<Rightarrow> cost_field list \<Rightarrow> cost_state \<Rightarrow> cost_state" where
  "updateSessionCost i update s =
     (let current = coalesce (map_of (co_sessionCosts s) i) emptyCostBreakdown
      in s\<lparr>co_sessionCosts := AList.update i (fold assign_cost update current) (co_sessionCosts s)\<rparr>)"

definition setCostSession :: "ident option \<Rightarrow> cost_state \<Rightarrow> cost_state" where
  "setCostSession i s = s\<lparr>co_currentSessionId := i\<rparr>"

definition setBudgets :: "budget list \<Rightarrow> cost_state \<Rightarrow> cost_state" where
  "setBudgets bs s = s\<lparr>co_budgets := bs\<rparr>"

definition addBudget :: "budget \<Rightarrow> cost_state \<Rightarrow> cost_state" where
  "addBudget b s = s\<lparr>co_budgets := co_budgets s @ [b]\<rparr>"

definition removeBudget :: "ident \<Rightarrow> cost_state \<Rightarrow> cost_state" where
  "removeBudget i s = s\<lparr>co_budgets := filter (\<lambda>b. bu_id b \<noteq> i) (co_budgets s)\<rparr>"

definition setBudgetStatuses :: "budget_status list \<Rightarrow> cost_state \<Rightarrow> cost_state" where
  "setBudgetStatuses xs s = s\<lparr>co_budgetStatuses := xs\<rparr>"

definition setAlerts :: "budget_alert list \<Rightarrow> cost_state \<Rightarrow> cost_state" where
  "setAlerts alerts s =
     s\<lparr>co_alerts := alerts, co_unreadAlertCount := int (length (filter (\<lambda>a. \<not> al_acknowledged a) alerts))\<rparr>"

definition addAlert :: "budget_alert \<Rightarrow> cost_state \<Rightarrow> cost_state" where
  "addAlert a s =
     s\<lparr>co_alerts := a # co_alerts s, co_unreadAlertCount := co_unreadAlertCount s + (if al_acknowledged a then 0 else 1)\<rparr>"

definition acknowledgeAlert :: "ident \<Rightarrow> cost_state \<Rightarrow> cost_state" where
  "acknowledgeAlert i s =
     s\<lparr>co_alerts := map_where (\<lambda>a. al_id a = i) (\<lambda>a. a\<lparr>al_acknowledged := True\<rparr>) (co_alerts s),
       co_unreadAlertCount := max 0 (co_unreadAlertCount s - 1)\<rparr>"

definition setUsageHistory :: "usage_entry list \<Rightarrow> cost_state \<Rightarrow> cost_state" where
  "setUsageHistory h s = s\<lparr>co_usageHistory := h\<rparr>"

definition setDailyUsage :: "daily_usage list \<Rightarrow> cost_state \<Rightarrow> cost_state" where
  "setDailyUsage d s = s\<lparr>co_dailyUsage := d\<rparr>"

definition setShowBudgetDialog :: "bool \<Rightarrow> cost_state \<Rightarrow> cost_state" where
  "setShowBudgetDialog b s = s\<lparr>co_showBudgetDialog := b\<rparr>"

definition setShowAlertDialog :: "bool \<Rightarrow> cost_state \<Rightarrow> cost_state" where
  "setShowAlertDialog b s = s\<lparr>co_showAlertDialog := b\<rparr>"

definition setSelectedAlert :: "budget_alert option \<Rightarrow> cost_state \<Rightarrow> cost_state" where
  "setSelectedAlert a s = s\<lparr>co_selectedAlert := a, co_showAlertDialog := (a \<noteq> None)\<rparr>"

definition setCostLoading :: "bool \<Rightarrow> cost_state \<Rightarrow> cost_state" where
  "setCostLoading b s = s\<lparr>co_loading := b\<rparr>"

definition setCostError :: "string option \<Rightarrow> cost_state \<Rightarrow> cost_state" where
  "setCostError e s = s\<lparr>co_error := e\<rparr>"

definition getCurrentCost :: "cost_state \<Rightarrow> cost_breakdown option" where
  "getCurrentCost s =
     (if truthy (co_currentSessionId s) then map_of (co_sessionCosts s) (the (co_currentSessionId s)) else None)"

text \<open>The budget of the session, else the first one that is not bound to a session.\<close>

definition getActiveBudgetStatus :: "cost_state \<Rightarrow> budget_status option" where
  "getActiveBudgetStatus s =
     (if \<not> truthy (co_currentSessionId s) then None
      else (case find (\<lambda>x. bu_sessionId (bs_budget x) = co_currentSessionId s) (co_budgetStatuses s) of
              Some x \<Rightarrow> Some x
            | None \<Rightarrow> find (\<lambda>x. \<not> truthy (bu_sessionId (bs_budget x))) (co_budgetStatuses s)))"

section \<open>Formatting\<close>

text \<open>\<open>toFixed\<close> of a number that may be negative.\<close>

definition to_fixed_signed :: "nat \<Rightarrow> rat \<Rightarrow> string" where
  "to_fixed_signed d x = (if x < 0 then CHR ''-'' # to_fixed d (- x) else to_fixed d x)"

definition formatCost :: "rat option \<Rightarrow> string" where
  "formatCost cost =
     (case cost of
        None \<Rightarrow> ''$0.00''
      | Some c \<Rightarrow>
          if c = 0 then ''$0.00''
          else if c < to_double (1 / 100) then ''$'' @ to_fixed_signed 1 c
          else ''$'' @ to_fixed 2 c)"

definition formatTokens :: "int option \<Rightarrow> string" where
  "formatTokens tokens =
     (case tokens of
        None \<Rightarrow> ''0''
      | Some n \<Rightarrow>
          if 1000000 \<le> n then to_fixed 1 (to_double (of_int n / 1000000)) @ ''M''
          else if 1000 \<le> n then to_fixed 1 (to_double (of_int n / 1000)) @ ''K''
          else show_int n)"

definition getAlertColor :: "budget_alert \<Rightarrow> string" where
  "getAlertColor a =
     (case al_severity a of
        SeverityCritical \<Rightarrow> ''text-red-500''
      | SeverityWarning \<Rightarrow> ''text-yellow-500''
      | SeverityInfo \<Rightarrow> ''text-blue-500'')"

definition getAlertIcon :: "budget_alert \<Rightarrow> string" where
  "getAlertIcon a =
     (case al_alertType a of
        BudgetExceeded \<Rightarrow> ''AlertOctagon''
      | ThresholdWarning \<Rightarrow> ''AlertTriangle''
      | UnusualSpike \<Rightarrow> ''TrendingUp''
      | _ \<Rightarrow> ''Bell'')"

section \<open>Events\<close>

datatype cost_event =
    SetSessionCost ident cost_breakdown
  | UpdateSessionCost ident "cost_field list"
  | SetCostSession "ident option"
  | SetBudgets "budget list"
  | AddBudget budget
  | RemoveBudget ident
  | SetBudgetStatuses "budget_status list"
  | SetAlerts "budget_alert list"
  | AddAlert budget_alert
  | AcknowledgeAlert ident
  | SetUsageHistory "usage_entry list"
  | SetDailyUsage "daily_usage list"
  | ShowBudgetDialog bool
  | ShowAlertDialog bool
  | SelectAlert "budget_alert option"
  | SetCostLoading bool
  | SetCostError "string option"

fun cost_step :: "cost_event \<Rightarrow> cost_state \<Rightarrow> cost_state" where
  "cost_step (SetSessionCost i c) s = setSessionCost i c s"
| "cost_step (UpdateSessionCost i u) s = updateSessionCost i u s"
| "cost_step (SetCostSession i) s = setCostSession i s"
| "cost_step (SetBudgets b) s = setBudgets b s"
| "cost_step (AddBudget b) s = addBudget b s"
| "cost_step (RemoveBudget i) s = removeBudget i s"
| "cost_step (SetBudgetStatuses x) s = setBudgetStatuses x s"
| "cost_step (SetAlerts a) s = setAlerts a s"
| "cost_step (AddAlert a) s = addAlert a s"
| "cost_step (AcknowledgeAlert i) s = acknowledgeAlert i s"
| "cost_step (SetUsageHistory h) s = setUsageHistory h s"
| "cost_step (SetDailyUsage d) s = setDailyUsage d s"
| "cost_step (ShowBudgetDialog b) s = setShowBudgetDialog b s"
| "cost_step (ShowAlertDialog b) s = setShowAlertDialog b s"
| "cost_step (SelectAlert a) s = setSelectedAlert a s"
| "cost_step (SetCostLoading b) s = setCostLoading b s"
| "cost_step (SetCostError e) s = setCostError e s"

text \<open>
  Alert ids come from the server and are fresh; a guarded caller acknowledges an alert that is
  listed and not acknowledged yet.
\<close>

definition unread_alerts :: "cost_state \<Rightarrow> budget_alert list" where
  "unread_alerts s = filter (\<lambda>a. \<not> al_acknowledged a) (co_alerts s)"

fun cost_guard :: "cost_event \<Rightarrow> cost_state \<Rightarrow> bool" where
  "cost_guard (SetAlerts as) s = distinct (map al_id as)"
| "cost_guard (AddAlert a) s = (al_id a \<notin> al_id ` set (co_alerts s))"
| "cost_guard (AcknowledgeAlert i) s = (i \<in> al_id ` set (unread_alerts s))"
| "cost_guard _ s = True"

definition cost_ok :: "cost_state \<Rightarrow> bool" where
  "cost_ok s \<longleftrightarrow> distinct (map al_id (co_alerts s)) \<and> co_unreadAlertCount s = int (length (unread_alerts s))"

lemmas cost_defs = setSessionCost_def updateSessionCost_def setCostSession_def setBudgets_def addBudget_def
  removeBudget_def setBudgetStatuses_def setUsageHistory_def setDailyUsage_def setShowBudgetDialog_def
  setShowAlertDialog_def setSelectedAlert_def setCostLoading_def setCostError_def

lemma filter_one_less:
  "distinct (map k xs) \<Longrightarrow> x \<in> set xs \<Longrightarrow> P x \<Longrightarrow> \<not> P (f x) \<Longrightarrow>
   length (filter P (map_where (\<lambda>y. k y = k x) f xs)) + 1 = length (filter P xs)"
proof (induction xs)
  case (Cons y ys)
  show ?case
  proof (cases "y = x")
    case True
    with Cons.prems(1) have "\<forall>z \<in> set ys. k z \<noteq> k x" by (metis distinct.simps(2) imageI list.map(2) list.set_map)
    then have "map_where (\<lambda>y. k y = k x) f ys = ys" by (rule map_where_id)
    with True Cons.prems(3,4) show ?thesis by simp
  next
    case False
    with Cons.prems have "k y \<noteq> k x" "x \<in> set ys" by auto
    with Cons show ?thesis by simp
  qed
qed simp

lemma cost_step_ok: "cost_ok s \<Longrightarrow> cost_guard e s \<Longrightarrow> cost_ok (cost_step e s)"
proof (cases e)
  case (AcknowledgeAlert i)
  assume "cost_ok s" "cost_guard e s"
  then obtain a where a: "a \<in> set (co_alerts s)" "\<not> al_acknowledged a" "al_id a = i"
      and ok: "distinct (map al_id (co_alerts s))" "co_unreadAlertCount s = int (length (unread_alerts s))"
    by (auto simp: AcknowledgeAlert unread_alerts_def cost_ok_def)
  have "length (filter (\<lambda>a. \<not> al_acknowledged a)
      (map_where (\<lambda>b. al_id b = i) (\<lambda>a. a\<lparr>al_acknowledged := True\<rparr>) (co_alerts s))) + 1 = length (unread_alerts s)"
    using filter_one_less [OF ok(1) a(1), of "\<lambda>a. \<not> al_acknowledged a" "\<lambda>a. a\<lparr>al_acknowledged := True\<rparr>"] a(2,3)
    by (simp add: unread_alerts_def)
  with ok show ?thesis
    by (simp add: AcknowledgeAlert cost_ok_def acknowledgeAlert_def map_where_key) (simp add: unread_alerts_def)
qed (auto simp: cost_ok_def unread_alerts_def cost_defs setAlerts_def addAlert_def Let_def)

interpretation cost: machine cost_step cost_guard cost_ok init_cost
  by unfold_locales (simp_all add: cost_step_ok, simp add: cost_ok_def init_cost_def unread_alerts_def)

section \<open>Properties\<close>

text \<open>
  As long as only listed, unacknowledged alerts are acknowledged, the unread_alerts counter is the number
  of unacknowledged alerts.
\<close>

theorem alert_counter_coherent:
  assumes "guarded cost_guard cost_step es init_cost" "s = fold cost_step es init_cost"
  shows "co_unreadAlertCount s = int (length (filter (\<lambda>a. \<not> al_acknowledged a) (co_alerts s)))"
  using cost.inv_history [OF assms(1)] by (simp add: assms(2) cost_ok_def unread_alerts_def)

text \<open>
  Acknowledging an alert again takes another one off the counter: with two alerts, of which one is
  acknowledged twice, nothing seems unread_alerts.
\<close>

lemma acknowledged_twice:
  assumes "al_id a \<noteq> al_id b" "\<not> al_acknowledged a" "\<not> al_acknowledged b"
    and "s = fold cost_step [SetAlerts [a, b], AcknowledgeAlert (al_id a), AcknowledgeAlert (al_id a)] init_cost"
  shows "co_unreadAlertCount s = 0 \<and> unread_alerts s = [b]"
  using assms(1-3) unfolding assms(4) by (simp add: setAlerts_def acknowledgeAlert_def unread_alerts_def)

text \<open>The budget of the current session takes precedence over those of the user.\<close>

lemma session_budget_first:
  assumes "co_currentSessionId s = Some i" "i \<noteq> []" "x \<in> set (co_budgetStatuses s)" "bu_sessionId (bs_budget x) = Some i"
  shows "\<exists>y. getActiveBudgetStatus s = Some y \<and> bu_sessionId (bs_budget y) = Some i"
  using assms by (auto simp: getActiveBudgetStatus_def find_Some_iff find_None_iff split: option.split)

text \<open>A positive cost below a cent is shown as if it were nothing.\<close>

lemma small_cost_invisible:
  assumes "0 < c" "c < to_double (1 / 100)" "c < 1 / 20"
  shows "formatCost (Some c) = ''$0.0''"
proof -
  have "\<lfloor>c * 10 + 1 / 2\<rfloor> = 0"
    using assms(1,3) by (simp add: floor_eq_iff)
  moreover have "show_nat 0 = ''0''"
    by code_simp
  ultimately show ?thesis
    using assms by (simp add: formatCost_def to_fixed_signed_def to_fixed_def pad_zeros_def)
qed

section \<open>Examples\<close>

definition ex_alert :: "ident \<Rightarrow> budget_alert" where
  "ex_alert i = \<lparr>al_id = i, al_alertType = DailyLimit, al_severity = SeverityInfo, al_message = ''daily limit'',
     al_currentSpent = 9, al_budgetAmount = 10, al_percentageUsed = 90, al_createdAt = 0, al_acknowledged = False\<rparr>"

theorem alert_counter_coherent_witness:
  "co_unreadAlertCount (fold cost_step [AddAlert (ex_alert ''a''), AddAlert (ex_alert ''b''), AcknowledgeAlert ''a''] init_cost) =
     int (length (unread_alerts (fold cost_step [AddAlert (ex_alert ''a''), AddAlert (ex_alert ''b''), AcknowledgeAlert ''a''] init_cost)))"
  unfolding unread_alerts_def
  by (rule alert_counter_coherent [OF _ refl])
    (simp add: unread_alerts_def addAlert_def init_cost_def ex_alert_def)

end
