(* ===== verification/Planning_Store.thy ===== *)
theory Planning_Store
  imports Prelude Js_Text Machines
begin

text \<open>
  The planning store (\<open>apps/web/src/stores/planning.ts\<close>): generated plans per session and the
  selected one, comparison, background tasks and settings. The converters of API answers, which
  parse dates, are not modelled.
\<close>

section \<open>Data\<close>

datatype plan_status = PlanPending | PlanGenerating | PlanCompleted | PlanFailed | PlanSelected | PlanRejected

datatype complexity = LowComplexity | MediumComplexity | HighComplexity

record plan_step =
  st_index :: int
  st_title :: string
  st_description :: string
  st_estimatedComplexity :: complexity
  st_filesAffected :: "string list"
  st_dependencies :: "int list"

record generated_plan =
  gp_id :: ident
  gp_sessionId :: ident
  gp_agentId :: ident
  gp_taskDescription :: string
  gp_approachName :: string
  gp_approachSummary :: string
  gp_steps :: "plan_step list"
  gp_modelUsed :: string
  gp_status :: plan_status
  gp_totalEstimatedComplexity :: complexity
  gp_pros :: "string list"
  gp_cons :: "string list"
  gp_createdAt :: int
  gp_generationTimeMs :: int
  gp_error :: "string option"

datatype plan_field =
    PlanTask string | PlanApproach string | PlanSummary string | PlanSteps "plan_step list" | PlanModel string
  | PlanStatusIs plan_status | PlanComplexity complexity | PlanPros "string list" | PlanCons "string list"
  | PlanTime int | PlanErrorIs "string option"

fun assign_plan :: "plan_field \<Rightarrow> generated_plan \<Rightarrow> generated_plan" where
  "assign_plan (PlanTask x) p = p\<lparr>gp_taskDescription := x\<rparr>"
| "assign_plan (PlanApproach x) p = p\<lparr>gp_approachName := x\<rparr>"
| "assign_plan (PlanSummary x) p = p\<lparr>gp_approachSummary := x\<rparr>"
| "assign_plan (PlanSteps x) p = p\<lparr>gp_steps := x\<rparr>"
| "assign_plan (PlanModel x) p = p\<lparr>gp_modelUsed := x\<rparr>"
| "assign_plan (PlanStatusIs x) p = p\<lparr>gp_status := x\<rparr>"
| "assign_plan (PlanComplexity x) p = p\<lparr>gp_totalEstimatedComplexity := x\<rparr>"
| "assign_plan (PlanPros x) p = p\<lparr>gp_pros := x\<rparr>"
| "assign_plan (PlanCons x) p = p\<lparr>gp_cons := x\<rparr>"
| "assign_plan (PlanTime x) p = p\<lparr>gp_generationTimeMs := x\<rparr>"
| "assign_plan (PlanErrorIs x) p = p\<lparr>gp_error := x\<rparr>"

record plan_comparison =
  pm_planIds :: "ident list"
  pm_complexityScores :: "int obj"
  pm_stepCounts :: "int obj"
  pm_filesTouched :: "int obj"
  pm_sharedFiles :: "string list"
  pm_uniqueApproaches :: "string list obj"
  pm_recommendations :: "string list"

datatype plan_task_status = TaskQueued | TaskRunning | TaskCompleted | TaskCancelled | TaskFailed

record background_task =
  bt_id :: ident
  bt_sessionId :: ident
  bt_agentId :: ident
  bt_taskDescription :: string
  bt_numPlans :: int
  bt_models :: "string list"
  bt_status :: plan_task_status
  bt_planIds :: "ident list"
  bt_createdAt :: int
  bt_startedAt :: "int option"
  bt_completedAt :: "int option"
  bt_error :: "string option"

datatype bg_task_field =
    BtStatus plan_task_status | BtPlanIds "ident list" | BtStartedAt "int option" | BtCompletedAt "int option"
  | BtError "string option"

fun assign_bg_task :: "bg_task_field \<Rightarrow> background_task \<Rightarrow> background_task" where
  "assign_bg_task (BtStatus x) t = t\<lparr>bt_status := x\<rparr>"
| "assign_bg_task (BtPlanIds x) t = t\<lparr>bt_planIds := x\<rparr>"
| "assign_bg_task (BtStartedAt x) t = t\<lparr>bt_startedAt := x\<rparr>"
| "assign_bg_task (BtCompletedAt x) t = t\<lparr>bt_completedAt := x\<rparr>"
| "assign_bg_task (BtError x) t = t\<lparr>bt_error := x\<rparr>"

record planning_settings =
  ps_planningModel :: string
  ps_executionModel :: string
  ps_parallelPlans :: int
  ps_backgroundPlanning :: bool
  ps_autoSelectSimplest :: bool

datatype planning_settings_field =
    PlanningModel string | ExecutionModel string | ParallelPlans int | BackgroundPlanning bool | AutoSelectSimplest bool

fun assign_planning_settings :: "planning_settings_field \<Rightarrow> planning_settings \<Rightarrow> planning_settings" where
  "assign_planning_settings (PlanningModel x) s = s\<lparr>ps_planningModel := x\<rparr>"
| "assign_planning_settings (ExecutionModel x) s = s\<lparr>ps_executionModel := x\<rparr>"
| "assign_planning_settings (ParallelPlans x) s = s\<lparr>ps_parallelPlans := x\<rparr>"
| "assign_planning_settings (BackgroundPlanning x) s = s\<lparr>ps_backgroundPlanning := x\<rparr>"
| "assign_planning_settings (AutoSelectSimplest x) s = s\<lparr>ps_autoSelectSimplest := x\<rparr>"

record planning_state =
  pn_plansBySession :: "generated_plan list obj"
  pn_selectedPlanId :: "ident option obj"
  pn_backgroundTasks :: "background_task list"
  pn_comparison :: "plan_comparison option"
  pn_isGenerating :: bool
  pn_showComparisonView :: bool
  pn_comparisonPlanIds :: "ident list"
  pn_settings :: planning_settings

definition init_planning :: planning_state where
  "init_planning = \<lparr>pn_plansBySession = [], pn_selectedPlanId = [], pn_backgroundTasks = [], pn_comparison = None,
     pn_isGenerating = False, pn_showComparisonView = False, pn_comparisonPlanIds = [],
     pn_settings = \<lparr>ps_planningModel = ''claude-opus-4.5'', ps_executionModel = ''claude-sonnet-4.5'',
       ps_parallelPlans = 3, ps_backgroundPlanning = True, ps_autoSelectSimplest = False\<rparr>\<rparr>"

section \<open>Actions\<close>

definition setPlans :: "ident \<Rightarrow> generated_plan list \<Rightarrow> planning_state \<Rightarrow> planning_state" where
  "setPlans i plans s = s\<lparr>pn_plansBySession := AList.update i plans (pn_plansBySession s)\<rparr>"

definition addPlan :: "generated_plan \<Rightarrow> planning_state \<Rightarrow> planning_state" where
  "addPlan p s =
     s\<lparr>pn_plansBySession :=
         AList.update (gp_sessionId p) (bucket (pn_plansBySession s) (gp_sessionId p) @ [p]) (pn_plansBySession s)\<rparr>"

text \<open>Every session's list is mapped.\<close>

definition updatePlan :: "ident \<Rightarrow> plan_field list \<Rightarrow> planning_state \<Rightarrow> planning_state" where
  "updatePlan i updates s =
     s\<lparr>pn_plansBySession :=
         map (\<lambda>(k, ps). (k, map_where (\<lambda>p. gp_id p = i) (fold assign_plan updates) ps)) (pn_plansBySession s)\<rparr>"

definition reviewed_plan :: "ident \<Rightarrow> generated_plan \<Rightarrow> generated_plan" where
  "reviewed_plan i p =
     p\<lparr>gp_status := (if gp_id p = i then PlanSelected
         else if gp_status p = PlanCompleted then PlanRejected else gp_status p)\<rparr>"

definition selectPlan :: "ident \<Rightarrow> ident \<Rightarrow> planning_state \<Rightarrow> planning_state" where
  "selectPlan i planId s =
     s\<lparr>pn_selectedPlanId := AList.update i (Some planId) (pn_selectedPlanId s),
       pn_plansBySession := AList.update i (map (reviewed_plan planId) (bucket (pn_plansBySession s) i)) (pn_plansBySession s)\<rparr>"

definition setIsGenerating :: "bool \<Rightarrow> planning_state \<Rightarrow> planning_state" where
  "setIsGenerating b s = s\<lparr>pn_isGenerating := b\<rparr>"

definition setComparison :: "plan_comparison option \<Rightarrow> planning_state \<Rightarrow> planning_state" where
  "setComparison c s = s\<lparr>pn_comparison := c\<rparr>"

definition setShowComparisonView :: "bool \<Rightarrow> planning_state \<Rightarrow> planning_state" where
  "setShowComparisonView b s = s\<lparr>pn_showComparisonView := b\<rparr>"

definition setComparisonPlanIds :: "ident list \<Rightarrow> planning_state \<Rightarrow> planning_state" where
  "setComparisonPlanIds is s = s\<lparr>pn_comparisonPlanIds := is\<rparr>"

definition addBackgroundTask :: "background_task \<Rightarrow> planning_state \<Rightarrow> planning_state" where
  "addBackgroundTask t s = s\<lparr>pn_backgroundTasks := pn_backgroundTasks s @ [t]\<rparr>"

definition updateBackgroundTask :: "ident \<Rightarrow> bg_task_field list \<Rightarrow> planning_state \<Rightarrow> planning_state" where
  "updateBackgroundTask i updates s =
     s\<lparr>pn_backgroundTasks := map_where (\<lambda>t. bt_id t = i) (fold assign_bg_task updates) (pn_backgroundTasks s)\<rparr>"

definition updatePlanningSettings :: "planning_settings_field list \<Rightarrow> planning_state \<Rightarrow> planning_state" where
  "updatePlanningSettings updates s = s\<lparr>pn_settings := fold assign_planning_settings updates (pn_settings s)\<rparr>"

definition getSessionPlans :: "ident \<Rightarrow> planning_state \<Rightarrow> generated_plan list" where
  "getSessionPlans i s = bucket (pn_plansBySession s) i"

definition getSelectedPlan :: "ident \<Rightarrow> planning_state \<Rightarrow> generated_plan option" where
  "getSelectedPlan i s =
     (case map_of (pn_selectedPlanId s) i of
        Some (Some planId) \<Rightarrow>
          (if planId = [] then None else find (\<lambda>p. gp_id p = planId) (bucket (pn_plansBySession s) i))
      | _ \<Rightarrow> None)"

definition getPendingPlanTasks :: "ident \<Rightarrow> planning_state \<Rightarrow> background_task list" where
  "getPendingPlanTasks i s =
     filter (\<lambda>t. bt_sessionId t = i \<and> (bt_status t = TaskQueued \<or> bt_status t = TaskRunning)) (pn_backgroundTasks s)"

section \<open>Properties\<close>

text \<open>
  Selecting a listed plan makes it the selected plan of its session, and no plan of the session is
  left completed: the others are rejected, unless they were not finished or selected before.
\<close>

lemma selected_plan_found:
  assumes "p \<in> set (getSessionPlans i s)" "gp_id p = j" "j \<noteq> []"
  shows "\<exists>q. getSelectedPlan i (selectPlan i j s) = Some q \<and> gp_id q = j \<and> gp_status q = PlanSelected \<and>
    (\<forall>r \<in> set (getSessionPlans i (selectPlan i j s)). gp_status r \<noteq> PlanCompleted)"
proof -
  have "find (\<lambda>p. gp_id p = j) (map (reviewed_plan j) ps) = map_option (reviewed_plan j) (find (\<lambda>p. gp_id p = j) ps)" for ps
    by (induction ps) (simp_all add: reviewed_plan_def)
  moreover obtain q where "find (\<lambda>p. gp_id p = j) (bucket (pn_plansBySession s) i) = Some q" "gp_id q = j"
    using assms(1,2) by (cases "find (\<lambda>p. gp_id p = j) (bucket (pn_plansBySession s) i)")
      (auto simp: getSessionPlans_def find_None_iff find_Some_iff)
  ultimately show ?thesis
    using assms(3) by (auto simp: getSelectedPlan_def selectPlan_def getSessionPlans_def reviewed_plan_def)
qed

text \<open>Choosing another plan leaves the one chosen before with the status selected as well.\<close>

lemma earlier_choice_stays_selected:
  assumes "gp_id p \<noteq> gp_id q" "getSessionPlans i s = [p, q]"
  shows "map gp_status (getSessionPlans i (selectPlan i (gp_id q) (selectPlan i (gp_id p) s))) = [PlanSelected, PlanSelected]"
  using assms by (simp add: getSessionPlans_def selectPlan_def reviewed_plan_def)

end
