(* ===== verification/Agent_Runs.thy ===== *)
theory Agent_Runs
  imports Prelude Js_Text Machines
begin

text \<open>
  What agents start: the subagents store (\<open>apps/web/src/stores/subagents.ts\<close>) and the skills store
  (\<open>apps/web/src/stores/skills.ts\<close>) with the executions of skills and their steps. Times are
  arguments.
\<close>

section \<open>Subagents\<close>

datatype run_status = RunPending | RunRunning | RunCompleted | RunFailed | RunCancelled

record subagent =
  sb_id :: ident
  sb_parentAgentId :: ident
  sb_sessionId :: ident
  sb_name :: string
  sb_type :: string
  sb_task :: string
  sb_status :: run_status
  sb_background :: bool
  sb_createdAt :: int
  sb_completedAt :: "int option"
  sb_resultSummary :: "string option"
  sb_error :: "string option"
  sb_contextTokens :: int

datatype subagent_field =
    SbName string | SbType string | SbTask string | SbStatus run_status | SbBackground bool
  | SbCompletedAt "int option" | SbResultSummary "string option" | SbError "string option" | SbContextTokens int

fun assign_subagent :: "subagent_field \<Rightarrow> subagent \<Rightarrow> subagent" where
  "assign_subagent (SbName x) a = a\<lparr>sb_name := x\<rparr>"
| "assign_subagent (SbType x) a = a\<lparr>sb_type := x\<rparr>"
| "assign_subagent (SbTask x) a = a\<lparr>sb_task := x\<rparr>"
| "assign_subagent (SbStatus x) a = a\<lparr>sb_status := x\<rparr>"
| "assign_subagent (SbBackground x) a = a\<lparr>sb_background := x\<rparr>"
| "assign_subagent (SbCompletedAt x) a = a\<lparr>sb_completedAt := x\<rparr>"
| "assign_subagent (SbResultSummary x) a = a\<lparr>sb_resultSummary := x\<rparr>"
| "assign_subagent (SbError x) a = a\<lparr>sb_error := x\<rparr>"
| "assign_subagent (SbContextTokens x) a = a\<lparr>sb_contextTokens := x\<rparr>"

record subagents_state =
  su_byAgent :: "subagent list obj"
  su_expandedSubagentId :: "ident option"
  su_loadingAgents :: "ident list"

definition init_subagents :: subagents_state where
  "init_subagents = \<lparr>su_byAgent = [], su_expandedSubagentId = None, su_loadingAgents = []\<rparr>"

definition setSubagents :: "ident \<Rightarrow> subagent list \<Rightarrow> subagents_state \<Rightarrow> subagents_state" where
  "setSubagents agentId xs s =
     s\<lparr>su_byAgent := AList.update agentId (sort_key (\<lambda>a. - sb_createdAt a) xs) (su_byAgent s)\<rparr>"

definition addSubagent :: "ident \<Rightarrow> subagent \<Rightarrow> subagents_state \<Rightarrow> subagents_state" where
  "addSubagent agentId a s = s\<lparr>su_byAgent := AList.update agentId (a # bucket (su_byAgent s) agentId) (su_byAgent s)\<rparr>"

text \<open>The first agent, in the order of the entries, whose list has the subagent.\<close>

definition has_subagent :: "ident \<Rightarrow> subagent list \<Rightarrow> bool" where
  "has_subagent i xs \<longleftrightarrow> findIndex (\<lambda>a. sb_id a = i) xs \<noteq> -1"

definition updateSubagent :: "ident \<Rightarrow> subagent_field list \<Rightarrow> subagents_state \<Rightarrow> subagents_state" where
  "updateSubagent i updates s =
     (case find (\<lambda>(k, xs). has_subagent i xs) (own_entries (su_byAgent s)) of
        None \<Rightarrow> s
      | Some (k, xs) \<Rightarrow>
          (let idx = nat (findIndex (\<lambda>a. sb_id a = i) xs)
           in s\<lparr>su_byAgent := AList.update k
                  (take idx xs @ fold assign_subagent updates (xs ! idx) # drop (Suc idx) xs) (su_byAgent s)\<rparr>))"

definition removeSubagent :: "ident \<Rightarrow> ident \<Rightarrow> subagents_state \<Rightarrow> subagents_state" where
  "removeSubagent agentId i s =
     s\<lparr>su_byAgent := AList.update agentId (filter (\<lambda>a. sb_id a \<noteq> i) (bucket (su_byAgent s) agentId)) (su_byAgent s)\<rparr>"

definition setExpandedSubagent :: "ident option \<Rightarrow> subagents_state \<Rightarrow> subagents_state" where
  "setExpandedSubagent i s = s\<lparr>su_expandedSubagentId := i\<rparr>"

definition setSubagentsLoading :: "ident \<Rightarrow> bool \<Rightarrow> subagents_state \<Rightarrow> subagents_state" where
  "setSubagentsLoading agentId loading s =
     s\<lparr>su_loadingAgents :=
         (if loading then (if agentId \<in> set (su_loadingAgents s) then su_loadingAgents s else su_loadingAgents s @ [agentId])
          else filter (\<lambda>a. a \<noteq> agentId) (su_loadingAgents s))\<rparr>"

definition getSubagents :: "ident \<Rightarrow> subagents_state \<Rightarrow> subagent list" where
  "getSubagents agentId s = bucket (su_byAgent s) agentId"

definition getActiveSubagents :: "ident \<Rightarrow> subagents_state \<Rightarrow> subagent list" where
  "getActiveSubagents agentId s =
     filter (\<lambda>a. sb_status a = RunPending \<or> sb_status a = RunRunning) (bucket (su_byAgent s) agentId)"

definition getSubagent :: "ident \<Rightarrow> subagents_state \<Rightarrow> subagent option" where
  "getSubagent i s = find (\<lambda>a. sb_id a = i) (concat (own_values (su_byAgent s)))"

section \<open>Skills\<close>

record skill_step =
  sk_name :: string
  sk_description :: string
  sk_tool :: "string option"
  sk_skill :: "string option"
  sk_parameters :: "json obj"
  sk_condition :: "string option"
  sk_onSuccess :: "string option"
  sk_onFailure :: "string option"
  sk_parallelWith :: "string list option"
  sk_required :: bool

datatype skill_type = SystemSkill | UserSkill

record skill =
  sl_id :: ident
  sl_name :: string
  sl_slug :: string
  sl_description :: string
  sl_version :: string
  sl_author :: string
  sl_skillType :: skill_type
  sl_tags :: "string list"
  sl_triggers :: "string list"
  sl_requiredTools :: "string list"
  sl_requiredContext :: "string list"
  sl_steps :: "skill_step list"
  sl_systemPrompt :: "string option"
  sl_examples :: "(string \<times> string) list option"
  sl_metadata :: "(string option \<times> int option \<times> bool option) option"
  sl_isActive :: bool
  sl_isDefault :: bool

datatype step_outcome = StepSuccess | StepFailure | StepSkipped | StepErrored | StepInProgress

record step_result =
  sr_step :: string
  sr_status :: step_outcome
  sr_tool :: "string option"
  sr_skill :: "string option"
  sr_result :: "json option"
  sr_error :: "string option"

record skill_execution =
  se_id :: ident
  se_skillSlug :: string
  se_skillName :: string
  se_sessionId :: ident
  se_agentId :: ident
  se_status :: run_status
  se_currentStepIndex :: int
  se_currentStepName :: string
  se_totalSteps :: int
  se_stepsCompleted :: int
  se_startedAt :: int
  se_completedAt :: "int option"
  se_durationMs :: "int option"
  se_error :: "string option"
  se_results :: "step_result list"

record skills_state =
  sx_skills :: "skill list"
  sx_skillsLoading :: bool
  sx_skillsError :: "string option"
  sx_executions :: "skill_execution list obj"
  sx_expandedExecutionId :: "ident option"
  sx_tagFilter :: "string option"
  sx_typeFilter :: "skill_type option"
  sx_searchQuery :: string

definition init_skills :: skills_state where
  "init_skills = \<lparr>sx_skills = [], sx_skillsLoading = False, sx_skillsError = None, sx_executions = [],
     sx_expandedExecutionId = None, sx_tagFilter = None, sx_typeFilter = None, sx_searchQuery = []\<rparr>"

definition setSkills :: "skill list \<Rightarrow> skills_state \<Rightarrow> skills_state" where
  "setSkills xs s = s\<lparr>sx_skills := xs, sx_skillsError := None\<rparr>"

definition setSkillsLoading :: "bool \<Rightarrow> skills_state \<Rightarrow> skills_state" where
  "setSkillsLoading b s = s\<lparr>sx_skillsLoading := b\<rparr>"

definition setSkillsError :: "string option \<Rightarrow> skills_state \<Rightarrow> skills_state" where
  "setSkillsError e s = s\<lparr>sx_skillsError := e\<rparr>"

definition startExecution :: "skill_execution \<Rightarrow> skills_state \<Rightarrow> skills_state" where
  "startExecution x s =
     s\<lparr>sx_executions := AList.update (se_sessionId x) (x # bucket (sx_executions s) (se_sessionId x)) (sx_executions s)\<rparr>"

text \<open>The first execution with the id is replaced; without one, nothing changes.\<close>

definition edit_execution :: "ident \<Rightarrow> ident \<Rightarrow> (skill_execution \<Rightarrow> skill_execution) \<Rightarrow> skills_state \<Rightarrow> skills_state" where
  "edit_execution sessionId executionId f s =
     (case map_of (sx_executions s) sessionId of
        None \<Rightarrow> s
      | Some xs \<Rightarrow>
          (let idx = findIndex (\<lambda>x. se_id x = executionId) xs
           in if idx = -1 then s
              else s\<lparr>sx_executions := AList.update sessionId
                  (take (nat idx) xs @ f (xs ! nat idx) # drop (Suc (nat idx)) xs) (sx_executions s)\<rparr>))"

definition record_result :: "string \<Rightarrow> step_outcome \<Rightarrow> step_result list \<Rightarrow> step_result list" where
  "record_result stepName status rs =
     (let i = findIndex (\<lambda>r. sr_step r = stepName) rs
      in if i \<noteq> -1 then rs[nat i := (rs ! nat i)\<lparr>sr_status := status\<rparr>]
         else rs @ [\<lparr>sr_step = stepName, sr_status = status, sr_tool = None, sr_skill = None, sr_result = None, sr_error = None\<rparr>])"

definition advance_execution :: "string \<Rightarrow> int \<Rightarrow> step_outcome \<Rightarrow> skill_execution \<Rightarrow> skill_execution" where
  "advance_execution stepName stepIndex status x =
     x\<lparr>se_currentStepIndex := stepIndex, se_currentStepName := stepName,
       se_stepsCompleted := (if status = StepSuccess then max (se_stepsCompleted x) (stepIndex + 1) else se_stepsCompleted x),
       se_results := record_result stepName status (se_results x)\<rparr>"

definition updateExecutionStep :: "ident \<Rightarrow> ident \<Rightarrow> string \<Rightarrow> int \<Rightarrow> step_outcome \<Rightarrow> skills_state \<Rightarrow> skills_state" where
  "updateExecutionStep sessionId executionId stepName stepIndex status =
     edit_execution sessionId executionId (advance_execution stepName stepIndex status)"

definition completeExecution :: "ident \<Rightarrow> ident \<Rightarrow> bool \<Rightarrow> int \<Rightarrow> int \<Rightarrow> skills_state \<Rightarrow> skills_state" where
  "completeExecution sessionId executionId success durationMs now =
     edit_execution sessionId executionId
       (\<lambda>x. x\<lparr>se_status := (if success then RunCompleted else RunFailed), se_completedAt := Some now,
              se_durationMs := Some durationMs\<rparr>)"

definition clearSessionExecutions :: "ident \<Rightarrow> skills_state \<Rightarrow> skills_state" where
  "clearSessionExecutions sessionId s = s\<lparr>sx_executions := AList.delete sessionId (sx_executions s)\<rparr>"

definition setTagFilter :: "string option \<Rightarrow> skills_state \<Rightarrow> skills_state" where
  "setTagFilter t s = s\<lparr>sx_tagFilter := t\<rparr>"

definition setTypeFilter :: "skill_type option \<Rightarrow> skills_state \<Rightarrow> skills_state" where
  "setTypeFilter t s = s\<lparr>sx_typeFilter := t\<rparr>"

definition setSkillQuery :: "string \<Rightarrow> skills_state \<Rightarrow> skills_state" where
  "setSkillQuery q s = s\<lparr>sx_searchQuery := q\<rparr>"

definition setExpandedExecution :: "ident option \<Rightarrow> skills_state \<Rightarrow> skills_state" where
  "setExpandedExecution i s = s\<lparr>sx_expandedExecutionId := i\<rparr>"

definition getSkillBySlug :: "string \<Rightarrow> skills_state \<Rightarrow> skill option" where
  "getSkillBySlug slug s = find (\<lambda>k. sl_slug k = slug) (sx_skills s)"

definition matches_query :: "string \<Rightarrow> skill \<Rightarrow> bool" where
  "matches_query query k \<longleftrightarrow> has_substring (to_lower (sl_name k)) query \<or>
     has_substring (to_lower (sl_description k)) query \<or> (\<exists>t \<in> set (sl_tags k). has_substring (to_lower t) query)"

definition getFilteredSkills :: "skills_state \<Rightarrow> skill list" where
  "getFilteredSkills s =
     (let f1 = (case sx_typeFilter s of None \<Rightarrow> sx_skills s | Some t \<Rightarrow> filter (\<lambda>k. sl_skillType k = t) (sx_skills s));
          f2 = (if truthy (sx_tagFilter s) then filter (\<lambda>k. the (sx_tagFilter s) \<in> set (sl_tags k)) f1 else f1)
      in if sx_searchQuery s \<noteq> [] then filter (matches_query (to_lower (sx_searchQuery s))) f2 else f2)"

definition getActiveExecutions :: "ident \<Rightarrow> skills_state \<Rightarrow> skill_execution list" where
  "getActiveExecutions sessionId s =
     filter (\<lambda>x. se_status x = RunPending \<or> se_status x = RunRunning) (bucket (sx_executions s) sessionId)"

definition getExecution :: "ident \<Rightarrow> ident \<Rightarrow> skills_state \<Rightarrow> skill_execution option" where
  "getExecution sessionId executionId s = find (\<lambda>x. se_id x = executionId) (bucket (sx_executions s) sessionId)"


lemma has_subagent_iff: "has_subagent i xs \<longleftrightarrow> (\<exists>a \<in> set xs. sb_id a = i)"
  using findIndex_bounds [of "\<lambda>a. sb_id a = i" xs] findIndex_neg_iff [of "\<lambda>a. sb_id a = i" xs]
  by (force simp: has_subagent_def)

lemma find_updated_list:
  assumes "distinct (map fst es)" "find (\<lambda>(k, xs). has_subagent i xs) es = Some (k, xs)" "has_subagent i ys"
  shows "find (\<lambda>a. sb_id a = i) (concat (map snd (map (\<lambda>e. if fst e = k then (k, ys) else e) es))) = find (\<lambda>a. sb_id a = i) ys \<and>
    find (\<lambda>a. sb_id a = i) (concat (map snd es)) = find (\<lambda>a. sb_id a = i) xs"
  using assms
proof (induction es)
  case (Cons e es)
  obtain l zs where e: "e = (l, zs)" by (cases e)
  have found: "\<exists>x. find (\<lambda>a. sb_id a = i) ws = Some x" if "has_subagent i ws" for ws
    using that by (cases "find (\<lambda>a. sb_id a = i) ws") (auto simp: has_subagent_iff find_None_iff)
  show ?case
  proof (cases "has_subagent i zs")
    case True
    with Cons.prems e have "l = k" "zs = xs" by auto
    then show ?thesis
      using found [OF Cons.prems(3)] found [OF True] by (auto simp: e find_append)
  next
    case False
    then have none: "find (\<lambda>a. sb_id a = i) zs = None"
      by (auto simp: has_subagent_iff find_None_iff)
    have rest: "find (\<lambda>(k, xs). has_subagent i xs) es = Some (k, xs)"
      using Cons.prems(2) False by (simp add: e)
    then have "(k, xs) \<in> set es"
      unfolding find_Some_iff by (metis nth_mem)
    with Cons.prems(1) e have "l \<noteq> k" by force
    with Cons.IH [OF _ rest Cons.prems(3)] Cons.prems(1) none show ?thesis
      by (simp add: e find_append)
  qed
qed simp

lemma find_updated_other:
  assumes "distinct (map fst es)" "(k, xs) \<in> set es" "find P ys = find P xs"
  shows "find P (concat (map snd (map (\<lambda>e. if fst e = k then (k, ys) else e) es))) = find P (concat (map snd es))"
  using assms
proof (induction es)
  case (Cons e es)
  show ?case
  proof (cases "fst e = k")
    case True
    have "snd e = xs"
      using True Cons.prems(1,2) by (cases e) force
    moreover have "map (\<lambda>e. if fst e = k then (k, ys) else e) es = es"
      using True Cons.prems(1) by (intro map_idI) (metis distinct.simps(2) image_eqI list.set_map list.simps(9))
    ultimately show ?thesis using True Cons.prems(3) by (simp add: find_append)
  next
    case False
    then have "e \<noteq> (k, xs)" by auto
    with False Cons show ?thesis by (simp add: find_append split: option.split)
  qed
qed simp

lemma assign_subagent_id [simp]: "sb_id (fold assign_subagent us a) = sb_id a"
proof (induction us arbitrary: a)
  case (Cons u us)
  then show ?case by (cases u) simp_all
qed simp

section \<open>Properties\<close>

text \<open>
  After an update the store finds the subagent with the updates, wherever it is listed, and every
  other subagent as before.
\<close>

theorem subagent_update_found:
  assumes "obj_ok (su_byAgent s)"
  shows "getSubagent j (updateSubagent i us s) =
    (if j = i then map_option (fold assign_subagent us) (getSubagent i s) else getSubagent j s)"
proof (cases "find (\<lambda>(k, xs). has_subagent i xs) (own_entries (su_byAgent s))")
  case None
  then have "find (\<lambda>a. sb_id a = i) (concat (own_values (su_byAgent s))) = None"
    by (fastforce simp: find_None_iff own_values_def has_subagent_iff)
  with None show ?thesis
    by (simp add: updateSubagent_def getSubagent_def)
next
  case (Some e)
  then obtain k xs where f: "find (\<lambda>(k, xs). has_subagent i xs) (own_entries (su_byAgent s)) = Some (k, xs)"
    by (cases e) auto
  define n where "n = nat (findIndex (\<lambda>a. sb_id a = i) xs)"
  define ys where "ys = take n xs @ fold assign_subagent us (xs ! n) # drop (Suc n) xs"
  have "(k, xs) \<in> set (own_entries (su_byAgent s)) \<and> has_subagent i xs"
    using find_SomeD [OF f] by simp
  then have has: "has_subagent i xs" and here: "(k, xs) \<in> set (own_entries (su_byAgent s))" and k: "k \<in> fst ` set (su_byAgent s)"
    by force+
  have ge: "0 \<le> findIndex (\<lambda>a. sb_id a = i) xs"
    using has findIndex_bounds [of "\<lambda>a. sb_id a = i" xs] by (auto simp: has_subagent_def)
  have n: "n < length xs" "sb_id (xs ! n) = i"
    using findIndex_bounds [of "\<lambda>a. sb_id a = i" xs] findIndex_nth [OF ge] ge by (auto simp: n_def)
  have before: "find (\<lambda>a. sb_id a = i) (take n xs) = None"
    using findIndex_first [of _ "\<lambda>a. sb_id a = i" xs] n(1) by (auto simp: find_None_iff in_set_conv_nth n_def)
  have xs: "xs = take n xs @ xs ! n # drop (Suc n) xs"
    by (rule id_take_nth_drop [OF n(1)])
  have "find (\<lambda>a. sb_id a = i) ys = Some (fold assign_subagent us (xs ! n))"
    using n before by (simp add: ys_def find_append)
  moreover have "find (\<lambda>a. sb_id a = i) xs = Some (xs ! n)"
    by (subst xs) (simp add: find_append before n(2))
  moreover have "has_subagent i ys"
    using n by (auto simp: has_subagent_iff ys_def)
  moreover have "distinct (map fst (own_entries (su_byAgent s)))"
    using distinct_own_keys [OF assms] by (simp add: own_keys_def)
  moreover have "su_byAgent (updateSubagent i us s) = AList.update k ys (su_byAgent s)"
    by (simp add: updateSubagent_def f Let_def ys_def n_def)
  moreover have "find (\<lambda>a. sb_id a = j) ys = find (\<lambda>a. sb_id a = j) xs" if "j \<noteq> i"
    using n that arg_cong [OF xs, of "find (\<lambda>a. sb_id a = j)"] by (simp add: ys_def find_append split: option.split)
  ultimately show ?thesis
    using find_updated_list [OF _ f, of ys] own_entries_update [OF assms k, of ys]
      find_updated_other [OF _ here, of "\<lambda>a. sb_id a = j" ys]
    by (simp add: getSubagent_def own_values_def)
qed

text \<open>Executions: a step updates the execution it names, whose progress never goes back.\<close>

definition execution_ok :: "skill_execution \<Rightarrow> bool" where
  "execution_ok x \<longleftrightarrow> distinct (map sr_step (se_results x))"

lemma record_result_ok: "distinct (map sr_step rs) \<Longrightarrow> distinct (map sr_step (record_result n st rs))"
proof -
  assume d: "distinct (map sr_step rs)"
  let ?i = "findIndex (\<lambda>r. sr_step r = n) rs"
  show ?thesis
  proof (cases "?i = -1")
    case True
    then have "\<forall>r \<in> set rs. sr_step r \<noteq> n"
      using findIndex_neg_iff [of "\<lambda>r. sr_step r = n" rs] by simp
    with d True show ?thesis by (auto simp: record_result_def)
  next
    case False
    then have "nat ?i < length rs"
      using findIndex_bounds [of "\<lambda>r. sr_step r = n" rs] by linarith
    with d False show ?thesis
      using findIndex_bounds [of "\<lambda>r. sr_step r = n" rs]
      by (simp add: record_result_def Let_def map_update) (metis length_map list_update_id nth_map)
  qed
qed

lemma execution_advanced:
  assumes "execution_ok x"
  shows "execution_ok (advance_execution n k st x) \<and> se_stepsCompleted x \<le> se_stepsCompleted (advance_execution n k st x) \<and>
    (st = StepSuccess \<longrightarrow> k < se_stepsCompleted (advance_execution n k st x)) \<and>
    (\<exists>r \<in> set (se_results (advance_execution n k st x)). sr_step r = n \<and> sr_status r = st)"
proof -
  have "\<exists>r \<in> set (record_result n st rs). sr_step r = n \<and> sr_status r = st" for rs
  proof (cases "findIndex (\<lambda>r. sr_step r = n) rs = -1")
    case False
    then have "0 \<le> findIndex (\<lambda>r. sr_step r = n) rs" "nat (findIndex (\<lambda>r. sr_step r = n) rs) < length rs"
      using findIndex_bounds [of "\<lambda>r. sr_step r = n" rs] by linarith+
    then show ?thesis
      using False findIndex_nth [of "\<lambda>r. sr_step r = n" rs]
      by (intro bexI [of _ "(rs ! nat (findIndex (\<lambda>r. sr_step r = n) rs))\<lparr>sr_status := st\<rparr>"])
        (auto simp: record_result_def Let_def set_update_memI)
  qed (simp add: record_result_def)
  with assms record_result_ok show ?thesis
    by (auto simp: advance_execution_def execution_ok_def max_def)
qed

lemma edited_execution_found:
  assumes "getExecution sessionId i s = Some x" "se_id (f x) = i"
  shows "getExecution sessionId i (edit_execution sessionId i f s) = Some (f x)"
proof -
  obtain xs where xs: "map_of (sx_executions s) sessionId = Some xs" "find (\<lambda>x. se_id x = i) xs = Some x"
    using assms(1) by (auto simp: getExecution_def bucket_def split: option.splits)
  note found = find_findIndex [OF xs(2)]
  then have ne: "findIndex (\<lambda>x. se_id x = i) xs \<noteq> -1" by linarith
  define n where "n = nat (findIndex (\<lambda>x. se_id x = i) xs)"
  have n: "n < length xs" "xs ! n = x"
    using found by (simp_all add: n_def)
  have "take n xs @ f x # drop (Suc n) xs = xs[n := f x]"
    using n(1) by (simp add: upd_conv_take_nth_drop)
  moreover have "find (\<lambda>x. se_id x = i) (xs[n := f x]) = Some (f x)"
    unfolding n_def by (rule find_list_update [OF xs(2)]) (rule assms(2))
  ultimately show ?thesis
    using ne xs(1) n by (simp add: edit_execution_def getExecution_def bucket_def Let_def flip: n_def)
qed

text \<open>
  A step of a skill is recorded with the execution it names: the step has its outcome, listed
  once, and the number of completed steps never goes back and covers a step that succeeded.
\<close>

theorem execution_step_recorded:
  assumes "getExecution sessionId i s = Some x" "execution_ok x"
  shows "\<exists>y. getExecution sessionId i (updateExecutionStep sessionId i n k st s) = Some y \<and> execution_ok y \<and>
    se_stepsCompleted x \<le> se_stepsCompleted y \<and> (st = StepSuccess \<longrightarrow> k < se_stepsCompleted y) \<and>
    (\<exists>r \<in> set (se_results y). sr_step r = n \<and> sr_status r = st)"
proof -
  have "se_id x = i"
    using assms(1) find_SomeD by (fastforce simp: getExecution_def)
  then have "getExecution sessionId i (updateExecutionStep sessionId i n k st s) = Some (advance_execution n k st x)"
    unfolding updateExecutionStep_def by (intro edited_execution_found [OF assms(1)]) (simp add: advance_execution_def)
  with execution_advanced [OF assms(2), of n k st] show ?thesis by blast
qed

section \<open>Examples\<close>

definition ex_subagent :: "ident \<Rightarrow> subagent" where
  "ex_subagent i = \<lparr>sb_id = i, sb_parentAgentId = ''a'', sb_sessionId = ''s'', sb_name = ''explore'', sb_type = ''explore'',
     sb_task = ''read'', sb_status = RunRunning, sb_background = False, sb_createdAt = 1, sb_completedAt = None,
     sb_resultSummary = None, sb_error = None, sb_contextTokens = 0\<rparr>"

definition ex_execution :: skill_execution where
  "ex_execution = \<lparr>se_id = ''x'', se_skillSlug = ''lint'', se_skillName = ''Lint'', se_sessionId = ''s'', se_agentId = ''a'',
     se_status = RunRunning, se_currentStepIndex = 0, se_currentStepName = [], se_totalSteps = 2, se_stepsCompleted = 0,
     se_startedAt = 1, se_completedAt = None, se_durationMs = None, se_error = None, se_results = []\<rparr>"

theorem subagent_update_found_witness:
  "getSubagent ''b'' (updateSubagent ''b'' [SbStatus RunCompleted] (init_subagents\<lparr>su_byAgent := [(''a'', [ex_subagent ''b''])]\<rparr>)) =
     Some ((ex_subagent ''b'')\<lparr>sb_status := RunCompleted\<rparr>)"
proof -
  have "getSubagent ''b'' (init_subagents\<lparr>su_byAgent := [(''a'', [ex_subagent ''b''])]\<rparr>) = Some (ex_subagent ''b'')"
    by code_simp
  then show ?thesis
    by (subst subagent_update_found) simp_all
qed

theorem execution_step_recorded_witness:
  "\<exists>y. getExecution ''s'' ''x'' (updateExecutionStep ''s'' ''x'' ''run'' 0 StepSuccess (startExecution ex_execution init_skills)) = Some y \<and>
     0 < se_stepsCompleted y"
proof -
  have "getExecution ''s'' ''x'' (startExecution ex_execution init_skills) = Some ex_execution" "execution_ok ex_execution"
    by code_simp (simp add: ex_execution_def execution_ok_def)
  from execution_step_recorded [OF this, of "''run''" 0 StepSuccess] show ?thesis by blast
qed

end
