(* ===== verification/Context_Usage.thy ===== *)
theory Context_Usage
  imports Prelude Js_Text Js_Number Machines
begin

text \<open>
  The context store (\<open>apps/web/src/stores/context.ts\<close>): how full each agent's context window is,
  compaction settings per session and the history of compactions. The defaults come from the
  configuration store (\<open>None\<close> while it is not loaded, when reading them throws); a percentage that
  is \<open>NaN\<close> is \<open>None\<close>. Token counts are not negative and the size of a window is positive (for a size of zero the code's
  percentage is \<open>NaN\<close> or infinite, here \<open>None\<close>).
\<close>

section \<open>Data\<close>

record context_usage =
  cu_tokensUsed :: int
  cu_tokensMax :: int
  cu_percentage :: "int option"
  cu_lastUpdated :: int

datatype usage_field = TokensUsed int | TokensMax int | UsagePercentage "int option"

fun assign_usage :: "usage_field \<Rightarrow> context_usage \<Rightarrow> context_usage" where
  "assign_usage (TokensUsed x) u = u\<lparr>cu_tokensUsed := x\<rparr>"
| "assign_usage (TokensMax x) u = u\<lparr>cu_tokensMax := x\<rparr>"
| "assign_usage (UsagePercentage x) u = u\<lparr>cu_percentage := x\<rparr>"

record compaction_settings =
  cp_autoCompactEnabled :: bool
  cp_autoCompactThresholdPercent :: int
  cp_customCompactionInstructions :: "string option"
  cp_preserveRecentMessages :: int

datatype compaction_field =
    AutoCompactEnabled bool | AutoCompactThreshold int | CompactionInstructions "string option" | PreserveRecent int

fun assign_compaction :: "compaction_field \<Rightarrow> compaction_settings \<Rightarrow> compaction_settings" where
  "assign_compaction (AutoCompactEnabled x) c = c\<lparr>cp_autoCompactEnabled := x\<rparr>"
| "assign_compaction (AutoCompactThreshold x) c = c\<lparr>cp_autoCompactThresholdPercent := x\<rparr>"
| "assign_compaction (CompactionInstructions x) c = c\<lparr>cp_customCompactionInstructions := x\<rparr>"
| "assign_compaction (PreserveRecent x) c = c\<lparr>cp_preserveRecentMessages := x\<rparr>"

datatype compaction_trigger = AutoTrigger | ManualTrigger | ThresholdTrigger

record compaction_log =
  lo_id :: ident
  lo_agentId :: ident
  lo_tokensBefore :: int
  lo_tokensAfter :: int
  lo_messagesRemoved :: int
  lo_messagesPreserved :: int
  lo_summaryText :: "string option"
  lo_triggerType :: compaction_trigger
  lo_createdAt :: int

record usage_state =
  us_agentUsage :: "context_usage obj"
  us_sessionSettings :: "compaction_settings obj"
  us_compactionHistory :: "compaction_log list obj"
  us_compactingAgents :: "ident list"

definition init_usage :: usage_state where
  "init_usage = \<lparr>us_agentUsage = [], us_sessionSettings = [], us_compactionHistory = [], us_compactingAgents = []\<rparr>"

datatype config_error = ConfigStoreNotInitialized

record context_defaults =
  df_settings :: "compaction_settings option"
  df_usage :: "(int \<times> int \<times> int option) option"

section \<open>Actions\<close>

definition getDefaultSettings :: "context_defaults \<Rightarrow> config_error + compaction_settings" where
  "getDefaultSettings d = (case df_settings d of None \<Rightarrow> Inl ConfigStoreNotInitialized | Some s \<Rightarrow> Inr s)"

definition getDefaultUsage :: "context_defaults \<Rightarrow> int \<Rightarrow> config_error + context_usage" where
  "getDefaultUsage d now =
     (case df_usage d of
        None \<Rightarrow> Inl ConfigStoreNotInitialized
      | Some (used, mx, p) \<Rightarrow> Inr \<lparr>cu_tokensUsed = used, cu_tokensMax = mx, cu_percentage = p, cu_lastUpdated = now\<rparr>)"

text \<open>\<open>Math.round((used / max) * 100)\<close>; \<open>NaN\<close> or an infinity when \<open>max\<close> is zero.\<close>

definition usage_percent :: "int \<Rightarrow> int \<Rightarrow> int option" where
  "usage_percent used mx =
     map_option (\<lambda>q. js_round (double_mult q 100)) (double_div (of_int used) (of_int mx))"

definition put_usage :: "ident \<Rightarrow> context_usage \<Rightarrow> usage_state \<Rightarrow> usage_state" where
  "put_usage a u s =
     s\<lparr>us_agentUsage := AList.update a (u\<lparr>cu_percentage := usage_percent (cu_tokensUsed u) (cu_tokensMax u)\<rparr>) (us_agentUsage s)\<rparr>"

definition updateAgentUsage ::
    "context_defaults \<Rightarrow> ident \<Rightarrow> usage_field list \<Rightarrow> int \<Rightarrow> usage_state \<Rightarrow> config_error + usage_state" where
  "updateAgentUsage d a usage now s =
     (case (case map_of (us_agentUsage s) a of Some u \<Rightarrow> Inr u | None \<Rightarrow> getDefaultUsage d now) of
        Inl e \<Rightarrow> Inl e
      | Inr current \<Rightarrow> Inr (put_usage a ((fold assign_usage usage current)\<lparr>cu_lastUpdated := now\<rparr>) s))"

definition setAgentUsage :: "ident \<Rightarrow> context_usage \<Rightarrow> usage_state \<Rightarrow> usage_state" where
  "setAgentUsage a u s = put_usage a u s"

definition clearAgentUsage :: "ident \<Rightarrow> usage_state \<Rightarrow> usage_state" where
  "clearAgentUsage a s = s\<lparr>us_agentUsage := AList.delete a (us_agentUsage s)\<rparr>"

definition updateSessionSettings ::
    "context_defaults \<Rightarrow> ident \<Rightarrow> compaction_field list \<Rightarrow> usage_state \<Rightarrow> config_error + usage_state" where
  "updateSessionSettings d i settings s =
     (case getDefaultSettings d of
        Inl e \<Rightarrow> Inl e
      | Inr defaults \<Rightarrow>
          Inr (s\<lparr>us_sessionSettings :=
            AList.update i (fold assign_compaction settings (coalesce (map_of (us_sessionSettings s) i) defaults))
              (us_sessionSettings s)\<rparr>))"

definition getSessionSettings :: "context_defaults \<Rightarrow> ident \<Rightarrow> usage_state \<Rightarrow> config_error + compaction_settings" where
  "getSessionSettings d i s =
     (case map_of (us_sessionSettings s) i of Some x \<Rightarrow> Inr x | None \<Rightarrow> getDefaultSettings d)"

definition addCompactionLog :: "ident \<Rightarrow> compaction_log \<Rightarrow> usage_state \<Rightarrow> usage_state" where
  "addCompactionLog i entry s =
     s\<lparr>us_compactionHistory :=
         AList.update i (slice_last 50 (bucket (us_compactionHistory s) i @ [entry])) (us_compactionHistory s)\<rparr>"

definition getCompactionHistory :: "ident \<Rightarrow> usage_state \<Rightarrow> compaction_log list" where
  "getCompactionHistory i s = bucket (us_compactionHistory s) i"

definition setCompacting :: "ident \<Rightarrow> bool \<Rightarrow> usage_state \<Rightarrow> usage_state" where
  "setCompacting a b s =
     s\<lparr>us_compactingAgents :=
         (if b then (if a \<in> set (us_compactingAgents s) then us_compactingAgents s else us_compactingAgents s @ [a])
          else filter (\<lambda>x. x \<noteq> a) (us_compactingAgents s))\<rparr>"

definition isCompacting :: "ident \<Rightarrow> usage_state \<Rightarrow> bool" where
  "isCompacting a s \<longleftrightarrow> a \<in> set (us_compactingAgents s)"

datatype usage_level = NormalUsage | WarningUsage | CriticalUsage

definition at_least :: "int option \<Rightarrow> int \<Rightarrow> bool" where
  "at_least p n = (case p of None \<Rightarrow> False | Some x \<Rightarrow> n \<le> x)"

definition getUsageLevel :: "ident \<Rightarrow> usage_state \<Rightarrow> usage_level" where
  "getUsageLevel a s =
     (case map_of (us_agentUsage s) a of
        None \<Rightarrow> NormalUsage
      | Some u \<Rightarrow> if at_least (cu_percentage u) 90 then CriticalUsage
          else if at_least (cu_percentage u) 70 then WarningUsage else NormalUsage)"

text \<open>The defaults are read, and may throw, before the usage is looked at.\<close>

definition shouldAutoCompact :: "context_defaults \<Rightarrow> ident \<Rightarrow> ident \<Rightarrow> usage_state \<Rightarrow> config_error + bool" where
  "shouldAutoCompact d a i s =
     (case getSessionSettings d i s of
        Inl e \<Rightarrow> Inl e
      | Inr settings \<Rightarrow>
          (case map_of (us_agentUsage s) a of
             None \<Rightarrow> Inr False
           | Some u \<Rightarrow> Inr (cp_autoCompactEnabled settings \<and> at_least (cu_percentage u) (cp_autoCompactThresholdPercent settings))))"

definition usage_partialize :: "usage_state \<Rightarrow> compaction_settings obj" where
  "usage_partialize s = us_sessionSettings s"

section \<open>Events\<close>

datatype usage_event =
    UpdateUsage ident "usage_field list" int
  | SetUsage ident context_usage
  | ClearUsage ident
  | UpdateSettings ident "compaction_field list"
  | AddLog ident compaction_log
  | SetCompacting ident bool

text \<open>An action that throws leaves the state as it is.\<close>

definition or_unchanged :: "'s \<Rightarrow> 'e + 's \<Rightarrow> 's" where
  "or_unchanged s r = (case r of Inl e \<Rightarrow> s | Inr s' \<Rightarrow> s')"

fun usage_step :: "context_defaults \<Rightarrow> usage_event \<Rightarrow> usage_state \<Rightarrow> usage_state" where
  "usage_step d (UpdateUsage a u now) s = or_unchanged s (updateAgentUsage d a u now s)"
| "usage_step d (SetUsage a u) s = setAgentUsage a u s"
| "usage_step d (ClearUsage a) s = clearAgentUsage a s"
| "usage_step d (UpdateSettings i x) s = or_unchanged s (updateSessionSettings d i x s)"
| "usage_step d (AddLog i entry) s = addCompactionLog i entry s"
| "usage_step d (SetCompacting a b) s = setCompacting a b s"

section \<open>The invariant\<close>

definition usage_ok :: "usage_state \<Rightarrow> bool" where
  "usage_ok s \<longleftrightarrow>
     (\<forall>a u. map_of (us_agentUsage s) a = Some u \<longrightarrow> cu_percentage u = usage_percent (cu_tokensUsed u) (cu_tokensMax u)) \<and>
     (\<forall>i. length (bucket (us_compactionHistory s) i) \<le> 50) \<and> distinct (us_compactingAgents s)"

lemma put_usage_ok: "usage_ok s \<Longrightarrow> usage_ok (put_usage a u s)"
  by (simp add: usage_ok_def put_usage_def)

lemma usage_step_ok: "usage_ok s \<Longrightarrow> usage_ok (usage_step d e s)"
proof (cases e)
  case (UpdateUsage a u now)
  assume "usage_ok s"
  then show ?thesis
    by (simp add: UpdateUsage updateAgentUsage_def or_unchanged_def put_usage_ok split: option.split sum.split)
next
  case (UpdateSettings i x)
  assume "usage_ok s"
  then show ?thesis
    by (simp add: UpdateSettings updateSessionSettings_def or_unchanged_def usage_ok_def split: sum.split)
qed (simp_all add: setAgentUsage_def put_usage_ok, auto simp: usage_ok_def clearAgentUsage_def addCompactionLog_def
    setCompacting_def slice_last_length)

interpretation usage: machine "usage_step d" "\<lambda>e s. True" usage_ok init_usage for d
  by unfold_locales (simp_all add: usage_step_ok, simp add: usage_ok_def init_usage_def)

section \<open>Properties\<close>

text \<open>
  The stored percentage is always that of the stored counts, whatever percentage a caller passes,
  so the level follows from the counts; and at most 50 compactions a session are remembered.
\<close>

theorem usage_level_follows_tokens:
  assumes "s = fold (usage_step d) es init_usage" "map_of (us_agentUsage s) a = Some u"
  shows "cu_percentage u = usage_percent (cu_tokensUsed u) (cu_tokensMax u) \<and>
    (getUsageLevel a s = CriticalUsage \<longleftrightarrow> at_least (usage_percent (cu_tokensUsed u) (cu_tokensMax u)) 90) \<and>
    length (getCompactionHistory i s) \<le> 50"
  using usage.inv_history [of d es] assms(2) unfolding assms(1)
  by (simp add: usage_ok_def getUsageLevel_def getCompactionHistory_def)

section \<open>Examples\<close>

definition ex_usage :: context_usage where
  "ex_usage = \<lparr>cu_tokensUsed = 95, cu_tokensMax = 100, cu_percentage = None, cu_lastUpdated = 0\<rparr>"

definition no_defaults :: context_defaults where
  "no_defaults = \<lparr>df_settings = None, df_usage = None\<rparr>"

theorem usage_level_follows_tokens_witness:
  "cu_percentage (ex_usage\<lparr>cu_percentage := usage_percent 95 100\<rparr>) = usage_percent 95 100"
proof -
  have "map_of (us_agentUsage (fold (usage_step no_defaults) [SetUsage ''a'' ex_usage] init_usage)) ''a'' =
      Some (ex_usage\<lparr>cu_percentage := usage_percent 95 100\<rparr>)"
    by (simp add: setAgentUsage_def put_usage_def init_usage_def ex_usage_def)
  from usage_level_follows_tokens [OF refl this] show ?thesis
    by (simp add: ex_usage_def)
qed

end
