(* ===== verification/Layout_Sync.thy ===== *)
theory Layout_Sync
  imports Session_Layout Editor_Safety Machines
begin

text \<open>
  Synchronisation of the layout of a session between devices
  (\<open>apps/web/src/hooks/useLayoutSync.ts\<close>, \<open>components/workspace/LayoutSyncProvider.tsx\<close> and
  \<open>emitLayoutChange\<close> of \<open>lib/socket.ts\<close>). A device watches its session after every rendering, saves
  what changed and tells the other devices; what arrives is applied to the store. A debounced
  function keeps the arguments of its last call while its timer is armed, so it is an optional
  value. Effects run after the rendering, when the handler that changed the store has returned.
  A coordinate that is missing, which the types exclude, leaves the old one.
\<close>

section \<open>The format of the API\<close>

record api_span =
  gl_col_span :: int
  gl_row_span :: int

record api_position =
  pl_x :: "int option"
  pl_y :: "int option"
  pl_width :: "int option"
  pl_height :: "int option"
  pl_z_index :: "int option"

definition toApiGridSpan :: "grid_span \<Rightarrow> api_span" where
  "toApiGridSpan gs = \<lparr>gl_col_span = colSpan gs, gl_row_span = rowSpan gs\<rparr>"

definition fromApiGridSpan :: "api_span \<Rightarrow> grid_span" where
  "fromApiGridSpan sp = \<lparr>colSpan = gl_col_span sp, rowSpan = gl_row_span sp, colStart = None\<rparr>"

definition toApiPosition :: "position \<Rightarrow> api_position" where
  "toApiPosition p =
     \<lparr>pl_x = pos_x p, pl_y = pos_y p, pl_width = pos_width p, pl_height = pos_height p, pl_z_index = pos_zIndex p\<rparr>"

definition opt_field :: "('a \<Rightarrow> 'f) \<Rightarrow> 'a option \<Rightarrow> 'f list" where
  "opt_field f x = (case x of None \<Rightarrow> [] | Some a \<Rightarrow> [f a])"

definition fromApiPosition :: "api_position \<Rightarrow> pos_field list" where
  "fromApiPosition p =
     opt_field PX (pl_x p) @ opt_field PY (pl_y p) @ opt_field PWidth (pl_width p) @
     opt_field PHeight (pl_height p) @ opt_field PZIndex (pl_z_index p)"

record agent_layout =
  al_grid_span :: "api_span option"
  al_position :: "api_position option"

record preview_layout =
  vl_grid_span :: "api_span option"
  vl_docked :: "bool option"
  vl_pinned :: "bool option"

record api_pane =
  apn_id :: ident
  apn_tabs :: "ident list"
  apn_active_tab_id :: "ident option"
  apn_size :: rat

record api_tab =
  atb_id :: ident
  atb_path :: string
  atb_name :: string
  atb_language :: string
  atb_is_preview :: bool

record editor_tabs_layout =
  etl_split_layout :: split_layout
  etl_panes :: "api_pane obj"
  etl_pane_order :: "ident list"
  etl_active_pane_id :: "ident option"
  etl_tabs :: "api_tab obj"

record server_layout =
  sv_view_mode :: "view_mode option"
  sv_active_agent_id :: "ident option"
  sv_agent_layouts :: "agent_layout obj"
  sv_file_preview_layouts :: "preview_layout obj"
  sv_editor_grid_card_id :: "ident option"
  sv_editor_grid_span :: "api_span option"
  sv_editor_freeform_position :: "api_position option"
  sv_editor_tabs :: "editor_tabs_layout option"

section \<open>What is sent\<close>

datatype layout_payload =
    ViewModePayload view_mode
  | ActiveAgentPayload "ident option"
  | AgentPayload ident "api_span option" "api_position option"
  | PreviewPayload ident "api_span option" "bool option" "bool option" "string option"
  | EditorPayload "ident option option" "api_span option" "api_position option"
  | SidebarPayload
  | FullSyncPayload

record layout_event =
  le_session_id :: ident
  le_sender_id :: ident
  le_sender_device :: ident
  le_payload :: layout_payload
  le_timestamp :: int

record pending_change =
  pe_session_id :: ident
  pe_user_id :: ident
  pe_device_id :: ident
  pe_payload :: layout_payload

record editor_update =
  eu_card_id :: "ident option option"
  eu_span :: "api_span option"
  eu_position :: "api_position option"

datatype layout_update =
    SaveViewMode view_mode
  | SaveActiveAgent "ident option"
  | SaveEditorTabs "editor_tabs_layout option"

datatype layout_request =
    PutLayout ident layout_update
  | PatchAgent ident ident "api_span option" "api_position option"
  | PatchPreview ident ident layout_payload
  | PatchEditor ident editor_update

text \<open>
  The values the effects compare with: \<open>None\<close> is \<open>undefined\<close>, and the values below it may be \<open>null\<close>.
  \<open>pr_seenEditor\<close> is the card id in the closure of the socket handler, which the hook renews
  whenever the id has changed.
\<close>

record prev_layout =
  pr_viewMode :: "view_mode option"
  pr_activeAgentId :: "ident option option"
  pr_agents :: "agent list"
  pr_previews :: "file_preview list"
  pr_editorId :: "ident option option"
  pr_editorSpan :: "grid_span option"
  pr_editorPosition :: "position option"
  pr_initialSynced :: bool
  pr_seenEditor :: "ident option"
  pr_editorLayout :: "(split_layout \<times> split_pane obj \<times> ident list \<times> ident option \<times> editor_tab obj) option"

record layout_sync =
  ys_store :: session_state
  ys_editor :: editor_state
  ys_user :: "ident option"
  ys_deviceId :: ident
  ys_sessionId :: ident
  ys_applying :: bool
  ys_layoutSave :: "(layout_update \<times> ident) option"
  ys_agentSave :: "(ident \<times> api_span option \<times> api_position option) option"
  ys_previewSave :: "(ident \<times> layout_payload) option"
  ys_editorSave :: "editor_update option"
  ys_pendingChange :: "pending_change option"
  ys_requests :: "layout_request list"
  ys_emitted :: "layout_event list"
  ys_mounted :: "session option"
  ys_prev :: prev_layout

definition synced_session :: "layout_sync \<Rightarrow> session option" where
  "synced_session d = map_of (st_sessions (ys_store d)) (ys_sessionId d)"

definition edit_prev :: "(prev_layout \<Rightarrow> prev_layout) \<Rightarrow> layout_sync \<Rightarrow> layout_sync" where
  "edit_prev f d = d\<lparr>ys_prev := f (ys_prev d)\<rparr>"

definition edit_store :: "(session_state \<Rightarrow> session_state) \<Rightarrow> layout_sync \<Rightarrow> layout_sync" where
  "edit_store f d = d\<lparr>ys_store := f (ys_store d)\<rparr>"

section \<open>Saving and telling\<close>

definition saveLayout :: "layout_update \<Rightarrow> layout_sync \<Rightarrow> layout_sync" where
  "saveLayout u d = d\<lparr>ys_layoutSave := Some (u, ys_sessionId d)\<rparr>"

definition emitLayoutChange :: "pending_change \<Rightarrow> layout_sync \<Rightarrow> layout_sync" where
  "emitLayoutChange c d = d\<lparr>ys_pendingChange := Some c\<rparr>"

definition emitChange :: "layout_payload \<Rightarrow> layout_sync \<Rightarrow> layout_sync" where
  "emitChange p d =
     (case ys_user d of
        None \<Rightarrow> d
      | Some user \<Rightarrow>
          if ys_applying d then d
          else emitLayoutChange \<lparr>pe_session_id = ys_sessionId d, pe_user_id = user, pe_device_id = ys_deviceId d,
                 pe_payload = p\<rparr> d)"

definition unless_applying :: "(layout_sync \<Rightarrow> layout_sync) \<Rightarrow> layout_sync \<Rightarrow> layout_sync" where
  "unless_applying f d = (if ys_applying d then d else f d)"

definition syncViewMode :: "view_mode \<Rightarrow> layout_sync \<Rightarrow> layout_sync" where
  "syncViewMode m = unless_applying (\<lambda>d. emitChange (ViewModePayload m) (saveLayout (SaveViewMode m) d))"

definition syncActiveAgent :: "ident option \<Rightarrow> layout_sync \<Rightarrow> layout_sync" where
  "syncActiveAgent a = unless_applying (\<lambda>d. emitChange (ActiveAgentPayload a) (saveLayout (SaveActiveAgent a) d))"

definition syncAgentGridSpan :: "ident \<Rightarrow> grid_span \<Rightarrow> layout_sync \<Rightarrow> layout_sync" where
  "syncAgentGridSpan a gs = unless_applying (\<lambda>d.
     emitChange (AgentPayload a (Some (toApiGridSpan gs)) None)
       (d\<lparr>ys_agentSave := Some (a, Some (toApiGridSpan gs), None)\<rparr>))"

definition syncAgentPosition :: "ident \<Rightarrow> position \<Rightarrow> layout_sync \<Rightarrow> layout_sync" where
  "syncAgentPosition a p = unless_applying (\<lambda>d.
     emitChange (AgentPayload a None (Some (toApiPosition p)))
       (d\<lparr>ys_agentSave := Some (a, None, Some (toApiPosition p))\<rparr>))"

definition syncFilePreviewLayout ::
    "ident \<Rightarrow> grid_span option \<Rightarrow> bool option \<Rightarrow> bool option \<Rightarrow> string option \<Rightarrow> layout_sync \<Rightarrow> layout_sync" where
  "syncFilePreviewLayout i gs docked pinned path = unless_applying (\<lambda>d.
     let payload = PreviewPayload i (map_option toApiGridSpan gs) docked pinned (if truthy path then path else None)
     in emitChange payload (d\<lparr>ys_previewSave := Some (i, payload)\<rparr>))"

definition no_editor_update :: editor_update where
  "no_editor_update = \<lparr>eu_card_id = None, eu_span = None, eu_position = None\<rparr>"

definition syncEditorGridCard :: "ident option \<Rightarrow> layout_sync \<Rightarrow> layout_sync" where
  "syncEditorGridCard i = unless_applying (\<lambda>d.
     emitChange (EditorPayload (Some i) None None) (d\<lparr>ys_editorSave := Some (no_editor_update\<lparr>eu_card_id := Some i\<rparr>)\<rparr>))"

definition syncEditorGridSpan :: "grid_span \<Rightarrow> layout_sync \<Rightarrow> layout_sync" where
  "syncEditorGridSpan gs = unless_applying (\<lambda>d.
     emitChange (EditorPayload None (Some (toApiGridSpan gs)) None)
       (d\<lparr>ys_editorSave := Some (no_editor_update\<lparr>eu_span := Some (toApiGridSpan gs)\<rparr>)\<rparr>))"

definition syncEditorFreeformPosition :: "position \<Rightarrow> layout_sync \<Rightarrow> layout_sync" where
  "syncEditorFreeformPosition p = unless_applying (\<lambda>d.
     emitChange (EditorPayload None None (Some (toApiPosition p)))
       (d\<lparr>ys_editorSave := Some (no_editor_update\<lparr>eu_position := Some (toApiPosition p)\<rparr>)\<rparr>))"

text \<open>The timers: 500 ms for the layout, 300 ms for agents, previews and the editor, 150 ms for the socket.\<close>

definition layout_timer :: "layout_sync \<Rightarrow> layout_sync" where
  "layout_timer d =
     (case ys_layoutSave d of
        None \<Rightarrow> d
      | Some (u, i) \<Rightarrow> d\<lparr>ys_layoutSave := None, ys_requests := ys_requests d @ [PutLayout i u]\<rparr>)"

definition agent_timer :: "layout_sync \<Rightarrow> layout_sync" where
  "agent_timer d =
     (case ys_agentSave d of
        None \<Rightarrow> d
      | Some (a, sp, p) \<Rightarrow> d\<lparr>ys_agentSave := None, ys_requests := ys_requests d @ [PatchAgent (ys_sessionId d) a sp p]\<rparr>)"

definition preview_timer :: "layout_sync \<Rightarrow> layout_sync" where
  "preview_timer d =
     (case ys_previewSave d of
        None \<Rightarrow> d
      | Some (i, x) \<Rightarrow> d\<lparr>ys_previewSave := None, ys_requests := ys_requests d @ [PatchPreview (ys_sessionId d) i x]\<rparr>)"

definition editor_timer :: "layout_sync \<Rightarrow> layout_sync" where
  "editor_timer d =
     (case ys_editorSave d of
        None \<Rightarrow> d
      | Some u \<Rightarrow> d\<lparr>ys_editorSave := None, ys_requests := ys_requests d @ [PatchEditor (ys_sessionId d) u]\<rparr>)"

definition change_timer :: "int \<Rightarrow> layout_sync \<Rightarrow> layout_sync" where
  "change_timer now d =
     (case ys_pendingChange d of
        None \<Rightarrow> d
      | Some c \<Rightarrow> d\<lparr>ys_pendingChange := None,
          ys_emitted := ys_emitted d @ [\<lparr>le_session_id = pe_session_id c, le_sender_id = pe_user_id c,
            le_sender_device = pe_device_id c, le_payload = pe_payload c, le_timestamp = now\<rparr>]\<rparr>)"

section \<open>What arrives\<close>

definition set_applying :: "bool \<Rightarrow> layout_sync \<Rightarrow> layout_sync" where
  "set_applying b d = d\<lparr>ys_applying := b\<rparr>"

definition maybe :: "('a \<Rightarrow> 'b \<Rightarrow> 'b) \<Rightarrow> 'a option \<Rightarrow> 'b \<Rightarrow> 'b" where
  "maybe f x = (case x of None \<Rightarrow> id | Some a \<Rightarrow> f a)"

definition apply_agent_layout ::
    "ident \<Rightarrow> ident \<Rightarrow> api_span option \<Rightarrow> api_position option \<Rightarrow> session_state \<Rightarrow> session_state" where
  "apply_agent_layout sessionId a sp p st =
     maybe (\<lambda>p. updateAgentPosition sessionId a (fromApiPosition p)) p
       (maybe (\<lambda>sp. updateAgentGridSpan sessionId a (fromApiGridSpan sp)) sp st)"

definition apply_preview_layout ::
    "ident \<Rightarrow> ident \<Rightarrow> api_span option \<Rightarrow> bool option \<Rightarrow> bool option \<Rightarrow> session_state \<Rightarrow> session_state" where
  "apply_preview_layout sessionId i sp docked pinned st =
     maybe (pinFilePreview sessionId i) pinned
       (maybe (dockFilePreview sessionId i) docked
         (maybe (\<lambda>sp. updateFilePreviewGridSpan sessionId i (fromApiGridSpan sp)) sp st))"

definition apply_editor_layout ::
    "ident \<Rightarrow> api_span option \<Rightarrow> api_position option \<Rightarrow> session_state \<Rightarrow> session_state" where
  "apply_editor_layout sessionId sp p st =
     maybe (\<lambda>p. updateEditorFreeformPosition sessionId (fromApiPosition p)) p
       (maybe (\<lambda>sp. updateEditorGridSpan sessionId (fromApiGridSpan sp)) sp st)"

text \<open>The card is created or removed by what the handler saw at the last rendering.\<close>

definition apply_editor_card ::
    "clock \<Rightarrow> string \<Rightarrow> ident option \<Rightarrow> ident \<Rightarrow> ident option \<Rightarrow> session_state \<Rightarrow> session_state" where
  "apply_editor_card clk rnd seen sessionId cardId st =
     (if truthy cardId \<and> \<not> truthy seen then fst (createEditorGridCard clk rnd sessionId st)
      else if \<not> truthy cardId \<and> truthy seen then removeEditorGridCard sessionId st
      else st)"

fun apply_payload :: "clock \<Rightarrow> string \<Rightarrow> ident option \<Rightarrow> ident \<Rightarrow> layout_payload \<Rightarrow> session_state \<Rightarrow> session_state" where
  "apply_payload clk rnd seen i (ViewModePayload m) = setViewMode i m"
| "apply_payload clk rnd seen i (ActiveAgentPayload a) = setActiveAgent i a"
| "apply_payload clk rnd seen i (AgentPayload a sp p) = apply_agent_layout i a sp p"
| "apply_payload clk rnd seen i (PreviewPayload k sp docked pinned path) = apply_preview_layout i k sp docked pinned"
| "apply_payload clk rnd seen i (EditorPayload cardId sp p) =
     (\<lambda>st. apply_editor_layout i sp p (maybe (apply_editor_card clk rnd seen i) cardId st))"
| "apply_payload clk rnd seen i SidebarPayload = id"
| "apply_payload clk rnd seen i FullSyncPayload = id"

definition layout_received :: "clock \<Rightarrow> string \<Rightarrow> layout_event \<Rightarrow> layout_sync \<Rightarrow> layout_sync" where
  "layout_received clk rnd e d =
     (if le_sender_device e = ys_deviceId d \<or> le_session_id e \<noteq> ys_sessionId d then d
      else set_applying False
        (edit_store (apply_payload clk rnd (pr_seenEditor (ys_prev d)) (ys_sessionId d) (le_payload e))
          (set_applying True d)))"

text \<open>The answer to the request that a \<open>full_sync\<close> event makes.\<close>

definition full_sync_answered :: "server_layout \<Rightarrow> layout_sync \<Rightarrow> layout_sync" where
  "full_sync_answered sv d =
     edit_store (\<lambda>st.
       (if truthy (sv_active_agent_id sv) then setActiveAgent (ys_sessionId d) (sv_active_agent_id sv) else id)
         (maybe (setViewMode (ys_sessionId d)) (sv_view_mode sv) st)) d"

section \<open>The layout of the server\<close>

definition pane_to_api :: "split_pane \<Rightarrow> api_pane" where
  "pane_to_api p = \<lparr>apn_id = sp_id p, apn_tabs = sp_tabs p, apn_active_tab_id = sp_activeTabId p, apn_size = sp_size p\<rparr>"

definition pane_from_api :: "api_pane \<Rightarrow> split_pane" where
  "pane_from_api p = \<lparr>sp_id = apn_id p, sp_tabs = apn_tabs p, sp_activeTabId = apn_active_tab_id p, sp_size = apn_size p\<rparr>"

definition tab_to_api :: "editor_tab \<Rightarrow> api_tab" where
  "tab_to_api t = \<lparr>atb_id = et_id t, atb_path = et_path t, atb_name = et_name t, atb_language = et_language t,
     atb_is_preview = et_isPreview t\<rparr>"

text \<open>\<open>Object.fromEntries(Object.entries(m).map(([k, v]) => [k, f(k, v)]))\<close>.\<close>

definition map_entries :: "(string \<Rightarrow> 'a \<Rightarrow> 'b) \<Rightarrow> 'a obj \<Rightarrow> 'b obj" where
  "map_entries f m = from_entries (map (\<lambda>(k, v). (k, f k v)) (own_entries m))"

definition editor_tabs_payload :: "editor_state \<Rightarrow> editor_tabs_layout option" where
  "editor_tabs_payload st =
     (if own_keys (es_tabs st) = [] then None
      else Some \<lparr>etl_split_layout = es_splitLayout st,
        etl_panes = map_entries (\<lambda>k. pane_to_api) (es_panes st),
        etl_pane_order = es_paneOrder st, etl_active_pane_id = es_activePaneId st,
        etl_tabs = map_entries (\<lambda>k. tab_to_api) (es_tabs st)\<rparr>)"

definition tab_pane :: "editor_tabs_layout \<Rightarrow> ident \<Rightarrow> ident" where
  "tab_pane l i =
     str_or (case find (\<lambda>p. i \<in> set (apn_tabs p)) (own_values (etl_panes l)) of None \<Rightarrow> None | Some p \<Rightarrow> Some (apn_id p))
       (str_or (etl_active_pane_id l) ''main'')"

definition tab_from_api :: "editor_tabs_layout \<Rightarrow> ident \<Rightarrow> api_tab \<Rightarrow> editor_tab" where
  "tab_from_api l i t =
     \<lparr>et_id = atb_id t, et_path = atb_path t, et_name = atb_name t, et_language = atb_language t, et_isDirty = False,
      et_isPreview = atb_is_preview t, et_paneId = tab_pane l i, et_scrollPosition = None, et_cursorPosition = None\<rparr>"

definition restore_editor_tabs :: "editor_tabs_layout \<Rightarrow> editor_state \<Rightarrow> editor_state" where
  "restore_editor_tabs l =
     setLayout \<lparr>ly_tabs = map_entries (tab_from_api l) (etl_tabs l),
       ly_panes = map_entries (\<lambda>k. pane_from_api) (etl_panes l),
       ly_paneOrder = etl_pane_order l, ly_activePaneId = etl_active_pane_id l, ly_splitLayout = etl_split_layout l\<rparr>"

definition load_started :: "layout_sync \<Rightarrow> layout_sync" where
  "load_started d = d\<lparr>ys_mounted := synced_session d\<rparr>"

definition load_agents :: "ident \<Rightarrow> server_layout \<Rightarrow> session_state \<Rightarrow> session_state" where
  "load_agents i sv st =
     fold (\<lambda>(a, l). apply_agent_layout i a (al_grid_span l) (al_position l)) (own_entries (sv_agent_layouts sv)) st"

definition load_previews :: "session option \<Rightarrow> ident \<Rightarrow> server_layout \<Rightarrow> session_state \<Rightarrow> session_state" where
  "load_previews mounted i sv st =
     fold (\<lambda>(k, l). if (case mounted of None \<Rightarrow> False | Some s \<Rightarrow> \<exists>p \<in> set (ss_previews s). fp_id p = k)
                    then apply_preview_layout i k (vl_grid_span l) (vl_docked l) (vl_pinned l) else id)
       (own_entries (sv_file_preview_layouts sv)) st"

definition load_editor_card :: "clock \<Rightarrow> string \<Rightarrow> server_layout \<Rightarrow> layout_sync \<Rightarrow> layout_sync" where
  "load_editor_card clk rnd sv d =
     (let current = synced_session d;
          cardId = (case current of None \<Rightarrow> None | Some s \<Rightarrow> ss_editorGridCardId s)
      in if truthy (sv_editor_grid_card_id sv)
         then edit_store (\<lambda>st. apply_editor_layout (ys_sessionId d) (sv_editor_grid_span sv) (sv_editor_freeform_position sv)
                (if truthy cardId then st else fst (createEditorGridCard clk rnd (ys_sessionId d) st))) d
         else if truthy cardId
         then d\<lparr>ys_requests := ys_requests d @ [PatchEditor (ys_sessionId d) \<lparr>eu_card_id = Some cardId,
                eu_span = (case current of None \<Rightarrow> None | Some s \<Rightarrow> map_option toApiGridSpan (ss_editorGridSpan s)),
                eu_position = (case current of None \<Rightarrow> None | Some s \<Rightarrow> map_option toApiPosition (ss_editorFreeformPosition s))\<rparr>]\<rparr>
         else d)"

definition load_answered :: "clock \<Rightarrow> string \<Rightarrow> server_layout option \<Rightarrow> layout_sync \<Rightarrow> layout_sync" where
  "load_answered clk rnd answer d =
     (case answer of
        None \<Rightarrow> set_applying False d
      | Some sv \<Rightarrow>
          (let d1 = set_applying False (edit_store (\<lambda>st.
                 load_previews (ys_mounted d) (ys_sessionId d) sv
                   (load_agents (ys_sessionId d) sv
                     ((if truthy (sv_active_agent_id sv) then setActiveAgent (ys_sessionId d) (sv_active_agent_id sv) else id)
                       (maybe (setViewMode (ys_sessionId d)) (sv_view_mode sv) st)))) (set_applying True d));
               d2 = load_editor_card clk rnd sv d1
           in case sv_editor_tabs sv of None \<Rightarrow> d2 | Some l \<Rightarrow> d2\<lparr>ys_editor := restore_editor_tabs l (ys_editor d2)\<rparr>))"

section \<open>The effects after a rendering\<close>

definition editor_view :: "editor_state \<Rightarrow> split_layout \<times> split_pane obj \<times> ident list \<times> ident option \<times> editor_tab obj" where
  "editor_view st = (es_splitLayout st, es_panes st, es_paneOrder st, es_activePaneId st, es_tabs st)"

text \<open>The hook saves the tabs when the layout of the editor has changed.\<close>

definition editor_tabs_effect :: "layout_sync \<Rightarrow> layout_sync" where
  "editor_tabs_effect d =
     (if pr_editorLayout (ys_prev d) = Some (editor_view (ys_editor d)) then d
      else edit_prev (\<lambda>p. p\<lparr>pr_editorLayout := Some (editor_view (ys_editor d))\<rparr>)
        (unless_applying (saveLayout (SaveEditorTabs (editor_tabs_payload (ys_editor d)))) d))"

definition view_mode_effect :: "session \<Rightarrow> layout_sync \<Rightarrow> layout_sync" where
  "view_mode_effect s d =
     (if pr_viewMode (ys_prev d) = Some (ss_viewMode s) then d
      else edit_prev (\<lambda>p. p\<lparr>pr_viewMode := Some (ss_viewMode s)\<rparr>) (syncViewMode (ss_viewMode s) d))"

definition active_agent_effect :: "session \<Rightarrow> layout_sync \<Rightarrow> layout_sync" where
  "active_agent_effect s d =
     (if pr_activeAgentId (ys_prev d) = Some (ss_activeAgentId s) then d
      else edit_prev (\<lambda>p. p\<lparr>pr_activeAgentId := Some (ss_activeAgentId s)\<rparr>) (syncActiveAgent (ss_activeAgentId s) d))"

definition span_changed :: "grid_span option \<Rightarrow> grid_span \<Rightarrow> bool" where
  "span_changed before gs \<longleftrightarrow> map_option colSpan before \<noteq> Some (colSpan gs) \<or> map_option rowSpan before \<noteq> Some (rowSpan gs)"

definition position_changed :: "position \<Rightarrow> position \<Rightarrow> bool" where
  "position_changed before p \<longleftrightarrow> pos_x before \<noteq> pos_x p \<or> pos_y before \<noteq> pos_y p \<or>
     pos_width before \<noteq> pos_width p \<or> pos_height before \<noteq> pos_height p"

definition agent_effect :: "agent list \<Rightarrow> agent \<Rightarrow> layout_sync \<Rightarrow> layout_sync" where
  "agent_effect before a d =
     (case map_of (rev (map (\<lambda>a. (ag_id a, a)) before)) (ag_id a) of
        None \<Rightarrow> d
      | Some b \<Rightarrow>
          (let d1 = (case ag_gridSpan a of None \<Rightarrow> d
                     | Some gs \<Rightarrow> if span_changed (ag_gridSpan b) gs then syncAgentGridSpan (ag_id a) gs d else d)
           in case (ag_position a, ag_position b) of
                (Some p, Some q) \<Rightarrow> if position_changed q p then syncAgentPosition (ag_id a) p d1 else d1
              | _ \<Rightarrow> d1))"

definition agents_effect :: "session \<Rightarrow> layout_sync \<Rightarrow> layout_sync" where
  "agents_effect s d =
     edit_prev (\<lambda>p. p\<lparr>pr_agents := ss_agents s\<rparr>) (fold (agent_effect (pr_agents (ys_prev d))) (ss_agents s) d)"

definition preview_effect :: "file_preview list \<Rightarrow> file_preview \<Rightarrow> layout_sync \<Rightarrow> layout_sync" where
  "preview_effect before p d =
     (case map_of (rev (map (\<lambda>p. (fp_id p, p)) before)) (fp_id p) of
        None \<Rightarrow> syncFilePreviewLayout (fp_id p) (fp_gridSpan p) (Some (fp_docked p)) (Some (fp_pinned p)) (Some (fp_path p)) d
      | Some b \<Rightarrow>
          (let gs = (case fp_gridSpan p of None \<Rightarrow> None | Some gs \<Rightarrow> if span_changed (fp_gridSpan b) gs then Some gs else None);
               docked = (if fp_docked b \<noteq> fp_docked p then Some (fp_docked p) else None);
               pinned = (if fp_pinned b \<noteq> fp_pinned p then Some (fp_pinned p) else None)
           in if gs \<noteq> None \<or> docked \<noteq> None \<or> pinned \<noteq> None
              then syncFilePreviewLayout (fp_id p) gs docked pinned None d else d))"

definition previews_effect :: "session \<Rightarrow> layout_sync \<Rightarrow> layout_sync" where
  "previews_effect s d =
     edit_prev (\<lambda>p. p\<lparr>pr_previews := ss_previews s\<rparr>) (fold (preview_effect (pr_previews (ys_prev d))) (ss_previews s) d)"

definition remember_editor :: "session \<Rightarrow> prev_layout \<Rightarrow> prev_layout" where
  "remember_editor s p = p\<lparr>pr_editorId := Some (ss_editorGridCardId s), pr_editorSpan := ss_editorGridSpan s,
     pr_editorPosition := ss_editorFreeformPosition s\<rparr>"

definition editor_first_effect :: "session \<Rightarrow> layout_sync \<Rightarrow> layout_sync" where
  "editor_first_effect s d =
     edit_prev (\<lambda>p. (remember_editor s p)\<lparr>pr_initialSynced := True\<rparr>)
       (maybe syncEditorFreeformPosition (ss_editorFreeformPosition s)
         (maybe syncEditorGridSpan (ss_editorGridSpan s) (syncEditorGridCard (ss_editorGridCardId s) d)))"

definition editor_card_effect :: "session \<Rightarrow> layout_sync \<Rightarrow> layout_sync" where
  "editor_card_effect s d =
     (if pr_editorId (ys_prev d) = Some (ss_editorGridCardId s) then d
      else edit_prev (\<lambda>p. p\<lparr>pr_editorId := Some (ss_editorGridCardId s)\<rparr>) (syncEditorGridCard (ss_editorGridCardId s) d))"

definition editor_span_effect :: "session \<Rightarrow> layout_sync \<Rightarrow> layout_sync" where
  "editor_span_effect s d =
     (case ss_editorGridSpan s of
        None \<Rightarrow> d
      | Some gs \<Rightarrow>
          if span_changed (pr_editorSpan (ys_prev d)) gs
          then edit_prev (\<lambda>p. p\<lparr>pr_editorSpan := Some gs\<rparr>) (syncEditorGridSpan gs d) else d)"

definition editor_position_effect :: "session \<Rightarrow> layout_sync \<Rightarrow> layout_sync" where
  "editor_position_effect s d =
     (case (ss_editorFreeformPosition s, pr_editorPosition (ys_prev d)) of
        (Some p, Some q) \<Rightarrow>
          if position_changed q p
          then edit_prev (\<lambda>r. r\<lparr>pr_editorPosition := Some p\<rparr>) (syncEditorFreeformPosition p d) else d
      | _ \<Rightarrow> d)"

definition editor_effect :: "session \<Rightarrow> layout_sync \<Rightarrow> layout_sync" where
  "editor_effect s d =
     (if \<not> pr_initialSynced (ys_prev d) \<and> truthy (ss_editorGridCardId s) then editor_first_effect s d
      else editor_position_effect s (editor_span_effect s (editor_card_effect s d)))"

text \<open>A rendering: the effects of the hook, then those of the provider, in their order.\<close>

definition rendered :: "layout_sync \<Rightarrow> layout_sync" where
  "rendered d =
     (case synced_session d of
        None \<Rightarrow> edit_prev (\<lambda>p. p\<lparr>pr_editorLayout := None, pr_seenEditor := None\<rparr>) d
      | Some s \<Rightarrow>
          editor_effect s (previews_effect s (agents_effect s (active_agent_effect s (view_mode_effect s
            (edit_prev (\<lambda>p. p\<lparr>pr_seenEditor := ss_editorGridCardId s\<rparr>) (editor_tabs_effect d)))))))"

text \<open>A provider that is mounted: the references hold what the session is, but for the card.\<close>

definition mount_sync :: "session_state \<Rightarrow> editor_state \<Rightarrow> ident option \<Rightarrow> ident \<Rightarrow> ident \<Rightarrow> layout_sync" where
  "mount_sync st ed user device sessionId =
     (let s = map_of (st_sessions st) sessionId
      in \<lparr>ys_store = st, ys_editor = ed, ys_user = user, ys_deviceId = device, ys_sessionId = sessionId,
          ys_applying = False, ys_layoutSave = None, ys_agentSave = None, ys_previewSave = None, ys_editorSave = None,
          ys_pendingChange = None, ys_requests = [], ys_emitted = [], ys_mounted = None,
          ys_prev = \<lparr>pr_viewMode = map_option ss_viewMode s, pr_activeAgentId = map_option ss_activeAgentId s,
            pr_agents = (case s of None \<Rightarrow> [] | Some x \<Rightarrow> ss_agents x),
            pr_previews = (case s of None \<Rightarrow> [] | Some x \<Rightarrow> ss_previews x), pr_editorId = None,
            pr_editorSpan = (case s of None \<Rightarrow> None | Some x \<Rightarrow> ss_editorGridSpan x),
            pr_editorPosition = (case s of None \<Rightarrow> None | Some x \<Rightarrow> ss_editorFreeformPosition x),
            pr_initialSynced = False, pr_seenEditor = None, pr_editorLayout = None\<rparr>\<rparr>)"

section \<open>Events\<close>

datatype sync_event =
    EditSession "session_state \<Rightarrow> session_state"
  | EditEditor "editor_state \<Rightarrow> editor_state"
  | LayoutRendered
  | LayoutTimer
  | AgentTimer
  | PreviewTimer
  | EditorTimer
  | ChangeTimer int
  | LayoutReceived clock string layout_event
  | LoadStarted
  | LoadAnswered clock string "server_layout option"
  | FullSyncAnswered server_layout

fun sync_step :: "sync_event \<Rightarrow> layout_sync \<Rightarrow> layout_sync" where
  "sync_step (EditSession f) d = edit_store f d"
| "sync_step (EditEditor f) d = d\<lparr>ys_editor := f (ys_editor d)\<rparr>"
| "sync_step LayoutRendered d = rendered d"
| "sync_step LayoutTimer d = layout_timer d"
| "sync_step AgentTimer d = agent_timer d"
| "sync_step PreviewTimer d = preview_timer d"
| "sync_step EditorTimer d = editor_timer d"
| "sync_step (ChangeTimer now) d = change_timer now d"
| "sync_step (LayoutReceived clk rnd e) d = layout_received clk rnd e d"
| "sync_step LoadStarted d = load_started d"
| "sync_step (LoadAnswered clk rnd a) d = load_answered clk rnd a d"
| "sync_step (FullSyncAnswered sv) d = full_sync_answered sv d"

end
