(* ===== verification/Layout_Sync_Properties.thy ===== *)
theory Layout_Sync_Properties
  imports Layout_Sync Session_Properties Editor_Properties
begin

text \<open>
  What the synchronisation of layouts achieves and where it fails: the saved tabs restore the same
  editor, a moved agent follows on the other devices, and the theorems about lost, echoed and
  never told changes.
\<close>

section \<open>The tabs of the editor\<close>

lemma map_of_map_value: "map_of (map (\<lambda>(k, v). (k, f k v)) es) k = map_option (f k) (map_of es k)"
  by (induction es) auto

lemma map_of_map_entries [simp]: "obj_ok m \<Longrightarrow> map_of (map_entries f m) k = map_option (f k) (map_of m k)"
  using distinct_own_keys [of m]
  by (simp add: map_entries_def from_entries_distinct own_keys_def comp_def case_prod_beta' map_of_map_value [unfolded case_prod_beta'])

lemma obj_ok_map_entries [simp]: "obj_ok m \<Longrightarrow> obj_ok (map_entries f m)"
  using distinct_own_keys [of m]
  by (simp add: map_entries_def from_entries_distinct own_keys_def comp_def case_prod_beta')

definition saved_tab :: "editor_tab \<Rightarrow> editor_tab" where
  "saved_tab t = t\<lparr>et_isDirty := False, et_scrollPosition := None, et_cursorPosition := None\<rparr>"

lemma saved_tab_simps [simp]: "et_id (saved_tab t) = et_id t" "et_paneId (saved_tab t) = et_paneId t"
  by (simp_all add: saved_tab_def)

lemma tab_pane_found:
  assumes "editor_ok st" "editor_tabs_payload st = Some l" "map_of (es_tabs st) i = Some t"
  shows "tab_pane l i = et_paneId t"
proof -
  have ok: "layout_ok (map_of (es_tabs st)) (map_of (es_panes st))" "obj_ok (es_panes st)"
    using assms(1) by (simp_all add: editor_ok_def order_ok_def)
  have l: "etl_panes l = map_entries (\<lambda>k. pane_to_api) (es_panes st)"
    using assms(2) by (auto simp: editor_tabs_payload_def split: if_splits)
  have panes: "p \<in> set (own_values (etl_panes l)) \<longleftrightarrow> (\<exists>k q. map_of (es_panes st) k = Some q \<and> p = pane_to_api q)" for p
    using ok(2) by (auto simp: l in_own_values)
  obtain q where q: "map_of (es_panes st) (et_paneId t) = Some q" "i \<in> set (sp_tabs q)"
    using layout_okD(1) [OF ok(1) assms(3)] by (auto simp: tab_ok_def)
  have "apn_id p = et_paneId t \<and> et_paneId t \<noteq> []"
    if p: "p \<in> set (own_values (etl_panes l))" "i \<in> set (apn_tabs p)" for p
  proof -
    obtain k r where r: "map_of (es_panes st) k = Some r" "p = pane_to_api r"
      using p(1) panes by blast
    then have "et_paneId t = k"
      using pane_tab [OF ok(1) r(1), of i] p(2) assms(3) by (simp add: pane_to_api_def)
    with layout_okD(2) [OF ok(1) r(1)] r(2) show ?thesis by (simp add: pane_ok_def pane_to_api_def)
  qed
  moreover have "pane_to_api q \<in> set (own_values (etl_panes l))" "i \<in> set (apn_tabs (pane_to_api q))"
    using q panes by (blast, simp add: pane_to_api_def)
  ultimately show ?thesis
    by (auto simp: tab_pane_def str_or_def truthy_def find_None_iff dest: find_SomeD split: option.split)
qed

lemma editor_tabs_restored:
  assumes "editor_ok st" "editor_tabs_payload st = Some l" "st' = restore_editor_tabs l other"
  shows "editor_view st' = (es_splitLayout st, es_panes st', es_paneOrder st, es_activePaneId st, es_tabs st') \<and>
    map_of (es_panes st') = map_of (es_panes st) \<and>
    map_of (es_tabs st') i = map_option saved_tab (map_of (es_tabs st) i) \<and>
    es_recentlyClosed st' = es_recentlyClosed other"
proof -
  have ok: "obj_ok (es_panes st)" "obj_ok (es_tabs st)" "es_paneOrder st \<noteq> []" "es_activePaneId st \<noteq> None"
    using assms(1) by (auto simp: editor_ok_def order_ok_def)
  have l: "l = \<lparr>etl_split_layout = es_splitLayout st, etl_panes = map_entries (\<lambda>k. pane_to_api) (es_panes st),
      etl_pane_order = es_paneOrder st, etl_active_pane_id = es_activePaneId st,
      etl_tabs = map_entries (\<lambda>k. tab_to_api) (es_tabs st)\<rparr>"
    using assms(2) by (simp add: editor_tabs_payload_def split: if_splits)
  have "tab_from_api l i (tab_to_api t) = saved_tab t" if "map_of (es_tabs st) i = Some t" for t
    using tab_pane_found [OF assms(1,2) that] by (simp add: tab_from_api_def tab_to_api_def saved_tab_def)
  moreover have "pane_from_api (pane_to_api p) = p" for p
    by (simp add: pane_from_api_def pane_to_api_def)
  ultimately show ?thesis
    using ok unfolding assms(3)
    by (cases "map_of (es_tabs st) i")
      (auto simp: restore_editor_tabs_def setLayout_def editor_view_def l coalesce_def option.map_comp comp_def
        option.map_ident intro!: ext)
qed

lemma restored_editor_ok:
  assumes "editor_ok st" "editor_tabs_payload st = Some l" "editor_ok other"
  shows "editor_ok (restore_editor_tabs l other)"
proof -
  let ?s = "restore_editor_tabs l other"
  let ?l = "\<lparr>ly_tabs = map_entries (tab_from_api l) (etl_tabs l), ly_panes = map_entries (\<lambda>k. pane_from_api) (etl_panes l),
       ly_paneOrder = etl_pane_order l, ly_activePaneId = etl_active_pane_id l, ly_splitLayout = etl_split_layout l\<rparr>"
  have ok: "layout_ok (map_of (es_tabs st)) (map_of (es_panes st))" "paths_ok (map_of (es_tabs st))"
    "order_ok (es_paneOrder st) (es_panes st)" "order_ok (es_tabOrder st) (es_tabs st)"
    using assms(1) by (simp_all add: editor_ok_def)
  obtain k where k: "k \<in> dom (map_of (es_panes st))" "es_activePaneId st = Some k"
    using assms(1) by (auto simp: editor_ok_def)
  have tabs: "map_of (ly_tabs ?l) = (\<lambda>i. map_option saved_tab (map_of (es_tabs st) i))" and panes: "map_of (ly_panes ?l) = map_of (es_panes st)"
    using editor_tabs_restored [OF assms(1,2) refl, of other] by (auto simp: restore_editor_tabs_def setLayout_def)
  have l: "etl_pane_order l = es_paneOrder st" "etl_active_pane_id l = es_activePaneId st" "obj_ok (etl_panes l)" "obj_ok (etl_tabs l)"
    using assms(2) ok(3,4) by (auto simp: editor_tabs_payload_def order_ok_def split: if_splits)
  have "layout_ok (map_of (ly_tabs ?l)) (map_of (ly_panes ?l))"
    unfolding tabs panes using ok(1) by (fastforce simp: layout_ok_def tab_ok_def pane_ok_def)
  moreover have "paths_ok (map_of (ly_tabs ?l))"
    unfolding tabs using ok(2) by (force simp: paths_ok_def saved_tab_def)
  moreover have "order_ok (ly_paneOrder ?l) (ly_panes ?l)"
    using ok(3) l(1,3) panes by (simp add: order_ok_def)
  moreover have "coalesce (ly_activePaneId ?l) DEFAULT_PANE_ID \<in> dom (map_of (ly_panes ?l))"
    unfolding panes using k l(2) by (simp add: coalesce_def)
  moreover have "ly_paneOrder ?l \<noteq> []" "obj_ok (ly_tabs ?l)"
    using ok(3) k(1) l(1,4) by (auto simp: order_ok_def)
  ultimately have "snapshot_ok ?l"
    by (simp add: snapshot_ok_def)
  from setLayout_ok [OF this assms(3)] show ?thesis
    by (simp add: restore_editor_tabs_def)
qed

text \<open>
  C28: What is saved of an editor and restored, on whatever device, is the same layout: the panes, their
  order and the active one, and the tabs but for unsaved marks, scroll and cursor positions, each
  in its pane; and the restored editor is consistent.
\<close>

theorem editor_tabs_roundtrip:
  assumes "editor_ok st" "editor_tabs_payload st = Some l" "editor_ok other" "st' = restore_editor_tabs l other"
  shows "editor_view st' = (es_splitLayout st, es_panes st', es_paneOrder st, es_activePaneId st, es_tabs st') \<and>
    map_of (es_panes st') = map_of (es_panes st) \<and>
    map_of (es_tabs st') = map_option saved_tab \<circ> map_of (es_tabs st) \<and> editor_ok st'"
  using editor_tabs_restored [OF assms(1,2,4)] restored_editor_ok [OF assms(1-3)]
  by (auto simp: assms(4))

section \<open>From one device to another\<close>

lemma roundtrip_span: "fromApiGridSpan (toApiGridSpan gs) = gs \<longleftrightarrow> colStart gs = None"
  by (cases gs) (auto simp: fromApiGridSpan_def toApiGridSpan_def)




lemmas sync_defs = syncViewMode_def syncActiveAgent_def syncAgentGridSpan_def syncAgentPosition_def
  syncFilePreviewLayout_def syncEditorGridCard_def syncEditorGridSpan_def syncEditorFreeformPosition_def
  unless_applying_def emitChange_def emitLayoutChange_def saveLayout_def Let_def

text \<open>
  The timers are shared: of two agents that move within the delay (for instance in one action) only
  the second is saved and told, the first is known to nobody else.
\<close>

theorem moved_together_one_lost:
  assumes "ys_user d = Some u" "\<not> ys_applying d"
    and "d' = change_timer now (agent_timer (syncAgentPosition j q (syncAgentPosition i p d)))"
  shows "ys_requests d' = ys_requests d @ [PatchAgent (ys_sessionId d) j None (Some (toApiPosition q))] \<and>
    map le_payload (ys_emitted d') = map le_payload (ys_emitted d) @ [AgentPayload j None (Some (toApiPosition q))] \<and>
    ys_agentSave d' = None \<and> ys_pendingChange d' = None"
  using assms(1,2) unfolding assms(3) by (simp add: sync_defs change_timer_def agent_timer_def)

text \<open>A change of the view and of the active agent within half a second: the view is not saved.\<close>

lemma earlier_save_lost:
  assumes "\<not> ys_applying d"
  shows "ys_requests (layout_timer (syncActiveAgent a (syncViewMode m d))) =
    ys_requests d @ [PutLayout (ys_sessionId d) (SaveActiveAgent a)]"
  using assms by (simp add: sync_defs layout_timer_def split: option.split)

section \<open>Renderings\<close>

text \<open>A device whose references hold the session as it is.\<close>

definition quiet :: "session \<Rightarrow> layout_sync \<Rightarrow> bool" where
  "quiet s d \<longleftrightarrow> synced_session d = Some s \<and> \<not> ys_applying d \<and>
     distinct (map ag_id (ss_agents s)) \<and> distinct (map fp_id (ss_previews s)) \<and>
     ys_prev d = \<lparr>pr_viewMode = Some (ss_viewMode s), pr_activeAgentId = Some (ss_activeAgentId s), pr_agents = ss_agents s,
       pr_previews = ss_previews s, pr_editorId = Some (ss_editorGridCardId s), pr_editorSpan = ss_editorGridSpan s,
       pr_editorPosition = ss_editorFreeformPosition s, pr_initialSynced = True,
       pr_seenEditor = ss_editorGridCardId s, pr_editorLayout = Some (editor_view (ys_editor d))\<rparr>"

lemma map_of_rev_keyed:
  assumes "distinct (map k xs)" "x \<in> set xs"
  shows "map_of (rev (map (\<lambda>a. (k a, a)) xs)) (k x) = Some x"
proof -
  have "distinct (map fst (rev (map (\<lambda>a. (k a, a)) xs)))"
    using assms(1) by (simp add: comp_def flip: rev_map)
  with assms(2) show ?thesis by (intro map_of_is_SomeI) auto
qed

lemma fold_same: "(\<And>x. x \<in> set xs \<Longrightarrow> f x d = d) \<Longrightarrow> fold f xs d = d"
  by (induction xs) auto

lemma unchanged [simp]: "\<not> span_changed (Some gs) gs" "\<not> position_changed p p"
  by (simp_all add: span_changed_def position_changed_def)

lemma agents_unchanged:
  "distinct (map ag_id xs) \<Longrightarrow> fold (agent_effect xs) xs d = d"
  by (intro fold_same) (auto simp: agent_effect_def map_of_rev_keyed split: option.split)

lemma previews_unchanged:
  "distinct (map fp_id xs) \<Longrightarrow> fold (preview_effect xs) xs d = d"
  by (intro fold_same) (auto simp: preview_effect_def map_of_rev_keyed Let_def split: option.split)

lemmas effect_defs = editor_tabs_effect_def view_mode_effect_def active_agent_effect_def agents_effect_def previews_effect_def
  editor_effect_def editor_card_effect_def editor_span_effect_def editor_position_effect_def edit_prev_def

lemma quiet_rendered: "quiet s d \<Longrightarrow> rendered d = d"
  by (simp add: quiet_def rendered_def effect_defs agents_unchanged previews_unchanged split: option.split)

lemma view_change_told:
  assumes "quiet s d" "m \<noteq> ss_viewMode s" "ys_user d = Some u"
    and "d' = rendered (edit_store (setViewMode (ys_sessionId d) m) d)"
  shows "quiet (s\<lparr>ss_viewMode := m\<rparr>) d' \<and>
    ys_pendingChange d' = Some \<lparr>pe_session_id = ys_sessionId d, pe_user_id = u, pe_device_id = ys_deviceId d,
      pe_payload = ViewModePayload m\<rparr> \<and>
    ys_user d' = Some u \<and> ys_sessionId d' = ys_sessionId d \<and> ys_deviceId d' = ys_deviceId d"
  using assms(1-3) unfolding assms(4)
  by (simp add: quiet_def rendered_def effect_defs agents_unchanged previews_unchanged synced_session_def edit_store_def
      setViewMode_def with_session_def sync_defs split: option.split)







text \<open>The event a device sends for the change it has pending, and what another device makes of it.\<close>

definition pending_view :: "view_mode \<Rightarrow> layout_sync \<Rightarrow> bool" where
  "pending_view m d \<longleftrightarrow> (\<exists>u. ys_user d = Some u \<and>
     ys_pendingChange d = Some \<lparr>pe_session_id = ys_sessionId d, pe_user_id = u, pe_device_id = ys_deviceId d,
       pe_payload = ViewModePayload m\<rparr>)"

text \<open>One round: both send what is pending, both receive it, both render.\<close>

definition exchange :: "int \<Rightarrow> clock \<Rightarrow> string \<Rightarrow> layout_sync \<times> layout_sync \<Rightarrow> layout_sync \<times> layout_sync" where
  "exchange now clk rnd = (\<lambda>(a, b).
     let a1 = change_timer now a; b1 = change_timer now b
     in (rendered (layout_received clk rnd (last (ys_emitted b1)) a1),
         rendered (layout_received clk rnd (last (ys_emitted a1)) b1)))"

lemma received_view:
  assumes "quiet s a" "pending_view m b" "m \<noteq> ss_viewMode s" "ys_user a = Some u"
    and "ys_sessionId b = ys_sessionId a" "ys_deviceId b \<noteq> ys_deviceId a"
    and "a' = rendered (layout_received clk rnd (last (ys_emitted (change_timer now b))) (change_timer now a))"
  shows "quiet (s\<lparr>ss_viewMode := m\<rparr>) a' \<and> pending_view m a' \<and> ys_user a' = Some u \<and>
    ys_sessionId a' = ys_sessionId a \<and> ys_deviceId a' = ys_deviceId a"
proof -
  let ?a = "change_timer now a"
  have q: "quiet s ?a" "ys_user ?a = Some u" "ys_sessionId ?a = ys_sessionId a" "ys_deviceId ?a = ys_deviceId a" "\<not> ys_applying ?a"
    using assms(1,4) by (auto simp: quiet_def change_timer_def synced_session_def split: option.split)
  have "layout_received clk rnd (last (ys_emitted (change_timer now b))) ?a = edit_store (setViewMode (ys_sessionId ?a) m) ?a"
    using assms(2,5,6) q(3-5)
    by (auto simp: pending_view_def change_timer_def layout_received_def edit_store_def set_applying_def split: option.split)
  with view_change_told [OF q(1) assms(3) q(2) refl] q(3,4) show ?thesis
    unfolding assms(7) by (simp add: pending_view_def)
qed

text \<open>
  Nothing stops a device from telling what it was told: the flag against it is only set while the
  handler runs, before the effects. When two devices change the view at the same time, each takes
  over the view of the other and tells it back, and so for ever: after every round they show
  different views again, with the next exchange pending.
\<close>

theorem crossing_changes_never_settle:
  assumes "quiet s a" "quiet t b" "pending_view (ss_viewMode s) a" "pending_view (ss_viewMode t) b"
    and "ss_viewMode s \<noteq> ss_viewMode t" "ys_sessionId b = ys_sessionId a" "ys_deviceId b \<noteq> ys_deviceId a"
  shows "\<exists>s' t' a' b'. (exchange now clk rnd ^^ n) (a, b) = (a', b') \<and>
    synced_session a' = Some s' \<and> synced_session b' = Some t' \<and>
    ss_viewMode s' = (if even n then ss_viewMode s else ss_viewMode t) \<and>
    ss_viewMode t' = (if even n then ss_viewMode t else ss_viewMode s) \<and>
    ys_pendingChange a' \<noteq> None \<and> ys_pendingChange b' \<noteq> None"
proof -
  have "\<exists>s' t' a' b'. (exchange now clk rnd ^^ n) (a, b) = (a', b') \<and> quiet s' a' \<and> quiet t' b' \<and>
    pending_view (ss_viewMode s') a' \<and> pending_view (ss_viewMode t') b' \<and>
    ys_sessionId b' = ys_sessionId a' \<and> ys_deviceId b' \<noteq> ys_deviceId a' \<and>
    ss_viewMode s' = (if even n then ss_viewMode s else ss_viewMode t) \<and>
    ss_viewMode t' = (if even n then ss_viewMode t else ss_viewMode s)"
  proof (induction n)
    case 0
    show ?case using assms by auto
  next
    case (Suc n)
    then obtain s' t' a' b' where IH: "(exchange now clk rnd ^^ n) (a, b) = (a', b')" "quiet s' a'" "quiet t' b'"
        "pending_view (ss_viewMode s') a'" "pending_view (ss_viewMode t') b'"
        "ys_sessionId b' = ys_sessionId a'" "ys_deviceId b' \<noteq> ys_deviceId a'"
        "ss_viewMode s' = (if even n then ss_viewMode s else ss_viewMode t)"
        "ss_viewMode t' = (if even n then ss_viewMode t else ss_viewMode s)"
      by blast
    have ne: "ss_viewMode t' \<noteq> ss_viewMode s'" "ss_viewMode s' \<noteq> ss_viewMode t'"
      using IH(8,9) assms(5) by (auto split: if_splits)
    obtain u v where uv: "ys_user a' = Some u" "ys_user b' = Some v"
      using IH(4,5) by (auto simp: pending_view_def)
    obtain a2 b2 where e: "exchange now clk rnd (a', b') = (a2, b2)" by fastforce
    then have ab: "a2 = rendered (layout_received clk rnd (last (ys_emitted (change_timer now b'))) (change_timer now a'))"
        "b2 = rendered (layout_received clk rnd (last (ys_emitted (change_timer now a'))) (change_timer now b'))"
      by (simp_all add: exchange_def Let_def)
    note A = received_view [OF IH(2,5) ne(1) uv(1) IH(6,7) ab(1)]
    note B = received_view [OF IH(3,4) ne(2) uv(2) IH(6) [symmetric] IH(7) [symmetric] ab(2)]
    show ?case
      using A B IH(1,6-9) e
      by (intro exI [of _ "s'\<lparr>ss_viewMode := ss_viewMode t'\<rparr>"] exI [of _ "t'\<lparr>ss_viewMode := ss_viewMode s'\<rparr>"]
          exI [of _ a2] exI [of _ b2]) simp
  qed
  then show ?thesis
    by (auto simp: quiet_def pending_view_def)
qed


text \<open>
  A device that opens a session whose layout has no card (for instance since it could not be
  loaded) tells so, and the card is removed on every device that has it.
\<close>

theorem opening_removes_card:
  assumes "map_of (st_sessions st) i = Some s" "ss_editorGridCardId s = None"
    and "distinct (map ag_id (ss_agents s))" "distinct (map fp_id (ss_previews s))"
    and "synced_session b = Some t" "truthy (pr_seenEditor (ys_prev b))" "ys_sessionId b = i" "ys_deviceId b \<noteq> dev"
    and "d = rendered (mount_sync st ed (Some u) dev i)" "e = last (ys_emitted (change_timer now d))"
  shows "ys_editorSave d = Some (no_editor_update\<lparr>eu_card_id := Some None\<rparr>) \<and>
    synced_session (layout_received clk rnd e b) = Some (t\<lparr>ss_editorGridCardId := None, ss_editorGridSpan := None\<rparr>)"
proof -
  have "ys_pendingChange d = Some \<lparr>pe_session_id = i, pe_user_id = u, pe_device_id = dev, pe_payload = EditorPayload (Some None) None None\<rparr> \<and>
      ys_editorSave d = Some (no_editor_update\<lparr>eu_card_id := Some None\<rparr>)"
    using assms(1-4) unfolding assms(9)
    by (simp add: rendered_def mount_sync_def effect_defs agents_unchanged previews_unchanged synced_session_def sync_defs
        truthy_def split: option.split)
  then show ?thesis
    using assms(5-8) unfolding assms(10)
    by (simp add: change_timer_def layout_received_def edit_store_def set_applying_def synced_session_def maybe_def
        apply_editor_layout_def apply_editor_card_def truthy_def removeEditorGridCard_def with_session_def split: option.splits)
qed

text \<open>
  The position of the editor card is only compared with an earlier one, and the reference is only
  set in the comparison: once the card was seen without a position, no position is told any more.
\<close>

definition no_position :: "layout_sync \<Rightarrow> bool" where
  "no_position d \<longleftrightarrow> pr_initialSynced (ys_prev d) \<and> pr_editorPosition (ys_prev d) = None \<and>
     (\<forall>c p. ys_pendingChange d = Some c \<longrightarrow> (\<forall>i sp. pe_payload c \<noteq> EditorPayload i sp (Some p)))"

definition tells_position :: "layout_event \<Rightarrow> bool" where
  "tells_position e \<longleftrightarrow> (\<exists>i sp p. le_payload e = EditorPayload i sp (Some p))"

text \<open>What an effect keeps: the reference, the events sent, and that no position is pending.\<close>

definition same_position :: "layout_sync \<Rightarrow> layout_sync \<Rightarrow> bool" where
  "same_position d d' \<longleftrightarrow> (no_position d \<longrightarrow> no_position d' \<and> ys_emitted d' = ys_emitted d)"

lemma same_position_refl [simp]: "same_position d d"
  by (simp add: same_position_def)

lemma same_position_trans: "same_position d e \<Longrightarrow> same_position e f \<Longrightarrow> same_position d f"
  by (simp add: same_position_def)

lemma same_position_fold: "(\<And>x d. same_position d (f x d)) \<Longrightarrow> same_position d (fold f xs d)"
  by (induction xs arbitrary: d) (auto intro: same_position_trans)

lemma same_position_sync:
  "same_position d (syncViewMode m d)" "same_position d (syncActiveAgent a d)"
  "same_position d (syncAgentGridSpan i gs d)" "same_position d (syncAgentPosition i p d)"
  "same_position d (syncFilePreviewLayout i gso docked pinned path d)"
  "same_position d (syncEditorGridCard i' d)" "same_position d (syncEditorGridSpan gs d)"
  "same_position d (saveLayout up d)"
  by (simp_all add: sync_defs same_position_def no_position_def split: option.split)

lemmas same_position_after [simp, intro] = same_position_sync [THEN same_position_trans [rotated]]

lemma no_position_prev:
  "(\<And>p. pr_initialSynced (f p) = pr_initialSynced p \<and> pr_editorPosition (f p) = pr_editorPosition p) \<Longrightarrow>
   no_position (edit_prev f d) = no_position d"
  by (simp add: no_position_def edit_prev_def)

lemma same_position_prev [simp]:
  "same_position d d' \<Longrightarrow>
   (\<And>p. pr_initialSynced (f p) = pr_initialSynced p \<and> pr_editorPosition (f p) = pr_editorPosition p) \<Longrightarrow>
   same_position d (edit_prev f d')"
  unfolding same_position_def by (subst no_position_prev) (simp_all add: edit_prev_def)

lemma same_position_effects:
  "same_position d (editor_tabs_effect d)" "same_position d (view_mode_effect s d)" "same_position d (active_agent_effect s d)"
  "same_position d (agents_effect s d)" "same_position d (previews_effect s d)"
proof -
  note [intro] = same_position_trans
  show "same_position d (editor_tabs_effect d)"
    by (auto simp: editor_tabs_effect_def unless_applying_def)
  show "same_position d (view_mode_effect s d)" "same_position d (active_agent_effect s d)"
    by (auto simp: view_mode_effect_def active_agent_effect_def)
  have "same_position d (agent_effect xs a d)" for xs a d
    by (auto simp: agent_effect_def Let_def split: option.split)
  then show "same_position d (agents_effect s d)"
    by (simp add: agents_effect_def same_position_fold)
  have "same_position d (preview_effect xs a d)" for xs a d
    by (auto simp: preview_effect_def Let_def split: option.split)
  then show "same_position d (previews_effect s d)"
    by (simp add: previews_effect_def same_position_fold)
qed

lemma same_position_editor: "same_position d (editor_effect s d)"
proof (cases "no_position d")
  case True
  then have i: "pr_initialSynced (ys_prev d)" by (simp add: no_position_def)
  have "same_position d (editor_card_effect s d)"
    by (auto simp: editor_card_effect_def intro: same_position_trans)
  moreover have "same_position d' (editor_span_effect s d')" for d'
    by (auto simp: editor_span_effect_def split: option.split intro: same_position_trans)
  moreover have "same_position d' (editor_position_effect s d')" for d'
    by (auto simp: editor_position_effect_def same_position_def no_position_def split: option.split)
  ultimately have "same_position d (editor_position_effect s (editor_span_effect s (editor_card_effect s d)))"
    by (blast intro: same_position_trans)
  with i show ?thesis by (simp add: editor_effect_def)
qed (simp add: same_position_def)

lemma same_position_rendered: "same_position d (rendered d)"
proof (cases "synced_session d")
  case (Some s)
  have "same_position d (edit_prev (\<lambda>p. p\<lparr>pr_seenEditor := ss_editorGridCardId s\<rparr>) (editor_tabs_effect d))"
    by (rule same_position_trans [OF same_position_effects(1)]) simp
  then show ?thesis
    unfolding rendered_def Some option.case
    by (intro same_position_trans [OF _ same_position_editor] same_position_trans [OF _ same_position_effects(5)]
        same_position_trans [OF _ same_position_effects(4)] same_position_trans [OF _ same_position_effects(3)]
        same_position_trans [OF _ same_position_effects(2)])
qed (simp add: rendered_def)

lemma no_position_step:
  assumes "no_position d"
  shows "no_position (sync_step e d) \<and> (\<exists>es. ys_emitted (sync_step e d) = ys_emitted d @ es \<and> (\<forall>x \<in> set es. \<not> tells_position x))"
proof (cases e)
  case LayoutRendered
  then show ?thesis
    using same_position_rendered [of d] assms by (simp add: same_position_def)
next
  case (ChangeTimer now)
  then show ?thesis
    using assms by (auto simp: change_timer_def no_position_def tells_position_def split: option.split)
next
  case (LoadAnswered clk rnd a)
  then show ?thesis
    using assms
    by (auto simp: load_answered_def load_editor_card_def set_applying_def edit_store_def no_position_def Let_def split: option.split)
qed (use assms in \<open>auto simp: edit_store_def layout_timer_def agent_timer_def preview_timer_def editor_timer_def load_started_def
    layout_received_def set_applying_def full_sync_answered_def no_position_def split: option.split\<close>)

theorem editor_position_never_told:
  assumes "no_position d"
  shows "\<exists>news. ys_emitted (fold sync_step es d) = ys_emitted d @ news \<and> filter tells_position news = []"
  using assms
proof (induction es arbitrary: d)
  case (Cons e es)
  obtain n1 where n1: "ys_emitted (sync_step e d) = ys_emitted d @ n1" "\<forall>x \<in> set n1. \<not> tells_position x" "no_position (sync_step e d)"
    using no_position_step [OF Cons.prems, of e] by blast
  with Cons.IH [OF n1(3)] show ?case
    by (auto simp: filter_empty_conv)
qed simp


section \<open>Examples\<close>

definition ex_place :: position where
  "ex_place = \<lparr>pos_x = Some 10, pos_y = Some 20, pos_width = Some 300, pos_height = Some 200, pos_zIndex = Some 1\<rparr>"

definition ex_shared :: session where
  "ex_shared = (ex_session [ex_agent ''a'' None, ex_agent ''b'' None] [])\<lparr>ss_editorGridCardId := Some ''c''\<rparr>"

definition ex_device :: "ident \<Rightarrow> layout_sync" where
  "ex_device dev = change_timer 0 (rendered (mount_sync (ex_state ex_shared) init_editor (Some ''u'') dev ''s''))"

lemma ex_quiet: "quiet ex_shared (ex_device dev)" "ys_sessionId (ex_device dev) = ''s''" "ys_deviceId (ex_device dev) = dev"
    "ys_user (ex_device dev) = Some ''u''"
  by (simp_all add: ex_device_def ex_shared_def ex_defs mount_sync_def rendered_def effect_defs synced_session_def sync_defs
      quiet_def change_timer_def truthy_def editor_first_effect_def remember_editor_def maybe_def agent_effect_def)

theorem editor_tabs_roundtrip_witness:
  "\<exists>l. editor_tabs_payload ex_editor = Some l \<and>
     map_of (es_tabs (restore_editor_tabs l init_editor)) ''t3'' = Some (saved_tab (ex_tab ''t3'' ''c.ts'' ''p2'')) \<and>
     editor_ok (restore_editor_tabs l init_editor)"
proof -
  have t: "map_of (es_tabs ex_editor) ''t3'' = Some (ex_tab ''t3'' ''c.ts'' ''p2'')"
    by (simp add: ex_editor_def)
  then have "own_keys (es_tabs ex_editor) \<noteq> []"
    using set_own_keys [of "es_tabs ex_editor"] by force
  then obtain l where l: "editor_tabs_payload ex_editor = Some l"
    by (simp add: editor_tabs_payload_def)
  from editor_tabs_roundtrip [OF ex_editor_ok l init_editor_ok refl] t l show ?thesis by auto
qed





theorem moved_together_one_lost_witness:
  "ys_requests (change_timer 5 (agent_timer (syncAgentPosition ''b'' ex_place (syncAgentPosition ''a'' ex_place (ex_device ''1''))))) =
     ys_requests (ex_device ''1'') @ [PatchAgent ''s'' ''b'' None (Some (toApiPosition ex_place))]"
proof -
  have "\<not> ys_applying (ex_device ''1'')"
    using ex_quiet(1) by (simp add: quiet_def)
  from moved_together_one_lost [OF ex_quiet(4) this refl] show ?thesis
    by (simp add: ex_quiet(2))
qed

theorem crossing_changes_never_settle_witness:
  "\<exists>a b. synced_session a \<noteq> synced_session b \<and> ys_pendingChange a \<noteq> None \<and>
     (exchange 7 clk0 ''r'' ^^ 8) (rendered (edit_store (setViewMode ''s'' FocusView) (ex_device ''1'')),
        rendered (edit_store (setViewMode ''s'' FreeformView) (ex_device ''2''))) = (a, b)"
proof -
  let ?d = "\<lambda>dev m. rendered (edit_store (setViewMode ''s'' m) (ex_device dev))"
  have d: "quiet (ex_shared\<lparr>ss_viewMode := m\<rparr>) (?d dev m)" "pending_view m (?d dev m)" "ys_sessionId (?d dev m) = ''s''"
      "ys_deviceId (?d dev m) = dev" if "m \<noteq> GridView" for dev m
    using view_change_told [OF ex_quiet(1) _ ex_quiet(4) refl, of m dev] that
    by (simp_all add: ex_quiet pending_view_def, simp_all add: ex_shared_def ex_defs)
  from crossing_changes_never_settle [OF d(1) [of FocusView "''1''"] d(1) [of FreeformView "''2''"], where now = 7 and clk = clk0 and rnd = "''r''" and n = 8]
  show ?thesis
    by (simp add: d) force
qed

theorem opening_removes_card_witness:
  "\<exists>t. synced_session (layout_received clk0 ''r'' (last (ys_emitted (change_timer 5
     (rendered (mount_sync (ex_state (ex_session [] [])) init_editor (Some ''v'') ''2'' ''s''))))) (ex_device ''1'')) = Some t \<and>
     ss_editorGridCardId t = None"
proof -
  have "synced_session (ex_device ''1'') = Some ex_shared" "truthy (pr_seenEditor (ys_prev (ex_device ''1'')))"
    using ex_quiet(1) [of "''1''"] by (simp_all add: quiet_def ex_shared_def truthy_def)
  from opening_removes_card [OF _ _ _ _ this ex_quiet(2) _ refl refl, where st = "ex_state (ex_session [] [])" and s = "ex_session [] []" and dev = "''2''" and clk = clk0 and rnd = "''r''" and now = 5 and ed = init_editor and u = "''v''"]
  show ?thesis
    by (simp add: ex_quiet(3) ex_defs)
qed

theorem editor_position_never_told_witness:
  "filter tells_position (ys_emitted (fold sync_step [EditSession (updateEditorFreeformPosition ''s'' [PX 7]), LayoutRendered, ChangeTimer 9]
     (ex_device ''1''))) = []"
proof -
  have "no_position (ex_device ''1'')" "filter tells_position (ys_emitted (ex_device ''1'')) = []"
    by (simp_all add: ex_device_def ex_shared_def ex_defs mount_sync_def rendered_def effect_defs synced_session_def sync_defs
      no_position_def tells_position_def change_timer_def truthy_def editor_first_effect_def remember_editor_def maybe_def agent_effect_def)
  moreover obtain news where "ys_emitted (fold sync_step [EditSession (updateEditorFreeformPosition ''s'' [PX 7]), LayoutRendered, ChangeTimer 9]
      (ex_device ''1'')) = ys_emitted (ex_device ''1'') @ news" "filter tells_position news = []"
    using editor_position_never_told [OF calculation(1)] by blast
  ultimately show ?thesis by (simp only: filter_append append_Nil)
qed

end
