(* ===== verification/Web_Socket.thy ===== *)
theory Web_Socket
  imports Socket_Client
begin

text \<open>
  The WebSocket connection of the web application (\<open>apps/web/src/lib/socket.ts\<close>): the connection
  state, its listeners and the session to rejoin are kept as in the shared client, in variables of
  the module and with one socket that is never let go; a join first fetches a one-time token by
  HTTP. \<open>getWebSocketToken\<close> never fails, it answers \<open>null\<close>. When the token arrives everything that
  waits for it goes on before any other event, so the answer is one step. \<open>emitLayoutChange\<close> is part
  of the synchronisation of layouts.
\<close>

section \<open>State\<close>

record web_socket =
  wk_client :: socket_client
  wk_token :: "string option"
  wk_fetching :: bool
  wk_waiting :: "(nat \<times> ident \<times> ident) list"
  wk_fetches :: nat

definition init_web_socket :: web_socket where
  "init_web_socket = \<lparr>wk_client = new_socket_client False, wk_token = None, wk_fetching = False, wk_waiting = [], wk_fetches = 0\<rparr>"

definition on_client :: "(socket_client \<Rightarrow> socket_client) \<Rightarrow> web_socket \<Rightarrow> web_socket" where
  "on_client f w = w\<lparr>wk_client := f (wk_client w)\<rparr>"

section \<open>The token\<close>

definition clearWsToken :: "web_socket \<Rightarrow> web_socket" where
  "clearWsToken w = w\<lparr>wk_token := None\<rparr>"

text \<open>A join with the token, which is then used up.\<close>

definition send_join :: "string option \<Rightarrow> nat \<times> ident \<times> ident \<Rightarrow> web_socket \<Rightarrow> web_socket" where
  "send_join token = (\<lambda>(i, sessionId, userId) w.
     clearWsToken (on_client (edit_socket i
       (emitJoin \<lparr>as_sessionId = sessionId, as_userId = userId, as_authToken = token\<rparr>)) w))"

text \<open>\<open>await getWsToken()\<close> of a join: go on with the token at hand, or wait for the fetch.\<close>

definition getWsToken :: "nat \<times> ident \<times> ident \<Rightarrow> web_socket \<Rightarrow> web_socket" where
  "getWsToken join w =
     (if truthy (wk_token w) then send_join (wk_token w) join w
      else if wk_fetching w then w\<lparr>wk_waiting := wk_waiting w @ [join]\<rparr>
      else w\<lparr>wk_fetching := True, wk_waiting := [join], wk_fetches := wk_fetches w + 1\<rparr>)"

definition token_answered :: "string option \<Rightarrow> web_socket \<Rightarrow> web_socket" where
  "token_answered token w =
     (if wk_fetching w
      then fold (send_join token) (wk_waiting w) (w\<lparr>wk_token := token, wk_fetching := False, wk_waiting := []\<rparr>)
      else w)"

section \<open>Functions\<close>

definition web_getSocket :: "web_socket \<Rightarrow> web_socket \<times> nat" where
  "web_getSocket w = (let (c, i) = getSocket (wk_client w) in (w\<lparr>wk_client := c\<rparr>, i))"

definition web_onConnectionStateChange :: "nat \<Rightarrow> web_socket \<Rightarrow> web_socket" where
  "web_onConnectionStateChange l = on_client (onConnectionStateChange l)"

definition web_unsubscribe :: "nat \<Rightarrow> web_socket \<Rightarrow> web_socket" where
  "web_unsubscribe l = on_client (unsubscribe_state l)"

definition reconnectSocket :: "web_socket \<Rightarrow> web_socket" where
  "reconnectSocket = on_client reconnect_socket"

definition connectSocket :: "web_socket \<Rightarrow> web_socket" where
  "connectSocket = on_client connect_socket"

definition disconnectSocket :: "web_socket \<Rightarrow> web_socket" where
  "disconnectSocket = on_client disconnect_socket"

definition web_joinSession :: "ident \<Rightarrow> ident \<Rightarrow> web_socket \<Rightarrow> web_socket" where
  "web_joinSession sessionId userId w0 =
     (let (w, i) = web_getSocket w0;
          a = \<lparr>as_sessionId = sessionId, as_userId = userId, as_authToken = None\<rparr>;
          w1 = on_client (\<lambda>c. c\<lparr>sc_activeSession := Some a\<rparr>) w
      in if io_connected (sc_sockets (wk_client w1) ! i) then getWsToken (i, sessionId, userId) w1
         else on_client (edit_socket i (\<lambda>s. s\<lparr>io_onceConnect := io_onceConnect s @ [a]\<rparr>)) w1)"

definition web_leaveSession :: "ident \<Rightarrow> ident \<Rightarrow> web_socket \<Rightarrow> web_socket" where
  "web_leaveSession sessionId userId = on_client (leaveSession sessionId userId)"

definition onSocketEvent :: "string \<Rightarrow> nat \<Rightarrow> web_socket \<Rightarrow> web_socket" where
  "onSocketEvent event h = on_client (on_event event h)"

definition offSocketEvent :: "string \<Rightarrow> nat \<Rightarrow> web_socket \<Rightarrow> web_socket" where
  "offSocketEvent event h = on_client (off_event event h)"

definition web_emit :: "string \<Rightarrow> json \<Rightarrow> web_socket \<Rightarrow> web_socket" where
  "web_emit event data = on_client (emit_event event data)"

definition web_emitCursorUpdate :: "ident \<Rightarrow> ident \<Rightarrow> string \<Rightarrow> int \<Rightarrow> int \<Rightarrow> web_socket \<Rightarrow> web_socket" where
  "web_emitCursorUpdate session user path line column = on_client (emitCursorUpdate session user path line column)"

definition web_emitFileChange :: "ident \<Rightarrow> string \<Rightarrow> string \<Rightarrow> ident \<Rightarrow> web_socket \<Rightarrow> web_socket" where
  "web_emitFileChange session path change user = on_client (emitFileChange session path change user)"

definition web_attachTerminal :: "ident \<Rightarrow> web_socket \<Rightarrow> web_socket" where
  "web_attachTerminal w = on_client (attachTerminal w)"

definition web_detachTerminal :: "ident \<Rightarrow> web_socket \<Rightarrow> web_socket" where
  "web_detachTerminal w = on_client (detachTerminal w)"

definition web_sendTerminalInput :: "ident \<Rightarrow> string \<Rightarrow> web_socket \<Rightarrow> web_socket" where
  "web_sendTerminalInput w data = on_client (sendTerminalInput w data)"

definition web_resizeTerminal :: "ident \<Rightarrow> int \<Rightarrow> int \<Rightarrow> web_socket \<Rightarrow> web_socket" where
  "web_resizeTerminal w rows cols = on_client (resizeTerminal w rows cols)"

definition web_emitAttentionRead :: "ident \<Rightarrow> ident \<Rightarrow> web_socket \<Rightarrow> web_socket" where
  "web_emitAttentionRead session attention = on_client (emitAttentionRead session attention)"

definition web_emitAttentionDismiss :: "ident \<Rightarrow> ident \<Rightarrow> ident option \<Rightarrow> web_socket \<Rightarrow> web_socket" where
  "web_emitAttentionDismiss session attention agent = on_client (emitAttentionDismiss session attention agent)"

definition web_emitApprovalResponse :: "ident \<Rightarrow> ident \<Rightarrow> ident \<Rightarrow> bool \<Rightarrow> bool \<Rightarrow> web_socket \<Rightarrow> web_socket" where
  "web_emitApprovalResponse session agent approval approved addToAllowlist =
     on_client (emitApprovalResponse session agent approval approved addToAllowlist)"

definition web_emitNativeApprovalResponse :: "ident \<Rightarrow> ident \<Rightarrow> ident \<Rightarrow> bool \<Rightarrow> bool \<Rightarrow> web_socket \<Rightarrow> web_socket" where
  "web_emitNativeApprovalResponse session agent approval approved addToAllowlist =
     on_client (emitNativeApprovalResponse session agent approval approved addToAllowlist)"

definition subscribeToExtensions :: "string \<Rightarrow> web_socket \<Rightarrow> web_socket" where
  "subscribeToExtensions authToken = web_emit ''extension_subscribe'' (JObj [(''auth_token'', JStr authToken)])"

definition unsubscribeFromExtensions :: "web_socket \<Rightarrow> web_socket" where
  "unsubscribeFromExtensions = web_emit ''extension_unsubscribe'' (JObj [])"

section \<open>What the socket does\<close>

definition web_socket_up :: "nat \<Rightarrow> web_socket \<Rightarrow> web_socket" where
  "web_socket_up i w =
     (let w1 = on_client (\<lambda>c. updateConnectionState
            (\<lambda>s. s\<lparr>cs_connected := True, cs_error := None, cs_reconnecting := False, cs_reconnectAttempt := 0\<rparr>)
            (edit_socket i (\<lambda>s. s\<lparr>io_connected := True\<rparr>) c)) w;
          joins = io_onceConnect (sc_sockets (wk_client w1) ! i)
      in fold (\<lambda>a. getWsToken (i, as_sessionId a, as_userId a)) joins
           (on_client (edit_socket i (\<lambda>s. s\<lparr>io_onceConnect := []\<rparr>)) w1))"

definition web_reconnected :: "web_socket \<Rightarrow> web_socket" where
  "web_reconnected w =
     (let w1 = on_client (updateConnectionState
            (\<lambda>s. s\<lparr>cs_reconnecting := False, cs_reconnectAttempt := 0, cs_error := None\<rparr>)) w
      in case (sc_activeSession (wk_client w1), sc_socket (wk_client w1)) of
           (Some a, Some i) \<Rightarrow> getWsToken (i, as_sessionId a, as_userId a) w1
         | _ \<Rightarrow> w1)"

definition web_reconnect_gave_up :: "web_socket \<Rightarrow> web_socket" where
  "web_reconnect_gave_up = on_client (updateConnectionState (\<lambda>s. s\<lparr>cs_reconnecting := False,
     cs_error := Some ''Reconnection failed after maximum attempts. Please refresh the page.''\<rparr>))"

section \<open>Events\<close>

datatype web_socket_event =
    WebConnect
  | WebDisconnect
  | WebReconnect
  | WebSubscribe nat
  | WebUnsubscribe nat
  | WebJoin ident ident
  | WebLeave ident ident
  | WebHandlerOn string nat
  | WebHandlerOff string nat
  | WebEmit string json
  | WebUp nat
  | WebDown nat string
  | WebConnectError string
  | WebReconnectAttempt int
  | WebReconnected
  | WebReconnectFailed
  | TokenAnswered "string option"

fun web_socket_step :: "web_socket_event \<Rightarrow> web_socket \<Rightarrow> web_socket" where
  "web_socket_step WebConnect w = connectSocket w"
| "web_socket_step WebDisconnect w = disconnectSocket w"
| "web_socket_step WebReconnect w = reconnectSocket w"
| "web_socket_step (WebSubscribe l) w = web_onConnectionStateChange l w"
| "web_socket_step (WebUnsubscribe l) w = web_unsubscribe l w"
| "web_socket_step (WebJoin s u) w = web_joinSession s u w"
| "web_socket_step (WebLeave s u) w = web_leaveSession s u w"
| "web_socket_step (WebHandlerOn e h) w = onSocketEvent e h w"
| "web_socket_step (WebHandlerOff e h) w = offSocketEvent e h w"
| "web_socket_step (WebEmit e d) w = web_emit e d w"
| "web_socket_step (WebUp i) w = web_socket_up i w"
| "web_socket_step (WebDown i reason) w = on_client (socket_disconnected i reason) w"
| "web_socket_step (WebConnectError m) w = on_client (connect_failed m) w"
| "web_socket_step (WebReconnectAttempt n) w = on_client (reconnect_attempted n) w"
| "web_socket_step WebReconnected w = web_reconnected w"
| "web_socket_step WebReconnectFailed w = web_reconnect_gave_up w"
| "web_socket_step (TokenAnswered t) w = token_answered t w"

fun web_socket_guard :: "web_socket_event \<Rightarrow> web_socket \<Rightarrow> bool" where
  "web_socket_guard (WebUp i) w = (i < length (sc_sockets (wk_client w)))"
| "web_socket_guard (WebDown i reason) w = (i < length (sc_sockets (wk_client w)))"
| "web_socket_guard _ w = True"


section \<open>The invariant\<close>

definition web_ok :: "web_socket \<Rightarrow> bool" where
  "web_ok w \<longleftrightarrow> socket_ok (wk_client w) \<and> wk_token w = None \<and> (wk_fetching w \<longleftrightarrow> wk_waiting w \<noteq> [])"

lemma send_join_ok: "socket_ok (wk_client w) \<Longrightarrow> socket_ok (wk_client (send_join t j w)) \<and> wk_token (send_join t j w) = None \<and>
    wk_fetching (send_join t j w) = wk_fetching w \<and> wk_waiting (send_join t j w) = wk_waiting w"
  by (cases j) (simp add: send_join_def clearWsToken_def on_client_def)

lemma send_joins_ok: "socket_ok (wk_client w) \<Longrightarrow> socket_ok (wk_client (fold (send_join t) js w)) \<and>
    wk_token (fold (send_join t) js w) = (if js = [] then wk_token w else None) \<and>
    wk_fetching (fold (send_join t) js w) = wk_fetching w \<and> wk_waiting (fold (send_join t) js w) = wk_waiting w"
  by (induction js arbitrary: w) (use send_join_ok in \<open>auto split: if_splits\<close>)


lemma getWsToken_ok: "web_ok w \<Longrightarrow> web_ok (getWsToken j w)"
  by (auto simp: web_ok_def getWsToken_def truthy_def)

lemma getWsTokens_ok: "web_ok w \<Longrightarrow> web_ok (fold (\<lambda>a. getWsToken (f a)) as w)"
  by (induction as arbitrary: w) (auto intro: getWsToken_ok)

lemma on_client_ok: "web_ok w \<Longrightarrow> (socket_ok (wk_client w) \<Longrightarrow> socket_ok (f (wk_client w))) \<Longrightarrow> web_ok (on_client f w)"
  by (simp add: web_ok_def on_client_def)

lemma socket_client_step_ok: "web_ok w \<Longrightarrow> socket_guard e (wk_client w) \<Longrightarrow> web_ok (on_client (socket_step e) w)"
  by (rule on_client_ok) (auto intro: socket_step_ok)

lemma web_step_ok:
  assumes "web_ok w" "web_socket_guard e w"
  shows "web_ok (web_socket_step e w)"
proof (cases e)
  case (WebJoin s u)
  have "web_ok (fst (web_getSocket w))"
    using assms(1) getSocket_ok [of "wk_client w"] by (auto simp: web_getSocket_def web_ok_def split: prod.split)
  then show ?thesis
    by (auto simp: WebJoin web_joinSession_def Let_def intro!: getWsToken_ok on_client_ok split: prod.split)
next
  case (WebUp i)
  show ?thesis
    by (auto simp: WebUp web_socket_up_def Let_def update_ok intro!: getWsTokens_ok on_client_ok assms(1))
next
  case WebReconnected
  show ?thesis
    by (auto simp: WebReconnected web_reconnected_def Let_def update_ok intro!: getWsToken_ok on_client_ok assms(1) split: option.split)
next
  case (TokenAnswered t)
  then show ?thesis
    using assms(1) send_joins_ok [of "w\<lparr>wk_token := t, wk_fetching := False, wk_waiting := []\<rparr>" t "wk_waiting w"]
    by (auto simp: token_answered_def web_ok_def)
next
  case (WebDown i r)
  then show ?thesis
    using socket_client_step_ok [OF assms(1), of "SocketDown i r"] assms(2) by (simp add: on_client_def)
qed (use socket_client_step_ok [OF assms(1), of ClientConnect] socket_client_step_ok [OF assms(1), of ClientDisconnect]
    socket_client_step_ok [OF assms(1), of ClientReconnect] socket_client_step_ok [OF assms(1), of "Subscribe _"] socket_client_step_ok [OF assms(1), of "Unsubscribe _"]
    socket_client_step_ok [OF assms(1), of "Leave _ _"] socket_client_step_ok [OF assms(1), of "HandlerOn _ _"] socket_client_step_ok [OF assms(1), of "HandlerOff _ _"]
    socket_client_step_ok [OF assms(1), of "Emit _ _"] socket_client_step_ok [OF assms(1), of "ConnectError _"] socket_client_step_ok [OF assms(1), of "ReconnectAttempt _"]
    on_client_ok [OF assms(1) update_ok]
    in \<open>simp_all add: connectSocket_def disconnectSocket_def reconnectSocket_def web_onConnectionStateChange_def web_unsubscribe_def
      web_leaveSession_def onSocketEvent_def offSocketEvent_def web_emit_def web_reconnect_gave_up_def on_client_def\<close>)

lemma init_web_ok: "web_ok init_web_socket"
  by (simp add: web_ok_def init_web_socket_def new_socket_client_ok)

interpretation web_socket: machine web_socket_step web_socket_guard web_ok init_web_socket
  by unfold_locales (auto intro: init_web_ok web_step_ok)

section \<open>Properties\<close>

text \<open>
  In every history at most one token is being fetched, exactly while a join waits for it; no token
  is kept for later; and the listeners know the state of the connection.
\<close>

theorem web_tokens_not_kept:
  assumes "guarded web_socket_guard web_socket_step es init_web_socket" "w = fold web_socket_step es init_web_socket"
  shows "wk_token w = None \<and> (wk_fetching w \<longleftrightarrow> wk_waiting w \<noteq> []) \<and>
    list_all (\<lambda>l. last_told (wk_client w) l = Some (sc_state (wk_client w))) (sc_listeners (wk_client w))"
  using web_socket.inv_history [OF assms(1)] by (simp add: assms(2) web_ok_def socket_ok_def list_all_iff)

lemma edit_socket_length [simp]: "length (sc_sockets (edit_socket i f c)) = length (sc_sockets c)"
  by (simp add: edit_socket_def)


text \<open>What the socket \<open>k\<close> sends for the joins that have got the token \<open>t\<close>.\<close>

definition joined_with :: "string option \<Rightarrow> nat \<Rightarrow> bool \<Rightarrow> (nat \<times> ident \<times> ident) list \<Rightarrow> (bool \<times> string \<times> json) list" where
  "joined_with t k up js = [(up, ''session_join'', join_data \<lparr>as_sessionId = s, as_userId = u, as_authToken = t\<rparr>).
     (i, s, u) \<leftarrow> js, i = k]"

lemma joined_with_simps [simp]:
  "joined_with t k up [] = []"
  "joined_with t k up ((k, s, u) # js) =
     (up, ''session_join'', join_data \<lparr>as_sessionId = s, as_userId = u, as_authToken = t\<rparr>) # joined_with t k up js"
  by (simp_all add: joined_with_def)

lemma sent_joins_at:
  "k < length (sc_sockets (wk_client w)) \<Longrightarrow>
   io_emitted (sc_sockets (wk_client (fold (send_join t) js w)) ! k) =
     io_emitted (sc_sockets (wk_client w) ! k) @ joined_with t k (io_connected (sc_sockets (wk_client w) ! k)) js"
proof (induction js arbitrary: w)
  case (Cons j js)
  obtain i s u where j: "j = (i, s, u)" by (cases j)
  let ?w = "send_join t j w"
  have "length (sc_sockets (wk_client ?w)) = length (sc_sockets (wk_client w))"
    "io_connected (sc_sockets (wk_client ?w) ! k) = io_connected (sc_sockets (wk_client w) ! k)"
    "io_emitted (sc_sockets (wk_client ?w) ! k) = io_emitted (sc_sockets (wk_client w) ! k) @
       joined_with t k (io_connected (sc_sockets (wk_client w) ! k)) [j]"
    using Cons.prems by (cases "i = k"; simp add: j send_join_def clearWsToken_def on_client_def emitJoin_def emit_on_def edit_socket_def joined_with_def)+
  with Cons.IH [of ?w] Cons.prems show ?case by (simp add: joined_with_def)
qed (simp add: joined_with_def)

text \<open>
  A session joined while the connection is down is joined twice when the socket reconnects, by the
  handler that waits for the connection and by the one for reconnections, and both joins carry the
  same token, which the server accepts only once.
\<close>

theorem one_token_for_two_joins:
  assumes "web_ok w" "sc_socket (wk_client w) = Some k" "\<not> io_connected (sc_sockets (wk_client w) ! k)"
    and "io_onceConnect (sc_sockets (wk_client w) ! k) = []" "\<not> wk_fetching w"
    and "w' = fold web_socket_step [WebJoin s u, WebUp k, WebReconnected, TokenAnswered (Some t)] w"
  shows "\<exists>before. io_emitted (sc_sockets (wk_client w') ! k) = before @
    replicate 2 (True, ''session_join'', join_data \<lparr>as_sessionId = s, as_userId = u, as_authToken = Some t\<rparr>)"
proof -
  have k: "k < length (sc_sockets (wk_client w))" "wk_token w = None" "wk_waiting w = []"
    using assms(1,2,5) by (auto simp: web_ok_def socket_ok_def)
  let ?v = "fold web_socket_step [WebJoin s u, WebUp k, WebReconnected] w"
  have v: "wk_waiting ?v = [(k, s, u), (k, s, u)]" "wk_fetching ?v"
    "io_connected (sc_sockets (wk_client ?v) ! k)" "k < length (sc_sockets (wk_client ?v))"
    using assms(2-5) k
    by (simp_all add: web_joinSession_def web_getSocket_def getSocket_def web_socket_up_def web_reconnected_def on_client_def
        getWsToken_def Let_def truthy_def)
  have "w' = token_answered (Some t) ?v"
    by (simp add: assms(6))
  with v show ?thesis
    using sent_joins_at [of k "?v\<lparr>wk_token := Some t, wk_fetching := False, wk_waiting := []\<rparr>" "Some t" "wk_waiting ?v"]
    by (simp add: token_answered_def numeral_2_eq_2)
qed

text \<open>A session that is left while its token is on the way is joined when the token arrives.\<close>

lemma left_while_waiting:
  assumes "web_ok w" "wk_waiting w = [(k, s, u)]" "k < length (sc_sockets (wk_client w))" "sc_socket (wk_client w) = Some k"
    and "w' = fold web_socket_step [WebLeave s u, TokenAnswered t] w"
  shows "last (io_emitted (sc_sockets (wk_client w') ! k)) =
    (io_connected (sc_sockets (wk_client w) ! k), ''session_join'', join_data \<lparr>as_sessionId = s, as_userId = u, as_authToken = t\<rparr>)"
proof -
  let ?v = "web_leaveSession s u w"
  have v: "wk_waiting ?v = [(k, s, u)]" "wk_fetching ?v" "k < length (sc_sockets (wk_client ?v))"
    "io_connected (sc_sockets (wk_client ?v) ! k) = io_connected (sc_sockets (wk_client w) ! k)"
    using assms(1-4) by (auto simp: web_leaveSession_def on_client_def leaveSession_def emit_event_def getSocket_def web_ok_def
        emit_on_def Let_def)
  have "w' = token_answered t ?v" by (simp add: assms(5))
  with v show ?thesis
    using sent_joins_at [of k "?v\<lparr>wk_token := t, wk_fetching := False, wk_waiting := []\<rparr>" t "wk_waiting ?v"]
    by (simp add: token_answered_def)
qed







lemma update_sockets [simp]: "sc_sockets (updateConnectionState f c) = sc_sockets c"
  by (simp add: updateConnectionState_def notifyConnectionListeners_def)





section \<open>Examples\<close>

lemma up_ok: "web_ok (fold web_socket_step [WebConnect] init_web_socket)"
  using web_socket.inv_history [of "[WebConnect]"] by simp

theorem web_tokens_not_kept_witness:
  "wk_token (fold web_socket_step [WebConnect, WebUp 0, WebJoin ''s'' ''u'', TokenAnswered (Some ''wst_1'')] init_web_socket) = None"
proof -
  have "guarded web_socket_guard web_socket_step [WebConnect, WebUp 0, WebJoin ''s'' ''u'', TokenAnswered (Some ''wst_1'')] init_web_socket"
    by code_simp
  from web_tokens_not_kept [OF this refl] show ?thesis by simp
qed

theorem one_token_for_two_joins_witness:
  "\<exists>before. io_emitted (sc_sockets (wk_client (fold web_socket_step [WebJoin ''s'' ''u'', WebUp 0, WebReconnected, TokenAnswered (Some ''wst_1'')]
      (fold web_socket_step [WebConnect] init_web_socket))) ! 0) = before @
    replicate 2 (True, ''session_join'', join_data \<lparr>as_sessionId = ''s'', as_userId = ''u'', as_authToken = Some ''wst_1''\<rparr>)"
proof -
  let ?w = "fold web_socket_step [WebConnect] init_web_socket"
  have "sc_socket (wk_client ?w) = Some 0" "\<not> io_connected (sc_sockets (wk_client ?w) ! 0)"
    "io_onceConnect (sc_sockets (wk_client ?w) ! 0) = []" "\<not> wk_fetching ?w"
    by (code_simp, code_simp, code_simp, code_simp)
  from one_token_for_two_joins [OF up_ok this refl] show ?thesis .
qed


end
