(* ===== verification/Cli_Auth.thy ===== *)
theory Cli_Auth
  imports Api_Client Machines
begin

text \<open>
  Signing in on the command line and in the VS Code extension: the credentials they share in
  \<open>~/.podex/credentials.json\<close> (\<open>apps/cli/src/adapters/auth-provider.ts\<close>,
  \<open>apps/vscode/src/adapters/vscode-auth-provider.ts\<close>) and the device flow
  (\<open>apps/cli/src/services/auth-service.ts\<close>). The file is \<open>None\<close> when it is missing or not readable;
  writing and deleting it succeed. Each running program has a provider of its own with a cache.
\<close>

section \<open>Credentials\<close>

record cli_credentials =
  cr_accessToken :: string
  cr_refreshToken :: string
  cr_expiresAt :: int
  cr_userId :: "string option"
  cr_email :: "string option"

type_synonym cred_file = "cli_credentials option"

record auth_provider =
  pv_cached :: "cli_credentials option"
  pv_loaded :: bool

definition new_provider_state :: auth_provider where
  "new_provider_state = \<lparr>pv_cached = None, pv_loaded = False\<rparr>"

definition loadCredentials :: "cred_file \<Rightarrow> auth_provider \<Rightarrow> auth_provider" where
  "loadCredentials f p = (if pv_loaded p then p else p\<lparr>pv_cached := f, pv_loaded := True\<rparr>)"

definition getCredentials :: "cred_file \<Rightarrow> auth_provider \<Rightarrow> cli_credentials option" where
  "getCredentials f p = pv_cached (loadCredentials f p)"

definition getAccessToken :: "int \<Rightarrow> cred_file \<Rightarrow> auth_provider \<Rightarrow> string option" where
  "getAccessToken now f p =
     (case getCredentials f p of
        None \<Rightarrow> None
      | Some c \<Rightarrow> if cr_expiresAt c \<le> now then None else Some (cr_accessToken c))"

definition isAuthenticated :: "int \<Rightarrow> cred_file \<Rightarrow> auth_provider \<Rightarrow> bool" where
  "isAuthenticated now f p =
     (case getCredentials f p of None \<Rightarrow> False | Some c \<Rightarrow> now < cr_expiresAt c)"

definition isTokenExpired :: "int \<Rightarrow> cred_file \<Rightarrow> auth_provider \<Rightarrow> bool" where
  "isTokenExpired now f p =
     (case getCredentials f p of None \<Rightarrow> True | Some c \<Rightarrow> cr_expiresAt c \<le> now)"

text \<open>\<open>refreshToken\<close> of the provider.\<close>

definition can_refresh :: "cred_file \<Rightarrow> auth_provider \<Rightarrow> bool" where
  "can_refresh f p =
     (case getCredentials f p of None \<Rightarrow> False | Some c \<Rightarrow> cr_refreshToken c \<noteq> [])"

text \<open>The provider and the file afterwards.\<close>

definition setCredentials :: "cli_credentials \<Rightarrow> auth_provider \<times> cred_file" where
  "setCredentials c = (\<lparr>pv_cached = Some c, pv_loaded = True\<rparr>, Some c)"

definition clearCredentials :: "auth_provider \<times> cred_file" where
  "clearCredentials = (\<lparr>pv_cached = None, pv_loaded = True\<rparr>, None)"

definition onUnauthorized :: "auth_provider \<times> cred_file" where
  "onUnauthorized = (\<lparr>pv_cached = None, pv_loaded = True\<rparr>, None)"

section \<open>The provider of the extension\<close>

record vscode_provider =
  vp_provider :: auth_provider
  vp_fired :: "cli_credentials option list"

definition reloadCredentials :: "cred_file \<Rightarrow> vscode_provider \<Rightarrow> vscode_provider" where
  "reloadCredentials f p = p\<lparr>vp_provider := loadCredentials f \<lparr>pv_cached = None, pv_loaded = False\<rparr>\<rparr>"

text \<open>The watcher of the directory has seen a change of the file.\<close>

definition file_changed :: "cred_file \<Rightarrow> vscode_provider \<Rightarrow> vscode_provider" where
  "file_changed f p =
     (let p1 = reloadCredentials f p in p1\<lparr>vp_fired := vp_fired p1 @ [pv_cached (vp_provider p1)]\<rparr>)"

definition vs_setCredentials :: "cli_credentials \<Rightarrow> vscode_provider \<Rightarrow> vscode_provider \<times> cred_file" where
  "vs_setCredentials c p = (p\<lparr>vp_provider := fst (setCredentials c), vp_fired := vp_fired p @ [Some c]\<rparr>, Some c)"

definition vs_clearCredentials :: "vscode_provider \<Rightarrow> vscode_provider \<times> cred_file" where
  "vs_clearCredentials p = (p\<lparr>vp_provider := fst clearCredentials, vp_fired := vp_fired p @ [None]\<rparr>, None)"

definition vs_onUnauthorized :: "vscode_provider \<Rightarrow> vscode_provider \<times> cred_file" where
  "vs_onUnauthorized p = (p\<lparr>vp_provider := fst onUnauthorized, vp_fired := vp_fired p @ [None]\<rparr>, None)"

section \<open>A request with the provider\<close>

text \<open>
  The shared client asks the provider for the token of the request (at \<open>now\<close>) and of the retry
  (\<open>later\<close>), and calls \<open>onUnauthorized\<close> where it logs the user out; \<open>server\<close> is what is answered to
  the headers of the first and of the second attempt.
\<close>

definition cli_request ::
    "bool \<Rightarrow> int \<Rightarrow> int \<Rightarrow> (nat \<Rightarrow> string obj \<Rightarrow> thrown + http_response) \<Rightarrow> auth_provider \<times> cred_file \<Rightarrow>
     (auth_provider \<times> cred_file) \<times> (thrown + json)" where
  "cli_request reports now later server = (\<lambda>(p, f).
     let first = server 0 (getHeaders (getAccessToken now f p) True);
         second = server 1 (getHeaders (getAccessToken later f p) True);
         (effs, result) = requestWithRetry reports True first (can_refresh f p) second
     in (if LoggedOut \<in> set effs then onUnauthorized else (loadCredentials f p, f), result))"

section \<open>The device flow\<close>

datatype device_answer =
    PollFailed
  | PollError string "string option"
  | PollTokens string string int

text \<open>The user's data; \<open>UserRefused\<close> is an error after which the client logged the user out.\<close>

datatype user_answer = UserData string string | UserFailed | UserRefused

record login_call =
  lc_deviceCode :: string
  lc_interval :: int
  lc_outcome :: "(string + string) option"
  lc_pendings :: nat

text \<open>A poll waits for its answer, then for the user's data.\<close>

datatype login_poll = AwaitToken nat | AwaitUser nat cli_credentials | PollDone

record device_login =
  dl_provider :: auth_provider
  dl_file :: cred_file
  dl_aborted :: bool
  dl_pollInterval :: "nat option"
  dl_intervals :: "(nat \<times> nat \<times> int) list"
  dl_nextInterval :: nat
  dl_calls :: "login_call list"
  dl_polls :: "login_poll list"

definition new_login :: "cred_file \<Rightarrow> device_login" where
  "new_login f = \<lparr>dl_provider = new_provider_state, dl_file = f, dl_aborted = False, dl_pollInterval = None, dl_intervals = [],
     dl_nextInterval = 0, dl_calls = [], dl_polls = []\<rparr>"

definition edit_login_call :: "nat \<Rightarrow> (login_call \<Rightarrow> login_call) \<Rightarrow> device_login \<Rightarrow> device_login" where
  "edit_login_call i g d = d\<lparr>dl_calls := (dl_calls d)[i := g (dl_calls d ! i)]\<rparr>"

text \<open>The first of \<open>resolve\<close> and \<open>reject\<close> settles the promise.\<close>

definition settle_login :: "nat \<Rightarrow> string + string \<Rightarrow> device_login \<Rightarrow> device_login" where
  "settle_login i r =
     edit_login_call i (\<lambda>c. c\<lparr>lc_outcome := (case lc_outcome c of None \<Rightarrow> Some r | Some x \<Rightarrow> Some x)\<rparr>)"

definition note_pending :: "nat \<Rightarrow> device_login \<Rightarrow> device_login" where
  "note_pending i = edit_login_call i (\<lambda>c. c\<lparr>lc_pendings := lc_pendings c + 1\<rparr>)"

definition stopPolling :: "device_login \<Rightarrow> device_login" where
  "stopPolling d =
     (case dl_pollInterval d of
        None \<Rightarrow> d
      | Some h \<Rightarrow> d\<lparr>dl_intervals := filter (\<lambda>e. fst e \<noteq> h) (dl_intervals d), dl_pollInterval := None\<rparr>)"

definition set_interval :: "nat \<Rightarrow> int \<Rightarrow> device_login \<Rightarrow> device_login" where
  "set_interval i seconds d =
     d\<lparr>dl_intervals := dl_intervals d @ [(dl_nextInterval d, i, seconds)], dl_pollInterval := Some (dl_nextInterval d),
       dl_nextInterval := dl_nextInterval d + 1\<rparr>"

definition restartPolling :: "nat \<Rightarrow> int \<Rightarrow> device_login \<Rightarrow> device_login" where
  "restartPolling i seconds d = set_interval i seconds (stopPolling d)"

definition poll :: "nat \<Rightarrow> device_login \<Rightarrow> device_login" where
  "poll i d =
     (if dl_aborted d then settle_login i (Inl ''Authentication cancelled'') (stopPolling d)
      else d\<lparr>dl_polls := dl_polls d @ [AwaitToken i]\<rparr>)"

definition pollForToken :: "string \<Rightarrow> int \<Rightarrow> device_login \<Rightarrow> device_login" where
  "pollForToken deviceCode seconds d =
     (let i = length (dl_calls d);
          d1 = d\<lparr>dl_aborted := False,
            dl_calls := dl_calls d @ [\<lparr>lc_deviceCode = deviceCode, lc_interval = seconds, lc_outcome = None, lc_pendings = 0\<rparr>]\<rparr>
      in poll i (set_interval i seconds d1))"

definition interval_fired :: "nat \<Rightarrow> device_login \<Rightarrow> device_login" where
  "interval_fired h d = (case map_of (dl_intervals d) h of None \<Rightarrow> d | Some (i, seconds) \<Rightarrow> poll i d)"

definition store_credentials :: "cli_credentials \<Rightarrow> device_login \<Rightarrow> device_login" where
  "store_credentials c d = d\<lparr>dl_provider := fst (setCredentials c), dl_file := snd (setCredentials c)\<rparr>"

text \<open>The errors of the device flow.\<close>

definition poll_error :: "nat \<Rightarrow> string \<Rightarrow> string option \<Rightarrow> device_login \<Rightarrow> device_login" where
  "poll_error i e description d =
     (if e = ''authorization_pending'' then note_pending i d
      else if e = ''slow_down'' then
        (let d1 = edit_login_call i (\<lambda>c. c\<lparr>lc_interval := lc_interval c + 5\<rparr>) d
         in restartPolling i (lc_interval (dl_calls d1 ! i)) d1)
      else if e = ''expired_token'' then settle_login i (Inl ''Device code expired. Please try again.'') (stopPolling d)
      else if e = ''access_denied'' then settle_login i (Inl ''Access denied. User cancelled authentication.'') (stopPolling d)
      else settle_login i (Inl (str_or description e)) (stopPolling d))"

text \<open>
  With tokens the credentials are stored and the user's data is asked for, if the token has not
  expired by then; \<open>getCurrentUser\<close> catches every error.
\<close>

definition tokens_received :: "nat \<Rightarrow> nat \<Rightarrow> cli_credentials \<Rightarrow> int \<Rightarrow> device_login \<Rightarrow> device_login" where
  "tokens_received k i c now d =
     (let d1 = store_credentials c (stopPolling d)
      in if isAuthenticated now (dl_file d1) (dl_provider d1)
         then d1\<lparr>dl_polls := (dl_polls d1)[k := AwaitUser i c]\<rparr>
         else settle_login i (Inr (cr_accessToken c)) d1)"

definition poll_answered :: "nat \<Rightarrow> int \<Rightarrow> device_answer \<Rightarrow> device_login \<Rightarrow> device_login" where
  "poll_answered k now a d =
     (case dl_polls d ! k of
        AwaitToken i \<Rightarrow>
          (let d1 = d\<lparr>dl_polls := (dl_polls d)[k := PollDone]\<rparr>
           in case a of
                PollFailed \<Rightarrow> note_pending i d1
              | PollError e description \<Rightarrow> poll_error i e description d1
              | PollTokens access refresh expiresIn \<Rightarrow>
                  tokens_received k i \<lparr>cr_accessToken = access, cr_refreshToken = refresh,
                    cr_expiresAt = now + expiresIn * 1000, cr_userId = None, cr_email = None\<rparr> now d1)
      | _ \<Rightarrow> d)"

definition user_answered :: "nat \<Rightarrow> user_answer \<Rightarrow> device_login \<Rightarrow> device_login" where
  "user_answered k user d =
     (case dl_polls d ! k of
        AwaitUser i c \<Rightarrow>
          (let d1 = d\<lparr>dl_polls := (dl_polls d)[k := PollDone]\<rparr>
           in settle_login i (Inr (cr_accessToken c))
                (case user of
                   UserFailed \<Rightarrow> d1
                 | UserRefused \<Rightarrow> d1\<lparr>dl_provider := fst onUnauthorized, dl_file := snd onUnauthorized\<rparr>
                 | UserData uid email \<Rightarrow> store_credentials (c\<lparr>cr_userId := Some uid, cr_email := Some email\<rparr>) d1))
      | _ \<Rightarrow> d)"

definition abort_login :: "device_login \<Rightarrow> device_login" where
  "abort_login d = stopPolling (d\<lparr>dl_aborted := True\<rparr>)"

text \<open>\<open>refreshToken\<close> of the service, which has no caller, and \<open>logout\<close>, whatever the server says.\<close>

definition service_refreshToken :: "int \<Rightarrow> (string \<times> string \<times> int) option \<Rightarrow> device_login \<Rightarrow> device_login \<times> bool" where
  "service_refreshToken now answer d =
     (case getCredentials (dl_file d) (dl_provider d) of
        None \<Rightarrow> (d, False)
      | Some c \<Rightarrow>
          if cr_refreshToken c = [] then (d, False)
          else (case answer of
             None \<Rightarrow> (d, False)
           | Some (access, refresh, expiresIn) \<Rightarrow>
               (store_credentials (c\<lparr>cr_accessToken := access, cr_refreshToken := refresh,
                  cr_expiresAt := now + expiresIn * 1000\<rparr>) d, True)))"

definition service_logout :: "device_login \<Rightarrow> device_login" where
  "service_logout d = d\<lparr>dl_provider := fst clearCredentials, dl_file := snd clearCredentials\<rparr>"

section \<open>Events\<close>

datatype login_event =
    PollForToken string int
  | IntervalFired nat
  | PollAnswered nat int device_answer
  | UserAnswered nat user_answer
  | AbortLogin
  | RefreshLogin int "(string \<times> string \<times> int) option"
  | Logout

fun login_step :: "login_event \<Rightarrow> device_login \<Rightarrow> device_login" where
  "login_step (PollForToken c s) d = pollForToken c s d"
| "login_step (IntervalFired h) d = interval_fired h d"
| "login_step (PollAnswered k now a) d = poll_answered k now a d"
| "login_step (UserAnswered k u) d = user_answered k u d"
| "login_step AbortLogin d = abort_login d"
| "login_step (RefreshLogin now a) d = fst (service_refreshToken now a d)"
| "login_step Logout d = service_logout d"

fun login_guard :: "login_event \<Rightarrow> device_login \<Rightarrow> bool" where
  "login_guard (PollAnswered k now a) d = (k < length (dl_polls d))"
| "login_guard (UserAnswered k u) d = (k < length (dl_polls d))"
| "login_guard _ d = True"


section \<open>Credentials in the programs that share them\<close>

text \<open>The provider of the extension follows the file; that of the command line keeps what it read first.\<close>

lemma watched_provider_follows: "getCredentials g (vp_provider (file_changed f p)) = f"
  by (simp add: getCredentials_def loadCredentials_def file_changed_def reloadCredentials_def Let_def)

lemma cli_provider_keeps:
  "getCredentials g (loadCredentials f p) = getCredentials f p"
  by (simp add: getCredentials_def loadCredentials_def)

lemma credentials_stored:
  "getCredentials (snd (setCredentials c)) (fst (setCredentials c)) = Some c"
  "getCredentials f (fst (setCredentials c)) = Some c"
  "getCredentials f (fst clearCredentials) = None"
  by (simp_all add: getCredentials_def loadCredentials_def setCredentials_def clearCredentials_def)

lemma expired_is_unauthenticated: "isAuthenticated now f p \<longleftrightarrow> \<not> isTokenExpired now f p"
  by (simp add: isAuthenticated_def isTokenExpired_def not_le split: option.splits)

lemma authenticated_has_token:
  "isAuthenticated now f p \<longleftrightarrow> (\<exists>t. getAccessToken now f p = Some t)"
  by (auto simp: isAuthenticated_def getAccessToken_def not_le split: option.splits)

section \<open>The device flow, step by step\<close>

lemma settle_login_simps [simp]:
  "dl_provider (settle_login i r d) = dl_provider d" "dl_file (settle_login i r d) = dl_file d"
  "dl_aborted (settle_login i r d) = dl_aborted d" "dl_intervals (settle_login i r d) = dl_intervals d"
  "dl_pollInterval (settle_login i r d) = dl_pollInterval d" "dl_polls (settle_login i r d) = dl_polls d"
  by (simp_all add: settle_login_def edit_login_call_def)

lemma note_pending_simps [simp]:
  "dl_intervals (note_pending i d) = dl_intervals d" "dl_polls (note_pending i d) = dl_polls d"
  by (simp_all add: note_pending_def edit_login_call_def)

lemma stopPolling_simps [simp]:
  "dl_calls (stopPolling d) = dl_calls d" "dl_polls (stopPolling d) = dl_polls d"
  by (simp_all add: stopPolling_def split: option.split)

lemma stopped_intervals: "set (dl_intervals (stopPolling d)) \<subseteq> set (dl_intervals d)"
  by (auto simp: stopPolling_def split: option.splits)

lemma set_interval_simps [simp]:
  "dl_calls (set_interval i s d) = dl_calls d" "dl_polls (set_interval i s d) = dl_polls d"
  "dl_intervals (set_interval i s d) = dl_intervals d @ [(dl_nextInterval d, i, s)]"
  by (simp_all add: set_interval_def)

lemma store_credentials_simps [simp]:
  "dl_calls (store_credentials c d) = dl_calls d" "dl_polls (store_credentials c d) = dl_polls d"
  "dl_intervals (store_credentials c d) = dl_intervals d"
  by (simp_all add: store_credentials_def)

text \<open>A call that nothing polls for any more.\<close>

fun poll_of :: "login_poll \<Rightarrow> nat option" where
  "poll_of (AwaitToken i) = Some i"
| "poll_of (AwaitUser i c) = Some i"
| "poll_of PollDone = None"

definition nothing_polls :: "nat \<Rightarrow> device_login \<Rightarrow> bool" where
  "nothing_polls i d \<longleftrightarrow> i < length (dl_calls d) \<and> Some i \<notin> poll_of ` set (dl_polls d) \<and>
     i \<notin> (\<lambda>e. fst (snd e)) ` set (dl_intervals d)"

definition unpolled :: "nat \<Rightarrow> login_call \<Rightarrow> device_login \<Rightarrow> bool" where
  "unpolled i c d \<longleftrightarrow> nothing_polls i d \<and> dl_calls d ! i = c"

lemma unpolled_settle: "unpolled i c d \<Longrightarrow> j \<noteq> i \<Longrightarrow> unpolled i c (settle_login j r d)"
  by (simp add: unpolled_def nothing_polls_def) (simp add: settle_login_def edit_login_call_def)

lemma unpolled_note: "unpolled i c d \<Longrightarrow> j \<noteq> i \<Longrightarrow> unpolled i c (note_pending j d)"
  by (simp add: unpolled_def nothing_polls_def) (simp add: note_pending_def edit_login_call_def)

lemma unpolled_stop: "unpolled i c d \<Longrightarrow> unpolled i c (stopPolling d)"
  using stopped_intervals [of d] by (auto simp: unpolled_def nothing_polls_def)

lemma unpolled_interval: "unpolled i c d \<Longrightarrow> j \<noteq> i \<Longrightarrow> unpolled i c (set_interval j s d)"
  by (simp add: unpolled_def nothing_polls_def)

lemma unpolled_store: "unpolled i c d \<Longrightarrow> unpolled i c (store_credentials cr d)"
  by (simp add: unpolled_def nothing_polls_def)

lemma unpolled_edit: "unpolled i c d \<Longrightarrow> j \<noteq> i \<Longrightarrow> unpolled i c (edit_login_call j g d)"
  by (simp add: unpolled_def nothing_polls_def edit_login_call_def)

lemma unpolled_poll: "unpolled i c d \<Longrightarrow> j \<noteq> i \<Longrightarrow> unpolled i c (poll j d)"
  by (auto simp: poll_def intro: unpolled_settle unpolled_stop) (simp add: unpolled_def nothing_polls_def)

lemma unpolled_put:
  assumes "unpolled i c d" "k < length (dl_polls d)" "poll_of q \<noteq> Some i"
  shows "unpolled i c (d\<lparr>dl_polls := (dl_polls d)[k := q]\<rparr>)"
  using assms by (auto simp: unpolled_def nothing_polls_def dest: subsetD [OF set_update_subset_insert])

lemmas unpolled_intros = unpolled_settle unpolled_note unpolled_stop unpolled_interval unpolled_store unpolled_edit unpolled_poll

lemma polled_by_other:
  assumes "unpolled i c d" "k < length (dl_polls d)" "poll_of (dl_polls d ! k) = Some j"
  shows "j \<noteq> i"
  using assms unfolding unpolled_def nothing_polls_def by (metis image_eqI nth_mem)

lemma unpolled_error: "unpolled i c d \<Longrightarrow> j \<noteq> i \<Longrightarrow> unpolled i c (poll_error j e description d)"
  by (simp add: poll_error_def restartPolling_def Let_def unpolled_intros)

lemma unpolled_tokens:
  assumes "unpolled i c d" "j \<noteq> i" "k < length (dl_polls d)"
  shows "unpolled i c (tokens_received k j cr now d)"
proof -
  have d1: "unpolled i c (store_credentials cr (stopPolling d))"
    using assms(1) by (simp add: unpolled_intros)
  with unpolled_put [OF d1, of k "AwaitUser j cr"] show ?thesis
    using assms(2,3) by (simp add: tokens_received_def Let_def unpolled_intros)
qed

lemma unpolled_step:
  assumes "unpolled i c d" "login_guard e d"
  shows "unpolled i c (login_step e d)"
proof (cases e)
  case (PollForToken code s)
  have i: "i \<noteq> length (dl_calls d)"
    using assms(1) by (auto simp: unpolled_def nothing_polls_def)
  have "unpolled i c (d\<lparr>dl_aborted := False, dl_calls := dl_calls d @ [x]\<rparr>)" for x
    using assms(1) by (auto simp: unpolled_def nothing_polls_def nth_append)
  with i PollForToken show ?thesis
    by (simp add: pollForToken_def Let_def unpolled_intros)
next
  case (IntervalFired h)
  have "j \<noteq> i" if "map_of (dl_intervals d) h = Some (j, s)" for j s
    using that assms(1) by (force simp: unpolled_def nothing_polls_def dest: map_of_SomeD)
  with assms(1) IntervalFired show ?thesis
    by (auto simp: interval_fired_def intro: unpolled_poll split: option.split)
next
  case (PollAnswered k now a)
  with assms(2) have k: "k < length (dl_polls d)" by simp
  show ?thesis
  proof (cases "dl_polls d ! k")
    case (AwaitToken j)
    let ?d = "d\<lparr>dl_polls := (dl_polls d)[k := PollDone]\<rparr>"
    from AwaitToken have j: "j \<noteq> i"
      using polled_by_other [OF assms(1) k] by simp
    have d1: "unpolled i c ?d"
      using unpolled_put [OF assms(1) k] by simp
    show ?thesis
      using unpolled_note [OF d1 j] unpolled_error [OF d1 j] unpolled_tokens [OF d1 j] k
      by (simp add: PollAnswered poll_answered_def AwaitToken Let_def split: device_answer.split)
  qed (use assms(1) PollAnswered in \<open>simp_all add: poll_answered_def\<close>)
next
  case (UserAnswered k u)
  with assms(2) have k: "k < length (dl_polls d)" by simp
  show ?thesis
  proof (cases "dl_polls d ! k")
    case (AwaitUser j cr)
    let ?d = "d\<lparr>dl_polls := (dl_polls d)[k := PollDone]\<rparr>"
    from AwaitUser have j: "j \<noteq> i"
      using polled_by_other [OF assms(1) k] by simp
    have d1: "unpolled i c ?d"
      using unpolled_put [OF assms(1) k] by simp
    then have "unpolled i c (?d\<lparr>dl_provider := x, dl_file := y\<rparr>)" for x y
      by (simp add: unpolled_def nothing_polls_def)
    with d1 j show ?thesis
      by (simp add: UserAnswered user_answered_def AwaitUser Let_def unpolled_intros split: user_answer.split)
  qed (use assms(1) UserAnswered in \<open>simp_all add: user_answered_def\<close>)
next
  case AbortLogin
  have "unpolled i c (d\<lparr>dl_aborted := True\<rparr>)"
    using assms(1) by (simp add: unpolled_def nothing_polls_def)
  then show ?thesis by (simp add: AbortLogin abort_login_def unpolled_stop)
next
  case (RefreshLogin now a)
  with assms(1) show ?thesis
    by (auto simp: service_refreshToken_def unpolled_store split: option.split)
next
  case Logout
  with assms(1) show ?thesis
    by (simp add: service_logout_def unpolled_def nothing_polls_def)
qed

lemma unpolled_run:
  "unpolled i c d \<Longrightarrow> guarded login_guard login_step es d \<Longrightarrow> unpolled i c (fold login_step es d)"
  by (induction es arbitrary: d) (auto intro: unpolled_step)

section \<open>Whose tokens a login resolves with\<close>

definition login_ok :: "(string \<Rightarrow> string \<Rightarrow> bool) \<Rightarrow> device_login \<Rightarrow> bool" where
  "login_ok Q d \<longleftrightarrow>
     (\<forall>c \<in> set (dl_calls d). \<forall>t. lc_outcome c = Some (Inr t) \<longrightarrow> Q (lc_deviceCode c) t) \<and>
     (\<forall>q \<in> set (dl_polls d). \<forall>i. poll_of q = Some i \<longrightarrow> i < length (dl_calls d)) \<and>
     (\<forall>i c. AwaitUser i c \<in> set (dl_polls d) \<longrightarrow> Q (lc_deviceCode (dl_calls d ! i)) (cr_accessToken c)) \<and>
     (\<forall>e \<in> set (dl_intervals d). fst (snd e) < length (dl_calls d))"

text \<open>The server issues a token to the device code that asks for it.\<close>

fun honest_issuer :: "(string \<Rightarrow> string \<Rightarrow> bool) \<Rightarrow> login_event \<Rightarrow> device_login \<Rightarrow> bool" where
  "honest_issuer Q (PollAnswered k now (PollTokens access refresh expiresIn)) d =
     (k < length (dl_polls d) \<and>
      (case dl_polls d ! k of AwaitToken i \<Rightarrow> Q (lc_deviceCode (dl_calls d ! i)) access | _ \<Rightarrow> True))"
| "honest_issuer Q e d = login_guard e d"

lemma login_ok_edit:
  assumes "login_ok Q d" "i < length (dl_calls d)" "lc_deviceCode (g (dl_calls d ! i)) = lc_deviceCode (dl_calls d ! i)"
    and "\<And>t. lc_outcome (g (dl_calls d ! i)) = Some (Inr t) \<Longrightarrow> Q (lc_deviceCode (dl_calls d ! i)) t"
  shows "login_ok Q (edit_login_call i g d)"
proof -
  have code: "lc_deviceCode ((dl_calls d)[i := g (dl_calls d ! i)] ! j) = lc_deviceCode (dl_calls d ! j)" for j
    using assms(2,3) by (cases "i = j") simp_all
  have "Q (lc_deviceCode c) t" if "c \<in> set ((dl_calls d)[i := g (dl_calls d ! i)])" "lc_outcome c = Some (Inr t)" for c t
    using assms that set_update_subset_insert [of "dl_calls d" i] by (fastforce simp: login_ok_def)
  with assms(1) code show ?thesis
    by (simp add: login_ok_def edit_login_call_def)
qed

lemma login_ok_settle:
  assumes "login_ok Q d" "i < length (dl_calls d)" "\<And>t. r = Inr t \<Longrightarrow> Q (lc_deviceCode (dl_calls d ! i)) t"
  shows "login_ok Q (settle_login i r d)"
  unfolding settle_login_def using assms(1,2)
proof (rule login_ok_edit)
  fix t
  assume "lc_outcome ((dl_calls d ! i)\<lparr>lc_outcome := (case lc_outcome (dl_calls d ! i) of None \<Rightarrow> Some r | Some x \<Rightarrow> Some x)\<rparr>) = Some (Inr t)"
  then show "Q (lc_deviceCode (dl_calls d ! i)) t"
    using assms nth_mem [OF assms(2)] by (auto simp: login_ok_def split: option.splits)
qed simp

lemma login_ok_settle_error:
  "login_ok Q d \<Longrightarrow> i < length (dl_calls d) \<Longrightarrow> login_ok Q (settle_login i (Inl e) d)"
  by (rule login_ok_settle) simp_all

lemma login_ok_settle_token:
  "login_ok Q d \<Longrightarrow> i < length (dl_calls d) \<Longrightarrow> Q (lc_deviceCode (dl_calls d ! i)) t \<Longrightarrow> login_ok Q (settle_login i (Inr t) d)"
  by (rule login_ok_settle) simp_all

lemma login_ok_note: "login_ok Q d \<Longrightarrow> i < length (dl_calls d) \<Longrightarrow> login_ok Q (note_pending i d)"
  unfolding note_pending_def by (rule login_ok_edit) (auto simp: login_ok_def dest: nth_mem)

lemma login_ok_stop: "login_ok Q d \<Longrightarrow> login_ok Q (stopPolling d)"
  using stopped_intervals [of d] by (auto simp: login_ok_def)

lemma login_ok_interval: "login_ok Q d \<Longrightarrow> i < length (dl_calls d) \<Longrightarrow> login_ok Q (set_interval i s d)"
  by (auto simp: login_ok_def)

lemma login_ok_store: "login_ok Q d \<Longrightarrow> login_ok Q (store_credentials c d)"
  by (simp add: login_ok_def)

lemma login_ok_poll: "login_ok Q d \<Longrightarrow> i < length (dl_calls d) \<Longrightarrow> login_ok Q (poll i d)"
  unfolding poll_def by (auto intro!: login_ok_settle login_ok_stop) (auto simp: login_ok_def)

lemma login_ok_put:
  assumes "login_ok Q d" "\<And>i. poll_of q = Some i \<Longrightarrow> i < length (dl_calls d)"
    and "\<And>i c. q = AwaitUser i c \<Longrightarrow> Q (lc_deviceCode (dl_calls d ! i)) (cr_accessToken c)"
  shows "login_ok Q (d\<lparr>dl_polls := (dl_polls d)[k := q]\<rparr>)"
proof -
  have sub: "x \<in> set (dl_polls d) \<or> x = q" if "x \<in> set ((dl_polls d)[k := q])" for x
    using that set_update_subset_insert [of "dl_polls d" k q] by blast
  have "i < length (dl_calls d)" if "x \<in> set ((dl_polls d)[k := q])" "poll_of x = Some i" for x i
    using sub [OF that(1)] that(2) assms(1,2) by (auto simp: login_ok_def)
  moreover have "Q (lc_deviceCode (dl_calls d ! i)) (cr_accessToken c)" if "AwaitUser i c \<in> set ((dl_polls d)[k := q])" for i c
    using sub [OF that] assms(1,3) by (auto simp: login_ok_def)
  ultimately show ?thesis
    using assms(1) by (auto simp: login_ok_def)
qed

lemma edit_login_call_length [simp]: "length (dl_calls (edit_login_call i g d)) = length (dl_calls d)"
  by (simp add: edit_login_call_def)

lemma login_ok_error: "login_ok Q d \<Longrightarrow> i < length (dl_calls d) \<Longrightarrow> login_ok Q (poll_error i e description d)"
proof -
  assume d: "login_ok Q d" and i: "i < length (dl_calls d)"
  have "login_ok Q (edit_login_call i (\<lambda>c. c\<lparr>lc_interval := lc_interval c + 5\<rparr>) d)"
    using d i by (rule login_ok_edit) (use d i in \<open>auto simp: login_ok_def dest: nth_mem\<close>)
  with d i show ?thesis
    by (simp add: poll_error_def restartPolling_def Let_def login_ok_note login_ok_interval login_ok_stop login_ok_settle_error)
qed

lemma login_ok_tokens:
  assumes "login_ok Q d" "i < length (dl_calls d)" "Q (lc_deviceCode (dl_calls d ! i)) (cr_accessToken c)"
  shows "login_ok Q (tokens_received k i c now d)"
proof -
  have d1: "login_ok Q (store_credentials c (stopPolling d))"
    using assms(1) by (simp add: login_ok_store login_ok_stop)
  from login_ok_put [OF d1, of "AwaitUser i c" k] login_ok_settle_token [OF d1] assms(2,3)
  show ?thesis by (simp add: tokens_received_def Let_def)
qed

lemma login_ok_step:
  assumes "login_ok Q d" "honest_issuer Q e d"
  shows "login_ok Q (login_step e d)"
proof (cases e)
  case (PollForToken code s)
  let ?d = "d\<lparr>dl_aborted := False,
      dl_calls := dl_calls d @ [\<lparr>lc_deviceCode = code, lc_interval = s, lc_outcome = None, lc_pendings = 0\<rparr>]\<rparr>"
  have old: "i < length (dl_calls d)" if "AwaitUser i c \<in> set (dl_polls d)" for i c
    using that assms(1) by (fastforce simp: login_ok_def)
  have "login_ok Q ?d"
    using assms(1) old by (fastforce simp: login_ok_def nth_append less_Suc_eq)
  then have "login_ok Q (set_interval (length (dl_calls d)) s ?d)"
    by (rule login_ok_interval) simp
  then show ?thesis
    by (simp add: PollForToken pollForToken_def Let_def login_ok_poll)
next
  case (IntervalFired h)
  have "j < length (dl_calls d)" if "map_of (dl_intervals d) h = Some (j, s)" for j s
    using that assms(1) by (force simp: login_ok_def dest: map_of_SomeD)
  with assms(1) IntervalFired show ?thesis
    by (auto simp: interval_fired_def intro: login_ok_poll split: option.split)
next
  case (PollAnswered k now a)
  with assms(2) have k: "k < length (dl_polls d)" by (cases a) simp_all
  show ?thesis
  proof (cases "dl_polls d ! k")
    case (AwaitToken j)
    let ?d = "d\<lparr>dl_polls := (dl_polls d)[k := PollDone]\<rparr>"
    have "dl_polls d ! k \<in> set (dl_polls d)"
      using k by simp
    then have j: "j < length (dl_calls ?d)"
      using assms(1) AwaitToken by (fastforce simp: login_ok_def)
    have d1: "login_ok Q ?d"
      using login_ok_put [OF assms(1), of PollDone] by simp
    show ?thesis
      using login_ok_note [OF d1 j] login_ok_error [OF d1 j] login_ok_tokens [OF d1 j] assms(2) j
      by (cases a) (simp_all add: PollAnswered poll_answered_def AwaitToken Let_def)
  qed (use assms(1) PollAnswered in \<open>simp_all add: poll_answered_def\<close>)
next
  case (UserAnswered k u)
  with assms(2) have k: "k < length (dl_polls d)" by simp
  show ?thesis
  proof (cases "dl_polls d ! k")
    case (AwaitUser j cr)
    let ?d = "d\<lparr>dl_polls := (dl_polls d)[k := PollDone]\<rparr>"
    have "dl_polls d ! k \<in> set (dl_polls d)"
      using k by simp
    then have j: "j < length (dl_calls d)" "Q (lc_deviceCode (dl_calls d ! j)) (cr_accessToken cr)"
      using assms(1) AwaitUser by (fastforce simp: login_ok_def)+
    have d1: "login_ok Q ?d"
      using login_ok_put [OF assms(1), of PollDone] by simp
    then have "login_ok Q (?d\<lparr>dl_provider := x, dl_file := y\<rparr>)" for x y
      by (simp add: login_ok_def)
    with d1 j show ?thesis
      by (simp add: UserAnswered user_answered_def AwaitUser Let_def login_ok_store login_ok_settle_token split: user_answer.split)
  qed (use assms(1) UserAnswered in \<open>simp_all add: user_answered_def\<close>)
next
  case AbortLogin
  have "login_ok Q (d\<lparr>dl_aborted := True\<rparr>)"
    using assms(1) by (simp add: login_ok_def)
  then show ?thesis by (simp add: AbortLogin abort_login_def login_ok_stop)
next
  case (RefreshLogin now a)
  with assms(1) show ?thesis
    by (auto simp: service_refreshToken_def login_ok_store split: option.split)
next
  case Logout
  with assms(1) show ?thesis
    by (simp add: service_logout_def login_ok_def)
qed

lemma new_login_ok: "login_ok Q (new_login f)"
  by (simp add: login_ok_def new_login_def)

interpretation device_flow: machine login_step "honest_issuer Q" "login_ok Q" "new_login f" for Q f
  by unfold_locales (auto intro: new_login_ok login_ok_step)

section \<open>Properties\<close>

text \<open>
  C31: A device login resolves only with an access token the server issued to its own device code, in
  any interleaving of timers, answers, aborts, refreshes and logouts.
\<close>

theorem logins_get_their_token:
  assumes "guarded (honest_issuer Q) login_step es (new_login f)"
    and "c \<in> set (dl_calls (fold login_step es (new_login f)))" "lc_outcome c = Some (Inr t)"
  shows "Q (lc_deviceCode c) t"
  using device_flow.inv_history [OF assms(1)] assms(2,3) unfolding login_ok_def by blast

text \<open>
  When a login is aborted while none of its polls is under way, and its timer is the one the
  service holds, it never settles: the flag is read by the next poll only, and there is none.
\<close>

theorem aborted_login_never_settles:
  assumes "i < length (dl_calls d)" "lc_outcome (dl_calls d ! i) = None" "Some i \<notin> poll_of ` set (dl_polls d)"
    and "\<And>h s. (h, i, s) \<in> set (dl_intervals d) \<Longrightarrow> dl_pollInterval d = Some h"
    and "guarded login_guard login_step es (abort_login d)"
  shows "lc_outcome (dl_calls (fold login_step es (abort_login d)) ! i) = None"
proof -
  have "unpolled i (dl_calls d ! i) (abort_login d)"
    using assms(1,3,4) by (fastforce simp: unpolled_def nothing_polls_def abort_login_def stopPolling_def split: option.split)
  from unpolled_run [OF this assms(5)] assms(2) show ?thesis
    by (simp add: unpolled_def)
qed

text \<open>
  A command whose access token has expired throws the valid refresh token away: the provider says
  that a refresh is possible and does none, the retry goes out without a token like the first
  request, and the second 401 deletes the credentials.
\<close>

theorem expired_login_dropped:
  assumes "getCredentials f p = Some c" "cr_expiresAt c \<le> now" "now \<le> later" "cr_refreshToken c \<noteq> []"
    and "\<And>k h. map_of h ''Authorization'' = None \<Longrightarrow> server k h = Inr r"
    and "hr_ok r = False" "hr_status r = 401" "error_message r = Inr m"
  shows "can_refresh f p \<and>
    cli_request reports now later server (p, f) = (onUnauthorized, Inl (ApiRequestError m 401 False)) \<and>
    getCredentials g (fst onUnauthorized) = None \<and> snd onUnauthorized = None"
proof -
  have "getHeaders None True = [(''Content-Type'', ''application/json'')]"
    by (simp add: getHeaders_def)
  then have "server k (getHeaders None True) = Inr r" for k
    using assms(5) by simp
  moreover have "getAccessToken now f p = None" "getAccessToken later f p = None"
    using assms(1-3) by (simp_all add: getAccessToken_def)
  moreover have refresh: "can_refresh f p"
    using assms(1,4) by (simp add: can_refresh_def)
  ultimately show ?thesis
    using assms(6-8)
    by (simp add: cli_request_def requestWithRetry_def attempt_def handleResponse_def expired_def reportable_def
        onUnauthorized_def getCredentials_def loadCredentials_def)
qed

section \<open>Examples\<close>

definition ex_login :: "login_event list" where
  "ex_login = [PollForToken ''device-1'' 5, PollAnswered 0 1000 (PollError ''authorization_pending'' None), IntervalFired 0,
     IntervalFired 0, PollAnswered 1 2000 (PollTokens ''access-1'' ''refresh-1'' 3600), UserAnswered 1 (UserData ''u1'' ''a@b.c'')]"

text \<open>A \<open>slow_down\<close> that answers a poll of a finished login starts a timer for it again.\<close>

lemma slow_down_after_success:
  "dl_intervals (fold login_step (ex_login @ [PollAnswered 2 2500 (PollError ''slow_down'' None)]) (new_login None)) = [(1, 0, 10)]"
  by code_simp

theorem logins_get_their_token_witness:
  "\<exists>c \<in> set (dl_calls (fold login_step ex_login (new_login None))). lc_outcome c = Some (Inr ''access-1'') \<and> lc_deviceCode c = ''device-1''"
proof -
  let ?Q = "\<lambda>code t. code = ''device-1'' \<and> t = ''access-1''"
  have g: "guarded (honest_issuer ?Q) login_step ex_login (new_login None)"
    by code_simp
  have "\<exists>c \<in> set (dl_calls (fold login_step ex_login (new_login None))). lc_outcome c = Some (Inr ''access-1'')"
    by code_simp
  with logins_get_their_token [OF g] show ?thesis by blast
qed

theorem aborted_login_never_settles_witness:
  "lc_outcome (dl_calls (fold login_step [IntervalFired 0, PollForToken ''device-2'' 5]
     (abort_login (fold login_step (take 2 ex_login) (new_login None)))) ! 0) = None"
proof (rule aborted_login_never_settles)
  let ?d = "fold login_step (take 2 ex_login) (new_login None)"
  show "0 < length (dl_calls ?d)" "lc_outcome (dl_calls ?d ! 0) = None" "Some 0 \<notin> poll_of ` set (dl_polls ?d)"
    "guarded login_guard login_step [IntervalFired 0, PollForToken ''device-2'' 5] (abort_login ?d)"
    by code_simp+
  have "dl_intervals ?d = [(0, 0, 5)]" "dl_pollInterval ?d = Some 0"
    by code_simp+
  then show "(h, 0, s) \<in> set (dl_intervals ?d) \<Longrightarrow> dl_pollInterval ?d = Some h" for h s
    by simp
qed

definition ex_credentials :: cli_credentials where
  "ex_credentials = \<lparr>cr_accessToken = ''a'', cr_refreshToken = ''r'', cr_expiresAt = 1000, cr_userId = None, cr_email = None\<rparr>"

theorem expired_login_dropped_witness:
  "snd (fst (cli_request False 2000 2001 (\<lambda>k h. Inr \<lparr>hr_status = 401, hr_statusText = ''Unauthorized'', hr_url = ''/me'', hr_data = JNull, hr_ok = False\<rparr>)
     (new_provider_state, Some ex_credentials))) = None"
proof -
  have "getCredentials (Some ex_credentials) new_provider_state = Some ex_credentials"
    by code_simp
  from expired_login_dropped [OF this, where now = 2000 and later = 2001 and
      r = "\<lparr>hr_status = 401, hr_statusText = ''Unauthorized'', hr_url = ''/me'', hr_data = JNull, hr_ok = False\<rparr>"
      and server = "\<lambda>k h. Inr \<lparr>hr_status = 401, hr_statusText = ''Unauthorized'', hr_url = ''/me'', hr_data = JNull, hr_ok = False\<rparr>"
      and reports = False]
  show ?thesis
    by (simp add: ex_credentials_def error_message_def)
qed

end
