(* ===== verification/Agent_Socket.thy ===== *)
theory Agent_Socket
  imports Session_Properties Web_Socket
begin

text \<open>
  The hook that feeds the events of the server into the stores
  (\<open>apps/web/src/hooks/useAgentSocket.ts\<close>): the messages, streams and settings of agents, the
  conversations and the workspace of the session that is shown. The handlers live as long as the
  hook is mounted for one session and user. A date that comes as a string is the time it parses to;
  an event whose payload has no session id carries \<open>None\<close>.
\<close>

section \<open>The events\<close>

record agent_message_event =
  ame_id :: ident
  ame_agent_id :: ident
  ame_role :: message_role
  ame_content :: string
  ame_session_id :: "ident option"
  ame_created_at :: "int option"
  ame_tool_calls :: "tool_call list option"

record config_updates =
  cu_model :: "string option"
  cu_mode :: "agent_mode option"
  cu_thinking_enabled :: "bool option"
  cu_thinking_budget :: "int option"

record conversation_data =
  cd_id :: ident
  cd_name :: string
  cd_attached_agent_ids :: "ident list option"
  cd_message_count :: "int option"
  cd_last_message_at :: "string option"
  cd_created_at :: "string option"
  cd_updated_at :: "string option"

datatype backend_role = UserRole | AssistantRole | SystemRole

record backend_message =
  bm_id :: ident
  bm_role :: backend_role
  bm_content :: string
  bm_thinking :: "string option"
  bm_created_at :: int

datatype toast_kind = ToastInfo | ToastWarning | ToastError

record toast =
  to_kind :: toast_kind
  to_title :: string
  to_description :: string

record credit_modal =
  cm_message :: string
  cm_upgrade_url :: string
  cm_add_credits_url :: string

text \<open>The hook with the two stores it writes to, the toasts it has shown and the billing modal.\<close>

record agent_hook =
  hk_session :: ident
  hk_client :: client
  hk_toasts :: "toast list"
  hk_modal :: "credit_modal option"

definition on_store :: "(session_state \<Rightarrow> session_state) \<Rightarrow> agent_hook \<Rightarrow> agent_hook" where
  "on_store f h = h\<lparr>hk_client := (fst (hk_client h), f (snd (hk_client h)))\<rparr>"

definition on_streams :: "(streaming_state \<Rightarrow> streaming_state) \<Rightarrow> agent_hook \<Rightarrow> agent_hook" where
  "on_streams f h = h\<lparr>hk_client := (f (fst (hk_client h)), snd (hk_client h))\<rparr>"

definition show_toast :: "toast_kind \<Rightarrow> string \<Rightarrow> string \<Rightarrow> agent_hook \<Rightarrow> agent_hook" where
  "show_toast kind title description h =
     h\<lparr>hk_toasts := hk_toasts h @ [\<lparr>to_kind = kind, to_title = title, to_description = description\<rparr>]\<rparr>"

text \<open>\<open>if (data.session_id !== sessionId) return\<close>.\<close>

definition for_session :: "ident option \<Rightarrow> (agent_hook \<Rightarrow> agent_hook) \<Rightarrow> agent_hook \<Rightarrow> agent_hook" where
  "for_session k f h = (if k \<noteq> Some (hk_session h) then h else f h)"

section \<open>Agents and their streams\<close>

definition agent_message_of :: "clock \<Rightarrow> agent_message_event \<Rightarrow> message" where
  "agent_message_of clk d =
     \<lparr>ms_id = ame_id d, ms_role = ame_role d, ms_content = ame_content d, ms_thinking = None,
      ms_timestamp = Some (coalesce (ame_created_at d) (clk_ms clk)), ms_toolCalls = ame_tool_calls d,
      ms_toolResults = None, ms_stopReason = None, ms_usage = None, ms_model = None\<rparr>"

definition on_agent_message :: "clock \<Rightarrow> agent_message_event \<Rightarrow> agent_hook \<Rightarrow> agent_hook" where
  "on_agent_message clk d = for_session (ame_session_id d) (\<lambda>h.
     case map_of (st_sessions (snd (hk_client h))) (hk_session h) of
       None \<Rightarrow> h
     | Some s \<Rightarrow>
         if find (\<lambda>a. ag_id a = ame_agent_id d) (ss_agents s) = None then h
         else (case getConversationForAgent (hk_session h) (ame_agent_id d) (snd (hk_client h)) of
             None \<Rightarrow> h
           | Some c \<Rightarrow>
               if \<exists>m \<in> set (cv_messages c). ms_id m = ame_id d then h
               else on_store (addConversationMessage clk (hk_session h) (cv_id c) (agent_message_of clk d)) h))"

definition on_agent_status :: "ident option \<Rightarrow> ident \<Rightarrow> agent_status \<Rightarrow> agent_hook \<Rightarrow> agent_hook" where
  "on_agent_status k agentId status = for_session k (\<lambda>h. on_store (updateAgent (hk_session h) agentId [AgStatus status]) h)"

definition on_stream_start :: "clock \<Rightarrow> ident option \<Rightarrow> ident \<Rightarrow> ident \<Rightarrow> agent_hook \<Rightarrow> agent_hook" where
  "on_stream_start clk k agentId messageId = for_session k (\<lambda>h.
     on_store (updateAgent (hk_session h) agentId [AgStatus Active])
       (on_streams (startStreamingMessage clk (hk_session h) agentId messageId) h))"

definition on_agent_token :: "ident option \<Rightarrow> ident \<Rightarrow> string \<Rightarrow> agent_hook \<Rightarrow> agent_hook" where
  "on_agent_token k messageId tok = for_session k (on_streams (appendStreamingToken messageId tok))"

definition on_thinking_token :: "ident option \<Rightarrow> ident \<Rightarrow> string \<Rightarrow> agent_hook \<Rightarrow> agent_hook" where
  "on_thinking_token k messageId thinking = for_session k (on_streams (appendThinkingToken messageId thinking))"

definition on_stream_end ::
    "clock \<Rightarrow> ident option \<Rightarrow> ident \<Rightarrow> ident \<Rightarrow> string option \<Rightarrow> tool_call list option \<Rightarrow> agent_hook \<Rightarrow> agent_hook" where
  "on_stream_end clk k agentId messageId fullContent toolCalls = for_session k (\<lambda>h.
     on_store (updateAgent (hk_session h) agentId [AgStatus Idle])
       (h\<lparr>hk_client := finalizeStreamingMessage clk messageId (str_or fullContent []) toolCalls (hk_client h)\<rparr>))"

definition config_patch :: "config_updates \<Rightarrow> agent_field list" where
  "config_patch u =
     (if truthy (cu_model u) then [AgModel (the (cu_model u))] else []) @
     (case cu_mode u of None \<Rightarrow> [] | Some m \<Rightarrow> [AgMode m]) @
     (if cu_thinking_enabled u \<noteq> None \<or> cu_thinking_budget u \<noteq> None
      then [AgThinkingConfig (Some \<lparr>tk_enabled = coalesce (cu_thinking_enabled u) False,
              tk_budget = Some (coalesce (cu_thinking_budget u) 10000)\<rparr>)] else [])"

definition on_config_update :: "ident option \<Rightarrow> ident \<Rightarrow> config_updates \<Rightarrow> agent_hook \<Rightarrow> agent_hook" where
  "on_config_update k agentId updates = for_session k (\<lambda>h.
     if config_patch updates = [] then h
     else on_store (updateAgent (hk_session h) agentId (config_patch updates)) h)"

section \<open>The workspace\<close>

text \<open>Neither event names a session, and its workspace is not compared.\<close>

definition on_workspace_status :: "workspace_status \<Rightarrow> string option \<Rightarrow> agent_hook \<Rightarrow> agent_hook" where
  "on_workspace_status status err h =
     (let h1 = on_store (setWorkspaceStatus (hk_session h) status) h
      in if status = WsStopped then show_toast ToastInfo ''Workspace stopped''
             ''Your workspace was stopped. Click Start to continue.'' h1
         else if status = WsOffline then show_toast ToastWarning ''Local pod disconnected''
             ''Your local pod has gone offline. The workspace will reconnect automatically when the pod comes back online.'' h1
         else if status = WsError \<and> truthy err then show_toast ToastError ''Workspace error'' (the err) h1
         else h1)"

definition on_billing_standby :: "string \<Rightarrow> string \<Rightarrow> string \<Rightarrow> agent_hook \<Rightarrow> agent_hook" where
  "on_billing_standby msg upgradeUrl creditsUrl h =
     show_toast ToastWarning ''Workspace paused - credits exhausted'' msg
       (on_store (setWorkspaceStatus (hk_session h) WsStopped)
         (h\<lparr>hk_modal := Some \<lparr>cm_message = msg, cm_upgrade_url = upgradeUrl, cm_add_credits_url = creditsUrl\<rparr>\<rparr>))"

section \<open>Conversations\<close>

definition conversation_event_in :: "ident option \<Rightarrow> conv_event \<Rightarrow> agent_hook \<Rightarrow> agent_hook" where
  "conversation_event_in k ev = for_session k (\<lambda>h. on_store (handleConversationEvent (hk_session h) ev) h)"

text \<open>The server sends the fields of a new conversation.\<close>

definition created_conversation :: "conversation_data \<Rightarrow> conversation" where
  "created_conversation d =
     \<lparr>cv_id = cd_id d, cv_name = cd_name d, cv_messages = [], cv_attached = Some (coalesce (cd_attached_agent_ids d) []),
      cv_messageCount = coalesce (cd_message_count d) 0, cv_lastMessageAt = cd_last_message_at d,
      cv_createdAt = coalesce (cd_created_at d) [], cv_updatedAt = coalesce (cd_updated_at d) []\<rparr>"

definition updated_fields :: "clock \<Rightarrow> conversation_data \<Rightarrow> conv_field list" where
  "updated_fields clk d =
     [CvName (cd_name d), CvAttached (Some (coalesce (cd_attached_agent_ids d) [])),
      CvMessageCount (coalesce (cd_message_count d) 0), CvLastMessageAt (cd_last_message_at d),
      CvCreatedAt (coalesce (cd_created_at d) (clk_iso clk)), CvUpdatedAt (coalesce (cd_updated_at d) (clk_iso clk)),
      CvMessages []]"

definition on_conversation_created :: "ident option \<Rightarrow> conversation_data \<Rightarrow> agent_hook \<Rightarrow> agent_hook" where
  "on_conversation_created k d = conversation_event_in k (Conversation_created (created_conversation d))"

definition on_conversation_updated :: "clock \<Rightarrow> ident option \<Rightarrow> conversation_data \<Rightarrow> agent_hook \<Rightarrow> agent_hook" where
  "on_conversation_updated clk k d = conversation_event_in k (Conversation_updated (cd_id d) (updated_fields clk d))"

definition on_conversation_deleted :: "ident option \<Rightarrow> ident \<Rightarrow> agent_hook \<Rightarrow> agent_hook" where
  "on_conversation_deleted k c = conversation_event_in k (Conversation_deleted c)"

definition on_conversation_attached :: "ident option \<Rightarrow> ident \<Rightarrow> ident \<Rightarrow> agent_hook \<Rightarrow> agent_hook" where
  "on_conversation_attached k c a = conversation_event_in k (Conversation_attached c a)"

definition on_conversation_detached :: "ident option \<Rightarrow> ident \<Rightarrow> ident option \<Rightarrow> agent_hook \<Rightarrow> agent_hook" where
  "on_conversation_detached k c a = conversation_event_in k (Conversation_detached c a)"

definition backend_message_of :: "backend_message \<Rightarrow> message" where
  "backend_message_of d =
     \<lparr>ms_id = bm_id d, ms_role = (if bm_role d = UserRole then User else Assistant), ms_content = bm_content d,
      ms_thinking = bm_thinking d, ms_timestamp = Some (bm_created_at d), ms_toolCalls = None,
      ms_toolResults = None, ms_stopReason = None, ms_usage = None, ms_model = None\<rparr>"

definition on_conversation_message :: "clock \<Rightarrow> ident option \<Rightarrow> ident \<Rightarrow> backend_message \<Rightarrow> agent_hook \<Rightarrow> agent_hook" where
  "on_conversation_message clk k c d = for_session k (\<lambda>h.
     on_store (addConversationMessage clk (hk_session h) c (backend_message_of d)) h)"

section \<open>Mounting\<close>

definition agent_events :: "string list" where
  "agent_events = [''agent_message'', ''agent_status'', ''agent_stream_start'', ''agent_token'', ''agent_thinking_token'',
     ''agent_stream_end'', ''agent_config_update'', ''workspace_status'', ''conversation_created'', ''conversation_updated'',
     ''conversation_deleted'', ''conversation_attached'', ''conversation_detached'', ''conversation_message'',
     ''workspace_billing_standby'']"

text \<open>The effect and its clean-up; \<open>l\<close> names the handlers of this mounting.\<close>

definition mount_agent_socket :: "nat \<Rightarrow> ident \<Rightarrow> ident \<Rightarrow> web_socket \<Rightarrow> web_socket" where
  "mount_agent_socket l sessionId userId w =
     (if sessionId = [] \<or> userId = [] then w
      else fold (\<lambda>e. onSocketEvent e l) agent_events (web_joinSession sessionId userId (connectSocket w)))"

definition unmount_agent_socket :: "nat \<Rightarrow> ident \<Rightarrow> ident \<Rightarrow> web_socket \<Rightarrow> web_socket" where
  "unmount_agent_socket l sessionId userId w =
     (if sessionId = [] \<or> userId = [] then w
      else web_leaveSession sessionId userId (fold (\<lambda>e. offSocketEvent e l) agent_events w))"

section \<open>Events\<close>

datatype agent_socket_event =
    AgentMessage clock agent_message_event
  | AgentStatus "ident option" ident agent_status
  | StreamStart clock "ident option" ident ident
  | AgentToken "ident option" ident string
  | ThinkingToken "ident option" ident string
  | StreamEnd clock "ident option" ident ident "string option" "tool_call list option"
  | ConfigUpdate "ident option" ident config_updates
  | WorkspaceStatus workspace_status "string option"
  | BillingStandby string string string
  | ConversationCreated "ident option" conversation_data
  | ConversationUpdated clock "ident option" conversation_data
  | ConversationDeleted "ident option" ident
  | ConversationAttached "ident option" ident ident
  | ConversationDetached "ident option" ident "ident option"
  | ConversationMessage clock "ident option" ident backend_message

fun agent_socket_step :: "agent_socket_event \<Rightarrow> agent_hook \<Rightarrow> agent_hook" where
  "agent_socket_step (AgentMessage clk d) h = on_agent_message clk d h"
| "agent_socket_step (AgentStatus k a st) h = on_agent_status k a st h"
| "agent_socket_step (StreamStart clk k a m) h = on_stream_start clk k a m h"
| "agent_socket_step (AgentToken k m t) h = on_agent_token k m t h"
| "agent_socket_step (ThinkingToken k m t) h = on_thinking_token k m t h"
| "agent_socket_step (StreamEnd clk k a m body tcs) h = on_stream_end clk k a m body tcs h"
| "agent_socket_step (ConfigUpdate k a u) h = on_config_update k a u h"
| "agent_socket_step (WorkspaceStatus st e) h = on_workspace_status st e h"
| "agent_socket_step (BillingStandby msg u c) h = on_billing_standby msg u c h"
| "agent_socket_step (ConversationCreated k d) h = on_conversation_created k d h"
| "agent_socket_step (ConversationUpdated clk k d) h = on_conversation_updated clk k d h"
| "agent_socket_step (ConversationDeleted k c) h = on_conversation_deleted k c h"
| "agent_socket_step (ConversationAttached k c a) h = on_conversation_attached k c a h"
| "agent_socket_step (ConversationDetached k c a) h = on_conversation_detached k c a h"
| "agent_socket_step (ConversationMessage clk k c d) h = on_conversation_message clk k c d h"

definition new_agent_hook :: "ident \<Rightarrow> client \<Rightarrow> agent_hook" where
  "new_agent_hook sessionId c = \<lparr>hk_session = sessionId, hk_client = c, hk_toasts = [], hk_modal = None\<rparr>"


section \<open>The hook only uses the actions of the stores\<close>

text \<open>The actions that an event amounts to, read off the state it meets.\<close>

fun store_actions :: "agent_socket_event \<Rightarrow> agent_hook \<Rightarrow> client_event list" where
  "store_actions (AgentMessage clk d) h =
     (case getConversationForAgent (hk_session h) (ame_agent_id d) (snd (hk_client h)) of
        None \<Rightarrow> []
      | Some c \<Rightarrow>
          if ame_id d \<in> ms_id ` set (cv_messages c) then []
          else [Message (AddMessage clk (hk_session h) (cv_id c) (agent_message_of clk d))])"
| "store_actions (AgentStatus k a st) h = [Core (UpdateAgent (hk_session h) a [AgStatus st])]"
| "store_actions (StreamStart clk k a m) h =
     [Stream (StartStreaming clk (hk_session h) a m), Core (UpdateAgent (hk_session h) a [AgStatus Active])]"
| "store_actions (AgentToken k m t) h = [Stream (StreamToken m t)]"
| "store_actions (ThinkingToken k m t) h = [Stream (StreamThinking m t)]"
| "store_actions (StreamEnd clk k a m body tcs) h =
     [Stream (FinalizeStreaming clk m (str_or body []) tcs), Core (UpdateAgent (hk_session h) a [AgStatus Idle])]"
| "store_actions (ConfigUpdate k a u) h =
     (if config_patch u = [] then [] else [Core (UpdateAgent (hk_session h) a (config_patch u))])"
| "store_actions (WorkspaceStatus st e) h = [Field (SetWorkspaceStatus (hk_session h) st)]"
| "store_actions (BillingStandby msg u c) h = [Field (SetWorkspaceStatus (hk_session h) WsStopped)]"
| "store_actions (ConversationCreated k d) h =
     [Conversation (ConversationEvent (hk_session h) (Conversation_created (created_conversation d)))]"
| "store_actions (ConversationUpdated clk k d) h =
     [Conversation (ConversationEvent (hk_session h) (Conversation_updated (cd_id d) (updated_fields clk d)))]"
| "store_actions (ConversationDeleted k c) h = [Conversation (ConversationEvent (hk_session h) (Conversation_deleted c))]"
| "store_actions (ConversationAttached k c a) h = [Conversation (ConversationEvent (hk_session h) (Conversation_attached c a))]"
| "store_actions (ConversationDetached k c a) h = [Conversation (ConversationEvent (hk_session h) (Conversation_detached c a))]"
| "store_actions (ConversationMessage clk k c d) h = [Message (AddMessage clk (hk_session h) c (backend_message_of d))]"

text \<open>The session an event names; the events of the workspace reach every session.\<close>

fun event_session :: "agent_socket_event \<Rightarrow> ident option option" where
  "event_session (AgentMessage clk d) = Some (ame_session_id d)"
| "event_session (AgentStatus k a st) = Some k"
| "event_session (StreamStart clk k a m) = Some k"
| "event_session (AgentToken k m t) = Some k"
| "event_session (ThinkingToken k m t) = Some k"
| "event_session (StreamEnd clk k a m body tcs) = Some k"
| "event_session (ConfigUpdate k a u) = Some k"
| "event_session (WorkspaceStatus st e) = None"
| "event_session (BillingStandby msg u c) = None"
| "event_session (ConversationCreated k d) = Some k"
| "event_session (ConversationUpdated clk k d) = Some k"
| "event_session (ConversationDeleted k c) = Some k"
| "event_session (ConversationAttached k c a) = Some k"
| "event_session (ConversationDetached k c a) = Some k"
| "event_session (ConversationMessage clk k c d) = Some k"

definition accepted :: "agent_socket_event \<Rightarrow> agent_hook \<Rightarrow> bool" where
  "accepted e h \<longleftrightarrow> (case event_session e of None \<Rightarrow> True | Some k \<Rightarrow> k = Some (hk_session h))"

lemmas hook_defs = on_agent_message_def on_agent_status_def on_stream_start_def on_agent_token_def
  on_thinking_token_def on_stream_end_def on_config_update_def on_workspace_status_def on_billing_standby_def
  on_conversation_created_def on_conversation_updated_def on_conversation_deleted_def on_conversation_attached_def
  on_conversation_detached_def on_conversation_message_def conversation_event_in_def for_session_def

lemma foreign_event_ignored: "\<not> accepted e h \<Longrightarrow> agent_socket_step e h = h"
  by (cases e) (simp_all add: accepted_def hook_defs)

lemma conversation_found_agent:
  "getConversationForAgent k a st = Some c \<Longrightarrow>
   \<exists>s. map_of (st_sessions st) k = Some s \<and> find (\<lambda>x. ag_id x = a) (ss_agents s) \<noteq> None"
  by (auto simp: getConversationForAgent_def split: option.splits)

lemma hook_actions:
  assumes "accepted e h"
  shows "hk_client (agent_socket_step e h) = fold client_step (store_actions e h) (hk_client h) \<and>
    hk_session (agent_socket_step e h) = hk_session h"
proof (cases e)
  case (AgentMessage clk d)
  have "ame_session_id d = Some (hk_session h)"
    using assms by (simp add: AgentMessage accepted_def)
  then show ?thesis
    using conversation_found_agent [of "hk_session h" "ame_agent_id d" "snd (hk_client h)"]
    by (cases "getConversationForAgent (hk_session h) (ame_agent_id d) (snd (hk_client h))")
      (auto simp: AgentMessage hook_defs on_store_def image_iff split: option.split)
qed (use assms in \<open>auto simp: accepted_def hook_defs on_store_def on_streams_def show_toast_def Let_def\<close>)

text \<open>What is asked of the server: ids are not empty, lists agree with the pointers the client has, and an
  agent is attached only to a conversation that the client knows.\<close>

fun agent_socket_guard :: "agent_socket_event \<Rightarrow> agent_hook \<Rightarrow> bool" where
  "agent_socket_guard (AgentMessage clk d) h = (ame_id d \<noteq> [])"
| "agent_socket_guard (StreamEnd clk k a m body tcs) h = (m \<noteq> [])"
| "agent_socket_guard (ConversationMessage clk k c d) h = (bm_id d \<noteq> [])"
| "agent_socket_guard (ConversationUpdated clk k d) h =
     in_session (snd (hk_client h)) (hk_session h) (\<lambda>s.
       \<forall>a \<in> set (ss_agents s). ag_conversation a = Some (cd_id d) \<longrightarrow> ag_id a \<in> set (coalesce (cd_attached_agent_ids d) []))"
| "agent_socket_guard (ConversationAttached k c a) h =
     in_session (snd (hk_client h)) (hk_session h) (attachable c a)"
| "agent_socket_guard (ConversationDetached k c a) h = (a \<noteq> Some [])"
| "agent_socket_guard _ h = True"

lemma config_patch_safe: "safe_agent_patch (config_patch u)"
  by (auto simp: safe_agent_patch_def config_patch_def split: option.split)

lemma store_actions_guarded:
  "agent_socket_guard e h \<Longrightarrow> guarded client_guard client_step (store_actions e h) (hk_client h)"
  by (cases e)
    (auto simp: agent_message_of_def backend_message_of_def config_patch_safe [unfolded safe_agent_patch_def] safe_agent_patch_def conv_event_ok_def
      updated_fields_def patch_attached_def in_session_def split: option.split)

lemma hook_step_ok:
  assumes "store_ok (snd (hk_client h))" "agent_socket_guard e h"
  shows "store_ok (snd (hk_client (agent_socket_step e h)))"
proof (cases "accepted e h")
  case True
  with hook_actions [OF this] client.inv_run [OF assms(1) store_actions_guarded [OF assms(2)]] show ?thesis
    by simp
qed (simp add: foreign_event_ignored assms)

interpretation agent_socket: machine agent_socket_step agent_socket_guard "\<lambda>h. store_ok (snd (hk_client h))"
    "new_agent_hook sessionId init_client" for sessionId
  by unfold_locales (auto simp: new_agent_hook_def init_client_def empty_store_ok hook_step_ok)

section \<open>One answer, many events\<close>














lemma finalize_agents [simp]: "ss_agents (finalize_in_session clk e m body tcs s) = ss_agents s"
  by (simp add: finalize_in_session_def Let_def split: option.split)






section \<open>Properties\<close>


text \<open>
  In every history of such events the stores keep their invariant: the hook uses nothing but
  their actions, and with what is asked of the server each of them is one the stores permit.
\<close>

theorem hook_history_invariant:
  assumes "guarded agent_socket_guard agent_socket_step es (new_agent_hook k init_client)"
  shows "store_ok (snd (hk_client (fold agent_socket_step es (new_agent_hook k init_client))))"
  using assms by (rule agent_socket.inv_history)

text \<open>
  C32: A conversation that is renamed anywhere loses its messages here: the hook fills the event with
  an empty list, which the store takes over. An event without the session's id changes nothing.
\<close>

theorem renamed_conversation_loses_messages:
  assumes "map_of (st_sessions (snd (hk_client h))) (hk_session h) = Some s"
    and "find (\<lambda>x. cv_id x = cd_id d) (ss_conversations s) = Some c"
  shows "\<exists>s' c'. map_of (st_sessions (snd (hk_client (agent_socket_step (ConversationUpdated clk (Some (hk_session h)) d) h))))
      (hk_session h) = Some s' \<and>
    find (\<lambda>x. cv_id x = cd_id d) (ss_conversations s') = Some c' \<and> cv_name c' = cd_name d \<and> cv_messages c' = [] \<and>
    agent_socket_step (ConversationUpdated clk None d) h = h"
proof -
  let ?f = "\<lambda>x. (fold assign_conv (updated_fields clk d) x)\<lparr>cv_attached :=
      Some (coalesce (patch_attached (updated_fields clk d)) (attached x))\<rparr>"
  have "find (\<lambda>x. cv_id x = cd_id d) (map_where (\<lambda>x. cv_id x = cd_id d) ?f (ss_conversations s)) = Some (?f c)"
    by (subst find_map_where) (simp_all add: assms(2) updated_fields_def)
  with assms(1) show ?thesis
    by (simp add: hook_defs on_store_def handleConversationEvent_def) (simp add: updated_fields_def)
qed

text \<open>Turning thinking off or on resets the budget the user has set.\<close>

lemma thinking_budget_reset:
  assumes "map_of (st_sessions (snd (hk_client h))) (hk_session h) = Some s"
    and "find (\<lambda>x. ag_id x = a) (ss_agents s) = Some ag" "cu_thinking_enabled u = Some b" "cu_thinking_budget u = None"
  shows "\<exists>s' ag'. map_of (st_sessions (snd (hk_client (on_config_update (Some (hk_session h)) a u h)))) (hk_session h) = Some s' \<and>
    find (\<lambda>x. ag_id x = a) (ss_agents s') = Some ag' \<and> ag_thinkingConfig ag' = Some \<lparr>tk_enabled = b, tk_budget = Some 10000\<rparr>"
proof -
  have ids: "ag_id (fold assign_agent (config_patch u) x) = ag_id x" for x
    by (simp add: safe_patch [OF config_patch_safe])
  have "find (\<lambda>x. ag_id x = a) (map_where (\<lambda>x. ag_id x = a) (fold assign_agent (config_patch u)) (ss_agents s)) =
      Some (fold assign_agent (config_patch u) ag)"
    by (subst find_map_where) (simp_all add: assms(2) ids)
  moreover have "ag_thinkingConfig (fold assign_agent (config_patch u) ag) = Some \<lparr>tk_enabled = b, tk_budget = Some 10000\<rparr>"
    using assms(3,4) by (simp add: config_patch_def)
  moreover have "config_patch u \<noteq> []"
    using assms(3) by (simp add: config_patch_def)
  ultimately show ?thesis
    using assms(1) by (simp add: on_config_update_def for_session_def on_store_def updateAgent_def)
qed

text \<open>
  A session that is left for another while its token is being fetched: both are joined, with the
  same one-time token, and from then on the status of the first session's workspace, which names
  no session, is taken for that of the second.
\<close>

lemma switched_session_joined:
  "map snd (filter (\<lambda>e. fst (snd e) = ''session_join'') (io_emitted (sc_sockets (wk_client
     (token_answered (Some ''t'') (mount_agent_socket 1 ''s2'' ''u'' (unmount_agent_socket 0 ''s1'' ''u''
       (mount_agent_socket 0 ''s1'' ''u'' (fold web_socket_step [WebConnect, WebUp 0] init_web_socket)))))) ! 0))) =
   map (\<lambda>s. (''session_join'', join_data \<lparr>as_sessionId = s, as_userId = ''u'', as_authToken = Some ''t''\<rparr>)) [''s1'', ''s2'']"
  by code_simp

lemma foreign_workspace_accepted:
  assumes "map_of (st_sessions (snd (hk_client h))) (hk_session h) = Some s"
  shows "\<exists>s'. map_of (st_sessions (snd (hk_client (agent_socket_step (WorkspaceStatus st e) h)))) (hk_session h) = Some s' \<and>
    ss_workspaceStatus s' = st"
  using assms by (simp add: on_workspace_status_def on_store_def setWorkspaceStatus_def show_toast_def Let_def)

section \<open>Examples\<close>

definition ex_hook :: agent_hook where
  "ex_hook = new_agent_hook ''s'' ([], ex_state ex_pair)"

definition ex_answer :: "ident option \<Rightarrow> agent_message_event" where
  "ex_answer k = \<lparr>ame_id = ''m'', ame_agent_id = ''a'', ame_role = Assistant, ame_content = ''hi'', ame_session_id = k,
     ame_created_at = Some 5, ame_tool_calls = None\<rparr>"

definition ex_answer_events :: "agent_socket_event list" where
  "ex_answer_events = [StreamStart clk0 (Some ''s'') ''a'' ''m'', AgentToken (Some ''s'') ''m'' ''h'', AgentMessage clk0 (ex_answer (Some ''s'')),
     AgentToken (Some ''s'') ''m'' ''i'', StreamEnd clk0 (Some ''s'') ''a'' ''m'' (Some ''hi'') None,
     ConversationMessage clk0 (Some ''s'') ''c'' \<lparr>bm_id = ''m'', bm_role = AssistantRole, bm_content = ''hi'', bm_thinking = None, bm_created_at = 5\<rparr>]"


theorem hook_history_invariant_witness:
  "store_ok (snd (hk_client (fold agent_socket_step ex_answer_events (new_agent_hook ''s'' init_client))))"
  by (rule hook_history_invariant) code_simp

theorem renamed_conversation_loses_messages_witness:
  "\<exists>s' c'. map_of (st_sessions (snd (hk_client (agent_socket_step (ConversationUpdated clk0 (Some ''s'')
       \<lparr>cd_id = ''d'', cd_name = ''new'', cd_attached_agent_ids = None, cd_message_count = Some 2, cd_last_message_at = None,
        cd_created_at = None, cd_updated_at = None\<rparr>) ex_hook)))) ''s'' = Some s' \<and>
     find (\<lambda>x. cv_id x = ''d'') (ss_conversations s') = Some c' \<and> cv_messages c' = []"
proof -
  let ?d = "\<lparr>cd_id = ''d'', cd_name = ''new'', cd_attached_agent_ids = None, cd_message_count = Some 2, cd_last_message_at = None,
        cd_created_at = None, cd_updated_at = None\<rparr>"
  have h: "hk_session ex_hook = ''s''" "map_of (st_sessions (snd (hk_client ex_hook))) (hk_session ex_hook) = Some ex_pair"
    by (simp_all add: ex_hook_def new_agent_hook_def)
  show ?thesis
    using renamed_conversation_loses_messages [OF h(2), where d = ?d and clk = clk0 and c = "ex_conversation ''d'' [''b'', ''a''] []"]
    by (auto simp: h(1))
qed

end
