(* ===== verification/Keybindings_Store.thy ===== *)
theory Keybindings_Store
  imports Keybindings Api_Utils
begin

text \<open>
  The shortcuts that a user has chosen (\<open>apps/web/src/stores/keybindings.ts\<close>), their synchronisation
  with the server, and the hook that gives them to the keybinding manager
  (\<open>apps/web/src/hooks/useKeybindingsSync.ts\<close>). A call of the server is an event: its answer comes
  when it comes; the timer of the module is armed or not.
\<close>

section \<open>The default bindings\<close>

record binding =
  bi_id :: ident
  bi_command :: string
  bi_label :: string
  bi_category :: string
  bi_keys :: "string list"
  bi_when :: "string option"
  bi_isDefault :: "bool option"
  bi_isCustom :: "bool option"

definition default_binding :: "ident \<Rightarrow> string \<Rightarrow> string \<Rightarrow> string \<Rightarrow> string list \<Rightarrow> string option \<Rightarrow> binding" where
  "default_binding i command label category keys w =
     \<lparr>bi_id = i, bi_command = command, bi_label = label, bi_category = category, bi_keys = keys, bi_when = w,
      bi_isDefault = None, bi_isCustom = None\<rparr>"

definition file_bindings :: "binding list" where
  "file_bindings =
    [default_binding ''file.new'' ''file.new'' ''New File'' ''File'' [''Cmd+N''] None,
     default_binding ''file.open'' ''file.open'' ''Open File'' ''File'' [''Cmd+O''] None,
     default_binding ''file.save'' ''file.save'' ''Save'' ''File'' [''Cmd+S''] None,
     default_binding ''file.saveAll'' ''file.saveAll'' ''Save All'' ''File'' [''Cmd+Alt+S''] None,
     default_binding ''file.close'' ''file.close'' ''Close Tab'' ''File'' [''Cmd+W''] None,
     default_binding ''file.closeAll'' ''file.closeAll'' ''Close All'' ''File'' [''Cmd+K Cmd+W''] None,
     default_binding ''file.reopenClosed'' ''file.reopenClosed'' ''Reopen Closed'' ''File'' [''Cmd+Shift+T''] None]"

definition navigation_bindings :: "binding list" where
  "navigation_bindings =
    [default_binding ''nav.quickOpen'' ''nav.quickOpen'' ''Quick Open'' ''Navigation'' [''Cmd+P''] None,
     default_binding ''nav.commandPalette'' ''nav.commandPalette'' ''Command Palette'' ''Navigation'' [''Cmd+K''] None,
     default_binding ''nav.commandPaletteAlt'' ''nav.commandPalette'' ''Command Palette (Alt)'' ''Navigation'' [''Cmd+Shift+P''] None,
     default_binding ''nav.goToLine'' ''nav.goToLine'' ''Go to Line'' ''Navigation'' [''Cmd+G''] None,
     default_binding ''nav.goToSymbol'' ''nav.goToSymbol'' ''Go to Symbol'' ''Navigation'' [''Cmd+Shift+O''] None,
     default_binding ''nav.goToDefinition'' ''nav.goToDefinition'' ''Go to Definition'' ''Navigation'' [''F12''] None,
     default_binding ''nav.peekDefinition'' ''nav.peekDefinition'' ''Peek Definition'' ''Navigation'' [''Alt+F12''] None,
     default_binding ''nav.findReferences'' ''nav.findReferences'' ''Find References'' ''Navigation'' [''Shift+F12''] None,
     default_binding ''nav.back'' ''nav.back'' ''Go Back'' ''Navigation'' [''Ctrl+-''] None,
     default_binding ''nav.forward'' ''nav.forward'' ''Go Forward'' ''Navigation'' [''Ctrl+Shift+-''] None]"

definition search_bindings :: "binding list" where
  "search_bindings =
    [default_binding ''search.find'' ''search.find'' ''Find'' ''Search'' [''Cmd+F''] None,
     default_binding ''search.replace'' ''search.replace'' ''Replace'' ''Search'' [''Cmd+H''] None,
     default_binding ''search.findInFiles'' ''search.findInFiles'' ''Find in Files'' ''Search'' [''Cmd+Shift+F''] None,
     default_binding ''search.findNext'' ''search.findNext'' ''Find Next'' ''Search'' [''F3'', ''Cmd+G''] None,
     default_binding ''search.findPrevious'' ''search.findPrevious'' ''Find Previous'' ''Search'' [''Shift+F3'', ''Cmd+Shift+G''] None]"

definition editor_bindings :: "binding list" where
  "editor_bindings =
    [default_binding ''editor.selectAll'' ''editor.selectAll'' ''Select All'' ''Editor'' [''Cmd+A''] None,
     default_binding ''editor.cut'' ''editor.cut'' ''Cut'' ''Editor'' [''Cmd+X''] None,
     default_binding ''editor.copy'' ''editor.copy'' ''Copy'' ''Editor'' [''Cmd+C''] None,
     default_binding ''editor.paste'' ''editor.paste'' ''Paste'' ''Editor'' [''Cmd+V''] None,
     default_binding ''editor.undo'' ''editor.undo'' ''Undo'' ''Editor'' [''Cmd+Z''] None,
     default_binding ''editor.redo'' ''editor.redo'' ''Redo'' ''Editor'' [''Cmd+Shift+Z''] None,
     default_binding ''editor.comment'' ''editor.comment'' ''Toggle Comment'' ''Editor'' [''Cmd+/''] None,
     default_binding ''editor.blockComment'' ''editor.blockComment'' ''Toggle Block Comment'' ''Editor'' [''Cmd+Shift+/''] None,
     default_binding ''editor.deleteLine'' ''editor.deleteLine'' ''Delete Line'' ''Editor'' [''Cmd+Shift+K''] None,
     default_binding ''editor.moveLineUp'' ''editor.moveLineUp'' ''Move Line Up'' ''Editor'' [''Alt+Up''] None,
     default_binding ''editor.moveLineDown'' ''editor.moveLineDown'' ''Move Line Down'' ''Editor'' [''Alt+Down''] None,
     default_binding ''editor.copyLineUp'' ''editor.copyLineUp'' ''Copy Line Up'' ''Editor'' [''Alt+Shift+Up''] None,
     default_binding ''editor.copyLineDown'' ''editor.copyLineDown'' ''Copy Line Down'' ''Editor'' [''Alt+Shift+Down''] None,
     default_binding ''editor.addCursorAbove'' ''editor.addCursorAbove'' ''Add Cursor Above'' ''Editor'' [''Cmd+Alt+Up''] None,
     default_binding ''editor.addCursorBelow'' ''editor.addCursorBelow'' ''Add Cursor Below'' ''Editor'' [''Cmd+Alt+Down''] None,
     default_binding ''editor.selectNextOccurrence'' ''editor.selectNextOccurrence'' ''Select Next Occurrence'' ''Editor'' [''Cmd+D''] None,
     default_binding ''editor.selectAllOccurrences'' ''editor.selectAllOccurrences'' ''Select All Occurrences'' ''Editor'' [''Cmd+Shift+L''] None,
     default_binding ''editor.rename'' ''editor.rename'' ''Rename Symbol'' ''Editor'' [''F2''] None,
     default_binding ''editor.quickFix'' ''editor.quickFix'' ''Quick Fix'' ''Editor'' [''Cmd+.''] None,
     default_binding ''editor.format'' ''editor.format'' ''Format Document'' ''Editor'' [''Cmd+Shift+I''] None,
     default_binding ''editor.formatSelection'' ''editor.formatSelection'' ''Format Selection'' ''Editor'' [''Cmd+K Cmd+F''] None]"

definition view_bindings :: "binding list" where
  "view_bindings =
    [default_binding ''view.toggleSidebar'' ''view.toggleSidebar'' ''Toggle Sidebar'' ''View'' [''Cmd+B''] None,
     default_binding ''view.togglePanel'' ''view.togglePanel'' ''Toggle Panel'' ''View'' [''Cmd+J''] None,
     default_binding ''view.toggleTerminal'' ''view.toggleTerminal'' ''Toggle Terminal'' ''View'' [''Cmd+`''] None,
     default_binding ''view.splitEditor'' ''view.splitEditor'' ''Split Editor'' ''View'' [[CHR 0x43, CHR 0x6D, CHR 0x64, CHR 0x2B, CHR 0x5C]] None,
     default_binding ''view.focusExplorer'' ''view.focusExplorer'' ''Focus Explorer'' ''View'' [''Cmd+Shift+E''] None,
     default_binding ''view.focusSearch'' ''view.focusSearch'' ''Focus Search'' ''View'' [''Cmd+Shift+F''] None,
     default_binding ''view.focusGit'' ''view.focusGit'' ''Focus Git'' ''View'' [''Cmd+Shift+G''] None,
     default_binding ''view.focusDebug'' ''view.focusDebug'' ''Focus Debug'' ''View'' [''Cmd+Shift+D''] None,
     default_binding ''view.zoomIn'' ''view.zoomIn'' ''Zoom In'' ''View'' [''Cmd+=''] None,
     default_binding ''view.zoomOut'' ''view.zoomOut'' ''Zoom Out'' ''View'' [''Cmd+-''] None,
     default_binding ''view.resetZoom'' ''view.resetZoom'' ''Reset Zoom'' ''View'' [''Cmd+0''] None]"

definition debug_bindings :: "binding list" where
  "debug_bindings =
    [default_binding ''debug.start'' ''debug.start'' ''Start Debugging'' ''Debug'' [''F5''] None,
     default_binding ''debug.stop'' ''debug.stop'' ''Stop Debugging'' ''Debug'' [''Shift+F5''] None,
     default_binding ''debug.restart'' ''debug.restart'' ''Restart Debugging'' ''Debug'' [''Cmd+Shift+F5''] None,
     default_binding ''debug.continue'' ''debug.continue'' ''Continue'' ''Debug'' [''F5''] (Some ''inDebugMode''),
     default_binding ''debug.stepOver'' ''debug.stepOver'' ''Step Over'' ''Debug'' [''F10''] None,
     default_binding ''debug.stepInto'' ''debug.stepInto'' ''Step Into'' ''Debug'' [''F11''] None,
     default_binding ''debug.stepOut'' ''debug.stepOut'' ''Step Out'' ''Debug'' [''Shift+F11''] None,
     default_binding ''debug.toggleBreakpoint'' ''debug.toggleBreakpoint'' ''Toggle Breakpoint'' ''Debug'' [''F9''] None]"

definition agent_bindings :: "binding list" where
  "agent_bindings =
    [default_binding ''agent.inlineChat'' ''agent.inlineChat'' ''Inline Chat'' ''Agent'' [''Cmd+I''] None,
     default_binding ''agent.chat'' ''agent.chat'' ''Open Chat'' ''Agent'' [''Cmd+Shift+I''] None,
     default_binding ''agent.acceptSuggestion'' ''agent.acceptSuggestion'' ''Accept Suggestion'' ''Agent'' [''Tab''] (Some ''hasInlineSuggestion''),
     default_binding ''agent.dismissSuggestion'' ''agent.dismissSuggestion'' ''Dismiss Suggestion'' ''Agent'' [''Escape''] (Some ''hasInlineSuggestion'')]"

definition defaultKeybindings :: "binding list" where
  "defaultKeybindings = file_bindings @ navigation_bindings @ search_bindings @ editor_bindings @ view_bindings @
     debug_bindings @ agent_bindings"

section \<open>The store\<close>

text \<open>The last field lists what was sent to the server: the overrides of each \<open>PATCH\<close>.\<close>

record keybindings_state =
  kn_keybindings :: "binding list"
  kn_customOverrides :: "string list obj"
  kn_isLoading :: bool
  kn_lastSyncedAt :: "int option"
  kn_syncTimeout :: bool
  kn_sent :: "string list obj list"

definition init_keybindings :: keybindings_state where
  "init_keybindings =
     \<lparr>kn_keybindings = map (\<lambda>k. k\<lparr>bi_isDefault := Some True\<rparr>) defaultKeybindings, kn_customOverrides = [],
      kn_isLoading = False, kn_lastSyncedAt = None, kn_syncTimeout = False, kn_sent = []\<rparr>"

definition updateKeybinding :: "ident \<Rightarrow> string list \<Rightarrow> keybindings_state \<Rightarrow> keybindings_state" where
  "updateKeybinding i keys s =
     s\<lparr>kn_customOverrides := AList.update i keys (kn_customOverrides s),
       kn_keybindings := map_where (\<lambda>k. bi_id k = i) (\<lambda>k. k\<lparr>bi_keys := keys, bi_isCustom := Some True\<rparr>) (kn_keybindings s),
       kn_syncTimeout := True\<rparr>"

definition resetKeybinding :: "ident \<Rightarrow> keybindings_state \<Rightarrow> keybindings_state" where
  "resetKeybinding i s =
     s\<lparr>kn_customOverrides := AList.delete i (kn_customOverrides s),
       kn_keybindings :=
         (case find (\<lambda>k. bi_id k = i) defaultKeybindings of
            None \<Rightarrow> kn_keybindings s
          | Some d \<Rightarrow> map_where (\<lambda>k. bi_id k = i)
              (\<lambda>k. d\<lparr>bi_isDefault := Some True, bi_isCustom := Some False\<rparr>) (kn_keybindings s))\<rparr>"

definition resetAll :: "keybindings_state \<Rightarrow> keybindings_state" where
  "resetAll s =
     s\<lparr>kn_customOverrides := [],
       kn_keybindings := map (\<lambda>k. k\<lparr>bi_isDefault := Some True\<rparr>) defaultKeybindings\<rparr>"

definition addCustomKeybinding :: "binding \<Rightarrow> keybindings_state \<Rightarrow> keybindings_state" where
  "addCustomKeybinding b s = s\<lparr>kn_keybindings := kn_keybindings s @ [b\<lparr>bi_isCustom := Some True\<rparr>]\<rparr>"

definition removeCustomKeybinding :: "ident \<Rightarrow> keybindings_state \<Rightarrow> keybindings_state" where
  "removeCustomKeybinding i s =
     s\<lparr>kn_keybindings := filter (\<lambda>k. bi_id k \<noteq> i \<or> bi_isDefault k = Some True) (kn_keybindings s),
       kn_syncTimeout := True\<rparr>"

definition load_keybindings :: "keybindings_state \<Rightarrow> keybindings_state" where
  "load_keybindings s = s\<lparr>kn_isLoading := True\<rparr>"

text \<open>What \<open>getUserConfig\<close> gives: an error, nothing for a guest, or the overrides of the configuration.\<close>

datatype config_answer = LoadFailed | NoConfig | ServerConfig "string list obj option"

definition merge_binding :: "string list obj \<Rightarrow> binding \<Rightarrow> binding" where
  "merge_binding serverOverrides k =
     (case map_of serverOverrides (bi_id k) of
        Some keys \<Rightarrow> k\<lparr>bi_keys := keys, bi_isCustom := Some True\<rparr>
      | None \<Rightarrow> k\<lparr>bi_isDefault := Some True\<rparr>)"

definition config_loaded :: "int \<Rightarrow> config_answer \<Rightarrow> keybindings_state \<Rightarrow> keybindings_state" where
  "config_loaded now a s =
     (case a of
        ServerConfig custom \<Rightarrow>
          s\<lparr>kn_keybindings := map (merge_binding (coalesce custom [])) defaultKeybindings,
            kn_customOverrides := coalesce custom [], kn_lastSyncedAt := Some now, kn_isLoading := False\<rparr>
      | _ \<Rightarrow> s\<lparr>kn_isLoading := False\<rparr>)"

definition sync_keys :: "keybindings_state \<Rightarrow> keybindings_state" where
  "sync_keys s = s\<lparr>kn_sent := kn_sent s @ [kn_customOverrides s]\<rparr>"

text \<open>The answer: a failure of any kind or a guest's \<open>null\<close> changes nothing.\<close>

definition keys_synced :: "int \<Rightarrow> bool \<Rightarrow> keybindings_state \<Rightarrow> keybindings_state" where
  "keys_synced now stored s = (if stored then s\<lparr>kn_lastSyncedAt := Some now\<rparr> else s)"

definition keys_sync_timer :: "keybindings_state \<Rightarrow> keybindings_state" where
  "keys_sync_timer s = (if kn_syncTimeout s then sync_keys (s\<lparr>kn_syncTimeout := False\<rparr>) else s)"

definition keybindings_partialize :: "keybindings_state \<Rightarrow> string list obj \<times> binding list" where
  "keybindings_partialize s = (kn_customOverrides s, kn_keybindings s)"

section \<open>The hook\<close>

definition convertKeyFormat :: "string list \<Rightarrow> string" where
  "convertKeyFormat keys =
     join_with '' '' (map (\<lambda>key. replace_all [''option''] ''alt'' (replace_all [''control''] ''ctrl''
       (replace_all [''meta''] ''mod'' (replace_all [''cmd''] ''mod'' (to_lower key))))) keys)"

definition COMMAND_MAP :: "string obj" where
  "COMMAND_MAP =
    [(''search.find'', ''editor.find''), (''search.replace'', ''editor.replace''),
     (''search.findInFiles'', ''search.findInFiles''), (''search.findNext'', ''editor.findNext''),
     (''search.findPrevious'', ''editor.findPrev''), (''editor.selectAll'', ''editor.selectAll''),
     (''editor.comment'', ''editor.toggleComment''), (''editor.blockComment'', ''editor.toggleBlockComment''),
     (''editor.deleteLine'', ''editor.deleteLine''), (''editor.moveLineUp'', ''editor.moveLineUp''),
     (''editor.moveLineDown'', ''editor.moveLineDown''), (''editor.copyLineUp'', ''editor.copyLineUp''),
     (''editor.copyLineDown'', ''editor.copyLineDown''),
     (''editor.addCursorAbove'', ''editor.addCursorAbove''),
     (''editor.addCursorBelow'', ''editor.addCursorBelow''),
     (''editor.selectNextOccurrence'', ''editor.addSelectionToNextMatch''),
     (''editor.selectAllOccurrences'', ''editor.selectAllOccurrences''),
     (''editor.rename'', ''editor.rename''), (''editor.quickFix'', ''editor.quickFix''),
     (''editor.format'', ''editor.formatDocument''), (''editor.undo'', ''editor.undo''),
     (''editor.redo'', ''editor.redo''), (''nav.goToLine'', ''editor.goToLine''),
     (''nav.goToSymbol'', ''editor.goToSymbol''), (''nav.goToDefinition'', ''editor.goToDefinition''),
     (''nav.peekDefinition'', ''editor.peekDefinition''), (''nav.findReferences'', ''editor.findReferences''),
     (''nav.quickOpen'', ''quickOpen.toggle''), (''nav.commandPalette'', ''commandPalette.toggle''),
     (''nav.commandPaletteAlt'', ''commandPalette.toggle''), (''view.toggleSidebar'', ''sidebar.toggle''),
     (''view.togglePanel'', ''panel.toggle''), (''view.toggleTerminal'', ''terminal.toggle''),
     (''file.save'', ''file.save''), (''file.saveAll'', ''file.saveAll''), (''file.close'', ''file.close''),
     (''file.new'', ''file.new'')]"

definition to_manager :: "binding \<Rightarrow> keybinding" where
  "to_manager b =
     \<lparr>kb_id = bi_id b, kb_key = convertKeyFormat (bi_keys b),
      kb_command = str_or (map_of COMMAND_MAP (bi_id b)) (bi_command b), kb_when = bi_when b,
      kb_description = Some (bi_label b), kb_category = Some (bi_category b)\<rparr>"

definition useKeybindingsSync :: "binding list \<Rightarrow> kb_manager \<Rightarrow> kb_manager" where
  "useKeybindingsSync bs m = fold (\<lambda>b. registerKeybinding (to_manager b)) bs (clearAllKeybindings m)"

text \<open>Which commands belong to the text editor and which to the application, and the badge that shows it.\<close>

definition EDITOR_COMMANDS :: "ident list" where
  "EDITOR_COMMANDS =
    [''search.find'', ''search.replace'', ''search.findNext'', ''search.findPrevious'',
     ''editor.selectAll'', ''editor.cut'', ''editor.copy'', ''editor.paste'', ''editor.undo'',
     ''editor.redo'', ''editor.comment'', ''editor.blockComment'', ''editor.deleteLine'',
     ''editor.moveLineUp'', ''editor.moveLineDown'', ''editor.copyLineUp'', ''editor.copyLineDown'',
     ''editor.addCursorAbove'', ''editor.addCursorBelow'', ''editor.selectNextOccurrence'',
     ''editor.selectAllOccurrences'', ''editor.rename'', ''editor.quickFix'', ''editor.format'',
     ''editor.formatSelection'', ''nav.goToLine'', ''nav.goToSymbol'', ''nav.goToDefinition'',
     ''nav.peekDefinition'', ''nav.findReferences'']"

definition APP_COMMANDS :: "ident list" where
  "APP_COMMANDS =
    [''file.new'', ''file.open'', ''file.save'', ''file.saveAll'', ''file.close'', ''file.closeAll'',
     ''file.reopenClosed'', ''nav.quickOpen'', ''nav.commandPalette'', ''nav.commandPaletteAlt'',
     ''nav.back'', ''nav.forward'', ''view.toggleSidebar'', ''view.togglePanel'',
     ''view.toggleTerminal'', ''view.splitEditor'', ''view.focusExplorer'', ''view.focusSearch'',
     ''view.focusGit'', ''view.focusDebug'', ''view.zoomIn'', ''view.zoomOut'', ''view.resetZoom'',
     ''search.findInFiles'', ''debug.start'', ''debug.stop'', ''debug.restart'', ''debug.continue'',
     ''debug.stepOver'', ''debug.stepInto'', ''debug.stepOut'', ''debug.toggleBreakpoint'',
     ''agent.inlineChat'', ''agent.chat'', ''agent.acceptSuggestion'', ''agent.dismissSuggestion'']"

datatype badge_label = EditorBadge | AppBadge | BothBadge

record keybinding_info =
  ki_isEditorCommand :: bool
  ki_isAppCommand :: bool
  ki_badgeLabel :: badge_label

definition getKeybindingInfo :: "binding \<Rightarrow> keybinding_info" where
  "getKeybindingInfo b =
     (let editor = bi_id b \<in> set EDITOR_COMMANDS; app = bi_id b \<in> set APP_COMMANDS
      in \<lparr>ki_isEditorCommand = editor, ki_isAppCommand = app,
          ki_badgeLabel = if editor \<and> app then BothBadge else if editor then EditorBadge else AppBadge\<rparr>)"

section \<open>Events\<close>

datatype keybindings_event =
    UpdateKey ident "string list"
  | ResetKey ident
  | ResetAllKeys
  | AddCustomKey binding
  | RemoveCustomKey ident
  | LoadKeys
  | KeysLoaded int config_answer
  | SyncTimer
  | SyncKeys
  | KeysSynced int bool

fun keybindings_step :: "keybindings_event \<Rightarrow> keybindings_state \<Rightarrow> keybindings_state" where
  "keybindings_step (UpdateKey i ks) s = updateKeybinding i ks s"
| "keybindings_step (ResetKey i) s = resetKeybinding i s"
| "keybindings_step ResetAllKeys s = resetAll s"
| "keybindings_step (AddCustomKey b) s = addCustomKeybinding b s"
| "keybindings_step (RemoveCustomKey i) s = removeCustomKeybinding i s"
| "keybindings_step LoadKeys s = load_keybindings s"
| "keybindings_step (KeysLoaded now a) s = config_loaded now a s"
| "keybindings_step SyncTimer s = keys_sync_timer s"
| "keybindings_step SyncKeys s = sync_keys s"
| "keybindings_step (KeysSynced now b) s = keys_synced now b s"


section \<open>The choices of the user\<close>

definition default_ids :: "ident list" where
  "default_ids = map bi_id defaultKeybindings"

lemma default_ids_distinct: "distinct default_ids"
  by code_simp

text \<open>
  What a history of events means: the keys chosen last for each id, the default bindings that a load
  has marked as the user's own, and those of them that were removed since.
\<close>

record key_choices =
  kx_chosen :: "ident \<Rightarrow> string list option"
  kx_unmarked :: "ident set"
  kx_removed :: "ident set"

fun choose_keys :: "keybindings_event \<Rightarrow> key_choices \<Rightarrow> key_choices" where
  "choose_keys (UpdateKey i ks) x = x\<lparr>kx_chosen := (kx_chosen x)(i \<mapsto> ks)\<rparr>"
| "choose_keys (ResetKey i) x = x\<lparr>kx_chosen := (kx_chosen x)(i := None), kx_unmarked := kx_unmarked x - {i}\<rparr>"
| "choose_keys ResetAllKeys x = \<lparr>kx_chosen = Map.empty, kx_unmarked = {}, kx_removed = {}\<rparr>"
| "choose_keys (KeysLoaded now (ServerConfig custom)) x =
     \<lparr>kx_chosen = map_of (coalesce custom []), kx_unmarked = fst ` set (coalesce custom []), kx_removed = {}\<rparr>"
| "choose_keys (RemoveCustomKey i) x = x\<lparr>kx_removed := kx_removed x \<union> ({i} \<inter> kx_unmarked x)\<rparr>"
| "choose_keys _ x = x"

definition choices :: "keybindings_event list \<Rightarrow> key_choices" where
  "choices es = fold choose_keys es \<lparr>kx_chosen = Map.empty, kx_unmarked = {}, kx_removed = {}\<rparr>"

definition entries :: "binding list \<Rightarrow> ident \<Rightarrow> binding list" where
  "entries bs i = filter (\<lambda>b. bi_id b = i) bs"

text \<open>A default binding as it is shown: once, with the keys chosen for it or its own; or not at all.\<close>

definition shown_as :: "key_choices \<Rightarrow> binding list \<Rightarrow> binding \<Rightarrow> bool" where
  "shown_as x bs d \<longleftrightarrow>
     (if bi_id d \<in> kx_removed x then entries bs (bi_id d) = []
      else \<exists>b. entries bs (bi_id d) = [b] \<and> bi_keys b = coalesce (kx_chosen x (bi_id d)) (bi_keys d) \<and>
        (bi_isDefault b = Some True \<longleftrightarrow> bi_id d \<notin> kx_unmarked x))"

definition choices_kept :: "key_choices \<Rightarrow> keybindings_state \<Rightarrow> bool" where
  "choices_kept x s \<longleftrightarrow> kx_chosen x = map_of (kn_customOverrides s) \<and>
     (\<forall>d \<in> set defaultKeybindings. shown_as x (kn_keybindings s) d)"

text \<open>Callers give their own bindings ids of their own.\<close>

fun keybindings_guard :: "keybindings_event \<Rightarrow> keybindings_state \<Rightarrow> bool" where
  "keybindings_guard (AddCustomKey b) s = (bi_id b \<notin> set default_ids)"
| "keybindings_guard _ s = True"

lemma default_ids_mem: "d \<in> set defaultKeybindings \<Longrightarrow> bi_id d \<in> set default_ids"
  by (simp add: default_ids_def)

lemma default_unique: "d \<in> set defaultKeybindings \<Longrightarrow> e \<in> set defaultKeybindings \<Longrightarrow> bi_id d = bi_id e \<Longrightarrow> d = e"
  using default_ids_distinct unfolding default_ids_def distinct_map by (meson inj_onD)

lemma find_default: "find (\<lambda>k. bi_id k = i) defaultKeybindings = Some d \<Longrightarrow> d \<in> set defaultKeybindings \<and> bi_id d = i"
  by (auto simp: find_Some_iff)

lemma entries_map: "(\<And>b. bi_id (f b) = bi_id b) \<Longrightarrow> entries (map f bs) i = map f (entries bs i)"
  by (simp add: entries_def filter_map comp_def)

lemma entries_defaults:
  assumes "\<And>d. bi_id (f d) = bi_id d" "d \<in> set defaultKeybindings"
  shows "entries (map f defaultKeybindings) (bi_id d) = [f d]"
proof -
  have "filter (\<lambda>b. bi_id b = bi_id d) ds = [d]" if "distinct (map bi_id ds)" "d \<in> set ds" for ds
    using that
  proof (induction ds)
    case (Cons e ds)
    then show ?case
      by (cases "bi_id e = bi_id d") (auto simp: filter_empty_conv rev_image_eqI)
  qed simp
  from this [OF default_ids_distinct [unfolded default_ids_def] assms(2)] show ?thesis
    by (simp add: entries_map [OF assms(1)]) (simp add: entries_def)
qed

lemma shown_defaults:
  assumes "\<And>d. bi_id (f d) = bi_id d" "d \<in> set defaultKeybindings" "kx_removed x = {}"
    and "bi_keys (f d) = coalesce (kx_chosen x (bi_id d)) (bi_keys d)"
    and "bi_isDefault (f d) = Some True \<longleftrightarrow> bi_id d \<notin> kx_unmarked x"
  shows "shown_as x (map f defaultKeybindings) d"
  using assms(3-) entries_defaults [OF assms(1,2)] by (simp add: shown_as_def)

lemma defaults_unmarked: "d \<in> set defaultKeybindings \<Longrightarrow> bi_isDefault d = None"
proof -
  have "list_all (\<lambda>e. bi_isDefault e = None) defaultKeybindings" by code_simp
  then show "d \<in> set defaultKeybindings \<Longrightarrow> ?thesis" by (simp add: list_all_iff)
qed

lemma kept_loaded:
  "choices_kept \<lparr>kx_chosen = map_of ov, kx_unmarked = fst ` set ov, kx_removed = {}\<rparr>
     (s\<lparr>kn_keybindings := map (merge_binding ov) defaultKeybindings, kn_customOverrides := ov,
        kn_lastSyncedAt := now, kn_isLoading := b\<rparr>)"
proof -
  have id: "bi_id (merge_binding ov d) = bi_id d" for d
    by (simp add: merge_binding_def split: option.split)
  have "bi_isDefault (merge_binding ov d) = Some True \<longleftrightarrow> bi_id d \<notin> fst ` set ov" if "d \<in> set defaultKeybindings" for d
  proof (cases "map_of ov (bi_id d)")
    case None
    then have "bi_id d \<notin> fst ` set ov" by (simp add: map_of_eq_None_iff)
    with None show ?thesis by (simp add: merge_binding_def)
  next
    case (Some ks)
    then have "bi_id d \<in> fst ` set ov"
      by (metis map_of_eq_None_iff option.distinct(1))
    with Some defaults_unmarked [OF that] show ?thesis by (simp add: merge_binding_def)
  qed
  then show ?thesis
    unfolding choices_kept_def by (auto intro!: shown_defaults id simp: merge_binding_def split: option.split)
qed

lemma entry_id: "entries bs i = [b] \<Longrightarrow> bi_id b = i"
proof -
  assume "entries bs i = [b]"
  then have "b \<in> set (entries bs i)" by simp
  then show ?thesis by (simp add: entries_def)
qed

lemma shown_map:
  assumes "shown_as x bs d" "\<And>b. bi_id (f b) = bi_id b" "kx_removed y = kx_removed x"
    and "\<And>b. bi_id b = bi_id d \<Longrightarrow> bi_keys b = coalesce (kx_chosen x (bi_id d)) (bi_keys d) \<Longrightarrow>
      (bi_isDefault b = Some True \<longleftrightarrow> bi_id d \<notin> kx_unmarked x) \<Longrightarrow>
      bi_keys (f b) = coalesce (kx_chosen y (bi_id d)) (bi_keys d) \<and> (bi_isDefault (f b) = Some True \<longleftrightarrow> bi_id d \<notin> kx_unmarked y)"
  shows "shown_as y (map f bs) d"
proof (cases "bi_id d \<in> kx_removed x")
  case True
  with assms(1,3) show ?thesis by (simp add: shown_as_def entries_map [OF assms(2)])
next
  case False
  with assms(1) obtain b where b: "entries bs (bi_id d) = [b]" "bi_keys b = coalesce (kx_chosen x (bi_id d)) (bi_keys d)"
      "bi_isDefault b = Some True \<longleftrightarrow> bi_id d \<notin> kx_unmarked x"
    by (auto simp: shown_as_def)
  from assms(4) [OF entry_id [OF b(1)] b(2,3)] b(1) False assms(3) show ?thesis
    by (simp add: shown_as_def entries_map [OF assms(2)])
qed

lemma kept_update:
  assumes "choices_kept x s"
  shows "choices_kept (choose_keys (UpdateKey i ks) x) (updateKeybinding i ks s)"
proof -
  have "shown_as (choose_keys (UpdateKey i ks) x)
      (map (\<lambda>k. if bi_id k = i then k\<lparr>bi_keys := ks, bi_isCustom := Some True\<rparr> else k) (kn_keybindings s)) d"
    if "d \<in> set defaultKeybindings" for d
    using assms that by (intro shown_map [of x "kn_keybindings s" d]) (auto simp: choices_kept_def)
  with assms show ?thesis
    by (simp add: choices_kept_def updateKeybinding_def map_where_def update_conv')
qed

lemma kept_reset:
  assumes kept: "choices_kept x s"
  shows "choices_kept (choose_keys (ResetKey i) x) (resetKeybinding i s)"
proof (cases "find (\<lambda>k. bi_id k = i) defaultKeybindings")
  case None
  then have "bi_id d \<noteq> i" if "d \<in> set defaultKeybindings" for d
    using that by (auto simp: find_None_iff)
  with kept None show ?thesis
    by (auto simp: choices_kept_def resetKeybinding_def shown_as_def)
next
  case (Some d0)
  note d0 = find_default [OF Some]
  let ?f = "\<lambda>b. if bi_id b = i then d0\<lparr>bi_isDefault := Some True, bi_isCustom := Some False\<rparr> else b"
  have id: "bi_id (?f b) = bi_id b" for b
    using d0 by simp
  have "shown_as (choose_keys (ResetKey i) x) (map ?f (kn_keybindings s)) d" if d: "d \<in> set defaultKeybindings" for d
  proof -
    have "d = d0" if "bi_id d = i"
      using that d d0 by (intro default_unique) auto
    with kept d show ?thesis
      by (intro shown_map [of x "kn_keybindings s" d, OF _ id]) (auto simp: choices_kept_def)
  qed
  with kept Some show ?thesis
    by (simp add: choices_kept_def resetKeybinding_def map_where_def delete_conv')
qed

lemma kept_remove:
  assumes "choices_kept x s"
  shows "choices_kept (choose_keys (RemoveCustomKey i) x) (removeCustomKeybinding i s)"
proof -
  let ?bs = "filter (\<lambda>k. bi_id k = i \<longrightarrow> bi_isDefault k = Some True) (kn_keybindings s)"
  have e: "entries ?bs j = (if j = i then filter (\<lambda>k. bi_isDefault k = Some True) (entries (kn_keybindings s) j)
      else entries (kn_keybindings s) j)" for j
    by (auto simp: entries_def intro: filter_cong)
  have "shown_as (choose_keys (RemoveCustomKey i) x) ?bs d" if "d \<in> set defaultKeybindings" for d
  proof -
    have d: "shown_as x (kn_keybindings s) d"
      using assms that by (simp add: choices_kept_def)
    show ?thesis
    proof (cases "bi_id d \<in> kx_removed x")
      case True
      with d show ?thesis by (auto simp: shown_as_def e)
    next
      case False
      with d obtain b where "entries (kn_keybindings s) (bi_id d) = [b]" "bi_keys b = coalesce (kx_chosen x (bi_id d)) (bi_keys d)"
          "bi_isDefault b = Some True \<longleftrightarrow> bi_id d \<notin> kx_unmarked x"
        by (auto simp: shown_as_def)
      with False show ?thesis by (auto simp: shown_as_def e)
    qed
  qed
  with assms show ?thesis
    by (simp add: choices_kept_def removeCustomKeybinding_def)
qed

lemma kept_step:
  assumes "choices_kept x s" "keybindings_guard e s"
  shows "choices_kept (choose_keys e x) (keybindings_step e s)"
proof (cases e)
  case (UpdateKey i ks)
  with kept_update [OF assms(1)] show ?thesis by simp
next
  case (ResetKey i)
  with kept_reset [OF assms(1)] show ?thesis by simp
next
  case ResetAllKeys
  then show ?thesis
    by (auto simp: resetAll_def choices_kept_def intro!: shown_defaults)
next
  case (AddCustomKey b)
  with assms show ?thesis
    by (auto simp: addCustomKeybinding_def choices_kept_def shown_as_def entries_def default_ids_mem)
next
  case (RemoveCustomKey i)
  with kept_remove [OF assms(1)] show ?thesis by simp
next
  case (KeysLoaded now a)
  with assms(1) kept_loaded show ?thesis
    by (cases a) (simp_all add: config_loaded_def, simp_all add: choices_kept_def)
qed (use assms in \<open>simp_all add: choices_kept_def load_keybindings_def keys_sync_timer_def sync_keys_def keys_synced_def\<close>)

lemma kept_history:
  "guarded keybindings_guard keybindings_step es init_keybindings \<Longrightarrow>
   choices_kept (choices es) (fold keybindings_step es init_keybindings)"
proof (induction es rule: rev_induct)
  case Nil
  show ?case
    by (auto simp: choices_def choices_kept_def init_keybindings_def intro!: shown_defaults)
next
  case (snoc e es)
  then show ?case
    by (simp add: guarded_append choices_def kept_step)
qed

definition keys_of :: "keybindings_state \<Rightarrow> ident \<Rightarrow> string list option" where
  "keys_of s i = map_option bi_keys (find (\<lambda>b. bi_id b = i) (kn_keybindings s))"

lemma keys_of_entries: "keys_of s i = (case entries (kn_keybindings s) i of [] \<Rightarrow> None | b # _ \<Rightarrow> Some (bi_keys b))"
proof -
  have "find P bs = (case filter P bs of [] \<Rightarrow> None | b # _ \<Rightarrow> Some b)" for P and bs :: "binding list"
    by (induction bs) auto
  then show ?thesis
    by (simp add: keys_of_def entries_def split: list.split)
qed

lemma keys_of_shown:
  "choices_kept x s \<Longrightarrow> d \<in> set defaultKeybindings \<Longrightarrow>
   keys_of s (bi_id d) = (if bi_id d \<in> kx_removed x then None else Some (coalesce (kx_chosen x (bi_id d)) (bi_keys d)))"
  by (auto simp: choices_kept_def shown_as_def keys_of_entries split: if_splits)

lemma keys_of_loaded:
  "d \<in> set defaultKeybindings \<Longrightarrow>
   keys_of (config_loaded now (ServerConfig custom) s) (bi_id d) = Some (coalesce (map_of (coalesce custom []) (bi_id d)) (bi_keys d))"
  using keys_of_shown [OF kept_loaded [where ov = "coalesce custom []" and s = s and now = "Some now" and b = False]] by (simp add: config_loaded_def)

section \<open>Which keys can be reached\<close>

text \<open>The parts of a key that are no modifiers.\<close>

definition ordinary_parts :: "string \<Rightarrow> string list" where
  "ordinary_parts key = filter (\<lambda>p. p \<notin> set modOrder) (split_char (CHR ''+'') key)"

lemma split_char_append:
  "split_char d (s @ d # t) = split_char d s @ split_char d t"
proof (induction s)
  case (Cons c s)
  obtain q qs where "split_char d s = q # qs" by (cases "split_char d s") auto
  with Cons show ?case by auto
qed simp

lemma split_char_absent: "d \<notin> set s \<Longrightarrow> split_char d s = [s]"
  by (induction s) auto

lemma split_join_plus:
  "ps \<noteq> [] \<Longrightarrow> \<forall>p \<in> set ps. CHR ''+'' \<notin> set p \<Longrightarrow> split_char (CHR ''+'') (join_plus ps) = ps"
proof (induction ps rule: join_plus.induct)
  case (3 s t ss)
  then show ?case
    using split_char_append [of "CHR ''+''" s "join_plus (t # ss)"] by (simp add: split_char_absent)
qed (simp_all add: split_char_absent)

lemma split_char_parts: "p \<in> set (split_char d s) \<Longrightarrow> d \<notin> set p"
proof (induction s arbitrary: p)
  case (Cons c s)
  obtain q qs where "split_char d s = q # qs" by (cases "split_char d s") auto
  with Cons show ?case by (auto split: if_splits)
qed simp

lemma split_char_nonempty: "split_char d s \<noteq> []"
  by (induction s) (auto split: list.split)

lemma split_char_Cons: "split_char d s = hd (split_char d s) # tl (split_char d s)"
  by (simp add: split_char_nonempty)

lemma split_char_prefix:
  assumes "d \<notin> set r"
  shows "split_char d (r @ s) = (r @ hd (split_char d s)) # tl (split_char d s)"
  using assms by (induction r) (auto simp: split_char_nonempty)

text \<open>The first part of a text is a prefix of it, so fewer patterns match there, but the one that fits does.\<close>

lemma split_hd_prefix: "starts_with s (hd (split_char d s))"
proof (induction s)
  case (Cons c s)
  obtain q qs where "split_char d s = q # qs" by (cases "split_char d s") (auto simp: split_char_nonempty)
  with Cons show ?case by (auto simp: starts_with_iff)
qed (simp add: starts_with_iff)

lemma find_prefix:
  assumes "find (starts_with (p @ rest)) pats = Some p"
  shows "find (starts_with (p @ hd (split_char d rest))) pats = Some p"
proof -
  obtain v where v: "rest = hd (split_char d rest) @ v"
    using split_hd_prefix [of rest d] by (auto simp: starts_with_iff)
  have "starts_with (p @ rest) q" if "starts_with (p @ hd (split_char d rest)) q" for q
    using that v by (metis append_assoc starts_with_iff)
  with assms show ?thesis
    by (induction pats) (auto simp: starts_with_iff split: if_splits)
qed

lemma find_none_prefix:
  assumes "find (starts_with (c # rest)) pats = None"
  shows "find (starts_with (c # hd (split_char d rest))) pats = None"
proof -
  obtain v where v: "rest = hd (split_char d rest) @ v"
    using split_hd_prefix [of rest d] by (auto simp: starts_with_iff)
  have "starts_with (c # rest) q" if "starts_with (c # hd (split_char d rest)) q" for q
    using that v by (metis append_Cons append_assoc starts_with_iff)
  with assms show ?thesis by (auto simp: find_None_iff)
qed

text \<open>A replacement that neither reads nor writes the separator works on each part by itself.\<close>

lemma split_replace_all:
  assumes "\<forall>p \<in> set pats. p \<noteq> [] \<and> d \<notin> set p" "d \<notin> set r"
  shows "split_char d (replace_all pats r s) = map (replace_all pats r) (split_char d s)"
  using assms
proof (induction pats r s rule: replace_all.induct)
  case (2 pats r c cs)
  show ?case
  proof (cases "find (starts_with (c # cs)) pats")
    case None
    note IH = 2(1) [OF None 2(3,4)]
    show ?thesis
    proof (cases "c = d")
      case True
      with None IH show ?thesis by simp
    next
      case False
      have "split_char d (c # cs) = (c # hd (split_char d cs)) # tl (split_char d cs)"
        using False split_char_prefix [of d "[c]" cs] by simp
      moreover have "split_char d (c # replace_all pats r cs) =
          (c # hd (map (replace_all pats r) (split_char d cs))) # tl (map (replace_all pats r) (split_char d cs))"
        using False split_char_prefix [of d "[c]" "replace_all pats r cs"] IH by simp
      ultimately show ?thesis
        using None find_none_prefix [OF None, of d] by (simp add: hd_map map_tl split_char_nonempty)
    qed
  next
    case (Some p)
    note IH = 2(2) [OF Some 2(3,4)]
    from Some have p: "starts_with (c # cs) p" "p \<in> set pats"
      by (auto simp: find_Some_iff)
    then obtain rest where rest: "c # cs = p @ rest"
      by (auto simp: starts_with_iff)
    have ne: "p \<noteq> []" "d \<notin> set p"
      using p(2) 2(3) by auto
    then obtain p' where p': "p = c # p'" "cs = p' @ rest"
      using rest by (cases p) auto
    have "split_char d (c # cs) = (p @ hd (split_char d rest)) # tl (split_char d rest)"
      unfolding rest using ne(2) by (rule split_char_prefix)
    moreover have "replace_all pats r (p @ hd (split_char d rest)) = r @ replace_all pats r (hd (split_char d rest))"
      using find_prefix [of p rest pats d] Some p' by simp
    moreover have "split_char d (r @ replace_all pats r rest) =
        (r @ hd (map (replace_all pats r) (split_char d rest))) # tl (map (replace_all pats r) (split_char d rest))"
      using split_char_prefix [OF 2(4), of "replace_all pats r rest"] IH p' by simp
    ultimately show ?thesis
      using Some p' by (simp add: hd_map map_tl split_char_nonempty)
  qed
qed simp

lemma split_filter: "P d \<Longrightarrow> split_char d (filter P s) = map (filter P) (split_char d s)"
proof (induction s)
  case (Cons c s)
  obtain q qs where "split_char d s = q # qs" by (cases "split_char d s") (auto simp: split_char_nonempty)
  with Cons show ?case by (auto split: list.split)
qed simp

lemma split_map: "(\<And>c. f c = d \<longleftrightarrow> c = d) \<Longrightarrow> split_char d (map f s) = map (map f) (split_char d s)"
proof (induction s)
  case (Cons c s)
  obtain q qs where "split_char d s = q # qs" by (cases "split_char d s") (auto simp: split_char_nonempty)
  with Cons show ?case by auto
qed simp

lemma lower_plus: "lower_char c = CHR ''+'' \<longleftrightarrow> c = CHR ''+''"
proof (cases "65 \<le> code c \<and> code c \<le> 90 \<or> 192 \<le> code c \<and> code c \<le> 222 \<and> code c \<noteq> 215")
  case True
  moreover have "code (CHR ''+'') = 43" by code_simp
  moreover from True have "code (lower_char c) = code c + 32"
    by (auto simp: lower_char_def code_def Let_def)
  ultimately show ?thesis by force
next
  case False
  then have "lower_char c = c" by (auto simp: lower_char_def Let_def)
  then show ?thesis by simp
qed

lemma length_filter_mset: "mset xs = mset ys \<Longrightarrow> length (filter P xs) = length (filter P ys)"
  by (metis mset_filter size_mset)

lemma split_clean: "split_char (CHR ''+'') (clean_key k) = map clean_key (split_char (CHR ''+'') k)"
proof -
  have space: "\<not> is_space (CHR ''+'')"
    by code_simp
  show ?thesis
    unfolding clean_key_def to_lower_def
    by (simp add: split_filter [of "\<lambda>c. \<not> is_space c", OF space] split_replace_all split_map lower_plus comp_def)
qed

lemma ordinary_parts_normal:
  "length (ordinary_parts (normalizeKey collate k)) =
   length (filter (\<lambda>p. clean_key p \<notin> set modOrder) (split_char (CHR ''+'') k))"
proof -
  let ?ps = "map clean_key (split_char (CHR ''+'') k)"
  have parts: "\<forall>p \<in> set ?ps. CHR ''+'' \<notin> set p"
    unfolding split_clean [symmetric] by (metis split_char_parts)
  have "set (sort_by (part_le collate) ?ps) = set ?ps"
    by simp
  with parts have "\<forall>p \<in> set (sort_by (part_le collate) ?ps). CHR ''+'' \<notin> set p"
    by simp
  moreover have "sort_by (part_le collate) ?ps \<noteq> []"
    by (metis \<open>set (sort_by (part_le collate) ?ps) = set ?ps\<close> list.map_disc_iff set_empty split_char_nonempty)
  ultimately have "split_char (CHR ''+'') (normalizeKey collate k) = sort_by (part_le collate) ?ps"
    by (simp add: normalizeKey_def split_clean sort_parts_def split_join_plus)
  then have "ordinary_parts (normalizeKey collate k) = filter (\<lambda>p. p \<notin> set modOrder) (sort_by (part_le collate) ?ps)"
    by (simp add: ordinary_parts_def)
  moreover have "length \<dots> = length (filter (\<lambda>p. p \<notin> set modOrder) ?ps)"
    by (rule length_filter_mset) (rule mset_sort_by)
  ultimately show ?thesis
    by (simp add: filter_map comp_def)
qed

text \<open>An event has one ordinary part at most.\<close>

lemma modifiers_clean:
  "clean_key ''mod'' \<in> set modOrder" "clean_key ''ctrl'' \<in> set modOrder" "clean_key ''meta'' \<in> set modOrder"
  "clean_key ''alt'' \<in> set modOrder" "clean_key ''shift'' \<in> set modOrder"
  by code_simp+

lemma keyMap_plus: "\<forall>e \<in> set keyMap. CHR ''+'' \<notin> set (snd e)"
  by code_simp

lemma event_one_ordinary:
  assumes "CHR ''+'' \<notin> set (ke_key event)" "eventToKeyString collate isMac event \<noteq> []"
  shows "length (ordinary_parts (normalizeKey collate (eventToKeyString collate isMac event))) \<le> 1"
proof -
  let ?ps = "event_parts isMac event"
  let ?key = "str_or (map_of keyMap (to_lower (ke_key event))) (to_lower (ke_key event))"
  have "lower_char c \<noteq> CHR ''+''" if "c \<in> set (ke_key event)" for c
    using that assms(1) by (auto simp: lower_plus)
  then have lower: "CHR ''+'' \<notin> set (to_lower (ke_key event))"
    by (force simp: to_lower_def)
  have mapped: "CHR ''+'' \<notin> set v" if "map_of keyMap x = Some v" for x v
    using keyMap_plus map_of_SomeD [OF that] by fastforce
  have key: "CHR ''+'' \<notin> set ?key"
    using lower mapped by (cases "map_of keyMap (to_lower (ke_key event))") (auto simp: str_or_def)
  then have plus: "\<forall>p \<in> set ?ps. CHR ''+'' \<notin> set p"
    by (auto simp: event_parts_def Let_def)
  then have plus': "\<forall>p \<in> set (sort_by (part_le collate) ?ps). CHR ''+'' \<notin> set p"
    by simp
  have "sort_by (part_le collate) ?ps \<noteq> []"
    using assms(2) by (auto simp: eventToKeyString_def sort_parts_def)
  with plus' have split: "split_char (CHR ''+'') (eventToKeyString collate isMac event) = sort_by (part_le collate) ?ps"
    by (simp add: eventToKeyString_def sort_parts_def split_join_plus)
  have "length (filter (\<lambda>p. clean_key p \<notin> set modOrder) (sort_by (part_le collate) ?ps)) =
      length (filter (\<lambda>p. clean_key p \<notin> set modOrder) ?ps)"
    by (rule length_filter_mset) (rule mset_sort_by)
  also have "\<dots> \<le> 1"
    by (auto simp: event_parts_def Let_def modifiers_clean simp del: str_or_def)
  finally show ?thesis
    by (simp add: ordinary_parts_normal split)
qed

section \<open>Bindings in the manager\<close>

lemma sync_fixed:
  "km_collate (useKeybindingsSync bs m) = km_collate m" "km_isMac (useKeybindingsSync bs m) = km_isMac m"
  "km_commands (useKeybindingsSync bs m) = km_commands m" "km_ran (useKeybindingsSync bs m) = km_ran m"
  "km_context (useKeybindingsSync bs m) = km_context m"
proof -
  have "km_collate (fold (\<lambda>b. registerKeybinding (to_manager b)) bs m) = km_collate m \<and>
      km_isMac (fold (\<lambda>b. registerKeybinding (to_manager b)) bs m) = km_isMac m \<and>
      km_commands (fold (\<lambda>b. registerKeybinding (to_manager b)) bs m) = km_commands m \<and>
      km_ran (fold (\<lambda>b. registerKeybinding (to_manager b)) bs m) = km_ran m \<and>
      km_context (fold (\<lambda>b. registerKeybinding (to_manager b)) bs m) = km_context m" for m
    by (induction bs arbitrary: m) (simp_all add: registerKeybinding_def notifyListeners_def Let_def)
  then show "km_collate (useKeybindingsSync bs m) = km_collate m" "km_isMac (useKeybindingsSync bs m) = km_isMac m"
    "km_commands (useKeybindingsSync bs m) = km_commands m" "km_ran (useKeybindingsSync bs m) = km_ran m"
    "km_context (useKeybindingsSync bs m) = km_context m"
    by (simp_all add: useKeybindingsSync_def clearAllKeybindings_def notifyListeners_def)
qed

lemma sync_ok:
  assumes "manager_ok m"
  shows "manager_ok (useKeybindingsSync bs m)"
proof -
  have "manager_ok (fold (\<lambda>b. registerKeybinding (to_manager b)) bs n)" if "manager_ok n" for n
    using that by (induction bs arbitrary: n) (simp_all add: register_ok)
  then show ?thesis
    using assms kb_step_ok [of m ClearAllKeybindings] by (simp add: useKeybindingsSync_def)
qed

text \<open>The manager holds the bindings it was given last, under their normal forms.\<close>

lemma synced_bucket:
  assumes "b' \<in> set (bucket (km_bindings (useKeybindingsSync bs m)) k)"
  shows "\<exists>b \<in> set bs. k = normalizeKey (km_collate m) (kb_key (to_manager b)) \<and> b' = (to_manager b)\<lparr>kb_key := k\<rparr>"
proof -
  have "b' \<in> set (bucket (km_bindings n) k) \<or>
      (\<exists>b \<in> set bs. k = normalizeKey (km_collate n) (kb_key (to_manager b)) \<and> b' = (to_manager b)\<lparr>kb_key := k\<rparr>)"
    if "b' \<in> set (bucket (km_bindings (fold (\<lambda>b. registerKeybinding (to_manager b)) bs n)) k)" for n
    using that
  proof (induction bs arbitrary: n)
    case (Cons a bs)
    have "km_collate (registerKeybinding (to_manager a) n) = km_collate n"
      by (simp add: registerKeybinding_def notifyListeners_def Let_def)
    moreover have "b' \<in> set (bucket (km_bindings n) k) \<or>
        k = normalizeKey (km_collate n) (kb_key (to_manager a)) \<and> b' = (to_manager a)\<lparr>kb_key := k\<rparr>"
      if "b' \<in> set (bucket (km_bindings (registerKeybinding (to_manager a) n)) k)"
      using that by (auto simp: registerKeybinding_def notifyListeners_def Let_def split: if_splits)
    ultimately show ?case
      using Cons.IH [of "registerKeybinding (to_manager a) n"] Cons.prems by auto
  qed simp
  from this [of "clearAllKeybindings m"] assms show ?thesis
    by (simp add: useKeybindingsSync_def clearAllKeybindings_def notifyListeners_def)
qed

lemma handler_found:
  "find_handler m isInput bs = Some h \<Longrightarrow> \<exists>b \<in> set bs. map_of (km_commands m) (kb_command b) = Some h"
  by (induction bs) (auto simp: find_handler_def map_filter_simps split: option.splits if_splits)

section \<open>Properties\<close>

text \<open>
  C33: In every history of the store each default command is shown with the keys that were last chosen
  for it (by the user, or loaded from the server), or else with its own, unless a load had marked it
  as the user's own and it was removed since; the user's own bindings have other ids. A choice arms
  the timer, and as long as it is armed, what it sends to the server gives, loaded on any other
  device, exactly the chosen keys for every default command.
\<close>

theorem chosen_keys_follow:
  assumes "guarded keybindings_guard keybindings_step es init_keybindings"
    and "s = fold keybindings_step es init_keybindings" "d \<in> set defaultKeybindings"
  shows "keys_of s (bi_id d) = (if bi_id d \<in> kx_removed (choices es) then None
      else Some (coalesce (kx_chosen (choices es) (bi_id d)) (bi_keys d))) \<and>
    kn_syncTimeout (updateKeybinding i ks s) \<and>
    (kn_syncTimeout s \<longrightarrow>
      keys_of (config_loaded now (ServerConfig (Some (last (kn_sent (keys_sync_timer s))))) t) (bi_id d) =
        Some (coalesce (kx_chosen (choices es) (bi_id d)) (bi_keys d)))"
proof -
  have kept: "choices_kept (choices es) s"
    unfolding assms(2) by (rule kept_history [OF assms(1)])
  then have "kx_chosen (choices es) = map_of (kn_customOverrides s)"
    by (simp add: choices_kept_def)
  moreover have "last (kn_sent (keys_sync_timer s)) = kn_customOverrides s" if "kn_syncTimeout s"
    using that by (simp add: keys_sync_timer_def sync_keys_def)
  ultimately show ?thesis
    using keys_of_shown [OF kept assms(3)] keys_of_loaded [OF assms(3)] by (simp add: updateKeybinding_def)
qed

text \<open>A reset is not sent to the server, so that the next load brings the chosen keys back.\<close>

lemma reset_comes_back:
  assumes "d \<in> set defaultKeybindings" "map_of p (bi_id d) = Some ks"
  shows "kn_sent (resetKeybinding (bi_id d) s) = kn_sent s \<and> kn_syncTimeout (resetKeybinding (bi_id d) s) = kn_syncTimeout s \<and>
    keys_of (config_loaded now (ServerConfig (Some p)) (resetKeybinding (bi_id d) s)) (bi_id d) = Some ks"
  using keys_of_loaded [OF assms(1), of now "Some p"] assms(2) by (simp add: resetKeybinding_def split: option.split)

text \<open>
  After a load, a default binding with chosen keys counts as the user's own: removing it removes the
  command, which only a reset of everything brings back.
\<close>

lemma overridden_default_removed:
  assumes "d \<in> set defaultKeybindings" "map_of p (bi_id d) = Some ks"
  shows "keys_of (removeCustomKeybinding (bi_id d) (config_loaded now (ServerConfig (Some p)) s)) (bi_id d) = None"
proof -
  have "bi_isDefault (merge_binding p x) \<noteq> Some True"
    if "x \<in> set defaultKeybindings" "bi_id (merge_binding p x) = bi_id d" for x
  proof -
    have "bi_id x = bi_id d"
      using that(2) by (simp add: merge_binding_def split: option.splits)
    then show ?thesis
      using defaults_unmarked [OF that(1)] assms(2) by (simp add: merge_binding_def)
  qed
  then show ?thesis
    unfolding keys_of_def removeCustomKeybinding_def config_loaded_def by (auto simp: find_None_iff)
qed

text \<open>
  Whatever the manager runs on a key press comes from a binding whose keys have one ordinary part:
  a binding with alternative keys (search.findNext: F3 or Cmd+G), which the hook joins by a space, and
  one with two keys in a row (Cmd+K Cmd+W) can never be triggered.
\<close>

theorem only_single_keys_run:
  assumes "m = fold kb_step es (new_manager collate isMac)" "CHR ''+'' \<notin> set (ke_key event)"
    and "km_ran (handleKeyDown inTerminal isInput event (useKeybindingsSync bs m)) \<noteq> km_ran m"
  shows "\<exists>b \<in> set bs. \<exists>h. map_of (km_commands m) (kb_command (to_manager b)) = Some h \<and>
    km_ran (handleKeyDown inTerminal isInput event (useKeybindingsSync bs m)) = km_ran m @ [h] \<and>
    length (ordinary_parts (normalizeKey collate (convertKeyFormat (bi_keys b)))) \<le> 1"
proof -
  let ?m = "useKeybindingsSync bs m" and ?k = "normalizeKey collate (eventToKeyString collate isMac event)"
  have m: "manager_ok m" "km_collate m = collate" "km_isMac m = isMac"
    using assms(1) keybindings.inv_history [of es] by simp_all
  then have ok: "manager_ok ?m" by (simp add: sync_ok)
  then have chord: "km_chordState ?m = None" "\<not> isChordStarter key ?m" for key
    using no_chord_starter by (simp_all add: manager_ok_def)
  from assms(3) chord m have some: "eventToKeyString collate isMac event \<noteq> []"
    "find_handler ?m isInput (bucket (km_bindings ?m) ?k) \<noteq> None"
    by (auto simp: handleKeyDown_def Let_def sync_fixed split: if_splits option.splits)
  then obtain h where h: "find_handler ?m isInput (bucket (km_bindings ?m) ?k) = Some h" by blast
  with assms(3) chord m have ran: "km_ran (handleKeyDown inTerminal isInput event ?m) = km_ran m @ [h]"
    by (auto simp: handleKeyDown_def Let_def sync_fixed run_handler_def split: if_splits)
  from handler_found [OF h] obtain b' where b': "b' \<in> set (bucket (km_bindings ?m) ?k)"
      "map_of (km_commands m) (kb_command b') = Some h"
    by (auto simp: sync_fixed)
  from synced_bucket [OF b'(1)] m(2) obtain b where b: "b \<in> set bs"
      "?k = normalizeKey collate (kb_key (to_manager b))" "b' = (to_manager b)\<lparr>kb_key := ?k\<rparr>" by auto
  have "length (ordinary_parts (normalizeKey collate (kb_key (to_manager b)))) \<le> 1"
    unfolding b(2) [symmetric] by (rule event_one_ordinary [OF assms(2) some(1)])
  then show ?thesis
    using b(1,3) b'(2) ran by (intro bexI [of _ b] exI [of _ h]) (simp_all add: to_manager_def)
qed

section \<open>Examples\<close>

definition ex_choice :: "keybindings_event list" where
  "ex_choice = [UpdateKey ''file.save'' [''Cmd+Shift+S''], RemoveCustomKey ''file.save'', ResetKey ''file.open'']"

definition ex_save :: binding where
  "ex_save = default_binding ''file.save'' ''file.save'' ''Save'' ''File'' [''Cmd+S''] None"

lemma ex_save_default: "ex_save \<in> set defaultKeybindings"
  by (simp add: ex_save_def defaultKeybindings_def file_bindings_def)

theorem chosen_keys_follow_witness:
  "keys_of (config_loaded 7 (ServerConfig (Some (last (kn_sent (keys_sync_timer (fold keybindings_step ex_choice init_keybindings)))))) init_keybindings)
     ''file.save'' = Some [''Cmd+Shift+S'']"
proof -
  let ?s = "fold keybindings_step ex_choice init_keybindings"
  have "guarded keybindings_guard keybindings_step ex_choice init_keybindings"
    by (simp add: ex_choice_def)
  moreover have "kn_syncTimeout ?s" "kx_chosen (choices ex_choice) ''file.save'' = Some [''Cmd+Shift+S'']"
    by (simp_all add: ex_choice_def updateKeybinding_def resetKeybinding_def init_keybindings_def removeCustomKeybinding_def choices_def)
  ultimately show ?thesis
    using chosen_keys_follow [OF _ refl ex_save_default, of ex_choice "''file.save''" "[]" 7 init_keybindings]
    by (simp add: ex_save_def default_binding_def)
qed

definition ex_ctrl_s :: key_event where
  "ex_ctrl_s = \<lparr>ke_ctrlKey = True, ke_metaKey = False, ke_altKey = False, ke_shiftKey = False, ke_key = ''s''\<rparr>"

theorem only_single_keys_run_witness:
  "\<exists>b \<in> set [ex_save]. \<exists>h. map_of [(''file.save'', 4)] (kb_command (to_manager b)) = Some h \<and> h = 4 \<and>
     length (ordinary_parts (normalizeKey (\<le>) (convertKeyFormat (bi_keys b)))) \<le> 1"
proof -
  let ?m = "fold kb_step [RegisterCommand ''file.save'' 4] (new_manager (\<le>) False)"
  have "km_ran (handleKeyDown False False ex_ctrl_s (useKeybindingsSync [ex_save] ?m)) = [4]"
    by code_simp
  moreover have "km_ran ?m = []" "km_commands ?m = [(''file.save'', 4)]"
    by code_simp+
  ultimately show ?thesis
    using only_single_keys_run [of ?m "[RegisterCommand ''file.save'' 4]" "(\<le>)" False ex_ctrl_s False False "[ex_save]"]
    by (auto simp: ex_ctrl_s_def split: if_splits)
qed

text \<open>The default bindings for finding again have two ordinary parts.\<close>

lemma find_next_unreachable:
  "length (ordinary_parts (normalizeKey (\<le>) (convertKeyFormat [''F3'', ''Cmd+G'']))) = 2"
  "length (ordinary_parts (normalizeKey (\<le>) (convertKeyFormat [''Cmd+K Cmd+W'']))) = 2"
  by code_simp+

text \<open>The key Escape is called \<open>esc\<close> in an event and \<open>escape\<close> in a binding.\<close>

lemma escape_unreachable:
  "normalizeKey (\<le>) (eventToKeyString (\<le>) False
     \<lparr>ke_ctrlKey = False, ke_metaKey = False, ke_altKey = False, ke_shiftKey = False, ke_key = ''Escape''\<rparr>) = ''esc''"
  "normalizeKey (\<le>) (convertKeyFormat [''Escape'']) = ''escape''"
  by code_simp+

text \<open>The two classes are disjoint, so that no binding has the badge of both.\<close>

lemma commands_disjoint: "set EDITOR_COMMANDS \<inter> set APP_COMMANDS = {}"
  by code_simp

lemma badge_never_both:
  "ki_badgeLabel (getKeybindingInfo b) = (if bi_id b \<in> set EDITOR_COMMANDS then EditorBadge else AppBadge)"
  using commands_disjoint by (auto simp: getKeybindingInfo_def Let_def)

end
