(* ===== verification/Mcp_Store.thy ===== *)
theory Mcp_Store
  imports Prelude Js_Text Machines
begin

text \<open>
  The store of the MCP servers (\<open>apps/web/src/stores/mcp.ts\<close>): the servers of the registry and
  their categories, the servers of the user, connection tests, and the flags of what is being loaded.
  Every action first calls the server; the call is under way until the event of its answer, and
  answers come in any order. An action that waits for other actions (\<open>loadAll\<close>,
  \<open>syncFromEnv\<close>) goes on before the next event.
\<close>

section \<open>Data\<close>

datatype mcp_transport = Stdio | Sse | Http_transport

record mcp_default =
  md_slug :: ident
  md_name :: string
  md_description :: string
  md_category :: string
  md_icon :: string
  md_transport :: mcp_transport
  md_command :: "string option"
  md_args :: "string list option"
  md_url :: "string option"
  md_required_env :: "string list"
  md_is_builtin :: bool
  md_is_enabled :: bool
  md_has_required_env :: bool

datatype mcp_source = EnvSource | UiSource | ApiSource

record mcp_tool =
  mo_name :: string
  mo_description :: "string option"
  mo_input_schema :: "json obj"

record mcp_server =
  mv_id :: ident
  mv_user_id :: ident
  mv_name :: string
  mv_description :: "string option"
  mv_transport :: mcp_transport
  mv_command :: "string option"
  mv_args :: "string list option"
  mv_url :: "string option"
  mv_env_vars :: "string obj option"
  mv_is_enabled :: bool
  mv_source_slug :: "ident option"
  mv_category :: "string option"
  mv_is_default :: bool
  mv_config_source :: mcp_source
  mv_icon :: "string option"
  mv_discovered_tools :: "mcp_tool list option"
  mv_discovered_resources :: "json list option"
  mv_last_connected_at :: "string option"
  mv_last_error :: "string option"
  mv_created_at :: string
  mv_updated_at :: string

datatype effective_source = EnvConfig | DatabaseConfig | DefaultConfig

record effective_server =
  ev_id :: ident
  ev_name :: string
  ev_transport :: mcp_transport
  ev_command :: "string option"
  ev_args :: "string list option"
  ev_url :: "string option"
  ev_env_vars :: "string obj"
  ev_source :: effective_source
  ev_source_slug :: "ident option"

record mcp_category =
  mg_id :: ident
  mg_name :: string
  mg_servers :: "mcp_default list"

record mcp_test_result =
  mr_serverId :: ident
  mr_success :: bool
  mr_message :: string
  mr_toolsCount :: "int option"
  mr_testedAt :: int

record mcp_state =
  mx_defaults :: "mcp_default list"
  mx_categories :: "mcp_category list"
  mx_userServers :: "mcp_server list"
  mx_effectiveServers :: "effective_server list"
  mx_isLoading :: bool
  mx_isLoadingDefaults :: bool
  mx_isLoadingUserServers :: bool
  mx_isSyncing :: bool
  mx_testResults :: "mcp_test_result obj"
  mx_testingServerId :: "ident option"
  mx_error :: "string option"

definition CATEGORY_NAMES :: "string obj" where
  "CATEGORY_NAMES =
    [(''version_control'', ''Version Control''), (''database'', ''Database''), (''web'', ''Web & Browser''),
     (''communication'', ''Communication''), (''containers'', ''Containers & DevOps''),
     (''memory'', ''Memory & Context''), (''monitoring'', ''Monitoring & Observability''),
     (''productivity'', ''Productivity'')]"

definition init_mcp :: mcp_state where
  "init_mcp =
     \<lparr>mx_defaults = [], mx_categories = [], mx_userServers = [], mx_effectiveServers = [], mx_isLoading = False,
      mx_isLoadingDefaults = False, mx_isLoadingUserServers = False, mx_isSyncing = False,
      mx_testResults = [], mx_testingServerId = None, mx_error = None\<rparr>"

text \<open>
  What a call of the server may throw: an \<open>Error\<close> with its message and the status of the
  response, if there was one, or some other value without these properties.
\<close>

datatype mcp_failure = McpError string "int option" | NotAnError

type_synonym 'a mcp_answer = "mcp_failure + 'a"

definition load_message :: "string \<Rightarrow> mcp_failure \<Rightarrow> string" where
  "load_message fallback err =
     (case err of
        McpError message status \<Rightarrow>
          if status = Some 503 then ''API server unavailable. Please start the backend.''
          else if message \<noteq> [] then message else fallback
      | NotAnError \<Rightarrow> fallback)"

definition failure_message :: "string \<Rightarrow> mcp_failure \<Rightarrow> string" where
  "failure_message fallback err = (case err of McpError message status \<Rightarrow> message | NotAnError \<Rightarrow> fallback)"

section \<open>Loading\<close>

record defaults_response =
  dr_servers :: "mcp_default list"
  dr_categories :: "string list"

definition mcp_loadDefaults :: "mcp_state \<Rightarrow> mcp_state" where
  "mcp_loadDefaults s = s\<lparr>mx_isLoadingDefaults := True, mx_error := None\<rparr>"

definition category_id :: "mcp_default \<Rightarrow> ident" where
  "category_id server = (if md_category server \<noteq> [] then md_category server else ''other'')"

definition add_to_category :: "mcp_default \<Rightarrow> mcp_default list obj \<Rightarrow> mcp_default list obj" where
  "add_to_category server categoryMap =
     AList.update (category_id server) (bucket categoryMap (category_id server) @ [server]) categoryMap"

definition category_map :: "mcp_default list \<Rightarrow> mcp_default list obj" where
  "category_map servers = fold add_to_category servers []"

definition make_category :: "mcp_default list obj \<Rightarrow> ident \<Rightarrow> mcp_category" where
  "make_category categoryMap i =
     \<lparr>mg_id = i, mg_name = str_or (map_of CATEGORY_NAMES i) i, mg_servers = bucket categoryMap i\<rparr>"

definition make_categories :: "string list \<Rightarrow> mcp_default list \<Rightarrow> mcp_category list" where
  "make_categories categoryOrder servers =
     (let categoryMap = category_map servers
      in map (make_category categoryMap) (filter (\<lambda>i. map_of categoryMap i \<noteq> None) categoryOrder))"

definition defaults_answered :: "defaults_response mcp_answer \<Rightarrow> mcp_state \<Rightarrow> mcp_state" where
  "defaults_answered a s =
     (case a of
        Inr response \<Rightarrow>
          s\<lparr>mx_defaults := dr_servers response,
            mx_categories := make_categories (dr_categories response) (dr_servers response),
            mx_isLoadingDefaults := False\<rparr>
      | Inl err \<Rightarrow>
          s\<lparr>mx_error := Some (load_message ''Failed to load MCP defaults'' err), mx_isLoadingDefaults := False\<rparr>)"

definition mcp_loadUserServers :: "mcp_state \<Rightarrow> mcp_state" where
  "mcp_loadUserServers s = s\<lparr>mx_isLoadingUserServers := True, mx_error := None\<rparr>"

definition user_servers_answered :: "mcp_server list mcp_answer \<Rightarrow> mcp_state \<Rightarrow> mcp_state" where
  "user_servers_answered a s =
     (case a of
        Inr servers \<Rightarrow> s\<lparr>mx_userServers := servers, mx_isLoadingUserServers := False\<rparr>
      | Inl err \<Rightarrow>
          s\<lparr>mx_error := Some (load_message ''Failed to load MCP servers'' err), mx_isLoadingUserServers := False\<rparr>)"

definition mcp_start_loading :: "mcp_state \<Rightarrow> mcp_state" where
  "mcp_start_loading s = s\<lparr>mx_isLoading := True, mx_error := None\<rparr>"

definition effective_answered :: "effective_server list mcp_answer \<Rightarrow> mcp_state \<Rightarrow> mcp_state" where
  "effective_answered a s =
     (case a of
        Inr servers \<Rightarrow> s\<lparr>mx_effectiveServers := servers, mx_isLoading := False\<rparr>
      | Inl err \<Rightarrow> s\<lparr>mx_error := Some (failure_message ''Failed to load effective config'' err), mx_isLoading := False\<rparr>)"

definition all_loaded :: "mcp_state \<Rightarrow> mcp_state" where
  "all_loaded s = s\<lparr>mx_isLoading := False\<rparr>"

section \<open>Servers\<close>

definition no_error :: "mcp_state \<Rightarrow> mcp_state" where
  "no_error s = s\<lparr>mx_error := None\<rparr>"

definition server_created :: "mcp_server mcp_answer \<Rightarrow> mcp_state \<Rightarrow> mcp_state" where
  "server_created a s =
     (case a of
        Inr server \<Rightarrow> s\<lparr>mx_userServers := mx_userServers s @ [server]\<rparr>
      | Inl err \<Rightarrow> s\<lparr>mx_error := Some (failure_message ''Failed to create MCP server'' err)\<rparr>)"

definition server_updated :: "ident \<Rightarrow> mcp_server mcp_answer \<Rightarrow> mcp_state \<Rightarrow> mcp_state" where
  "server_updated serverId a s =
     (case a of
        Inr server \<Rightarrow> s\<lparr>mx_userServers := map_where (\<lambda>v. mv_id v = serverId) (\<lambda>v. server) (mx_userServers s)\<rparr>
      | Inl err \<Rightarrow> s\<lparr>mx_error := Some (failure_message ''Failed to update MCP server'' err)\<rparr>)"

definition server_deleted :: "ident \<Rightarrow> unit mcp_answer \<Rightarrow> mcp_state \<Rightarrow> mcp_state" where
  "server_deleted serverId a s =
     (case a of
        Inr u \<Rightarrow>
          s\<lparr>mx_userServers := filter (\<lambda>v. mv_id v \<noteq> serverId) (mx_userServers s),
            mx_testResults := AList.delete serverId (mx_testResults s)\<rparr>
      | Inl err \<Rightarrow> s\<lparr>mx_error := Some (failure_message ''Failed to delete MCP server'' err)\<rparr>)"

definition set_enabled :: "ident \<Rightarrow> bool \<Rightarrow> mcp_default list \<Rightarrow> mcp_default list" where
  "set_enabled slug b = map_where (\<lambda>d. md_slug d = slug) (\<lambda>d. d\<lparr>md_is_enabled := b\<rparr>)"

definition show_enabled :: "ident \<Rightarrow> bool \<Rightarrow> mcp_state \<Rightarrow> mcp_state" where
  "show_enabled slug b s =
     s\<lparr>mx_defaults := set_enabled slug b (mx_defaults s),
       mx_categories := map (\<lambda>c. c\<lparr>mg_servers := set_enabled slug b (mg_servers c)\<rparr>) (mx_categories s)\<rparr>"

definition default_enabled :: "ident \<Rightarrow> mcp_server mcp_answer \<Rightarrow> mcp_state \<Rightarrow> mcp_state" where
  "default_enabled slug a s =
     (case a of
        Inr server \<Rightarrow> (show_enabled slug True s)\<lparr>mx_userServers := mx_userServers s @ [server]\<rparr>
      | Inl err \<Rightarrow> s\<lparr>mx_error := Some (failure_message ''Failed to enable MCP server'' err)\<rparr>)"

definition default_disabled :: "ident \<Rightarrow> unit mcp_answer \<Rightarrow> mcp_state \<Rightarrow> mcp_state" where
  "default_disabled slug a s =
     (case a of
        Inr u \<Rightarrow>
          (show_enabled slug False s)
            \<lparr>mx_userServers := filter (\<lambda>v. mv_source_slug v \<noteq> Some slug) (mx_userServers s)\<rparr>
      | Inl err \<Rightarrow> s\<lparr>mx_error := Some (failure_message ''Failed to disable MCP server'' err)\<rparr>)"

section \<open>Tests and synchronisation\<close>

record test_response =
  tr_success :: bool
  tr_message :: string
  tr_tools_count :: "int option"

definition start_test :: "ident \<Rightarrow> mcp_state \<Rightarrow> mcp_state" where
  "start_test serverId s = s\<lparr>mx_testingServerId := Some serverId, mx_error := None\<rparr>"

definition test_result :: "int \<Rightarrow> ident \<Rightarrow> test_response mcp_answer \<Rightarrow> mcp_test_result" where
  "test_result now serverId a =
     (case a of
        Inr response \<Rightarrow>
          \<lparr>mr_serverId = serverId, mr_success = tr_success response, mr_message = tr_message response,
           mr_toolsCount = tr_tools_count response, mr_testedAt = now\<rparr>
      | Inl err \<Rightarrow>
          \<lparr>mr_serverId = serverId, mr_success = False, mr_message = failure_message ''Connection test failed'' err,
           mr_toolsCount = None, mr_testedAt = now\<rparr>)"

definition test_answered :: "int \<Rightarrow> ident \<Rightarrow> test_response mcp_answer \<Rightarrow> mcp_state \<Rightarrow> mcp_state" where
  "test_answered now serverId a s =
     s\<lparr>mx_testResults := AList.update serverId (test_result now serverId a) (mx_testResults s),
       mx_testingServerId := None,
       mx_error := (case a of Inr r \<Rightarrow> mx_error s | Inl err \<Rightarrow> Some (failure_message ''Connection test failed'' err))\<rparr>"

definition clearTestResult :: "ident \<Rightarrow> mcp_state \<Rightarrow> mcp_state" where
  "clearTestResult serverId s = s\<lparr>mx_testResults := AList.delete serverId (mx_testResults s)\<rparr>"

definition start_sync :: "mcp_state \<Rightarrow> mcp_state" where
  "start_sync s = s\<lparr>mx_isSyncing := True, mx_error := None\<rparr>"

definition sync_failed :: "mcp_failure \<Rightarrow> mcp_state \<Rightarrow> mcp_state" where
  "sync_failed err s =
     s\<lparr>mx_error := Some (failure_message ''Failed to sync from environment'' err), mx_isSyncing := False\<rparr>"

definition synced :: "mcp_state \<Rightarrow> mcp_state" where
  "synced s = s\<lparr>mx_isSyncing := False\<rparr>"

definition mcp_setError :: "string option \<Rightarrow> mcp_state \<Rightarrow> mcp_state" where
  "mcp_setError err s = s\<lparr>mx_error := err\<rparr>"

definition mcp_reset :: "mcp_state \<Rightarrow> mcp_state" where
  "mcp_reset s = init_mcp"

section \<open>Selectors\<close>

definition selectEnabledServers :: "mcp_state \<Rightarrow> mcp_server list" where
  "selectEnabledServers s = filter mv_is_enabled (mx_userServers s)"

definition selectDefaultsByCategory :: "mcp_state \<Rightarrow> ident \<Rightarrow> mcp_default list" where
  "selectDefaultsByCategory s category =
     (case find (\<lambda>c. mg_id c = category) (mx_categories s) of Some c \<Rightarrow> mg_servers c | None \<Rightarrow> [])"

definition selectBuiltinDefaults :: "mcp_state \<Rightarrow> mcp_default list" where
  "selectBuiltinDefaults s = filter md_is_builtin (mx_defaults s)"

definition selectCustomServers :: "mcp_state \<Rightarrow> mcp_server list" where
  "selectCustomServers s = filter (\<lambda>v. \<not> mv_is_default v) (mx_userServers s)"

definition selectIsServerTesting :: "mcp_state \<Rightarrow> ident \<Rightarrow> bool" where
  "selectIsServerTesting s serverId = (mx_testingServerId s = Some serverId)"

definition selectTestResult :: "mcp_state \<Rightarrow> ident \<Rightarrow> mcp_test_result option" where
  "selectTestResult s serverId = map_of (mx_testResults s) serverId"

section \<open>The calls under way\<close>

datatype mcp_call =
    DefaultsCall | UserServersCall | EffectiveCall | CreateCall | UpdateCall ident | DeleteCall ident
  | EnableCall ident | DisableCall ident | TestCall ident | SyncCall

text \<open>\<open>loadAll\<close> waits for a number of calls, \<open>syncFromEnv\<close> with what it will return for one.\<close>

datatype mcp_wait = AllWait nat | SyncWait "string list"

text \<open>What the promise of an action settles with.\<close>

datatype mcp_outcome =
    Threw mcp_failure | ReturnedNothing | ReturnedServer mcp_server | ReturnedTest mcp_test_result
  | ReturnedSynced "string list"

text \<open>The store with the calls under way, each with the action that waits for it, and the settled actions.\<close>

record mcp_client =
  mk_store :: mcp_state
  mk_calls :: "(nat \<times> mcp_call \<times> nat option) list"
  mk_waits :: "(nat \<times> mcp_wait) list"
  mk_next :: nat
  mk_outcomes :: "(nat \<times> mcp_outcome) list"

definition new_mcp_client :: mcp_client where
  "new_mcp_client = \<lparr>mk_store = init_mcp, mk_calls = [], mk_waits = [], mk_next = 0, mk_outcomes = []\<rparr>"

definition on_mcp :: "(mcp_state \<Rightarrow> mcp_state) \<Rightarrow> mcp_client \<Rightarrow> mcp_client" where
  "on_mcp f m = m\<lparr>mk_store := f (mk_store m)\<rparr>"

definition call_mcp :: "mcp_call \<Rightarrow> nat option \<Rightarrow> mcp_client \<Rightarrow> mcp_client" where
  "call_mcp k p m = m\<lparr>mk_calls := mk_calls m @ [(mk_next m, k, p)], mk_next := Suc (mk_next m)\<rparr>"

definition wait_mcp :: "mcp_wait \<Rightarrow> mcp_client \<Rightarrow> mcp_client" where
  "wait_mcp w m = m\<lparr>mk_waits := mk_waits m @ [(mk_next m, w)], mk_next := Suc (mk_next m)\<rparr>"

definition settle_mcp :: "nat \<Rightarrow> mcp_outcome \<Rightarrow> mcp_client \<Rightarrow> mcp_client" where
  "settle_mcp c r m = m\<lparr>mk_outcomes := mk_outcomes m @ [(c, r)]\<rparr>"

text \<open>A call has ended: the action that waits for it, if any, goes on.\<close>

definition resume_mcp :: "nat \<Rightarrow> mcp_client \<Rightarrow> mcp_client" where
  "resume_mcp w m =
     (case map_of (mk_waits m) w of
        Some (AllWait n) \<Rightarrow>
          if n \<le> 1 then settle_mcp w ReturnedNothing (on_mcp all_loaded (m\<lparr>mk_waits := AList.delete w (mk_waits m)\<rparr>))
          else m\<lparr>mk_waits := AList.update w (AllWait (n - 1)) (mk_waits m)\<rparr>
      | Some (SyncWait servers) \<Rightarrow>
          settle_mcp w (ReturnedSynced servers) (on_mcp synced (m\<lparr>mk_waits := AList.delete w (mk_waits m)\<rparr>))
      | None \<Rightarrow> m)"

definition end_call :: "nat \<Rightarrow> nat option \<Rightarrow> mcp_outcome \<Rightarrow> mcp_client \<Rightarrow> mcp_client" where
  "end_call c p r m =
     (let m = settle_mcp c r (m\<lparr>mk_calls := AList.delete c (mk_calls m)\<rparr>)
      in case p of Some w \<Rightarrow> resume_mcp w m | None \<Rightarrow> m)"

definition mcp_loadAll :: "mcp_client \<Rightarrow> mcp_client" where
  "mcp_loadAll m =
     (let w = mk_next m; m = wait_mcp (AllWait 2) (on_mcp mcp_start_loading m);
          m = call_mcp DefaultsCall (Some w) (on_mcp mcp_loadDefaults m)
      in call_mcp UserServersCall (Some w) (on_mcp mcp_loadUserServers m))"

text \<open>The answer to \<open>syncFromEnv\<close>: the servers of the user are loaded before it returns.\<close>

definition env_sync_answered :: "nat \<Rightarrow> string list mcp_answer \<Rightarrow> mcp_client \<Rightarrow> mcp_client" where
  "env_sync_answered c a m =
     (case a of
        Inr servers \<Rightarrow>
          call_mcp UserServersCall (Some c)
            (on_mcp mcp_loadUserServers
              (m\<lparr>mk_calls := AList.delete c (mk_calls m), mk_waits := mk_waits m @ [(c, SyncWait servers)]\<rparr>))
      | Inl err \<Rightarrow> end_call c None (Threw err) (on_mcp (sync_failed err) m))"

definition mcp_result :: "('a \<Rightarrow> mcp_outcome) \<Rightarrow> 'a mcp_answer \<Rightarrow> mcp_outcome" where
  "mcp_result f a = (case a of Inl err \<Rightarrow> Threw err | Inr x \<Rightarrow> f x)"

section \<open>Events\<close>

datatype mcp_event =
    LoadDefaults | LoadUserServers | LoadEffectiveConfig | LoadAll | CreateServer | UpdateServer ident
  | DeleteServer ident | EnableDefault ident | DisableDefault ident | TestConnection ident | ClearTestResult ident
  | SyncFromEnv | SetMcpError "string option" | ResetMcp
  | DefaultsAnswer nat "defaults_response mcp_answer" | UserServersAnswer nat "mcp_server list mcp_answer"
  | EffectiveAnswer nat "effective_server list mcp_answer" | ServerAnswer nat "mcp_server mcp_answer"
  | EmptyAnswer nat "unit mcp_answer" | TestAnswer nat int "test_response mcp_answer"
  | SyncAnswer nat "string list mcp_answer"

text \<open>An answer to no call of its kind is no event.\<close>

fun mcp_step :: "mcp_event \<Rightarrow> mcp_client \<Rightarrow> mcp_client" where
  "mcp_step LoadDefaults m = call_mcp DefaultsCall None (on_mcp mcp_loadDefaults m)"
| "mcp_step LoadUserServers m = call_mcp UserServersCall None (on_mcp mcp_loadUserServers m)"
| "mcp_step LoadEffectiveConfig m = call_mcp EffectiveCall None (on_mcp mcp_start_loading m)"
| "mcp_step LoadAll m = mcp_loadAll m"
| "mcp_step CreateServer m = call_mcp CreateCall None (on_mcp no_error m)"
| "mcp_step (UpdateServer i) m = call_mcp (UpdateCall i) None (on_mcp no_error m)"
| "mcp_step (DeleteServer i) m = call_mcp (DeleteCall i) None (on_mcp no_error m)"
| "mcp_step (EnableDefault slug) m = call_mcp (EnableCall slug) None (on_mcp no_error m)"
| "mcp_step (DisableDefault slug) m = call_mcp (DisableCall slug) None (on_mcp no_error m)"
| "mcp_step (TestConnection i) m = call_mcp (TestCall i) None (on_mcp (start_test i) m)"
| "mcp_step (ClearTestResult i) m = on_mcp (clearTestResult i) m"
| "mcp_step SyncFromEnv m = call_mcp SyncCall None (on_mcp start_sync m)"
| "mcp_step (SetMcpError err) m = on_mcp (mcp_setError err) m"
| "mcp_step ResetMcp m = on_mcp mcp_reset m"
| "mcp_step (DefaultsAnswer c a) m =
     (case map_of (mk_calls m) c of
        Some (DefaultsCall, p) \<Rightarrow> end_call c p ReturnedNothing (on_mcp (defaults_answered a) m) | _ \<Rightarrow> m)"
| "mcp_step (UserServersAnswer c a) m =
     (case map_of (mk_calls m) c of
        Some (UserServersCall, p) \<Rightarrow> end_call c p ReturnedNothing (on_mcp (user_servers_answered a) m) | _ \<Rightarrow> m)"
| "mcp_step (EffectiveAnswer c a) m =
     (case map_of (mk_calls m) c of
        Some (EffectiveCall, p) \<Rightarrow>
          end_call c p (mcp_result (\<lambda>x. ReturnedNothing) a) (on_mcp (effective_answered a) m) | _ \<Rightarrow> m)"
| "mcp_step (ServerAnswer c a) m =
     (case map_of (mk_calls m) c of
        Some (CreateCall, p) \<Rightarrow> end_call c p (mcp_result ReturnedServer a) (on_mcp (server_created a) m)
      | Some (UpdateCall i, p) \<Rightarrow> end_call c p (mcp_result ReturnedServer a) (on_mcp (server_updated i a) m)
      | Some (EnableCall slug, p) \<Rightarrow> end_call c p (mcp_result ReturnedServer a) (on_mcp (default_enabled slug a) m)
      | _ \<Rightarrow> m)"
| "mcp_step (EmptyAnswer c a) m =
     (case map_of (mk_calls m) c of
        Some (DeleteCall i, p) \<Rightarrow> end_call c p (mcp_result (\<lambda>x. ReturnedNothing) a) (on_mcp (server_deleted i a) m)
      | Some (DisableCall slug, p) \<Rightarrow>
          end_call c p (mcp_result (\<lambda>x. ReturnedNothing) a) (on_mcp (default_disabled slug a) m)
      | _ \<Rightarrow> m)"
| "mcp_step (TestAnswer c now a) m =
     (case map_of (mk_calls m) c of
        Some (TestCall i, p) \<Rightarrow>
          end_call c p (ReturnedTest (test_result now i a)) (on_mcp (test_answered now i a) m)
      | _ \<Rightarrow> m)"
| "mcp_step (SyncAnswer c a) m =
     (case map_of (mk_calls m) c of Some (SyncCall, p) \<Rightarrow> env_sync_answered c a m | _ \<Rightarrow> m)"


section \<open>Categories\<close>

lemma category_map_bucket:
  "bucket (fold add_to_category ds m) i = bucket m i @ filter (\<lambda>d. category_id d = i) ds"
  by (induction ds arbitrary: m) (simp_all add: add_to_category_def)

lemma category_map_dom:
  "map_of (fold add_to_category ds m) i \<noteq> None \<longleftrightarrow> map_of m i \<noteq> None \<or> i \<in> category_id ` set ds"
  by (induction ds arbitrary: m) (auto simp: add_to_category_def)

lemma make_categories_eq:
  "make_categories ids ds =
     map (\<lambda>i. \<lparr>mg_id = i, mg_name = str_or (map_of CATEGORY_NAMES i) i,
              mg_servers = filter (\<lambda>d. category_id d = i) ds\<rparr>)
       (filter (\<lambda>i. i \<in> category_id ` set ds) ids)"
proof -
  have "bucket (category_map ds) i = filter (\<lambda>d. category_id d = i) ds" for i
    by (simp add: category_map_def category_map_bucket)
  moreover have "map_of (category_map ds) i \<noteq> None \<longleftrightarrow> i \<in> category_id ` set ds" for i
    by (simp only: category_map_def category_map_dom) simp
  ultimately show ?thesis
    by (simp add: make_categories_def make_category_def)
qed

text \<open>The categories of a store are the grouping of its present servers, enabled or not.\<close>

definition mirrored :: "mcp_state \<Rightarrow> bool" where
  "mirrored s \<longleftrightarrow> (\<exists>ids. mx_categories s = make_categories ids (mx_defaults s))"

lemma category_id_enabled [simp]: "category_id (d\<lparr>md_is_enabled := b\<rparr>) = category_id d"
  by (simp add: category_id_def)

lemma category_ids_enabled: "category_id ` set (set_enabled slug b ds) = category_id ` set ds"
  by (induction ds) (simp_all add: set_enabled_def map_where_def)

lemma filter_enabled:
  "filter (\<lambda>d. category_id d = i) (set_enabled slug b ds) = set_enabled slug b (filter (\<lambda>d. category_id d = i) ds)"
  by (induction ds) (auto simp: set_enabled_def map_where_def)

lemma mirrored_enabled:
  assumes "mirrored s"
  shows "mirrored (show_enabled slug b s)"
proof -
  from assms obtain ids where "mx_categories s = make_categories ids (mx_defaults s)"
    by (auto simp: mirrored_def)
  then have "mx_categories (show_enabled slug b s) = make_categories ids (mx_defaults (show_enabled slug b s))"
    by (simp add: show_enabled_def make_categories_eq category_ids_enabled filter_enabled comp_def)
  then show ?thesis
    by (auto simp: mirrored_def)
qed

lemma mirrored_cong:
  "mirrored s \<Longrightarrow> mx_categories s' = mx_categories s \<Longrightarrow> mx_defaults s' = mx_defaults s \<Longrightarrow> mirrored s'"
  by (simp add: mirrored_def)

lemma mirrored_init: "mirrored init_mcp"
  by (auto simp: mirrored_def init_mcp_def make_categories_eq)

section \<open>Calls and the actions that wait for them\<close>

abbreviation call_kinds :: "(nat \<times> mcp_call \<times> nat option) list \<Rightarrow> mcp_call set" where
  "call_kinds cs \<equiv> (\<lambda>e. fst (snd e)) ` set cs"

definition children :: "nat \<Rightarrow> (nat \<times> mcp_call \<times> nat option) list \<Rightarrow> nat" where
  "children w cs = length (filter (\<lambda>e. snd (snd e) = Some w) cs)"

fun needed :: "mcp_wait \<Rightarrow> nat" where
  "needed (AllWait n) = n"
| "needed (SyncWait xs) = 1"

text \<open>
  The calls have numbers of their own; whoever waits, waits for calls under way, and knows how many;
  a call of \<open>syncFromEnv\<close> is nobody's child.
\<close>

definition calls_fine :: "(nat \<times> mcp_call \<times> nat option) list \<Rightarrow> (nat \<times> mcp_wait) list \<Rightarrow> nat \<Rightarrow> bool" where
  "calls_fine cs vs n \<longleftrightarrow>
     distinct (map fst cs) \<and> distinct (map fst vs) \<and>
     (\<forall>c k p. (c, k, p) \<in> set cs \<longrightarrow> c < n \<and> (\<forall>v. (c, v) \<notin> set vs)) \<and>
     (\<forall>w v. (w, v) \<in> set vs \<longrightarrow> w < n \<and> children w cs = needed v \<and> 0 < needed v) \<and>
     (\<forall>c k w. (c, k, Some w) \<in> set cs \<longrightarrow> k \<noteq> SyncCall \<and> (\<exists>v. (w, v) \<in> set vs))"

definition calls_ok :: "mcp_client \<Rightarrow> bool" where
  "calls_ok m \<longleftrightarrow> calls_fine (mk_calls m) (mk_waits m) (mk_next m)"

lemma calls_fineD:
  assumes "calls_fine cs vs n"
  shows "distinct (map fst cs)" "distinct (map fst vs)" "(c, k, p) \<in> set cs \<Longrightarrow> c < n" "(w, v) \<in> set vs \<Longrightarrow> w < n"
    "(c, k, p) \<in> set cs \<Longrightarrow> (c, v) \<notin> set vs"
    "(w, v) \<in> set vs \<Longrightarrow> children w cs = needed v" "(w, v) \<in> set vs \<Longrightarrow> 0 < needed v"
    "(c, k, Some w) \<in> set cs \<Longrightarrow> \<exists>v. (w, v) \<in> set vs" "(c, k, Some w) \<in> set cs \<Longrightarrow> k \<noteq> SyncCall"
  using assms unfolding calls_fine_def by blast+

lemma calls_fineI:
  assumes "distinct (map fst cs)" "distinct (map fst vs)" "\<And>c k p. (c, k, p) \<in> set cs \<Longrightarrow> c < n" "\<And>w v. (w, v) \<in> set vs \<Longrightarrow> w < n"
    "\<And>c k p v. (c, k, p) \<in> set cs \<Longrightarrow> (c, v) \<notin> set vs"
    "\<And>w v. (w, v) \<in> set vs \<Longrightarrow> children w cs = needed v" "\<And>w v. (w, v) \<in> set vs \<Longrightarrow> 0 < needed v"
    "\<And>c k w. (c, k, Some w) \<in> set cs \<Longrightarrow> \<exists>v. (w, v) \<in> set vs" "\<And>c k w. (c, k, Some w) \<in> set cs \<Longrightarrow> k \<noteq> SyncCall"
  shows "calls_fine cs vs n"
  unfolding calls_fine_def using assms by blast

lemma calls_fine_numbers:
  assumes "calls_fine cs vs n"
  shows "n \<notin> fst ` set cs" "n \<notin> fst ` set vs"
  using calls_fineD(3,4) [OF assms] by fastforce+

lemma calls_ok_store [simp]: "calls_ok (on_mcp f m) = calls_ok m"
  by (simp add: calls_ok_def on_mcp_def)

lemma calls_ok_settle [simp]: "calls_ok (settle_mcp c r m) = calls_ok m"
  by (simp add: calls_ok_def settle_mcp_def)

lemma children_append [simp]: "children w (cs @ ds) = children w cs + children w ds"
  by (simp add: children_def)

lemma children_single [simp]: "children w [e] = (if snd (snd e) = Some w then 1 else 0)"
  by (simp add: children_def)

lemma children_none: "(\<And>e. e \<in> set cs \<Longrightarrow> snd (snd e) \<noteq> Some w) \<Longrightarrow> children w cs = 0"
  by (simp add: children_def filter_empty_conv)

lemma children_delete:
  "distinct (map fst cs) \<Longrightarrow> map_of cs c = Some (k, p) \<Longrightarrow>
    children w cs = children w (AList.delete c cs) + (if p = Some w then 1 else 0)"
proof (induction cs)
  case (Cons e cs)
  show ?case
  proof (cases "fst e = c")
    case True
    with Cons.prems(1) have "AList.delete c cs = cs"
      by (auto simp: AList.delete_eq filter_id_conv image_iff)
    with True Cons.prems show ?thesis by (cases e) (auto simp: children_def)
  next
    case False
    with Cons show ?thesis by (cases e) (auto simp: children_def)
  qed
qed simp

text \<open>A new call, top-level or for somebody who has just begun to wait.\<close>

lemma calls_fine_call:
  assumes "calls_fine cs vs n"
  shows "calls_fine (cs @ [(n, k, None)]) vs (Suc n)"
proof (rule calls_fineI)
  show "distinct (map fst (cs @ [(n, k, None)]))"
    using calls_fineD(1) [OF assms] calls_fine_numbers [OF assms] by auto
  show "(c, v) \<notin> set vs" if "(c, k', p) \<in> set (cs @ [(n, k, None)])" for c k' p v
    using that calls_fineD(4,5) [OF assms] by auto
qed (use calls_fineD(2-9) [OF assms] in \<open>auto simp: less_Suc_eq\<close>)

lemma set_delete_numbered: "set (AList.delete c cs) = {e \<in> set cs. fst e \<noteq> c}"
  by (auto simp: AList.delete_eq)

lemma set_update_numbered:
  "distinct (map fst vs) \<Longrightarrow> set (AList.update w v vs) = insert (w, v) {e \<in> set vs. fst e \<noteq> w}"
  by (induction vs) (auto simp: image_iff)

lemma calls_fine_delete:
  assumes "calls_fine cs vs n" "map_of cs c = Some (k, None)"
  shows "calls_fine (AList.delete c cs) vs n"
proof (rule calls_fineI)
  show "children w (AList.delete c cs) = needed v" if "(w, v) \<in> set vs" for w v
    using children_delete [of cs c k None w] assms(2) that calls_fineD(1,6) [OF assms(1)] by simp
  show "k' \<noteq> SyncCall" if "(c', k', Some w) \<in> set (AList.delete c cs)" for c' k' w
    using that calls_fineD(9) [OF assms(1)] unfolding set_delete_numbered by blast
qed (use calls_fineD(1-8) [OF assms(1)] in \<open>auto simp: set_delete_numbered distinct_delete\<close>)

text \<open>The end of somebody's child; \<open>rest\<close> is who still waits.\<close>

lemma calls_fine_child:
  assumes "calls_fine cs vs n" "map_of cs c = Some (k, Some w)" "distinct (map fst rest)"
    and "\<And>w' v. (w', v) \<in> set rest \<Longrightarrow> if w' = w then Suc (needed v) = children w cs \<and> 0 < needed v else (w', v) \<in> set vs"
    and "\<And>w' v. (w', v) \<in> set vs \<Longrightarrow> w' \<noteq> w \<Longrightarrow> (w', v) \<in> set rest"
    and "1 < children w cs \<Longrightarrow> \<exists>v. (w, v) \<in> set rest"
  shows "calls_fine (AList.delete c cs) rest n"
proof -
  let ?cs = "AList.delete c cs"
  have ch: "children w' cs = children w' ?cs + (if w = w' then 1 else 0)" for w'
    using children_delete [of cs c k "Some w" w'] assms(2) calls_fineD(1) [OF assms(1)] by simp
  have w: "\<exists>v. (w, v) \<in> set vs"
    using map_of_SomeD [OF assms(2)] by (rule calls_fineD(8) [OF assms(1)])
  then have w_less: "w < n" using calls_fineD(4) [OF assms(1)] by blast
  have old: "\<exists>v. (w', v) \<in> set vs" if "(w', v) \<in> set rest" for w' v
    using that assms(4) [OF that] w by (cases "w' = w") auto
  have kids: "1 < children w cs" if "(c', k', Some w) \<in> set ?cs" for c' k'
  proof -
    have "0 < children w ?cs"
      using that by (auto simp: children_def length_greater_0_conv filter_empty_conv intro!: bexI [OF _ that])
    then show ?thesis using ch [of w] by simp
  qed
  show ?thesis
  proof (rule calls_fineI)
    show "distinct (map fst ?cs)"
      using calls_fineD(1) [OF assms(1)] by (rule distinct_delete)
    show "w' < n" if "(w', v) \<in> set rest" for w' v
      using old [OF that] calls_fineD(4) [OF assms(1)] by blast
    show "(c', v) \<notin> set rest" if "(c', k', p) \<in> set ?cs" for c' k' p v
      using old that calls_fineD(5) [OF assms(1)] unfolding set_delete_numbered by blast
    show "children w' ?cs = needed v" if "(w', v) \<in> set rest" for w' v
      using assms(4) [OF that] ch [of w'] calls_fineD(6) [OF assms(1), of w' v] by (cases "w' = w") auto
    show "0 < needed v" if "(w', v) \<in> set rest" for w' v
      using assms(4) [OF that] calls_fineD(7) [OF assms(1), of w' v] by (cases "w' = w") auto
    show "\<exists>v. (w', v) \<in> set rest" if "(c', k', Some w') \<in> set ?cs" for c' k' w'
    proof (cases "w' = w")
      case True
      with that kids assms(6) show ?thesis by blast
    next
      case False
      from that have "(c', k', Some w') \<in> set cs" by (simp add: set_delete_numbered)
      with calls_fineD(8) [OF assms(1)] assms(5) False show ?thesis by blast
    qed
    show "k' \<noteq> SyncCall" if "(c', k', Some w') \<in> set ?cs" for c' k' w'
      using that calls_fineD(9) [OF assms(1)] unfolding set_delete_numbered by blast
  qed (use assms(3) calls_fineD(3) [OF assms(1)] in \<open>auto simp: set_delete_numbered\<close>)
qed

lemma calls_fine_resume:
  assumes "calls_fine cs vs n" "map_of cs c = Some (k, Some w)" "map_of vs w = Some v"
  shows "needed v \<le> 1 \<Longrightarrow> calls_fine (AList.delete c cs) (AList.delete w vs) n"
    and "v = AllWait j \<Longrightarrow> 1 < j \<Longrightarrow> calls_fine (AList.delete c cs) (AList.update w (AllWait (j - 1)) vs) n"
proof -
  have mem: "(w, v) \<in> set vs" using assms(3) by (rule map_of_SomeD)
  have ch: "children w cs = needed v" and d: "distinct (map fst vs)"
    using calls_fineD(6) [OF assms(1) mem] calls_fineD(2) [OF assms(1)] by simp_all
  show "calls_fine (AList.delete c cs) (AList.delete w vs) n" if "needed v \<le> 1"
    by (rule calls_fine_child [OF assms(1,2)]) (use that ch d in \<open>auto simp: set_delete_numbered distinct_delete\<close>)
  show "calls_fine (AList.delete c cs) (AList.update w (AllWait (j - 1)) vs) n" if "v = AllWait j" "1 < j"
    by (rule calls_fine_child [OF assms(1,2)])
      (use that ch d in \<open>auto simp: set_update_numbered distinct_update\<close>)
qed


section \<open>Flags\<close>

text \<open>Whatever is shown as loading, synchronising or being tested has a call under way.\<close>

definition flags_ok :: "mcp_state \<Rightarrow> mcp_call set \<Rightarrow> mcp_wait set \<Rightarrow> bool" where
  "flags_ok s K W \<longleftrightarrow>
     (mx_isLoadingDefaults s \<longrightarrow> DefaultsCall \<in> K) \<and> (mx_isLoadingUserServers s \<longrightarrow> UserServersCall \<in> K) \<and>
     (mx_isLoading s \<longrightarrow> EffectiveCall \<in> K \<or> (\<exists>n. AllWait n \<in> W)) \<and>
     (mx_isSyncing s \<longrightarrow> SyncCall \<in> K \<or> (\<exists>xs. SyncWait xs \<in> W)) \<and>
     (\<forall>i. mx_testingServerId s = Some i \<longrightarrow> TestCall i \<in> K)"

lemmas mcp_defs = defaults_answered_def user_servers_answered_def effective_answered_def server_created_def
  server_updated_def server_deleted_def default_enabled_def default_disabled_def show_enabled_def test_answered_def
  clearTestResult_def start_sync_def sync_failed_def synced_def mcp_setError_def mcp_reset_def init_mcp_def
  all_loaded_def no_error_def mcp_loadDefaults_def mcp_loadUserServers_def mcp_start_loading_def start_test_def

text \<open>Starting a call.\<close>

lemma flags_start:
  assumes "flags_ok s K W"
  shows "flags_ok (mcp_loadDefaults s) (insert DefaultsCall K) W"
    "flags_ok (mcp_loadUserServers s) (insert UserServersCall K) W"
    "flags_ok (mcp_start_loading s) (insert EffectiveCall K) W"
    "flags_ok (mcp_start_loading s) K (insert (AllWait n) W)"
    "flags_ok (start_test i s) (insert (TestCall i) K) W"
    "flags_ok (start_sync s) (insert SyncCall K) W"
    "flags_ok (no_error s) (insert k K) W" "flags_ok (clearTestResult i s) K W"
    "flags_ok (mcp_setError err s) K W" "flags_ok (mcp_reset s) K W"
  using assms by (auto simp: flags_ok_def mcp_defs)

text \<open>Ending one.\<close>

lemma flags_end:
  "flags_ok s (insert DefaultsCall K) W \<Longrightarrow> flags_ok (defaults_answered a1 s) K W"
  "flags_ok s (insert UserServersCall K) W \<Longrightarrow> flags_ok (user_servers_answered a2 s) K W"
  "flags_ok s (insert EffectiveCall K) W \<Longrightarrow> flags_ok (effective_answered a3 s) K W"
  "flags_ok s (insert CreateCall K) W \<Longrightarrow> flags_ok (server_created a4 s) K W"
  "flags_ok s (insert (UpdateCall i) K) W \<Longrightarrow> flags_ok (server_updated i a4 s) K W"
  "flags_ok s (insert (DeleteCall i) K) W \<Longrightarrow> flags_ok (server_deleted i a5 s) K W"
  "flags_ok s (insert (EnableCall i) K) W \<Longrightarrow> flags_ok (default_enabled i a4 s) K W"
  "flags_ok s (insert (DisableCall i) K) W \<Longrightarrow> flags_ok (default_disabled i a5 s) K W"
  "flags_ok s (insert (TestCall i) K) W \<Longrightarrow> flags_ok (test_answered now i a6 s) K W"
  "flags_ok s (insert SyncCall K) W \<Longrightarrow> flags_ok (sync_failed err s) K W"
  "flags_ok s (insert SyncCall K) W \<Longrightarrow> flags_ok (mcp_loadUserServers s) (insert UserServersCall K) (insert (SyncWait xs) W)"
  by (simp_all add: flags_ok_def mcp_defs split: sum.split) blast

lemma flags_resume:
  assumes "flags_ok s K W"
  shows "W \<subseteq> insert (AllWait n) W' \<Longrightarrow> flags_ok (all_loaded s) K W'"
    and "W \<subseteq> insert (SyncWait xs) W' \<Longrightarrow> flags_ok (synced s) K W'"
    and "W \<subseteq> insert (AllWait n) W' \<Longrightarrow> AllWait n' \<in> W' \<Longrightarrow> flags_ok s K W'"
proof -
  show "flags_ok (all_loaded s) K W'" if "W \<subseteq> insert (AllWait n) W'"
    using assms that unfolding flags_ok_def all_loaded_def by (simp; blast)
  show "flags_ok (synced s) K W'" if "W \<subseteq> insert (SyncWait xs) W'"
    using assms that unfolding flags_ok_def synced_def by (simp; blast)
  show "flags_ok s K W'" if "W \<subseteq> insert (AllWait n) W'" "AllWait n' \<in> W'"
    using assms that unfolding flags_ok_def by blast
qed

lemma mirrored_changes:
  assumes "mirrored s"
  shows "mirrored (mcp_loadDefaults s)" "mirrored (mcp_loadUserServers s)" "mirrored (mcp_start_loading s)"
    "mirrored (start_test i s)" "mirrored (start_sync s)" "mirrored (no_error s)" "mirrored (clearTestResult i s)"
    "mirrored (mcp_setError msg s)" "mirrored (mcp_reset s)" "mirrored (defaults_answered a1 s)"
    "mirrored (user_servers_answered a2 s)" "mirrored (effective_answered a3 s)" "mirrored (server_created a4 s)"
    "mirrored (server_updated i a4 s)" "mirrored (server_deleted i a5 s)" "mirrored (default_enabled i a4 s)"
    "mirrored (default_disabled i a5 s)" "mirrored (test_answered now i a6 s)" "mirrored (sync_failed err s)"
    "mirrored (all_loaded s)" "mirrored (synced s)"
proof -
  show "mirrored (defaults_answered a1 s)"
    using assms by (auto simp: defaults_answered_def mirrored_def split: sum.split)
  show "mirrored (default_enabled i a4 s)"
    using assms mirrored_cong [OF mirrored_enabled [OF assms]]
    by (auto simp: default_enabled_def intro: mirrored_cong [OF assms] split: sum.split)
  show "mirrored (default_disabled i a5 s)"
    using assms mirrored_cong [OF mirrored_enabled [OF assms]]
    by (auto simp: default_disabled_def intro: mirrored_cong [OF assms] split: sum.split)
  show "mirrored (mcp_reset s)"
    by (simp add: mcp_reset_def mirrored_init)
qed (auto simp: mcp_defs intro: mirrored_cong [OF assms] split: sum.split)


section \<open>The invariant\<close>

definition mcp_ok :: "mcp_client \<Rightarrow> bool" where
  "mcp_ok m \<longleftrightarrow> calls_ok m \<and> flags_ok (mk_store m) (call_kinds (mk_calls m)) (snd ` set (mk_waits m)) \<and> mirrored (mk_store m)"

lemma mcp_client_fields [simp]:
  "mk_store (on_mcp f m) = f (mk_store m)" "mk_calls (on_mcp f m) = mk_calls m" "mk_waits (on_mcp f m) = mk_waits m"
  "mk_next (on_mcp f m) = mk_next m" "mk_store (settle_mcp c r m) = mk_store m" "mk_calls (settle_mcp c r m) = mk_calls m"
  "mk_waits (settle_mcp c r m) = mk_waits m" "mk_next (settle_mcp c r m) = mk_next m"
  "mk_store (call_mcp k p m) = mk_store m" "mk_calls (call_mcp k p m) = mk_calls m @ [(mk_next m, k, p)]"
  "mk_waits (call_mcp k p m) = mk_waits m" "mk_next (call_mcp k p m) = Suc (mk_next m)"
  "mk_store (wait_mcp w m) = mk_store m" "mk_calls (wait_mcp w m) = mk_calls m"
  "mk_waits (wait_mcp w m) = mk_waits m @ [(mk_next m, w)]" "mk_next (wait_mcp w m) = Suc (mk_next m)"
  by (simp_all add: on_mcp_def settle_mcp_def call_mcp_def wait_mcp_def)

text \<open>A top-level call begins.\<close>

lemma mcp_ok_call:
  assumes "mcp_ok m" "flags_ok (f (mk_store m)) (insert k (call_kinds (mk_calls m))) (snd ` set (mk_waits m))" "mirrored (f (mk_store m))"
  shows "mcp_ok (call_mcp k None (on_mcp f m))"
  using assms calls_fine_call by (simp add: mcp_ok_def calls_ok_def)

lemma kinds_delete:
  assumes "distinct (map fst cs)" "map_of cs c = Some (k, p)"
  shows "call_kinds cs = insert k (call_kinds (AList.delete c cs))"
proof -
  have "fst (snd e) = k" if "e \<in> set cs" "fst e = c" for e
    using map_of_is_SomeI [OF assms(1), of "fst e" "snd e"] assms(2) that by (cases e) simp
  then have "call_kinds cs \<subseteq> insert k (call_kinds (AList.delete c cs))"
    by (auto simp: set_delete_numbered)
  moreover have "k \<in> call_kinds cs"
    using map_of_SomeD [OF assms(2)] by (metis fst_conv imageI snd_conv)
  moreover have "call_kinds (AList.delete c cs) \<subseteq> call_kinds cs"
    unfolding set_delete_numbered by blast
  ultimately show ?thesis by blast
qed

lemma waits_delete:
  assumes "distinct (map fst vs)" "map_of vs w = Some v"
  shows "snd ` set vs \<subseteq> insert v (snd ` set (AList.delete w vs))"
    and "snd ` set vs \<subseteq> insert v (snd ` set (AList.update w v' vs))"
proof -
  have "snd e = v" if "e \<in> set vs" "fst e = w" for e
    using map_of_is_SomeI [OF assms(1), of "fst e" "snd e"] assms(2) that by (cases e) simp
  then show "snd ` set vs \<subseteq> insert v (snd ` set (AList.delete w vs))"
    and "snd ` set vs \<subseteq> insert v (snd ` set (AList.update w v' vs))"
    by (auto simp: set_delete_numbered set_update_numbered [OF assms(1)])
qed

lemma mcp_ok_end:
  assumes "mcp_ok m" "map_of (mk_calls m) c = Some (k, p)"
    and flags: "flags_ok (f (mk_store m)) (call_kinds (AList.delete c (mk_calls m))) (snd ` set (mk_waits m))"
    and mirrored: "mirrored (f (mk_store m))"
  shows "mcp_ok (end_call c p r (on_mcp f m))"
proof (cases p)
  case None
  with assms calls_fine_delete show ?thesis
    by (simp add: mcp_ok_def calls_ok_def end_call_def)
next
  case (Some w)
  have fine: "calls_fine (mk_calls m) (mk_waits m) (mk_next m)"
    using assms(1) by (simp add: mcp_ok_def calls_ok_def)
  note d = calls_fineD(2) [OF fine]
  have called: "map_of (mk_calls m) c = Some (k, Some w)" using assms(2) Some by simp
  obtain v where v: "map_of (mk_waits m) w = Some v"
    using calls_fineD(8) [OF fine map_of_SomeD [OF called]] d by (auto dest: map_of_is_SomeI)
  note fine' = calls_fine_resume [OF fine called v]
  show ?thesis
  proof (cases v)
    case (AllWait n)
    show ?thesis
    proof (cases "n \<le> 1")
      case True
      with Some v AllWait fine' flags_resume(1) [OF flags waits_delete(1) [OF d v, unfolded AllWait]] mirrored_changes(20) [OF mirrored]
      show ?thesis by (simp add: end_call_def resume_mcp_def mcp_ok_def calls_ok_def)
    next
      case False
      have "AllWait (n - 1) \<in> snd ` set (AList.update w (AllWait (n - 1)) (mk_waits m))"
        by (force simp: set_update_numbered [OF d])
      from Some v AllWait False fine'(2) [OF AllWait] flags_resume(3) [OF flags waits_delete(2) [OF d v, unfolded AllWait] this] mirrored
      show ?thesis by (simp add: end_call_def resume_mcp_def mcp_ok_def calls_ok_def)
    qed
  next
    case (SyncWait xs)
    with Some v fine' flags_resume(2) [OF flags waits_delete(1) [OF d v, unfolded SyncWait]] mirrored_changes(21) [OF mirrored]
    show ?thesis by (simp add: end_call_def resume_mcp_def mcp_ok_def calls_ok_def)
  qed
qed


lemma children_fresh:
  assumes "calls_fine cs vs n" "\<And>v. (w, v) \<notin> set vs"
  shows "children w cs = 0"
  using calls_fineD(8) [OF assms(1)] assms(2) by (intro children_none) fastforce

lemma calls_fine_all:
  assumes "calls_fine cs vs n"
  shows "calls_fine (cs @ [(Suc n, DefaultsCall, Some n), (Suc (Suc n), UserServersCall, Some n)])
    (vs @ [(n, AllWait 2)]) (Suc (Suc (Suc n)))"
proof -
  note D = calls_fineD [OF assms]
  let ?new = "[(Suc n, DefaultsCall, Some n), (Suc (Suc n), UserServersCall, Some n)]"
  have fresh: "(n, v) \<notin> set vs" "(n, k, p) \<notin> set cs" "(Suc n, v) \<notin> set vs" "(Suc (Suc n), v) \<notin> set vs" for v k p
    using D(3,4) by fastforce+
  have new: "children w ?new = (if w = n then 2 else 0)" for w
    by (simp add: children_def)
  show ?thesis
  proof (rule calls_fineI)
    show "distinct (map fst (cs @ ?new))"
      using D(1,3) by fastforce
    show "distinct (map fst (vs @ [(n, AllWait 2)]))"
      using D(2) fresh by auto
    show "c < Suc (Suc (Suc n))" if "(c, k, p) \<in> set (cs @ ?new)" for c k p
      using that D(3) [of c k p] by auto
    show "w < Suc (Suc (Suc n))" if "(w, v) \<in> set (vs @ [(n, AllWait 2)])" for w v
      using that D(4) [of w v] by auto
    show "(c, v) \<notin> set (vs @ [(n, AllWait 2)])" if "(c, k, p) \<in> set (cs @ ?new)" for c k p v
      using that D(5) fresh by auto
    show "children w (cs @ ?new) = needed v" if "(w, v) \<in> set (vs @ [(n, AllWait 2)])" for w v
      using that D(6) fresh children_fresh [OF assms, of n] by (auto simp: new)
    show "0 < needed v" if "(w, v) \<in> set (vs @ [(n, AllWait 2)])" for w v
      using that D(7) by auto
    show "\<exists>v. (w, v) \<in> set (vs @ [(n, AllWait 2)])" if "(c, k, Some w) \<in> set (cs @ ?new)" for c k w
      using that D(8) [of c k w] by auto
    show "k \<noteq> SyncCall" if "(c, k, Some w) \<in> set (cs @ ?new)" for c k w
      using that D(9) [of c k w] by auto
  qed
qed

lemma calls_fine_synced:
  assumes "calls_fine cs vs n" "map_of cs c = Some (SyncCall, p)"
  shows "p = None"
    and "calls_fine (AList.delete c cs @ [(n, UserServersCall, Some c)]) (vs @ [(c, SyncWait xs)]) (Suc n)"
proof -
  note D = calls_fineD [OF assms(1)]
  have mem: "(c, SyncCall, p) \<in> set cs" using assms(2) by (rule map_of_SomeD)
  then show p: "p = None" using D(9) by (cases p) blast+
  have del: "children w (AList.delete c cs) = children w cs" for w
    using children_delete [OF D(1) assms(2), of w] p by simp
  have fresh: "(c, v) \<notin> set vs" "(n, v) \<notin> set vs" for v
    using D(4,5) mem by blast+
  have less: "c < n" using D(3) mem by blast
  let ?cs = "AList.delete c cs @ [(n, UserServersCall, Some c)]" and ?vs = "vs @ [(c, SyncWait xs)]"
  have old: "(c', k, p) \<in> set cs \<and> c' \<noteq> c \<or> (c', k, p) = (n, UserServersCall, Some c)" if "(c', k, p) \<in> set ?cs" for c' k p
    using that by (auto simp: set_delete_numbered)
  show "calls_fine ?cs ?vs (Suc n)"
  proof (rule calls_fineI)
    have "n \<notin> fst ` set (AList.delete c cs)"
      using calls_fine_numbers [OF assms(1)] unfolding set_delete_numbered by blast
    then show "distinct (map fst ?cs)"
      using distinct_delete [OF D(1), of c] by simp
    show "distinct (map fst ?vs)"
      using D(2) fresh by auto
    show "c' < Suc n" if "(c', k, p) \<in> set ?cs" for c' k p
      using old [OF that] D(3) [of c' k p] by auto
    show "w < Suc n" if "(w, v) \<in> set ?vs" for w v
      using that D(4) less by (auto intro: less_SucI)
    show "(c', v) \<notin> set ?vs" if "(c', k, p) \<in> set ?cs" for c' k p v
      using old [OF that] D(5) [of c' k p v] fresh less by auto
    show "children w ?cs = needed v" if "(w, v) \<in> set ?vs" for w v
      using that D(6) fresh del children_fresh [OF assms(1), of c] by auto
    show "0 < needed v" if "(w, v) \<in> set ?vs" for w v
      using that D(7) by auto
    show "\<exists>v. (w, v) \<in> set ?vs" if "(c', k, Some w) \<in> set ?cs" for c' k w
      using old [OF that] D(8) [of c' k w] by auto
    show "k \<noteq> SyncCall" if "(c', k, Some w) \<in> set ?cs" for c' k w
      using old [OF that] D(9) [of c' k w] by auto
  qed
qed

lemma mcp_ok_load_all: "mcp_ok m \<Longrightarrow> mcp_ok (mcp_loadAll m)"
proof -
  assume ok: "mcp_ok m"
  then have "flags_ok (mk_store m) (call_kinds (mk_calls m)) (snd ` set (mk_waits m))" by (simp add: mcp_ok_def)
  then have "flags_ok (mcp_loadUserServers (mcp_loadDefaults (mcp_start_loading (mk_store m))))
      (insert UserServersCall (insert DefaultsCall (call_kinds (mk_calls m)))) (insert (AllWait 2) (snd ` set (mk_waits m)))"
    by (intro flags_start)
  then show ?thesis
    using ok calls_fine_all [of "mk_calls m" "mk_waits m" "mk_next m"] mirrored_changes(1-3)
    by (simp add: mcp_ok_def calls_ok_def mcp_loadAll_def Let_def insert_commute)
qed

lemma mcp_ok_sync:
  assumes "mcp_ok m" "map_of (mk_calls m) c = Some (SyncCall, p)"
  shows "mcp_ok (env_sync_answered c a m)"
proof -
  have fine: "calls_fine (mk_calls m) (mk_waits m) (mk_next m)"
    using assms(1) by (simp add: mcp_ok_def calls_ok_def)
  note kinds = kinds_delete [OF calls_fineD(1) [OF fine] assms(2)]
  have flags: "flags_ok (mk_store m) (insert SyncCall (call_kinds (AList.delete c (mk_calls m)))) (snd ` set (mk_waits m))"
    using assms(1) kinds by (simp add: mcp_ok_def)
  have mirrored: "mirrored (mk_store m)" using assms(1) by (simp add: mcp_ok_def)
  note S = calls_fine_synced [OF fine assms(2)]
  show ?thesis
  proof (cases a)
    case (Inl err)
    with mcp_ok_end [OF assms(1), of c SyncCall None "sync_failed err"] assms(2) S(1) flags_end(10) [OF flags] mirrored_changes(19) [OF mirrored]
    show ?thesis by (simp add: env_sync_answered_def)
  next
    case (Inr xs)
    with S(2) [of xs] flags_end(11) [OF flags] mirrored_changes(2) [OF mirrored]
    show ?thesis by (simp add: env_sync_answered_def mcp_ok_def calls_ok_def)
  qed
qed

lemma mcp_ok_step: "mcp_ok m \<Longrightarrow> mcp_ok (mcp_step e m)"
proof -
  assume ok: "mcp_ok m"
  then have flags: "flags_ok (mk_store m) (call_kinds (mk_calls m)) (snd ` set (mk_waits m))"
    and mirrored: "mirrored (mk_store m)" and d: "distinct (map fst (mk_calls m))"
    by (auto simp: mcp_ok_def calls_ok_def dest: calls_fineD(1))
  have ended: "mcp_ok (end_call c p r (on_mcp f m))"
    if "map_of (mk_calls m) c = Some (k, p)" "mirrored (f (mk_store m))"
      "\<And>K. flags_ok (mk_store m) (insert k K) (snd ` set (mk_waits m)) \<Longrightarrow> flags_ok (f (mk_store m)) K (snd ` set (mk_waits m))"
    for c k p r f
    by (rule mcp_ok_end [where k = k]) (use ok that flags [unfolded kinds_delete [OF d that(1)]] in blast)+
  note S = flags_start [OF flags] mirrored_changes [OF mirrored]
  show ?thesis
  proof (cases e)
    case (DefaultsAnswer c a)
    then show ?thesis using ok mirrored_changes [OF mirrored]
      by (auto split: option.split mcp_call.split intro!: ended flags_end)
  next
    case (UserServersAnswer c a)
    then show ?thesis using ok mirrored_changes [OF mirrored]
      by (auto split: option.split mcp_call.split intro!: ended flags_end)
  next
    case (EffectiveAnswer c a)
    then show ?thesis using ok mirrored_changes [OF mirrored]
      by (auto split: option.split mcp_call.split intro!: ended flags_end)
  next
    case (ServerAnswer c a)
    then show ?thesis using ok mirrored_changes [OF mirrored]
      by (auto split: option.split mcp_call.split intro!: ended flags_end)
  next
    case (EmptyAnswer c a)
    then show ?thesis using ok mirrored_changes [OF mirrored]
      by (auto split: option.split mcp_call.split intro!: ended flags_end)
  next
    case (TestAnswer c now a)
    then show ?thesis using ok mirrored_changes [OF mirrored]
      by (auto split: option.split mcp_call.split intro!: ended flags_end)
  next
    case (SyncAnswer c a)
    then show ?thesis using ok by (auto split: option.split mcp_call.split intro: mcp_ok_sync)
  next
    case (ClearTestResult i)
    with ok S show ?thesis by (simp add: mcp_ok_def)
  next
    case (SetMcpError msg)
    with ok S show ?thesis by (simp add: mcp_ok_def)
  next
    case ResetMcp
    with ok S show ?thesis by (simp add: mcp_ok_def)
  qed (use ok S in \<open>simp_all add: mcp_ok_call mcp_ok_load_all\<close>)
qed

lemma mcp_ok_init: "mcp_ok new_mcp_client"
  using mirrored_init by (simp add: mcp_ok_def new_mcp_client_def calls_ok_def calls_fine_def flags_ok_def init_mcp_def)

interpretation mcp: machine mcp_step "\<lambda>e m. True" mcp_ok new_mcp_client
proof
  show "mcp_ok new_mcp_client" by (rule mcp_ok_init)
  show "mcp_ok (mcp_step e m)" if "mcp_ok m" "True" for e m using that by (simp add: mcp_ok_step)
qed


section \<open>Every answer brings the end nearer\<close>

fun call_weight :: "mcp_call \<Rightarrow> nat" where
  "call_weight SyncCall = 2"
| "call_weight k = 1"

definition mcp_weight :: "mcp_client \<Rightarrow> nat" where
  "mcp_weight m = sum_list (map (\<lambda>e. call_weight (fst (snd e))) (mk_calls m))"

text \<open>The answers that can come: those to a call under way.\<close>

fun mcp_due :: "mcp_event \<Rightarrow> mcp_client \<Rightarrow> bool" where
  "mcp_due (DefaultsAnswer c a) m = (map_option fst (map_of (mk_calls m) c) = Some DefaultsCall)"
| "mcp_due (UserServersAnswer c a) m = (map_option fst (map_of (mk_calls m) c) = Some UserServersCall)"
| "mcp_due (EffectiveAnswer c a) m = (map_option fst (map_of (mk_calls m) c) = Some EffectiveCall)"
| "mcp_due (ServerAnswer c a) m =
     (case map_of (mk_calls m) c of
        Some (CreateCall, p) \<Rightarrow> True | Some (UpdateCall i, p) \<Rightarrow> True | Some (EnableCall i, p) \<Rightarrow> True | _ \<Rightarrow> False)"
| "mcp_due (EmptyAnswer c a) m =
     (case map_of (mk_calls m) c of Some (DeleteCall i, p) \<Rightarrow> True | Some (DisableCall i, p) \<Rightarrow> True | _ \<Rightarrow> False)"
| "mcp_due (TestAnswer c now a) m =
     (case map_of (mk_calls m) c of Some (TestCall i, p) \<Rightarrow> True | _ \<Rightarrow> False)"
| "mcp_due (SyncAnswer c a) m = (map_option fst (map_of (mk_calls m) c) = Some SyncCall)"
| "mcp_due e m = False"

lemma weight_delete:
  "distinct (map fst cs) \<Longrightarrow> map_of cs c = Some (k, p) \<Longrightarrow>
    sum_list (map (\<lambda>e. call_weight (fst (snd e))) cs) =
    call_weight k + sum_list (map (\<lambda>e. call_weight (fst (snd e))) (AList.delete c cs))"
proof (induction cs)
  case (Cons e cs)
  show ?case
  proof (cases "fst e = c")
    case True
    with Cons.prems(1) have "AList.delete c cs = cs"
      by (auto simp: AList.delete_eq filter_id_conv image_iff)
    with True Cons.prems show ?thesis by (cases e) auto
  next
    case False
    with Cons show ?thesis by (cases e) auto
  qed
qed simp

lemma calls_resume [simp]: "mk_calls (resume_mcp w m) = mk_calls m"
  by (simp add: resume_mcp_def split: option.split mcp_wait.split)

lemma calls_end [simp]: "mk_calls (end_call c p r m) = AList.delete c (mk_calls m)"
  by (simp add: end_call_def Let_def split: option.split)

lemma due_less:
  assumes "mcp_ok m" "mcp_due e m"
  shows "mcp_weight (mcp_step e m) < mcp_weight m"
proof -
  have d: "distinct (map fst (mk_calls m))"
    using assms(1) by (auto simp: mcp_ok_def calls_ok_def dest: calls_fineD(1))
  have pos: "0 < call_weight k" for k by (cases k) auto
  have less: "sum_list (map (\<lambda>e. call_weight (fst (snd e))) (AList.delete c (mk_calls m))) <
      sum_list (map (\<lambda>e. call_weight (fst (snd e))) (mk_calls m))" if "map_of (mk_calls m) c = Some (k, p)" for c k p
    using weight_delete [OF d that] pos [of k] by simp
  show ?thesis
  proof (cases e)
    case (SyncAnswer c a)
    with assms(2) obtain p where "map_of (mk_calls m) c = Some (SyncCall, p)" by auto
    with SyncAnswer weight_delete [OF d this] show ?thesis
      by (auto simp: mcp_weight_def env_sync_answered_def split: sum.split)
  qed (use assms(2) less in \<open>auto simp: mcp_weight_def split: option.splits mcp_call.splits\<close>)
qed

lemma due_exists:
  assumes "mcp_ok m" "mk_calls m \<noteq> []"
  shows "\<exists>e. mcp_due e m"
proof -
  obtain c k p where "(c, k, p) \<in> set (mk_calls m)"
    using assms(2) by (metis list.set_intros(1) neq_Nil_conv prod_cases3)
  then have "map_of (mk_calls m) c = Some (k, p)"
    using assms(1) by (auto simp: mcp_ok_def calls_ok_def dest: calls_fineD(1))
  then have "mcp_due (case k of DefaultsCall \<Rightarrow> DefaultsAnswer c (Inl NotAnError)
      | UserServersCall \<Rightarrow> UserServersAnswer c (Inl NotAnError) | EffectiveCall \<Rightarrow> EffectiveAnswer c (Inl NotAnError)
      | CreateCall \<Rightarrow> ServerAnswer c (Inl NotAnError) | UpdateCall i \<Rightarrow> ServerAnswer c (Inl NotAnError)
      | EnableCall i \<Rightarrow> ServerAnswer c (Inl NotAnError) | DeleteCall i \<Rightarrow> EmptyAnswer c (Inl NotAnError)
      | DisableCall i \<Rightarrow> EmptyAnswer c (Inl NotAnError) | TestCall i \<Rightarrow> TestAnswer c 0 (Inl NotAnError)
      | SyncCall \<Rightarrow> SyncAnswer c (Inl NotAnError)) m"
    by (cases k) simp_all
  then show ?thesis by blast
qed

lemma mcp_answers_bounded:
  "mcp_ok m \<Longrightarrow> guarded mcp_due mcp_step as m \<Longrightarrow> length as + mcp_weight (fold mcp_step as m) \<le> mcp_weight m"
proof (induction as arbitrary: m)
  case (Cons e as)
  then have "length as + mcp_weight (fold mcp_step as (mcp_step e m)) \<le> mcp_weight (mcp_step e m)"
    using mcp_ok_step by simp
  moreover have "mcp_weight (mcp_step e m) < mcp_weight m"
    using Cons.prems due_less by simp
  ultimately show ?case by simp
qed simp

lemma no_calls_no_flags:
  assumes "mcp_ok m" "mk_calls m = []"
  shows "mk_waits m = [] \<and> \<not> mx_isLoading (mk_store m) \<and> \<not> mx_isLoadingDefaults (mk_store m) \<and>
    \<not> mx_isLoadingUserServers (mk_store m) \<and> \<not> mx_isSyncing (mk_store m) \<and> mx_testingServerId (mk_store m) = None"
proof -
  have fine: "calls_fine [] (mk_waits m) (mk_next m)"
    using assms by (simp add: mcp_ok_def calls_ok_def)
  have "mk_waits m = []"
  proof (rule ccontr)
    assume "mk_waits m \<noteq> []"
    then obtain w v where "(w, v) \<in> set (mk_waits m)" by (cases "mk_waits m") auto
    with calls_fineD(6,7) [OF fine this] show False by (simp add: children_def)
  qed
  with assms show ?thesis
    by (auto simp: mcp_ok_def flags_ok_def)
qed

section \<open>Properties\<close>

text \<open>
  C34: In every history each category lists exactly the servers of the registry that belong to it,
  in their order and with their present state, and is not empty.
\<close>

theorem categories_mirror_defaults:
  assumes "s = mk_store (fold mcp_step es new_mcp_client)" "c \<in> set (mx_categories s)"
  shows "mg_servers c = filter (\<lambda>d. category_id d = mg_id c) (mx_defaults s) \<and> mg_servers c \<noteq> [] \<and>
    selectDefaultsByCategory s (mg_id c) = mg_servers c"
proof -
  obtain ids where cats: "mx_categories s = make_categories ids (mx_defaults s)"
    using mcp.inv_history [of es] assms(1) by (auto simp: mcp_ok_def mirrored_def)
  have each: "mg_servers c = filter (\<lambda>d. category_id d = mg_id c) (mx_defaults s) \<and> mg_servers c \<noteq> []"
    if "c \<in> set (mx_categories s)" for c
    using that unfolding cats make_categories_eq by (auto simp: filter_empty_conv)
  moreover obtain c' where "find (\<lambda>c'. mg_id c' = mg_id c) (mx_categories s) = Some c'"
    using assms(2) by (cases "find (\<lambda>c'. mg_id c' = mg_id c) (mx_categories s)") (auto simp: find_None_iff)
  moreover from this have "c' \<in> set (mx_categories s)" "mg_id c' = mg_id c"
    by (auto simp: find_Some_iff)
  ultimately have "selectDefaultsByCategory s (mg_id c) = mg_servers c"
    using each [OF assms(2)] by (simp add: selectDefaultsByCategory_def)
  with each [OF assms(2)] show ?thesis by blast
qed

text \<open>
  C35: After any history, answers to the calls under way come at most twice per call, and when no more
  can come nothing is shown as loading, synchronising or being tested, and no action waits.
\<close>

theorem mcp_loading_ends:
  assumes "m = fold mcp_step es new_mcp_client" "guarded mcp_due mcp_step as m" "m' = fold mcp_step as m"
    and "\<nexists>e. mcp_due e m'"
  shows "length as \<le> 2 * length (mk_calls m) \<and> mk_calls m' = [] \<and> mk_waits m' = [] \<and>
    \<not> mx_isLoading (mk_store m') \<and> \<not> mx_isLoadingDefaults (mk_store m') \<and>
    \<not> mx_isLoadingUserServers (mk_store m') \<and> \<not> mx_isSyncing (mk_store m') \<and>
    mx_testingServerId (mk_store m') = None"
proof -
  have ok: "mcp_ok m" "mcp_ok m'"
    using mcp.inv_history [of es] mcp.inv_history [of "es @ as"] by (simp_all add: assms(1,3))
  have two: "call_weight k \<le> 2" for k by (cases k) auto
  have "sum_list (map (\<lambda>e. call_weight (fst (snd e))) cs) \<le> 2 * length cs" for cs :: "(nat \<times> mcp_call \<times> nat option) list"
  proof (induction cs)
    case (Cons e cs)
    with two [of "fst (snd e)"] show ?case by simp
  qed simp
  then have "mcp_weight m \<le> 2 * length (mk_calls m)" by (simp add: mcp_weight_def)
  with mcp_answers_bounded [OF ok(1) assms(2)] have "length as \<le> 2 * length (mk_calls m)" by simp
  with due_exists [OF ok(2)] assms(4) no_calls_no_flags [OF ok(2)] show ?thesis by blast
qed

text \<open>Two tests at once: the end of the first hides that the second goes on.\<close>

lemma second_test_hidden:
  "(let m = fold mcp_step [TestConnection ''a'', TestConnection ''b'', TestAnswer 0 5 (Inl NotAnError)] new_mcp_client
    in (mx_testingServerId (mk_store m), mk_calls m)) = (None, [(1, TestCall ''b'', None)])"
  by code_simp

text \<open>A server deleted while it is tested has a test result afterwards.\<close>

lemma deleted_server_tested:
  "mx_testResults (mk_store (fold mcp_step [TestConnection ''a'', DeleteServer ''a'', EmptyAnswer 1 (Inr ()),
     TestAnswer 0 5 (Inl NotAnError)] new_mcp_client)) = [(''a'', test_result 5 ''a'' (Inl NotAnError))]"
  by code_simp

text \<open>A server enabled twice, or created while the list is loaded, is listed twice.\<close>

lemma enabled_twice:
  "mx_userServers (mk_store (fold mcp_step [EnableDefault slug, EnableDefault slug, ServerAnswer 0 (Inr v),
     ServerAnswer 1 (Inr v)] new_mcp_client)) = [v, v]"
  by (simp add: new_mcp_client_def call_mcp_def on_mcp_def no_error_def end_call_def settle_mcp_def default_enabled_def
      show_enabled_def init_mcp_def Let_def)

lemma created_while_loading:
  "mx_userServers (mk_store (fold mcp_step [CreateServer, LoadUserServers, UserServersAnswer 1 (Inr [v]),
     ServerAnswer 0 (Inr v)] new_mcp_client)) = [v, v]"
  by (simp add: new_mcp_client_def call_mcp_def on_mcp_def no_error_def end_call_def settle_mcp_def server_created_def
      user_servers_answered_def mcp_loadUserServers_def init_mcp_def Let_def)

text \<open>What was asked for before a reset fills the store after it.\<close>

lemma reset_refilled:
  "mx_userServers (mk_store (fold mcp_step [LoadUserServers, ResetMcp, UserServersAnswer 0 (Inr vs)] new_mcp_client)) = vs"
  by (simp add: new_mcp_client_def call_mcp_def on_mcp_def end_call_def settle_mcp_def mcp_reset_def
      user_servers_answered_def mcp_loadUserServers_def init_mcp_def Let_def)

text \<open>A server without a category, which is shown only if the registry lists the category \<open>other\<close>.\<close>

lemma unlisted_category_hidden:
  "md_category d = [] \<Longrightarrow> ''other'' \<notin> set ids \<Longrightarrow> c \<in> set (make_categories ids ds) \<Longrightarrow> d \<notin> set (mg_servers c)"
  by (auto simp: make_categories_eq category_id_def)

section \<open>Examples\<close>

definition ex_default :: mcp_default where
  "ex_default =
     \<lparr>md_slug = ''github'', md_name = ''GitHub'', md_description = [], md_category = ''version_control'', md_icon = [],
      md_transport = Stdio, md_command = Some ''npx'', md_args = Some [], md_url = None, md_required_env = [],
      md_is_builtin = False, md_is_enabled = False, md_has_required_env = True\<rparr>"

definition ex_mcp :: "mcp_event list" where
  "ex_mcp = [LoadAll, EnableDefault ''github'',
     DefaultsAnswer 1 (Inr \<lparr>dr_servers = [ex_default], dr_categories = [''web'', ''version_control'']\<rparr>)]"

theorem categories_mirror_defaults_witness:
  "let s = mk_store (fold mcp_step ex_mcp new_mcp_client)
   in mg_servers (hd (mx_categories s)) = filter (\<lambda>d. category_id d = mg_id (hd (mx_categories s))) (mx_defaults s) \<and>
     mg_servers (hd (mx_categories s)) \<noteq> []"
proof -
  let ?s = "mk_store (fold mcp_step ex_mcp new_mcp_client)"
  have "mx_categories ?s \<noteq> []" by code_simp
  then have "hd (mx_categories ?s) \<in> set (mx_categories ?s)" by simp
  from categories_mirror_defaults [OF refl this] show ?thesis
    unfolding Let_def by blast
qed

lemma ex_mcp_answers:
  "guarded mcp_due mcp_step [UserServersAnswer 2 (Inl (McpError [] (Some 503))), ServerAnswer 3 (Inl NotAnError)]
     (fold mcp_step ex_mcp new_mcp_client)"
  "mk_calls (fold mcp_step ex_mcp new_mcp_client) = [(2, UserServersCall, Some 0), (3, EnableCall ''github'', None)]"
  "mk_calls (fold mcp_step [UserServersAnswer 2 (Inl (McpError [] (Some 503))), ServerAnswer 3 (Inl NotAnError)]
     (fold mcp_step ex_mcp new_mcp_client)) = []"
  by code_simp+

lemma no_calls_no_answer: "mk_calls m = [] \<Longrightarrow> \<not> mcp_due e m"
  by (cases e) simp_all

theorem mcp_loading_ends_witness:
  "let m = fold mcp_step ex_mcp new_mcp_client;
       m' = fold mcp_step [UserServersAnswer 2 (Inl (McpError [] (Some 503))), ServerAnswer 3 (Inl NotAnError)] m
   in 2 \<le> 2 * length (mk_calls m) \<and> mk_waits m' = [] \<and> \<not> mx_isLoading (mk_store m')"
  using mcp_loading_ends [OF refl ex_mcp_answers(1) refl] no_calls_no_answer [OF ex_mcp_answers(3)]
  unfolding Let_def by simp

end
