(* ===== verification/Local_Pods.thy ===== *)
theory Local_Pods
  imports Js_Text Api_Utils Machines
begin

text \<open>
  Local pods: the discovery of running ones through their PID files
  (\<open>packages/local-pod-discovery/src/discovery.ts\<close>) and the service of the VS Code extension that
  starts and stops one (\<open>apps/vscode/src/services/local-pod-service.ts\<close>).

  The operating system is an argument: which process identifiers \<open>process.kill(pid, 0)\<close> accepts and
  what becomes of a connection to a port. A path is a directory and the name of a file in it. The
  contents of a file are what \<open>JSON.parse\<close> makes of them; a date is the value it is made from.
\<close>

section \<open>Files\<close>

record pod_file =
  pf_text :: "json option option"
  pf_removable :: bool

type_synonym path = "string \<times> string"
type_synonym pod_fs = "pod_file obj obj"

definition file_at :: "pod_fs \<Rightarrow> path \<Rightarrow> pod_file option" where
  "file_at fs p = (case map_of fs (fst p) of None \<Rightarrow> None | Some files \<Rightarrow> map_of files (snd p))"

text \<open>\<open>unlinkSync\<close>, whose failure is ignored.\<close>

definition unlink :: "path \<Rightarrow> pod_fs \<Rightarrow> pod_fs" where
  "unlink p fs =
     (case file_at fs p of
        Some f \<Rightarrow> if pf_removable f then AList.update (fst p) (AList.delete (snd p) (bucket fs (fst p))) fs else fs
      | None \<Rightarrow> fs)"

text \<open>\<open>mkdirSync\<close>, when needed, and \<open>writeFileSync\<close>.\<close>

definition write_file :: "path \<Rightarrow> json \<Rightarrow> pod_fs \<Rightarrow> pod_fs" where
  "write_file p content fs =
     AList.update (fst p)
       (AList.update (snd p)
         (case file_at fs p of
            Some f \<Rightarrow> f\<lparr>pf_text := Some (Some content)\<rparr>
          | None \<Rightarrow> \<lparr>pf_text = Some (Some content), pf_removable = True\<rparr>) (bucket fs (fst p))) fs"

section \<open>Discovery\<close>

datatype port_event = PortConnect | PortError | PortTimeout | PortThrows

record world =
  wo_kill :: "json option \<Rightarrow> bool"
  wo_port :: "json option \<Rightarrow> port_event"

record pod_info =
  pi_pid :: "json option"
  pi_port :: "json option"
  pi_workspacePath :: "json option"
  pi_startedAt :: "json option"
  pi_name :: "json option"

definition PODEX_CONFIG_DIR :: "string \<Rightarrow> string" where
  "PODEX_CONFIG_DIR home = home @ ''/.podex''"

definition DEFAULT_PID_FILE :: "string \<Rightarrow> path" where
  "DEFAULT_PID_FILE home = (PODEX_CONFIG_DIR home, ''local-pod.pid'')"

definition isProcessRunning :: "world \<Rightarrow> json option \<Rightarrow> bool" where
  "isProcessRunning w pid = wo_kill w pid"

text \<open>The promise resolves with the first event of the socket; a bad port makes it reject.\<close>

definition isPortReachable :: "world \<Rightarrow> json option \<Rightarrow> bool option" where
  "isPortReachable w port =
     (case wo_port w port of PortConnect \<Rightarrow> Some True | PortError \<Rightarrow> Some False | PortTimeout \<Rightarrow> Some False | PortThrows \<Rightarrow> None)"

text \<open>Reading a property of a parsed value other than \<open>null\<close>.\<close>

fun json_prop :: "json \<Rightarrow> string \<Rightarrow> json option" where
  "json_prop (JObj m) k = map_of m k"
| "json_prop j k = None"

definition pod_info_of :: "json \<Rightarrow> pod_info" where
  "pod_info_of j =
     \<lparr>pi_pid = json_prop j ''pid'', pi_port = json_prop j ''port'', pi_workspacePath = json_prop j ''workspacePath'',
      pi_startedAt = json_prop j ''startedAt'', pi_name = json_prop j ''name''\<rparr>"

definition discoverLocalPod :: "world \<Rightarrow> path \<Rightarrow> pod_fs \<Rightarrow> pod_info option \<times> pod_fs" where
  "discoverLocalPod w p fs =
     (case file_at fs p of
        None \<Rightarrow> (None, fs)
      | Some f \<Rightarrow>
          (case pf_text f of
             Some (Some j) \<Rightarrow>
               if j = JNull then (None, fs)
               else if \<not> isProcessRunning w (json_prop j ''pid'') then (None, unlink p fs)
               else if isPortReachable w (json_prop j ''port'') = Some True then (Some (pod_info_of j), fs)
               else (None, fs)
           | _ \<Rightarrow> (None, fs)))"

definition pid_file :: "string \<Rightarrow> path option \<Rightarrow> path" where
  "pid_file home pidFilePath = coalesce pidFilePath (DEFAULT_PID_FILE home)"

definition ends_with :: "string \<Rightarrow> string \<Rightarrow> bool" where
  "ends_with s p = starts_with (rev s) (rev p)"

definition is_pod_file :: "string \<Rightarrow> bool" where
  "is_pod_file file \<longleftrightarrow> starts_with file ''local-pod-'' \<and> ends_with file ''.pid'' \<and> file \<noteq> ''local-pod.pid''"

fun discover_files :: "world \<Rightarrow> string \<Rightarrow> string list \<Rightarrow> pod_info list \<times> pod_fs \<Rightarrow> pod_info list \<times> pod_fs" where
  "discover_files w configDir [] (pods, fs) = (pods, fs)"
| "discover_files w configDir (file # files) (pods, fs) =
     (if is_pod_file file
      then (case discoverLocalPod w (configDir, file) fs of
              (Some pod, fs') \<Rightarrow> discover_files w configDir files (pods @ [pod], fs')
            | (None, fs') \<Rightarrow> discover_files w configDir files (pods, fs'))
      else discover_files w configDir files (pods, fs))"

definition discoverAllLocalPods :: "world \<Rightarrow> string \<Rightarrow> path option \<Rightarrow> pod_fs \<Rightarrow> pod_info list \<times> pod_fs" where
  "discoverAllLocalPods w home pidFilePath fs =
     (let configDir = (case pidFilePath of Some p \<Rightarrow> fst p | None \<Rightarrow> PODEX_CONFIG_DIR home);
          (mainPod, fs) = discoverLocalPod w (pid_file home pidFilePath) fs;
          pods = (case mainPod of Some pod \<Rightarrow> [pod] | None \<Rightarrow> [])
      in case map_of fs configDir of
           None \<Rightarrow> (pods, fs)
         | Some files \<Rightarrow> discover_files w configDir (map fst files) (pods, fs))"

text \<open>
  Waiting: a poll has the time at which the loop looks at the clock, and the world and the files that
  its discovery meets. \<open>None\<close>: still waiting when the polls are used up.
\<close>

record pod_poll =
  po_now :: int
  po_world :: world
  po_fs :: pod_fs

fun waitForLocalPod :: "path \<Rightarrow> int \<Rightarrow> int \<Rightarrow> pod_poll list \<Rightarrow> pod_info option option" where
  "waitForLocalPod p startTime maxWaitMs [] = None"
| "waitForLocalPod p startTime maxWaitMs (poll # polls) =
     (if po_now poll - startTime < maxWaitMs
      then (case fst (discoverLocalPod (po_world poll) p (po_fs poll)) of
              Some pod \<Rightarrow> Some (Some pod)
            | None \<Rightarrow> waitForLocalPod p startTime maxWaitMs polls)
      else Some None)"

section \<open>PID files\<close>

record pod_data =
  pd_pid :: int
  pd_port :: int
  pd_workspacePath :: string
  pd_name :: "string option"

definition pid_content :: "clock \<Rightarrow> pod_data \<Rightarrow> json" where
  "pid_content clk info =
     JObj ([(''pid'', JNum (pd_pid info)), (''port'', JNum (pd_port info)),
            (''workspacePath'', JStr (pd_workspacePath info))] @
           (case pd_name info of Some n \<Rightarrow> [(''name'', JStr n)] | None \<Rightarrow> []) @
           [(''startedAt'', JStr (clk_iso clk))])"

definition writePodInfo :: "string \<Rightarrow> clock \<Rightarrow> pod_data \<Rightarrow> path option \<Rightarrow> pod_fs \<Rightarrow> pod_fs" where
  "writePodInfo home clk info pidFilePath fs = write_file (pid_file home pidFilePath) (pid_content clk info) fs"

definition removePodInfo :: "string \<Rightarrow> path option \<Rightarrow> pod_fs \<Rightarrow> pod_fs" where
  "removePodInfo home pidFilePath fs = unlink (pid_file home pidFilePath) fs"

text \<open>A template literal: how a value of JSON is shown.\<close>

fun template_json :: "json \<Rightarrow> string" where
  "template_json JNull = ''null''"
| "template_json (JBool b) = (if b then ''true'' else ''false'')"
| "template_json (JNum n) = show_int n"
| "template_json (JStr s) = s"
| "template_json (JArr xs) = join_with '','' (map (\<lambda>x. if x = JNull then [] else template_json x) xs)"
| "template_json (JObj m) = ''[object Object]''"

definition getLocalPodUrl :: "world \<Rightarrow> string \<Rightarrow> path option \<Rightarrow> pod_fs \<Rightarrow> string option" where
  "getLocalPodUrl w home pidFilePath fs =
     map_option (\<lambda>pod. ''http://127.0.0.1:'' @ (case pi_port pod of Some j \<Rightarrow> template_json j | None \<Rightarrow> ''undefined''))
       (fst (discoverLocalPod w (pid_file home pidFilePath) fs))"

section \<open>The service of the extension\<close>

text \<open>
  A start waits for the search of the binary, the answer of the user, two seconds of output of the
  child, and perhaps a discovery. The child of a start has its number; a child that could not be
  spawned has no pid. The port is the first that the output names, until another is named.
\<close>

record pod_options =
  so_port :: "int option"
  so_workspacePath :: "string option"
  so_name :: "string option"

datatype start_phase = FindingBinary | AskingUser | Warming "int option" "int option"
  | DiscoveringPort "int option" "int option"

record pod_start =
  sg_options :: pod_options
  sg_workspace :: string
  sg_phase :: start_phase

record pod_process =
  pp_pid :: "int option"
  pp_port :: int
  pp_workspacePath :: string
  pp_child :: nat

record pod_service =
  sv_process :: "pod_process option"
  sv_starts :: "(nat \<times> pod_start) list"
  sv_next :: nat
  sv_results :: "(nat \<times> pod_process option) list"
  sv_spawned :: "(nat \<times> string \<times> string list) list"
  sv_terminated :: "int option list"
  sv_installs :: nat

definition new_pod_service :: pod_service where
  "new_pod_service =
     \<lparr>sv_process = None, sv_starts = [], sv_next = 0, sv_results = [], sv_spawned = [], sv_terminated = [], sv_installs = 0\<rparr>"

definition start_returns :: "nat \<Rightarrow> pod_process option \<Rightarrow> pod_service \<Rightarrow> pod_service" where
  "start_returns c r s = s\<lparr>sv_starts := AList.delete c (sv_starts s), sv_results := sv_results s @ [(c, r)]\<rparr>"

definition set_phase :: "nat \<Rightarrow> pod_start \<Rightarrow> start_phase \<Rightarrow> pod_service \<Rightarrow> pod_service" where
  "set_phase c g ph s = s\<lparr>sv_starts := AList.update c (g\<lparr>sg_phase := ph\<rparr>) (sv_starts s)\<rparr>"

text \<open>\<open>folder\<close> is the first folder of the workspace.\<close>

definition enter_start :: "nat \<Rightarrow> pod_options \<Rightarrow> string option \<Rightarrow> pod_service \<Rightarrow> pod_service" where
  "enter_start c opts folder s =
     (case sv_process s of
        Some p \<Rightarrow> start_returns c (Some p) s
      | None \<Rightarrow>
          (case or_else (so_workspacePath opts) folder of
             Some workspacePath \<Rightarrow>
               if workspacePath = [] then start_returns c None s
               else s\<lparr>sv_starts := AList.update c \<lparr>sg_options = opts, sg_workspace = workspacePath, sg_phase = FindingBinary\<rparr>
                       (sv_starts s)\<rparr>
           | None \<Rightarrow> start_returns c None s))"

definition startLocalPod :: "pod_options \<Rightarrow> string option \<Rightarrow> pod_service \<Rightarrow> pod_service" where
  "startLocalPod opts folder s = enter_start (sv_next s) opts folder (s\<lparr>sv_next := Suc (sv_next s)\<rparr>)"

text \<open>The checks of \<open>npx\<close>, of the global installation, and of the binary in the folder.\<close>

definition findLocalPodBinary :: "bool \<Rightarrow> bool \<Rightarrow> string option \<Rightarrow> bool \<Rightarrow> string option" where
  "findLocalPodBinary npx global folder local =
     (if npx then Some ''npx @podex/local-pod''
      else if global then Some ''podex-local-pod''
      else (case folder of
              Some f \<Rightarrow> if f \<noteq> [] \<and> local then Some (f @ ''/node_modules/.bin/podex-local-pod'') else None
            | None \<Rightarrow> None))"

definition pod_args :: "pod_options \<Rightarrow> string list" where
  "pod_args opts =
     [''start''] @
     (case so_port opts of Some port \<Rightarrow> if port \<noteq> 0 then [''--port'', show_int port] else [] | None \<Rightarrow> []) @
     (case so_name opts of Some n \<Rightarrow> if n \<noteq> [] then [''--name'', n] else [] | None \<Rightarrow> [])"

text \<open>What \<open>spawn\<close> does: it throws, or there is a child with or without a pid.\<close>

type_synonym spawn_answer = "unit + int option"

definition binary_found :: "nat \<Rightarrow> string option \<Rightarrow> spawn_answer \<Rightarrow> pod_service \<Rightarrow> pod_service" where
  "binary_found c podBinary spawned s =
     (case map_of (sv_starts s) c of
        Some g \<Rightarrow>
          (if sg_phase g = FindingBinary
           then (case podBinary of
                   None \<Rightarrow> set_phase c g AskingUser s
                 | Some b \<Rightarrow>
                     (case spawned of
                        Inl e \<Rightarrow> start_returns c None s
                      | Inr pid \<Rightarrow>
                          (set_phase c g (Warming pid None) s)
                            \<lparr>sv_spawned := sv_spawned s @ [(c, b, pod_args (sg_options g))]\<rparr>))
           else s)
      | None \<Rightarrow> s)"

definition install_answered :: "nat \<Rightarrow> bool \<Rightarrow> string option \<Rightarrow> pod_service \<Rightarrow> pod_service" where
  "install_answered c install folder s =
     (case map_of (sv_starts s) c of
        Some g \<Rightarrow>
          (if sg_phase g = AskingUser
           then if install then enter_start c (sg_options g) folder (s\<lparr>sv_installs := Suc (sv_installs s)\<rparr>)
                else start_returns c None s
           else s)
      | None \<Rightarrow> s)"

text \<open>The first match of \<open>/listening on port (\d+)/i\<close>.\<close>

fun listening_port :: "string \<Rightarrow> int option" where
  "listening_port [] = None"
| "listening_port (c # cs) =
     (let digits = takeWhile is_digit (drop (length ''listening on port '') (c # cs))
      in if starts_with (to_lower (c # cs)) ''listening on port '' \<and> digits \<noteq> [] then Some (int (dec_val digits))
         else listening_port cs)"

definition pod_output :: "nat \<Rightarrow> string \<Rightarrow> pod_service \<Rightarrow> pod_service" where
  "pod_output c out s =
     (case map_of (sv_starts s) c of
        Some g \<Rightarrow>
          (case (sg_phase g, listening_port out) of
             (Warming pid port, Some n) \<Rightarrow> set_phase c g (Warming pid (Some n)) s
           | (DiscoveringPort pid port, Some n) \<Rightarrow> set_phase c g (DiscoveringPort pid (Some n)) s
           | _ \<Rightarrow> s)
      | None \<Rightarrow> s)"

text \<open>The child of any start has failed or ended.\<close>

definition pod_gone :: "pod_service \<Rightarrow> pod_service" where
  "pod_gone s = s\<lparr>sv_process := None\<rparr>"

definition pod_started :: "nat \<Rightarrow> pod_start \<Rightarrow> int option \<Rightarrow> int option \<Rightarrow> pod_service \<Rightarrow> pod_service" where
  "pod_started c g pid port s =
     (let number = (case port of Some n \<Rightarrow> if n \<noteq> 0 then n else 3001 | None \<Rightarrow> 3001);
          p = \<lparr>pp_pid = pid, pp_port = number, pp_workspacePath = sg_workspace g, pp_child = c\<rparr>
      in start_returns c (Some p) (s\<lparr>sv_process := Some p\<rparr>))"

definition falsy_port :: "int option \<Rightarrow> bool" where
  "falsy_port port \<longleftrightarrow> port = None \<or> port = Some 0"

definition start_waited :: "nat \<Rightarrow> pod_service \<Rightarrow> pod_service" where
  "start_waited c s =
     (case map_of (sv_starts s) c of
        Some g \<Rightarrow>
          (case sg_phase g of
             Warming pid port \<Rightarrow>
               if falsy_port port then set_phase c g (DiscoveringPort pid port) s else pod_started c g pid port s
           | _ \<Rightarrow> s)
      | None \<Rightarrow> s)"

definition port_discovered :: "nat \<Rightarrow> int option \<Rightarrow> pod_service \<Rightarrow> pod_service" where
  "port_discovered c discovered s =
     (case map_of (sv_starts s) c of
        Some g \<Rightarrow>
          (case sg_phase g of
             DiscoveringPort pid port \<Rightarrow>
               (let port = (case discovered of Some n \<Rightarrow> Some n | None \<Rightarrow> port)
                in pod_started c g pid (if falsy_port port then so_port (sg_options g) else port) s)
           | _ \<Rightarrow> s)
      | None \<Rightarrow> s)"

text \<open>
  \<open>stopLocalPod\<close> tells the recorded child to end. With none recorded it asks the discovery, whose answer
  is an event of its own.
\<close>

definition stopLocalPod :: "pod_service \<Rightarrow> pod_service" where
  "stopLocalPod s =
     (case sv_process s of
        Some p \<Rightarrow> s\<lparr>sv_process := None, sv_terminated := sv_terminated s @ [pp_pid p]\<rparr>
      | None \<Rightarrow> s)"

definition stop_discovered :: "int option \<Rightarrow> pod_service \<Rightarrow> pod_service" where
  "stop_discovered pid s = (case pid of Some n \<Rightarrow> s\<lparr>sv_terminated := sv_terminated s @ [Some n]\<rparr> | None \<Rightarrow> s)"

definition isLocalPodRunning :: "bool \<Rightarrow> pod_service \<Rightarrow> bool" where
  "isLocalPodRunning discovered s \<longleftrightarrow> sv_process s \<noteq> None \<or> discovered"

datatype pod_event =
    StartPod pod_options "string option" | BinaryFound nat "string option" spawn_answer
  | InstallAnswer nat bool "string option" | PodOutput nat string | PodGone | StartWaited nat
  | PortDiscovered nat "int option" | StopPod | StopDiscovered "int option"

fun pod_step :: "pod_event \<Rightarrow> pod_service \<Rightarrow> pod_service" where
  "pod_step (StartPod opts folder) s = startLocalPod opts folder s"
| "pod_step (BinaryFound c b spawned) s = binary_found c b spawned s"
| "pod_step (InstallAnswer c install folder) s = install_answered c install folder s"
| "pod_step (PodOutput c out) s = pod_output c out s"
| "pod_step PodGone s = pod_gone s"
| "pod_step (StartWaited c) s = start_waited c s"
| "pod_step (PortDiscovered c d) s = port_discovered c d s"
| "pod_step StopPod s = stopLocalPod s"
| "pod_step (StopDiscovered pid) s = stop_discovered pid s"


section \<open>Discovery finds what is alive\<close>

lemma file_at_unlink:
  "file_at (unlink p fs) q =
     (if q = p \<and> (\<exists>f. file_at fs p = Some f \<and> pf_removable f) then None else file_at fs q)"
  by (cases p; cases q) (auto simp: unlink_def file_at_def bucket_def split: option.splits)

lemma file_at_write:
  "file_at (write_file p j fs) q =
     (if q = p then Some (case file_at fs p of
         Some f \<Rightarrow> f\<lparr>pf_text := Some (Some j)\<rparr> | None \<Rightarrow> \<lparr>pf_text = Some (Some j), pf_removable = True\<rparr>)
      else file_at fs q)"
  by (cases p; cases q) (auto simp: write_file_def file_at_def bucket_def split: option.splits)

text \<open>The pod that a PID file names, and whether it is alive.\<close>

definition named_pod :: "pod_fs \<Rightarrow> path \<Rightarrow> json option" where
  "named_pod fs q =
     (case file_at fs q of
        Some f \<Rightarrow> (case pf_text f of Some (Some j) \<Rightarrow> if j = JNull then None else Some j | _ \<Rightarrow> None)
      | None \<Rightarrow> None)"

definition pod_alive :: "world \<Rightarrow> json \<Rightarrow> bool" where
  "pod_alive w j \<longleftrightarrow> wo_kill w (json_prop j ''pid'') \<and> wo_port w (json_prop j ''port'') = PortConnect"

definition live :: "world \<Rightarrow> pod_fs \<Rightarrow> path \<Rightarrow> pod_info \<Rightarrow> bool" where
  "live w fs q pod \<longleftrightarrow> (\<exists>j. named_pod fs q = Some j \<and> pod_alive w j \<and> pod = pod_info_of j)"

definition stale :: "world \<Rightarrow> pod_fs \<Rightarrow> path \<Rightarrow> bool" where
  "stale w fs q \<longleftrightarrow>
     (\<exists>j f. named_pod fs q = Some j \<and> \<not> wo_kill w (json_prop j ''pid'') \<and> file_at fs q = Some f \<and> pf_removable f)"

lemma discover_eq:
  "discoverLocalPod w q fs =
     (case named_pod fs q of
        None \<Rightarrow> (None, fs)
      | Some j \<Rightarrow>
          (if pod_alive w j then Some (pod_info_of j) else None,
           if wo_kill w (json_prop j ''pid'') then fs else unlink q fs))"
  by (auto simp: discoverLocalPod_def named_pod_def pod_alive_def isProcessRunning_def isPortReachable_def
      split: option.split port_event.split)

lemma discover_pod: "fst (discoverLocalPod w q fs) = Some pod \<longleftrightarrow> live w fs q pod"
  by (auto simp: discover_eq live_def split: option.split)

lemma discover_files_left:
  "file_at (snd (discoverLocalPod w q fs)) r = (if r = q \<and> stale w fs q then None else file_at fs r)"
  by (auto simp: discover_eq stale_def file_at_unlink split: option.split)

lemma named_pod_left:
  "named_pod (snd (discoverLocalPod w q fs)) r = (if r = q \<and> stale w fs q then None else named_pod fs r)"
  by (simp add: named_pod_def discover_files_left)

lemma stale_dead: "stale w fs q \<Longrightarrow> \<not> live w fs q pod"
  by (auto simp: stale_def live_def pod_alive_def)

lemma live_left [simp]: "live w (snd (discoverLocalPod w q fs)) r pod = live w fs r pod"
  using stale_dead [of w fs q pod] by (auto simp: live_def named_pod_left)

lemma stale_left: "stale w (snd (discoverLocalPod w q fs)) r = (stale w fs r \<and> r \<noteq> q)"
  by (auto simp: stale_def named_pod_left discover_files_left)

lemma set_found: "set (case r of Some x \<Rightarrow> [x] | None \<Rightarrow> []) = {x. r = Some x}"
  by (cases r) auto

lemma discover_files_Cons:
  "discover_files w dir (n # ns) (pods, fs) =
     (if is_pod_file n
      then discover_files w dir ns
             (pods @ (case fst (discoverLocalPod w (dir, n) fs) of Some pod \<Rightarrow> [pod] | None \<Rightarrow> []),
              snd (discoverLocalPod w (dir, n) fs))
      else discover_files w dir ns (pods, fs))"
  by (simp split: prod.split option.split)

lemma discover_files_pods:
  "set (fst (discover_files w dir ns (pods, fs))) =
     set pods \<union> {pod. \<exists>f \<in> set ns. is_pod_file f \<and> live w fs (dir, f) pod}"
proof (induction ns arbitrary: pods fs)
  case (Cons n ns)
  show ?case
    unfolding discover_files_Cons by (auto simp: Cons.IH set_found discover_pod)
qed simp

lemma discover_files_files:
  "file_at (snd (discover_files w dir ns (pods, fs))) q =
     (if stale w fs q \<and> fst q = dir \<and> snd q \<in> set ns \<and> is_pod_file (snd q) then None else file_at fs q)"
proof (induction ns arbitrary: pods fs)
  case (Cons n ns)
  show ?case
    unfolding discover_files_Cons by (auto simp: Cons.IH stale_left discover_files_left prod_eq_iff)
qed simp

text \<open>
  C36: What is reported of all local pods is exactly what the PID files name that is alive, process and
  port; no file is removed but those of dead processes.
\<close>

theorem discover_all_reports_live:
  assumes "discoverAllLocalPods w home p fs = (pods, fs')"
    and "dir = (case p of Some q \<Rightarrow> fst q | None \<Rightarrow> PODEX_CONFIG_DIR home)"
  shows "set pods = {pod. live w fs (pid_file home p) pod \<or> (\<exists>f. is_pod_file f \<and> live w fs (dir, f) pod)} \<and>
    file_at fs' q =
      (if stale w fs q \<and> (q = pid_file home p \<or> fst q = dir \<and> is_pod_file (snd q)) then None else file_at fs q)"
proof -
  obtain r fs1 where d: "discoverLocalPod w (pid_file home p) fs = (r, fs1)"
    by (cases "discoverLocalPod w (pid_file home p) fs")
  have r: "r = Some pod \<longleftrightarrow> live w fs (pid_file home p) pod" for pod
    using discover_pod [of w "pid_file home p" fs pod] by (simp add: d)
  have fs1: "live w fs1 q pod = live w fs q pod" "stale w fs1 q = (stale w fs q \<and> q \<noteq> pid_file home p)"
    "file_at fs1 q = (if q = pid_file home p \<and> stale w fs (pid_file home p) then None else file_at fs q)" for q pod
    using live_left [of w "pid_file home p" fs] stale_left [of w "pid_file home p" fs]
      discover_files_left [of w "pid_file home p" fs] by (simp_all add: d)
  let ?pods = "case r of Some pod \<Rightarrow> [pod] | None \<Rightarrow> []"
  have main: "set ?pods = {pod. live w fs (pid_file home p) pod}"
    by (simp add: set_found r)
  have listed: "f \<in> set (map fst (coalesce (map_of fs1 dir) []))" if "file_at fs1 (dir, f) \<noteq> None" for f
    using that by (auto simp: file_at_def split: option.splits dest: map_of_SomeD intro: rev_image_eqI)
  have named: "file_at fs1 q \<noteq> None" if "live w fs1 q pod \<or> stale w fs1 q" for q pod
    using that by (auto simp: live_def stale_def named_pod_def split: option.splits)
  have all: "(pods, fs') = discover_files w dir (map fst (coalesce (map_of fs1 dir) [])) (?pods, fs1)"
    using assms by (auto simp: discoverAllLocalPods_def d Let_def split: option.splits)
  note E = discover_files_pods [of w dir "map fst (coalesce (map_of fs1 dir) [])" ?pods fs1, folded all, unfolded fst_conv]
    discover_files_files [of w dir "map fst (coalesce (map_of fs1 dir) [])" ?pods fs1 q, folded all, unfolded snd_conv]
  have "set pods = {pod. live w fs (pid_file home p) pod \<or> (\<exists>f. is_pod_file f \<and> live w fs (dir, f) pod)}"
  proof (rule set_eqI)
    fix pod
    have "f \<in> set (map fst (coalesce (map_of fs1 dir) []))" if "live w fs (dir, f) pod" for f
      using listed named that fs1(1) by blast
    then show "pod \<in> set pods \<longleftrightarrow> pod \<in> {pod. live w fs (pid_file home p) pod \<or> (\<exists>f. is_pod_file f \<and> live w fs (dir, f) pod)}"
      unfolding E(1) main by (simp only: Un_iff mem_Collect_eq fs1(1)) blast
  qed
  moreover have "file_at fs' q =
      (if stale w fs q \<and> (q = pid_file home p \<or> fst q = dir \<and> is_pod_file (snd q)) then None else file_at fs q)"
    using E listed [of "snd q"] named [of q] fs1(2,3) [of q] by (cases q) auto
  ultimately show ?thesis by blast
qed

text \<open>
  A pod that has written its PID file is discovered with what it wrote as long as it is alive, and
  is not discovered any more once it has removed the file.
\<close>

theorem written_pod_discovered:
  assumes "wo_kill w (Some (JNum (pd_pid info)))" "wo_port w (Some (JNum (pd_port info))) = PortConnect"
  shows "discoverLocalPod w (pid_file home p) (writePodInfo home clk info p fs) =
      (Some \<lparr>pi_pid = Some (JNum (pd_pid info)), pi_port = Some (JNum (pd_port info)),
             pi_workspacePath = Some (JStr (pd_workspacePath info)), pi_startedAt = Some (JStr (clk_iso clk)),
             pi_name = map_option JStr (pd_name info)\<rparr>, writePodInfo home clk info p fs) \<and>
    getLocalPodUrl w home p (writePodInfo home clk info p fs) = Some (''http://127.0.0.1:'' @ show_int (pd_port info)) \<and>
    fst (discoverLocalPod w (pid_file home p) (removePodInfo home p (writePodInfo home clk info p []))) = None"
proof -
  have named: "named_pod (writePodInfo home clk info p fs) (pid_file home p) = Some (pid_content clk info)" for fs
    by (simp add: named_pod_def writePodInfo_def file_at_write pid_content_def split: option.split)
  have props: "json_prop (pid_content clk info) ''pid'' = Some (JNum (pd_pid info))"
    "json_prop (pid_content clk info) ''port'' = Some (JNum (pd_port info))"
    "json_prop (pid_content clk info) ''workspacePath'' = Some (JStr (pd_workspacePath info))"
    "json_prop (pid_content clk info) ''startedAt'' = Some (JStr (clk_iso clk))"
    "json_prop (pid_content clk info) ''name'' = map_option JStr (pd_name info)"
    by (simp_all add: pid_content_def split: option.split)
  have found: "discoverLocalPod w (pid_file home p) (writePodInfo home clk info p fs) =
      (Some (pod_info_of (pid_content clk info)), writePodInfo home clk info p fs)" for fs
    using assms by (simp add: discover_eq named pod_alive_def props)
  have "file_at (removePodInfo home p (writePodInfo home clk info p [])) (pid_file home p) = None"
    by (simp add: removePodInfo_def writePodInfo_def file_at_unlink file_at_write) (simp add: file_at_def)
  then show ?thesis
    using found by (simp add: getLocalPodUrl_def pod_info_of_def props discoverLocalPod_def [of w _ "removePodInfo _ _ _"])
qed

section \<open>Waiting ends\<close>

definition poll_pod :: "path \<Rightarrow> pod_poll \<Rightarrow> pod_info option" where
  "poll_pod p q = fst (discoverLocalPod (po_world q) p (po_fs q))"

text \<open>The polls of a wait come at least the interval apart.\<close>

fun polls_spaced :: "int \<Rightarrow> int \<Rightarrow> pod_poll list \<Rightarrow> bool" where
  "polls_spaced k t [] = True"
| "polls_spaced k t (q # qs) = (t \<le> po_now q \<and> polls_spaced k (po_now q + k) qs)"

lemma polls_spaced_ge: "polls_spaced k t qs \<Longrightarrow> 0 \<le> k \<Longrightarrow> q \<in> set qs \<Longrightarrow> t \<le> po_now q"
  by (induction qs arbitrary: t) (fastforce+)

lemma wait_result:
  assumes "polls_spaced k t qs" "0 < k" "qs \<noteq> []" "start + d - t \<le> int (length qs - 1) * k"
  shows "waitForLocalPod p start d qs =
    Some (case find (\<lambda>q. po_now q - start < d \<and> poll_pod p q \<noteq> None) qs of Some q \<Rightarrow> poll_pod p q | None \<Rightarrow> None)"
  using assms
proof (induction qs arbitrary: t)
  case (Cons q qs)
  show ?case
  proof (cases "po_now q - start < d")
    case late: False
    have "find (\<lambda>q. po_now q - start < d \<and> poll_pod p q \<noteq> None) (q # qs) = None"
      using late Cons.prems(1,2) polls_spaced_ge [of k "po_now q + k" qs] by (force simp: find_None_iff)
    with late show ?thesis by simp
  next
    case early: True
    show ?thesis
    proof (cases "poll_pod p q")
      case None
      have "qs \<noteq> []" using early Cons.prems by auto
      then have "int (length (q # qs) - 1) * k = int (length qs - 1) * k + k"
        by (cases qs) (simp_all add: algebra_simps)
      with Cons.prems have "start + d - (po_now q + k) \<le> int (length qs - 1) * k" by simp
      with Cons.IH [of "po_now q + k"] Cons.prems \<open>qs \<noteq> []\<close> early None show ?thesis
        by (simp add: poll_pod_def)
    qed (use early in \<open>simp add: poll_pod_def\<close>)
  qed
qed simp

lemma polls_in_time:
  "polls_spaced k t qs \<Longrightarrow> 0 < k \<Longrightarrow>
   int (length (filter (\<lambda>q. po_now q - start < d) qs)) * k \<le> max 0 (start + d - t + k - 1)"
proof (induction qs arbitrary: t)
  case (Cons q qs)
  let ?n = "int (length (filter (\<lambda>q. po_now q - start < d) qs))"
  have t: "t \<le> po_now q" and rest: "?n * k \<le> max 0 (start + d - (po_now q + k) + k - 1)"
    using Cons.IH [of "po_now q + k"] Cons.prems by simp_all
  show ?case
  proof (cases "po_now q - start < d")
    case True
    with t rest show ?thesis by (simp add: algebra_simps)
  next
    case False
    with rest show ?thesis by simp
  qed
qed simp

text \<open>
  C37: However the world changes between the polls, a wait whose polls come at least the interval apart
  ends: the loop polls at most as often as intervals have begun within the time (the time divided by
  the interval, rounded up: the first poll comes at once), and it gives the pod that the first poll
  in time finds, or none.
\<close>

theorem local_pod_wait_ends:
  assumes "polls_spaced pollIntervalMs startTime polls" "0 < pollIntervalMs" "0 \<le> maxWaitMs"
    and "(maxWaitMs + pollIntervalMs - 1) div pollIntervalMs + 1 \<le> int (length polls)"
  shows "int (length (filter (\<lambda>q. po_now q - startTime < maxWaitMs) polls)) \<le>
      (maxWaitMs + pollIntervalMs - 1) div pollIntervalMs \<and>
    waitForLocalPod p startTime maxWaitMs polls =
      Some (case find (\<lambda>q. po_now q - startTime < maxWaitMs \<and> poll_pod p q \<noteq> None) polls of
              Some q \<Rightarrow> poll_pod p q | None \<Rightarrow> None)"
proof -
  let ?n = "(maxWaitMs + pollIntervalMs - 1) div pollIntervalMs"
  have "int (length (filter (\<lambda>q. po_now q - startTime < maxWaitMs) polls)) * pollIntervalMs \<le> maxWaitMs + pollIntervalMs - 1"
    using polls_in_time [OF assms(1,2), of startTime maxWaitMs] assms(2,3) by simp
  then have few: "int (length (filter (\<lambda>q. po_now q - startTime < maxWaitMs) polls)) \<le> ?n"
    using zdiv_mono1 [OF _ assms(2)] assms(2) by fastforce
  have "(maxWaitMs + pollIntervalMs - 1) mod pollIntervalMs < pollIntervalMs"
    using assms(2) by simp
  with div_mult_mod_eq [of "maxWaitMs + pollIntervalMs - 1" pollIntervalMs] have "maxWaitMs \<le> ?n * pollIntervalMs"
    by linarith
  also have "\<dots> \<le> int (length polls - 1) * pollIntervalMs"
    using assms(2,4) by (intro mult_right_mono) linarith+
  finally have "startTime + maxWaitMs - startTime \<le> int (length polls - 1) * pollIntervalMs" by simp
  moreover have "0 \<le> ?n"
    using assms(2,3) by (simp add: pos_imp_zdiv_nonneg_iff)
  then have "polls \<noteq> []" using assms(4) by auto
  ultimately show ?thesis
    using wait_result [OF assms(1,2)] few by blast
qed

section \<open>Files of several pods\<close>

text \<open>Whichever of two pods with the default file ends first removes the file, which is that of the second.\<close>

lemma end_of_first_hides_second:
  "fst (discoverLocalPod w (DEFAULT_PID_FILE home)
     (removePodInfo home None (writePodInfo home clk2 b None (writePodInfo home clk1 a None [])))) = None"
  by (simp add: discoverLocalPod_def removePodInfo_def writePodInfo_def pid_file_def file_at_unlink file_at_write)
    (simp add: file_at_def)

definition ex_world :: world where
  "ex_world = \<lparr>wo_kill = (\<lambda>j. j = Some (JNum 7)), wo_port = (\<lambda>j. PortConnect)\<rparr>"

definition ex_pod :: pod_data where
  "ex_pod = \<lparr>pd_pid = 7, pd_port = 3001, pd_workspacePath = ''/w'', pd_name = None\<rparr>"

definition ex_clock :: clock where
  "ex_clock = \<lparr>clk_ms = 0, clk_iso = ''1970-01-01T00:00:00.000Z''\<rparr>"

text \<open>A file that is given as the main one and looks like one of the others is reported twice.\<close>

lemma main_file_reported_twice:
  "length (fst (discoverAllLocalPods ex_world ''/h'' (Some (''/d'', ''local-pod-a.pid''))
     (writePodInfo ''/h'' ex_clock ex_pod (Some (''/d'', ''local-pod-a.pid'')) []))) = 2"
  by code_simp

theorem written_pod_discovered_witness:
  "getLocalPodUrl ex_world ''/h'' None (writePodInfo ''/h'' ex_clock ex_pod None []) = Some (''http://127.0.0.1:'' @ show_int 3001)"
  using written_pod_discovered [of ex_world ex_pod "''/h''" None ex_clock "[]"] by (simp add: ex_world_def ex_pod_def)

definition ex_fs :: pod_fs where
  "ex_fs = writePodInfo ''/h'' ex_clock ex_pod None [(''/h/.podex'', [(''local-pod-b.pid'',
     \<lparr>pf_text = Some (Some (JObj [(''pid'', JNum 9)])), pf_removable = True\<rparr>)])]"

lemma ex_stale: "stale ex_world ex_fs (''/h/.podex'', ''local-pod-b.pid'')"
proof -
  have "named_pod ex_fs (''/h/.podex'', ''local-pod-b.pid'') = Some (JObj [(''pid'', JNum 9)])"
    "map_option pf_removable (file_at ex_fs (''/h/.podex'', ''local-pod-b.pid'')) = Some True"
    by code_simp+
  then show ?thesis by (auto simp: stale_def ex_world_def)
qed

theorem discover_all_reports_live_witness:
  "\<exists>pods fs'. discoverAllLocalPods ex_world ''/h'' None ex_fs = (pods, fs') \<and>
     set pods = {pod. live ex_world ex_fs (pid_file ''/h'' None) pod \<or>
       (\<exists>f. is_pod_file f \<and> live ex_world ex_fs (''/h/.podex'', f) pod)} \<and>
     file_at fs' (''/h/.podex'', ''local-pod-b.pid'') = None"
proof -
  obtain pods fs' where r: "discoverAllLocalPods ex_world ''/h'' None ex_fs = (pods, fs')"
    by (cases "discoverAllLocalPods ex_world ''/h'' None ex_fs")
  have dir: "''/h/.podex'' = (case None of Some q \<Rightarrow> fst q | None \<Rightarrow> PODEX_CONFIG_DIR ''/h'')"
    by (simp add: PODEX_CONFIG_DIR_def)
  have "is_pod_file ''local-pod-b.pid''" by code_simp
  with r ex_stale discover_all_reports_live [OF r dir, of "(''/h/.podex'', ''local-pod-b.pid'')"] show ?thesis
    by (intro exI [of _ pods] exI [of _ fs']) simp
qed

definition ex_polls :: "pod_poll list" where
  "ex_polls = map (\<lambda>t. \<lparr>po_now = t, po_world = ex_world,
     po_fs = if t < 600 then [] else writePodInfo ''/h'' ex_clock ex_pod None []\<rparr>) [0, 510, 1100, 1650]"

theorem local_pod_wait_ends_witness:
  "map_option (map_option pi_pid) (waitForLocalPod (DEFAULT_PID_FILE ''/h'') 0 1200 ex_polls) = Some (Some (Some (JNum 7)))"
proof -
  have "map_option pi_pid (case find (\<lambda>q. po_now q - 0 < 1200 \<and> poll_pod (DEFAULT_PID_FILE ''/h'') q \<noteq> None) ex_polls of
      Some q \<Rightarrow> poll_pod (DEFAULT_PID_FILE ''/h'') q | None \<Rightarrow> None) = Some (Some (JNum 7))"
    by code_simp
  moreover have "polls_spaced 500 0 ex_polls" "length ex_polls = 4"
    by code_simp+
  ultimately show ?thesis
    using local_pod_wait_ends [of 500 0 ex_polls 1200 "DEFAULT_PID_FILE ''/h''"] by simp
qed


section \<open>The recorded pod\<close>

text \<open>The recorded pod is what the start returned that spawned it; its port is not zero.\<close>

fun spawned_phase :: "start_phase \<Rightarrow> bool" where
  "spawned_phase (Warming pid port) = True"
| "spawned_phase (DiscoveringPort pid port) = True"
| "spawned_phase ph = False"

definition service_ok :: "pod_service \<Rightarrow> bool" where
  "service_ok s \<longleftrightarrow>
     (\<forall>c g. map_of (sv_starts s) c = Some g \<and> spawned_phase (sg_phase g) \<longrightarrow> c \<in> fst ` set (sv_spawned s)) \<and>
     (\<forall>p. sv_process s = Some p \<longrightarrow>
        pp_child p \<in> fst ` set (sv_spawned s) \<and> (pp_child p, Some p) \<in> set (sv_results s) \<and> pp_port p \<noteq> 0)"

lemma service_ok_returns: "service_ok s \<Longrightarrow> service_ok (start_returns c r s)"
  by (auto simp: service_ok_def start_returns_def)

lemma service_ok_phase:
  "service_ok s \<Longrightarrow> map_of (sv_starts s) c = Some g \<Longrightarrow> spawned_phase ph \<longrightarrow> spawned_phase (sg_phase g) \<Longrightarrow>
    service_ok (set_phase c g ph s)"
  by (auto simp: service_ok_def set_phase_def)

lemma service_ok_enter: "service_ok s \<Longrightarrow> service_ok (enter_start c opts folder s)"
  using service_ok_returns by (auto simp: enter_start_def service_ok_def split: option.split)

lemma service_ok_started:
  assumes "service_ok s" "map_of (sv_starts s) c = Some g" "spawned_phase (sg_phase g)"
  shows "service_ok (pod_started c g pid port s)"
  using assms by (auto simp: service_ok_def pod_started_def start_returns_def Let_def split: option.split)

lemma service_ok_step: "service_ok s \<Longrightarrow> service_ok (pod_step e s)"
proof (induction e s rule: pod_step.induct)
  case (1 opts folder s)
  then have "service_ok (s\<lparr>sv_next := Suc (sv_next s)\<rparr>)" by (simp add: service_ok_def)
  then show ?case by (simp add: startLocalPod_def service_ok_enter)
next
  case (2 c b spawned s)
  then show ?case
    by (auto simp: binary_found_def intro: service_ok_returns service_ok_phase split: option.split sum.split)
      (auto simp: service_ok_def set_phase_def)
next
  case (3 c install folder s)
  then have "service_ok (s\<lparr>sv_installs := Suc (sv_installs s)\<rparr>)" by (simp add: service_ok_def)
  with 3 show ?case
    by (auto simp: install_answered_def intro: service_ok_returns service_ok_enter split: option.split)
next
  case (4 c out s)
  then show ?case
    by (auto simp: pod_output_def intro!: service_ok_phase split: option.split start_phase.split)
next
  case (6 c s)
  then show ?case
    by (auto simp: start_waited_def intro!: service_ok_phase service_ok_started split: option.split start_phase.split)
next
  case (7 c d s)
  then show ?case
    by (auto simp: port_discovered_def Let_def intro!: service_ok_started split: option.split start_phase.split)
qed (auto simp: service_ok_def pod_gone_def stopLocalPod_def stop_discovered_def split: option.split)

interpretation pod_service: machine pod_step "\<lambda>e s. True" service_ok new_pod_service
proof
  show "service_ok new_pod_service" by (simp add: service_ok_def new_pod_service_def)
  show "service_ok (pod_step e s)" if "service_ok s" "True" for e s using that by (simp add: service_ok_step)
qed

lemma recorded_pod_was_started:
  assumes "s = fold pod_step es new_pod_service" "sv_process s = Some p"
  shows "pp_child p \<in> fst ` set (sv_spawned s) \<and> (pp_child p, Some p) \<in> set (sv_results s) \<and> pp_port p \<noteq> 0"
  using pod_service.inv_history [of es] assms by (simp add: service_ok_def)

text \<open>A pod is started once: as long as one is recorded, starting gives that one.\<close>

lemma recorded_pod_returned:
  "sv_process s = Some p \<Longrightarrow>
    startLocalPod opts folder s =
      s\<lparr>sv_next := Suc (sv_next s), sv_starts := AList.delete (sv_next s) (sv_starts s),
        sv_results := sv_results s @ [(sv_next s, Some p)]\<rparr>"
  by (simp add: startLocalPod_def enter_start_def start_returns_def)

definition no_options :: pod_options where
  "no_options = \<lparr>so_port = None, so_workspacePath = None, so_name = None\<rparr>"

definition ex_start :: "nat \<Rightarrow> pod_event list" where
  "ex_start c = [StartPod no_options (Some ''/w''), BinaryFound c (Some ''podex-local-pod'') (Inr (Some (100 + int c)))]"

text \<open>A child that ends within the two seconds is recorded all the same, and no other is started any more.\<close>

lemma dead_pod_recorded:
  "let s = fold pod_step (ex_start 0 @ [PodGone, StartWaited 0, PortDiscovered 0 None]) new_pod_service
   in map_option pp_pid (sv_process s) = Some (Some 100) \<and> map_option pp_port (sv_process s) = Some 3001 \<and>
      sv_spawned (pod_step (StartPod no_options (Some ''/w'')) s) = sv_spawned s"
  by code_simp

text \<open>Two starts within the two seconds: both spawn a child, the first is forgotten, and its end forgets the second.\<close>

lemma two_pods_started:
  "let s = fold pod_step (ex_start 0 @ ex_start 1 @ [PodOutput 0 ''Listening on port 4000'', StartWaited 0,
             PodOutput 1 ''Listening on port 4001'', StartWaited 1]) new_pod_service
   in map fst (sv_spawned s) = [0, 1] \<and> map_option pp_pid (sv_process s) = Some (Some 101) \<and>
      sv_process (pod_step PodGone s) = None"
  by code_simp

text \<open>A pod that names its port after the two seconds is recorded with port 3001.\<close>

lemma late_port_ignored:
  "map_option pp_port (sv_process (fold pod_step (ex_start 0 @ [StartWaited 0, PortDiscovered 0 None,
     PodOutput 0 ''Listening on port 4000'']) new_pod_service)) = Some 3001"
  by code_simp

end
