(* ===== verification/Default_Bindings.thy ===== *)
theory Default_Bindings
  imports Keybindings_Store
begin

text \<open>
  The default shortcuts of the workspace (\<open>apps/web/src/lib/keybindings/defaultBindings.ts\<close>) and the
  hook of the workspace that registers them below those of the user
  (\<open>apps/web/src/hooks/useKeybindings.ts\<close>). The root of the page mounts the hook of
  \<open>Keybindings_Store\<close> besides, and both work on the one manager.
\<close>

section \<open>The table\<close>

definition key_default :: "string \<Rightarrow> string \<Rightarrow> string \<Rightarrow> string option \<Rightarrow> string \<Rightarrow> string \<Rightarrow> keybinding" where
  "key_default i key command w description category =
     \<lparr>kb_id = i, kb_key = key, kb_command = command, kb_when = w, kb_description = Some description,
      kb_category = Some category\<rparr>"

definition navigation_defaults :: "keybinding list" where
  "navigation_defaults =
    [key_default ''quickOpen'' ''mod+p'' ''quickOpen.toggle'' None
       ''Quick open file'' ''Navigation'',
     key_default ''commandPalette'' ''mod+k'' ''commandPalette.toggle'' None
       ''Open command palette'' ''Navigation'',
     key_default ''commandPaletteAlt'' ''mod+shift+p'' ''commandPalette.toggle'' None
       ''Open command palette (alternative)'' ''Navigation'',
     key_default ''goToLine'' ''mod+g'' ''editor.goToLine'' (Some ''editorFocus'')
       ''Go to line'' ''Navigation'',
     key_default ''goToSymbol'' ''mod+shift+o'' ''editor.goToSymbol'' (Some ''editorFocus'')
       ''Go to symbol in file'' ''Navigation'',
     key_default ''goToDefinition'' ''f12'' ''editor.goToDefinition'' (Some ''editorFocus'')
       ''Go to definition'' ''Navigation'',
     key_default ''peekDefinition'' ''alt+f12'' ''editor.peekDefinition'' (Some ''editorFocus'')
       ''Peek definition'' ''Navigation'',
     key_default ''findReferences'' ''shift+f12'' ''editor.findReferences'' (Some ''editorFocus'')
       ''Find all references'' ''Navigation'']"

definition view_defaults :: "keybinding list" where
  "view_defaults =
    [key_default ''toggleSidebar'' ''mod+b'' ''sidebar.toggle'' None
       ''Toggle sidebar'' ''View'',
     key_default ''toggleTerminal'' ''mod+backtick'' ''terminal.toggle'' None
       ''Toggle terminal'' ''View'',
     key_default ''togglePanel'' ''mod+j'' ''panel.toggle'' None
       ''Toggle panel'' ''View'',
     key_default ''focusFileExplorer'' ''mod+shift+e'' ''fileExplorer.focus'' None
       ''Focus file explorer'' ''View'',
     key_default ''focusGit'' ''mod+shift+g'' ''git.focus'' None
       ''Focus source control'' ''View'',
     key_default ''zoomIn'' ''mod+='' ''view.zoomIn'' None
       ''Zoom in'' ''View'',
     key_default ''zoomOut'' ''mod+-'' ''view.zoomOut'' None
       ''Zoom out'' ''View'',
     key_default ''resetZoom'' ''mod+0'' ''view.resetZoom'' None
       ''Reset zoom'' ''View'']"

definition code_defaults :: "keybinding list" where
  "code_defaults =
    [key_default ''splitEditor'' (''mod+'' @ [CHR 0x5C]) ''editor.split'' (Some ''editorFocus'')
       ''Split editor'' ''Editor'',
     key_default ''closeTab'' ''mod+w'' ''editor.closeTab'' (Some ''editorFocus'')
       ''Close tab'' ''Editor'',
     key_default ''reopenClosedTab'' ''mod+shift+t'' ''editor.reopenClosedTab'' None
       ''Reopen closed tab'' ''Editor'',
     key_default ''nextTab'' ''mod+tab'' ''editor.nextTab'' None
       ''Next tab'' ''Editor'',
     key_default ''prevTab'' ''mod+shift+tab'' ''editor.prevTab'' None
       ''Previous tab'' ''Editor'',
     key_default ''tab1'' ''mod+1'' ''editor.focusTab1'' None
       ''Go to tab 1'' ''Editor'',
     key_default ''tab2'' ''mod+2'' ''editor.focusTab2'' None
       ''Go to tab 2'' ''Editor'',
     key_default ''tab3'' ''mod+3'' ''editor.focusTab3'' None
       ''Go to tab 3'' ''Editor'',
     key_default ''tab4'' ''mod+4'' ''editor.focusTab4'' None
       ''Go to tab 4'' ''Editor'',
     key_default ''tab5'' ''mod+5'' ''editor.focusTab5'' None
       ''Go to tab 5'' ''Editor'']"

definition find_defaults :: "keybinding list" where
  "find_defaults =
    [key_default ''find'' ''mod+f'' ''editor.find'' (Some ''editorFocus'')
       ''Find'' ''Find'',
     key_default ''replace'' ''mod+h'' ''editor.replace'' (Some ''editorFocus'')
       ''Replace'' ''Find'',
     key_default ''findInFiles'' ''mod+shift+f'' ''search.findInFiles'' None
       ''Find in files'' ''Find'',
     key_default ''replaceInFiles'' ''mod+shift+h'' ''search.replaceInFiles'' None
       ''Replace in files'' ''Find'',
     key_default ''findNext'' ''f3'' ''editor.findNext'' (Some ''editorFocus'')
       ''Find next'' ''Find'',
     key_default ''findPrev'' ''shift+f3'' ''editor.findPrev'' (Some ''editorFocus'')
       ''Find previous'' ''Find'',
     key_default ''addSelectionToNextMatch'' ''mod+d'' ''editor.addSelectionToNextMatch'' (Some ''editorFocus'')
       ''Add selection to next match'' ''Find'',
     key_default ''selectAllOccurrences'' ''mod+shift+l'' ''editor.selectAllOccurrences'' (Some ''editorFocus'')
       ''Select all occurrences'' ''Find'']"

definition editing_defaults :: "keybinding list" where
  "editing_defaults =
    [key_default ''newFile'' ''mod+shift+p'' ''file.newFile'' None
       ''New File'' ''Edit'',
     key_default ''save'' ''mod+s'' ''editor.save'' (Some ''editorFocus'')
       ''Save file'' ''Edit'',
     key_default ''saveAll'' ''mod+alt+s'' ''editor.saveAll'' None
       ''Save all files'' ''Edit'',
     key_default ''undo'' ''mod+z'' ''editor.undo'' (Some ''editorFocus'')
       ''Undo'' ''Edit'',
     key_default ''redo'' ''mod+shift+z'' ''editor.redo'' (Some ''editorFocus'')
       ''Redo'' ''Edit'',
     key_default ''redoAlt'' ''mod+y'' ''editor.redo'' (Some ''editorFocus'')
       ''Redo'' ''Edit'',
     key_default ''cut'' ''mod+x'' ''editor.cut'' (Some ''editorFocus'')
       ''Cut'' ''Edit'',
     key_default ''copy'' ''mod+c'' ''editor.copy'' (Some ''editorFocus'')
       ''Copy'' ''Edit'',
     key_default ''paste'' ''mod+v'' ''editor.paste'' (Some ''editorFocus'')
       ''Paste'' ''Edit'',
     key_default ''toggleComment'' ''mod+/'' ''editor.toggleComment'' (Some ''editorFocus'')
       ''Toggle line comment'' ''Edit'',
     key_default ''toggleBlockComment'' ''mod+shift+/'' ''editor.toggleBlockComment'' (Some ''editorFocus'')
       ''Toggle block comment'' ''Edit'']"

definition editing_more_defaults :: "keybinding list" where
  "editing_more_defaults =
    [key_default ''deleteLine'' ''mod+shift+k'' ''editor.deleteLine'' (Some ''editorFocus'')
       ''Delete line'' ''Edit'',
     key_default ''moveLineUp'' ''alt+up'' ''editor.moveLineUp'' (Some ''editorFocus'')
       ''Move line up'' ''Edit'',
     key_default ''moveLineDown'' ''alt+down'' ''editor.moveLineDown'' (Some ''editorFocus'')
       ''Move line down'' ''Edit'',
     key_default ''copyLineUp'' ''alt+shift+up'' ''editor.copyLineUp'' (Some ''editorFocus'')
       ''Copy line up'' ''Edit'',
     key_default ''copyLineDown'' ''alt+shift+down'' ''editor.copyLineDown'' (Some ''editorFocus'')
       ''Copy line down'' ''Edit'',
     key_default ''insertLineBelow'' ''mod+enter'' ''editor.insertLineBelow'' (Some ''editorFocus'')
       ''Insert line below'' ''Edit'',
     key_default ''insertLineAbove'' ''mod+shift+enter'' ''editor.insertLineAbove'' (Some ''editorFocus'')
       ''Insert line above'' ''Edit'',
     key_default ''indentLine'' ''mod+]'' ''editor.indentLine'' (Some ''editorFocus'')
       ''Indent line'' ''Edit'',
     key_default ''outdentLine'' ''mod+['' ''editor.outdentLine'' (Some ''editorFocus'')
       ''Outdent line'' ''Edit'',
     key_default ''formatDocument'' ''mod+shift+i'' ''editor.formatDocument'' (Some ''editorFocus'')
       ''Format document'' ''Edit'',
     key_default ''rename'' ''f2'' ''editor.rename'' (Some ''editorFocus'')
       ''Rename symbol'' ''Edit'',
     key_default ''quickFix'' ''mod+.'' ''editor.quickFix'' (Some ''editorFocus'')
       ''Quick fix'' ''Edit'']"

definition selection_defaults :: "keybinding list" where
  "selection_defaults =
    [key_default ''selectAll'' ''mod+a'' ''editor.selectAll'' (Some ''editorFocus'')
       ''Select all'' ''Selection'',
     key_default ''expandSelection'' ''mod+shift+right'' ''editor.expandSelection'' (Some ''editorFocus'')
       ''Expand selection'' ''Selection'',
     key_default ''shrinkSelection'' ''mod+shift+left'' ''editor.shrinkSelection'' (Some ''editorFocus'')
       ''Shrink selection'' ''Selection'',
     key_default ''addCursorAbove'' ''mod+alt+up'' ''editor.addCursorAbove'' (Some ''editorFocus'')
       ''Add cursor above'' ''Selection'',
     key_default ''addCursorBelow'' ''mod+alt+down'' ''editor.addCursorBelow'' (Some ''editorFocus'')
       ''Add cursor below'' ''Selection'']"

definition folding_defaults :: "keybinding list" where
  "folding_defaults =
    [key_default ''fold'' ''mod+shift+['' ''editor.fold'' (Some ''editorFocus'')
       ''Fold region'' ''Folding'',
     key_default ''unfold'' ''mod+shift+]'' ''editor.unfold'' (Some ''editorFocus'')
       ''Unfold region'' ''Folding'',
     key_default ''foldAll'' ''mod+k mod+0'' ''editor.foldAll'' (Some ''editorFocus'')
       ''Fold all regions'' ''Folding'',
     key_default ''unfoldAll'' ''mod+k mod+j'' ''editor.unfoldAll'' (Some ''editorFocus'')
       ''Unfold all regions'' ''Folding'']"

definition agent_defaults :: "keybinding list" where
  "agent_defaults =
    [key_default ''inlineChat'' ''mod+i'' ''agent.inlineChat'' (Some ''editorFocus'')
       ''Open inline chat'' ''AI'',
     key_default ''explainCode'' ''mod+k mod+e'' ''agent.explainCode'' (Some ''editorFocus'')
       ''Explain selected code'' ''AI'',
     key_default ''fixCode'' ''mod+k mod+f'' ''agent.fixCode'' (Some ''editorFocus'')
       ''Fix selected code'' ''AI'',
     key_default ''refactorCode'' ''mod+k mod+r'' ''agent.refactorCode'' (Some ''editorFocus'')
       ''Refactor selected code'' ''AI'',
     key_default ''generateTests'' ''mod+k mod+t'' ''agent.generateTests'' (Some ''editorFocus'')
       ''Generate tests for selection'' ''AI'',
     key_default ''addDocumentation'' ''mod+k mod+d'' ''agent.addDocumentation'' (Some ''editorFocus'')
       ''Add documentation'' ''AI'',
     key_default ''acceptSuggestion'' ''tab'' ''agent.acceptSuggestion'' (Some ''editorFocus && suggestionVisible'')
       ''Accept AI suggestion'' ''AI'',
     key_default ''dismissSuggestion'' ''esc'' ''agent.dismissSuggestion'' (Some ''editorFocus && suggestionVisible'')
       ''Dismiss AI suggestion'' ''AI'',
     key_default ''nextSuggestion'' ''alt+]'' ''agent.nextSuggestion'' (Some ''editorFocus && suggestionVisible'')
       ''Next AI suggestion'' ''AI'',
     key_default ''prevSuggestion'' ''alt+['' ''agent.prevSuggestion'' (Some ''editorFocus && suggestionVisible'')
       ''Previous AI suggestion'' ''AI'']"

definition git_defaults :: "keybinding list" where
  "git_defaults =
    [key_default ''gitCommit'' ''mod+k mod+c'' ''git.commit'' None
       ''Git commit'' ''Git'',
     key_default ''gitPush'' ''mod+k mod+p'' ''git.push'' None
       ''Git push'' ''Git'',
     key_default ''gitPull'' ''mod+k mod+l'' ''git.pull'' None
       ''Git pull'' ''Git'']"

definition debug_defaults :: "keybinding list" where
  "debug_defaults =
    [key_default ''startDebugging'' ''f5'' ''debug.start'' None
       ''Start debugging'' ''Debug'',
     key_default ''stopDebugging'' ''shift+f5'' ''debug.stop'' None
       ''Stop debugging'' ''Debug'',
     key_default ''restartDebugging'' ''mod+shift+f5'' ''debug.restart'' None
       ''Restart debugging'' ''Debug'',
     key_default ''stepOver'' ''f10'' ''debug.stepOver'' None
       ''Step over'' ''Debug'',
     key_default ''stepInto'' ''f11'' ''debug.stepInto'' None
       ''Step into'' ''Debug'',
     key_default ''stepOut'' ''shift+f11'' ''debug.stepOut'' None
       ''Step out'' ''Debug'',
     key_default ''toggleBreakpoint'' ''f9'' ''debug.toggleBreakpoint'' (Some ''editorFocus'')
       ''Toggle breakpoint'' ''Debug'']"

definition terminal_defaults :: "keybinding list" where
  "terminal_defaults =
    [key_default ''newTerminal'' ''mod+shift+backtick'' ''terminal.new'' None
       ''New terminal'' ''Terminal'',
     key_default ''clearTerminal'' ''mod+k'' ''terminal.clear'' (Some ''terminalFocus'')
       ''Clear terminal'' ''Terminal'']"

definition settings_defaults :: "keybinding list" where
  "settings_defaults =
    [key_default ''openSettings'' ''mod+,'' ''settings.open'' None
       ''Open settings'' ''Settings'',
     key_default ''openKeyboardShortcuts'' ''mod+k mod+s'' ''settings.openKeyboardShortcuts'' None
       ''Open keyboard shortcuts'' ''Settings'']"

definition default_keybindings :: "keybinding list" where
  "default_keybindings =
     navigation_defaults @ view_defaults @ code_defaults @ find_defaults @ editing_defaults @ editing_more_defaults @
     selection_defaults @ folding_defaults @ agent_defaults @ git_defaults @ debug_defaults @ terminal_defaults @ settings_defaults"

definition add_binding :: "keybinding \<Rightarrow> keybinding list obj \<Rightarrow> keybinding list obj" where
  "add_binding b grouped =
     (let category = str_or (kb_category b) ''Other''
      in AList.update category (bucket grouped category @ [b]) grouped)"

definition getKeybindingsByCategory :: "keybinding list obj" where
  "getKeybindingsByCategory = fold add_binding default_keybindings []"

section \<open>The hook of the workspace\<close>

text \<open>The flags of the interface that the conditions of bindings ask for.\<close>

definition update_context :: "bool \<Rightarrow> bool \<Rightarrow> string option \<Rightarrow> kb_manager \<Rightarrow> kb_manager" where
  "update_context quickOpenOpen commandPaletteOpen activeModal =
     setContext (\<lambda>c. c\<lparr>kc_quickOpenOpen := quickOpenOpen, kc_commandPaletteOpen := commandPaletteOpen,
       kc_modalOpen := activeModal \<noteq> None\<rparr>)"

definition user_binding :: "binding \<Rightarrow> keybinding" where
  "user_binding kb =
     \<lparr>kb_id = bi_id kb, kb_key = replace_all [''cmd''] ''mod'' (to_lower (join_with '' '' (bi_keys kb))),
      kb_command = bi_command kb, kb_when = bi_when kb, kb_description = Some (bi_label kb),
      kb_category = Some (bi_category kb)\<rparr>"

definition register_all :: "binding list \<Rightarrow> kb_manager \<Rightarrow> kb_manager" where
  "register_all userKeybindings m =
     registerKeybindings (map user_binding userKeybindings)
       (registerKeybindings default_keybindings (clearAllKeybindings m))"

text \<open>Handlers are numbers; those of a list of commands follow \<open>base\<close>.\<close>

definition mount_commands :: "string list \<Rightarrow> nat \<Rightarrow> kb_manager \<Rightarrow> kb_manager" where
  "mount_commands commands base m =
     fold (\<lambda>(i, c). registerCommand c (base + i)) (List.enumerate 0 commands) m"

definition unmount_commands :: "string list \<Rightarrow> kb_manager \<Rightarrow> kb_manager" where
  "unmount_commands commands m = fold unregisterCommand commands m"

text \<open>
  A change of the user's bindings is seen by both hooks in the same commit: the effects of the workspace
  run before those of the root around it.
\<close>

definition bindings_changed :: "binding list \<Rightarrow> kb_manager \<Rightarrow> kb_manager" where
  "bindings_changed bs m = useKeybindingsSync bs (register_all bs m)"

end
