(* ===== verification/Workspace_Commands.thy ===== *)
theory Workspace_Commands
  imports Default_Bindings Editor_Properties Ui_Store Session_Layout
begin

text \<open>
  What the shortcuts of the workspace do (\<open>apps/web/src/hooks/useWorkspaceKeybindingCommands.ts\<close> and
  the core handlers of \<open>useKeybindings.ts\<close>): the keybinding manager, the editor, the interface and
  the sessions together. A handler is an action on all of them; the manager knows it by its number.
\<close>

section \<open>The workspace\<close>

record workspace =
  wk_manager :: kb_manager
  wk_editor :: editor_state
  wk_ui :: ui_state
  wk_sessions :: session_state
  wk_sessionId :: ident
  wk_toasts :: "string list"
  wk_pages :: "string list"

text \<open>What an action reads of the world: the clock, a random string, a fresh tab id.\<close>

record action_world =
  aw_clock :: clock
  aw_random :: string
  aw_tabId :: ident

type_synonym workspace_action = "action_world \<Rightarrow> workspace \<Rightarrow> workspace"

definition on_ui :: "(ui_state \<Rightarrow> ui_state) \<Rightarrow> workspace_action" where
  "on_ui f a w = w\<lparr>wk_ui := f (wk_ui w)\<rparr>"

definition on_editor :: "(editor_state \<Rightarrow> editor_state) \<Rightarrow> workspace \<Rightarrow> workspace" where
  "on_editor f w = w\<lparr>wk_editor := f (wk_editor w)\<rparr>"

definition act_toast :: "string \<Rightarrow> workspace_action" where
  "act_toast msg a w = w\<lparr>wk_toasts := wk_toasts w @ [msg]\<rparr>"

definition show_panel :: "panel_id \<Rightarrow> string \<Rightarrow> workspace_action" where
  "show_panel panel msg = on_ui (\<lambda>u. announce msg (addPanel panel LeftSide (toggleSidebar LeftSide u)))"

definition open_page :: "string \<Rightarrow> workspace_action" where
  "open_page page a w = w\<lparr>wk_pages := wk_pages w @ [page]\<rparr>"

fun shell_name :: "shell \<Rightarrow> string" where
  "shell_name Bash = ''bash''"
| "shell_name Zsh = ''zsh''"
| "shell_name Fish = ''fish''"

definition new_terminal :: workspace_action where
  "new_terminal a w =
     w\<lparr>wk_sessions := fst (addTerminalWindow (aw_clock a) (aw_random a) (wk_sessionId w) Panel None
          (Some (shell_name (ui_defaultShell (wk_ui w)))) (wk_sessions w)),
       wk_ui := announce ''New terminal created'' (wk_ui w)\<rparr>"

definition git_shortcut :: "string \<Rightarrow> workspace_action" where
  "git_shortcut msg a w =
     act_toast msg a (on_ui (\<lambda>u. addPanel PanelGit LeftSide (toggleSidebar LeftSide u)) a w)"

section \<open>Tabs\<close>

definition getActiveEditorContext :: "editor_state \<Rightarrow> (ident \<times> split_pane \<times> editor_tab list) option" where
  "getActiveEditorContext e =
     (let paneId = (case es_activePaneId e of
            Some k \<Rightarrow> if k \<noteq> [] \<and> map_of (es_panes e) k \<noteq> None then Some k else js_at (es_paneOrder e) 0
          | None \<Rightarrow> js_at (es_paneOrder e) 0)
      in case paneId of
           None \<Rightarrow> None
         | Some k \<Rightarrow>
             if k = [] then None
             else (case map_of (es_panes e) k of None \<Rightarrow> None | Some pane \<Rightarrow> Some (k, pane, getTabsForPane k e)))"

definition close_active_tab :: workspace_action where
  "close_active_tab a w =
     (case getActiveTab (wk_editor w) of Some tab \<Rightarrow> on_editor (closeTab (et_id tab)) w | None \<Rightarrow> w)"

definition reopen_tab :: workspace_action where
  "reopen_tab a w =
     (case reopenClosedTab (aw_tabId a) (wk_editor w) of
        (e, Some tab) \<Rightarrow> w\<lparr>wk_editor := e\<rparr>
      | (e, None) \<Rightarrow> act_toast ''No recently closed tabs to reopen.'' a (w\<lparr>wk_editor := e\<rparr>))"

text \<open>\<open>move\<close> gives the index of the tab to go to from that of the active one and the number of tabs.\<close>

definition move_tab :: "(int \<Rightarrow> int \<Rightarrow> int) \<Rightarrow> editor_state \<Rightarrow> editor_state" where
  "move_tab move e =
     (case getActiveEditorContext e of
        None \<Rightarrow> e
      | Some (paneId, pane, tabs) \<Rightarrow>
          if \<not> truthy (sp_activeTabId pane) \<or> tabs = [] then e
          else let index = findIndex (\<lambda>t. Some (et_id t) = sp_activeTabId pane) tabs
               in case js_at tabs (move index (int (length tabs))) of
                    Some tab \<Rightarrow> setActiveTab (et_id tab) e
                  | None \<Rightarrow> e)"

definition next_tab :: workspace_action where
  "next_tab a = on_editor (move_tab (\<lambda>index n. (index + 1) mod n))"

definition prev_tab :: workspace_action where
  "prev_tab a = on_editor (move_tab (\<lambda>index n. (index - 1 + n) mod n))"

definition focusTabByIndex :: "int \<Rightarrow> workspace_action" where
  "focusTabByIndex index a =
     on_editor (\<lambda>e. case getActiveEditorContext e of
        None \<Rightarrow> e
      | Some (paneId, pane, tabs) \<Rightarrow>
          (case js_at tabs index of Some tab \<Rightarrow> setActiveTab (et_id tab) e | None \<Rightarrow> e))"

section \<open>The handlers\<close>

definition core_handlers :: "(string \<times> workspace_action) list" where
  "core_handlers =
    [(''quickOpen.toggle'', on_ui toggleQuickOpen), (''nav.quickOpen'', on_ui toggleQuickOpen),
     (''commandPalette.toggle'', on_ui toggleCommandPalette), (''nav.commandPalette'', on_ui toggleCommandPalette),
     (''file.newFile'', on_ui (openModal ''new-file'' [])),
     (''terminal.toggle'', on_ui toggleTerminal), (''view.toggleTerminal'', on_ui toggleTerminal),
     (''sidebar.toggle'', on_ui (toggleSidebar LeftSide)), (''view.toggleSidebar'', on_ui (toggleSidebar LeftSide)),
     (''sidebar.toggleRight'', on_ui (toggleSidebar RightSide)),
     (''panel.toggle'', on_ui (set_field TogglePanel)), (''view.togglePanel'', on_ui (set_field TogglePanel))]"

definition workspace_handlers :: "(string \<times> workspace_action) list" where
  "workspace_handlers =
    [(''fileExplorer.focus'', show_panel PanelFiles ''File explorer focused''),
     (''git.focus'', show_panel PanelGit ''Git panel focused''),
     (''editor.split'', act_toast ''Editor split is not yet implemented.''),
     (''editor.closeTab'', close_active_tab),
     (''editor.reopenClosedTab'', reopen_tab),
     (''editor.nextTab'', next_tab),
     (''editor.prevTab'', prev_tab),
     (''editor.focusTab1'', focusTabByIndex 0),
     (''editor.focusTab2'', focusTabByIndex 1),
     (''editor.focusTab3'', focusTabByIndex 2),
     (''editor.focusTab4'', focusTabByIndex 3),
     (''editor.focusTab5'', focusTabByIndex 4),
     (''search.findInFiles'', show_panel PanelSearch ''Search in files opened''),
     (''search.replaceInFiles'', show_panel PanelSearch ''Search and replace in files opened''),
     (''settings.open'', open_page ''/settings''),
     (''settings.openKeyboardShortcuts'', open_page ''/settings/keybindings''),
     (''terminal.new'', new_terminal),
     (''terminal.clear'', act_toast ''Clearing the terminal from keyboard is not yet implemented.''),
     (''agent.inlineChat'', act_toast ''Inline chat shortcut is not yet implemented.''),
     (''agent.explainCode'', act_toast ''Explain code shortcut is not yet implemented.''),
     (''agent.fixCode'', act_toast ''Fix code shortcut is not yet implemented.''),
     (''agent.refactorCode'', act_toast ''Refactor code shortcut is not yet implemented.''),
     (''agent.generateTests'', act_toast ''Generate tests shortcut is not yet implemented.''),
     (''agent.addDocumentation'', act_toast ''Add documentation shortcut is not yet implemented.''),
     (''agent.acceptSuggestion'', act_toast ''Accept suggestion shortcut is not yet implemented.''),
     (''agent.dismissSuggestion'', act_toast ''Dismiss suggestion shortcut is not yet implemented.''),
     (''agent.nextSuggestion'', act_toast ''Next suggestion shortcut is not yet implemented.''),
     (''agent.prevSuggestion'', act_toast ''Previous suggestion shortcut is not yet implemented.''),
     (''git.commit'', git_shortcut ''Git commit shortcut is not yet implemented.''),
     (''git.push'', git_shortcut ''Git push shortcut is not yet implemented.''),
     (''git.pull'', git_shortcut ''Git pull shortcut is not yet implemented.''),
     (''debug.start'', act_toast ''Debugging is not yet implemented.''),
     (''debug.stop'', act_toast ''Debugging is not yet implemented.''),
     (''debug.restart'', act_toast ''Debugging is not yet implemented.''),
     (''debug.stepOver'', act_toast ''Debugging is not yet implemented.''),
     (''debug.stepInto'', act_toast ''Debugging is not yet implemented.''),
     (''debug.stepOut'', act_toast ''Debugging is not yet implemented.''),
     (''debug.toggleBreakpoint'', act_toast ''Debugging is not yet implemented.'')]"

definition run_action :: "action_world \<Rightarrow> nat \<Rightarrow> workspace \<Rightarrow> workspace" where
  "run_action a h = snd ((core_handlers @ workspace_handlers) ! h) a"

definition mount_workspace :: "workspace \<Rightarrow> workspace" where
  "mount_workspace w =
     w\<lparr>wk_manager := mount_commands (map fst workspace_handlers) (length core_handlers)
          (mount_commands (map fst core_handlers) 0 (wk_manager w))\<rparr>"

definition unmount_workspace :: "workspace \<Rightarrow> workspace" where
  "unmount_workspace w =
     w\<lparr>wk_manager := unmount_commands (map fst workspace_handlers) (unmount_commands (map fst core_handlers) (wk_manager w))\<rparr>"

text \<open>A key is pressed: the manager runs at most one handler.\<close>

definition press_key :: "action_world \<Rightarrow> bool \<Rightarrow> bool \<Rightarrow> key_event \<Rightarrow> workspace \<Rightarrow> workspace" where
  "press_key a isInTerminal isInput event w =
     (let m = handleKeyDown isInTerminal isInput event (wk_manager w)
      in fold (run_action a) (drop (length (km_ran (wk_manager w))) (km_ran m)) (w\<lparr>wk_manager := m\<rparr>))"


section \<open>What the hook of the root leaves\<close>

lemma all_bindings_update:
  "set (concat (map snd (AList.update k v m))) \<subseteq> set v \<union> set (concat (map snd m))"
  "set v \<subseteq> set (concat (map snd (AList.update k v m)))"
  "set (concat (map snd m)) \<subseteq> set (bucket m k) \<union> set (concat (map snd (AList.update k v m)))"
  for m :: "'a list obj"
  by (induction m) (auto simp: bucket_def split: if_splits)

lemma bucket_listed: "set (bucket m k) \<subseteq> set (concat (map snd m))" for m :: "'a list obj"
  by (induction m) (auto simp: bucket_def)

lemma image_replaced:
  assumes "A \<subseteq> V \<union> B" "V \<subseteq> A" "B \<subseteq> K \<union> A" "f ` V = insert c (f ` K)" "K \<subseteq> B"
  shows "f ` A = insert c (f ` B)"
proof
  have "f ` A \<subseteq> f ` V \<union> f ` B" using image_mono [OF assms(1), of f] by (simp add: image_Un)
  then show "f ` A \<subseteq> insert c (f ` B)" using assms(4) image_mono [OF assms(5), of f] by auto
  have "f ` B \<subseteq> f ` K \<union> f ` A" using image_mono [OF assms(3), of f] by (simp add: image_Un)
  moreover have "insert c (f ` K) \<subseteq> f ` A"
    using image_mono [OF assms(2), of f] by (simp only: assms(4))
  ultimately show "insert c (f ` B) \<subseteq> f ` A" by blast
qed

lemma registered_commands:
  "kb_command ` set (getAllKeybindings (registerKeybinding b m)) = insert (kb_command b) (kb_command ` set (getAllKeybindings m))"
proof -
  let ?k = "normalizeKey (km_collate m) (kb_key b)"
  let ?v = "filter (\<lambda>c. kb_command c \<noteq> kb_command b) (bucket (km_bindings m) ?k) @ [b\<lparr>kb_key := ?k\<rparr>]"
  have "km_bindings (registerKeybinding b m) = AList.update ?k ?v (km_bindings m)"
    by (simp add: registerKeybinding_def notifyListeners_def Let_def)
  then have all: "set (getAllKeybindings (registerKeybinding b m)) = set (concat (map snd (AList.update ?k ?v (km_bindings m))))"
    by (simp add: getAllKeybindings_def)
  have "kb_command ` set ?v = insert (kb_command b) (kb_command ` set (bucket (km_bindings m) ?k))"
    by auto
  from image_replaced [OF all_bindings_update(1) [of ?k ?v] all_bindings_update(2) [of ?v ?k] all_bindings_update(3) this bucket_listed]
  show ?thesis
    unfolding all by (simp add: getAllKeybindings_def)
qed

lemma registers_commands:
  "kb_command ` set (getAllKeybindings (fold (\<lambda>b. registerKeybinding (f b)) bs m)) =
     (\<lambda>b. kb_command (f b)) ` set bs \<union> kb_command ` set (getAllKeybindings m)"
  by (induction bs arbitrary: m) (auto simp: registered_commands)

lemma cleared_bindings: "getAllKeybindings (clearAllKeybindings m) = []"
  by (simp add: clearAllKeybindings_def notifyListeners_def getAllKeybindings_def)

lemma command_found: "getKeybindingForCommand c m \<noteq> None \<longleftrightarrow> c \<in> kb_command ` set (getAllKeybindings m)"
  by (auto simp: getKeybindingForCommand_def find_None_iff)

text \<open>
  C40: The hook of the workspace gives every command of the default table a binding; once the bindings of
  the user have changed, which both hooks see, a command has a binding only if one of the user's has it.
\<close>

theorem defaults_dropped:
  assumes "d \<in> set default_keybindings"
  shows "getKeybindingForCommand (kb_command d) (register_all bs m) \<noteq> None \<and>
    (getKeybindingForCommand (kb_command d) (bindings_changed bs m) \<noteq> None \<longleftrightarrow>
      kb_command d \<in> kb_command ` to_manager ` set bs)"
proof -
  have "kb_command d \<in> kb_command ` set (getAllKeybindings (register_all bs m))"
    using assms registers_commands [of "\<lambda>b. b" default_keybindings "clearAllKeybindings m"]
      registers_commands [of "\<lambda>b. b" "map user_binding bs"]
    by (simp add: register_all_def registerKeybindings_def)
  then show ?thesis
    unfolding command_found
    by (simp add: bindings_changed_def useKeybindingsSync_def registers_commands cleared_bindings image_image)
qed

definition dropped_default :: keybinding where
  "dropped_default =
     key_default ''newTerminal'' ''mod+shift+backtick'' ''terminal.new'' None ''New terminal'' ''Terminal''"

lemma dropped_default_mem: "dropped_default \<in> set default_keybindings"
  by (simp add: default_keybindings_def terminal_defaults_def dropped_default_def)

theorem defaults_dropped_witness:
  "getKeybindingForCommand ''terminal.new'' (register_all defaultKeybindings (new_manager (\<le>) False)) \<noteq> None \<and>
   getKeybindingForCommand ''terminal.new'' (bindings_changed defaultKeybindings (new_manager (\<le>) False)) = None"
proof -
  have "list_all (\<lambda>b. bi_command b \<noteq> ''terminal.new'') defaultKeybindings"
    "list_all (\<lambda>e. snd e \<noteq> ''terminal.new'') COMMAND_MAP"
    by code_simp+
  then have none: "kb_command (to_manager b) \<noteq> ''terminal.new''" if "b \<in> set defaultKeybindings" for b
    using that by (cases "map_of COMMAND_MAP (bi_id b)")
      (auto simp: list_all_iff to_manager_def str_or_def dest!: map_of_SomeD)
  have "''terminal.new'' \<notin> kb_command ` to_manager ` set defaultKeybindings"
  proof
    assume "''terminal.new'' \<in> kb_command ` to_manager ` set defaultKeybindings"
    then obtain b where "b \<in> set defaultKeybindings" "kb_command (to_manager b) = ''terminal.new''"
      by (elim imageE) simp
    with none show False by blast
  qed
  with defaults_dropped [OF dropped_default_mem, of defaultKeybindings "new_manager (\<le>) False"] show ?thesis
    by (simp add: dropped_default_def key_default_def)
qed

section \<open>The table by category\<close>

lemma grouped_bucket:
  "bucket (fold add_binding bs m) c = bucket m c @ filter (\<lambda>b. str_or (kb_category b) ''Other'' = c) bs"
  by (induction bs arbitrary: m) (simp_all add: add_binding_def Let_def)

lemma grouped_by_category:
  "bucket getKeybindingsByCategory c = filter (\<lambda>b. str_or (kb_category b) ''Other'' = c) default_keybindings"
  by (simp add: getKeybindingsByCategory_def grouped_bucket)


section \<open>Going from tab to tab\<close>

lemma tabs_of_ids:
  assumes "editor_ok e" "map_of (es_panes e) k = Some pane"
  shows "map et_id (getTabsForPane k e) = sp_tabs pane"
proof -
  have lay: "Editor_Safety.layout_ok (map_of (es_tabs e)) (map_of (es_panes e))"
    using assms(1) by (simp add: editor_ok_def)
  have each: "\<exists>t. map_of (es_tabs e) i = Some t \<and> et_id t = i" if "i \<in> set (sp_tabs pane)" for i
    using pane_tab [OF lay assms(2) that] layout_okD(1) [OF lay] by (auto simp: tab_ok_def)
  have "map et_id (tabs_of (es_tabs e) is) = is" if "set is \<subseteq> set (sp_tabs pane)" for "is"
    using that by (induction "is") (auto simp: tabs_of_def map_filter_simps dest: each)
  then show ?thesis
    by (simp add: getTabsForPane_def assms(2))
qed

text \<open>The editor with its active pane and the active tab of it.\<close>

definition at_tab :: "editor_state \<Rightarrow> ident \<Rightarrow> ident list \<Rightarrow> nat \<Rightarrow> bool" where
  "at_tab e k is x \<longleftrightarrow> editor_ok e \<and> es_activePaneId e = Some k \<and> x < length is \<and>
     (\<exists>pane. map_of (es_panes e) k = Some pane \<and> sp_tabs pane = is \<and> sp_activeTabId pane = Some (is ! x))"

lemma at_tab_set:
  assumes "at_tab e k is x" "y < length is"
  shows "at_tab (setActiveTab (is ! y) e) k is y"
proof -
  obtain pane where p: "editor_ok e" "map_of (es_panes e) k = Some pane" "sp_tabs pane = is"
    using assms(1) by (auto simp: at_tab_def)
  then have lay: "Editor_Safety.layout_ok (map_of (es_tabs e)) (map_of (es_panes e))" by (simp add: editor_ok_def)
  obtain t where t: "map_of (es_tabs e) (is ! y) = Some t" "et_paneId t = k"
    using pane_tab [OF lay p(2), of "is ! y"] p(3) assms(2) by auto
  then show ?thesis
    using p assms(2) setActiveTab_ok [OF p(1), of "is ! y"] by (auto simp: at_tab_def setActiveTab_def)
qed

lemma at_tab_move:
  assumes "at_tab e k is x" "0 \<le> move (int x) (int (length is))" "move (int x) (int (length is)) < int (length is)"
  shows "move_tab move e = setActiveTab (is ! nat (move (int x) (int (length is)))) e"
proof -
  obtain pane where p: "editor_ok e" "map_of (es_panes e) k = Some pane" "sp_tabs pane = is"
      "sp_activeTabId pane = Some (is ! x)" "es_activePaneId e = Some k" "x < length is"
    using assms(1) by (auto simp: at_tab_def)
  have lay: "Editor_Safety.layout_ok (map_of (es_tabs e)) (map_of (es_panes e))" using p(1) by (simp add: editor_ok_def)
  have k: "k \<noteq> []" "distinct is"
    using layout_okD(2) [OF lay p(2)] p(3) by (auto simp: pane_ok_def)
  let ?ts = "getTabsForPane k e"
  have ids: "map et_id ?ts = is" using tabs_of_ids [OF p(1,2)] p(3) by simp
  then have len: "length ?ts = length is" by (metis length_map)
  have "is ! x \<noteq> []"
    using layout_okD(1) [OF lay] pane_tab [OF lay p(2), of "is ! x"] p(3,6) by (auto simp: tab_ok_def)
  have "findIndex (\<lambda>t. Some (et_id t) = sp_activeTabId pane) ts = int y"
    if "map et_id ts = js" "distinct js" "y < length js" "js ! y = is ! x" for ts js y
    using that
  proof (induction ts arbitrary: js y)
    case (Cons t ts)
    then obtain js' where js: "js = et_id t # js'" "map et_id ts = js'" by auto
    show ?case
    proof (cases y)
      case 0
      with Cons.prems js p(4) show ?thesis by simp
    next
      case (Suc y')
      with Cons.prems js have "is ! x \<noteq> et_id t" by (metis distinct.simps(2) length_Cons less_Suc_eq_0_disj nat.distinct(1) nth_Cons_Suc nth_mem Suc_less_eq)
      with Cons.IH [of js' y'] Cons.prems js Suc p(4) show ?thesis by simp
    qed
  qed simp
  from this [OF ids k(2) p(6) refl] have index: "findIndex (\<lambda>t. Some (et_id t) = sp_activeTabId pane) ?ts = int x" .
  have ne: "?ts \<noteq> []" using len p(6) by auto
  have "js_at ?ts (move (int x) (int (length is))) = Some (?ts ! nat (move (int x) (int (length is))))"
    using assms(2,3) len by (simp add: js_at_def)
  moreover have "et_id (?ts ! nat (move (int x) (int (length is)))) = is ! nat (move (int x) (int (length is)))"
    using assms(2,3) len ids by (metis nat_less_iff nth_map)
  moreover have "getActiveEditorContext e = Some (k, pane, ?ts)"
    using p k(1) by (simp add: getActiveEditorContext_def)
  ultimately show ?thesis
    using index ne len p(4) \<open>is ! x \<noteq> []\<close> by (simp add: move_tab_def Let_def)
qed

lemma next_tab_at: "at_tab e k is x \<Longrightarrow> at_tab (move_tab (\<lambda>index n. (index + 1) mod n) e) k is ((x + 1) mod length is)"
proof -
  assume at: "at_tab e k is x"
  then have "0 < length is" by (auto simp: at_tab_def)
  moreover have "(int x + 1) mod int (length is) = int ((x + 1) mod length is)"
    by (simp add: zmod_int add.commute)
  ultimately show ?thesis
    using at_tab_move [OF at, of "\<lambda>index n. (index + 1) mod n"] at_tab_set [OF at, of "(x + 1) mod length is"] by simp
qed

lemma prev_tab_at: "at_tab e k is x \<Longrightarrow> at_tab (move_tab (\<lambda>index n. (index - 1 + n) mod n) e) k is ((x + length is - 1) mod length is)"
proof -
  assume at: "at_tab e k is x"
  then have "0 < length is" by (auto simp: at_tab_def)
  moreover from this have "(int x - 1 + int (length is)) mod int (length is) = int ((x + length is - 1) mod length is)"
    by (cases "length is") (simp_all add: zmod_int algebra_simps)
  ultimately show ?thesis
    using at_tab_move [OF at, of "\<lambda>index n. (index - 1 + n) mod n"] at_tab_set [OF at, of "(x + length is - 1) mod length is"] by simp
qed

lemma at_tab_active:
  assumes "at_tab e k is x"
  shows "map_option et_id (getActiveTab e) = Some (is ! x)"
proof -
  obtain pane where p: "editor_ok e" "map_of (es_panes e) k = Some pane" "sp_tabs pane = is"
      "sp_activeTabId pane = Some (is ! x)" "es_activePaneId e = Some k" "x < length is"
    using assms by (auto simp: at_tab_def)
  have lay: "Editor_Safety.layout_ok (map_of (es_tabs e)) (map_of (es_panes e))" using p(1) by (simp add: editor_ok_def)
  obtain t where t: "map_of (es_tabs e) (is ! x) = Some t"
    using pane_tab [OF lay p(2), of "is ! x"] p(3,6) by auto
  then have "et_id t = is ! x" "is ! x \<noteq> []"
    using layout_okD(1) [OF lay] by (auto simp: tab_ok_def)
  moreover have "k \<noteq> []"
    using layout_okD(2) [OF lay p(2)] by (auto simp: pane_ok_def)
  ultimately show ?thesis
    using p t by (simp add: getActiveTab_def str_or_def)
qed

lemma next_tabs_at: "at_tab (wk_editor w) k is x \<Longrightarrow> at_tab (wk_editor ((next_tab a ^^ n) w)) k is ((x + n) mod length is)"
proof (induction n)
  case 0
  then show ?case by (simp add: at_tab_def)
next
  case (Suc n)
  from next_tab_at [OF Suc.IH [OF Suc.prems]] show ?case
    by (simp add: next_tab_def on_editor_def mod_Suc_eq)
qed

text \<open>
  C39: In every state of the editor that its actions reach, pressing the shortcut of the next tab goes
  through the tabs of the active pane in their order and comes back to the first, and the shortcut of the
  previous tab takes back that of the next.
\<close>

theorem tabs_cycle:
  assumes "guarded editor_guard editor_step es init_editor" "wk_editor w = fold editor_step es init_editor"
    and "es_activePaneId (wk_editor w) = Some k" "map_of (es_panes (wk_editor w)) k = Some pane"
    and "x < length (sp_tabs pane)" "sp_activeTabId pane = Some (sp_tabs pane ! x)"
  shows "map_option et_id (getActiveTab (wk_editor ((next_tab a ^^ n) w))) = Some (sp_tabs pane ! ((x + n) mod length (sp_tabs pane))) \<and>
    map_option et_id (getActiveTab (wk_editor (prev_tab a (next_tab a w)))) = Some (sp_tabs pane ! x)"
proof -
  have at: "at_tab (wk_editor w) k (sp_tabs pane) x"
    using assms editor.inv_history [OF assms(1)] by (auto simp: at_tab_def)
  have "((x + 1) mod length (sp_tabs pane) + length (sp_tabs pane) - 1) mod length (sp_tabs pane) = x"
    using assms(5) by (cases "x + 1 = length (sp_tabs pane)") (auto simp: mod_less)
  with at_tab_active [OF prev_tab_at [OF next_tab_at [OF at]]]
  have "map_option et_id (getActiveTab (wk_editor (prev_tab a (next_tab a w)))) = Some (sp_tabs pane ! x)"
    by (simp add: next_tab_def prev_tab_def on_editor_def)
  with at_tab_active [OF next_tabs_at [OF at]] show ?thesis by blast
qed


section \<open>From the key to the action\<close>

lemma mounted_commands:
  "map_of (km_commands (mount_commands cs base m)) c = Some h \<Longrightarrow>
    (\<exists>i < length cs. cs ! i = c \<and> h = base + i) \<or> map_of (km_commands m) c = Some h"
proof (induction cs rule: rev_induct)
  case (snoc d cs)
  from snoc.prems have "c = d \<and> h = base + length cs \<or> map_of (km_commands (mount_commands cs base m)) c = Some h"
    by (auto simp: mount_commands_def enumerate_append_eq registerCommand_def split: if_splits)
  then show ?case
  proof
    assume "c = d \<and> h = base + length cs"
    then show ?thesis by (intro disjI1 exI [of _ "length cs"]) simp
  next
    assume "map_of (km_commands (mount_commands cs base m)) c = Some h"
    from snoc.IH [OF this] show ?thesis
      by (auto simp: nth_append)
  qed
qed (simp add: mount_commands_def)

text \<open>After mounting, each number names an action under its own command.\<close>

definition numbered_ok :: "kb_manager \<Rightarrow> bool" where
  "numbered_ok m \<longleftrightarrow>
     (\<forall>c h. map_of (km_commands m) c = Some h \<longrightarrow>
        h < length (core_handlers @ workspace_handlers) \<and> fst ((core_handlers @ workspace_handlers) ! h) = c)"

lemma mounted_numbered:
  assumes "km_commands (wk_manager w) = []"
  shows "numbered_ok (wk_manager (mount_workspace w))"
  unfolding numbered_ok_def
proof (intro allI impI)
  fix c h
  assume "map_of (km_commands (wk_manager (mount_workspace w))) c = Some h"
  then have "map_of (km_commands (mount_commands (map fst workspace_handlers) (length core_handlers)
      (mount_commands (map fst core_handlers) 0 (wk_manager w)))) c = Some h"
    by (simp add: mount_workspace_def)
  from mounted_commands [OF this] mounted_commands [of "map fst core_handlers" 0 "wk_manager w" c h] assms
  show "h < length (core_handlers @ workspace_handlers) \<and> fst ((core_handlers @ workspace_handlers) ! h) = c"
    by (auto simp: nth_append)
qed

lemma clear_chord_same [simp]:
  "km_bindings (clearChord m) = km_bindings m" "km_commands (clearChord m) = km_commands m" "km_ran (clearChord m) = km_ran m"
  by (simp_all add: clearChord_def)

text \<open>A key press runs nothing or the handler of one binding.\<close>

lemma keydown_runs:
  "km_ran (handleKeyDown inTerminal isInput event m) = km_ran m \<or>
   (\<exists>b h. b \<in> set (getAllKeybindings m) \<and> map_of (km_commands m) (kb_command b) = Some h \<and>
      km_ran (handleKeyDown inTerminal isInput event m) = km_ran m @ [h])"
proof -
  let ?m = "if truthy (km_chordState m) then clearChord m else m"
  have same: "km_bindings ?m = km_bindings m" "km_commands ?m = km_commands m" "km_ran ?m = km_ran m"
    by simp_all
  have ran: "km_ran (handleKeyDown inTerminal isInput event m) = km_ran m \<or>
      (\<exists>k h. find_handler ?m isInput (bucket (km_bindings ?m) k) = Some h \<and>
        km_ran (handleKeyDown inTerminal isInput event m) = km_ran m @ [h])"
    unfolding handleKeyDown_def Let_def
    by (auto simp: startChordWithPendingCommand_def startChord_def run_handler_def same split: option.split)
  then show ?thesis
  proof
    assume "\<exists>k h. find_handler ?m isInput (bucket (km_bindings ?m) k) = Some h \<and>
        km_ran (handleKeyDown inTerminal isInput event m) = km_ran m @ [h]"
    then obtain k h where h: "find_handler ?m isInput (bucket (km_bindings ?m) k) = Some h"
        "km_ran (handleKeyDown inTerminal isInput event m) = km_ran m @ [h]" by blast
    from handler_found [OF h(1)] obtain b where b: "b \<in> set (bucket (km_bindings m) k)"
        "map_of (km_commands m) (kb_command b) = Some h"
      unfolding same by blast
    then have "b \<in> set (getAllKeybindings m)"
      using bucket_listed [of "km_bindings m" k] unfolding getAllKeybindings_def by blast
    with b(2) h(2) show ?thesis by blast
  qed simp
qed

text \<open>
  C38: In the mounted workspace a key press does nothing but to the manager, or it performs exactly the
  action of one command, and that command has a binding.
\<close>

theorem key_runs_one_action:
  assumes "km_commands (wk_manager w0) = []" "w = (mount_workspace w0)\<lparr>wk_manager := m\<rparr>"
    and "km_commands m = km_commands (wk_manager (mount_workspace w0))"
    and "m' = handleKeyDown inTerminal isInput event m"
    and "press_key a inTerminal isInput event w \<noteq> w\<lparr>wk_manager := m'\<rparr>"
  shows "\<exists>c action. (c, action) \<in> set (core_handlers @ workspace_handlers) \<and>
    getKeybindingForCommand c m \<noteq> None \<and>
    press_key a inTerminal isInput event w = action a (w\<lparr>wk_manager := m'\<rparr>)"
proof -
  have m: "wk_manager w = m" by (simp add: assms(2))
  have "km_ran m' \<noteq> km_ran m"
    using assms(4,5) by (auto simp: press_key_def Let_def m)
  then obtain b h where b: "b \<in> set (getAllKeybindings m)" "map_of (km_commands m) (kb_command b) = Some h"
      "km_ran m' = km_ran m @ [h]"
    using keydown_runs [of inTerminal isInput event m] assms(4) by auto
  have h: "h < length (core_handlers @ workspace_handlers)" "fst ((core_handlers @ workspace_handlers) ! h) = kb_command b"
    using mounted_numbered [OF assms(1)] b(2) assms(3) by (simp_all add: numbered_ok_def)
  have "press_key a inTerminal isInput event w = run_action a h (w\<lparr>wk_manager := m'\<rparr>)"
    by (simp add: press_key_def Let_def m assms(4) [symmetric] b(3))
  moreover have "(kb_command b, snd ((core_handlers @ workspace_handlers) ! h)) \<in> set (core_handlers @ workspace_handlers)"
    using nth_mem [OF h(1)] h(2) by (metis prod.collapse)
  moreover have "getKeybindingForCommand (kb_command b) m \<noteq> None"
    unfolding command_found using b(1) by blast
  ultimately show ?thesis
    unfolding run_action_def by blast
qed

text \<open>The shortcut that should show a panel of the left side bar hides the bar when it is shown.\<close>

lemma shown_sidebar_hidden:
  "sb_collapsed (sl_left (ui_sidebarLayout (wk_ui (show_panel p msg a w)))) =
     (\<not> sb_collapsed (sl_left (ui_sidebarLayout (wk_ui w))))"
  by (simp add: show_panel_def on_ui_def announce_def addPanel_def toggleSidebar_def debouncedSync_def Let_def
      bar_def edit_bar_def)

section \<open>Examples\<close>

definition ex_workspace :: workspace where
  "ex_workspace =
     \<lparr>wk_manager = new_manager (\<le>) False, wk_editor = fold editor_step
        [OpenTab ''t1'' (ex_tab [] ''src/a.ts'' []), OpenTab ''t2'' (ex_tab [] ''src/b.ts'' [])] init_editor,
      wk_ui = init_ui, wk_sessions = init_session_state, wk_sessionId = ''s'', wk_toasts = [], wk_pages = []\<rparr>"

lemma ex_workspace_guarded:
  "guarded editor_guard editor_step
     [OpenTab ''t1'' (ex_tab [] ''src/a.ts'' []), OpenTab ''t2'' (ex_tab [] ''src/b.ts'' [])] init_editor"
  by (simp add: init_editor_def ex_tab_def editor_defs fresh_tab_def has_pane_def Let_def)

lemma ex_workspace_tabs:
  "es_activePaneId (wk_editor ex_workspace) = Some ''main''"
  "map_option sp_tabs (map_of (es_panes (wk_editor ex_workspace)) ''main'') = Some [''t1'', ''t2'']"
  "map_option sp_activeTabId (map_of (es_panes (wk_editor ex_workspace)) ''main'') = Some (Some ''t2'')"
  by (simp_all add: ex_workspace_def init_editor_def ex_tab_def editor_defs Let_def setActiveTab_def tabs_of_def)

definition ex_action_world :: action_world where
  "ex_action_world = \<lparr>aw_clock = \<lparr>clk_ms = 0, clk_iso = []\<rparr>, aw_random = [], aw_tabId = []\<rparr>"

theorem tabs_cycle_witness:
  "map_option et_id (getActiveTab (wk_editor ((next_tab ex_action_world ^^ 3) ex_workspace))) = Some ''t1'' \<and>
   map_option et_id (getActiveTab (wk_editor (prev_tab ex_action_world (next_tab ex_action_world ex_workspace)))) = Some ''t2''"
proof -
  obtain pane where p: "map_of (es_panes (wk_editor ex_workspace)) ''main'' = Some pane" "sp_tabs pane = [''t1'', ''t2'']"
      "sp_activeTabId pane = Some ''t2''"
    using ex_workspace_tabs(2,3) by auto
  have e: "wk_editor ex_workspace = fold editor_step
      [OpenTab ''t1'' (ex_tab [] ''src/a.ts'' []), OpenTab ''t2'' (ex_tab [] ''src/b.ts'' [])] init_editor"
    by (simp add: ex_workspace_def)
  from tabs_cycle [OF ex_workspace_guarded e ex_workspace_tabs(1) p(1), of 1 3 ex_action_world] p(2,3)
  have "map_option et_id (getActiveTab (wk_editor ((next_tab ex_action_world ^^ 3) ex_workspace))) = Some ([''t1'', ''t2''] ! (4 mod 2)) \<and>
     map_option et_id (getActiveTab (wk_editor (prev_tab ex_action_world (next_tab ex_action_world ex_workspace)))) = Some ''t2''"
    by (simp add: eval_nat_numeral)
  moreover have "[''t1'', ''t2''] ! (4 mod 2) = ''t1''" by simp
  ultimately show ?thesis by metis
qed

definition ex_sidebar_key :: key_event where
  "ex_sidebar_key = \<lparr>ke_ctrlKey = True, ke_metaKey = False, ke_altKey = False, ke_shiftKey = False, ke_key = ''b''\<rparr>"

definition ex_keyed :: kb_manager where
  "ex_keyed = registerKeybinding (key_default ''toggleSidebar'' ''mod+b'' ''sidebar.toggle'' None ''Toggle sidebar'' ''View'')
     (wk_manager (mount_workspace ex_workspace))"

lemma ex_keyed_commands: "km_commands ex_keyed = km_commands (wk_manager (mount_workspace ex_workspace))"
  by (simp add: ex_keyed_def registerKeybinding_def notifyListeners_def Let_def)

lemma ex_ran: "km_ran (handleKeyDown False False ex_sidebar_key ex_keyed) = [7]"
  by code_simp

lemma ex_not_ran: "km_ran ex_keyed = []"
  by code_simp

theorem key_runs_one_action_witness:
  "\<exists>c action. (c, action) \<in> set (core_handlers @ workspace_handlers) \<and> getKeybindingForCommand c ex_keyed \<noteq> None \<and>
     press_key ex_action_world False False ex_sidebar_key ((mount_workspace ex_workspace)\<lparr>wk_manager := ex_keyed\<rparr>) =
       action ex_action_world ((mount_workspace ex_workspace)\<lparr>wk_manager := handleKeyDown False False ex_sidebar_key ex_keyed\<rparr>)"
proof -
  let ?w = "(mount_workspace ex_workspace)\<lparr>wk_manager := ex_keyed\<rparr>" and ?m = "handleKeyDown False False ex_sidebar_key ex_keyed"
  have "press_key ex_action_world False False ex_sidebar_key ?w = run_action ex_action_world 7 (?w\<lparr>wk_manager := ?m\<rparr>)"
    by (simp add: press_key_def ex_ran ex_not_ran)
  also have "\<dots> = on_ui (toggleSidebar LeftSide) ex_action_world (?w\<lparr>wk_manager := ?m\<rparr>)"
    by (simp add: run_action_def core_handlers_def)
  finally have press: "press_key ex_action_world False False ex_sidebar_key ?w =
      on_ui (toggleSidebar LeftSide) ex_action_world (?w\<lparr>wk_manager := ?m\<rparr>)" .
  have "ui_announceTimers (toggleSidebar LeftSide u) = Suc (ui_announceTimers u)" for u
    by (simp add: toggleSidebar_def announce_def debouncedSync_def Let_def)
  then have "ui_announceTimers (wk_ui (press_key ex_action_world False False ex_sidebar_key ?w)) \<noteq>
      ui_announceTimers (wk_ui (?w\<lparr>wk_manager := ?m\<rparr>))"
    unfolding press by (simp add: on_ui_def)
  then have "press_key ex_action_world False False ex_sidebar_key ?w \<noteq> ?w\<lparr>wk_manager := ?m\<rparr>" by metis
  moreover have "km_commands (wk_manager ex_workspace) = []"
    by (simp add: ex_workspace_def new_manager_def)
  ultimately show ?thesis
    using key_runs_one_action [of ex_workspace ?w ex_keyed ?m False False ex_sidebar_key ex_action_world] ex_keyed_commands
    by (simp only: workspace.update_convs refl simp_thms) simp
qed

end
