(* ===== verification/Spec2Isabelle.thy ===== *)
theory Spec2Isabelle
  imports Session_Properties Editor_Properties Attention Approvals Pending_Changes
    Portable_Session Checkpoints Progress Api_Client_Properties Request_Cache Retry Batch
    Keybindings Parallel Dap_Client Ui_Store Web_Cache Rate_Limits Debounced_Storage
    Browser_Context Completions Socket_Client Cost_Store Planning_Store Agent_Runs Context_Usage
    Layout_Sync_Properties Web_Socket Cli_Auth Agent_Socket Keybindings_Store Mcp_Store
    Local_Pods Workspace_Commands
begin

text \<open>
  Verification of the client-side core of Podex, a web IDE in which AI agents work inside
  sessions. The services behind it are written in Python; what is verified here is the
  TypeScript that keeps the state of the clients and talks to the services.

  \<^bold>\<open>The program and how its parts interact.\<close>
  The web application (\<open>src/apps/web\<close>) keeps its state in Zustand stores. Each store is a record
  and a set of actions that replace it; React components call the actions, and so do the handlers
  of the WebSocket events. The session store refers to the streaming store (a finished stream
  becomes a message) and everything else is coupled by ids only. The portable packages
  (\<open>src/packages/state\<close>, \<open>src/packages/api-client\<close>) hold slices and an HTTP client that the other
  clients (CLI, VS Code extension) share. The client asks for a token refresh when a request is
  refused, and caches answers with de-duplication of requests under way.

  \<^bold>\<open>Conventions.\<close>
  A component is a record of its fields, a function per action or method, and an event type whose
  step function calls them; \<open>Machines\<close> holds the contract (locale \<open>machine\<close>) which a component with
  an invariant of its states interprets: it holds initially and each step that its callers may make
  keeps it. A statement about the past (which keys were chosen, which dialog was opened by hand)
  follows the events instead, with a function that reads them from the history.
  A JavaScript object used as a dictionary is an association list in insertion order
  (\<open>'v obj\<close> of \<open>Prelude\<close>); an optional field is an \<open>option\<close>; numbers are \<open>int\<close> where the code only
  adds and compares them, and doubles (\<open>Js_Number\<close>) where it divides. What the code takes from its
  surroundings (the clock, random ids, answers of the server, timers that fire) is an argument of
  the action or an event. \<open>await\<close> splits an operation into the steps between which others may run.

  \<^bold>\<open>Theories.\<close>
  \<^item> \<open>Prelude\<close>, \<open>Js_Text\<close>, \<open>Js_Number\<close>, \<open>Machines\<close>, \<open>Buckets\<close>: dictionaries, string and array
    methods of JavaScript, rounding of doubles, the locale \<open>machine\<close> and the locale
    \<open>bucket_store\<close> of the stores that list each item once per session.
  \<^item> \<open>Session_Types\<close> (\<open>sessionTypes.ts\<close>), \<open>Session_Core\<close>, \<open>Session_Conversations\<close>,
    \<open>Session_Messages\<close>, \<open>Session_Layout\<close> (\<open>stores/session.ts\<close>): the session store with every action:
    sessions and agents; conversations, their attachment to agents and the events that mirror it;
    messages with the de-duplication of optimistic copies, merging and the bound of 100; windows,
    stacking order, previews, recent files and what is persisted. \<open>Streaming\<close>
    (\<open>stores/streaming.ts\<close>): the streams, with the interface \<open>token_stream\<close> that the portable slice
    provides as well.
  \<^item> \<open>Session_Machine\<close>, \<open>Session_Safety\<close>, \<open>Message_Facts\<close>, \<open>Session_Properties\<close>: the session and
    the streaming store as one machine, its invariant and its preservation by every event, the
    algebra of message lists, and the properties with their witnesses.
  \<^item> \<open>Editor\<close>, \<open>Editor_Safety\<close>, \<open>Editor_Properties\<close> (\<open>stores/editor.ts\<close>): tabs, panes, recently
    closed tabs (at most 10), layouts and settings; tabs and panes refer to each other
    consistently; what opening, closing, reopening and splitting do.
  \<^item> \<open>Attention\<close>, \<open>Approvals\<close>, \<open>Pending_Changes\<close> (\<open>stores/attention.ts\<close>, \<open>approvals.ts\<close>,
    \<open>pendingChanges.ts\<close>): what waits for the user, with counters, the item shown, and the timers
    that remove a resolved item.
  \<^item> \<open>Portable_Session\<close>, \<open>Checkpoints\<close>, \<open>Progress\<close> (\<open>packages/state/src/stores\<close>): the portable
    slices; the streams of the portable slice refine the same interface as the web client's.
  \<^item> \<open>Api_Utils\<close>, \<open>Api_Errors\<close>, \<open>Api_Client\<close>, \<open>Api_Client_Properties\<close>, \<open>Request_Cache\<close>
    (\<open>packages/api-client/src\<close>): key conversion, query strings, the classification of errors, the
    client as a sequential specification (\<open>requestWithRetry\<close>, which returns its result and the trace
    of requests and callbacks) and as interleaved requests that share one refresh, and the cache.
  \<^item> \<open>Retry\<close>, \<open>Batch\<close> (\<open>lib/performance/requestCache.ts\<close>, \<open>lib/async-utils.ts\<close>): retrying with
    exponential back-off, batching of requests.
  \<^item> \<open>Keybindings\<close> (\<open>lib/keybindings/KeybindingManager.ts\<close>): key strings and their normal form,
    conditions, the manager with its chords and timers.
  \<^item> \<open>Parallel\<close> (\<open>lib/async-utils.ts\<close>): the workers of \<open>parallelLimit\<close> and \<open>withTimeout\<close>;
    \<open>Rate_Limits\<close>, \<open>Web_Cache\<close> (\<open>lib/performance/requestCache.ts\<close>): debounced and throttled
    requests and the request cache of the web client.
  \<^item> \<open>Debug_Store\<close>, \<open>Dap_Client\<close> (\<open>lib/debug/DAPClient.ts\<close>): the debug sessions, and the Debug
    Adapter Protocol client with its numbered requests, promises, timers and events.
  \<^item> \<open>Ui_Store\<close> (\<open>stores/ui.ts\<close>): side bars and panels with the share of the height that each has,
    overlays, modals, widget settings and the synchronised preferences.
  \<^item> \<open>Js_Format\<close>, \<open>Local_Storage\<close> (\<open>lib/storageQuota.ts\<close>), \<open>Debounced_Storage\<close>
    (\<open>stores/sessionStorage.ts\<close>): decimal formatting, the local storage with its quota, its clean-up
    and its monitor, and the adapter that delays writes, which refines a variable.
  \<^item> \<open>Dev_Tools\<close> (\<open>stores/devtools.ts\<close>), \<open>Browser_Context\<close> (\<open>stores/browserContext.ts\<close>): console,
    network and history of the preview browser, a zipper kept as a list with an index, and the
    context captured from it.
  \<^item> \<open>Completions\<close> (\<open>lib/ai/CompletionProvider.ts\<close>): inline completions with their cache, debounce
    timer and overlapping requests. \<open>Socket_Client\<close> (\<open>packages/api-client/src/socket/client.ts\<close>):
    the connection, its listeners and the session it rejoins.
  \<^item> \<open>Cost_Store\<close>, \<open>Planning_Store\<close>, \<open>Agent_Runs\<close>, \<open>Context_Usage\<close> (\<open>stores/cost.ts\<close>,
    \<open>planning.ts\<close>, \<open>subagents.ts\<close>, \<open>skills.ts\<close>, \<open>context.ts\<close>): budgets and alerts, plans, what
    agents start, and how full their contexts are.
  \<^item> \<open>Layout_Sync\<close>, \<open>Layout_Sync_Properties\<close> (\<open>hooks/useLayoutSync.ts\<close>,
    \<open>components/workspace/LayoutSyncProvider.tsx\<close>): how the layout of a session is saved and told to
    other devices, with its timers and effects. \<open>Web_Socket\<close> (\<open>lib/socket.ts\<close>): the connection of the
    web application with its one-time tokens, over \<open>Socket_Client\<close>.
  \<^item> \<open>Cli_Auth\<close> (\<open>apps/cli/src/adapters/auth-provider.ts\<close>, \<open>services/auth-service.ts\<close>,
    \<open>apps/vscode/src/adapters/vscode-auth-provider.ts\<close>): the shared credentials, the device flow with
    its timer and overlapping polls, and a request of the API client with this provider.
  \<^item> \<open>Agent_Socket\<close> (\<open>hooks/useAgentSocket.ts\<close>): the handlers that feed the server's events into the
    session and the streaming store, and the joining and leaving of a session over \<open>Web_Socket\<close>.
  \<^item> \<open>Keybindings_Store\<close> (\<open>stores/keybindings.ts\<close>, \<open>hooks/useKeybindingsSync.ts\<close>): the table of
    default shortcuts, the keys a user chooses, their debounced synchronisation, and the registration of
    all of them with the manager of \<open>Keybindings\<close>.
  \<^item> \<open>Mcp_Store\<close> (\<open>stores/mcp.ts\<close>): the servers of the MCP registry and of the user, with the
    calls under way, the actions that wait for them, and the flags that show them.
  \<^item> \<open>Local_Pods\<close> (\<open>packages/local-pod-discovery/src/discovery.ts\<close>,
    \<open>apps/vscode/src/services/local-pod-service.ts\<close>): PID files, the discovery of live pods and the wait
    for one, and the service that starts and stops a pod.
  \<^item> \<open>Default_Bindings\<close>, \<open>Workspace_Commands\<close>
    (\<open>lib/keybindings/defaultBindings.ts\<close>, \<open>hooks/useKeybindings.ts\<close>,
    \<open>hooks/useWorkspaceKeybindingCommands.ts\<close>): the default shortcuts, the two hooks that register
    bindings with the one manager, and the handlers, which act on manager, editor, interface and
    sessions together.

  \<^bold>\<open>What the lemmas show.\<close>
  Invariants of every reachable state (unique keys, mutual references, bounds, counters in step
  with their lists); the effect of the main operations on every branch; refinement of sequential
  or shared specifications by the interleaved code; independence of arrival order; round trips of
  the encoders; termination and liveness of what waits (requests, batches, removal timers); and
  the behaviours that contradict what the code or its comments mean, as theorems about the code.
  A guard states what the callers ensure (fresh ids, valid arguments), and an invariant is claimed
  of guarded histories; the text above each guard says where its conditions come from.

  \<^bold>\<open>Bounds and fuel.\<close>
  100 messages a conversation, 20 recent files and previews, 10 closed tabs are the constants of
  the code. Rounding to 53 bits looks for the scale with a fuel of 1053, which covers every
  positive value down to \<open>2 ^ -1000\<close>. No other definition needs fuel: the
  loops have structural recursions or termination proofs.

  \<^bold>\<open>Not modelled.\<close>
  React components, pages and most hooks, socket.io, Yjs, Monaco and the DOM: rendering and glue over
  libraries, without state that the stores do not hold. Of the persistence middleware the
  debounced storage and what \<open>partialize\<close> writes are modelled, not the hydration. Converters from
  API answers (they parse dates); dates that are not numbers (\<open>NaN\<close>). Keys that a plain object
  inherits (\<open>__proto__\<close>, \<open>constructor\<close>): ids are generated or come from the server. Regular
  expressions that a caller passes are a predicate. \<open>localeCompare\<close> is a parameter with the laws
  of a linear order. \<open>formatKeyForDisplay\<close> only picks display symbols. The typed wrappers of
  \<open>lib/api.ts\<close> build URLs for \<open>fetch\<close>.
\<close>

end
